(* ===== verification/Prelude.thy ===== *)
theory Prelude
  imports Main "HOL-Library.Word" "HOL-Library.Monad_Syntax"
begin

text \<open>
  Types, conventions and generic lemmas shared by every component.

  \<^item> The typedefs of \<^verbatim>\<open>iviLink/include/common/Types.hpp\<close> are words of their width, so that
    sequence numbers, sizes and identifiers wrap around as they do in the code.
  \<^item> A call that may not return has an \<^verbatim>\<open>option\<close> result: \<^verbatim>\<open>None\<close> stands for an \<^verbatim>\<open>assert\<close> that
    fails (the build never defines \<^verbatim>\<open>NDEBUG\<close>, so it aborts the process), for a dereferenced
    pointer that does not point to an object, and for a thread that stays blocked.
  \<^item> A \<^verbatim>\<open>BaseError\<close> or \<^verbatim>\<open>ConnectivityAgentError\<close> is its numeric code, because that number crosses
    the wire and comes back through an unchecked cast; code 0 is \<^verbatim>\<open>IVILINK_NO_ERROR\<close>.
\<close>

section \<open>Machine integers and constants of the framework\<close>

type_synonym u8 = "8 word"
type_synonym u16 = "16 word"
type_synonym u32 = "32 word"
type_synonym u64 = "64 word"

definition MAX_SIZE :: nat where
  "MAX_SIZE = 4096"

definition QUEUE_SIZE :: nat where
  "QUEUE_SIZE = 200"

definition CA_SERVICE_CHANNEL :: u32 where
  "CA_SERVICE_CHANNEL = 0"

definition RETRANSMIT_TIME_NSEC :: u64 where
  "RETRANSMIT_TIME_NSEC = 5 * 1000 * 1000 * 1000"

datatype TChannelPriority = eSafetyCritical | eRealTime | ePlainData

section \<open>Error codes\<close>

type_synonym ErrorCode = u32

abbreviation NO_ERROR :: ErrorCode where "NO_ERROR \<equiv> 0"
abbreviation ERROR_OTHER :: ErrorCode where "ERROR_OTHER \<equiv> 1"
abbreviation ERROR_BROKEN_PIPE :: ErrorCode where "ERROR_BROKEN_PIPE \<equiv> 2"
abbreviation ERROR_INCONSISTENT_DATA :: ErrorCode where "ERROR_INCONSISTENT_DATA \<equiv> 3"
abbreviation ERROR_HANDSHAKE_FAILED :: ErrorCode where "ERROR_HANDSHAKE_FAILED \<equiv> 4"
abbreviation ERROR_CONNECT_FAILED :: ErrorCode where "ERROR_CONNECT_FAILED \<equiv> 5"
abbreviation ERROR_RESEND_ACK :: ErrorCode where "ERROR_RESEND_ACK \<equiv> 6"
abbreviation ERROR_CHANNEL_BUSY :: ErrorCode where "ERROR_CHANNEL_BUSY \<equiv> 7"
abbreviation ERROR_WRONG_FRAME_SEQUENCE :: ErrorCode where "ERROR_WRONG_FRAME_SEQUENCE \<equiv> 8"
abbreviation ERROR_DEFERRED :: ErrorCode where "ERROR_DEFERRED \<equiv> 9"
abbreviation ERROR_ALLOCATION_IN_PROGRESS :: ErrorCode where "ERROR_ALLOCATION_IN_PROGRESS \<equiv> 10"
abbreviation ERROR_NOT_FOUND :: ErrorCode where "ERROR_NOT_FOUND \<equiv> 11"
abbreviation ERROR_REQUEST_FAILED :: ErrorCode where "ERROR_REQUEST_FAILED \<equiv> 12"
abbreviation ERROR_NO_FREE_BUFFERS_LEFT :: ErrorCode where "ERROR_NO_FREE_BUFFERS_LEFT \<equiv> 13"
abbreviation ERROR_TIMEOUT :: ErrorCode where "ERROR_TIMEOUT \<equiv> 14"

definition isNoError :: "ErrorCode \<Rightarrow> bool" where
  "isNoError e \<longleftrightarrow> e = NO_ERROR"

section \<open>Assertions\<close>

definition cassert :: "bool \<Rightarrow> unit option" where
  "cassert b = (if b then Some () else None)"

lemma cassert_simps [simp]: "cassert True = Some ()" "cassert False = None"
  by (simp_all add: cassert_def)

lemma cassert_bind_Some [simp]:
  "(cassert b \<bind> f = Some y) \<longleftrightarrow> b \<and> f () = Some y"
  by (simp add: cassert_def)

section \<open>Overwriting a region of a byte array\<close>

text \<open>\<^verbatim>\<open>memcpy (p + pos, bs, length bs)\<close> inside an array that is large enough.\<close>

definition overwrite :: "nat \<Rightarrow> 'a list \<Rightarrow> 'a list \<Rightarrow> 'a list" where
  "overwrite pos bs mem = take pos mem @ bs @ drop (pos + length bs) mem"

lemma length_overwrite [simp]:
  "pos + length bs \<le> length mem \<Longrightarrow> length (overwrite pos bs mem) = length mem"
  by (simp add: overwrite_def)

lemma take_overwrite [simp]:
  "pos \<le> length mem \<Longrightarrow> n \<le> pos \<Longrightarrow> take n (overwrite pos bs mem) = take n mem"
  by (simp add: overwrite_def min_def)

lemma take_drop_overwrite [simp]:
  "pos \<le> length mem \<Longrightarrow> take (length bs) (drop pos (overwrite pos bs mem)) = bs"
  by (simp add: overwrite_def)

lemma take_overwrite_end:
  "pos \<le> length mem \<Longrightarrow> n = pos + length bs \<Longrightarrow>
   take n (overwrite pos bs mem) = take pos mem @ bs"
  by (simp add: overwrite_def)

lemma drop_overwrite_end:
  "pos \<le> length mem \<Longrightarrow> n = pos + length bs \<Longrightarrow>
   drop n (overwrite pos bs mem) = drop n mem"
  by (simp add: overwrite_def)

lemma overwrite_overwrite_disjoint:
  "p + length bs \<le> q \<Longrightarrow> q + length cs \<le> length mem \<Longrightarrow>
   take (length bs) (drop p (overwrite q cs (overwrite p bs mem))) = bs"
proof -
  assume a: "p + length bs \<le> q" "q + length cs \<le> length mem"
  have "take (length bs) (drop p (take q (overwrite p bs mem))) = bs"
    using a by (simp add: overwrite_def drop_take min_def)
  then show ?thesis
    using a by (simp add: overwrite_def [of q])
qed

section \<open>Small facts on lists, maps and words\<close>

lemma take_drop_split: "i \<le> j \<Longrightarrow> take j xs = take i xs @ take (j - i) (drop i xs)"
  by (metis le_add_diff_inverse take_add)

lemma map_upd_dom_iff: "(m(k \<mapsto> v)) x \<noteq> None \<longleftrightarrow> x = k \<or> m x \<noteq> None"
  by simp

lemma of_nat_le_u32_iff:
  "n < 2 ^ 32 \<Longrightarrow> (of_nat n \<le> (w :: u32)) \<longleftrightarrow> n \<le> unat w"
  by (simp add: word_le_nat_alt unsigned_of_nat take_bit_nat_eq_self)

lemma unat_diff_u32: "(b :: u32) \<le> a \<Longrightarrow> unat (a - b) = unat a - unat b"
  by (simp add: unat_sub)

end
