(* ===== verification/ByteOrder.thy ===== *)
theory ByteOrder
  imports Prelude
begin

unbundle bit_operations_syntax

text \<open>
  Integers in memory, and the conversion to network order of
  \<^verbatim>\<open>framework/utils/misc/private/byteOrder.cpp\<close> and \<^verbatim>\<open>PortableByteOrder.hpp\<close>. The byte order of
  the host is a parameter, because the two ends of a link may differ in it; the round trips
  show that a value written by one host is the value read by the other.
\<close>

datatype endian = LittleEndian | BigEndian

section \<open>Byte representation of a word\<close>

definition bytes_le :: "nat \<Rightarrow> 'a::len word \<Rightarrow> u8 list" where
  "bytes_le n w = map (\<lambda>i. ucast (drop_bit (8 * i) w)) [0..<n]"

primrec of_bytes_le :: "u8 list \<Rightarrow> 'a::len word" where
  "of_bytes_le [] = 0"
| "of_bytes_le (b # bs) = ucast b OR push_bit 8 (of_bytes_le bs)"

lemma length_bytes_le [simp]: "length (bytes_le n w) = n"
  by (simp add: bytes_le_def)

lemma bit_bytes_le:
  "i < n \<Longrightarrow> bit (bytes_le n w ! i) j \<longleftrightarrow> j < 8 \<and> bit w (8 * i + j)"
  by (auto simp: bytes_le_def bit_simps)

lemma bit_of_bytes_le:
  "bit (of_bytes_le bs :: 'a::len word) n \<longleftrightarrow>
     n < LENGTH('a) \<and> n div 8 < length bs \<and> bit (bs ! (n div 8)) (n mod 8)"
proof (induction bs arbitrary: n)
  case Nil
  then show ?case by simp
next
  case (Cons b bs)
  show ?case
  proof (cases "n < 8")
    case True
    then show ?thesis by (auto simp: bit_simps)
  next
    case False
    then have d: "n div 8 = Suc ((n - 8) div 8)" and m: "n mod 8 = (n - 8) mod 8"
      by (simp_all add: le_div_geq le_mod_geq)
    from False have "\<not> bit b n"
      using bit_imp_le_length [of b n] by auto
    with False Cons.IH [of "n - 8"] show ?thesis
      by (auto simp: bit_simps d m)
  qed
qed

lemma of_bytes_le_bytes_le:
  assumes "LENGTH('a) \<le> 8 * n"
  shows "of_bytes_le (bytes_le n w) = (w :: 'a::len word)"
proof (rule bit_word_eqI)
  fix k assume k: "k < LENGTH('a)"
  with assms have "k div 8 < n" by (simp add: div_less_iff_less_mult mult.commute)
  with k show "bit (of_bytes_le (bytes_le n w) :: 'a word) k = bit w k"
    by (simp add: bit_of_bytes_le bit_bytes_le)
qed

lemma bytes_le_of_bytes_le:
  assumes "8 * length bs \<le> LENGTH('a)"
  shows "bytes_le (length bs) (of_bytes_le bs :: 'a::len word) = bs"
proof (rule nth_equalityI)
  fix i assume i: "i < length (bytes_le (length bs) (of_bytes_le bs :: 'a word))"
  show "bytes_le (length bs) (of_bytes_le bs :: 'a word) ! i = bs ! i"
  proof (rule bit_word_eqI)
    fix j :: nat assume j: "j < LENGTH(8)"
    then have "(8 * i + j) div 8 = i" "(8 * i + j) mod 8 = j" by auto
    with i j assms show "bit (bytes_le (length bs) (of_bytes_le bs :: 'a word) ! i) j = bit (bs ! i) j"
      by (auto simp: bit_bytes_le bit_of_bytes_le)
  qed
qed simp

section \<open>Host memory and network order\<close>

definition store :: "endian \<Rightarrow> nat \<Rightarrow> 'a::len word \<Rightarrow> u8 list" where
  "store e n w = (case e of LittleEndian \<Rightarrow> bytes_le n w | BigEndian \<Rightarrow> rev (bytes_le n w))"

definition load :: "endian \<Rightarrow> u8 list \<Rightarrow> 'a::len word" where
  "load e bs = (case e of LittleEndian \<Rightarrow> of_bytes_le bs | BigEndian \<Rightarrow> of_bytes_le (rev bs))"

definition swab16 :: "u16 \<Rightarrow> u16" where
  "swab16 x = push_bit 8 (x AND 0x00ff) OR drop_bit 8 (x AND 0xff00)"

definition swab32 :: "u32 \<Rightarrow> u32" where
  "swab32 x = push_bit 24 (x AND 0x000000ff) OR push_bit 8 (x AND 0x0000ff00)
     OR drop_bit 8 (x AND 0x00ff0000) OR drop_bit 24 (x AND 0xff000000)"

definition swab64 :: "u64 \<Rightarrow> u64" where
  "swab64 x = push_bit 56 (x AND 0x00000000000000ff) OR push_bit 40 (x AND 0x000000000000ff00)
     OR push_bit 24 (x AND 0x0000000000ff0000) OR push_bit 8 (x AND 0x00000000ff000000)
     OR drop_bit 8 (x AND 0x000000ff00000000) OR drop_bit 24 (x AND 0x0000ff0000000000)
     OR drop_bit 40 (x AND 0x00ff000000000000) OR drop_bit 56 (x AND 0xff00000000000000)"

definition hton16 :: "endian \<Rightarrow> u16 \<Rightarrow> u16" where
  "hton16 e x = (case e of LittleEndian \<Rightarrow> swab16 x | BigEndian \<Rightarrow> x)"

definition ntoh16 :: "endian \<Rightarrow> u16 \<Rightarrow> u16" where
  "ntoh16 e x = (case e of LittleEndian \<Rightarrow> swab16 x | BigEndian \<Rightarrow> x)"

definition hton32 :: "endian \<Rightarrow> u32 \<Rightarrow> u32" where
  "hton32 e x = (case e of LittleEndian \<Rightarrow> swab32 x | BigEndian \<Rightarrow> x)"

definition ntoh32 :: "endian \<Rightarrow> u32 \<Rightarrow> u32" where
  "ntoh32 e x = (case e of LittleEndian \<Rightarrow> swab32 x | BigEndian \<Rightarrow> x)"

definition hton64 :: "endian \<Rightarrow> u64 \<Rightarrow> u64" where
  "hton64 e x = (case e of LittleEndian \<Rightarrow> swab64 x | BigEndian \<Rightarrow> x)"

definition ntoh64 :: "endian \<Rightarrow> u64 \<Rightarrow> u64" where
  "ntoh64 e x = (case e of LittleEndian \<Rightarrow> swab64 x | BigEndian \<Rightarrow> x)"

lemma length_store [simp]: "length (store e n w) = n"
  by (simp add: store_def split: endian.splits)

lemma load_store: "LENGTH('a) \<le> 8 * n \<Longrightarrow> load e (store e n w) = (w :: 'a::len word)"
  by (simp add: load_def store_def of_bytes_le_bytes_le split: endian.splits)

lemma store_load:
  "8 * length bs \<le> LENGTH('a) \<Longrightarrow> store e (length bs) (load e bs :: 'a::len word) = bs"
  using bytes_le_of_bytes_le [of bs, where 'a = 'a] bytes_le_of_bytes_le [of "rev bs", where 'a = 'a]
  by (simp add: load_def store_def split: endian.splits)

section \<open>Network order is big-endian on every host\<close>

lemma upt_2: "[0..<2] = [0, 1 :: nat]"
  by (simp add: upt_rec)

lemma upt_4: "[0..<4] = [0, 1, 2, 3 :: nat]"
  by (simp add: upt_rec)

lemma upt_8: "[0..<8] = [0, 1, 2, 3, 4, 5, 6, 7 :: nat]"
  by (simp add: upt_rec)

lemma all_bits_8: "(\<forall>j < 8. P j) \<longleftrightarrow> P 0 \<and> P 1 \<and> P 2 \<and> P 3 \<and> P 4 \<and> P 5 \<and> P 6 \<and> P (7 :: nat)"
proof -
  have "(\<forall>j < 8. P j) \<longleftrightarrow> (\<forall>j \<in> set [0..<8]. P j)" by auto
  also have "[0..<8] = [0, 1, 2, 3, 4, 5, 6, 7 :: nat]" by (rule upt_8)
  finally show ?thesis by simp
qed

lemma u8_eq_iff: "(a :: u8) = b \<longleftrightarrow> (\<forall>j < 8. bit a j = bit b j)"
  by (auto intro: bit_word_eqI)

lemma bytes_le_swab16: "bytes_le 2 (swab16 w) = rev (bytes_le 2 w)"
  by (simp add: bytes_le_def upt_2 swab16_def u8_eq_iff all_bits_8 bit_simps)

lemma bytes_le_swab32: "bytes_le 4 (swab32 w) = rev (bytes_le 4 w)"
  by (simp add: bytes_le_def upt_4 swab32_def u8_eq_iff all_bits_8 bit_simps)

lemma u64_byte_masks:
  "(0x00000000000000ff :: u64) = push_bit 0 (mask 8)"
  "(0x000000000000ff00 :: u64) = push_bit 8 (mask 8)"
  "(0x0000000000ff0000 :: u64) = push_bit 16 (mask 8)"
  "(0x00000000ff000000 :: u64) = push_bit 24 (mask 8)"
  "(0x000000ff00000000 :: u64) = push_bit 32 (mask 8)"
  "(0x0000ff0000000000 :: u64) = push_bit 40 (mask 8)"
  "(0x00ff000000000000 :: u64) = push_bit 48 (mask 8)"
  "(0xff00000000000000 :: u64) = push_bit 56 (mask 8)"
  by (simp_all add: mask_numeral)

lemma bytes_le_swab64: "bytes_le 8 (swab64 w) = rev (bytes_le 8 w)"
  unfolding swab64_def u64_byte_masks
  by (simp add: bytes_le_def upt_8 u8_eq_iff all_bits_8 bit_simps)

lemma store_hton16 [simp]: "store e 2 (hton16 e w) = rev (bytes_le 2 w)"
  by (simp add: store_def hton16_def bytes_le_swab16 split: endian.splits)

lemma store_hton32 [simp]: "store e 4 (hton32 e w) = rev (bytes_le 4 w)"
  by (simp add: store_def hton32_def bytes_le_swab32 split: endian.splits)

lemma store_hton64 [simp]: "store e 8 (hton64 e w) = rev (bytes_le 8 w)"
  by (simp add: store_def hton64_def bytes_le_swab64 split: endian.splits)

lemma eq_by_bytes:
  "LENGTH('a) = 8 * n \<Longrightarrow> (v :: 'a::len word) = w \<longleftrightarrow> bytes_le n v = bytes_le n w"
  by (metis of_bytes_le_bytes_le order_refl)

lemma swab_involutions [simp]:
  "swab16 (swab16 a) = a" "swab32 (swab32 b) = b" "swab64 (swab64 c) = c"
  by (simp_all add: eq_by_bytes [where n = 2 and 'a = 16] eq_by_bytes [where n = 4 and 'a = 32]
      eq_by_bytes [where n = 8 and 'a = 64] bytes_le_swab16 bytes_le_swab32 bytes_le_swab64)

lemma ntoh_hton [simp]:
  "ntoh16 e (hton16 e a) = a" "ntoh32 e (hton32 e b) = b" "ntoh64 e (hton64 e c) = c"
  by (simp_all add: ntoh16_def hton16_def ntoh32_def hton32_def ntoh64_def hton64_def split: endian.splits)

text \<open>
  Reading the bytes of a big-endian field on any host gives the same value: \<^verbatim>\<open>ntoh\<close> of what the
  host loads is the big-endian reading of the bytes.
\<close>

lemma load_store_order:
  "length bs = n \<Longrightarrow> LENGTH('a) = 8 * n \<Longrightarrow>
   bytes_le n (load e bs :: 'a::len word) = (case e of LittleEndian \<Rightarrow> bs | BigEndian \<Rightarrow> rev bs)"
  using bytes_le_of_bytes_le [of bs, where 'a = 'a] bytes_le_of_bytes_le [of "rev bs", where 'a = 'a]
  by (simp add: load_def split: endian.splits)

lemma bytes_be:
  "length bs = n \<Longrightarrow> LENGTH('a) = 8 * n \<Longrightarrow> bytes_le n (of_bytes_le (rev bs) :: 'a::len word) = rev bs"
  using bytes_le_of_bytes_le [of "rev bs", where 'a = 'a] by simp

lemma ntoh16_load: "length bs = 2 \<Longrightarrow> ntoh16 e (load e bs) = of_bytes_le (rev bs)"
  by (simp add: eq_by_bytes [where n = 2 and 'a = 16] ntoh16_def bytes_le_swab16 load_store_order bytes_be
      split: endian.splits)

lemma ntoh32_load: "length bs = 4 \<Longrightarrow> ntoh32 e (load e bs) = of_bytes_le (rev bs)"
  by (simp add: eq_by_bytes [where n = 4 and 'a = 32] ntoh32_def bytes_le_swab32 load_store_order bytes_be
      split: endian.splits)

lemma ntoh64_load: "length bs = 8 \<Longrightarrow> ntoh64 e (load e bs) = of_bytes_le (rev bs)"
  by (simp add: eq_by_bytes [where n = 8 and 'a = 64] ntoh64_def bytes_le_swab64 load_store_order bytes_be
      split: endian.splits)

lemma network_order:
  "ntoh16 there (load there (store here 2 (hton16 here a))) = a"
  "ntoh32 there (load there (store here 4 (hton32 here b))) = b"
  "ntoh64 there (load there (store here 8 (hton64 here c))) = c"
  by (simp_all add: ntoh16_load ntoh32_load ntoh64_load of_bytes_le_bytes_le)

text \<open>
  A 16-, 32- or 64-bit value that one host converts to network order and stores
  is the value another host loads and converts back, whatever the byte orders of the two.
\<close>

theorem network_order_roundtrip:
  "ntoh16 there (load there (store here 2 (hton16 here a))) = a
    \<and> ntoh32 there (load there (store here 4 (hton32 here b))) = b
    \<and> ntoh64 there (load there (store here 8 (hton64 here c))) = c"
  by (intro conjI network_order)

end
