(* ===== verification/Frame.thy ===== *)
theory Frame
  imports ByteOrder
begin

text \<open>
  The link frame of \<^verbatim>\<open>HAL/Frame.hpp\<close>, its image on the wire (\<^verbatim>\<open>CFrameConverter\<close> of
  \<^verbatim>\<open>HAL/private/CCarrierAdapter.cpp\<close>) and the reading of a byte stream as frames that the
  receiving loop is measured against.
\<close>

section \<open>The frame\<close>

record Frame =
  sizeAndFlags :: u16
  channel_id :: u32
  frame_number :: u32
  frame_data :: "u8 list"

definition HEADER_SIZE :: nat where
  "HEADER_SIZE = 10"

definition setSize :: "u16 \<Rightarrow> Frame \<Rightarrow> Frame" where
  "setSize sz f = f\<lparr>sizeAndFlags := sz AND 0x7fff\<rparr>"

definition getSize :: "Frame \<Rightarrow> u16" where
  "getSize f = sizeAndFlags f AND 0x7fff"

definition isACK :: "Frame \<Rightarrow> bool" where
  "isACK f \<longleftrightarrow> sizeAndFlags f AND 0x8000 \<noteq> 0"

definition setACK :: "Frame \<Rightarrow> Frame" where
  "setACK f = f\<lparr>sizeAndFlags := sizeAndFlags f OR 0x8000\<rparr>"

text \<open>What a frame says: its header and the bytes its size covers.\<close>

definition payload :: "Frame \<Rightarrow> u8 list" where
  "payload f = take (unat (getSize f)) (frame_data f)"

definition frame_wf :: "Frame \<Rightarrow> bool" where
  "frame_wf f \<longleftrightarrow> unat (getSize f) \<le> MAX_SIZE \<and> unat (getSize f) \<le> length (frame_data f)"

definition same_frame :: "Frame \<Rightarrow> Frame \<Rightarrow> bool" where
  "same_frame f g \<longleftrightarrow> sizeAndFlags f = sizeAndFlags g \<and> channel_id f = channel_id g
     \<and> frame_number f = frame_number g \<and> payload f = payload g"

lemma size_mask: "(0x7fff :: u16) = mask 15"
  by (simp add: mask_numeral)

lemma bit_ack_mask: "bit (0x8000 :: int) n \<longleftrightarrow> n = 15"
proof -
  have "(0x8000 :: int) = 2 ^ 15" by simp
  then show ?thesis by (simp only: bit_exp_iff) auto
qed

lemma getSize_less: "unat (getSize f) < 2 ^ 15"
proof -
  have "getSize f = take_bit 15 (sizeAndFlags f)"
    by (simp add: getSize_def size_mask take_bit_eq_mask)
  then show ?thesis
    using take_bit_nat_less_exp [of 15 "unat (sizeAndFlags f)"] by (simp add: unsigned_take_bit_eq)
qed

lemma getSize_setSize: "unat sz < 2 ^ 15 \<Longrightarrow> getSize (setSize sz f) = sz"
proof -
  assume "unat sz < 2 ^ 15"
  then have "take_bit 15 sz = sz"
    by (simp add: word_unat_eq_iff unsigned_take_bit_eq take_bit_nat_eq_self)
  then show ?thesis
    by (simp add: getSize_def setSize_def size_mask take_bit_eq_mask [symmetric])
qed

lemma isACK_bit: "isACK f \<longleftrightarrow> bit (sizeAndFlags f) 15"
proof -
  have "sizeAndFlags f AND 0x8000 = 0 \<longleftrightarrow> (\<forall>n. \<not> bit (sizeAndFlags f AND 0x8000) n)"
    by (metis bit_0_eq bit_eq_iff bot_apply bot_bool_def)
  then show ?thesis
    by (auto simp: isACK_def bit_and_iff bit_ack_mask)
qed

lemma isACK_setACK [simp]: "isACK (setACK f)"
  by (simp add: isACK_bit setACK_def bit_or_iff bit_ack_mask)

lemma not_isACK_setSize [simp]: "\<not> isACK (setSize sz f)"
  by (simp add: isACK_bit setSize_def bit_simps)

lemma getSize_setACK [simp]: "getSize (setACK f) = getSize f"
  by (rule bit_word_eqI) (auto simp: getSize_def setACK_def size_mask bit_and_iff bit_or_iff bit_mask_iff bit_ack_mask)

lemma frame_fields_simps [simp]:
  "channel_id (setSize sz f) = channel_id f" "frame_number (setSize sz f) = frame_number f"
  "frame_data (setSize sz f) = frame_data f" "channel_id (setACK f) = channel_id f"
  "frame_number (setACK f) = frame_number f" "frame_data (setACK f) = frame_data f"
  by (simp_all add: setSize_def setACK_def)

section \<open>The frame on the wire\<close>

text \<open>
  \<^verbatim>\<open>frameToArray\<close> fills the array \<^verbatim>\<open>sendFrame\<close> hands to the carrier; a size larger than the data
  array would read outside it.
\<close>

definition frameToArray :: "endian \<Rightarrow> Frame \<Rightarrow> u8 list option" where
  "frameToArray e f =
     (if unat (getSize f) \<le> MAX_SIZE
      then Some (store e 2 (hton16 e (sizeAndFlags f)) @ store e 4 (hton32 e (channel_id f))
        @ store e 4 (hton32 e (frame_number f)) @ take (unat (getSize f)) (frame_data f))
      else None)"

text \<open>
  \<^verbatim>\<open>arrayToFrame\<close> as the receiving loop calls it, with source and destination the same memory:
  only the header changes.
\<close>

definition arrayToFrame :: "endian \<Rightarrow> u8 list \<Rightarrow> u8 list" where
  "arrayToFrame e mem =
     store e 2 (ntoh16 e (load e (take 2 mem))) @ store e 4 (ntoh32 e (load e (take 4 (drop 2 mem))))
     @ store e 4 (ntoh32 e (load e (take 4 (drop 6 mem)))) @ drop HEADER_SIZE mem"

text \<open>The bytes of \<^verbatim>\<open>mFrame\<close> read as a \<^verbatim>\<open>Frame\<close> object.\<close>

definition frame_view :: "endian \<Rightarrow> u8 list \<Rightarrow> Frame" where
  "frame_view e mem =
     \<lparr>sizeAndFlags = load e (take 2 mem), channel_id = load e (take 4 (drop 2 mem)),
      frame_number = load e (take 4 (drop 6 mem)), frame_data = drop HEADER_SIZE mem\<rparr>"

section \<open>A byte stream as frames\<close>

definition wire_header :: "u8 list \<Rightarrow> Frame" where
  "wire_header bs =
     \<lparr>sizeAndFlags = of_bytes_le (rev (take 2 bs)), channel_id = of_bytes_le (rev (take 4 (drop 2 bs))),
      frame_number = of_bytes_le (rev (take 4 (drop 6 bs))), frame_data = drop HEADER_SIZE bs\<rparr>"

definition wire_size :: "u8 list \<Rightarrow> nat" where
  "wire_size bs = HEADER_SIZE + unat (getSize (wire_header bs))"

function parse_stream :: "u8 list \<Rightarrow> Frame list \<times> u8 list" where
  "parse_stream bs =
     (if length bs < HEADER_SIZE \<or> length bs < wire_size bs then ([], bs)
      else let (fs, rest) = parse_stream (drop (wire_size bs) bs)
           in ((wire_header bs)\<lparr>frame_data := payload (wire_header bs)\<rparr> # fs, rest))"
  by pat_completeness auto
termination
  by (relation "measure length") (auto simp: HEADER_SIZE_def wire_size_def)

declare parse_stream.simps [simp del]

lemma parse_stream_short:
  "length bs < HEADER_SIZE \<or> length bs < wire_size bs \<Longrightarrow> parse_stream bs = ([], bs)"
  by (simp add: parse_stream.simps [of bs])

lemma parse_stream_frame:
  "HEADER_SIZE \<le> length bs \<Longrightarrow> wire_size bs \<le> length bs \<Longrightarrow>
   parse_stream bs = (let (fs, rest) = parse_stream (drop (wire_size bs) bs)
      in ((wire_header bs)\<lparr>frame_data := payload (wire_header bs)\<rparr> # fs, rest))"
  by (simp add: parse_stream.simps [of bs])

lemma parse_stream_Nil [simp]: "parse_stream [] = ([], [])"
  by (simp add: parse_stream_short HEADER_SIZE_def)

lemma parse_stream_rest_le: "length (snd (parse_stream bs)) \<le> length bs"
proof (induction bs rule: parse_stream.induct)
  case (1 bs)
  then show ?case
    by (cases "length bs < HEADER_SIZE \<or> length bs < wire_size bs")
      (auto simp: parse_stream_short parse_stream_frame not_less split: prod.splits)
qed

lemma wire_header_append:
  "HEADER_SIZE \<le> length bs \<Longrightarrow>
   wire_header (bs @ cs) = (wire_header bs)\<lparr>frame_data := frame_data (wire_header bs) @ cs\<rparr>"
  by (simp add: wire_header_def HEADER_SIZE_def)

lemma wire_size_append:
  "HEADER_SIZE \<le> length bs \<Longrightarrow> wire_size (bs @ cs) = wire_size bs"
  by (simp add: wire_size_def wire_header_append getSize_def)

text \<open>Parsing a longer stream continues from what the shorter one left over.\<close>

lemma parse_stream_append:
  "parse_stream (bs @ cs) =
     (let (fs, rest) = parse_stream bs; (gs, rest') = parse_stream (rest @ cs) in (fs @ gs, rest'))"
proof (induction bs rule: parse_stream.induct)
  case (1 bs)
  show ?case
  proof (cases "length bs < HEADER_SIZE \<or> length bs < wire_size bs")
    case True
    then show ?thesis by (simp add: parse_stream_short)
  next
    case False
    then have h: "HEADER_SIZE \<le> length bs" "wire_size bs \<le> length bs" by auto
    have l: "unat (getSize (wire_header bs)) \<le> length (frame_data (wire_header bs))"
      using h by (simp add: wire_size_def) (simp add: wire_header_def)
    have p: "payload ((wire_header bs)\<lparr>frame_data := frame_data (wire_header bs) @ cs\<rparr>) = payload (wire_header bs)"
      using l by (simp add: payload_def getSize_def)
    from False "1.IH" have IH: "parse_stream (drop (wire_size bs) bs @ cs) =
      (let (fs, rest) = parse_stream (drop (wire_size bs) bs);
           (gs, rest') = parse_stream (rest @ cs) in (fs @ gs, rest'))"
      by simp
    have "parse_stream (bs @ cs) =
      (let (fs, rest) = parse_stream (drop (wire_size bs) bs @ cs)
       in ((wire_header bs)\<lparr>frame_data := payload (wire_header bs)\<rparr> # fs, rest))"
      using h p by (subst parse_stream_frame) (simp_all add: wire_size_append wire_header_append)
    then show ?thesis
      using h by (simp add: IH parse_stream_frame split: prod.splits)
  qed
qed

section \<open>Encoding, then parsing\<close>

definition wire_bytes :: "Frame \<Rightarrow> u8 list" where
  "wire_bytes f = rev (bytes_le 2 (sizeAndFlags f)) @ rev (bytes_le 4 (channel_id f))
     @ rev (bytes_le 4 (frame_number f)) @ payload f"

lemma frameToArray_wire:
  "unat (getSize f) \<le> MAX_SIZE \<Longrightarrow> frameToArray e f = Some (wire_bytes f)"
  by (simp add: frameToArray_def wire_bytes_def payload_def)

lemma wire_header_wire_bytes:
  "wire_header (wire_bytes f @ cs) = f\<lparr>frame_data := payload f @ cs\<rparr>"
  by (simp add: wire_header_def wire_bytes_def HEADER_SIZE_def of_bytes_le_bytes_le)

lemma length_payload: "frame_wf f \<Longrightarrow> length (payload f) = unat (getSize f)"
  by (simp add: payload_def frame_wf_def)

lemma length_wire_bytes: "frame_wf f \<Longrightarrow> length (wire_bytes f) = HEADER_SIZE + unat (getSize f)"
  by (simp add: wire_bytes_def length_payload HEADER_SIZE_def)

lemma parse_wire_bytes:
  assumes "frame_wf f"
  shows "parse_stream (wire_bytes f @ cs) =
    (let (fs, rest) = parse_stream cs in (f\<lparr>frame_data := payload f\<rparr> # fs, rest))"
proof -
  have s: "wire_size (wire_bytes f @ cs) = length (wire_bytes f)"
    using assms by (simp add: wire_size_def wire_header_wire_bytes length_wire_bytes getSize_def)
  have p: "payload (f\<lparr>frame_data := payload f @ cs\<rparr>) = payload f"
    using length_payload [OF assms] by (simp add: payload_def getSize_def)
  show ?thesis
    using assms by (subst parse_stream_frame) (simp_all add: s p length_wire_bytes wire_header_wire_bytes)
qed

lemma parse_wire_frames:
  "list_all frame_wf fs \<Longrightarrow>
   parse_stream (concat (map wire_bytes fs)) = (map (\<lambda>f. f\<lparr>frame_data := payload f\<rparr>) fs, [])"
  by (induction fs) (simp_all add: parse_wire_bytes)

lemma same_frame_payload: "same_frame (f\<lparr>frame_data := payload f\<rparr>) f"
  by (simp add: same_frame_def payload_def getSize_def)

end
