(* ===== verification/Carrier.thy ===== *)
theory Carrier
  imports Frame
begin

text \<open>
  The carrier adapter of \<^verbatim>\<open>HAL/private/CCarrierAdapter.cpp\<close>: sending a frame, acknowledging a
  received one, and \<^verbatim>\<open>haveData\<close>, which cuts the byte stream of the carrier back into frames. The
  virtual \<^verbatim>\<open>sendPreparedArray\<close> of the concrete carrier and the registered \<^verbatim>\<open>IFrameReceiver\<close> are
  parameters; the laws a receiver must obey are the locale \<^verbatim>\<open>frame_sink\<close>.
\<close>

section \<open>Sending\<close>

definition sendFrame ::
  "endian \<Rightarrow> (u8 list \<Rightarrow> 'n \<Rightarrow> ErrorCode \<times> 'n) \<Rightarrow> Frame \<Rightarrow> 'n \<Rightarrow> (ErrorCode \<times> 'n) option" where
  "sendFrame e sendPreparedArray f n =
     (case frameToArray e f of None \<Rightarrow> None | Some pArray \<Rightarrow> Some (sendPreparedArray pArray n))"

definition ack_of :: "Frame \<Rightarrow> Frame" where
  "ack_of f = setACK \<lparr>sizeAndFlags = 0, channel_id = channel_id f, frame_number = frame_number f,
     frame_data = []\<rparr>"

definition sendACK ::
  "endian \<Rightarrow> (u8 list \<Rightarrow> 'n \<Rightarrow> ErrorCode \<times> 'n) \<Rightarrow> Frame \<Rightarrow> 'n \<Rightarrow> (ErrorCode \<times> 'n) option" where
  "sendACK e sendPreparedArray f n = sendFrame e sendPreparedArray (ack_of f) n"

section \<open>Receiving\<close>

record carrier =
  mFrame :: "u8 list"
  mFilledSize :: nat
  mpFrameReceiver :: bool
  mIsFrameProcessingAllowed :: bool

definition FRAME_SIZEOF :: nat where
  "FRAME_SIZEOF = HEADER_SIZE + MAX_SIZE"

definition registerFrameReceiver :: "carrier \<Rightarrow> carrier" where
  "registerFrameReceiver c = c\<lparr>mpFrameReceiver := True\<rparr>"

definition unlockFrameProcessing :: "carrier \<Rightarrow> carrier" where
  "unlockFrameProcessing c = c\<lparr>mIsFrameProcessingAllowed := True\<rparr>"

text \<open>
  \<^verbatim>\<open>processFrame\<close> waits until frame processing is allowed, passes the frame on and acknowledges it
  when the receiver took it or has taken it before.
\<close>

definition processFrame ::
  "endian \<Rightarrow> (u8 list \<Rightarrow> 'n \<Rightarrow> ErrorCode \<times> 'n) \<Rightarrow> (Frame \<Rightarrow> 'r \<Rightarrow> (ErrorCode \<times> 'r) option) \<Rightarrow>
   carrier \<Rightarrow> Frame \<Rightarrow> 'r \<times> 'n \<Rightarrow> ('r \<times> 'n) option" where
  "processFrame e sendPreparedArray receiveFrame c f = (\<lambda>(r, n).
     if \<not> mIsFrameProcessingAllowed c then None
     else if \<not> mpFrameReceiver c then Some (r, n)
     else case receiveFrame f r of
       None \<Rightarrow> None
     | Some (processResult, r') \<Rightarrow>
         if (isNoError processResult \<or> processResult = ERROR_RESEND_ACK) \<and> \<not> isACK f
         then (case sendACK e sendPreparedArray f n of None \<Rightarrow> None | Some (_, n') \<Rightarrow> Some (r', n'))
         else Some (r', n))"

text \<open>
  The loop of \<^verbatim>\<open>haveData\<close>. The header of the frame at the front of \<^verbatim>\<open>mFrame\<close> is converted to host
  order once, as soon as it is complete: \<^verbatim>\<open>saved_size\<close>, the fill level before this call, says
  whether an earlier call has converted it already.
\<close>

function haveData_loop ::
  "endian \<Rightarrow> (Frame \<Rightarrow> 's \<Rightarrow> 's option) \<Rightarrow> nat \<Rightarrow> u8 list \<Rightarrow> nat \<Rightarrow> 's \<Rightarrow> (u8 list \<times> nat \<times> 's) option" where
  "haveData_loop e process saved_size mem filled s =
     (if filled < HEADER_SIZE then Some (mem, filled, s)
      else
        let mem = (if saved_size < HEADER_SIZE then arrayToFrame e mem else mem);
            full_size = unat (getSize (frame_view e mem)) + HEADER_SIZE
        in if full_size \<le> filled
           then (case process (frame_view e mem) s of
               None \<Rightarrow> None
             | Some s' \<Rightarrow>
                 haveData_loop e process 0
                   (overwrite 0 (take (filled - full_size) (drop full_size mem)) mem) (filled - full_size) s')
           else Some (mem, filled, s))"
  by pat_completeness auto
termination
  by (relation "measure (\<lambda>(e, process, saved_size, mem, filled, s). filled)") (auto simp: HEADER_SIZE_def)

declare haveData_loop.simps [simp del]

text \<open>
  \<^verbatim>\<open>haveData\<close> with the outcome of \<^verbatim>\<open>receiveRawArray\<close> as an argument: the bytes received (as many as
  fit, at least one), or an error, on which nothing happens.
\<close>

definition recv_room :: "carrier \<Rightarrow> nat" where
  "recv_room c = FRAME_SIZEOF - mFilledSize c"

definition haveData ::
  "endian \<Rightarrow> (Frame \<Rightarrow> 's \<Rightarrow> 's option) \<Rightarrow> u8 list option \<Rightarrow> carrier \<times> 's \<Rightarrow> (carrier \<times> 's) option" where
  "haveData e process received = (\<lambda>(c, s).
     case received of
       None \<Rightarrow> Some (c, s)
     | Some bs \<Rightarrow>
        (case haveData_loop e process (mFilledSize c) (overwrite (mFilledSize c) bs (mFrame c))
                (mFilledSize c + length bs) s of
           None \<Rightarrow> None
         | Some (mem, filled, s') \<Rightarrow> Some (c\<lparr>mFrame := mem, mFilledSize := filled\<rparr>, s')))"

fun haveData_run ::
  "endian \<Rightarrow> (Frame \<Rightarrow> 's \<Rightarrow> 's option) \<Rightarrow> u8 list list \<Rightarrow> carrier \<times> 's \<Rightarrow> (carrier \<times> 's) option" where
  "haveData_run e process [] cs = Some cs"
| "haveData_run e process (b # bs) cs =
     (case haveData e process (Some b) cs of None \<Rightarrow> None | Some cs' \<Rightarrow> haveData_run e process bs cs')"

section \<open>What the receive buffer holds\<close>

text \<open>
  \<^verbatim>\<open>pending\<close> is the tail of the byte stream the buffer stands for, in wire form. Between two calls
  the header, if complete, is in host order and its frame is not complete.
\<close>

definition unconverted :: "endian \<Rightarrow> u8 list \<Rightarrow> u8 list" where
  "unconverted e mem =
     store e 2 (hton16 e (load e (take 2 mem))) @ store e 4 (hton32 e (load e (take 4 (drop 2 mem))))
     @ store e 4 (hton32 e (load e (take 4 (drop 6 mem)))) @ drop HEADER_SIZE mem"

definition pending :: "endian \<Rightarrow> nat \<Rightarrow> u8 list \<Rightarrow> nat \<Rightarrow> u8 list" where
  "pending e saved_size mem filled = take filled (if saved_size < HEADER_SIZE then mem else unconverted e mem)"

definition buffer_ok :: "endian \<Rightarrow> u8 list \<Rightarrow> nat \<Rightarrow> bool" where
  "buffer_ok e mem filled \<longleftrightarrow> length mem = FRAME_SIZEOF \<and> filled \<le> FRAME_SIZEOF \<and>
     (HEADER_SIZE \<le> filled \<longrightarrow> filled < unat (getSize (frame_view e mem)) + HEADER_SIZE)"

definition carrier_ok :: "endian \<Rightarrow> carrier \<Rightarrow> bool" where
  "carrier_ok e c \<longleftrightarrow> buffer_ok e (mFrame c) (mFilledSize c)"

definition carrier_pending :: "endian \<Rightarrow> carrier \<Rightarrow> u8 list" where
  "carrier_pending e c = pending e (mFilledSize c) (mFrame c) (mFilledSize c)"

lemma HEADER_SIZE_le_FRAME_SIZEOF [simp]: "HEADER_SIZE \<le> FRAME_SIZEOF"
  by (simp add: FRAME_SIZEOF_def)

lemma header_lists:
  assumes "HEADER_SIZE \<le> length mem"
  obtains a b c d where "mem = a @ b @ c @ d" "length a = 2" "length b = 4" "length c = 4"
proof
  show "mem = take 2 mem @ take 4 (drop 2 mem) @ take 4 (drop 6 mem) @ drop 10 mem"
    using take_add [of 4 4 "drop 2 mem"] append_take_drop_id [of 2 mem] append_take_drop_id [of 8 "drop 2 mem"]
    by simp
qed (use assms in \<open>simp_all add: HEADER_SIZE_def\<close>)

lemma header_parts [simp]:
  assumes "length a = 2" "length b = 4" "length c = 4"
  shows "take 2 (a @ b @ c @ d) = a" "take 4 (drop 2 (a @ b @ c @ d)) = b"
    "take 4 (drop 6 (a @ b @ c @ d)) = c" "drop HEADER_SIZE (a @ b @ c @ d) = d"
  using assms by (simp_all add: HEADER_SIZE_def)

lemma unconverted_arrayToFrame:
  "HEADER_SIZE \<le> length mem \<Longrightarrow> unconverted e (arrayToFrame e mem) = mem"
  by (erule header_lists)
    (simp add: unconverted_def arrayToFrame_def HEADER_SIZE_def load_store ntoh16_load ntoh32_load bytes_be)

lemma length_arrayToFrame [simp]:
  "HEADER_SIZE \<le> length mem \<Longrightarrow> length (arrayToFrame e mem) = length mem"
  by (simp add: arrayToFrame_def HEADER_SIZE_def)

lemma length_unconverted [simp]:
  "HEADER_SIZE \<le> length mem \<Longrightarrow> length (unconverted e mem) = length mem"
  by (simp add: unconverted_def HEADER_SIZE_def)

lemma drop_unconverted [simp]: "drop HEADER_SIZE (unconverted e mem) = drop HEADER_SIZE mem"
  by (simp add: unconverted_def HEADER_SIZE_def)

lemma drop_unconverted_ge: "HEADER_SIZE \<le> k \<Longrightarrow> drop k (unconverted e mem) = drop k mem"
  by (metis drop_unconverted drop_drop le_add_diff_inverse2)

lemma unconverted_parts:
  "length a = 2 \<Longrightarrow> length b = 4 \<Longrightarrow> length c = 4 \<Longrightarrow>
   unconverted e (a @ b @ c @ d) = rev (bytes_le 2 (load e a :: u16)) @ rev (bytes_le 4 (load e b :: u32))
     @ rev (bytes_le 4 (load e c :: u32)) @ d"
  by (simp add: unconverted_def HEADER_SIZE_def)

lemma unconverted_overwrite:
  assumes "HEADER_SIZE \<le> pos" "pos \<le> length mem"
  shows "unconverted e (overwrite pos bs mem) = overwrite pos bs (unconverted e mem)"
proof -
  have "HEADER_SIZE \<le> length mem" using assms by simp
  then obtain a b c d where m: "mem = a @ b @ c @ d" "length a = 2" "length b = 4" "length c = 4"
    by (rule header_lists)
  have o: "overwrite pos bs (x @ y @ z @ d) = x @ y @ z @ overwrite (pos - HEADER_SIZE) bs d"
    if "length x = 2" "length y = 4" "length z = 4" for x y z
    using that assms(1) by (simp add: overwrite_def HEADER_SIZE_def)
  show ?thesis
    using m by (simp add: o unconverted_parts)
qed

lemma frame_view_unconverted:
  "HEADER_SIZE \<le> length mem \<Longrightarrow> frame_view e mem = wire_header (unconverted e mem)"
  by (erule header_lists)
    (simp add: frame_view_def wire_header_def unconverted_def HEADER_SIZE_def of_bytes_le_bytes_le)

section \<open>A receiver sees only header and payload\<close>

text \<open>
  Whatever frames are handed to must not look at the bytes behind a frame's payload: in \<^verbatim>\<open>mFrame\<close>
  those belong to the frames that follow.
\<close>

primrec process_all :: "(Frame \<Rightarrow> 's \<Rightarrow> 's option) \<Rightarrow> Frame list \<Rightarrow> 's \<Rightarrow> 's option" where
  "process_all process [] s = Some s"
| "process_all process (f # fs) s =
     (case process f s of None \<Rightarrow> None | Some s' \<Rightarrow> process_all process fs s')"

lemma process_all_append:
  "process_all p (fs @ gs) s = (case process_all p fs s of None \<Rightarrow> None | Some s' \<Rightarrow> process_all p gs s')"
  by (induction fs arbitrary: s) (auto split: option.splits)

text \<open>The frame at the front of a buffer whose header is complete is the first one of the pending bytes.\<close>

lemma front_frame:
  assumes "length mem = FRAME_SIZEOF" "HEADER_SIZE \<le> filled" "filled \<le> FRAME_SIZEOF"
    and m: "m = (if saved_size < HEADER_SIZE then arrayToFrame e mem else mem)"
    and P: "P = pending e saved_size mem filled"
  shows front_length: "length P = filled"
    and front_size: "unat (getSize (frame_view e m)) + HEADER_SIZE = wire_size P"
    and front_same: "wire_size P \<le> filled \<Longrightarrow>
      same_frame (frame_view e m) ((wire_header P)\<lparr>frame_data := payload (wire_header P)\<rparr>)"
    and front_rest: "wire_size P \<le> filled \<Longrightarrow>
      pending e 0 (overwrite 0 (take (filled - wire_size P) (drop (wire_size P) m)) m) (filled - wire_size P)
        = drop (wire_size P) P"
    and front_kept: "pending e filled m filled = P"
    and front_mem: "length m = FRAME_SIZEOF"
proof -
  define w where "w = unconverted e m"
  have lm: "length m = FRAME_SIZEOF" "length w = FRAME_SIZEOF"
    using assms(1) by (simp_all add: m w_def)
  have Pw: "P = take filled w"
    using assms(1) by (simp add: P pending_def w_def m unconverted_arrayToFrame)
  have split: "w = P @ drop filled w" by (simp add: Pw)
  have view: "frame_view e m = wire_header w"
    using lm by (simp add: w_def frame_view_unconverted)
  show len: "length P = filled" using assms(3) lm by (simp add: Pw)
  have ws: "wire_size w = wire_size P"
    using wire_size_append [of P "drop filled w"] assms(2) len split by simp
  then show "unat (getSize (frame_view e m)) + HEADER_SIZE = wire_size P"
    by (simp add: view wire_size_def)
  show "pending e filled m filled = P"
    using assms(2) by (simp add: pending_def Pw w_def)
  show "length m = FRAME_SIZEOF" by (rule lm)
  show "same_frame (frame_view e m) ((wire_header P)\<lparr>frame_data := payload (wire_header P)\<rparr>)"
    if "wire_size P \<le> filled"
  proof -
    have "unat (getSize (wire_header P)) \<le> length (frame_data (wire_header P))"
      using that len by (simp add: wire_size_def) (simp add: wire_header_def HEADER_SIZE_def)
    moreover have "wire_header w = (wire_header P)\<lparr>frame_data := frame_data (wire_header P) @ drop filled w\<rparr>"
      using wire_header_append [of P "drop filled w"] assms(2) len split by simp
    ultimately show ?thesis
      unfolding view by (simp add: same_frame_def payload_def getSize_def)
  qed
  show "pending e 0 (overwrite 0 (take (filled - wire_size P) (drop (wire_size P) m)) m) (filled - wire_size P)
        = drop (wire_size P) P" if "wire_size P \<le> filled"
  proof -
    have "drop (wire_size P) m = drop (wire_size P) w"
      by (simp add: w_def drop_unconverted_ge wire_size_def)
    then show ?thesis
      using that assms(3) lm by (simp add: pending_def overwrite_def HEADER_SIZE_def Pw drop_take)
  qed
qed

locale frame_sink =
  fixes process :: "Frame \<Rightarrow> 's \<Rightarrow> 's option"
  assumes sink_cong: "same_frame f g \<Longrightarrow> process f s = process g s"
begin

text \<open>One call of the loop consumes exactly the complete frames of the pending bytes.\<close>

lemma loop_parses:
  assumes "length mem = FRAME_SIZEOF" "filled \<le> FRAME_SIZEOF"
    and "saved_size < HEADER_SIZE \<or> HEADER_SIZE \<le> filled"
    and "parse_stream (pending e saved_size mem filled) = (fs, rest)"
  shows "case process_all process fs s of
      None \<Rightarrow> haveData_loop e process saved_size mem filled s = None
    | Some s' \<Rightarrow> \<exists>mem' filled'. haveData_loop e process saved_size mem filled s = Some (mem', filled', s')
        \<and> buffer_ok e mem' filled' \<and> pending e filled' mem' filled' = rest"
  using assms
proof (induction filled arbitrary: saved_size mem s fs rest rule: less_induct)
  case (less filled)
  note loop = haveData_loop.simps [of e process saved_size mem filled s]
  show ?case
  proof (cases "filled < HEADER_SIZE")
    case True
    with less.prems(3) have "pending e saved_size mem filled = take filled mem"
      by (simp add: pending_def)
    moreover have "parse_stream (take filled mem) = ([], take filled mem)"
      using True less.prems(1,2) by (intro parse_stream_short) simp
    ultimately show ?thesis
      using True less.prems by (simp add: loop buffer_ok_def pending_def)
  next
    case False
    define m where "m = (if saved_size < HEADER_SIZE then arrayToFrame e mem else mem)"
    define P where "P = pending e saved_size mem filled"
    define k where "k = wire_size P"
    let ?mem = "overwrite 0 (take (filled - k) (drop k m)) m"
    have h: "HEADER_SIZE \<le> filled" using False by simp
    note front = front_frame [OF less.prems(1) h less.prems(2) m_def P_def]
    have k: "HEADER_SIZE \<le> k" by (simp add: wire_size_def k_def)
    show ?thesis
    proof (cases "k \<le> filled")
      case fits: True
      obtain fs' where rec: "parse_stream (drop k P) = (fs', rest)"
        and fs: "fs = (wire_header P)\<lparr>frame_data := payload (wire_header P)\<rparr> # fs'"
        using less.prems(4) parse_stream_frame [of P] h fits front(1)
        by (auto simp: P_def [symmetric] k_def [symmetric] split: prod.splits)
      have step: "haveData_loop e process saved_size mem filled s =
        (case process (hd fs) s of None \<Rightarrow> None
         | Some s' \<Rightarrow> haveData_loop e process 0 ?mem (filled - k) s')"
        using False fits sink_cong [OF front(3)]
        by (simp add: loop m_def [symmetric] front(2) k_def [symmetric] fs Let_def split: option.split)
      have IH: "case process_all process fs' s' of
          None \<Rightarrow> haveData_loop e process 0 ?mem (filled - k) s' = None
        | Some s'' \<Rightarrow> \<exists>mem' filled'. haveData_loop e process 0 ?mem (filled - k) s' = Some (mem', filled', s'')
            \<and> buffer_ok e mem' filled' \<and> pending e filled' mem' filled' = rest" for s'
        using h fits k less.prems(2) front(6) front(4) rec
        by (intro less.IH) (simp_all add: HEADER_SIZE_def k_def)
      have all: "process_all process fs s =
        (case process (hd fs) s of None \<Rightarrow> None | Some s' \<Rightarrow> process_all process fs' s')"
        by (simp add: fs)
      show ?thesis
        unfolding step all using IH by (cases "process (hd fs) s") (simp_all cong: option.case_cong)
    next
      case False': False
      then have "fs = []" "rest = P"
        using less.prems(4) parse_stream_short [of P] front(1) by (simp_all add: P_def [symmetric] k_def)
      moreover have "haveData_loop e process saved_size mem filled s = Some (m, filled, s)"
        using False False' by (simp add: loop m_def [symmetric] front(2) k_def [symmetric] Let_def)
      moreover have "buffer_ok e m filled"
        using False' less.prems(2) front(2,6) by (simp add: buffer_ok_def k_def)
      ultimately show ?thesis using front(5) by simp
    qed
  qed
qed

lemma haveData_parses:
  assumes "carrier_ok e c" "length bs \<le> recv_room c"
    and "parse_stream (carrier_pending e c @ bs) = (fs, rest)"
  shows "case process_all process fs s of
      None \<Rightarrow> haveData e process (Some bs) (c, s) = None
    | Some s' \<Rightarrow> \<exists>c'. haveData e process (Some bs) (c, s) = Some (c', s') \<and> carrier_ok e c'
        \<and> carrier_pending e c' = rest"
proof -
  let ?n = "mFilledSize c"
  from assms(1,2) have len: "length (mFrame c) = FRAME_SIZEOF" "?n + length bs \<le> FRAME_SIZEOF"
    by (auto simp: carrier_ok_def buffer_ok_def recv_room_def)
  have "pending e ?n (overwrite ?n bs (mFrame c)) (?n + length bs) = carrier_pending e c @ bs"
    using len by (simp add: pending_def carrier_pending_def unconverted_overwrite take_overwrite_end)
  with assms(3) len loop_parses [of "overwrite ?n bs (mFrame c)" "?n + length bs" ?n e fs rest s]
  show ?thesis
    by (fastforce simp: haveData_def carrier_ok_def carrier_pending_def split: option.splits)
qed

end

text \<open>
  The admissible ways the carrier may cut its stream: \<^verbatim>\<open>recv\<close> never returns more than the room
  left in \<^verbatim>\<open>mFrame\<close>.
\<close>

fun chunks_fit :: "u8 list \<Rightarrow> u8 list list \<Rightarrow> bool" where
  "chunks_fit p [] \<longleftrightarrow> True"
| "chunks_fit p (b # bs) \<longleftrightarrow>
     length p + length b \<le> FRAME_SIZEOF \<and> chunks_fit (snd (parse_stream (p @ b))) bs"

lemma length_carrier_pending: "carrier_ok e c \<Longrightarrow> length (carrier_pending e c) = mFilledSize c"
  by (simp add: carrier_ok_def buffer_ok_def carrier_pending_def pending_def)

lemma carrier_ok_parse:
  assumes "carrier_ok e c"
  shows "parse_stream (carrier_pending e c) = ([], carrier_pending e c)"
proof (rule parse_stream_short)
  let ?n = "mFilledSize c" and ?w = "unconverted e (mFrame c)"
  from assms have m: "length (mFrame c) = FRAME_SIZEOF" "?n \<le> FRAME_SIZEOF"
    "HEADER_SIZE \<le> ?n \<longrightarrow> ?n < unat (getSize (frame_view e (mFrame c))) + HEADER_SIZE"
    by (auto simp: carrier_ok_def buffer_ok_def)
  show "length (carrier_pending e c) < HEADER_SIZE \<or>
    length (carrier_pending e c) < wire_size (carrier_pending e c)"
  proof (cases "?n < HEADER_SIZE")
    case True
    then show ?thesis by (simp add: length_carrier_pending [OF assms])
  next
    case False
    then have p: "carrier_pending e c = take ?n ?w"
      by (simp add: carrier_pending_def pending_def)
    have "wire_size ?w = wire_size (take ?n ?w)"
      using wire_size_append [of "take ?n ?w" "drop ?n ?w"] False m by simp
    with False m show ?thesis
      by (simp add: length_carrier_pending [OF assms] p [symmetric])
        (simp add: p wire_size_def frame_view_unconverted)
  qed
qed

context frame_sink begin

lemma haveData_run_parses:
  assumes "carrier_ok e c" "chunks_fit (carrier_pending e c) chunks"
    and "parse_stream (carrier_pending e c @ concat chunks) = (fs, rest)"
  shows "case process_all process fs s of
      None \<Rightarrow> haveData_run e process chunks (c, s) = None
    | Some s' \<Rightarrow> \<exists>c'. haveData_run e process chunks (c, s) = Some (c', s') \<and> carrier_ok e c'
        \<and> carrier_pending e c' = rest"
  using assms
proof (induction chunks arbitrary: c s fs rest)
  case Nil
  then show ?case
  proof -
    have "parse_stream (carrier_pending e c) = ([], carrier_pending e c)"
      using carrier_ok_parse Nil.prems(1) by blast
    then show ?thesis using Nil.prems by simp
  qed
next
  case (Cons b bs)
  obtain fs1 rest1 where p1: "parse_stream (carrier_pending e c @ b) = (fs1, rest1)" by fastforce
  obtain fs2 rest2 where p2: "parse_stream (rest1 @ concat bs) = (fs2, rest2)" by fastforce
  have fs: "fs = fs1 @ fs2" "rest = rest2"
    using Cons.prems(3) parse_stream_append [of "carrier_pending e c @ b" "concat bs"] p1 p2 by simp_all
  have room: "length b \<le> recv_room c"
    using Cons.prems(1,2) length_carrier_pending [OF Cons.prems(1)] by (auto simp: recv_room_def)
  show ?case
  proof (cases "process_all process fs1 s")
    case None
    with haveData_parses [OF Cons.prems(1) room p1, of s] show ?thesis
      by (simp add: fs process_all_append)
  next
    case (Some s1)
    with haveData_parses [OF Cons.prems(1) room p1, of s] obtain c1
      where c1: "haveData e process (Some b) (c, s) = Some (c1, s1)" "carrier_ok e c1"
        "carrier_pending e c1 = rest1" by auto
    have "chunks_fit (carrier_pending e c1) bs"
      using Cons.prems(2) p1 c1(3) by simp
    from Cons.IH [OF c1(2) this, of fs2 rest2 s1] p2 c1(3) have IH:
      "case process_all process fs2 s1 of None \<Rightarrow> haveData_run e process bs (c1, s1) = None
       | Some s' \<Rightarrow> \<exists>c'. haveData_run e process bs (c1, s1) = Some (c', s') \<and> carrier_ok e c'
           \<and> carrier_pending e c' = rest2" by simp
    have "process_all process fs s = process_all process fs2 s1"
      "haveData_run e process (b # bs) (c, s) = haveData_run e process bs (c1, s1)"
      by (simp_all add: fs process_all_append Some c1(1))
    with IH fs(2) show ?thesis by (simp only:)
  qed
qed

text \<open>
  Whatever the cuts, the frames of a stream of encoded frames are processed in order, and nothing
  is left over.
\<close>

lemma haveData_run_frames:
  assumes "carrier_ok e c" "mFilledSize c = 0" "list_all frame_wf fs"
    and "concat chunks = concat (map wire_bytes fs)" "chunks_fit [] chunks"
  shows "case process_all process fs s of
      None \<Rightarrow> haveData_run e process chunks (c, s) = None
    | Some s' \<Rightarrow> \<exists>c'. haveData_run e process chunks (c, s) = Some (c', s') \<and> mFilledSize c' = 0"
proof -
  have "process_all process (map (\<lambda>f. f\<lparr>frame_data := payload f\<rparr>) fs) s = process_all process fs s" for s
    by (induction fs arbitrary: s) (simp_all add: sink_cong [OF same_frame_payload] split: option.split)
  moreover have "carrier_pending e c = []"
    using assms(2) by (simp add: carrier_pending_def pending_def)
  ultimately show ?thesis
    using haveData_run_parses [OF assms(1), of chunks _ "[]" s] parse_wire_frames [OF assms(3)] assms(4,5)
      length_carrier_pending
    by (fastforce split: option.splits)
qed

end

text \<open>Acknowledging keeps a receiver that looks only at header and payload one that does.\<close>

lemma isACK_same_frame: "same_frame f g \<Longrightarrow> isACK f = isACK g"
  by (simp add: same_frame_def isACK_def)

lemma ack_of_same_frame: "same_frame f g \<Longrightarrow> ack_of f = ack_of g"
  by (simp add: same_frame_def ack_of_def)

lemma processFrame_cong:
  assumes "same_frame f g" and recv: "\<And>r. receiveFrame f r = receiveFrame g r"
  shows "processFrame e sendPreparedArray receiveFrame c f = processFrame e sendPreparedArray receiveFrame c g"
  unfolding processFrame_def sendACK_def recv isACK_same_frame [OF assms(1)] ack_of_same_frame [OF assms(1)]
  by (rule refl)

section \<open>The receive buffer never fills up\<close>

text \<open>On a stream of well-formed frames \<^verbatim>\<open>receiveRawArray\<close> is never asked for zero bytes.\<close>

lemma parse_prefix_short:
  assumes "list_all frame_wf fs" "concat (map wire_bytes fs) = p @ q"
  shows "length (snd (parse_stream p)) < FRAME_SIZEOF"
  using assms
proof (induction fs arbitrary: p)
  case Nil
  then show ?case by (simp add: FRAME_SIZEOF_def HEADER_SIZE_def)
next
  case (Cons f fs)
  from Cons.prems(2) consider us where "wire_bytes f @ us = p" "concat (map wire_bytes fs) = us @ q"
    | us where "wire_bytes f = p @ us" "us @ concat (map wire_bytes fs) = q" "us \<noteq> []"
    by (auto simp: append_eq_append_conv2) blast
  then show ?case
  proof cases
    case 1
    then show ?thesis
      using Cons by (auto simp: parse_wire_bytes split: prod.splits)
  next
    case 2
    have "length (wire_bytes f) \<le> FRAME_SIZEOF"
      using Cons.prems(1) by (simp add: length_wire_bytes FRAME_SIZEOF_def frame_wf_def)
    moreover have "length (snd (parse_stream p)) \<le> length p"
      by (rule parse_stream_rest_le)
    moreover have "length p < length (wire_bytes f)"
      using 2 by simp
    ultimately show ?thesis by simp
  qed
qed

end
