(* ===== verification/QoS.thy ===== *)
theory QoS
  imports Prelude
begin

text \<open>
  The transmission-time statistics of \<^verbatim>\<open>L0/private/CQoS.hpp\<close> and \<^verbatim>\<open>CQoS.cpp\<close>: one record per open
  channel, fed with the round-trip time of every acknowledged frame. The supervision thread only
  reads the statistics and calls two operations of the allocator whose bodies are empty.
\<close>

record tTimeStat =
  mSummaryTime :: u64
  mCounter :: u32
  mAverageTime :: u64
  mUpperTime :: u64
  mLowerTime :: u64

type_synonym TStatisticsMap = "u32 \<rightharpoonup> tTimeStat"

definition timeStat_init :: tTimeStat where
  "timeStat_init = \<lparr>mSummaryTime = 0, mCounter = 0, mAverageTime = 0, mUpperTime = 0, mLowerTime = 0\<rparr>"

definition timeStat_getAverage :: "tTimeStat \<Rightarrow> u64 \<times> tTimeStat" where
  "timeStat_getAverage t =
     (let t' = (if mCounter t \<noteq> 0 then t\<lparr>mAverageTime := mSummaryTime t div ucast (mCounter t)\<rparr> else t)
      in (mAverageTime t', t'))"

definition timeStat_setTime :: "u64 \<Rightarrow> tTimeStat \<Rightarrow> tTimeStat" where
  "timeStat_setTime time t = t\<lparr>mSummaryTime := mSummaryTime t + time, mCounter := mCounter t + 1\<rparr>"

definition timeStat_resetStat :: "tTimeStat \<Rightarrow> tTimeStat" where
  "timeStat_resetStat t = t\<lparr>mSummaryTime := 0, mCounter := 0\<rparr>"

definition QoS_openChannel :: "u32 \<Rightarrow> u64 \<Rightarrow> u64 \<Rightarrow> TStatisticsMap \<Rightarrow> ErrorCode \<times> TStatisticsMap" where
  "QoS_openChannel channel upper lower m =
     (let timeStat = timeStat_init\<lparr>mUpperTime := upper, mLowerTime := lower\<rparr>
      in if m channel \<noteq> None then (ERROR_CHANNEL_BUSY, m)
         else (NO_ERROR, m(channel \<mapsto> timeStat)))"

definition QoS_closeChannel :: "u32 \<Rightarrow> TStatisticsMap \<Rightarrow> ErrorCode \<times> TStatisticsMap" where
  "QoS_closeChannel channel m =
     (if m channel \<noteq> None then (NO_ERROR, m(channel := None)) else (ERROR_NOT_FOUND, m))"

definition QoS_setTime :: "u32 \<Rightarrow> u64 \<Rightarrow> TStatisticsMap \<Rightarrow> ErrorCode \<times> TStatisticsMap" where
  "QoS_setTime channel time m =
     (case m channel of
        Some t \<Rightarrow> (NO_ERROR, m(channel \<mapsto> timeStat_setTime time t))
      | None \<Rightarrow> (ERROR_NOT_FOUND, m))"

text \<open>The last argument is the caller's \<^verbatim>\<open>result\<close> variable, untouched when the channel is unknown.\<close>

definition QoS_getAverageForChannel ::
  "u32 \<Rightarrow> TStatisticsMap \<Rightarrow> u64 \<Rightarrow> ErrorCode \<times> TStatisticsMap \<times> u64" where
  "QoS_getAverageForChannel channel m result =
     (case m channel of
        Some t \<Rightarrow> (let (avg, t') = timeStat_getAverage t in (NO_ERROR, m(channel \<mapsto> t'), avg))
      | None \<Rightarrow> (ERROR_NOT_FOUND, m, result))"

text \<open>Whether a pass of the supervision thread reports the channel as too slow or too fast.\<close>

definition QoS_threadFunc_narrow :: "tTimeStat \<Rightarrow> bool" where
  "QoS_threadFunc_narrow t \<longleftrightarrow> mUpperTime t < fst (timeStat_getAverage t)"

definition QoS_threadFunc_higher :: "tTimeStat \<Rightarrow> bool" where
  "QoS_threadFunc_higher t \<longleftrightarrow> fst (timeStat_getAverage t) < mLowerTime t"

lemma QoS_domains:
  "dom (snd (QoS_openChannel c u l m)) = insert c (dom m)"
  "dom (snd (QoS_closeChannel c m)) = dom m - {c}"
  "dom (snd (QoS_setTime c t m)) = dom m"
  "dom (fst (snd (QoS_getAverageForChannel c m r))) = dom m"
  by (auto simp: QoS_openChannel_def QoS_closeChannel_def QoS_setTime_def QoS_getAverageForChannel_def
      Let_def split: option.splits prod.splits)

text \<open>Feeding samples: the average is that of the samples, as long as neither counter overflows.\<close>

definition QoS_setTimes :: "u32 \<Rightarrow> u64 list \<Rightarrow> TStatisticsMap \<Rightarrow> TStatisticsMap" where
  "QoS_setTimes channel ts m = fold (\<lambda>t m. snd (QoS_setTime channel t m)) ts m"

lemma QoS_setTimes_value:
  assumes "m c = Some t"
  shows "QoS_setTimes c ts m c = Some (t\<lparr>mSummaryTime := mSummaryTime t + sum_list ts,
    mCounter := mCounter t + of_nat (length ts)\<rparr>)"
  using assms
proof (induction ts arbitrary: m t)
  case (Cons x ts)
  have "snd (QoS_setTime c x m) c = Some (timeStat_setTime x t)"
    using Cons.prems by (simp add: QoS_setTime_def)
  from Cons.IH [of "snd (QoS_setTime c x m)" "timeStat_setTime x t", OF this] show ?case
    by (simp add: QoS_setTimes_def timeStat_setTime_def add.assoc)
qed (simp add: QoS_setTimes_def)

text \<open>The value a 64-bit sum has when it does not overflow.\<close>

lemma unat_sum_list:
  "(\<Sum>t\<leftarrow>ts. unat t) < 2 ^ 64 \<Longrightarrow> unat (sum_list ts :: u64) = (\<Sum>t\<leftarrow>ts. unat t)"
proof (induction ts)
  case (Cons t ts)
  then have "unat t + unat (sum_list ts) < 2 ^ 64" by simp
  with Cons show ?case by (simp add: unat_add_lem [THEN iffD1])
qed simp

lemma unat_ucast_u32: "unat (ucast (w :: u32) :: u64) = unat w"
proof -
  have "unat w < 2 ^ 64"
    using unsigned_less [of w] by (rule less_le_trans) simp
  then show ?thesis by (simp add: unsigned_ucast_eq take_bit_nat_eq_self)
qed

text \<open>
  The report of a channel is the integer average of the round-trip times fed into it since it
  was opened, as long as neither their number nor their sum overflows.
\<close>

theorem QoS_average:
  assumes "m c = None" "ts \<noteq> []" "length ts < 2 ^ 32" "(\<Sum>t\<leftarrow>ts. unat t) < 2 ^ 64"
  shows "unat (snd (snd (QoS_getAverageForChannel c
      (QoS_setTimes c ts (snd (QoS_openChannel c upper lower m))) r))) = (\<Sum>t\<leftarrow>ts. unat t) div length ts"
proof -
  have len: "unat (of_nat (length ts) :: u32) = length ts"
    using assms(3) by (simp add: unsigned_of_nat take_bit_nat_eq_self)
  have "unat (ucast (of_nat (length ts) :: u32) :: u64) = unat (of_nat (length ts) :: u32)"
    by (rule unat_ucast_u32)
  moreover have "(of_nat (length ts) :: u32) \<noteq> 0"
    using len assms(2) by auto
  moreover note QoS_setTimes_value [of "snd (QoS_openChannel c upper lower m)" c
      "timeStat_init\<lparr>mUpperTime := upper, mLowerTime := lower\<rparr>" ts]
  ultimately show ?thesis
    using assms(1) len unat_sum_list [OF assms(4)]
    by (simp add: QoS_openChannel_def QoS_getAverageForChannel_def timeStat_getAverage_def timeStat_init_def
        unat_div Let_def)
qed

theorem QoS_average_witness:
  "unat (snd (snd (QoS_getAverageForChannel 7 (QoS_setTimes 7 [10, 21] (snd (QoS_openChannel 7 100 1 Map.empty))) 0))) =
     (\<Sum>t\<leftarrow>[10, 21 :: u64]. unat t) div length [10, 21 :: u64]"
  by (rule QoS_average) simp_all

end
