(* ===== verification/FramesQueue.thy ===== *)
theory FramesQueue
  imports Frame QoS
begin

text \<open>
  The queue of transmitted, not yet acknowledged frames (\<^verbatim>\<open>L0/private/CTransmittedFramesQueue.cpp\<close>).
  Every reading of the monotonic clock is an argument, so what the clock returns is up to the
  caller. \<^verbatim>\<open>lockQueue\<close> and \<^verbatim>\<open>unlockQueue\<close> make each operation, and the pair of sending and enqueueing,
  atomic; the model's operations are atomic as they stand.
\<close>

section \<open>State and operations\<close>

record timespec =
  tv_sec :: u64
  tv_nsec :: u64

record tFrameTimeStamped =
  ts_frame :: Frame
  mStartTime :: timespec

record CTransmittedFramesQueue =
  mQueue :: "tFrameTimeStamped list"
  mTransmitStartTimes :: "u64 \<rightharpoonup> timespec"

definition RETRANSMIT_TIMEOUT_SEC :: int where
  "RETRANSMIT_TIMEOUT_SEC = 20"

definition nsec :: "timespec \<Rightarrow> u64" where
  "nsec t = tv_sec t * 1000000000 + tv_nsec t"

definition getTimePeriodInNanoSec :: "timespec \<Rightarrow> timespec \<Rightarrow> u64 option" where
  "getTimePeriodInNanoSec first second =
     (if nsec first \<le> nsec second then Some (nsec second - nsec first) else None)"

definition concatenateChannelIdFrameNum :: "Frame \<Rightarrow> u64" where
  "concatenateChannelIdFrameNum f = push_bit 32 (ucast (channel_id f)) OR ucast (frame_number f)"

definition tfq_enqueue :: "timespec \<Rightarrow> Frame \<Rightarrow> CTransmittedFramesQueue \<Rightarrow> CTransmittedFramesQueue" where
  "tfq_enqueue now f q =
     (let k = concatenateChannelIdFrameNum f in
      q\<lparr>mQueue := mQueue q @ [\<lparr>ts_frame = f, mStartTime = now\<rparr>],
        mTransmitStartTimes := (if mTransmitStartTimes q k = None then (mTransmitStartTimes q)(k \<mapsto> now)
          else mTransmitStartTimes q)\<rparr>)"

definition frame_has_id :: "u32 \<Rightarrow> u32 \<Rightarrow> Frame \<Rightarrow> bool" where
  "frame_has_id c n f \<longleftrightarrow> channel_id f = c \<and> frame_number f = n"

fun tfq_dequeue_from ::
  "timespec \<Rightarrow> u32 \<Rightarrow> u32 \<Rightarrow> tFrameTimeStamped list \<Rightarrow> tFrameTimeStamped list \<Rightarrow>
   (u64 \<rightharpoonup> timespec) \<times> TStatisticsMap \<Rightarrow> (CTransmittedFramesQueue \<times> TStatisticsMap) option" where
  "tfq_dequeue_from end_time c n before [] (starts, qos) =
     Some (\<lparr>mQueue = before, mTransmitStartTimes = starts\<rparr>, qos)"
| "tfq_dequeue_from end_time c n before (t # ts) (starts, qos) =
     (if frame_has_id c n (ts_frame t)
      then (case getTimePeriodInNanoSec (mStartTime t) end_time of
          None \<Rightarrow> None
        | Some time \<Rightarrow> Some
            (\<lparr>mQueue = before @ ts,
              mTransmitStartTimes = starts(concatenateChannelIdFrameNum (ts_frame t) := None)\<rparr>,
             snd (QoS_setTime c time qos)))
      else tfq_dequeue_from end_time c n (before @ [t]) ts (starts, qos))"

definition tfq_dequeue ::
  "timespec \<Rightarrow> u32 \<Rightarrow> u32 \<Rightarrow> CTransmittedFramesQueue \<times> TStatisticsMap \<Rightarrow>
   (CTransmittedFramesQueue \<times> TStatisticsMap) option" where
  "tfq_dequeue end_time c n = (\<lambda>(q, qos).
     tfq_dequeue_from end_time c n [] (mQueue q) (mTransmitStartTimes q, qos))"

definition tfq_deleteFramesForChannel :: "u32 \<Rightarrow> CTransmittedFramesQueue \<Rightarrow> CTransmittedFramesQueue" where
  "tfq_deleteFramesForChannel c q =
     \<lparr>mQueue = filter (\<lambda>t. channel_id (ts_frame t) \<noteq> c) (mQueue q),
      mTransmitStartTimes = fold (\<lambda>t m. m(concatenateChannelIdFrameNum (ts_frame t) := None))
        (filter (\<lambda>t. channel_id (ts_frame t) = c) (mQueue q)) (mTransmitStartTimes q)\<rparr>"

text \<open>The result of \<^verbatim>\<open>getFrameToRetransmit\<close> is the frame at the front of the queue or no frame.\<close>

definition tfq_getFrameToRetransmit :: "timespec \<Rightarrow> CTransmittedFramesQueue \<Rightarrow> Frame option option" where
  "tfq_getFrameToRetransmit cur_time q =
     (case mQueue q of
        [] \<Rightarrow> Some None
      | fts # _ \<Rightarrow>
         (case getTimePeriodInNanoSec (mStartTime fts) cur_time of
            None \<Rightarrow> None
          | Some time \<Rightarrow> Some (if RETRANSMIT_TIME_NSEC < time then Some (ts_frame fts) else None)))"

text \<open>
  The caller passes the frame it got, which is the front of the queue: the assertions compare the
  pointers and the headers.
\<close>

definition tfq_reenqueueRetransmittedFrame ::
  "timespec \<Rightarrow> CTransmittedFramesQueue \<Rightarrow> CTransmittedFramesQueue option" where
  "tfq_reenqueueRetransmittedFrame now q =
     (case mQueue q of
        [] \<Rightarrow> None
      | front # rest \<Rightarrow>
         (let fts = front\<lparr>mStartTime := now\<rparr>; k = concatenateChannelIdFrameNum (ts_frame fts)
          in case mTransmitStartTimes q k of
               Some first \<Rightarrow>
                 if sint (tv_sec now - tv_sec first) < RETRANSMIT_TIMEOUT_SEC
                 then Some (q\<lparr>mQueue := rest @ [fts]\<rparr>)
                 else Some (q\<lparr>mQueue := rest, mTransmitStartTimes := (mTransmitStartTimes q)(k := None)\<rparr>)
             | None \<Rightarrow> Some (q\<lparr>mQueue := rest @ [fts]\<rparr>)))"

section \<open>Frame identity\<close>

lemma concatenate_inj:
  "concatenateChannelIdFrameNum f = concatenateChannelIdFrameNum g \<longleftrightarrow>
     channel_id f = channel_id g \<and> frame_number f = frame_number g"
proof (intro iffI conjI)
  assume eq: "concatenateChannelIdFrameNum f = concatenateChannelIdFrameNum g"
  then have b: "bit (concatenateChannelIdFrameNum f) n = bit (concatenateChannelIdFrameNum g) n" for n
    by simp
  show "channel_id f = channel_id g"
  proof (rule bit_word_eqI)
    fix n assume "n < LENGTH(32)"
    with b [of "n + 32"] show "bit (channel_id f) n = bit (channel_id g) n"
      by (auto simp: concatenateChannelIdFrameNum_def bit_simps dest: bit_imp_le_length)
  qed
  show "frame_number f = frame_number g"
  proof (rule bit_word_eqI)
    fix n assume "n < LENGTH(32)"
    with b [of n] show "bit (frame_number f) n = bit (frame_number g) n"
      by (auto simp: concatenateChannelIdFrameNum_def bit_simps)
  qed
qed (simp add: concatenateChannelIdFrameNum_def)

definition tfq_key :: "tFrameTimeStamped \<Rightarrow> u32 \<times> u32" where
  "tfq_key t = (channel_id (ts_frame t), frame_number (ts_frame t))"

lemma concatenate_key:
  "concatenateChannelIdFrameNum (ts_frame s) = concatenateChannelIdFrameNum (ts_frame t) \<longleftrightarrow> tfq_key s = tfq_key t"
  by (simp add: concatenate_inj tfq_key_def)

section \<open>Well-formedness\<close>

text \<open>
  No two queued frames have the same channel and number, and the start times are kept for exactly
  the queued frames.
\<close>

definition tfq_ok :: "CTransmittedFramesQueue \<Rightarrow> bool" where
  "tfq_ok q \<longleftrightarrow> distinct (map tfq_key (mQueue q)) \<and>
     dom (mTransmitStartTimes q) = (\<lambda>t. concatenateChannelIdFrameNum (ts_frame t)) ` set (mQueue q)"

definition tfq_contains :: "u32 \<Rightarrow> u32 \<Rightarrow> CTransmittedFramesQueue \<Rightarrow> bool" where
  "tfq_contains c n q \<longleftrightarrow> list_ex (\<lambda>t. frame_has_id c n (ts_frame t)) (mQueue q)"

lemma tfq_ok_enqueue:
  "tfq_ok q \<Longrightarrow> \<not> tfq_contains (channel_id f) (frame_number f) q \<Longrightarrow> tfq_ok (tfq_enqueue now f q)"
  by (auto simp: tfq_ok_def tfq_enqueue_def tfq_contains_def frame_has_id_def list_ex_iff tfq_key_def Let_def
      split: if_splits)

lemma tfq_dequeue_from_miss:
  "list_all (\<lambda>t. \<not> frame_has_id c n (ts_frame t)) as \<Longrightarrow>
   tfq_dequeue_from now c n before (as @ ts) sq = tfq_dequeue_from now c n (before @ as) ts sq"
  by (induction as arbitrary: before) (cases sq, auto)+

lemma tfq_dequeue_absent:
  "\<not> tfq_contains c n q \<Longrightarrow> tfq_dequeue now c n (q, qos) = Some (q, qos)"
  using tfq_dequeue_from_miss [of c n "mQueue q" now "[]" "[]" "(mTransmitStartTimes q, qos)"]
  by (cases q) (auto simp: tfq_dequeue_def tfq_contains_def list_ex_iff list_all_iff)

text \<open>Acknowledging a queued frame takes it out of the queue and nothing else.\<close>

lemma tfq_dequeue_present:
  assumes "tfq_ok q" "mQueue q = as @ t # bs" "frame_has_id c n (ts_frame t)"
    and "getTimePeriodInNanoSec (mStartTime t) now = Some time"
  shows "tfq_dequeue now c n (q, qos) = Some
    (\<lparr>mQueue = as @ bs, mTransmitStartTimes =
        (mTransmitStartTimes q)(concatenateChannelIdFrameNum (ts_frame t) := None)\<rparr>, snd (QoS_setTime c time qos))"
proof -
  have "list_all (\<lambda>s. \<not> frame_has_id c n (ts_frame s)) as"
    using assms(1,2,3) by (auto simp: tfq_ok_def tfq_key_def frame_has_id_def list_all_iff image_iff)
  then show ?thesis
    using assms(2,3,4) tfq_dequeue_from_miss [of c n as now "[]" "t # bs" "(mTransmitStartTimes q, qos)"]
    by (simp add: tfq_dequeue_def)
qed

lemma tfq_ok_remove:
  assumes "tfq_ok q" "mQueue q = as @ t # bs"
  shows "tfq_ok \<lparr>mQueue = as @ bs, mTransmitStartTimes =
    (mTransmitStartTimes q)(concatenateChannelIdFrameNum (ts_frame t) := None)\<rparr>"
  using assms by (auto simp: tfq_ok_def concatenate_key image_iff)

lemma tfq_contains_split:
  assumes "tfq_contains c n q"
  obtains as t bs where "mQueue q = as @ t # bs" "frame_has_id c n (ts_frame t)"
proof -
  obtain t where t: "t \<in> set (mQueue q)" "frame_has_id c n (ts_frame t)"
    using assms by (auto simp: tfq_contains_def list_ex_iff)
  then show thesis using split_list [OF t(1)] that by blast
qed

lemma tfq_ok_dequeue:
  assumes "tfq_ok q" "tfq_dequeue now c n (q, qos) = Some (q', qos')"
  shows "tfq_ok q' \<and> \<not> tfq_contains c n q'"
proof (cases "tfq_contains c n q")
  case False
  with assms show ?thesis by (simp add: tfq_dequeue_absent)
next
  case True
  then obtain as t bs where s: "mQueue q = as @ t # bs" "frame_has_id c n (ts_frame t)"
    by (rule tfq_contains_split)
  show ?thesis
  proof (cases "getTimePeriodInNanoSec (mStartTime t) now")
    case None
    have "list_all (\<lambda>s. \<not> frame_has_id c n (ts_frame s)) as"
      using assms(1) s by (auto simp: tfq_ok_def tfq_key_def frame_has_id_def list_all_iff image_iff)
    with None assms(2) s show ?thesis
      using tfq_dequeue_from_miss [of c n as now "[]" "t # bs" "(mTransmitStartTimes q, qos)"]
      by (simp add: tfq_dequeue_def)
  next
    case (Some time)
    from tfq_dequeue_present [OF assms(1) s Some, of qos] assms(2)
    have q': "q' = \<lparr>mQueue = as @ bs, mTransmitStartTimes =
      (mTransmitStartTimes q)(concatenateChannelIdFrameNum (ts_frame t) := None)\<rparr>" by simp
    moreover have "\<not> tfq_contains c n q'"
      using assms(1) s by (auto simp: q' tfq_ok_def tfq_contains_def tfq_key_def frame_has_id_def list_ex_iff image_iff)
    ultimately show ?thesis using tfq_ok_remove [OF assms(1) s(1)] by simp
  qed
qed

lemma fold_remove_dom:
  "dom (fold (\<lambda>t m. m(k t := None)) ts m) = dom m - k ` set ts"
  by (induction ts arbitrary: m) auto

lemma tfq_ok_delete: "tfq_ok q \<Longrightarrow> tfq_ok (tfq_deleteFramesForChannel c q)"
  by (auto simp: tfq_ok_def tfq_deleteFramesForChannel_def fold_remove_dom distinct_map_filter concatenate_key
      tfq_key_def image_iff)

lemma tfq_delete_mQueue:
  "mQueue (tfq_deleteFramesForChannel c q) = filter (\<lambda>t. channel_id (ts_frame t) \<noteq> c) (mQueue q)"
  by (simp add: tfq_deleteFramesForChannel_def)

lemma tfq_ok_reenqueue:
  assumes "tfq_ok q" "tfq_reenqueueRetransmittedFrame now q = Some q'"
  shows "tfq_ok q'"
proof (cases "mQueue q")
  case (Cons front rest)
  let ?k = "concatenateChannelIdFrameNum (ts_frame front)"
  have "?k \<in> dom (mTransmitStartTimes q)"
    using assms(1) Cons by (simp add: tfq_ok_def)
  then obtain first where first: "mTransmitStartTimes q ?k = Some first" by auto
  show ?thesis
  proof (cases "sint (tv_sec now - tv_sec first) < RETRANSMIT_TIMEOUT_SEC")
    case True
    then have "q' = q\<lparr>mQueue := rest @ [front\<lparr>mStartTime := now\<rparr>]\<rparr>"
      using assms(2) Cons first by (simp add: tfq_reenqueueRetransmittedFrame_def Let_def)
    then show ?thesis
      using assms(1) Cons by (auto simp: tfq_ok_def tfq_key_def)
  next
    case False
    then have "q' = \<lparr>mQueue = [] @ rest, mTransmitStartTimes = (mTransmitStartTimes q)(?k := None)\<rparr>"
      using assms(2) Cons first by (cases q) (simp add: tfq_reenqueueRetransmittedFrame_def Let_def)
    then show ?thesis
      using tfq_ok_remove [OF assms(1), of "[]" front rest] Cons by simp
  qed
qed (use assms(2) in \<open>simp add: tfq_reenqueueRetransmittedFrame_def\<close>)

section \<open>Sample environments\<close>

text \<open>An environment whose clock advances by a nanosecond at every reading, and two carriers.\<close>

definition tick :: "nat \<Rightarrow> timespec \<times> nat" where
  "tick n = (\<lparr>tv_sec = 10, tv_nsec = of_nat n\<rparr>, Suc n)"

definition working_link :: "u8 list \<Rightarrow> nat \<Rightarrow> ErrorCode \<times> nat" where
  "working_link bs n = (NO_ERROR, n)"

definition broken_link :: "u8 list \<Rightarrow> nat \<Rightarrow> ErrorCode \<times> nat" where
  "broken_link bs n = (ERROR_OTHER, n)"

section \<open>Properties\<close>

text \<open>
  No operation of the queue of transmitted frames breaks its invariant: no two
  queued frames share channel and number, and first transmission times are kept for exactly the queued
  frames.
\<close>

theorem queue_stays_well_formed:
  assumes "tfq_ok q"
  shows "(\<not> tfq_contains (channel_id f) (frame_number f) q \<longrightarrow> tfq_ok (tfq_enqueue now f q))
    \<and> (\<forall>m q' m'. tfq_dequeue now c n (q, m) = Some (q', m') \<longrightarrow> tfq_ok q')
    \<and> tfq_ok (tfq_deleteFramesForChannel c q)
    \<and> (\<forall>q'. tfq_reenqueueRetransmittedFrame now q = Some q' \<longrightarrow> tfq_ok q')"
  using assms tfq_ok_enqueue tfq_ok_dequeue tfq_ok_delete tfq_ok_reenqueue by blast

text \<open>
  An acknowledgement of a queued frame takes this frame and its first transmission
  time away, keeps the others in their order, and adds one sample to the statistics of its channel.
\<close>

theorem ack_removes_one_frame:
  assumes "tfq_ok q" "mQueue q = as @ t # bs" "nsec (mStartTime t) \<le> nsec now" "m (channel_id (ts_frame t)) = Some st"
  shows "\<exists>q' m'. tfq_dequeue now (channel_id (ts_frame t)) (frame_number (ts_frame t)) (q, m) = Some (q', m')
    \<and> mQueue q' = as @ bs \<and> mTransmitStartTimes q' (concatenateChannelIdFrameNum (ts_frame t)) = None
    \<and> m' = m(channel_id (ts_frame t) \<mapsto> timeStat_setTime (nsec now - nsec (mStartTime t)) st)"
proof -
  have id: "frame_has_id (channel_id (ts_frame t)) (frame_number (ts_frame t)) (ts_frame t)"
    by (simp add: frame_has_id_def)
  have "getTimePeriodInNanoSec (mStartTime t) now = Some (nsec now - nsec (mStartTime t))"
    using assms(3) by (simp add: getTimePeriodInNanoSec_def)
  from tfq_dequeue_present [OF assms(1,2) id this, of m] assms(4) show ?thesis
    by (simp add: QoS_setTime_def)
qed

definition two_frames :: CTransmittedFramesQueue where
  "two_frames = tfq_enqueue \<lparr>tv_sec = 3, tv_nsec = 0\<rparr> \<lparr>sizeAndFlags = 0, channel_id = 7, frame_number = 2, frame_data = []\<rparr>
     (tfq_enqueue \<lparr>tv_sec = 2, tv_nsec = 0\<rparr> \<lparr>sizeAndFlags = 0, channel_id = 7, frame_number = 1, frame_data = []\<rparr>
       \<lparr>mQueue = [], mTransmitStartTimes = Map.empty\<rparr>)"

lemma two_frames_ok: "tfq_ok two_frames"
  "mQueue two_frames =
    [\<lparr>ts_frame = \<lparr>sizeAndFlags = 0, channel_id = 7, frame_number = 1, frame_data = []\<rparr>, mStartTime = \<lparr>tv_sec = 2, tv_nsec = 0\<rparr>\<rparr>,
     \<lparr>ts_frame = \<lparr>sizeAndFlags = 0, channel_id = 7, frame_number = 2, frame_data = []\<rparr>, mStartTime = \<lparr>tv_sec = 3, tv_nsec = 0\<rparr>\<rparr>]"
proof -
  have "tfq_ok \<lparr>mQueue = [], mTransmitStartTimes = Map.empty\<rparr>" by (simp add: tfq_ok_def)
  then show "tfq_ok two_frames"
    unfolding two_frames_def
    by (intro tfq_ok_enqueue) (simp_all add: tfq_contains_def frame_has_id_def tfq_enqueue_def Let_def)
qed (simp add: two_frames_def tfq_enqueue_def Let_def)

theorem queue_stays_well_formed_witness:
  "tfq_ok (tfq_deleteFramesForChannel 8 two_frames)"
  using queue_stays_well_formed [OF two_frames_ok(1)] by blast

theorem ack_removes_one_frame_witness:
  "\<exists>q' m'. tfq_dequeue \<lparr>tv_sec = 4, tv_nsec = 0\<rparr> 7 1 (two_frames, [7 \<mapsto> timeStat_init]) = Some (q', m')
    \<and> mQueue q' = tl (mQueue two_frames)"
  using ack_removes_one_frame [OF two_frames_ok(1), of "[]" _ _ "\<lparr>tv_sec = 4, tv_nsec = 0\<rparr>" "[7 \<mapsto> timeStat_init]" timeStat_init]
  unfolding two_frames_ok(2) by (force simp: nsec_def)

end
