(* ===== verification/AgentBuffer.thy ===== *)
theory AgentBuffer
  imports Prelude
begin

text \<open>
  The buffer of \<^verbatim>\<open>common/ConnectivityAgentBuffer.hpp\<close>. A \<^verbatim>\<open>Buffer *\<close> is in one queue at a time and
  handed from owner to owner, so the queues of the model hold buffers by value. \<^verbatim>\<open>data\<close> is \<^verbatim>\<open>None\<close>
  for the null pointer, else the initialised bytes at the front of the \<^verbatim>\<open>allocated_size\<close> bytes.
\<close>

record Buffer =
  allocated_size :: u32
  filled_size :: u32
  data :: "u8 list option"

definition Buffer_new :: Buffer where
  "Buffer_new = \<lparr>allocated_size = 0, filled_size = 0, data = None\<rparr>"

definition setFilledSize :: "u32 \<Rightarrow> Buffer \<Rightarrow> Buffer" where
  "setFilledSize sz b = b\<lparr>filled_size := sz\<rparr>"

definition reserveSize :: "u32 \<Rightarrow> Buffer \<Rightarrow> Buffer option" where
  "reserveSize sz b =
     (if \<not> unat sz \<le> MAX_SIZE then None
      else if data b = None \<or> allocated_size b < sz
      then Some (b\<lparr>data := Some [], allocated_size := sz\<rparr>)
      else Some b)"

text \<open>\<^verbatim>\<open>memcpy\<close> of \<^verbatim>\<open>bs\<close> to the start of the buffer's memory.\<close>

definition fill_data :: "u8 list \<Rightarrow> Buffer \<Rightarrow> Buffer option" where
  "fill_data bs b =
     (case data b of
        None \<Rightarrow> if bs = [] then Some b else None
      | Some d \<Rightarrow> if length bs \<le> unat (allocated_size b) then Some (b\<lparr>data := Some (overwrite 0 bs d)\<rparr>) else None)"

definition appendData :: "u8 list \<Rightarrow> Buffer \<Rightarrow> (bool \<times> Buffer) option" where
  "appendData bs b =
     (if allocated_size b - filled_size b < of_nat (length bs) then Some (False, b)
      else case data b of
          None \<Rightarrow> if bs = [] then Some (True, b) else None
        | Some d \<Rightarrow> Some (True, b\<lparr>data := Some (overwrite (unat (filled_size b)) bs d),
            filled_size := filled_size b + of_nat (length bs)\<rparr>))"

definition forgetData :: "Buffer \<Rightarrow> Buffer" where
  "forgetData b = b\<lparr>data := None, allocated_size := 0\<rparr>"

text \<open>The bytes a reader gets: \<^verbatim>\<open>filled_size\<close> of them, all of which must have been written.\<close>

definition content :: "Buffer \<Rightarrow> u8 list" where
  "content b = (case data b of None \<Rightarrow> [] | Some d \<Rightarrow> take (unat (filled_size b)) d)"

definition buffer_wf :: "Buffer \<Rightarrow> bool" where
  "buffer_wf b \<longleftrightarrow> (case data b of
     None \<Rightarrow> filled_size b = 0
   | Some d \<Rightarrow> unat (filled_size b) \<le> length d \<and> length d \<le> unat (allocated_size b)
       \<and> unat (allocated_size b) \<le> MAX_SIZE)"

lemma length_content: "buffer_wf b \<Longrightarrow> length (content b) = unat (filled_size b)"
  by (simp add: buffer_wf_def content_def split: option.splits)

lemma buffer_wf_size: "buffer_wf b \<Longrightarrow> unat (filled_size b) \<le> MAX_SIZE"
  by (auto simp: buffer_wf_def split: option.splits)

text \<open>Every memory a pool buffer can own: the code only ever allocates up to \<^verbatim>\<open>MAX_SIZE\<close> bytes.\<close>

definition buffer_mem_ok :: "Buffer \<Rightarrow> bool" where
  "buffer_mem_ok b \<longleftrightarrow> (case data b of None \<Rightarrow> True
     | Some d \<Rightarrow> length d \<le> unat (allocated_size b) \<and> unat (allocated_size b) \<le> MAX_SIZE)"

text \<open>Reserving room for some bytes, writing them and setting the size stores exactly these bytes.\<close>

lemma reserve_fill:
  assumes "buffer_mem_ok b" "length bs \<le> MAX_SIZE"
  obtains b1 b2 where "reserveSize (of_nat (length bs)) b = Some b1" "data b1 \<noteq> None"
    "fill_data bs b1 = Some b2" "content (setFilledSize (of_nat (length bs)) b2) = bs"
    "buffer_wf (setFilledSize (of_nat (length bs)) b2)"
proof -
  let ?n = "of_nat (length bs) :: u32"
  have n: "unat ?n = length bs"
    using assms(2) by (simp add: MAX_SIZE_def unsigned_of_nat take_bit_nat_eq_self)
  obtain b1 d where b1: "reserveSize ?n b = Some b1" "data b1 = Some d"
    "length d \<le> unat (allocated_size b1)" "unat (allocated_size b1) \<le> MAX_SIZE" "length bs \<le> unat (allocated_size b1)"
  proof (cases "data b = None \<or> allocated_size b < ?n")
    case True
    then show thesis using that [of "b\<lparr>data := Some [], allocated_size := ?n\<rparr>" "[]"] n assms(2)
      by (simp add: reserveSize_def)
  next
    case False
    then obtain d where d: "data b = Some d" by auto
    have "length bs \<le> unat (allocated_size b)"
      using False n by (simp add: word_less_nat_alt)
    with False d show thesis
      using that [of b d] n assms by (simp add: reserveSize_def buffer_mem_ok_def)
  qed
  have "length (overwrite 0 bs d) \<le> unat (allocated_size b1)"
    using b1(3,5) by (simp add: overwrite_def)
  with b1 n show thesis
    using that [of b1 "b1\<lparr>data := Some (overwrite 0 bs d)\<rparr>"]
    by (simp add: fill_data_def content_def buffer_wf_def setFilledSize_def) (simp add: overwrite_def)
qed

end
