(* ===== verification/Endpoints.thy ===== *)
theory Endpoints
  imports AgentBuffer FramesQueue
begin

text \<open>
  The objects on both ends of a channel and their calls to each other:
  \<^verbatim>\<open>L1/private/CSourceAgent.cpp\<close> and \<^verbatim>\<open>L0/private/CSource.cpp\<close> on the sending side,
  \<^verbatim>\<open>L0/private/CTarget.cpp\<close> and \<^verbatim>\<open>L1/private/CTargetAgent.cpp\<close> on the receiving side. The objects
  refer to each other by pointers, so they live in maps from addresses; an object that has been
  destroyed has no entry, and a call through a pointer to it does not return.
\<close>

section \<open>Objects\<close>

type_synonym addr = nat

record CSourceAgent =
  sa_channel :: u32
  sa_queue :: "Buffer list"
  sa_consumer :: "addr option"

record CSource =
  src_channel :: u32
  src_frameCounter :: u32
  src_queue :: "Buffer list"
  src_producer :: "addr option"

record CTargetAgent =
  ta_channel :: u32
  ta_queue :: "Buffer list"
  ta_producer :: "addr option"

record CTarget =
  tgt_channel :: u32
  tgt_queue :: "Buffer list"
  tgt_consumer :: "addr option"
  mLastFrameNr :: u32
  mCarrierReplaced :: bool

text \<open>
  The state of the agent process below the layer that talks to clients: the objects, the next free
  address, the \<^verbatim>\<open>static\<close> flag of \<^verbatim>\<open>CTarget::receiveFrame\<close>, and the members of \<^verbatim>\<open>CTransmitDispatcher\<close>,
  \<^verbatim>\<open>CIncomeDispatcher\<close> (its map of targets as an association list, because the code iterates over it;
  the order of the visits does not matter), \<^verbatim>\<open>CTransmittedFramesQueue\<close> and \<^verbatim>\<open>CQoS\<close>.
\<close>

record l0_state =
  sourceAgents :: "addr \<rightharpoonup> CSourceAgent"
  sources :: "addr \<rightharpoonup> CSource"
  targetAgents :: "addr \<rightharpoonup> CTargetAgent"
  targets :: "addr \<rightharpoonup> CTarget"
  free_addr :: addr
  firstFlag :: bool
  mRegistry :: "TChannelPriority \<Rightarrow> addr list"
  tx_destroyed :: bool
  mTargetMap :: "(u32 \<times> addr) list"
  rx_destroyed :: bool
  tfq :: CTransmittedFramesQueue
  qos :: TStatisticsMap

definition l0_init :: l0_state where
  "l0_init = \<lparr>sourceAgents = Map.empty, sources = Map.empty, targetAgents = Map.empty, targets = Map.empty,
     free_addr = 0, firstFlag = True, mRegistry = (\<lambda>_. []), tx_destroyed = False, mTargetMap = [],
     rx_destroyed = False, tfq = \<lparr>mQueue = [], mTransmitStartTimes = Map.empty\<rparr>, qos = Map.empty\<rparr>"

section \<open>The sending side\<close>

definition CSourceAgent_new :: "u32 \<Rightarrow> CSourceAgent" where
  "CSourceAgent_new channel = \<lparr>sa_channel = channel, sa_queue = replicate QUEUE_SIZE Buffer_new, sa_consumer = None\<rparr>"

definition CSource_new :: "u32 \<Rightarrow> CSource" where
  "CSource_new channel = \<lparr>src_channel = channel, src_frameCounter = 1, src_queue = [], src_producer = None\<rparr>"

definition CSourceAgent_registerConsumer :: "addr \<Rightarrow> addr \<Rightarrow> 'l l0_state_scheme \<Rightarrow> 'l l0_state_scheme option" where
  "CSourceAgent_registerConsumer this pConsumer w = do {
     a \<leftarrow> sourceAgents w this;
     cassert (sa_consumer a = None);
     Some (w\<lparr>sourceAgents := (sourceAgents w)(this \<mapsto> a\<lparr>sa_consumer := Some pConsumer\<rparr>)\<rparr>) }"

definition CSourceAgent_returnBufferBack :: "addr \<Rightarrow> Buffer \<Rightarrow> 'l l0_state_scheme \<Rightarrow> 'l l0_state_scheme option" where
  "CSourceAgent_returnBufferBack this b w = do {
     a \<leftarrow> sourceAgents w this;
     Some (w\<lparr>sourceAgents := (sourceAgents w)(this \<mapsto> a\<lparr>sa_queue := sa_queue a @ [b]\<rparr>)\<rparr>) }"

definition CSourceAgent_isQueueEmpty :: "addr \<Rightarrow> 'l l0_state_scheme \<Rightarrow> bool option" where
  "CSourceAgent_isQueueEmpty this w = map_option (\<lambda>a. sa_queue a = []) (sourceAgents w this)"

definition CSource_registerProducer :: "addr \<Rightarrow> addr \<Rightarrow> 'l l0_state_scheme \<Rightarrow> 'l l0_state_scheme option" where
  "CSource_registerProducer this pProducer w = do {
     s \<leftarrow> sources w this;
     cassert (src_producer s = None);
     Some (w\<lparr>sources := (sources w)(this \<mapsto> s\<lparr>src_producer := Some pProducer\<rparr>)\<rparr>) }"

definition CSource_unregisterProducer :: "addr \<Rightarrow> addr \<Rightarrow> 'l l0_state_scheme \<Rightarrow> 'l l0_state_scheme option" where
  "CSource_unregisterProducer this pProducer w = do {
     s \<leftarrow> sources w this;
     cassert (src_producer s = Some pProducer);
     Some (w\<lparr>sources := (sources w)(this \<mapsto> s\<lparr>src_producer := None\<rparr>)\<rparr>) }"

definition CSource_hasData :: "CSource \<Rightarrow> bool" where
  "CSource_hasData s \<longleftrightarrow> src_queue s \<noteq> []"

primrec return_all ::
  "(Buffer \<Rightarrow> 'w \<Rightarrow> 'w option) \<Rightarrow> Buffer list \<Rightarrow> 'w \<Rightarrow> 'w option" where
  "return_all back [] w = Some w"
| "return_all back (b # bs) w = do { w' \<leftarrow> back b w; return_all back bs w' }"

definition CSource_flushBuffers :: "addr \<Rightarrow> 'l l0_state_scheme \<Rightarrow> 'l l0_state_scheme option" where
  "CSource_flushBuffers this w = do {
     s \<leftarrow> sources w this;
     p \<leftarrow> src_producer s;
     return_all (CSourceAgent_returnBufferBack p) (src_queue s)
       (w\<lparr>sources := (sources w)(this \<mapsto> s\<lparr>src_queue := []\<rparr>)\<rparr>) }"

text \<open>\<^verbatim>\<open>unregisterConsumer\<close> ends with the destruction of the agent itself.\<close>

definition CSourceAgent_unregisterConsumer :: "addr \<Rightarrow> addr \<Rightarrow> 'l l0_state_scheme \<Rightarrow> 'l l0_state_scheme option" where
  "CSourceAgent_unregisterConsumer this pConsumer w = do {
     a \<leftarrow> sourceAgents w this;
     cassert (sa_consumer a = Some pConsumer);
     w \<leftarrow> CSource_flushBuffers pConsumer w;
     Some (w\<lparr>sourceAgents := (sourceAgents w)(this := None)\<rparr>) }"

definition CSource_delete :: "addr \<Rightarrow> 'l l0_state_scheme \<Rightarrow> 'l l0_state_scheme option" where
  "CSource_delete this w = do {
     s \<leftarrow> sources w this;
     w \<leftarrow> (case src_producer s of None \<Rightarrow> Some w | Some p \<Rightarrow> CSourceAgent_unregisterConsumer p this w);
     Some (w\<lparr>sources := (sources w)(this := None)\<rparr>) }"

definition CSource_consumeBuffer :: "addr \<Rightarrow> Buffer \<Rightarrow> 'l l0_state_scheme \<Rightarrow> (ErrorCode \<times> 'l l0_state_scheme) option" where
  "CSource_consumeBuffer this b w = do {
     s \<leftarrow> sources w this;
     Some (NO_ERROR, w\<lparr>sources := (sources w)(this \<mapsto> s\<lparr>src_queue := src_queue s @ [b]\<rparr>)\<rparr>) }"

text \<open>The caller's buffer comes back without its data, or as it was when nothing was taken.\<close>

definition CSourceAgent_fillBuffer ::
  "addr \<Rightarrow> Buffer \<Rightarrow> 'l l0_state_scheme \<Rightarrow> (ErrorCode \<times> Buffer \<times> 'l l0_state_scheme) option" where
  "CSourceAgent_fillBuffer this buffer w = do {
     a \<leftarrow> sourceAgents w this;
     (case sa_consumer a of
        None \<Rightarrow> Some (ERROR_OTHER, buffer, w)
      | Some c \<Rightarrow>
         (case sa_queue a of
            [] \<Rightarrow> Some (ERROR_NO_FREE_BUFFERS_LEFT, buffer, w)
          | _ # rest \<Rightarrow> do {
              (_, w') \<leftarrow> CSource_consumeBuffer c buffer
                (w\<lparr>sourceAgents := (sourceAgents w)(this \<mapsto> a\<lparr>sa_queue := rest\<rparr>)\<rparr>);
              Some (NO_ERROR, forgetData buffer, w') })) }"

text \<open>
  \<^verbatim>\<open>CopyToFrame\<close> takes as much of the first buffer as the quota allows; the second component says
  whether the buffer is finished and released.
\<close>

definition CSource_CopyToFrame :: "Frame \<Rightarrow> u32 \<Rightarrow> CSource \<Rightarrow> (Frame \<times> Buffer list \<times> CSource) option" where
  "CSource_CopyToFrame frame quote s =
     (case src_queue s of
        [] \<Rightarrow> None
      | buf # rest \<Rightarrow>
         (let full_copy = filled_size buf \<le> quote;
              copy_size = (if full_copy then filled_size buf else quote);
              n = unat copy_size;
              d = (case data buf of None \<Rightarrow> [] | Some d \<Rightarrow> d);
              buf' = (if full_copy then buf
                else buf\<lparr>filled_size := filled_size buf - copy_size,
                  data := Some (overwrite 0 (drop n (take (unat (filled_size buf)) d)) d)\<rparr>)
          in if unat (filled_size buf) \<le> length d \<and> n \<le> length (frame_data frame)
             then Some (setSize (ucast copy_size)
                 (frame\<lparr>channel_id := src_channel s, frame_number := src_frameCounter s,
                        frame_data := overwrite 0 (take n d) (frame_data frame)\<rparr>),
               (if full_copy then [buf'] else []),
               s\<lparr>src_frameCounter := src_frameCounter s + 1, src_queue := buf' # rest\<rparr>)
             else None))"

definition CSource_OnDispatch ::
  "addr \<Rightarrow> Frame \<Rightarrow> u32 \<Rightarrow> 'l l0_state_scheme \<Rightarrow> (ErrorCode \<times> Frame \<times> 'l l0_state_scheme) option" where
  "CSource_OnDispatch this frame quote w = do {
     s \<leftarrow> sources w this;
     if src_queue s = [] then Some (ERROR_INCONSISTENT_DATA, frame, w)
     else do {
       (frame', released, s') \<leftarrow> CSource_CopyToFrame frame quote s;
       p \<leftarrow> src_producer s';
       w' \<leftarrow> return_all (CSourceAgent_returnBufferBack p) released
         (w\<lparr>sources := (sources w)(this \<mapsto> s'\<lparr>src_queue := drop (length released) (src_queue s')\<rparr>)\<rparr>);
       Some (NO_ERROR, frame', w') } }"

section \<open>The receiving side\<close>

definition CTargetAgent_new :: "u32 \<Rightarrow> CTargetAgent" where
  "CTargetAgent_new channel = \<lparr>ta_channel = channel, ta_queue = [], ta_producer = None\<rparr>"

definition CTarget_new :: "u32 \<Rightarrow> CTarget" where
  "CTarget_new channel = \<lparr>tgt_channel = channel, tgt_queue = replicate QUEUE_SIZE Buffer_new, tgt_consumer = None,
     mLastFrameNr = 0, mCarrierReplaced = False\<rparr>"

definition CTarget_registerConsumer :: "addr \<Rightarrow> addr \<Rightarrow> 'l l0_state_scheme \<Rightarrow> 'l l0_state_scheme option" where
  "CTarget_registerConsumer this pConsumer w = do {
     t \<leftarrow> targets w this;
     cassert (tgt_consumer t = None);
     Some (w\<lparr>targets := (targets w)(this \<mapsto> t\<lparr>tgt_consumer := Some pConsumer\<rparr>)\<rparr>) }"

definition CTarget_returnBufferBack :: "addr \<Rightarrow> Buffer \<Rightarrow> 'l l0_state_scheme \<Rightarrow> 'l l0_state_scheme option" where
  "CTarget_returnBufferBack this b w = do {
     t \<leftarrow> targets w this;
     Some (w\<lparr>targets := (targets w)(this \<mapsto> t\<lparr>tgt_queue := tgt_queue t @ [b]\<rparr>)\<rparr>) }"

definition CTarget_setCarrierReplaced :: "CTarget \<Rightarrow> CTarget" where
  "CTarget_setCarrierReplaced t = t\<lparr>mCarrierReplaced := True\<rparr>"

definition CTargetAgent_registerProducer :: "addr \<Rightarrow> addr \<Rightarrow> 'l l0_state_scheme \<Rightarrow> 'l l0_state_scheme option" where
  "CTargetAgent_registerProducer this pProducer w = do {
     a \<leftarrow> targetAgents w this;
     cassert (ta_producer a = None);
     Some (w\<lparr>targetAgents := (targetAgents w)(this \<mapsto> a\<lparr>ta_producer := Some pProducer\<rparr>)\<rparr>) }"

definition CTargetAgent_unregisterProducer :: "addr \<Rightarrow> addr \<Rightarrow> 'l l0_state_scheme \<Rightarrow> 'l l0_state_scheme option" where
  "CTargetAgent_unregisterProducer this pProducer w = do {
     a \<leftarrow> targetAgents w this;
     cassert (ta_producer a = Some pProducer);
     Some (w\<lparr>targetAgents := (targetAgents w)(this \<mapsto> a\<lparr>ta_producer := None\<rparr>)\<rparr>) }"

definition CTargetAgent_flushBuffers :: "addr \<Rightarrow> 'l l0_state_scheme \<Rightarrow> 'l l0_state_scheme option" where
  "CTargetAgent_flushBuffers this w = do {
     a \<leftarrow> targetAgents w this;
     p \<leftarrow> ta_producer a;
     w \<leftarrow> return_all (CTarget_returnBufferBack p) (ta_queue a) w;
     a \<leftarrow> targetAgents w this;
     Some (w\<lparr>targetAgents := (targetAgents w)(this \<mapsto> a\<lparr>ta_queue := []\<rparr>)\<rparr>) }"

definition CTarget_unregisterConsumer :: "addr \<Rightarrow> addr \<Rightarrow> 'l l0_state_scheme \<Rightarrow> 'l l0_state_scheme option" where
  "CTarget_unregisterConsumer this pConsumer w = do {
     t \<leftarrow> targets w this;
     cassert (tgt_consumer t = Some pConsumer);
     w \<leftarrow> CTargetAgent_flushBuffers pConsumer w;
     t \<leftarrow> targets w this;
     Some (w\<lparr>targets := (targets w)(this \<mapsto> t\<lparr>tgt_consumer := None\<rparr>)\<rparr>) }"

definition CTarget_delete :: "addr \<Rightarrow> 'l l0_state_scheme \<Rightarrow> 'l l0_state_scheme option" where
  "CTarget_delete this w = do {
     t \<leftarrow> targets w this;
     w \<leftarrow> (case tgt_consumer t of
         None \<Rightarrow> Some w
       | Some c \<Rightarrow> do { w \<leftarrow> CTargetAgent_flushBuffers c w; CTargetAgent_unregisterProducer c this w });
     Some (w\<lparr>targets := (targets w)(this := None)\<rparr>) }"

text \<open>
  \<^verbatim>\<open>visitStub\<close> hands the first buffer to \<^verbatim>\<open>L1InterfaceStub::receiveData\<close>, the parameter
  \<^verbatim>\<open>receiveData\<close>, which may change anything in the process before the buffer goes back to its pool.
\<close>

type_synonym 'w data_receiver = "Buffer \<Rightarrow> u32 \<Rightarrow> 'w \<Rightarrow> (ErrorCode \<times> Buffer \<times> 'w) option"

definition CTargetAgent_visitStub ::
  "'l l0_state_scheme data_receiver \<Rightarrow> addr \<Rightarrow> 'l l0_state_scheme \<Rightarrow> (ErrorCode \<times> 'l l0_state_scheme) option" where
  "CTargetAgent_visitStub receiveData this w = do {
     a \<leftarrow> targetAgents w this;
     (case ta_queue a of
        [] \<Rightarrow> Some (ERROR_NO_FREE_BUFFERS_LEFT, w)
      | buf # rest \<Rightarrow> do {
          (result, buf, w) \<leftarrow> receiveData buf (ta_channel a)
            (w\<lparr>targetAgents := (targetAgents w)(this \<mapsto> a\<lparr>ta_queue := rest\<rparr>)\<rparr>);
          a \<leftarrow> targetAgents w this;
          p \<leftarrow> ta_producer a;
          w \<leftarrow> CTarget_returnBufferBack p buf w;
          Some (result, w) }) }"

definition CTargetAgent_consumeBuffer ::
  "'l l0_state_scheme data_receiver \<Rightarrow> addr \<Rightarrow> Buffer \<Rightarrow> 'l l0_state_scheme \<Rightarrow>
   (ErrorCode \<times> 'l l0_state_scheme) option" where
  "CTargetAgent_consumeBuffer receiveData this b w = do {
     a \<leftarrow> targetAgents w this;
     CTargetAgent_visitStub receiveData this
       (w\<lparr>targetAgents := (targetAgents w)(this \<mapsto> a\<lparr>ta_queue := ta_queue a @ [b]\<rparr>)\<rparr>) }"

definition CTarget_copyFromFrame :: "Frame \<Rightarrow> Buffer \<Rightarrow> Buffer option" where
  "CTarget_copyFromFrame frame buffer =
     (let frame_size = getSize frame in do {
        buffer \<leftarrow> reserveSize (ucast frame_size) buffer;
        cassert (data buffer \<noteq> None);
        cassert (unat frame_size \<le> length (frame_data frame));
        buffer \<leftarrow> fill_data (take (unat frame_size) (frame_data frame)) buffer;
        Some (setFilledSize (ucast frame_size) buffer) })"

definition CTarget_receiveFrame ::
  "'l l0_state_scheme data_receiver \<Rightarrow> addr \<Rightarrow> Frame \<Rightarrow> 'l l0_state_scheme \<Rightarrow>
   (ErrorCode \<times> 'l l0_state_scheme) option" where
  "CTarget_receiveFrame receiveData this frame w = do {
     t \<leftarrow> targets w this;
     cassert (tgt_channel t = channel_id frame);
     if \<not> firstFlag w \<and> \<not> mCarrierReplaced t \<and> frame_number frame \<noteq> mLastFrameNr t + 1
     then Some (if frame_number frame \<le> mLastFrameNr t then ERROR_RESEND_ACK else ERROR_WRONG_FRAME_SEQUENCE, w)
     else (case tgt_queue t of
        [] \<Rightarrow> Some (ERROR_NO_FREE_BUFFERS_LEFT, w)
      | buf # rest \<Rightarrow> do {
          buf \<leftarrow> CTarget_copyFromFrame frame buf;
          c \<leftarrow> tgt_consumer t;
          (result, w) \<leftarrow> CTargetAgent_consumeBuffer receiveData c buf
            (w\<lparr>targets := (targets w)(this \<mapsto> t\<lparr>tgt_queue := rest\<rparr>)\<rparr>);
          if isNoError result
          then do {
            t \<leftarrow> targets w this;
            Some (result, w\<lparr>firstFlag := False,
              targets := (targets w)(this \<mapsto> t\<lparr>mCarrierReplaced := False, mLastFrameNr := frame_number frame\<rparr>)\<rparr>) }
          else Some (result, w) }) }"

end
