(* ===== verification/SourcePath.thy ===== *)
theory SourcePath
  imports Endpoints
begin

text \<open>
  The sending side of a channel: buffers travel from the pool of \<^verbatim>\<open>CSourceAgent\<close> to the queue of
  \<^verbatim>\<open>CSource\<close> and back. The queue is the byte stream that \<^verbatim>\<open>OnDispatch\<close> cuts into numbered frames;
  \<^verbatim>\<open>stream_dispatch\<close> is the specification of that cut.
\<close>

section \<open>Specification\<close>

type_synonym send_stream = "u8 list list \<times> u32"

definition stream_dispatch :: "nat \<Rightarrow> send_stream \<Rightarrow> (u8 list \<times> u32) \<times> send_stream" where
  "stream_dispatch q = (\<lambda>(ms, n). case ms of
     [] \<Rightarrow> (([], n), (ms, n))
   | m # ms' \<Rightarrow> if length m \<le> q then ((m, n), (ms', n + 1)) else ((take q m, n), (drop q m # ms', n + 1)))"

function fragments :: "nat \<Rightarrow> u8 list list \<Rightarrow> u8 list list" where
  "fragments q [] = []"
| "fragments q (m # ms) =
     (if length m \<le> q \<or> q = 0 then m # fragments q ms else take q m # fragments q (drop q m # ms))"
  by pat_completeness auto
termination
  by (relation "measure (\<lambda>(q, ms). length ms + length (concat ms))") auto

declare fragments.simps(2) [simp del]

lemma concat_fragments: "concat (fragments q ms) = concat ms"
proof (induction q ms rule: fragments.induct)
  case (2 q m ms)
  then show ?case
    by (cases "length m \<le> q \<or> q = 0") (simp_all add: fragments.simps(2) flip: append.assoc)
qed simp

lemma fragments_bound: "0 < q \<Longrightarrow> list_all (\<lambda>m. length m \<le> q) (fragments q ms)"
proof (induction q ms rule: fragments.induct)
  case (2 q m ms)
  then show ?case
    by (cases "length m \<le> q") (simp_all add: fragments.simps(2))
qed simp

lemma fragments_dispatch:
  "0 < q \<Longrightarrow> stream_dispatch q (m # ms, n) = ((p, k), (ms', n')) \<Longrightarrow>
   fragments q (m # ms) = p # fragments q ms' \<and> k = n \<and> n' = n + 1"
  by (auto simp: stream_dispatch_def fragments.simps(2) [of q m ms] split: if_splits)

section \<open>The objects of one channel\<close>

definition source_channel_ok :: "addr \<Rightarrow> addr \<Rightarrow> 'l l0_state_scheme \<Rightarrow> bool" where
  "source_channel_ok a s w \<longleftrightarrow>
     (case (sourceAgents w a, sources w s) of
        (Some ag, Some src) \<Rightarrow> sa_consumer ag = Some s \<and> src_producer src = Some a
          \<and> sa_channel ag = src_channel src
          \<and> length (sa_queue ag) + length (src_queue src) = QUEUE_SIZE
          \<and> list_all buffer_wf (src_queue src)
      | _ \<Rightarrow> False)"

definition source_stream :: "addr \<Rightarrow> 'l l0_state_scheme \<Rightarrow> send_stream" where
  "source_stream s w = (case sources w s of None \<Rightarrow> ([], 0)
     | Some src \<Rightarrow> (map content (src_queue src), src_frameCounter src))"

definition source_pool :: "addr \<Rightarrow> 'l l0_state_scheme \<Rightarrow> nat" where
  "source_pool a w = (case sourceAgents w a of None \<Rightarrow> 0 | Some ag \<Rightarrow> length (sa_queue ag))"

lemma source_channel_okE:
  assumes "source_channel_ok a s w"
  obtains ag src where "sourceAgents w a = Some ag" "sources w s = Some src" "sa_consumer ag = Some s"
    "src_producer src = Some a" "sa_channel ag = src_channel src"
    "length (sa_queue ag) + length (src_queue src) = QUEUE_SIZE" "list_all buffer_wf (src_queue src)"
  using assms by (auto simp: source_channel_ok_def split: option.splits)

text \<open>Client data enters the stream at its end, unless all buffers are on their way.\<close>

lemma fillBuffer_full:
  "source_channel_ok a s w \<Longrightarrow> source_pool a w = 0 \<Longrightarrow>
   CSourceAgent_fillBuffer a b w = Some (ERROR_NO_FREE_BUFFERS_LEFT, b, w)"
  by (elim source_channel_okE) (simp add: CSourceAgent_fillBuffer_def source_pool_def)

lemma fillBuffer_queues:
  assumes "source_channel_ok a s w" "source_pool a w \<noteq> 0" "buffer_wf b"
  obtains w' where "CSourceAgent_fillBuffer a b w = Some (NO_ERROR, forgetData b, w')"
    "source_channel_ok a s w'" "source_pool a w' = source_pool a w - 1"
    "source_stream s w' = (fst (source_stream s w) @ [content b], snd (source_stream s w))"
proof -
  obtain ag src where o: "sourceAgents w a = Some ag" "sources w s = Some src" "sa_consumer ag = Some s"
    "src_producer src = Some a" "sa_channel ag = src_channel src"
    "length (sa_queue ag) + length (src_queue src) = QUEUE_SIZE" "list_all buffer_wf (src_queue src)"
    using assms(1) by (rule source_channel_okE)
  from assms(2) o obtain b0 rest where q: "sa_queue ag = b0 # rest"
    by (cases "sa_queue ag") (auto simp: source_pool_def)
  show thesis
    by (rule that) (use o q assms(3) in \<open>auto simp: CSourceAgent_fillBuffer_def CSource_consumeBuffer_def
        source_channel_ok_def source_pool_def source_stream_def\<close>)
qed

section \<open>Cutting the stream into frames\<close>

lemma take_overwrite_prefix: "n \<le> length mem \<Longrightarrow> length bs = n \<Longrightarrow> take n (overwrite 0 bs mem) = bs"
  by (simp add: overwrite_def)

lemma CopyToFrame_refines:
  assumes "src_queue s = buf # rest" "buffer_wf buf" "unat quote \<le> length (frame_data fr)" "unat quote < 2 ^ 15"
  obtains fr' released s' where "CSource_CopyToFrame fr quote s = Some (fr', released, s')"
    "((payload fr', frame_number fr'), (map content (drop (length released) (src_queue s')), src_frameCounter s'))
       = stream_dispatch (unat quote) (map content (src_queue s), src_frameCounter s)"
    "channel_id fr' = src_channel s" "\<not> isACK fr'" "frame_wf fr' \<longleftrightarrow> length (payload fr') \<le> MAX_SIZE"
    "length (frame_data fr') = length (frame_data fr)" "list_all buffer_wf (drop (length released) (src_queue s'))
       \<longleftrightarrow> list_all buffer_wf rest"
    "length released + length (drop (length released) (src_queue s')) = length (src_queue s)"
    "src_channel s' = src_channel s" "src_producer s' = src_producer s"
proof -
  let ?d = "case data buf of None \<Rightarrow> [] | Some d \<Rightarrow> d"
  let ?n = "if filled_size buf \<le> quote then filled_size buf else quote"
  have d: "unat (filled_size buf) \<le> length ?d" "content buf = take (unat (filled_size buf)) ?d"
    using assms(2) by (auto simp: buffer_wf_def content_def split: option.splits)
  have n: "unat ?n \<le> length (frame_data fr)" "unat ?n \<le> length ?d" "unat ?n < 2 ^ 15"
    using assms(3,4) d(1) by (auto simp: word_le_nat_alt not_le)
  have u: "unat (ucast ?n :: u16) = unat ?n"
    using n(3) by (simp add: unsigned_ucast_eq take_bit_nat_eq_self)
  define fr' where "fr' = setSize (ucast ?n) (fr\<lparr>channel_id := src_channel s, frame_number := src_frameCounter s,
      frame_data := overwrite 0 (take (unat ?n) ?d) (frame_data fr)\<rparr>)"
  have sz: "getSize fr' = ucast ?n"
    unfolding fr'_def by (rule getSize_setSize) (use u n(3) in simp)
  have len: "length (frame_data fr') = length (frame_data fr)"
    using n by (simp add: fr'_def min_def)
  have pl: "payload fr' = take (unat ?n) ?d"
    unfolding payload_def sz u using n by (simp add: fr'_def take_overwrite_prefix)
  have hd: "channel_id fr' = src_channel s" "frame_number fr' = src_frameCounter s" "\<not> isACK fr'"
    by (simp_all add: fr'_def)
  have wf: "frame_wf fr' \<longleftrightarrow> length (payload fr') \<le> MAX_SIZE"
    using n len by (simp add: frame_wf_def sz u pl min_def)
  show thesis
  proof (cases "filled_size buf \<le> quote")
    case True
    show thesis
    proof (rule that)
      show "CSource_CopyToFrame fr quote s = Some (fr', [buf],
          s\<lparr>src_frameCounter := src_frameCounter s + 1, src_queue := buf # rest\<rparr>)"
        using True d(1) n by (simp add: CSource_CopyToFrame_def assms(1) Let_def fr'_def)
      show "((payload fr', frame_number fr'), (map content (drop (length [buf])
          (src_queue (s\<lparr>src_frameCounter := src_frameCounter s + 1, src_queue := buf # rest\<rparr>))),
          src_frameCounter (s\<lparr>src_frameCounter := src_frameCounter s + 1, src_queue := buf # rest\<rparr>)))
         = stream_dispatch (unat quote) (map content (src_queue s), src_frameCounter s)"
        using True assms(1) d by (simp add: stream_dispatch_def pl hd min_def word_le_nat_alt)
    qed (use hd wf len assms(1) in simp_all)
  next
    case False
    let ?buf = "buf\<lparr>filled_size := filled_size buf - quote,
        data := Some (overwrite 0 (drop (unat quote) (take (unat (filled_size buf)) ?d)) ?d)\<rparr>"
    let ?s = "s\<lparr>src_frameCounter := src_frameCounter s + 1, src_queue := ?buf # rest\<rparr>"
    from False have q: "quote \<le> filled_size buf" "unat quote < unat (filled_size buf)"
      by (simp_all add: word_le_nat_alt word_less_nat_alt not_le)
    have f: "unat (filled_size buf - quote) = unat (filled_size buf) - unat quote"
      using q(1) by (rule unat_diff_u32)
    have c: "content ?buf = drop (unat quote) (content buf)"
      using d q(2) by (simp add: content_def f overwrite_def)
    have b: "buffer_wf ?buf"
      using assms(2) d(1) q(2) by (auto simp: buffer_wf_def f overwrite_def split: option.splits)
    show thesis
    proof (rule that)
      show "CSource_CopyToFrame fr quote s = Some (fr', [], ?s)"
        using False d(1) n by (simp add: CSource_CopyToFrame_def assms(1) Let_def fr'_def)
      show "((payload fr', frame_number fr'), (map content (drop (length []) (src_queue ?s)), src_frameCounter ?s))
         = stream_dispatch (unat quote) (map content (src_queue s), src_frameCounter s)"
        using False assms(1) d q by (simp add: stream_dispatch_def pl hd c min_def)
    qed (use hd wf len assms(1) b in simp_all)
  qed
qed

lemma return_all_agents:
  "sourceAgents v a = Some g \<Longrightarrow> return_all (CSourceAgent_returnBufferBack a) bs v =
     Some (v\<lparr>sourceAgents := (sourceAgents v)(a \<mapsto> g\<lparr>sa_queue := sa_queue g @ bs\<rparr>)\<rparr>)"
  by (induction bs arbitrary: v g) (auto simp: CSourceAgent_returnBufferBack_def map_upd_triv)

text \<open>
  A dispatch on a channel with data produces the next frame of the stream, and gives the buffer back
  to the pool exactly when its last byte has been taken.
\<close>

lemma OnDispatch_refines:
  assumes "source_channel_ok a s w" "fst (source_stream s w) \<noteq> []"
    and "unat quote \<le> length (frame_data fr)" "unat quote \<le> MAX_SIZE"
  obtains fr' w' where "CSource_OnDispatch s fr quote w = Some (NO_ERROR, fr', w')"
    "((payload fr', frame_number fr'), source_stream s w') = stream_dispatch (unat quote) (source_stream s w)"
    "source_channel_ok a s w'" "frame_wf fr'" "\<not> isACK fr'"
    "channel_id fr' = src_channel (the (sources w s))" "length (frame_data fr') = length (frame_data fr)"
    "\<exists>src' ag'. w' = w\<lparr>sources := (sources w)(s \<mapsto> src'), sourceAgents := (sourceAgents w)(a \<mapsto> ag')\<rparr>
       \<and> src_channel src' = src_channel (the (sources w s))"
proof -
  obtain ag src where o: "sourceAgents w a = Some ag" "sources w s = Some src" "sa_consumer ag = Some s"
    "src_producer src = Some a" "sa_channel ag = src_channel src"
    "length (sa_queue ag) + length (src_queue src) = QUEUE_SIZE" "list_all buffer_wf (src_queue src)"
    using assms(1) by (rule source_channel_okE)
  from assms(2) o(2) obtain buf rest where q: "src_queue src = buf # rest"
    by (cases "src_queue src") (auto simp: source_stream_def)
  have b: "buffer_wf buf" "list_all buffer_wf rest" using o(7) q by simp_all
  have "unat quote < 2 ^ 15" using assms(4) by (simp add: MAX_SIZE_def)
  from CopyToFrame_refines [OF q b(1) assms(3) this]
  obtain fr' released src' where c: "CSource_CopyToFrame fr quote src = Some (fr', released, src')"
    "((payload fr', frame_number fr'), (map content (drop (length released) (src_queue src')), src_frameCounter src'))
       = stream_dispatch (unat quote) (map content (src_queue src), src_frameCounter src)"
    "channel_id fr' = src_channel src" "\<not> isACK fr'" "frame_wf fr' \<longleftrightarrow> length (payload fr') \<le> MAX_SIZE"
    "length (frame_data fr') = length (frame_data fr)"
    "list_all buffer_wf (drop (length released) (src_queue src')) \<longleftrightarrow> list_all buffer_wf rest"
    "length released + length (drop (length released) (src_queue src')) = length (src_queue src)"
    "src_channel src' = src_channel src" "src_producer src' = src_producer src" by blast
  define w1 where "w1 = w\<lparr>sources := (sources w)(s \<mapsto> src'\<lparr>src_queue := drop (length released) (src_queue src')\<rparr>)\<rparr>"
  define w2 where "w2 = w1\<lparr>sourceAgents := (sourceAgents w1)(a \<mapsto> ag\<lparr>sa_queue := sa_queue ag @ released\<rparr>)\<rparr>"
  have r: "return_all (CSourceAgent_returnBufferBack a) released w1 = Some w2"
    unfolding w2_def by (rule return_all_agents) (simp add: w1_def o(1))
  have "length (payload fr') \<le> MAX_SIZE"
    using c(2) assms(4) by (auto simp: stream_dispatch_def q split: if_splits)
  show thesis
  proof (rule that)
    show "CSource_OnDispatch s fr quote w = Some (NO_ERROR, fr', w2)"
      using o(2,4) q c(1,10) r by (simp add: CSource_OnDispatch_def w1_def)
    show "((payload fr', frame_number fr'), source_stream s w2) = stream_dispatch (unat quote) (source_stream s w)"
      using c(2) o(2) by (simp add: source_stream_def w2_def w1_def)
    show "source_channel_ok a s w2"
      using o c(7,8,9,10) b(2) by (simp add: source_channel_ok_def w2_def w1_def)
    show "\<exists>src' ag'. w2 = w\<lparr>sources := (sources w)(s \<mapsto> src'), sourceAgents := (sourceAgents w)(a \<mapsto> ag')\<rparr>
       \<and> src_channel src' = src_channel (the (sources w s))"
      using c(9) o(2) by (auto simp: w2_def w1_def)
  qed (use c o(2) \<open>length (payload fr') \<le> MAX_SIZE\<close> in simp_all)
qed

section \<open>Draining a channel\<close>

text \<open>Dispatching until the channel reports that it has no data, at most \<^verbatim>\<open>k\<close> times.\<close>

fun dispatch_frames ::
  "nat \<Rightarrow> addr \<Rightarrow> Frame \<Rightarrow> u32 \<Rightarrow> 'l l0_state_scheme \<Rightarrow> (Frame list \<times> 'l l0_state_scheme) option" where
  "dispatch_frames 0 s fr quote w = Some ([], w)"
| "dispatch_frames (Suc k) s fr quote w =
     (case CSource_OnDispatch s fr quote w of
        None \<Rightarrow> None
      | Some (err, fr', w') \<Rightarrow>
         if isNoError err
         then (case dispatch_frames k s fr' quote w' of
             None \<Rightarrow> None
           | Some (fs, w'') \<Rightarrow> Some (fr' # fs, w''))
         else Some ([], w'))"

definition frame_numbers :: "u32 \<Rightarrow> nat \<Rightarrow> u32 list" where
  "frame_numbers n k = map (\<lambda>i. n + of_nat i) [0..<k]"

lemma frame_numbers_Suc: "frame_numbers n (Suc k) = n # frame_numbers (n + 1) k"
  by (simp add: frame_numbers_def upt_conv_Cons map_Suc_upt [symmetric] comp_def add.assoc del: upt_Suc)

lemma frame_numbers_0 [simp]: "frame_numbers n 0 = []"
  by (simp add: frame_numbers_def)

lemma dispatch_empty:
  "source_channel_ok a s w \<Longrightarrow> fst (source_stream s w) = [] \<Longrightarrow>
   CSource_OnDispatch s fr quote w = Some (ERROR_INCONSISTENT_DATA, fr, w)"
  by (elim source_channel_okE) (simp add: CSource_OnDispatch_def source_stream_def)

lemma source_pool_full:
  "source_channel_ok a s w \<Longrightarrow> source_pool a w + length (fst (source_stream s w)) = QUEUE_SIZE"
  by (elim source_channel_okE) (simp add: source_pool_def source_stream_def)

lemma dispatch_frames_drain:
  assumes "source_channel_ok a s w" "source_stream s w = (ms, n)" "length (fragments (unat quote) ms) \<le> k"
    and "0 < unat quote" "unat quote \<le> length (frame_data fr)" "unat quote \<le> MAX_SIZE"
  shows "\<exists>fs w'. dispatch_frames k s fr quote w = Some (fs, w') \<and> map payload fs = fragments (unat quote) ms
    \<and> map frame_number fs = frame_numbers n (length fs) \<and> list_all frame_wf fs
    \<and> source_channel_ok a s w' \<and> source_stream s w' = ([], n + of_nat (length fs))"
  using assms
proof (induction k arbitrary: ms n fr w)
  case 0
  have "ms = []"
  proof (cases ms)
    case (Cons m ms')
    with 0 show ?thesis by (simp add: fragments.simps(2) [of "unat quote" m ms'] split: if_splits)
  qed
  with 0 show ?case by simp
next
  case (Suc k)
  show ?case
  proof (cases ms)
    case Nil
    then show ?thesis
      using Suc.prems dispatch_empty [OF Suc.prems(1), of fr quote] by (simp add: isNoError_def)
  next
    case (Cons m ms')
    obtain fr' w' where d: "CSource_OnDispatch s fr quote w = Some (NO_ERROR, fr', w')"
      "((payload fr', frame_number fr'), source_stream s w') = stream_dispatch (unat quote) (source_stream s w)"
      "source_channel_ok a s w'" "frame_wf fr'" "length (frame_data fr') = length (frame_data fr)"
      using OnDispatch_refines [OF Suc.prems(1) _ Suc.prems(5,6)] Suc.prems(2) Cons by (metis fst_conv list.distinct(1))
    obtain ms2 n2 where st: "source_stream s w' = (ms2, n2)" by fastforce
    have step: "fragments (unat quote) ms = payload fr' # fragments (unat quote) ms2"
      "frame_number fr' = n" "n2 = n + 1"
      using fragments_dispatch [OF Suc.prems(4), of m ms' n "payload fr'" "frame_number fr'" ms2 n2] d(2) st Suc.prems(2) Cons
      by simp_all
    have "length (fragments (unat quote) ms2) \<le> k" "unat quote \<le> length (frame_data fr')"
      using step(1) Suc.prems(3,5) d(5) by simp_all
    from Suc.IH [OF d(3) st this(1) Suc.prems(4) this(2) Suc.prems(6)]
    obtain fs w'' where r: "dispatch_frames k s fr' quote w' = Some (fs, w'')"
      "map payload fs = fragments (unat quote) ms2" "map frame_number fs = frame_numbers n2 (length fs)"
      "list_all frame_wf fs" "source_channel_ok a s w''" "source_stream s w'' = ([], n2 + of_nat (length fs))"
      by blast
    have "dispatch_frames (Suc k) s fr quote w = Some (fr' # fs, w'')"
      using d(1) r(1) by (simp add: isNoError_def)
    moreover have "map frame_number (fr' # fs) = frame_numbers n (length (fr' # fs))"
      using r(3) step(2,3) by (simp add: frame_numbers_Suc)
    moreover have "source_stream s w'' = ([], n + of_nat (length (fr' # fs)))"
      using r(6) step(3) by (simp add: add.assoc)
    moreover have "map payload (fr' # fs) = fragments (unat quote) ms"
      using r(2) step(1) by simp
    moreover have "list_all frame_wf (fr' # fs)"
      using r(4) d(4) by simp
    ultimately show ?thesis
      using r(5) by blast
  qed
qed

text \<open>
  C6: once client buffers are queued on a channel, dispatching it until it has no
  data returns well-formed frames whose payloads, concatenated, are the queued bytes in order, whose
  numbers count on from the frame counter, and which leave all 200 buffers back in the agent's pool.
\<close>

theorem source_drains_in_order:
  assumes "source_channel_ok a s w" "source_stream s w = (ms, n)" "length (fragments (unat quote) ms) \<le> k"
    and "0 < unat quote" "unat quote \<le> length (frame_data fr)" "unat quote \<le> MAX_SIZE"
  shows "\<exists>fs w'. dispatch_frames k s fr quote w = Some (fs, w') \<and> concat (map payload fs) = concat ms
    \<and> map frame_number fs = frame_numbers n (length fs) \<and> list_all frame_wf fs
    \<and> list_all (\<lambda>f. length (payload f) \<le> unat quote) fs
    \<and> source_channel_ok a s w' \<and> fst (source_stream s w') = [] \<and> source_pool a w' = QUEUE_SIZE"
proof -
  obtain fs w' where r: "dispatch_frames k s fr quote w = Some (fs, w')"
    "map payload fs = fragments (unat quote) ms" "map frame_number fs = frame_numbers n (length fs)"
    "list_all frame_wf fs" "source_channel_ok a s w'" "source_stream s w' = ([], n + of_nat (length fs))"
    using dispatch_frames_drain [OF assms] by blast
  have "list_all (\<lambda>f. length (payload f) \<le> unat quote) fs"
    using fragments_bound [OF assms(4), of ms] r(2) by (metis (mono_tags, lifting) list_all_length length_map nth_map)
  with r source_pool_full [OF r(5)] show ?thesis
    by (simp add: concat_fragments)
qed

section \<open>Destruction\<close>

text \<open>Closing a channel destroys the source and the agent that filled it, and nothing else.\<close>

lemma CSource_delete_ok:
  assumes "source_channel_ok a s w"
  shows "CSource_delete s w =
    Some (w\<lparr>sourceAgents := (sourceAgents w)(a := None), sources := (sources w)(s := None)\<rparr>)"
proof -
  obtain ag src where o: "sourceAgents w a = Some ag" "sources w s = Some src" "sa_consumer ag = Some s"
    "src_producer src = Some a"
    using assms by (rule source_channel_okE)
  then show ?thesis
    by (simp add: CSource_delete_def CSourceAgent_unregisterConsumer_def CSource_flushBuffers_def return_all_agents)
qed

text \<open>A source whose agent is gone cannot be destroyed.\<close>

lemma CSource_delete_dangling:
  "sources w s = Some src \<Longrightarrow> src_producer src = Some a \<Longrightarrow> sourceAgents w a = None \<Longrightarrow> CSource_delete s w = None"
  by (simp add: CSource_delete_def CSourceAgent_unregisterConsumer_def)

text \<open>A channel with two queued buffers, one byte over and one byte under a quota of two bytes.\<close>

definition sample_buffer :: "u8 list \<Rightarrow> Buffer" where
  "sample_buffer bs = \<lparr>allocated_size = of_nat (length bs), filled_size = of_nat (length bs), data = Some bs\<rparr>"

definition blank_frame :: Frame where
  "blank_frame = \<lparr>sizeAndFlags = 0, channel_id = 0, frame_number = 0, frame_data = replicate MAX_SIZE 0\<rparr>"

definition sample_sender :: l0_state where
  "sample_sender = l0_init\<lparr>
     sourceAgents := [0 \<mapsto> \<lparr>sa_channel = 7, sa_queue = replicate 198 Buffer_new, sa_consumer = Some 1\<rparr>],
     sources := [1 \<mapsto> \<lparr>src_channel = 7, src_frameCounter = 5, src_queue = map sample_buffer [[1, 2, 3], [4]],
       src_producer = Some 0\<rparr>],
     mRegistry := (\<lambda>_. [])(eSafetyCritical := [1]), free_addr := 2\<rparr>"

lemma sample_sender_ok: "source_channel_ok 0 1 sample_sender" "source_stream 1 sample_sender = ([[1, 2, 3], [4]], 5)"
  by (simp_all add: source_channel_ok_def source_stream_def sample_sender_def sample_buffer_def buffer_wf_def content_def
      QUEUE_SIZE_def MAX_SIZE_def)

theorem source_drains_in_order_witness:
  "\<exists>fs w'. dispatch_frames 3 1 blank_frame 2 sample_sender = Some (fs, w') \<and> concat (map payload fs) = [1, 2, 3, 4]
    \<and> list_all (\<lambda>f. length (payload f) \<le> 2) fs \<and> source_pool 0 w' = QUEUE_SIZE"
proof -
  have "length (fragments (unat (2 :: u32)) [[1 :: u8, 2, 3], [4]]) \<le> 3"
    by (simp add: fragments.simps(2))
  from source_drains_in_order [OF sample_sender_ok this, of blank_frame] show ?thesis
    by (auto simp: blank_frame_def MAX_SIZE_def)
qed

end
