(* ===== verification/TargetPath.thy ===== *)
theory TargetPath
  imports Endpoints
begin

text \<open>
  The receiving side of a channel. What \<^verbatim>\<open>CTarget\<close> needs of the layer above is the locale
  \<^verbatim>\<open>data_sink\<close>: on a client channel \<^verbatim>\<open>receiveData\<close> delivers the bytes or reports an error, and leaves
  this layer alone. The decision whether a frame is delivered, acknowledged again or refused is the
  specification \<^verbatim>\<open>target_verdict\<close>.
\<close>

section \<open>Specification of the sequence check\<close>

datatype verdict = Deliver | AckAgain | Refuse

definition target_verdict :: "bool \<Rightarrow> bool \<Rightarrow> u32 \<Rightarrow> u32 \<Rightarrow> verdict" where
  "target_verdict first replaced lst n =
     (if first \<or> replaced \<or> n = lst + 1 then Deliver else if n \<le> lst then AckAgain else Refuse)"

section \<open>The objects of one channel\<close>

definition target_channel_ok :: "addr \<Rightarrow> addr \<Rightarrow> 'l l0_state_scheme \<Rightarrow> bool" where
  "target_channel_ok t a w \<longleftrightarrow>
     (case (targets w t, targetAgents w a) of
        (Some tg, Some ag) \<Rightarrow> tgt_consumer tg = Some a \<and> ta_producer ag = Some t
          \<and> ta_channel ag = tgt_channel tg \<and> ta_queue ag = []
          \<and> length (tgt_queue tg) = QUEUE_SIZE \<and> list_all buffer_mem_ok (tgt_queue tg)
      | _ \<Rightarrow> False)"

lemma target_channel_okE:
  assumes "target_channel_ok t a w"
  obtains tg ag buf rest where "targets w t = Some tg" "targetAgents w a = Some ag" "tgt_consumer tg = Some a"
    "ta_producer ag = Some t" "ta_channel ag = tgt_channel tg" "ta_queue ag = []"
    "tgt_queue tg = buf # rest" "length (buf # rest) = QUEUE_SIZE" "buffer_mem_ok buf" "list_all buffer_mem_ok rest"
proof -
  obtain tg ag where o: "targets w t = Some tg" "targetAgents w a = Some ag" "tgt_consumer tg = Some a"
    "ta_producer ag = Some t" "ta_channel ag = tgt_channel tg" "ta_queue ag = []"
    "length (tgt_queue tg) = QUEUE_SIZE" "list_all buffer_mem_ok (tgt_queue tg)"
    using assms by (auto simp: target_channel_ok_def split: option.splits)
  then obtain buf rest where "tgt_queue tg = buf # rest"
    by (cases "tgt_queue tg") (auto simp: QUEUE_SIZE_def)
  with o that show thesis by simp
qed

lemma buffer_wf_mem: "buffer_wf b \<Longrightarrow> buffer_mem_ok b"
  by (auto simp: buffer_wf_def buffer_mem_ok_def split: option.splits)

lemma copyFromFrame_ok:
  assumes "buffer_mem_ok buf" "frame_wf f"
  obtains b where "CTarget_copyFromFrame f buf = Some b" "content b = payload f" "buffer_wf b"
proof -
  let ?bs = "payload f"
  have len: "length ?bs = unat (getSize f)" "length ?bs \<le> MAX_SIZE" "unat (getSize f) \<le> length (frame_data f)"
    using assms(2) by (auto simp: length_payload frame_wf_def)
  have u: "(ucast (getSize f) :: u32) = of_nat (length ?bs)"
    by (simp add: len(1))
  obtain b1 b2 where b: "reserveSize (of_nat (length ?bs)) buf = Some b1" "data b1 \<noteq> None"
    "fill_data ?bs b1 = Some b2" "content (setFilledSize (of_nat (length ?bs)) b2) = ?bs"
    "buffer_wf (setFilledSize (of_nat (length ?bs)) b2)"
    using reserve_fill [OF assms(1) len(2)] by blast
  show thesis
  proof (rule that)
    show "CTarget_copyFromFrame f buf = Some (setFilledSize (of_nat (length ?bs)) b2)"
      using b(1,2,3) len(3) by (simp add: CTarget_copyFromFrame_def u Let_def) (simp add: payload_def)
  qed (use b(4,5) in simp_all)
qed

section \<open>The layer above\<close>

locale data_sink =
  fixes receiveData :: "'l l0_state_scheme data_receiver"
    and delivered :: "'l l0_state_scheme \<Rightarrow> (u32 \<times> u8 list) list"
  assumes client_data:
    "channel \<noteq> CA_SERVICE_CHANNEL \<Longrightarrow> buffer_wf b \<Longrightarrow> content b \<noteq> [] \<Longrightarrow>
       \<exists>r w'. receiveData b channel w = Some (r, b, w') \<and> r \<noteq> ERROR_RESEND_ACK \<and> l0_state.truncate w' = l0_state.truncate w
         \<and> delivered w' = (if isNoError r then delivered w @ [(channel, content b)] else delivered w)"
    and delivered_above: "l0_state.more w = l0_state.more w' \<Longrightarrow> delivered w = delivered w'"
begin

lemma delivered_l0 [simp]:
  "delivered (w\<lparr>targets := ts\<rparr>) = delivered w" "delivered (w\<lparr>targetAgents := as\<rparr>) = delivered w"
  "delivered (w\<lparr>firstFlag := b\<rparr>) = delivered w"
  by (rule delivered_above, simp)+

lemma truncate_fields:
  assumes "l0_state.truncate w' = l0_state.truncate (w :: 'l l0_state_scheme)"
  shows "targets w' = targets w" "targetAgents w' = targetAgents w" "firstFlag w' = firstFlag w"
    "sources w' = sources w" "sourceAgents w' = sourceAgents w" "tfq w' = tfq w" "qos w' = qos w"
    "mTargetMap w' = mTargetMap w" "mRegistry w' = mRegistry w" "rx_destroyed w' = rx_destroyed w"
    "tx_destroyed w' = tx_destroyed w" "free_addr w' = free_addr w"
  using assms by (simp_all add: l0_state.truncate_def)

text \<open>A buffer handed to the agent comes straight back to the pool, whatever the client answers.\<close>

lemma consumeBuffer_client:
  assumes "targets w t = Some tg" "targetAgents w a = Some ag" "ta_producer ag = Some t" "ta_queue ag = []"
    and "ta_channel ag \<noteq> CA_SERVICE_CHANNEL" "buffer_wf b" "content b \<noteq> []"
  obtains r w' where "CTargetAgent_consumeBuffer receiveData a b w = Some (r, w')" "r \<noteq> ERROR_RESEND_ACK"
    "delivered w' = (if isNoError r then delivered w @ [(ta_channel ag, content b)] else delivered w)"
    "l0_state.truncate w' = l0_state.truncate (w\<lparr>targets := (targets w)(t \<mapsto> tg\<lparr>tgt_queue := tgt_queue tg @ [b]\<rparr>)\<rparr>)"
proof -
  let ?w = "w\<lparr>targetAgents := (targetAgents w)(a \<mapsto> ag\<lparr>ta_queue := []\<rparr>)\<rparr>"
  have w: "?w = w" using assms(2,4) by (simp add: map_upd_triv)
  from client_data [OF assms(5,6,7), of w] obtain r w1 where r: "receiveData b (ta_channel ag) w = Some (r, b, w1)"
    "l0_state.truncate w1 = l0_state.truncate w"
    "delivered w1 = (if isNoError r then delivered w @ [(ta_channel ag, content b)] else delivered w)"
    "r \<noteq> ERROR_RESEND_ACK" by blast
  note f = truncate_fields [OF r(2)]
  show thesis
  proof (rule that)
    show "CTargetAgent_consumeBuffer receiveData a b w =
      Some (r, w1\<lparr>targets := (targets w1)(t \<mapsto> tg\<lparr>tgt_queue := tgt_queue tg @ [b]\<rparr>)\<rparr>)"
      using assms r(1) f(1,2) w
      by (simp add: CTargetAgent_consumeBuffer_def CTargetAgent_visitStub_def CTarget_returnBufferBack_def)
    show "l0_state.truncate (w1\<lparr>targets := (targets w1)(t \<mapsto> tg\<lparr>tgt_queue := tgt_queue tg @ [b]\<rparr>)\<rparr>)
      = l0_state.truncate (w\<lparr>targets := (targets w)(t \<mapsto> tg\<lparr>tgt_queue := tgt_queue tg @ [b]\<rparr>)\<rparr>)"
      using f by (simp add: l0_state.truncate_def)
  qed (use r(3,4) in simp_all)
qed

text \<open>The sequence check follows the specification.\<close>

lemma receiveFrame_not_delivered:
  assumes "target_channel_ok t a w" "channel_id f = tgt_channel (the (targets w t))"
    and "target_verdict (firstFlag w) (mCarrierReplaced (the (targets w t))) (mLastFrameNr (the (targets w t)))
      (frame_number f) = v" "v \<noteq> Deliver"
  shows "CTarget_receiveFrame receiveData t f w =
    Some (if v = AckAgain then ERROR_RESEND_ACK else ERROR_WRONG_FRAME_SEQUENCE, w)"
  using assms
  by (elim target_channel_okE) (auto simp: CTarget_receiveFrame_def target_verdict_def split: if_splits)

lemma receiveFrame_delivered:
  assumes "target_channel_ok t a w" "channel_id f = tgt_channel (the (targets w t))"
    and "target_verdict (firstFlag w) (mCarrierReplaced (the (targets w t))) (mLastFrameNr (the (targets w t)))
      (frame_number f) = Deliver"
    and "channel_id f \<noteq> CA_SERVICE_CHANNEL" "frame_wf f" "payload f \<noteq> []"
  obtains r w' tg' where "CTarget_receiveFrame receiveData t f w = Some (r, w')" "target_channel_ok t a w'"
    "r \<noteq> ERROR_RESEND_ACK" "targets w' = (targets w)(t \<mapsto> tg')" "tgt_channel tg' = channel_id f" "targetAgents w' = targetAgents w"
    "sources w' = sources w" "sourceAgents w' = sourceAgents w" "tfq w' = tfq w" "qos w' = qos w"
    "mTargetMap w' = mTargetMap w" "rx_destroyed w' = rx_destroyed w"
    "isNoError r \<Longrightarrow> delivered w' = delivered w @ [(channel_id f, payload f)] \<and> \<not> firstFlag w'
       \<and> mLastFrameNr tg' = frame_number f \<and> \<not> mCarrierReplaced tg'"
    "\<not> isNoError r \<Longrightarrow> delivered w' = delivered w \<and> firstFlag w' = firstFlag w
       \<and> mLastFrameNr tg' = mLastFrameNr (the (targets w t)) \<and> mCarrierReplaced tg' = mCarrierReplaced (the (targets w t))"
proof -
  obtain tg ag buf rest where o: "targets w t = Some tg" "targetAgents w a = Some ag" "tgt_consumer tg = Some a"
    "ta_producer ag = Some t" "ta_channel ag = tgt_channel tg" "ta_queue ag = []"
    "tgt_queue tg = buf # rest" "length (buf # rest) = QUEUE_SIZE" "buffer_mem_ok buf" "list_all buffer_mem_ok rest"
    using assms(1) by (rule target_channel_okE)
  obtain b where b: "CTarget_copyFromFrame f buf = Some b" "content b = payload f" "buffer_wf b"
    using copyFromFrame_ok [OF o(9) assms(5)] .
  let ?w = "w\<lparr>targets := (targets w)(t \<mapsto> tg\<lparr>tgt_queue := rest\<rparr>)\<rparr>"
  have ch: "ta_channel ag = channel_id f" using assms(2) o(1,5) by simp
  obtain r w1 where c: "CTargetAgent_consumeBuffer receiveData a b ?w = Some (r, w1)"
    "delivered w1 = (if isNoError r then delivered w @ [(channel_id f, payload f)] else delivered w)"
    "l0_state.truncate w1 = l0_state.truncate (?w\<lparr>targets := (targets ?w)(t \<mapsto> tg\<lparr>tgt_queue := rest @ [b]\<rparr>)\<rparr>)"
    "r \<noteq> ERROR_RESEND_ACK"
    by (rule consumeBuffer_client [of ?w t "tg\<lparr>tgt_queue := rest\<rparr>" a ag b])
      (use o b(2,3) assms(4,6) ch in auto)
  note f = truncate_fields [OF c(3)]
  define tg' where "tg' = (if isNoError r
    then tg\<lparr>tgt_queue := rest @ [b], mCarrierReplaced := False, mLastFrameNr := frame_number f\<rparr>
    else tg\<lparr>tgt_queue := rest @ [b]\<rparr>)"
  define w' where "w' = (if isNoError r then w1\<lparr>firstFlag := False, targets := (targets w1)(t \<mapsto> tg')\<rparr> else w1)"
  have v: "\<not> (\<not> firstFlag w \<and> \<not> mCarrierReplaced tg \<and> frame_number f \<noteq> mLastFrameNr tg + 1)"
    using assms(3) o(1) by (auto simp: target_verdict_def split: if_splits)
  show thesis
  proof (rule that)
    show "CTarget_receiveFrame receiveData t f w = Some (r, w')"
      using o v b(1) c(1) assms(2) f(1)
      by (auto simp: CTarget_receiveFrame_def w'_def tg'_def)
    show "targets w' = (targets w)(t \<mapsto> tg')"
      using f(1) by (simp add: w'_def tg'_def)
    then show "target_channel_ok t a w'"
      using o f b(3) by (simp add: target_channel_ok_def w'_def tg'_def buffer_wf_mem)
  qed (use o f c(2,4) assms(2) in \<open>auto simp: w'_def tg'_def\<close>)
qed

end

end
