(* ===== verification/TransmitDispatcher.thy ===== *)
theory TransmitDispatcher
  imports SourcePath Carrier
begin

text \<open>
  \<^verbatim>\<open>L0/private/CTransmitDispatcher.cpp\<close>: opening and closing the sending side of a channel, and one
  round of the transmitting thread, which serves the channels by priority and then retransmits what
  was not acknowledged in time. The clock and the carrier act on an environment of type \<^verbatim>\<open>'n\<close>; the
  registry lock makes a round atomic with respect to \<^verbatim>\<open>openChannel\<close> and \<^verbatim>\<open>closeChannel\<close>. The carrier
  pointer that \<^verbatim>\<open>replaceCarrier\<close> sets is the parameter \<^verbatim>\<open>sendPreparedArray\<close> of the round.
\<close>

section \<open>Opening and closing\<close>

definition SC_QUOTE :: u32 where "SC_QUOTE = 4000"
definition RT_QUOTE :: u32 where "RT_QUOTE = 4000"
definition PD_QUOTE :: u32 where "PD_QUOTE = 4000"

definition getQuoteBySourceType :: "TChannelPriority \<Rightarrow> u32" where
  "getQuoteBySourceType type = (case type of eSafetyCritical \<Rightarrow> SC_QUOTE | eRealTime \<Rightarrow> RT_QUOTE | ePlainData \<Rightarrow> PD_QUOTE)"

text \<open>\<^verbatim>\<open>while (iter != end)\<close> with the comparison of the channel identifier.\<close>

fun find_source :: "u32 \<Rightarrow> addr list \<Rightarrow> 'l l0_state_scheme \<Rightarrow> addr option option" where
  "find_source channel [] w = Some None"
| "find_source channel (p # ps) w =
     (case sources w p of
        None \<Rightarrow> None
      | Some s \<Rightarrow> if src_channel s = channel then Some (Some p) else find_source channel ps w)"

definition tx_openChannel ::
  "u32 \<Rightarrow> TChannelPriority \<Rightarrow> addr \<Rightarrow> 'l l0_state_scheme \<Rightarrow> (ErrorCode \<times> 'l l0_state_scheme) option" where
  "tx_openChannel channel prio bufferProducer w = do {
     found \<leftarrow> find_source channel (mRegistry w prio) w;
     (case found of
        Some _ \<Rightarrow> Some (ERROR_CHANNEL_BUSY, w)
      | None \<Rightarrow>
         (let pSource = free_addr w;
              w = w\<lparr>free_addr := pSource + 1, sources := (sources w)(pSource \<mapsto> CSource_new channel)\<rparr>
          in do {
            w \<leftarrow> CSource_registerProducer pSource bufferProducer w;
            w \<leftarrow> CSourceAgent_registerConsumer bufferProducer pSource w;
            Some (NO_ERROR, w\<lparr>mRegistry := (mRegistry w)(prio := mRegistry w prio @ [pSource])\<rparr>) })) }"

fun tx_close_in ::
  "u32 \<Rightarrow> TChannelPriority list \<Rightarrow> 'l l0_state_scheme \<Rightarrow> (ErrorCode \<times> 'l l0_state_scheme) option" where
  "tx_close_in channel [] w = Some (ERROR_NOT_FOUND, w)"
| "tx_close_in channel (prio # prios) w =
     (case find_source channel (mRegistry w prio) w of
        None \<Rightarrow> None
      | Some None \<Rightarrow> tx_close_in channel prios w
      | Some (Some p) \<Rightarrow>
         (case CSource_delete p w of
            None \<Rightarrow> None
          | Some w \<Rightarrow> Some (NO_ERROR, w\<lparr>mRegistry := (mRegistry w)(prio := remove1 p (mRegistry w prio))\<rparr>)))"

definition priorities :: "TChannelPriority list" where
  "priorities = [eSafetyCritical, eRealTime, ePlainData]"

definition tx_closeChannel :: "u32 \<Rightarrow> 'l l0_state_scheme \<Rightarrow> (ErrorCode \<times> 'l l0_state_scheme) option" where
  "tx_closeChannel channel w =
     tx_close_in channel priorities (w\<lparr>tfq := tfq_deleteFramesForChannel channel (tfq w)\<rparr>)"

fun delete_sources :: "addr list \<Rightarrow> 'l l0_state_scheme \<Rightarrow> 'l l0_state_scheme option" where
  "delete_sources [] w = Some w"
| "delete_sources (p # ps) w = (case CSource_delete p w of None \<Rightarrow> None | Some w' \<Rightarrow> delete_sources ps w')"

definition tx_destroy :: "'l l0_state_scheme \<Rightarrow> 'l l0_state_scheme option" where
  "tx_destroy w = do {
     w' \<leftarrow> delete_sources (concat (map (mRegistry w) priorities)) (w\<lparr>tx_destroyed := True\<rparr>);
     Some (w'\<lparr>mRegistry := (\<lambda>_. [])\<rparr>) }"

section \<open>A round of the transmitting thread\<close>

fun any_source_has_data :: "addr list \<Rightarrow> 'l l0_state_scheme \<Rightarrow> bool option" where
  "any_source_has_data [] w = Some False"
| "any_source_has_data (p # ps) w =
     (case sources w p of
        None \<Rightarrow> None
      | Some s \<Rightarrow> if CSource_hasData s then Some True else any_source_has_data ps w)"

definition hasCertainPriorityData :: "TChannelPriority \<Rightarrow> 'l l0_state_scheme \<Rightarrow> bool option" where
  "hasCertainPriorityData priority w = any_source_has_data (mRegistry w priority) w"

definition send_and_enqueue ::
  "endian \<Rightarrow> (u8 list \<Rightarrow> 'n \<Rightarrow> ErrorCode \<times> 'n) \<Rightarrow> ('n \<Rightarrow> timespec \<times> 'n) \<Rightarrow> Frame \<Rightarrow>
   'l l0_state_scheme \<Rightarrow> 'n \<Rightarrow> ('l l0_state_scheme \<times> 'n) option" where
  "send_and_enqueue e sendPreparedArray clock frame w n =
     (case sendFrame e sendPreparedArray frame n of
        None \<Rightarrow> None
      | Some (err, n1) \<Rightarrow>
         if isNoError err
         then (let (now, n2) = clock n1 in Some (w\<lparr>tfq := tfq_enqueue now frame (tfq w)\<rparr>, n2))
         else Some (w, n1))"

definition realTimeMessagesLimit :: u32 where
  "realTimeMessagesLimit = 2"

text \<open>
  The sources of one priority. The state holds the thread's frame, its count of real-time messages,
  the process and the environment; leaving the loop early is returning without the rest of the list.
\<close>

fun serve_sources ::
  "endian \<Rightarrow> (u8 list \<Rightarrow> 'n \<Rightarrow> ErrorCode \<times> 'n) \<Rightarrow> ('n \<Rightarrow> timespec \<times> 'n) \<Rightarrow> TChannelPriority \<Rightarrow> addr list \<Rightarrow>
   Frame \<times> u32 \<times> 'l l0_state_scheme \<times> 'n \<Rightarrow> (Frame \<times> u32 \<times> 'l l0_state_scheme \<times> 'n) option" where
  "serve_sources e sp clock prio [] st = Some st"
| "serve_sources e sp clock prio (p # ps) (frame, counter, w, n) = do {
     s \<leftarrow> sources w p;
     if \<not> CSource_hasData s then serve_sources e sp clock prio ps (frame, counter, w, n)
     else do {
       preempted \<leftarrow> (if prio \<noteq> eSafetyCritical then hasCertainPriorityData eSafetyCritical w else Some False);
       if preempted then Some (frame, counter, w, n)
       else do {
         (err, frame, w) \<leftarrow> CSource_OnDispatch p frame (getQuoteBySourceType prio) w;
         if \<not> isNoError err then serve_sources e sp clock prio ps (frame, counter, w, n)
         else do {
           (w, n) \<leftarrow> send_and_enqueue e sp clock frame w n;
           (case prio of
              eRealTime \<Rightarrow>
                if counter < realTimeMessagesLimit - 1
                then serve_sources e sp clock prio ps (frame, counter + 1, w, n)
                else Some (frame, 0, w, n)
            | ePlainData \<Rightarrow> do {
                yield \<leftarrow> hasCertainPriorityData eRealTime w;
                if yield then Some (frame, counter, w, n)
                else serve_sources e sp clock prio ps (frame, counter, w, n) }
            | eSafetyCritical \<Rightarrow> serve_sources e sp clock prio ps (frame, counter, w, n)) } } } }"

text \<open>
  The retransmission loop, at most \<^verbatim>\<open>fuel\<close> times; a loop that would go on has no result.
\<close>

fun retransmit ::
  "nat \<Rightarrow> endian \<Rightarrow> (u8 list \<Rightarrow> 'n \<Rightarrow> ErrorCode \<times> 'n) \<Rightarrow> ('n \<Rightarrow> timespec \<times> 'n) \<Rightarrow>
   CTransmittedFramesQueue \<Rightarrow> 'n \<Rightarrow> (CTransmittedFramesQueue \<times> 'n) option" where
  "retransmit 0 e sp clock q n = None"
| "retransmit (Suc fuel) e sp clock q n =
     (if mQueue q = [] then Some (q, n)
      else let (cur_time, n1) = clock n in
        (case tfq_getFrameToRetransmit cur_time q of
           None \<Rightarrow> None
         | Some None \<Rightarrow> Some (q, n1)
         | Some (Some frame) \<Rightarrow>
            (case sendFrame e sp frame n1 of
               None \<Rightarrow> None
             | Some (_, n2) \<Rightarrow>
                (let (now, n3) = clock n2 in
                  (case tfq_reenqueueRetransmittedFrame now q of
                     None \<Rightarrow> None
                   | Some q' \<Rightarrow> retransmit fuel e sp clock q' n3)))))"

fun serve_priorities ::
  "nat \<Rightarrow> endian \<Rightarrow> (u8 list \<Rightarrow> 'n \<Rightarrow> ErrorCode \<times> 'n) \<Rightarrow> ('n \<Rightarrow> timespec \<times> 'n) \<Rightarrow> TChannelPriority list \<Rightarrow>
   Frame \<times> u32 \<times> 'l l0_state_scheme \<times> 'n \<Rightarrow> (Frame \<times> u32 \<times> 'l l0_state_scheme \<times> 'n) option" where
  "serve_priorities fuel e sp clock [] st = Some st"
| "serve_priorities fuel e sp clock (prio # prios) (frame, counter, w, n) = do {
     (frame, counter, w, n) \<leftarrow> serve_sources e sp clock prio (mRegistry w prio) (frame, counter, w, n);
     (q, n) \<leftarrow> retransmit fuel e sp clock (tfq w) n;
     serve_priorities fuel e sp clock prios (frame, counter, w\<lparr>tfq := q\<rparr>, n) }"

text \<open>One round after a wake-up; the thread ends when the dispatcher is being destroyed.\<close>

definition tx_threadFunc_round ::
  "nat \<Rightarrow> endian \<Rightarrow> (u8 list \<Rightarrow> 'n \<Rightarrow> ErrorCode \<times> 'n) \<Rightarrow> ('n \<Rightarrow> timespec \<times> 'n) \<Rightarrow>
   Frame \<times> u32 \<times> 'l l0_state_scheme \<times> 'n \<Rightarrow> (bool \<times> Frame \<times> u32 \<times> 'l l0_state_scheme \<times> 'n) option" where
  "tx_threadFunc_round fuel e sp clock = (\<lambda>(frame, counter, w, n).
     if tx_destroyed w then Some (False, frame, counter, w, n)
     else map_option (Pair True) (serve_priorities fuel e sp clock priorities (frame, counter, w, n)))"

section \<open>The retransmission loop ends\<close>

text \<open>
  What the loop needs of the environment for its next \<^verbatim>\<open>k\<close> calls: the clock does not go back and does
  not pass \<^verbatim>\<open>hi\<close>.
\<close>

fun steady ::
  "(u8 list \<Rightarrow> 'n \<Rightarrow> ErrorCode \<times> 'n) \<Rightarrow> ('n \<Rightarrow> timespec \<times> 'n) \<Rightarrow> u64 \<Rightarrow> u64 \<Rightarrow> nat \<Rightarrow> 'n \<Rightarrow> bool" where
  "steady sp clock lo hi 0 n \<longleftrightarrow> True"
| "steady sp clock lo hi (Suc k) n \<longleftrightarrow>
     lo \<le> nsec (fst (clock n)) \<and> nsec (fst (clock n)) \<le> hi
     \<and> steady sp clock (nsec (fst (clock n))) hi k (snd (clock n))
     \<and> (\<forall>bs. steady sp clock lo hi k (snd (sp bs n)))"

lemma steady_mono: "steady sp clock lo hi k n \<Longrightarrow> j \<le> k \<Longrightarrow> steady sp clock lo hi j n"
proof (induction j arbitrary: k lo n)
  case (Suc j)
  then obtain k' where "k = Suc k'" by (cases k) auto
  with Suc show ?case by auto
qed simp

definition stamped :: "u64 \<Rightarrow> tFrameTimeStamped \<Rightarrow> bool" where
  "stamped t x \<longleftrightarrow> nsec (mStartTime x) \<le> t"

definition restamped :: "u64 \<Rightarrow> u64 \<Rightarrow> tFrameTimeStamped \<Rightarrow> bool" where
  "restamped lo0 t x \<longleftrightarrow> lo0 \<le> nsec (mStartTime x) \<and> nsec (mStartTime x) \<le> t"

lemma reenqueue_shape:
  assumes "mQueue q = front # rest"
  shows "\<exists>q'. tfq_reenqueueRetransmittedFrame now q = Some q'
    \<and> (mQueue q' = rest \<or> mQueue q' = rest @ [front\<lparr>mStartTime := now\<rparr>])"
  using assms by (auto simp: tfq_reenqueueRetransmittedFrame_def Let_def split: option.split)

lemma age_within:
  "(lo0 :: u64) \<le> t \<Longrightarrow> t \<le> now \<Longrightarrow> now \<le> hi \<Longrightarrow> hi - lo0 \<le> d \<Longrightarrow> now - t \<le> d"
proof -
  assume a: "lo0 \<le> t" "t \<le> now" "now \<le> hi" "hi - lo0 \<le> d"
  then have "lo0 \<le> hi" "lo0 \<le> now" by auto
  with a show ?thesis
    by (simp add: word_le_nat_alt unat_sub)
qed

lemma retransmit_ends:
  assumes "mQueue q = old @ new" "list_all (stamped lo) old" "list_all (restamped lo0 lo) new"
    and "list_all (\<lambda>t. unat (getSize (ts_frame t)) \<le> MAX_SIZE) (mQueue q)"
    and "steady sp clock lo hi (3 * length old + 1) n" "hi - lo0 \<le> RETRANSMIT_TIME_NSEC" "lo0 \<le> lo"
    and "length old < fuel"
  shows "\<exists>q' n'. retransmit fuel e sp clock q n = Some (q', n')"
  using assms
proof (induction old arbitrary: q new lo n fuel)
  case Nil
  then obtain fuel' where f: "fuel = Suc fuel'" by (cases fuel) auto
  obtain now n1 where c: "clock n = (now, n1)" by fastforce
  show ?case
  proof (cases "mQueue q")
    case (Cons t ts)
    have t: "lo0 \<le> nsec (mStartTime t)" "nsec (mStartTime t) \<le> lo"
      using Nil Cons by (auto simp: restamped_def)
    have now: "lo \<le> nsec now" "nsec now \<le> hi" using Nil.prems(5) c by auto
    have le: "nsec (mStartTime t) \<le> nsec now" using t now by simp
    have "nsec now - nsec (mStartTime t) \<le> RETRANSMIT_TIME_NSEC"
      using age_within [OF t(1) le now(2) Nil.prems(6)] .
    then have "tfq_getFrameToRetransmit now q = Some None"
      using Cons le by (simp add: tfq_getFrameToRetransmit_def getTimePeriodInNanoSec_def not_less)
    then show ?thesis by (simp add: f Cons c)
  qed (simp add: f)
next
  case (Cons t ts)
  then obtain fuel' where f: "fuel = Suc fuel'" "length ts < fuel'" by (cases fuel) auto
  obtain now n1 where c: "clock n = (now, n1)" by fastforce
  have now: "lo \<le> nsec now" "nsec now \<le> hi" "steady sp clock (nsec now) hi (3 * length ts + 3) n1"
    using Cons.prems(5) c by (auto simp: eval_nat_numeral)
  have le: "nsec (mStartTime t) \<le> nsec now"
    using Cons.prems(2) now(1) by (auto simp: stamped_def)
  have q: "mQueue q = t # (ts @ new)" using Cons.prems(1) by simp
  obtain arr where arr: "frameToArray e (ts_frame t) = Some arr"
    using Cons.prems(4) q by (auto simp: frameToArray_def)
  obtain err n2 where s: "sp arr n1 = (err, n2)" by fastforce
  have st2: "steady sp clock (nsec now) hi (3 * length ts + 2) n2"
    using now(3) s by (simp add: eval_nat_numeral) (metis snd_conv)
  obtain now2 n3 where c2: "clock n2 = (now2, n3)" by fastforce
  have now2: "nsec now \<le> nsec now2" "nsec now2 \<le> hi" "steady sp clock (nsec now2) hi (3 * length ts + 1) n3"
    using st2 c2 by (auto simp: eval_nat_numeral)
  obtain q' where q': "tfq_reenqueueRetransmittedFrame now2 q = Some q'"
    "mQueue q' = ts @ new \<or> mQueue q' = (ts @ new) @ [t\<lparr>mStartTime := now2\<rparr>]"
    using reenqueue_shape [OF q] by metis
  have mono: "lo \<le> nsec now2" "lo0 \<le> nsec now2" using now(1) now2(1) Cons.prems(7) by auto
  have stay: "\<exists>q'' n''. retransmit fuel' e sp clock q' n3 = Some (q'', n'')"
    if "mQueue q' = ts @ new'" "list_all (restamped lo0 (nsec now2)) new'"
      "list_all (\<lambda>t. unat (getSize (ts_frame t)) \<le> MAX_SIZE) new'" for new'
  proof (rule Cons.IH [OF that(1) _ that(2) _ now2(3) Cons.prems(6) mono(2) f(2)])
    show "list_all (stamped (nsec now2)) ts"
      using Cons.prems(2) mono(1) by (auto simp: stamped_def list_all_iff intro: order_trans)
    show "list_all (\<lambda>t. unat (getSize (ts_frame t)) \<le> MAX_SIZE) (mQueue q')"
      using that(1,3) Cons.prems(4) q by simp
  qed
  have new: "list_all (restamped lo0 (nsec now2)) new"
    "list_all (\<lambda>t. unat (getSize (ts_frame t)) \<le> MAX_SIZE) new"
    using Cons.prems(3,4) mono(1) q by (auto simp: restamped_def list_all_iff intro: order_trans)
  have "\<exists>q'' n''. retransmit fuel' e sp clock q' n3 = Some (q'', n'')"
    using q'(2)
  proof
    assume "mQueue q' = ts @ new"
    then show ?thesis using stay new by blast
  next
    assume "mQueue q' = (ts @ new) @ [t\<lparr>mStartTime := now2\<rparr>]"
    then show ?thesis
      using stay [of "new @ [t\<lparr>mStartTime := now2\<rparr>]"] new mono(2) Cons.prems(4) q
      by (simp add: restamped_def)
  qed
  then show ?case
    using le q c c2 s arr q'(1)
    by (simp add: f(1) tfq_getFrameToRetransmit_def getTimePeriodInNanoSec_def sendFrame_def)
qed

section \<open>The registry of sources\<close>

text \<open>
  Every registered source has its agent, no source is registered twice, and addresses from
  \<^verbatim>\<open>free_addr\<close> on are unused.
\<close>

definition all_sources :: "'l l0_state_scheme \<Rightarrow> addr list" where
  "all_sources w = concat (map (mRegistry w) priorities)"

definition tx_ok :: "'l l0_state_scheme \<Rightarrow> bool" where
  "tx_ok w \<longleftrightarrow> (\<forall>p \<in> set (all_sources w). \<exists>a. source_channel_ok a p w) \<and> distinct (all_sources w)
     \<and> (\<forall>p. free_addr w \<le> p \<longrightarrow> sources w p = None \<and> sourceAgents w p = None)"

lemma set_all_sources: "set (all_sources w) = (\<Union>prio. set (mRegistry w prio))"
proof -
  have "(prio :: TChannelPriority) \<in> set priorities" for prio
    by (cases prio) (simp_all add: priorities_def)
  then show ?thesis by (auto simp: all_sources_def)
qed

lemma tx_ok_registered:
  assumes "tx_ok w" "p \<in> set (mRegistry w prio)"
  obtains a where "source_channel_ok a p w"
proof -
  have "p \<in> set (all_sources w)" using assms(2) by (auto simp: set_all_sources)
  with assms(1) that show thesis unfolding tx_ok_def by blast
qed

lemma source_channel_ok_some: "source_channel_ok a p w \<Longrightarrow> \<exists>s. sources w p = Some s"
  by (auto elim: source_channel_okE)

lemma any_source_total:
  "\<forall>p \<in> set ps. \<exists>a. source_channel_ok a p w \<Longrightarrow> \<exists>b. any_source_has_data ps w = Some b"
  by (induction ps) (auto dest!: source_channel_ok_some)

lemma hasCertainPriorityData_total: "tx_ok w \<Longrightarrow> \<exists>b. hasCertainPriorityData prio w = Some b"
  unfolding hasCertainPriorityData_def
  by (rule any_source_total) (meson tx_ok_registered)

lemma find_source_total:
  "\<forall>p \<in> set ps. \<exists>a. source_channel_ok a p w \<Longrightarrow> \<exists>r. find_source channel ps w = Some r"
  by (induction ps) (auto dest!: source_channel_ok_some)

lemma find_source_Some:
  "find_source channel ps w = Some (Some p) \<Longrightarrow> p \<in> set ps \<and> (\<exists>s. sources w p = Some s \<and> src_channel s = channel)"
  by (induction ps) (auto split: option.splits if_splits)

lemma find_source_None:
  "find_source channel ps w = Some None \<Longrightarrow> p \<in> set ps \<Longrightarrow> \<exists>s. sources w p = Some s \<and> src_channel s \<noteq> channel"
  by (induction ps) (auto split: option.splits if_splits)

text \<open>An operation on one source and its agent leaves the other channels alone.\<close>

lemma tx_ok_update:
  assumes "tx_ok w" "source_channel_ok a p w" "source_channel_ok a p w'"
    and w': "w' = w\<lparr>sources := (sources w)(p \<mapsto> src'), sourceAgents := (sourceAgents w)(a \<mapsto> ag')\<rparr>"
  shows "tx_ok w'"
proof -
  have "\<exists>b. source_channel_ok b r w'" if "r \<in> set (all_sources w)" for r
  proof (cases "r = p")
    case True
    with assms(3) show ?thesis by blast
  next
    case False
    have "\<forall>p \<in> set (all_sources w). \<exists>a. source_channel_ok a p w"
      using assms(1) by (simp add: tx_ok_def)
    from bspec [OF this that] obtain b where b: "source_channel_ok b r w" ..
    with assms(2) False have "b \<noteq> a"
      by (auto elim!: source_channel_okE)
    with b False show ?thesis
      by (auto simp: w' source_channel_ok_def)
  qed
  moreover have "p < free_addr w" "a < free_addr w"
    using assms(1,2) by (auto simp: tx_ok_def not_le [symmetric] elim!: source_channel_okE)
  ultimately show ?thesis
    using assms(1) by (auto simp: tx_ok_def all_sources_def w')
qed

section \<open>Serving the channels\<close>

lemma hasData_stream: "sources w p = Some s \<Longrightarrow> CSource_hasData s \<longleftrightarrow> fst (source_stream p w) \<noteq> []"
  by (simp add: CSource_hasData_def source_stream_def)

lemma quote_4000: "unat (getQuoteBySourceType prio) = 4000"
  by (cases prio) (simp_all add: getQuoteBySourceType_def SC_QUOTE_def RT_QUOTE_def PD_QUOTE_def)

lemma OnDispatch_tx_ok:
  assumes "tx_ok w" "p \<in> set (mRegistry w prio)" "sources w p = Some s" "CSource_hasData s"
    and "length (frame_data frame) = MAX_SIZE"
  obtains frame' w' where "CSource_OnDispatch p frame (getQuoteBySourceType prio') w = Some (NO_ERROR, frame', w')"
    "tx_ok w'" "frame_wf frame'" "length (frame_data frame') = MAX_SIZE" "\<not> isACK frame'"
    "channel_id frame' = src_channel s" "mRegistry w' = mRegistry w" "tfq w' = tfq w"
    "((payload frame', frame_number frame'), source_stream p w') = stream_dispatch 4000 (source_stream p w)"
proof -
  obtain a where a: "source_channel_ok a p w" using assms(1,2) by (rule tx_ok_registered)
  have "fst (source_stream p w) \<noteq> []" using assms(3,4) by (simp add: hasData_stream)
  have le: "4000 \<le> length (frame_data frame)" "(4000 :: nat) \<le> MAX_SIZE"
    using assms(5) by (simp_all add: MAX_SIZE_def)
  from \<open>fst (source_stream p w) \<noteq> []\<close> OnDispatch_refines [OF a _, of "getQuoteBySourceType prio'" frame]
  obtain fr' w' where d:
    "CSource_OnDispatch p frame (getQuoteBySourceType prio') w = Some (NO_ERROR, fr', w')"
    "((payload fr', frame_number fr'), source_stream p w') = stream_dispatch 4000 (source_stream p w)"
    "source_channel_ok a p w'" "frame_wf fr'" "\<not> isACK fr'"
    "channel_id fr' = src_channel (the (sources w p))" "length (frame_data fr') = length (frame_data frame)"
    "\<exists>src' ag'. w' = w\<lparr>sources := (sources w)(p \<mapsto> src'), sourceAgents := (sourceAgents w)(a \<mapsto> ag')\<rparr>
       \<and> src_channel src' = src_channel (the (sources w p))"
    unfolding quote_4000 using le by blast
  obtain src' ag' where w':
    "w' = w\<lparr>sources := (sources w)(p \<mapsto> src'), sourceAgents := (sourceAgents w)(a \<mapsto> ag')\<rparr>"
    using d(8) by auto
  have "mRegistry w' = mRegistry w" "tfq w' = tfq w" by (simp_all add: w')
  with d assms(3,5) tx_ok_update [OF assms(1) a d(3) w'] show thesis
    by (intro that [of fr' w']) simp_all
qed

text \<open>
  A source of a lower priority is not served while a safety-critical source has data, and the lists
  keep their shape.
\<close>

lemma tx_ok_tfq [simp]: "tx_ok (w\<lparr>tfq := q\<rparr>) = tx_ok w"
  by (simp add: tx_ok_def all_sources_def source_channel_ok_def cong: option.case_cong)

lemma send_and_enqueue_total:
  "frame_wf frame \<Longrightarrow> \<exists>q n'. send_and_enqueue e sp clock frame w n = Some (w\<lparr>tfq := q\<rparr>, n')
     \<and> length (mQueue q) \<le> length (mQueue (tfq w)) + 1"
  by (cases "sp (wire_bytes frame) n"; cases "clock (snd (sp (wire_bytes frame) n))")
    (auto simp: send_and_enqueue_def sendFrame_def frameToArray_wire frame_wf_def tfq_enqueue_def Let_def
      intro: exI [of _ "tfq w"])

lemma serve_sources_ok:
  assumes "tx_ok w" "set ps \<subseteq> set (mRegistry w prio)" "length (frame_data frame) = MAX_SIZE"
  shows "\<exists>frame' counter' w' n'. serve_sources e sp clock prio ps (frame, counter, w, n)
      = Some (frame', counter', w', n')
    \<and> tx_ok w' \<and> mRegistry w' = mRegistry w \<and> length (frame_data frame') = MAX_SIZE"
  using assms
proof (induction ps arbitrary: frame counter w n)
  case (Cons p ps)
  then have reg: "p \<in> set (mRegistry w prio)" "set ps \<subseteq> set (mRegistry w prio)" by auto
  then obtain s where s: "sources w p = Some s"
    using Cons.prems(1) by (meson tx_ok_registered source_channel_ok_some)
  show ?case
  proof (cases "CSource_hasData s")
    case False
    with s Cons.IH [OF Cons.prems(1) reg(2) Cons.prems(3)] show ?thesis by simp
  next
    case True
    obtain pre where pre: "(if prio \<noteq> eSafetyCritical then hasCertainPriorityData eSafetyCritical w else Some False) = Some pre"
      using hasCertainPriorityData_total [OF Cons.prems(1)] by (cases "prio = eSafetyCritical") auto
    obtain fr' w1 where d: "CSource_OnDispatch p frame (getQuoteBySourceType prio) w = Some (NO_ERROR, fr', w1)"
      "tx_ok w1" "frame_wf fr'" "length (frame_data fr') = MAX_SIZE" "mRegistry w1 = mRegistry w"
      using OnDispatch_tx_ok [OF Cons.prems(1) reg(1) s True Cons.prems(3), of prio] by metis
    obtain q n1 where q: "send_and_enqueue e sp clock fr' w1 n = Some (w1\<lparr>tfq := q\<rparr>, n1)"
      using send_and_enqueue_total [OF d(3), of e sp clock w1 n] by auto
    let ?w = "w1\<lparr>tfq := q\<rparr>"
    have w: "tx_ok ?w" "mRegistry ?w = mRegistry w" "set ps \<subseteq> set (mRegistry ?w prio)"
      using d(2,5) reg(2) by simp_all
    obtain y where y: "hasCertainPriorityData eRealTime ?w = Some y"
      using hasCertainPriorityData_total [OF w(1)] by blast
    note IH = Cons.IH [OF w(1,3) d(4)]
    show ?thesis
    proof (cases pre)
      case True
      with s \<open>CSource_hasData s\<close> pre Cons.prems show ?thesis by simp
    next
      case False
      with s \<open>CSource_hasData s\<close> pre d(1) q
      have step: "serve_sources e sp clock prio (p # ps) (frame, counter, w, n) =
        (case prio of
           eRealTime \<Rightarrow> if counter < realTimeMessagesLimit - 1
             then serve_sources e sp clock prio ps (fr', counter + 1, ?w, n1) else Some (fr', 0, ?w, n1)
         | ePlainData \<Rightarrow> if y then Some (fr', counter, ?w, n1)
             else serve_sources e sp clock prio ps (fr', counter, ?w, n1)
         | eSafetyCritical \<Rightarrow> serve_sources e sp clock prio ps (fr', counter, ?w, n1))"
        by (cases prio) (simp_all add: isNoError_def y)
      show ?thesis
        unfolding step using IH w d(4) by (cases prio) (auto simp del: serve_sources.simps)
    qed
  qed
qed simp

text \<open>Pre-emption: with a live registry, a lower priority serves nothing while safety-critical data waits.\<close>

lemma serve_sources_preempted:
  assumes "tx_ok w" "set ps \<subseteq> set (mRegistry w prio)" "prio \<noteq> eSafetyCritical"
    and "hasCertainPriorityData eSafetyCritical w = Some True"
  shows "serve_sources e sp clock prio ps (frame, counter, w, n) = Some (frame, counter, w, n)"
  using assms(2)
proof (induction ps)
  case (Cons p ps)
  then have "p \<in> set (mRegistry w prio)" by simp
  with assms(1) obtain a where "source_channel_ok a p w" by (rule tx_ok_registered)
  then obtain s where "sources w p = Some s" by (auto dest: source_channel_ok_some)
  with Cons assms(3,4) show ?case by simp
qed simp

text \<open>At most two real-time frames are handed to the carrier per round.\<close>

lemma send_and_enqueue_length:
  "send_and_enqueue e sp clock frame w n = Some (w', n') \<Longrightarrow> length (mQueue (tfq w')) \<le> length (mQueue (tfq w)) + 1"
  by (auto simp: send_and_enqueue_def tfq_enqueue_def Let_def split: option.splits prod.splits if_splits)

lemma return_all_tfq:
  "return_all (CSourceAgent_returnBufferBack a) bs v = Some v' \<Longrightarrow> tfq v' = tfq v"
  by (induction bs arbitrary: v) (auto simp: bind_eq_Some_conv CSourceAgent_returnBufferBack_def)

lemma OnDispatch_tfq: "CSource_OnDispatch p frame q w = Some (r, frame', w') \<Longrightarrow> tfq w' = tfq w"
  by (auto simp: CSource_OnDispatch_def bind_eq_Some_conv dest: return_all_tfq split: if_splits)

lemma serve_real_time_bound:
  assumes "serve_sources e sp clock eRealTime ps (frame, counter, w, n) = Some (frame', counter', w', n')"
    and "counter \<le> 1"
  shows "counter' \<le> 1 \<and> length (mQueue (tfq w')) + unat counter \<le> length (mQueue (tfq w)) + 2"
  using assms
proof (induction ps arbitrary: frame counter w n)
  case Nil
  then have "unat counter \<le> 1" by (simp add: word_le_nat_alt)
  with Nil show ?case by simp
next
  case (Cons p ps)
  have c: "unat counter \<le> 1" using Cons.prems(2) by (simp add: word_le_nat_alt)
  obtain s where s: "sources w p = Some s"
    using Cons.prems(1) by (auto simp: bind_eq_Some_conv)
  show ?case
  proof (cases "CSource_hasData s")
    case False
    with s Cons show ?thesis by simp
  next
    case True
    with s Cons.prems(1) obtain pre where pre: "hasCertainPriorityData eSafetyCritical w = Some pre"
      by (auto simp: bind_eq_Some_conv)
    show ?thesis
    proof (cases pre)
      case True
      with s \<open>CSource_hasData s\<close> pre Cons.prems c show ?thesis by simp
    next
      case False
      with s \<open>CSource_hasData s\<close> pre Cons.prems(1) obtain err fr1 w1 where
        d: "CSource_OnDispatch p frame (getQuoteBySourceType eRealTime) w = Some (err, fr1, w1)"
        by (auto simp: bind_eq_Some_conv)
      note t1 = OnDispatch_tfq [OF d]
      show ?thesis
      proof (cases "isNoError err")
        case False
        with s \<open>CSource_hasData s\<close> pre \<open>\<not> pre\<close> Cons.prems d have
          "serve_sources e sp clock eRealTime ps (fr1, counter, w1, n) = Some (frame', counter', w', n')" by simp
        from Cons.IH [OF this Cons.prems(2)] t1 show ?thesis by simp
      next
        case True
        with s \<open>CSource_hasData s\<close> pre \<open>\<not> pre\<close> Cons.prems(1) d obtain w2 n2 where
          q: "send_and_enqueue e sp clock fr1 w1 n = Some (w2, n2)"
          by (auto simp: bind_eq_Some_conv)
        note t2 = send_and_enqueue_length [OF q]
        show ?thesis
        proof (cases "counter < realTimeMessagesLimit - 1")
          case True
          then have "counter = 0" by (simp add: realTimeMessagesLimit_def word_less_nat_alt unat_eq_0)
          with s \<open>CSource_hasData s\<close> pre \<open>\<not> pre\<close> \<open>isNoError err\<close> Cons.prems(1) d q have
            "serve_sources e sp clock eRealTime ps (fr1, 1, w2, n2) = Some (frame', counter', w', n')"
            by (simp add: realTimeMessagesLimit_def)
          from Cons.IH [OF this] t1 t2 \<open>counter = 0\<close> show ?thesis by simp
        next
          case False
          with s \<open>CSource_hasData s\<close> pre \<open>\<not> pre\<close> \<open>isNoError err\<close> Cons.prems(1) d q t1 t2 c show ?thesis by auto
        qed
      qed
    qed
  qed
qed

section \<open>Opening and closing keep the registry\<close>

definition fresh_agent :: "addr \<Rightarrow> u32 \<Rightarrow> 'l l0_state_scheme \<Rightarrow> bool" where
  "fresh_agent a channel w \<longleftrightarrow> sourceAgents w a = Some (CSourceAgent_new channel)"

definition registered :: "u32 \<Rightarrow> TChannelPriority \<Rightarrow> 'l l0_state_scheme \<Rightarrow> bool" where
  "registered channel prio w \<longleftrightarrow>
     list_ex (\<lambda>p. case sources w p of None \<Rightarrow> False | Some s \<Rightarrow> src_channel s = channel) (mRegistry w prio)"

lemma find_source_registered:
  assumes "tx_ok w"
  shows "find_source channel (mRegistry w prio) w = Some None \<longleftrightarrow> \<not> registered channel prio w"
proof -
  have "\<forall>p \<in> set (mRegistry w prio). \<exists>s. sources w p = Some s"
    using assms by (meson tx_ok_registered source_channel_ok_some)
  then have "find_source channel ps w = Some None \<longleftrightarrow>
      \<not> list_ex (\<lambda>p. case sources w p of None \<Rightarrow> False | Some s \<Rightarrow> src_channel s = channel) ps"
    if "set ps \<subseteq> set (mRegistry w prio)" for ps
    using that
  proof (induction ps)
    case (Cons a ps)
    then obtain s where "sources w a = Some s"
      using \<open>\<forall>p \<in> set (mRegistry w prio). \<exists>s. sources w p = Some s\<close> by auto
    with Cons show ?case by simp
  qed simp
  then show ?thesis by (simp add: registered_def)
qed

lemma tx_open_busy:
  assumes "tx_ok w" "registered channel prio w"
  shows "tx_openChannel channel prio bp w = Some (ERROR_CHANNEL_BUSY, w)"
proof -
  obtain r where "find_source channel (mRegistry w prio) w = Some r"
    using find_source_total [of "mRegistry w prio" w channel] assms(1) by (meson tx_ok_registered)
  moreover have "find_source channel (mRegistry w prio) w \<noteq> Some None"
    using assms by (simp add: find_source_registered)
  ultimately show ?thesis by (auto simp: tx_openChannel_def)
qed

lemma tx_open_new:
  assumes "tx_ok w" "\<not> registered channel prio w" "fresh_agent bp channel w"
  obtains w' where "tx_openChannel channel prio bp w = Some (NO_ERROR, w')" "tx_ok w'"
    "source_channel_ok bp (free_addr w) w'" "source_stream (free_addr w) w' = ([], 1)" "registered channel prio w'"
    "mRegistry w' = (mRegistry w)(prio := mRegistry w prio @ [free_addr w])"
    "l0_state.more w' = l0_state.more w" "qos w' = qos w" "targets w' = targets w" "targetAgents w' = targetAgents w"
    "free_addr w' = free_addr w + 1" "mTargetMap w' = mTargetMap w"
    "\<And>r. r \<noteq> free_addr w \<Longrightarrow> sources w' r = sources w r"
    "\<And>b. b \<noteq> bp \<Longrightarrow> sourceAgents w' b = sourceAgents w b"
proof -
  let ?p = "free_addr w"
  have f: "find_source channel (mRegistry w prio) w = Some None"
    using assms(1,2) by (simp add: find_source_registered)
  have fresh: "sources w ?p = None" "bp \<noteq> ?p" "bp < ?p" "\<And>a. ?p \<le> a \<Longrightarrow> sources w a = None \<and> sourceAgents w a = None"
    using assms(1,3) by (auto simp: tx_ok_def fresh_agent_def not_le [symmetric])
  define w' where "w' = w\<lparr>sources := (sources w)(?p \<mapsto> (CSource_new channel)\<lparr>src_producer := Some bp\<rparr>),
    sourceAgents := (sourceAgents w)(bp \<mapsto> (CSourceAgent_new channel)\<lparr>sa_consumer := Some ?p\<rparr>),
    free_addr := ?p + 1, mRegistry := (mRegistry w)(prio := mRegistry w prio @ [?p])\<rparr>"
  have ok: "source_channel_ok bp ?p w'"
    by (simp add: source_channel_ok_def w'_def CSource_new_def CSourceAgent_new_def)
  have reg: "\<exists>a. source_channel_ok a r w" if "r \<in> set (all_sources w)" for r
    using assms(1) that by (simp add: tx_ok_def)
  have other: "\<exists>a. source_channel_ok a r w'" if "r \<in> set (all_sources w)" for r
  proof -
    from reg [OF that] obtain a where a: "source_channel_ok a r w" ..
    have "r \<noteq> ?p" using a fresh(1) by (auto elim!: source_channel_okE)
    moreover have "a \<noteq> bp"
      using a assms(3) by (auto simp: fresh_agent_def CSourceAgent_new_def elim!: source_channel_okE)
    ultimately have "source_channel_ok a r w'"
      using a by (simp add: source_channel_ok_def w'_def)
    then show ?thesis ..
  qed
  have notin: "?p \<notin> set (all_sources w)"
    using reg [of ?p] fresh(1) by (auto elim!: source_channel_okE)
  have "set (all_sources w') = insert ?p (set (all_sources w))"
    by (auto simp: set_all_sources w'_def split: if_splits)
  moreover have "distinct (all_sources w')"
    using assms(1) notin by (cases prio) (auto simp: tx_ok_def all_sources_def priorities_def w'_def)
  ultimately have "tx_ok w'"
    using other ok fresh(3,4) by (auto simp: tx_ok_def w'_def)
  show thesis
  proof (rule that)
    show "tx_openChannel channel prio bp w = Some (NO_ERROR, w')"
      using assms(3) f fresh(2)
      by (simp add: tx_openChannel_def Let_def CSource_registerProducer_def CSourceAgent_registerConsumer_def
          fresh_agent_def w'_def CSource_new_def CSourceAgent_new_def)
    show "registered channel prio w'" by (simp add: registered_def w'_def CSource_new_def)
    show "source_stream ?p w' = ([], 1)" by (simp add: source_stream_def w'_def CSource_new_def)
  qed (use ok \<open>tx_ok w'\<close> in \<open>simp_all add: w'_def\<close>)
qed

lemma all_sources_remove:
  assumes "distinct (all_sources w)" "p \<in> set (mRegistry w prio)"
    and "all_sources w' = concat (map ((mRegistry w)(prio := remove1 p (mRegistry w prio))) priorities)"
  shows "distinct (all_sources w') \<and> set (all_sources w') = set (all_sources w) - {p}"
  using assms by (cases prio) (auto simp: all_sources_def priorities_def)

lemma tx_ok_delete:
  assumes "tx_ok w" "p \<in> set (mRegistry w prio)"
  obtains w' where "CSource_delete p w = Some w'"
    "tx_ok (w'\<lparr>mRegistry := (mRegistry w')(prio := remove1 p (mRegistry w' prio))\<rparr>)" "tfq w' = tfq w"
    "mRegistry w' = mRegistry w" "qos w' = qos w" "targets w' = targets w" "targetAgents w' = targetAgents w"
    "mTargetMap w' = mTargetMap w" "l0_state.more w' = l0_state.more w" "free_addr w' = free_addr w"
    "\<And>r. r \<noteq> p \<Longrightarrow> sources w' r = sources w r"
    "set (all_sources (w'\<lparr>mRegistry := (mRegistry w')(prio := remove1 p (mRegistry w' prio))\<rparr>)) = set (all_sources w) - {p}"
proof -
  obtain a where a: "source_channel_ok a p w" using assms by (rule tx_ok_registered)
  define w1 where "w1 = w\<lparr>sourceAgents := (sourceAgents w)(a := None), sources := (sources w)(p := None)\<rparr>"
  define w' where "w' = w1\<lparr>mRegistry := (mRegistry w1)(prio := remove1 p (mRegistry w1 prio))\<rparr>"
  have d: "CSource_delete p w = Some w1" using CSource_delete_ok [OF a] by (simp add: w1_def)
  have reg: "\<exists>a. source_channel_ok a r w" if "r \<in> set (all_sources w)" for r
    using assms(1) that by (simp add: tx_ok_def)
  have "all_sources w' = concat (map ((mRegistry w)(prio := remove1 p (mRegistry w prio))) priorities)"
    by (simp add: all_sources_def w'_def w1_def)
  then have s: "distinct (all_sources w')" "set (all_sources w') = set (all_sources w) - {p}"
    using all_sources_remove [of w p prio w'] assms by (auto simp: tx_ok_def)
  have "\<exists>b. source_channel_ok b r w'" if r: "r \<in> set (all_sources w')" for r
  proof -
    have ne: "r \<noteq> p" "r \<in> set (all_sources w)" using r s(2) by auto
    from reg [OF ne(2)] obtain b where b: "source_channel_ok b r w" ..
    have "b \<noteq> a" using a b ne(1) by (auto elim!: source_channel_okE)
    then have "source_channel_ok b r w'"
      using b ne(1) by (simp add: source_channel_ok_def w'_def w1_def)
    then show ?thesis ..
  qed
  then have "tx_ok w'"
    using s(1) assms(1) by (simp add: tx_ok_def w'_def w1_def)
  with d s(2) show thesis
    by (intro that [of w1]) (simp_all add: w'_def w1_def)
qed

lemma registered_tfq [simp]: "registered channel prio (w\<lparr>tfq := q\<rparr>) = registered channel prio w"
  by (simp add: registered_def)

definition has_channel :: "u32 \<Rightarrow> 'l l0_state_scheme \<Rightarrow> addr \<Rightarrow> bool" where
  "has_channel channel w p \<longleftrightarrow> (case sources w p of None \<Rightarrow> False | Some s \<Rightarrow> src_channel s = channel)"

lemma tx_close_in_ok:
  assumes "tx_ok w"
  shows "\<exists>r w'. tx_close_in channel prios w = Some (r, w') \<and> tx_ok w' \<and> tfq w' = tfq w
    \<and> qos w' = qos w \<and> targets w' = targets w \<and> targetAgents w' = targetAgents w \<and> mTargetMap w' = mTargetMap w
    \<and> l0_state.more w' = l0_state.more w \<and> free_addr w' = free_addr w
    \<and> r = (if list_ex (\<lambda>prio. registered channel prio w) prios then NO_ERROR else ERROR_NOT_FOUND)
    \<and> (\<forall>p \<in> set (all_sources w'). p \<in> set (all_sources w) \<and> sources w' p = sources w p)
    \<and> (r = NO_ERROR \<longrightarrow> (\<exists>p \<in> set (all_sources w) - set (all_sources w'). has_channel channel w p))"
proof (induction prios)
  case (Cons prio prios)
  obtain r where r: "find_source channel (mRegistry w prio) w = Some r"
    using find_source_total [of "mRegistry w prio" w channel] assms by (meson tx_ok_registered)
  show ?case
  proof (cases r)
    case None
    with r assms have "\<not> registered channel prio w" by (simp add: find_source_registered)
    with Cons None r show ?thesis by simp
  next
    case (Some p)
    then have "p \<in> set (mRegistry w prio)" using find_source_Some r by blast
    from tx_ok_delete [OF assms this]
    obtain w' where d: "CSource_delete p w = Some w'"
      "tx_ok (w'\<lparr>mRegistry := (mRegistry w')(prio := remove1 p (mRegistry w' prio))\<rparr>)" "tfq w' = tfq w"
      "qos w' = qos w" "targets w' = targets w" "targetAgents w' = targetAgents w"
      "mTargetMap w' = mTargetMap w" "l0_state.more w' = l0_state.more w" "free_addr w' = free_addr w"
      "\<And>r. r \<noteq> p \<Longrightarrow> sources w' r = sources w r"
      "set (all_sources (w'\<lparr>mRegistry := (mRegistry w')(prio := remove1 p (mRegistry w' prio))\<rparr>)) = set (all_sources w) - {p}"
      by metis
    have "registered channel prio w"
      using r Some assms find_source_registered [of w channel prio] by auto
    moreover have "has_channel channel w p"
      using find_source_Some [of channel "mRegistry w prio" w p] r Some by (auto simp: has_channel_def)
    moreover have "p \<in> set (all_sources w)"
      using \<open>p \<in> set (mRegistry w prio)\<close> by (auto simp: set_all_sources)
    ultimately show ?thesis using r Some d by auto
  qed
qed (use assms in simp)

lemma registered_has_channel: "registered channel prio w \<longleftrightarrow> (\<exists>p \<in> set (mRegistry w prio). has_channel channel w p)"
  by (auto simp: registered_def has_channel_def list_ex_iff split: option.splits)

lemma all_priorities: "list_ex P priorities \<longleftrightarrow> (\<exists>prio. P prio)"
  unfolding priorities_def
proof
  assume "\<exists>prio. P prio"
  then obtain prio where "P prio" ..
  then show "list_ex P [eSafetyCritical, eRealTime, ePlainData]" by (cases prio) simp_all
qed auto

lemma tx_close_ok:
  assumes "tx_ok w"
  shows "\<exists>r w'. tx_closeChannel channel w = Some (r, w') \<and> tx_ok w'
    \<and> tfq w' = tfq_deleteFramesForChannel channel (tfq w)
    \<and> qos w' = qos w \<and> targets w' = targets w \<and> targetAgents w' = targetAgents w \<and> mTargetMap w' = mTargetMap w
    \<and> l0_state.more w' = l0_state.more w \<and> free_addr w' = free_addr w
    \<and> r = (if \<exists>prio. registered channel prio w then NO_ERROR else ERROR_NOT_FOUND)
    \<and> (\<forall>p \<in> set (all_sources w'). p \<in> set (all_sources w) \<and> sources w' p = sources w p)
    \<and> (r = NO_ERROR \<longrightarrow> (\<exists>p \<in> set (all_sources w) - set (all_sources w'). has_channel channel w p))"
  using tx_close_in_ok [of "w\<lparr>tfq := tfq_deleteFramesForChannel channel (tfq w)\<rparr>" channel priorities] assms
  by (simp add: tx_closeChannel_def all_priorities all_sources_def has_channel_def cong: option.case_cong)

text \<open>Closing a channel leaves the sources and agents of the others alone.\<close>

lemma tx_close_in_keeps:
  "tx_close_in channel prios w = Some (r, w') \<Longrightarrow> tx_ok w \<Longrightarrow> source_channel_ok b q w \<Longrightarrow> \<not> has_channel channel w q \<Longrightarrow>
   source_channel_ok b q w' \<and> source_pool b w' = source_pool b w"
proof (induction prios)
  case (Cons prio prios)
  obtain f where f: "find_source channel (mRegistry w prio) w = Some f"
    using Cons.prems(1) by (auto split: option.splits)
  show ?case
  proof (cases f)
    case None
    with Cons f show ?thesis by simp
  next
    case (Some p)
    then have p: "p \<in> set (mRegistry w prio)" "has_channel channel w p"
      using find_source_Some [of channel "mRegistry w prio" w p] f by (auto simp: has_channel_def)
    obtain a where a: "source_channel_ok a p w" using Cons.prems(2) p(1) by (rule tx_ok_registered)
    have "q \<noteq> p" using p(2) Cons.prems(4) by auto
    moreover from this have "b \<noteq> a" using a Cons.prems(3) by (auto elim!: source_channel_okE)
    ultimately show ?thesis
      using Cons.prems f Some CSource_delete_ok [OF a] by (auto simp: source_channel_ok_def source_pool_def cong: option.case_cong)
  qed
qed simp

lemma tx_close_keeps:
  assumes "tx_closeChannel channel w = Some (r, w')" "tx_ok w" "source_channel_ok b q w" "\<not> has_channel channel w q"
  shows "source_channel_ok b q w' \<and> source_pool b w' = source_pool b w"
  using tx_close_in_keeps [of channel priorities "w\<lparr>tfq := tfq_deleteFramesForChannel channel (tfq w)\<rparr>" r w' b q] assms
  by (simp add: tx_closeChannel_def source_channel_ok_def has_channel_def source_pool_def cong: option.case_cong)

section \<open>Properties\<close>

text \<open>
  C9: the retransmission loop ends. If the queue holds its frames in any order,
  none stamped later than the clock shows, and the clock does not advance by more than the
  retransmission time of five seconds during the loop, then one iteration per queued frame and a last
  check are enough: a frame that has been sent again is not due again.
\<close>

theorem retransmission_ends:
  assumes "list_all (stamped lo) (mQueue q)" "list_all (\<lambda>t. unat (getSize (ts_frame t)) \<le> MAX_SIZE) (mQueue q)"
    and "steady sp clock lo hi (3 * length (mQueue q) + 1) n" "hi - lo \<le> RETRANSMIT_TIME_NSEC"
    and "length (mQueue q) < fuel"
  shows "\<exists>q' n'. retransmit fuel e sp clock q n = Some (q', n')"
  by (rule retransmit_ends [of q "mQueue q" "[]" lo lo sp clock hi n]) (use assms in simp_all)

text \<open>
  In a round over a well-formed registry, a priority below safety-critical serves
  none of its channels while a safety-critical source has data, whatever its channels hold.
\<close>

theorem service_by_priority:
  assumes "tx_ok w" "prio \<noteq> eSafetyCritical" "hasCertainPriorityData eSafetyCritical w = Some True"
  shows "serve_sources e sp clock prio (mRegistry w prio) (frame, counter, w, n) = Some (frame, counter, w, n)"
  by (rule serve_sources_preempted) (use assms in simp_all)

text \<open>
  Serving the real-time channels puts at most two new frames into the queue of
  transmitted frames, counting what the thread's counter carries over from the last round, and the
  counter stays below the limit.
\<close>

theorem real_time_limit:
  assumes "serve_sources e sp clock eRealTime (mRegistry w eRealTime) (frame, counter, w, n)
      = Some (frame', counter', w', n')" "counter \<le> 1"
  shows "counter' \<le> 1 \<and> length (mQueue (tfq w')) + unat counter \<le> length (mQueue (tfq w)) + 2"
  by (rule serve_real_time_bound [OF assms])

text \<open>
  A frame whose transmission fails is lost. The source has given up its bytes
  and its number, and the queue of transmitted frames does not hold it, so nothing will send it again.
\<close>

theorem failed_send_loses_frame:
  assumes "source_channel_ok a p w" "source_stream p w = (m # ms, k)" "mRegistry w eSafetyCritical = [p]"
    and "length (frame_data frame) = MAX_SIZE" "length m \<le> 4000" "\<And>bs n. \<not> isNoError (fst (sp bs n))"
  shows "\<exists>frame' w' n'. serve_sources e sp clock eSafetyCritical (mRegistry w eSafetyCritical)
        (frame, counter, w, n) = Some (frame', counter, w', n')
    \<and> payload frame' = m \<and> frame_number frame' = k \<and> source_stream p w' = (ms, k + 1) \<and> tfq w' = tfq w"
proof -
  obtain s where s: "sources w p = Some s" using assms(1) by (auto dest: source_channel_ok_some)
  have q: "unat (getQuoteBySourceType eSafetyCritical) \<le> length (frame_data frame)"
    "unat (getQuoteBySourceType eSafetyCritical) \<le> MAX_SIZE"
    using assms(4) by (simp_all add: quote_4000 MAX_SIZE_def)
  obtain fr' w' where d: "CSource_OnDispatch p frame (getQuoteBySourceType eSafetyCritical) w = Some (NO_ERROR, fr', w')"
    "((payload fr', frame_number fr'), source_stream p w') = stream_dispatch 4000 (m # ms, k)" "frame_wf fr'"
    using OnDispatch_refines [OF assms(1) _ q] assms(2) by (metis fst_conv list.distinct(1) quote_4000)
  obtain err n' where n: "sp (wire_bytes fr') n = (err, n')" by fastforce
  have "\<not> isNoError err" using assms(6) [of "wire_bytes fr'" n] n by simp
  moreover have "frameToArray e fr' = Some (wire_bytes fr')"
    using d(3) by (simp add: frameToArray_wire frame_wf_def)
  moreover have "CSource_hasData s" using s assms(2) by (simp add: hasData_stream)
  ultimately show ?thesis
    using s d n assms(3,5) OnDispatch_tfq [OF d(1)]
    by (simp add: send_and_enqueue_def sendFrame_def isNoError_def stream_dispatch_def)
qed

section \<open>Witnesses\<close>

definition sample_queue :: CTransmittedFramesQueue where
  "sample_queue = tfq_enqueue \<lparr>tv_sec = 1, tv_nsec = 0\<rparr> (blank_frame\<lparr>channel_id := 7, frame_number := 5\<rparr>)
     \<lparr>mQueue = [], mTransmitStartTimes = Map.empty\<rparr>"

lemma steady_tick:
  "steady working_link tick 10000000000 10000000100 (Suc (Suc (Suc (Suc 0)))) 0"
  by (simp add: tick_def working_link_def nsec_def)

lemma sample_queue_frames: "mQueue sample_queue =
    [\<lparr>ts_frame = blank_frame\<lparr>channel_id := 7, frame_number := 5\<rparr>, mStartTime = \<lparr>tv_sec = 1, tv_nsec = 0\<rparr>\<rparr>]"
  by (simp add: sample_queue_def tfq_enqueue_def Let_def)

theorem retransmission_ends_witness:
  "\<exists>q' n'. retransmit 2 LittleEndian working_link tick sample_queue 0 = Some (q', n')"
proof (rule retransmission_ends [where lo = 10000000000 and hi = 10000000100])
  have "3 * length (mQueue sample_queue) + 1 = Suc (Suc (Suc (Suc 0)))" by (simp add: sample_queue_frames)
  then show "steady working_link tick 10000000000 10000000100 (3 * length (mQueue sample_queue) + 1) 0"
    using steady_tick by (simp only:)
qed (simp_all add: sample_queue_frames stamped_def nsec_def blank_frame_def getSize_def RETRANSMIT_TIME_NSEC_def)

text \<open>A process with a safety-critical channel and two real-time channels, all with data.\<close>

definition sample_busy :: l0_state where
  "sample_busy = sample_sender\<lparr>
     sourceAgents := (sourceAgents sample_sender)(
       2 \<mapsto> \<lparr>sa_channel = 8, sa_queue = replicate 199 Buffer_new, sa_consumer = Some 3\<rparr>,
       4 \<mapsto> \<lparr>sa_channel = 9, sa_queue = replicate 199 Buffer_new, sa_consumer = Some 5\<rparr>),
     sources := (sources sample_sender)(
       3 \<mapsto> \<lparr>src_channel = 8, src_frameCounter = 1, src_queue = [sample_buffer [5]], src_producer = Some 2\<rparr>,
       5 \<mapsto> \<lparr>src_channel = 9, src_frameCounter = 1, src_queue = [sample_buffer [6]], src_producer = Some 4\<rparr>),
     mRegistry := (\<lambda>_. [])(eSafetyCritical := [1], eRealTime := [3, 5]), free_addr := 6\<rparr>"

lemma sample_busy_ok: "tx_ok sample_busy"
proof -
  have "source_channel_ok 0 1 sample_busy" "source_channel_ok 2 3 sample_busy" "source_channel_ok 4 5 sample_busy"
    by (simp_all add: source_channel_ok_def sample_busy_def sample_sender_def sample_buffer_def buffer_wf_def
        QUEUE_SIZE_def MAX_SIZE_def)
  then show ?thesis
    by (auto simp: tx_ok_def all_sources_def priorities_def sample_busy_def sample_sender_def l0_init_def)
qed

theorem service_by_priority_witness:
  "serve_sources LittleEndian working_link tick eRealTime [3, 5] (blank_frame, 0, sample_busy, 0)
     = Some (blank_frame, 0, sample_busy, 0)"
  using service_by_priority [OF sample_busy_ok, of eRealTime LittleEndian working_link tick blank_frame 0 0]
  by (simp add: hasCertainPriorityData_def sample_busy_def sample_sender_def CSource_hasData_def)


text \<open>The same process without the safety-critical channel.\<close>

definition sample_realtime :: l0_state where
  "sample_realtime = sample_busy\<lparr>mRegistry := (\<lambda>_. [])(eRealTime := [3, 5])\<rparr>"

lemma sample_realtime_simps: "tx_ok sample_realtime" "mRegistry sample_realtime eRealTime = [3, 5]"
  "mQueue (tfq sample_realtime) = []" "length (frame_data blank_frame) = MAX_SIZE"
  using sample_busy_ok
  by (auto simp: sample_realtime_def tx_ok_def all_sources_def priorities_def sample_busy_def source_channel_ok_def
      sample_sender_def l0_init_def blank_frame_def)

theorem real_time_limit_witness:
  "\<exists>frame' counter' w' n'. serve_sources LittleEndian working_link tick eRealTime [3, 5] (blank_frame, 1, sample_realtime, 0)
      = Some (frame', counter', w', n') \<and> counter' \<le> 1 \<and> length (mQueue (tfq w')) \<le> 1"
proof -
  obtain frame' counter' w' n' where
    r: "serve_sources LittleEndian working_link tick eRealTime (mRegistry sample_realtime eRealTime)
      (blank_frame, 1, sample_realtime, 0) = Some (frame', counter', w', n')"
    using serve_sources_ok [OF sample_realtime_simps(1) order_refl sample_realtime_simps(4), of LittleEndian working_link tick eRealTime 1 0]
    by (elim exE conjE) (rule that)
  from real_time_limit [OF r] have "counter' \<le> 1 \<and> length (mQueue (tfq w')) \<le> 1"
    by (simp add: sample_realtime_simps)
  then show ?thesis using r unfolding sample_realtime_simps(2) by blast
qed

theorem failed_send_loses_frame_witness:
  "\<exists>frame' w' n'. serve_sources LittleEndian broken_link tick eSafetyCritical [1] (blank_frame, 0, sample_sender, 0)
      = Some (frame', 0, w', n')
    \<and> payload frame' = [1, 2, 3] \<and> frame_number frame' = 5 \<and> source_stream 1 w' = ([[4]], 6) \<and> mQueue (tfq w') = []"
proof -
  have reg: "mRegistry sample_sender eSafetyCritical = [1]" "mQueue (tfq sample_sender) = []" "5 + 1 = (6 :: u32)"
    by (simp_all add: sample_sender_def l0_init_def)
  have "\<exists>frame' w' n'. serve_sources LittleEndian broken_link tick eSafetyCritical (mRegistry sample_sender eSafetyCritical)
      (blank_frame, 0, sample_sender, 0) = Some (frame', 0, w', n')
    \<and> payload frame' = [1, 2, 3] \<and> frame_number frame' = 5 \<and> source_stream 1 w' = ([[4]], 5 + 1)
    \<and> tfq w' = tfq sample_sender"
    by (rule failed_send_loses_frame [OF sample_sender_ok])
      (simp_all add: reg broken_link_def isNoError_def blank_frame_def)
  then show ?thesis unfolding reg(1,3) by (elim exE conjE, intro exI conjI) (assumption | simp only: reg(2))+
qed

end
