(* ===== verification/IncomeDispatcher.thy ===== *)
theory IncomeDispatcher
  imports TargetPath Carrier
begin

text \<open>
  \<^verbatim>\<open>L0/private/CIncomeDispatcher.cpp\<close>: the receiving side of the open channels, and the
  \<^verbatim>\<open>receiveFrame\<close> that the carrier adapter calls for every frame. It looks only at a frame's header and
  payload, which is what the loop of \<^verbatim>\<open>haveData\<close> needs (\<^verbatim>\<open>frame_sink\<close> of \<^verbatim>\<open>Carrier\<close>).
\<close>

section \<open>Opening and closing\<close>

definition rx_openChannel ::
  "u32 \<Rightarrow> addr \<Rightarrow> 'l l0_state_scheme \<Rightarrow> (ErrorCode \<times> 'l l0_state_scheme) option" where
  "rx_openChannel channel bufferConsumer w =
     (case map_of (mTargetMap w) channel of
        Some p \<Rightarrow>
          (case targets w p of
             None \<Rightarrow> None
           | Some t \<Rightarrow> Some (if channel = tgt_channel t then ERROR_CHANNEL_BUSY else ERROR_OTHER, w))
      | None \<Rightarrow>
         (let pTarget = free_addr w;
              w = w\<lparr>free_addr := pTarget + 1, targets := (targets w)(pTarget \<mapsto> CTarget_new channel)\<rparr>
          in do {
            w \<leftarrow> CTarget_registerConsumer pTarget bufferConsumer w;
            w \<leftarrow> CTargetAgent_registerProducer bufferConsumer pTarget w;
            Some (NO_ERROR, w\<lparr>mTargetMap := mTargetMap w @ [(channel, pTarget)]\<rparr>) }))"

definition rx_closeChannel :: "u32 \<Rightarrow> 'l l0_state_scheme \<Rightarrow> (ErrorCode \<times> 'l l0_state_scheme) option" where
  "rx_closeChannel channel w =
     (case map_of (mTargetMap w) channel of
        None \<Rightarrow> Some (ERROR_NOT_FOUND, w)
      | Some p \<Rightarrow>
         (case targets w p of
            None \<Rightarrow> None
          | Some t \<Rightarrow>
             if channel = tgt_channel t
             then do {
               w \<leftarrow> CTarget_delete p w;
               Some (NO_ERROR, w\<lparr>mTargetMap := filter (\<lambda>(k, _). k \<noteq> channel) (mTargetMap w)\<rparr>) }
             else Some (ERROR_NOT_FOUND, w)))"

fun delete_targets :: "(u32 \<times> addr) list \<Rightarrow> 'l l0_state_scheme \<Rightarrow> 'l l0_state_scheme option" where
  "delete_targets [] w = Some w"
| "delete_targets ((_, p) # ps) w = (case CTarget_delete p w of None \<Rightarrow> None | Some w' \<Rightarrow> delete_targets ps w')"

definition rx_destroy :: "'l l0_state_scheme \<Rightarrow> 'l l0_state_scheme option" where
  "rx_destroy w = do {
     w' \<leftarrow> delete_targets (mTargetMap w) (w\<lparr>rx_destroyed := True\<rparr>);
     Some (w'\<lparr>mTargetMap := []\<rparr>) }"

fun rx_replaceCarrier_all :: "(u32 \<times> addr) list \<Rightarrow> 'l l0_state_scheme \<Rightarrow> 'l l0_state_scheme option" where
  "rx_replaceCarrier_all [] w = Some w"
| "rx_replaceCarrier_all ((_, p) # ps) w =
     (case targets w p of
        None \<Rightarrow> None
      | Some t \<Rightarrow> rx_replaceCarrier_all ps (w\<lparr>targets := (targets w)(p \<mapsto> CTarget_setCarrierReplaced t)\<rparr>))"

definition rx_replaceCarrier :: "'l l0_state_scheme \<Rightarrow> 'l l0_state_scheme option" where
  "rx_replaceCarrier w = rx_replaceCarrier_all (mTargetMap w) w"

section \<open>Receiving a frame\<close>

definition rx_receiveFrame ::
  "'l l0_state_scheme data_receiver \<Rightarrow> ('c \<Rightarrow> timespec \<times> 'c) \<Rightarrow> Frame \<Rightarrow> 'l l0_state_scheme \<times> 'c \<Rightarrow>
   (ErrorCode \<times> 'l l0_state_scheme \<times> 'c) option" where
  "rx_receiveFrame receiveData clock frame = (\<lambda>(w, c).
     if isACK frame
     then (let (end_time, c') = clock c in
       (case tfq_dequeue end_time (channel_id frame) (frame_number frame) (tfq w, qos w) of
          None \<Rightarrow> None
        | Some (q, m) \<Rightarrow> Some (NO_ERROR, w\<lparr>tfq := q, qos := m\<rparr>, c')))
     else if rx_destroyed w then Some (ERROR_OTHER, w, c)
     else (case map_of (mTargetMap w) (channel_id frame) of
        None \<Rightarrow> Some (ERROR_NOT_FOUND, w, c)
      | Some p \<Rightarrow>
         (case CTarget_receiveFrame receiveData p frame w of
            None \<Rightarrow> None
          | Some (result, w') \<Rightarrow> Some (result, w', c))))"

section \<open>A receiver for the carrier\<close>

lemma payload_cong: "same_frame f g \<Longrightarrow> take (unat (getSize f)) (frame_data f) = take (unat (getSize g)) (frame_data g)"
  by (simp add: same_frame_def payload_def)

lemma getSize_cong: "same_frame f g \<Longrightarrow> getSize f = getSize g"
  by (simp add: same_frame_def getSize_def)

lemma length_cong:
  assumes "same_frame f g"
  shows "unat (getSize f) \<le> length (frame_data f) \<longleftrightarrow> unat (getSize g) \<le> length (frame_data g)"
proof -
  have "length (take (unat (getSize f)) (frame_data f)) = length (take (unat (getSize g)) (frame_data g))"
    using payload_cong [OF assms] by simp
  with getSize_cong [OF assms] show ?thesis by (auto simp: min_def split: if_splits)
qed

lemma copyFromFrame_cong:
  assumes "same_frame f g"
  shows "CTarget_copyFromFrame f = CTarget_copyFromFrame g"
  unfolding CTarget_copyFromFrame_def Let_def
  unfolding payload_cong [OF assms] length_cong [OF assms]
  unfolding getSize_cong [OF assms]
  by (rule refl)

lemma target_receiveFrame_cong:
  assumes "same_frame f g"
  shows "CTarget_receiveFrame rd p f = CTarget_receiveFrame rd p g"
proof -
  have h: "channel_id f = channel_id g" "frame_number f = frame_number g"
    using assms by (simp_all add: same_frame_def)
  show ?thesis
    unfolding CTarget_receiveFrame_def copyFromFrame_cong [OF assms] h by (rule refl)
qed

lemma rx_receiveFrame_cong:
  assumes "same_frame f g"
  shows "rx_receiveFrame rd clock f = rx_receiveFrame rd clock g"
proof -
  have h: "channel_id f = channel_id g" "frame_number f = frame_number g"
    using assms by (simp_all add: same_frame_def)
  show ?thesis
    unfolding rx_receiveFrame_def target_receiveFrame_cong [OF assms] isACK_same_frame [OF assms] h by (rule refl)
qed

text \<open>What the carrier adapter does with a frame of the income dispatcher.\<close>

definition agent_processFrame ::
  "endian \<Rightarrow> (u8 list \<Rightarrow> 'n \<Rightarrow> ErrorCode \<times> 'n) \<Rightarrow> 'l l0_state_scheme data_receiver \<Rightarrow> ('c \<Rightarrow> timespec \<times> 'c) \<Rightarrow>
   carrier \<Rightarrow> Frame \<Rightarrow> ('l l0_state_scheme \<times> 'c) \<times> 'n \<Rightarrow> (('l l0_state_scheme \<times> 'c) \<times> 'n) option" where
  "agent_processFrame e sp receiveData clock c = processFrame e sp (rx_receiveFrame receiveData clock) c"

interpretation income: frame_sink "agent_processFrame e sp receiveData clock c"
  for e :: endian and sp :: "u8 list \<Rightarrow> 'n \<Rightarrow> ErrorCode \<times> 'n" and receiveData :: "'l l0_state_scheme data_receiver"
    and clock :: "'c \<Rightarrow> timespec \<times> 'c" and c :: carrier
proof
  fix f g :: Frame and s :: "('l l0_state_scheme \<times> 'c) \<times> 'n"
  assume "same_frame f g"
  then show "agent_processFrame e sp receiveData clock c f s = agent_processFrame e sp receiveData clock c g s"
    unfolding agent_processFrame_def
    by (intro fun_cong [OF processFrame_cong] fun_cong [OF rx_receiveFrame_cong])
qed

section \<open>The registry of targets\<close>

definition rx_ok :: "'l l0_state_scheme \<Rightarrow> bool" where
  "rx_ok w \<longleftrightarrow> distinct (map fst (mTargetMap w)) \<and> distinct (map snd (mTargetMap w))
     \<and> (\<forall>(channel, t) \<in> set (mTargetMap w). \<exists>a. target_channel_ok t a w \<and> tgt_channel (the (targets w t)) = channel)
     \<and> (\<forall>p. free_addr w \<le> p \<longrightarrow> targets w p = None \<and> targetAgents w p = None)"

definition fresh_target_agent :: "addr \<Rightarrow> u32 \<Rightarrow> 'l l0_state_scheme \<Rightarrow> bool" where
  "fresh_target_agent a channel w \<longleftrightarrow> targetAgents w a = Some (CTargetAgent_new channel)"

lemma rx_ok_entry:
  assumes "rx_ok w" "(channel, t) \<in> set (mTargetMap w)"
  shows "\<exists>a. target_channel_ok t a w \<and> tgt_channel (the (targets w t)) = channel"
proof -
  have "\<forall>(channel, t) \<in> set (mTargetMap w). \<exists>a. target_channel_ok t a w \<and> tgt_channel (the (targets w t)) = channel"
    using assms(1) by (simp add: rx_ok_def)
  from bspec [OF this assms(2)] show ?thesis by simp
qed

lemma rx_ok_registered:
  assumes "rx_ok w" "map_of (mTargetMap w) channel = Some t"
  obtains a tg where "target_channel_ok t a w" "targets w t = Some tg" "tgt_channel tg = channel"
proof -
  have "(channel, t) \<in> set (mTargetMap w)" using assms(2) by (rule map_of_SomeD)
  from rx_ok_entry [OF assms(1) this] obtain a
    where a: "target_channel_ok t a w" "tgt_channel (the (targets w t)) = channel" by auto
  from a(1) obtain tg where "targets w t = Some tg" by (rule target_channel_okE)
  then show thesis using that [OF a(1)] a(2) by simp
qed

lemma rx_open_busy:
  assumes "rx_ok w" "map_of (mTargetMap w) channel = Some t"
  shows "rx_openChannel channel bc w = Some (ERROR_CHANNEL_BUSY, w)"
proof -
  from assms obtain a tg where "targets w t = Some tg" "tgt_channel tg = channel" by (rule rx_ok_registered)
  with assms(2) show ?thesis by (simp add: rx_openChannel_def)
qed

lemma rx_open_new:
  assumes "rx_ok w" "map_of (mTargetMap w) channel = None" "fresh_target_agent bc channel w"
  obtains w' where "rx_openChannel channel bc w = Some (NO_ERROR, w')" "rx_ok w'"
    "map_of (mTargetMap w') channel = Some (free_addr w)" "target_channel_ok (free_addr w) bc w'"
    "mLastFrameNr (the (targets w' (free_addr w))) = 0"
    "l0_state.more w' = l0_state.more w" "qos w' = qos w" "tfq w' = tfq w" "sources w' = sources w"
    "sourceAgents w' = sourceAgents w" "mRegistry w' = mRegistry w" "free_addr w' = free_addr w + 1"
proof -
  let ?p = "free_addr w"
  have fresh: "targets w ?p = None" "bc < ?p"
    using assms(1,3) by (auto simp: rx_ok_def fresh_target_agent_def not_le [symmetric])
  define w' where "w' = w\<lparr>targets := (targets w)(?p \<mapsto> (CTarget_new channel)\<lparr>tgt_consumer := Some bc\<rparr>),
    targetAgents := (targetAgents w)(bc \<mapsto> (CTargetAgent_new channel)\<lparr>ta_producer := Some ?p\<rparr>),
    free_addr := ?p + 1, mTargetMap := mTargetMap w @ [(channel, ?p)]\<rparr>"
  have new: "buffer_mem_ok Buffer_new" by (simp add: buffer_mem_ok_def Buffer_new_def)
  have ok: "target_channel_ok ?p bc w'"
    using new by (simp add: target_channel_ok_def w'_def CTarget_new_def CTargetAgent_new_def list_all_iff)
  have old: "\<exists>a. target_channel_ok t a w' \<and> tgt_channel (the (targets w' t)) = ch \<and> t \<noteq> ?p"
    if "(ch, t) \<in> set (mTargetMap w)" for ch t
  proof -
    from rx_ok_entry [OF assms(1) that]
    obtain a where a: "target_channel_ok t a w" "tgt_channel (the (targets w t)) = ch" by auto
    have "t \<noteq> ?p" using a(1) fresh(1) by (auto elim!: target_channel_okE)
    moreover have "a \<noteq> bc"
      using a(1) assms(3) by (auto simp: fresh_target_agent_def CTargetAgent_new_def elim!: target_channel_okE)
    ultimately have "target_channel_ok t a w'" "tgt_channel (the (targets w' t)) = ch"
      using a by (simp_all add: target_channel_ok_def w'_def)
    with \<open>t \<noteq> ?p\<close> show ?thesis by blast
  qed
  have "?p \<notin> snd ` set (mTargetMap w)"
  proof
    assume "?p \<in> snd ` set (mTargetMap w)"
    then obtain ch where "(ch, ?p) \<in> set (mTargetMap w)" by auto
    from old [OF this] show False by simp
  qed
  moreover have "channel \<notin> fst ` set (mTargetMap w)"
    using assms(2) by (simp add: map_of_eq_None_iff)
  ultimately have notin: "channel \<notin> fst ` set (mTargetMap w)" "?p \<notin> snd ` set (mTargetMap w)" by simp_all
  have "rx_ok w'"
    unfolding rx_ok_def
  proof (intro conjI)
    show "\<forall>(channel, t) \<in> set (mTargetMap w'). \<exists>a. target_channel_ok t a w' \<and> tgt_channel (the (targets w' t)) = channel"
    proof (clarify)
      fix ch t assume "(ch, t) \<in> set (mTargetMap w')"
      then consider "(ch, t) \<in> set (mTargetMap w)" | "ch = channel" "t = ?p"
        by (auto simp: w'_def)
      then show "\<exists>a. target_channel_ok t a w' \<and> tgt_channel (the (targets w' t)) = ch"
      proof cases
        case 1
        then show ?thesis using old by blast
      next
        case 2
        then show ?thesis using ok by (auto simp: w'_def CTarget_new_def)
      qed
    qed
  qed (use assms(1) notin fresh(2) in \<open>auto simp: rx_ok_def w'_def\<close>)
  show thesis
  proof (rule that)
    show "rx_openChannel channel bc w = Some (NO_ERROR, w')"
      using assms(2,3)
      by (simp add: rx_openChannel_def Let_def CTarget_registerConsumer_def CTargetAgent_registerProducer_def
          fresh_target_agent_def w'_def CTarget_new_def CTargetAgent_new_def)
    show "map_of (mTargetMap w') channel = Some ?p"
      using assms(2) by (simp add: w'_def map_add_def)
  qed (use ok \<open>rx_ok w'\<close> in \<open>simp_all add: w'_def CTarget_new_def\<close>)
qed

lemma CTarget_delete_ok:
  assumes "target_channel_ok t a w"
  obtains ag where "targetAgents w a = Some ag" "CTarget_delete t w = Some (w\<lparr>targetAgents :=
    (targetAgents w)(a \<mapsto> ag\<lparr>ta_queue := [], ta_producer := None\<rparr>), targets := (targets w)(t := None)\<rparr>)"
proof -
  obtain tg ag where o: "targets w t = Some tg" "targetAgents w a = Some ag" "tgt_consumer tg = Some a"
    "ta_producer ag = Some t" "ta_queue ag = []"
    using assms by (rule target_channel_okE)
  then show thesis
    by (intro that [of ag])
      (simp_all add: CTarget_delete_def CTargetAgent_flushBuffers_def CTargetAgent_unregisterProducer_def)
qed

lemma rx_close_unknown:
  "map_of (mTargetMap w) channel = None \<Longrightarrow> rx_closeChannel channel w = Some (ERROR_NOT_FOUND, w)"
  by (simp add: rx_closeChannel_def)

lemma filter_key_map_of:
  "distinct (map fst xs) \<Longrightarrow> (k, v) \<in> set xs \<Longrightarrow> set (filter (\<lambda>(c, _). c \<noteq> k) xs) = set xs - {(k, v)}"
  by (auto simp: eq_key_imp_eq_value)

lemma rx_close_known:
  assumes "rx_ok w" "map_of (mTargetMap w) channel = Some t"
  obtains w' where "rx_closeChannel channel w = Some (NO_ERROR, w')" "rx_ok w'"
    "map_of (mTargetMap w') channel = None" "targets w' t = None"
    "l0_state.more w' = l0_state.more w" "qos w' = qos w" "tfq w' = tfq w" "sources w' = sources w"
    "sourceAgents w' = sourceAgents w" "mRegistry w' = mRegistry w" "free_addr w' = free_addr w"
proof -
  obtain a tg where a: "target_channel_ok t a w" "targets w t = Some tg" "tgt_channel tg = channel"
    using assms by (rule rx_ok_registered)
  obtain ag where ag: "targetAgents w a = Some ag" "CTarget_delete t w = Some (w\<lparr>targetAgents :=
    (targetAgents w)(a \<mapsto> ag\<lparr>ta_queue := [], ta_producer := None\<rparr>), targets := (targets w)(t := None)\<rparr>)"
    using a(1) by (rule CTarget_delete_ok)
  have dist: "distinct (map fst (mTargetMap w))" "distinct (map snd (mTargetMap w))"
    using assms(1) by (simp_all add: rx_ok_def)
  have ct: "(channel, t) \<in> set (mTargetMap w)" using assms(2) by (rule map_of_SomeD)
  let ?m = "filter (\<lambda>(k, _). k \<noteq> channel) (mTargetMap w)"
  define w' where "w' = w\<lparr>targetAgents := (targetAgents w)(a \<mapsto> ag\<lparr>ta_queue := [], ta_producer := None\<rparr>),
    targets := (targets w)(t := None), mTargetMap := ?m\<rparr>"
  have old: "\<exists>b. target_channel_ok r b w' \<and> tgt_channel (the (targets w' r)) = ch" if "(ch, r) \<in> set ?m" for ch r
  proof -
    from that have m: "(ch, r) \<in> set (mTargetMap w)" "ch \<noteq> channel" by auto
    from rx_ok_entry [OF assms(1) m(1)]
    obtain b where b: "target_channel_ok r b w" "tgt_channel (the (targets w r)) = ch" by auto
    have "r \<noteq> t" using b(2) a(2,3) m(2) by auto
    moreover have "b \<noteq> a"
      using a(1) b(1) \<open>r \<noteq> t\<close> by (auto elim!: target_channel_okE)
    ultimately have "target_channel_ok r b w'" "tgt_channel (the (targets w' r)) = ch"
      using b by (simp_all add: target_channel_ok_def w'_def)
    then show ?thesis by blast
  qed
  have "rx_ok w'"
    unfolding rx_ok_def
  proof (intro conjI)
    show "\<forall>(channel, t) \<in> set (mTargetMap w'). \<exists>a. target_channel_ok t a w' \<and> tgt_channel (the (targets w' t)) = channel"
      using old by (auto simp: w'_def)
    show "\<forall>p. free_addr w' \<le> p \<longrightarrow> targets w' p = None \<and> targetAgents w' p = None"
      using assms(1) ag(1) by (auto simp: rx_ok_def w'_def)
  qed (use dist in \<open>simp_all add: w'_def distinct_map_filter\<close>)
  show thesis
  proof (rule that)
    show "rx_closeChannel channel w = Some (NO_ERROR, w')"
      using assms(2) a(2,3) ag(2) by (simp add: rx_closeChannel_def w'_def)
    show "map_of (mTargetMap w') channel = None"
      by (auto simp: w'_def map_of_eq_None_iff)
  qed (use \<open>rx_ok w'\<close> in \<open>simp_all add: w'_def\<close>)
qed

section \<open>Properties\<close>

text \<open>
  C3: however the carrier cuts the stream of some encoded frames into pieces
  that fit the receive buffer, the agent ends in the state it would reach by processing these frames
  one by one in order, no byte is left over, and when processing one of them does not return, neither
  does reading the stream.
\<close>

theorem frames_survive_chunking:
  assumes "carrier_ok e c" "mFilledSize c = 0" "list_all frame_wf fs"
    and "concat chunks = concat (map wire_bytes fs)" "chunks_fit [] chunks"
  shows "case process_all (agent_processFrame e' sp receiveData clock adapter) fs s of
      None \<Rightarrow> haveData_run e (agent_processFrame e' sp receiveData clock adapter) chunks (c, s) = None
    | Some s' \<Rightarrow> \<exists>c'. haveData_run e (agent_processFrame e' sp receiveData clock adapter) chunks (c, s) = Some (c', s')
        \<and> mFilledSize c' = 0"
  by (rule income.haveData_run_frames [OF assms])

text \<open>
  At any point of a stream of well-formed frames, the next \<^verbatim>\<open>receiveRawArray\<close> is asked
  for at least one byte, so a full buffer never looks like a closed connection.
\<close>

theorem recv_never_starves:
  assumes "carrier_ok e c" "mFilledSize c = 0" "list_all frame_wf fs"
    and "concat chunks @ later = concat (map wire_bytes fs)" "chunks_fit [] chunks"
    and "haveData_run e (agent_processFrame e' sp receiveData clock adapter) chunks (c, s) = Some (c', s')"
  shows "0 < recv_room c'"
proof -
  have p: "carrier_pending e c = []" using assms(2) by (simp add: carrier_pending_def pending_def)
  obtain gs rest where g: "parse_stream (concat chunks) = (gs, rest)" by fastforce
  have r: "case process_all (agent_processFrame e' sp receiveData clock adapter) gs s of
      None \<Rightarrow> haveData_run e (agent_processFrame e' sp receiveData clock adapter) chunks (c, s) = None
    | Some s' \<Rightarrow> \<exists>c'. haveData_run e (agent_processFrame e' sp receiveData clock adapter) chunks (c, s) = Some (c', s')
        \<and> carrier_ok e c' \<and> carrier_pending e c' = rest"
    using income.haveData_run_parses [OF assms(1), of chunks gs rest] assms(5) g p by simp
  then have ok: "carrier_ok e c'" "carrier_pending e c' = rest"
    using assms(6) by (auto split: option.splits)
  have "length rest < FRAME_SIZEOF"
    using parse_prefix_short [of fs "concat chunks" later] assms(3,4) g by simp
  then show ?thesis
    using length_carrier_pending [OF ok(1)] ok(2) by (simp add: recv_room_def)
qed

section \<open>A sample carrier\<close>

definition empty_carrier :: carrier where
  "empty_carrier = \<lparr>mFrame = replicate FRAME_SIZEOF 0, mFilledSize = 0, mpFrameReceiver = True,
     mIsFrameProcessingAllowed = True\<rparr>"

definition sample_frame :: Frame where
  "sample_frame = \<lparr>sizeAndFlags = 2, channel_id = 7, frame_number = 1, frame_data = [10, 20]\<rparr>"

lemma empty_carrier_ok: "carrier_ok e empty_carrier" "mFilledSize empty_carrier = 0"
  by (simp_all add: carrier_ok_def buffer_ok_def empty_carrier_def HEADER_SIZE_def)

lemma sample_frame_wf: "list_all frame_wf [sample_frame]"
  by (simp add: sample_frame_def frame_wf_def getSize_def MAX_SIZE_def)

lemma sample_chunks: "concat [take 4 (wire_bytes sample_frame), drop 4 (wire_bytes sample_frame)]
    = concat (map wire_bytes [sample_frame])"
  "chunks_fit [] [take 4 (wire_bytes sample_frame), drop 4 (wire_bytes sample_frame)]"
proof -
  have "length (wire_bytes sample_frame) = 12"
    using sample_frame_wf by (simp add: length_wire_bytes HEADER_SIZE_def) (simp add: sample_frame_def getSize_def)
  then show "chunks_fit [] [take 4 (wire_bytes sample_frame), drop 4 (wire_bytes sample_frame)]"
    by (simp add: parse_stream_short HEADER_SIZE_def FRAME_SIZEOF_def MAX_SIZE_def)
qed simp

text \<open>A frame of an unknown channel arrives in two pieces; it is refused and not acknowledged.\<close>

theorem frames_survive_chunking_witness:
  "\<exists>c'. haveData_run LittleEndian
      (agent_processFrame BigEndian working_link (\<lambda>b c w. None) tick empty_carrier)
      [take 4 (wire_bytes sample_frame), drop 4 (wire_bytes sample_frame)] (empty_carrier, (l0_init, 0), 0)
      = Some (c', (l0_init, 0), 0) \<and> mFilledSize c' = 0"
proof -
  have "process_all (agent_processFrame BigEndian working_link (\<lambda>b c w. None) tick empty_carrier) [sample_frame]
      ((l0_init, 0), 0) = Some ((l0_init, 0), 0)"
    by (simp add: agent_processFrame_def processFrame_def empty_carrier_def rx_receiveFrame_def sample_frame_def isACK_def
        l0_init_def isNoError_def)
  with frames_survive_chunking [OF empty_carrier_ok sample_frame_wf sample_chunks,
      where e' = BigEndian and sp = working_link and receiveData = "\<lambda>b c w. None" and clock = tick
        and adapter = empty_carrier and s = "((l0_init, 0), 0)" and e = LittleEndian]
  show ?thesis by (simp only: option.case)
qed

theorem recv_never_starves_witness:
  "\<exists>c'. haveData_run LittleEndian
      (agent_processFrame BigEndian working_link (\<lambda>b c w. None) tick empty_carrier)
      [take 4 (wire_bytes sample_frame)] (empty_carrier, (l0_init, 0), 0) = Some (c', (l0_init, 0), 0)
    \<and> 0 < recv_room c'"
proof -
  let ?bs = "take 4 (wire_bytes sample_frame)"
  have len: "length ?bs = 4"
    using sample_frame_wf by (simp add: length_wire_bytes HEADER_SIZE_def)
  have r: "haveData_run LittleEndian (agent_processFrame BigEndian working_link (\<lambda>b c w. None) tick empty_carrier)
      [?bs] (empty_carrier, (l0_init, 0), 0)
    = Some (empty_carrier\<lparr>mFrame := overwrite 0 ?bs (mFrame empty_carrier), mFilledSize := 4\<rparr>, (l0_init, 0), 0)"
    using len by (simp add: haveData_def haveData_loop.simps HEADER_SIZE_def empty_carrier_ok(2) del: length_take)
  have "concat [?bs] @ drop 4 (wire_bytes sample_frame) = concat (map wire_bytes [sample_frame])" by simp
  moreover have "chunks_fit [] [?bs]"
    using len by (simp add: FRAME_SIZEOF_def HEADER_SIZE_def MAX_SIZE_def)
  ultimately have "0 < recv_room (empty_carrier\<lparr>mFrame := overwrite 0 ?bs (mFrame empty_carrier), mFilledSize := 4\<rparr>)"
    using recv_never_starves [OF empty_carrier_ok sample_frame_wf _ _ r] by blast
  with r show ?thesis by blast
qed

end
