(* ===== verification/ChannelAllocator.thy ===== *)
theory ChannelAllocator
  imports TransmitDispatcher IncomeDispatcher
begin

text \<open>
  \<^verbatim>\<open>L0/private/L0Interface.cpp\<close>, the interface of the lower layer, and
  \<^verbatim>\<open>L1/private/CChannelAllocator.cpp\<close>, which opens and closes both directions of a channel through
  it. The pointers to the dispatchers, the statistics and the interface are set when the agent
  starts and are not null afterwards, so the branches for null pointers are not reached.
\<close>

section \<open>The lower layer's interface\<close>

definition openTransmissionChannel ::
  "u32 \<Rightarrow> TChannelPriority \<Rightarrow> addr \<Rightarrow> u64 \<Rightarrow> u64 \<Rightarrow> 'l l0_state_scheme \<Rightarrow> (ErrorCode \<times> 'l l0_state_scheme) option" where
  "openTransmissionChannel channel prio bufferProducer upper lower w = do {
     (result, w) \<leftarrow> tx_openChannel channel prio bufferProducer w;
     if \<not> isNoError result then Some (result, w)
     else (let (result, m) = QoS_openChannel channel upper lower (qos w) in
       Some (if \<not> isNoError result then result else NO_ERROR, w\<lparr>qos := m\<rparr>)) }"

definition openIncomingChannel ::
  "u32 \<Rightarrow> addr \<Rightarrow> 'l l0_state_scheme \<Rightarrow> (ErrorCode \<times> 'l l0_state_scheme) option" where
  "openIncomingChannel channel bufferConsumer w = rx_openChannel channel bufferConsumer w"

definition closeTransmissionChannel :: "u32 \<Rightarrow> 'l l0_state_scheme \<Rightarrow> (ErrorCode \<times> 'l l0_state_scheme) option" where
  "closeTransmissionChannel channel w = do {
     (result, w) \<leftarrow> tx_closeChannel channel w;
     if \<not> isNoError result then Some (result, w)
     else (let (result, m) = QoS_closeChannel channel (qos w) in Some (result, w\<lparr>qos := m\<rparr>)) }"

definition closeIncomingChannel :: "u32 \<Rightarrow> 'l l0_state_scheme \<Rightarrow> (ErrorCode \<times> 'l l0_state_scheme) option" where
  "closeIncomingChannel channel w = rx_closeChannel channel w"

definition getQoSReport :: "u32 \<Rightarrow> 'l l0_state_scheme \<Rightarrow> u64 \<times> 'l l0_state_scheme" where
  "getQoSReport channel w =
     (let (_, m, retVal) = QoS_getAverageForChannel channel (qos w) 0 in (retVal, w\<lparr>qos := m\<rparr>))"

section \<open>The allocator\<close>

text \<open>
  The result tells which agents the caller's \<^verbatim>\<open>tL1ChannelInfo\<close> points to afterwards: the source agent
  once the transmission channel is open, the target agent even if the incoming channel is not and
  the agent has been deleted again.
\<close>

definition allocateChannel ::
  "TChannelPriority \<Rightarrow> u32 \<Rightarrow> u64 \<Rightarrow> u64 \<Rightarrow> 'l l0_state_scheme \<Rightarrow>
   (ErrorCode \<times> addr option \<times> addr option \<times> 'l l0_state_scheme) option" where
  "allocateChannel prio channel upper lower w =
     (let pSourceAgent = free_addr w;
          w = w\<lparr>free_addr := pSourceAgent + 1,
            sourceAgents := (sourceAgents w)(pSourceAgent \<mapsto> CSourceAgent_new channel)\<rparr>
      in do {
        (result, w) \<leftarrow> openTransmissionChannel channel prio pSourceAgent upper lower w;
        if \<not> isNoError result
        then Some (result, None, None, w\<lparr>sourceAgents := (sourceAgents w)(pSourceAgent := None)\<rparr>)
        else
          (let pTargetAgent = free_addr w;
               w = w\<lparr>free_addr := pTargetAgent + 1,
                 targetAgents := (targetAgents w)(pTargetAgent \<mapsto> CTargetAgent_new channel)\<rparr>
           in do {
             (result, w) \<leftarrow> openIncomingChannel channel pTargetAgent w;
             if \<not> isNoError result
             then do {
               (_, w) \<leftarrow> closeTransmissionChannel channel
                 (w\<lparr>targetAgents := (targetAgents w)(pTargetAgent := None)\<rparr>);
               Some (result, Some pSourceAgent, Some pTargetAgent, w) }
             else Some (result, Some pSourceAgent, Some pTargetAgent, w) }) })"

definition allocator_deallocateChannel :: "u32 \<Rightarrow> 'l l0_state_scheme \<Rightarrow> (ErrorCode \<times> 'l l0_state_scheme) option" where
  "allocator_deallocateChannel channel w = do {
     (result, w) \<leftarrow> closeTransmissionChannel channel w;
     (incomingError, w) \<leftarrow> closeIncomingChannel channel w;
     Some (if \<not> isNoError incomingError then incomingError else result, w) }"

section \<open>Well-formed lower layer\<close>

definition l0_ok :: "'l l0_state_scheme \<Rightarrow> bool" where
  "l0_ok w \<longleftrightarrow> tx_ok w \<and> rx_ok w"

definition channel_unused :: "u32 \<Rightarrow> 'l l0_state_scheme \<Rightarrow> bool" where
  "channel_unused channel w \<longleftrightarrow> (\<forall>prio. \<not> registered channel prio w) \<and> map_of (mTargetMap w) channel = None
     \<and> qos w channel = None"

definition channel_open :: "u32 \<Rightarrow> TChannelPriority \<Rightarrow> addr \<Rightarrow> addr \<Rightarrow> 'l l0_state_scheme \<Rightarrow> bool" where
  "channel_open channel prio sa ta w \<longleftrightarrow> registered channel prio w
     \<and> (\<exists>s \<in> set (mRegistry w prio). source_channel_ok sa s w)
     \<and> (\<exists>t. map_of (mTargetMap w) channel = Some t \<and> target_channel_ok t ta w) \<and> qos w channel \<noteq> None"

lemma l0_ok_init: "l0_ok l0_init"
  by (simp add: l0_ok_def tx_ok_def rx_ok_def all_sources_def l0_init_def priorities_def)

lemma channel_unused_init: "channel_unused channel l0_init"
  by (simp add: channel_unused_def registered_def l0_init_def)

lemma tx_ok_cong:
  assumes "sources w' = sources w" "mRegistry w' = mRegistry w" "free_addr w \<le> free_addr w'"
    and "\<And>a. a < free_addr w \<Longrightarrow> sourceAgents w' a = sourceAgents w a"
    and "\<And>a. free_addr w' \<le> a \<Longrightarrow> sourceAgents w' a = None"
  shows "tx_ok w \<Longrightarrow> tx_ok w'"
proof -
  assume ok: "tx_ok w"
  have "source_channel_ok a p w'" if "source_channel_ok a p w" for a p
  proof -
    have "a < free_addr w"
      using ok that by (auto simp: tx_ok_def not_le [symmetric] elim!: source_channel_okE)
    with that assms(1,4) show ?thesis by (simp add: source_channel_ok_def)
  qed
  moreover have "all_sources w' = all_sources w" by (simp add: all_sources_def assms(2))
  ultimately show "tx_ok w'"
    using ok assms(1,3,5) unfolding tx_ok_def by (metis order_trans)
qed

lemma rx_ok_cong:
  assumes "targets w' = targets w" "mTargetMap w' = mTargetMap w" "free_addr w \<le> free_addr w'"
    and "\<And>a. a < free_addr w \<Longrightarrow> targetAgents w' a = targetAgents w a"
    and "\<And>a. free_addr w' \<le> a \<Longrightarrow> targetAgents w' a = None"
  shows "rx_ok w \<Longrightarrow> rx_ok w'"
proof -
  assume ok: "rx_ok w"
  have "target_channel_ok t a w'" if "target_channel_ok t a w" for t a
  proof -
    have "a < free_addr w"
      using ok that by (auto simp: rx_ok_def not_le [symmetric] elim!: target_channel_okE)
    with that assms(1,4) show ?thesis by (simp add: target_channel_ok_def)
  qed
  then have "\<forall>(channel, t) \<in> set (mTargetMap w'). \<exists>a. target_channel_ok t a w' \<and> tgt_channel (the (targets w' t)) = channel"
    using ok assms(1,2) rx_ok_entry by fastforce
  then show "rx_ok w'"
    using ok assms(1,2,3,5) by (auto simp: rx_ok_def)
qed

section \<open>Opening and closing both directions\<close>

text \<open>The part of the process above the lower layer, which these operations do not touch.\<close>

lemma registered_cong:
  "sources w' = sources w \<Longrightarrow> mRegistry w' = mRegistry w \<Longrightarrow> registered channel prio w' = registered channel prio w"
  by (simp add: registered_def)

lemma target_channel_ok_cong:
  "targets w' = targets w \<Longrightarrow> targetAgents w' = targetAgents w \<Longrightarrow> target_channel_ok t a w' = target_channel_ok t a w"
  by (simp add: target_channel_ok_def)

lemma source_channel_ok_cong:
  "sources w' = sources w \<Longrightarrow> sourceAgents w' = sourceAgents w \<Longrightarrow> source_channel_ok a s w' = source_channel_ok a s w"
  by (simp add: source_channel_ok_def)

lemma allocate_opens:
  assumes "l0_ok w" "channel_unused channel w"
  obtains sa ta w' where "allocateChannel prio channel upper lower w = Some (NO_ERROR, Some sa, Some ta, w')"
    "l0_ok w'" "channel_open channel prio sa ta w'" "l0_state.more w' = l0_state.more w"
    "\<And>p. p \<in> set (all_sources w') \<Longrightarrow> has_channel channel w' p \<Longrightarrow> p = sa + 1"
    "\<And>p. p < free_addr w \<Longrightarrow> sources w' p = sources w p \<and> sourceAgents w' p = sourceAgents w p"
proof -
  let ?sa = "free_addr w"
  define w1 where "w1 = w\<lparr>free_addr := ?sa + 1, sourceAgents := (sourceAgents w)(?sa \<mapsto> CSourceAgent_new channel)\<rparr>"
  have ok: "tx_ok w" "rx_ok w" using assms(1) by (simp_all add: l0_ok_def)
  have tx1: "tx_ok w1"
    by (rule tx_ok_cong [OF _ _ _ _ _ ok(1)]) (use ok(1) in \<open>auto simp: w1_def tx_ok_def\<close>)
  have rx1: "rx_ok w1"
    by (rule rx_ok_cong [OF _ _ _ _ _ ok(2)]) (use ok(2) in \<open>auto simp: w1_def rx_ok_def\<close>)
  have nr: "\<not> registered channel prio' w1" for prio'
    using assms(2) registered_cong [of w1 w channel prio'] by (simp add: channel_unused_def w1_def)
  have fa: "fresh_agent ?sa channel w1" by (simp add: fresh_agent_def w1_def)
  obtain w2 where o: "tx_openChannel channel prio ?sa w1 = Some (NO_ERROR, w2)" "tx_ok w2"
    "source_channel_ok ?sa (free_addr w1) w2" "registered channel prio w2"
    "mRegistry w2 = (mRegistry w1)(prio := mRegistry w1 prio @ [free_addr w1])"
    "l0_state.more w2 = l0_state.more w1" "qos w2 = qos w1" "targets w2 = targets w1" "targetAgents w2 = targetAgents w1"
    "free_addr w2 = free_addr w1 + 1" "mTargetMap w2 = mTargetMap w1"
    "\<And>r. r \<noteq> free_addr w1 \<Longrightarrow> sources w2 r = sources w1 r"
    "\<And>b. b \<noteq> ?sa \<Longrightarrow> sourceAgents w2 b = sourceAgents w1 b"
    by (rule tx_open_new [OF tx1 nr fa]) (rule that; assumption)
  let ?ta = "free_addr w2"
  have trans: "openTransmissionChannel channel prio ?sa upper lower w1 =
      Some (NO_ERROR, w2\<lparr>qos := snd (QoS_openChannel channel upper lower (qos w2))\<rparr>)"
    using o(1,7) assms(2)
    by (simp add: openTransmissionChannel_def isNoError_def QoS_openChannel_def channel_unused_def w1_def Let_def)
  define w3 where "w3 = w2\<lparr>qos := snd (QoS_openChannel channel upper lower (qos w2)),
    free_addr := ?ta + 1, targetAgents := (targetAgents w2)(?ta \<mapsto> CTargetAgent_new channel)\<rparr>"
  have q: "QoS_openChannel channel upper lower (qos w2) = (NO_ERROR, snd (QoS_openChannel channel upper lower (qos w2)))"
    "snd (QoS_openChannel channel upper lower (qos w2)) channel \<noteq> None"
    using assms(2) o(7) by (simp_all add: QoS_openChannel_def channel_unused_def w1_def Let_def)
  have rx2: "rx_ok w2"
    by (rule rx_ok_cong [OF _ _ _ _ _ rx1]) (use rx1 o in \<open>auto simp: rx_ok_def\<close>)
  have rx3: "rx_ok w3"
    by (rule rx_ok_cong [OF _ _ _ _ _ rx2]) (use rx2 in \<open>auto simp: w3_def rx_ok_def\<close>)
  have tx3: "tx_ok w3"
    by (rule tx_ok_cong [OF _ _ _ _ _ o(2)]) (use o(2) in \<open>auto simp: w3_def tx_ok_def\<close>)
  have un: "map_of (mTargetMap w3) channel = None"
    using assms(2) o(11) by (simp add: channel_unused_def w3_def w1_def)
  have ft: "fresh_target_agent ?ta channel w3" by (simp add: fresh_target_agent_def w3_def)
  obtain w4 where i: "rx_openChannel channel ?ta w3 = Some (NO_ERROR, w4)" "rx_ok w4"
    "map_of (mTargetMap w4) channel = Some (free_addr w3)" "target_channel_ok (free_addr w3) ?ta w4"
    "l0_state.more w4 = l0_state.more w3" "qos w4 = qos w3" "tfq w4 = tfq w3" "sources w4 = sources w3"
    "sourceAgents w4 = sourceAgents w3" "mRegistry w4 = mRegistry w3" "free_addr w4 = free_addr w3 + 1"
    using rx_open_new [OF rx3 un ft] by metis
  have tx4: "tx_ok w4"
    by (rule tx_ok_cong [OF _ _ _ _ _ tx3]) (use tx3 i in \<open>auto simp: tx_ok_def\<close>)
  show thesis
  proof (rule that)
    show "allocateChannel prio channel upper lower w = Some (NO_ERROR, Some ?sa, Some ?ta, w4)"
      unfolding allocateChannel_def Let_def w1_def [symmetric]
      using i(1) [unfolded w3_def] by (simp add: trans openIncomingChannel_def isNoError_def)
    show "l0_ok w4" using tx4 i(2) by (simp add: l0_ok_def)
    have "registered channel prio w4"
      using o(4) registered_cong [of w4 w2] i(8,10) by (simp add: w3_def)
    moreover have "free_addr w1 \<in> set (mRegistry w4 prio)" "source_channel_ok ?sa (free_addr w1) w4"
      using o(3,5) i(8,9,10) source_channel_ok_cong [of w4 w2] by (simp_all add: w3_def)
    ultimately show "channel_open channel prio ?sa ?ta w4"
      using i(3,4,6) q(2) by (auto simp: channel_open_def w3_def)
    show "l0_state.more w4 = l0_state.more w" using o(6) i(5) by (simp add: w1_def w3_def)
    show "sources w4 p = sources w p \<and> sourceAgents w4 p = sourceAgents w p" if "p < free_addr w" for p
      using that i(8,9) o(12) [of p] o(13) [of p] by (simp add: w3_def w1_def)
    show "p = ?sa + 1" if "p \<in> set (all_sources w4)" "has_channel channel w4 p" for p
    proof (rule ccontr)
      assume ne: "p \<noteq> ?sa + 1"
      from that(1) obtain prio' where "p \<in> set (mRegistry w4 prio')" by (auto simp: set_all_sources)
      then have "p \<in> set (mRegistry w1 prio')"
        using ne i(10) o(5) by (auto simp: w3_def w1_def split: if_splits)
      moreover have "has_channel channel w1 p"
        using that(2) ne i(8) o(12) [of p] by (simp add: has_channel_def w3_def w1_def)
      ultimately show False using nr registered_has_channel by blast
    qed
  qed
qed

definition one_source :: "u32 \<Rightarrow> 'l l0_state_scheme \<Rightarrow> bool" where
  "one_source channel w \<longleftrightarrow> (\<exists>s. \<forall>p \<in> set (all_sources w). has_channel channel w p \<longrightarrow> p = s)"

definition no_frames_of :: "u32 \<Rightarrow> 'l l0_state_scheme \<Rightarrow> bool" where
  "no_frames_of channel w \<longleftrightarrow> list_all (\<lambda>t. channel_id (ts_frame t) \<noteq> channel) (mQueue (tfq w))"

lemma deallocate_closes:
  assumes "l0_ok w" "channel_open channel prio sa ta w" "one_source channel w"
  obtains w' where "allocator_deallocateChannel channel w = Some (NO_ERROR, w')"
    "l0_ok w'" "channel_unused channel w'" "no_frames_of channel w'" "l0_state.more w' = l0_state.more w"
    "\<And>b q. source_channel_ok b q w \<Longrightarrow> \<not> has_channel channel w q \<Longrightarrow>
       source_channel_ok b q w' \<and> source_pool b w' = source_pool b w"
proof -
  have ok: "tx_ok w" "rx_ok w" using assms(1) by (simp_all add: l0_ok_def)
  have open': "registered channel prio w" "qos w channel \<noteq> None" using assms(2) by (simp_all add: channel_open_def)
  obtain t where t: "map_of (mTargetMap w) channel = Some t" using assms(2) by (auto simp: channel_open_def)
  obtain r w1 where c: "tx_closeChannel channel w = Some (r, w1)" "tx_ok w1"
    "tfq w1 = tfq_deleteFramesForChannel channel (tfq w)" "qos w1 = qos w" "targets w1 = targets w"
    "targetAgents w1 = targetAgents w" "mTargetMap w1 = mTargetMap w" "l0_state.more w1 = l0_state.more w"
    "free_addr w1 = free_addr w" "r = (if \<exists>prio. registered channel prio w then NO_ERROR else ERROR_NOT_FOUND)"
    "\<forall>p \<in> set (all_sources w1). p \<in> set (all_sources w) \<and> sources w1 p = sources w p"
    "r = NO_ERROR \<longrightarrow> (\<exists>p \<in> set (all_sources w) - set (all_sources w1). has_channel channel w p)"
    using tx_close_ok [OF ok(1), of channel] by (elim exE conjE) (rule that)
  have r: "r = NO_ERROR" using c(10) open'(1) by auto
  have gone: "\<not> registered channel prio' w1" for prio'
  proof
    assume "registered channel prio' w1"
    then obtain p where p: "p \<in> set (all_sources w1)" "has_channel channel w1 p"
      unfolding registered_has_channel by (auto simp: set_all_sources)
    with c(11) have "p \<in> set (all_sources w)" "has_channel channel w p" by (auto simp: has_channel_def)
    moreover obtain p' where "p' \<in> set (all_sources w)" "p' \<notin> set (all_sources w1)" "has_channel channel w p'"
      using c(12) r by auto
    ultimately show False using assms(3) p(1) unfolding one_source_def by metis
  qed
  define w2 where "w2 = w1\<lparr>qos := (qos w)(channel := None)\<rparr>"
  have ct: "closeTransmissionChannel channel w = Some (NO_ERROR, w2)"
    using c(1,4) r open'(2) by (simp add: closeTransmissionChannel_def isNoError_def QoS_closeChannel_def w2_def)
  have rx2: "rx_ok w2"
    by (rule rx_ok_cong [OF _ _ _ _ _ ok(2)]) (use ok(2) c in \<open>auto simp: w2_def rx_ok_def\<close>)
  have tx2: "tx_ok w2"
    by (rule tx_ok_cong [OF _ _ _ _ _ c(2)]) (use c(2) in \<open>auto simp: w2_def tx_ok_def\<close>)
  have t2: "map_of (mTargetMap w2) channel = Some t" using t c(7) by (simp add: w2_def)
  obtain w3 where i: "rx_closeChannel channel w2 = Some (NO_ERROR, w3)" "rx_ok w3"
    "map_of (mTargetMap w3) channel = None" "l0_state.more w3 = l0_state.more w2" "qos w3 = qos w2" "tfq w3 = tfq w2"
    "sources w3 = sources w2" "sourceAgents w3 = sourceAgents w2" "mRegistry w3 = mRegistry w2" "free_addr w3 = free_addr w2"
    using rx_close_known [OF rx2 t2] by metis
  show thesis
  proof (rule that)
    show "allocator_deallocateChannel channel w = Some (NO_ERROR, w3)"
      using ct i(1) by (simp add: allocator_deallocateChannel_def closeIncomingChannel_def isNoError_def)
    have "tx_ok w3"
      by (rule tx_ok_cong [OF _ _ _ _ _ tx2]) (use tx2 i in \<open>auto simp: tx_ok_def\<close>)
    then show "l0_ok w3" using i(2) by (simp add: l0_ok_def)
    have "\<not> registered channel prio' w3" for prio'
      using gone [of prio'] registered_cong [of w3 w1] i(7,9) by (simp add: w2_def)
    then show "channel_unused channel w3"
      using i(3,5) by (simp add: channel_unused_def w2_def)
    show "no_frames_of channel w3"
      using i(6) c(3) by (auto simp: no_frames_of_def w2_def tfq_delete_mQueue list_all_iff)
    show "l0_state.more w3 = l0_state.more w" using i(4) c(8) by (simp add: w2_def)
    show "source_channel_ok b q w3 \<and> source_pool b w3 = source_pool b w"
      if "source_channel_ok b q w" "\<not> has_channel channel w q" for b q
      using tx_close_keeps [OF c(1) ok(1) that] i(7,8) by (simp add: w2_def source_channel_ok_def source_pool_def)
  qed
qed

section \<open>Properties\<close>

text \<open>
  C5: allocating a channel that is not in use opens both directions, with the two
  agents connected to a fresh source and a fresh target and all buffers in their pools; deallocating
  it again succeeds and leaves nothing of it behind: no source, no target, no statistics and no frame
  waiting for an acknowledgement. The lower layer stays well-formed throughout.
\<close>

theorem channel_lifecycle:
  assumes "l0_ok w" "channel_unused channel w"
  shows "\<exists>sa ta w1 w2. allocateChannel prio channel upper lower w = Some (NO_ERROR, Some sa, Some ta, w1)
    \<and> l0_ok w1 \<and> channel_open channel prio sa ta w1
    \<and> allocator_deallocateChannel channel w1 = Some (NO_ERROR, w2)
    \<and> l0_ok w2 \<and> channel_unused channel w2 \<and> no_frames_of channel w2"
proof -
  obtain sa ta w1 where a: "allocateChannel prio channel upper lower w = Some (NO_ERROR, Some sa, Some ta, w1)"
    "l0_ok w1" "channel_open channel prio sa ta w1"
    "\<And>p. p \<in> set (all_sources w1) \<Longrightarrow> has_channel channel w1 p \<Longrightarrow> p = sa + 1"
    using allocate_opens [OF assms] by metis
  have "one_source channel w1" using a(4) unfolding one_source_def by blast
  from deallocate_closes [OF a(2,3) this] a show ?thesis by metis
qed

text \<open>
  Opening a channel a second time under another priority fails with
  \<^verbatim>\<open>ERROR_CHANNEL_BUSY\<close>, but the second source stays registered although its agent has been deleted,
  and closing the channel twice, which removes both sources, runs into the deleted agent.
\<close>

definition two_priorities :: "u32 \<Rightarrow> l0_state \<Rightarrow> l0_state option" where
  "two_priorities channel w = do {
     (_, _, _, w) \<leftarrow> allocateChannel eRealTime channel 0 0 w;
     (_, _, _, w) \<leftarrow> allocateChannel ePlainData channel 0 0 w;
     Some w }"

theorem same_channel_two_priorities:
  "\<exists>w w1. two_priorities 7 l0_init = Some w \<and> registered 7 eRealTime w \<and> registered 7 ePlainData w
     \<and> allocator_deallocateChannel 7 w = Some (NO_ERROR, w1) \<and> allocator_deallocateChannel 7 w1 = None"
  by (simp add: two_priorities_def allocateChannel_def openTransmissionChannel_def openIncomingChannel_def
      tx_openChannel_def rx_openChannel_def CSource_registerProducer_def CSourceAgent_registerConsumer_def
      CTarget_registerConsumer_def CTargetAgent_registerProducer_def QoS_openChannel_def l0_init_def isNoError_def
      registered_def CSource_new_def CSourceAgent_new_def CTarget_new_def CTargetAgent_new_def Let_def
      allocator_deallocateChannel_def closeTransmissionChannel_def closeIncomingChannel_def tx_closeChannel_def
      priorities_def CSource_delete_def CSourceAgent_unregisterConsumer_def CSource_flushBuffers_def QoS_closeChannel_def
      rx_closeChannel_def CTarget_delete_def CTargetAgent_flushBuffers_def CTargetAgent_unregisterProducer_def
      tfq_deleteFramesForChannel_def)

theorem channel_lifecycle_witness:
  "\<exists>sa ta w1 w2. allocateChannel ePlainData 42 100 5 l0_init = Some (NO_ERROR, Some sa, Some ta, w1)
    \<and> channel_open 42 ePlainData sa ta w1
    \<and> allocator_deallocateChannel 42 w1 = Some (NO_ERROR, w2) \<and> channel_unused 42 w2"
  using channel_lifecycle [OF l0_ok_init channel_unused_init, of ePlainData 42 100 5] by blast

end
