(* ===== verification/DataAccessor.thy ===== *)
theory DataAccessor
  imports ByteOrder
begin

text \<open>
  The message between a client process and the connectivity agent
  (\<^verbatim>\<open>common/CDataAccessor.hpp\<close>, \<^verbatim>\<open>common/private/CDataAccessor.cpp\<close>): four words in the byte order
  of the host and a block of data.
\<close>

section \<open>The object\<close>

record CDataAccessor =
  mOperation :: u32
  mChannelID :: u32
  mDataSize :: u32
  mErrorCode :: u32
  mpData :: "u8 list option"

definition accessor_new :: CDataAccessor where
  "accessor_new = \<lparr>mOperation = 0, mChannelID = 0, mDataSize = 0, mErrorCode = 0, mpData = None\<rparr>"

definition accessor_resetAll :: "CDataAccessor \<Rightarrow> CDataAccessor" where
  "accessor_resetAll a = a\<lparr>mChannelID := 0, mOperation := 0, mDataSize := 0, mErrorCode := 0, mpData := None\<rparr>"

definition setChannelID :: "u32 \<Rightarrow> CDataAccessor \<Rightarrow> CDataAccessor" where
  "setChannelID n a = a\<lparr>mChannelID := n\<rparr>"

definition setOpCode :: "u32 \<Rightarrow> CDataAccessor \<Rightarrow> CDataAccessor" where
  "setOpCode n a = a\<lparr>mOperation := n\<rparr>"

definition setErrorCode :: "u32 \<Rightarrow> CDataAccessor \<Rightarrow> CDataAccessor" where
  "setErrorCode n a = a\<lparr>mErrorCode := n\<rparr>"

definition getObjectSize :: "CDataAccessor \<Rightarrow> u32" where
  "getObjectSize a = mDataSize a + 16"

text \<open>\<^verbatim>\<open>setData\<close> with a non-null pointer to \<^verbatim>\<open>bs\<close>; an empty block is ignored, also when there was data.\<close>

definition accessor_setData :: "u8 list \<Rightarrow> CDataAccessor \<Rightarrow> CDataAccessor" where
  "accessor_setData bs a =
     (if bs \<noteq> [] then a\<lparr>mpData := Some bs, mDataSize := of_nat (length bs)\<rparr> else a)"

definition accessor_resetData :: "CDataAccessor \<Rightarrow> CDataAccessor" where
  "accessor_resetData a = a\<lparr>mDataSize := 0, mpData := None\<rparr>"

text \<open>The first \<^verbatim>\<open>mDataSize\<close> bytes behind \<^verbatim>\<open>mpData\<close>, which a \<^verbatim>\<open>memcpy\<close> of that size reads.\<close>

definition accessor_bytes :: "CDataAccessor \<Rightarrow> u8 list option" where
  "accessor_bytes a =
     (if mDataSize a = 0 then Some []
      else case mpData a of
          None \<Rightarrow> None
        | Some d \<Rightarrow> if unat (mDataSize a) \<le> length d then Some (take (unat (mDataSize a)) d) else None)"

definition accessor_copy :: "CDataAccessor \<Rightarrow> CDataAccessor option" where
  "accessor_copy a =
     (case accessor_bytes a of
        None \<Rightarrow> None
      | Some d \<Rightarrow> Some (a\<lparr>mpData := (if mDataSize a = 0 then None else Some d)\<rparr>))"

definition accessor_assign :: "CDataAccessor \<Rightarrow> CDataAccessor \<Rightarrow> CDataAccessor option" where
  "accessor_assign this a =
     (case accessor_bytes a of
        None \<Rightarrow> None
      | Some d \<Rightarrow> Some (this\<lparr>mOperation := mOperation a, mChannelID := mChannelID a, mDataSize := mDataSize a,
          mErrorCode := mErrorCode a, mpData := (if mDataSize a = 0 then None else Some d)\<rparr>))"

section \<open>Raw arrays\<close>

definition copyToRawArray :: "endian \<Rightarrow> CDataAccessor \<Rightarrow> u8 list option" where
  "copyToRawArray e a =
     (case accessor_bytes a of
        None \<Rightarrow> None
      | Some d \<Rightarrow> Some (store e 4 (mOperation a) @ store e 4 (mChannelID a) @ store e 4 (mDataSize a)
          @ store e 4 (mErrorCode a) @ d))"

text \<open>
  The constructor from a payload. It asserts 12 bytes, reads a header of 16, and then as many bytes as
  the header announces, whether or not the payload has them: reading past the payload has no result.
\<close>

definition accessor_fromRaw :: "endian \<Rightarrow> u8 list \<Rightarrow> CDataAccessor option" where
  "accessor_fromRaw e bs =
     (if length bs < 12 then None
      else if length bs < 16 then None
      else let sz = load e (take 4 (drop 8 bs)) :: u32;
               a = \<lparr>mOperation = load e (take 4 bs), mChannelID = load e (take 4 (drop 4 bs)), mDataSize = sz,
                    mErrorCode = load e (take 4 (drop 12 bs)), mpData = None\<rparr>
        in if sz = 0 then Some a
           else if length bs < 16 + unat sz then None
           else Some (a\<lparr>mpData := Some (take (unat sz) (drop 16 bs))\<rparr>))"

section \<open>Well-formed messages\<close>

definition accessor_wf :: "CDataAccessor \<Rightarrow> bool" where
  "accessor_wf a \<longleftrightarrow> (case mpData a of None \<Rightarrow> mDataSize a = 0
     | Some d \<Rightarrow> d \<noteq> [] \<and> length d = unat (mDataSize a))"

lemma accessor_wf_simps [simp]:
  "accessor_wf accessor_new" "accessor_wf (accessor_resetAll a)" "accessor_wf (accessor_resetData a)"
  "accessor_wf (setChannelID n a) = accessor_wf a" "accessor_wf (setOpCode n a) = accessor_wf a"
  "accessor_wf (setErrorCode n a) = accessor_wf a"
  by (simp_all add: accessor_wf_def accessor_new_def accessor_resetAll_def accessor_resetData_def
      setChannelID_def setOpCode_def setErrorCode_def split: option.split)

lemma accessor_wf_setData:
  "accessor_wf a \<Longrightarrow> length bs < 2 ^ 32 \<Longrightarrow> accessor_wf (accessor_setData bs a)"
  by (simp add: accessor_wf_def accessor_setData_def unsigned_of_nat take_bit_nat_eq_self)

lemma accessor_fields [simp]:
  "mOperation (setOpCode n a) = n" "mChannelID (setOpCode n a) = mChannelID a" "mDataSize (setOpCode n a) = mDataSize a"
  "mErrorCode (setOpCode n a) = mErrorCode a" "mpData (setOpCode n a) = mpData a"
  "mOperation (setErrorCode n a) = mOperation a" "mChannelID (setErrorCode n a) = mChannelID a"
  "mDataSize (setErrorCode n a) = mDataSize a" "mErrorCode (setErrorCode n a) = n" "mpData (setErrorCode n a) = mpData a"
  "mOperation (setChannelID n a) = mOperation a" "mChannelID (setChannelID n a) = n"
  "mDataSize (setChannelID n a) = mDataSize a" "mErrorCode (setChannelID n a) = mErrorCode a" "mpData (setChannelID n a) = mpData a"
  "mOperation (accessor_resetData a) = mOperation a" "mChannelID (accessor_resetData a) = mChannelID a"
  "mDataSize (accessor_resetData a) = 0" "mErrorCode (accessor_resetData a) = mErrorCode a" "mpData (accessor_resetData a) = None"
  "mOperation (accessor_setData bs a) = mOperation a" "mChannelID (accessor_setData bs a) = mChannelID a"
  "mErrorCode (accessor_setData bs a) = mErrorCode a"
  by (simp_all add: setOpCode_def setErrorCode_def setChannelID_def accessor_resetData_def accessor_setData_def)

lemma accessor_bytes_wf: "accessor_wf a \<Longrightarrow> accessor_bytes a = Some (case mpData a of None \<Rightarrow> [] | Some d \<Rightarrow> d)"
  by (auto simp: accessor_wf_def accessor_bytes_def split: option.splits)

lemma length_accessor_bytes: "accessor_bytes a = Some d \<Longrightarrow> length d = unat (mDataSize a)"
  by (auto simp: accessor_bytes_def split: option.splits if_splits)

lemma accessor_copy_wf: "accessor_wf a \<Longrightarrow> accessor_copy a = Some a"
  by (cases a) (auto simp: accessor_copy_def accessor_bytes_wf accessor_wf_def split: option.splits)

lemma take_drop_words:
  assumes "length a = 4" "length b = 4" "length c = 4" "length d = 4"
  shows "take 4 (a @ b @ c @ d @ x) = a" "take 4 (drop 4 (a @ b @ c @ d @ x)) = b"
    "take 4 (drop 8 (a @ b @ c @ d @ x)) = c" "take 4 (drop 12 (a @ b @ c @ d @ x)) = d"
    "drop 16 (a @ b @ c @ d @ x) = x"
  using assms by simp_all

lemma accessor_raw_roundtrip:
  assumes "accessor_wf a"
  obtains bs where "copyToRawArray e a = Some bs" "length bs = 16 + unat (mDataSize a)"
    "accessor_fromRaw e (bs @ extra) = Some a"
proof -
  define d where "d = (case mpData a of None \<Rightarrow> [] | Some d \<Rightarrow> d)"
  define bs where "bs = store e 4 (mOperation a) @ store e 4 (mChannelID a) @ store e 4 (mDataSize a)
    @ store e 4 (mErrorCode a) @ d"
  have c: "copyToRawArray e a = Some bs"
    using assms by (simp add: copyToRawArray_def accessor_bytes_wf bs_def d_def)
  have len: "length d = unat (mDataSize a)" "d = [] \<longleftrightarrow> mDataSize a = 0"
    using assms by (auto simp: d_def accessor_wf_def unat_eq_0 split: option.splits)
  have w: "take 4 (bs @ extra) = store e 4 (mOperation a)" "take 4 (drop 4 (bs @ extra)) = store e 4 (mChannelID a)"
    "take 4 (drop 8 (bs @ extra)) = store e 4 (mDataSize a)" "take 4 (drop 12 (bs @ extra)) = store e 4 (mErrorCode a)"
    "drop 16 (bs @ extra) = d @ extra"
    by (simp_all add: bs_def take_drop_words)
  have "accessor_fromRaw e (bs @ extra) = Some a"
  proof (cases "mDataSize a = 0")
    case True
    then show ?thesis
      using assms by (cases a) (auto simp: accessor_fromRaw_def w load_store Let_def accessor_wf_def bs_def split: option.splits)
  next
    case False
    have "mpData a = Some d" using False assms by (auto simp: d_def accessor_wf_def split: option.splits)
    with False len show ?thesis
      by (cases a) (simp add: accessor_fromRaw_def w load_store Let_def, simp add: bs_def load_store)
  qed
  then show thesis
    using that [OF c] len(1) by (simp add: bs_def)
qed

text \<open>
  A message copied to a raw array is read back from it as the same message, also
  when more bytes follow, and copying it makes an equal message.
\<close>

theorem client_message_roundtrip:
  assumes "accessor_wf a"
  shows "\<exists>bs. copyToRawArray e a = Some bs \<and> of_nat (length bs) = getObjectSize a
    \<and> accessor_fromRaw e (bs @ extra) = Some a \<and> accessor_copy a = Some a"
proof -
  obtain bs where bs: "copyToRawArray e a = Some bs" "length bs = 16 + unat (mDataSize a)"
    "accessor_fromRaw e (bs @ extra) = Some a"
    using accessor_raw_roundtrip [OF assms, of e extra] by blast
  then have "of_nat (length bs) = getObjectSize a" by (simp add: getObjectSize_def)
  with bs accessor_copy_wf [OF assms] show ?thesis by blast
qed

theorem client_message_roundtrip_witness:
  "\<exists>bs. copyToRawArray BigEndian (accessor_setData [1, 2, 3] accessor_new) = Some bs
    \<and> accessor_fromRaw BigEndian (bs @ [9]) = Some (accessor_setData [1, 2, 3] accessor_new)"
  using client_message_roundtrip [of "accessor_setData [1, 2, 3] accessor_new" BigEndian "[9]"]
  by (auto simp: accessor_wf_setData)

end
