(* ===== verification/L1Registry.thy ===== *)
theory L1Registry
  imports ChannelAllocator DataAccessor
begin

text \<open>
  The state of \<^verbatim>\<open>L1InterfaceStub\<close> (\<^verbatim>\<open>L1/L1InterfaceStub.hpp\<close>, \<^verbatim>\<open>L1/private/L1InterfaceStub.cpp\<close>) and its
  operations on the table of channels and the table of requested channels, and the two ways it sends:
  a service message to the peer through the service channel, and a notification to a client through
  the IPC. The outcome of each IPC request is a function of its identifier in the state, so it is
  arbitrary; what was accepted is logged.
\<close>

section \<open>State\<close>

type_synonym DirectionID = int

datatype tChannelState = E_UNDEFINED | E_TRANSITION_CLIENT | E_TRANSITION_AGENT | E_OPERATIONAL

record tL1ChannelInfo =
  ci_upper :: u64
  ci_lower :: u64
  ci_state :: tChannelState
  ci_type :: u32
  mpSourceAgent :: "addr option"
  mpTargetAgent :: "addr option"
  ci_clientDir :: DirectionID

record tRequestedChannelInfo =
  rq_type :: u32
  rq_state :: tChannelState
  rq_clientDir :: DirectionID

datatype sc_event = ConnectionEstablished | ConnectionLost

record l1_state = l0_state +
  mL1ChannelRegistry :: "u32 \<rightharpoonup> tL1ChannelInfo"
  mRequestedMap :: "u32 \<rightharpoonup> tRequestedChannelInfo"
  mClientDirections :: "DirectionID list"
  mRequestId :: u32
  ipc_result :: "u32 \<Rightarrow> ErrorCode"
  ipc_log :: "(DirectionID \<times> u8 list) list"
  timeout_log :: "(u32 \<times> u32) list"
  sc_log :: "sc_event list"
  frames_unlocked :: bool

text \<open>The process after start-up; \<^verbatim>\<open>ipc\<close> are the outcomes of the IPC requests to come.\<close>

definition l1_init :: "(u32 \<Rightarrow> ErrorCode) \<Rightarrow> l1_state" where
  "l1_init ipc = \<lparr>sourceAgents = Map.empty, sources = Map.empty, targetAgents = Map.empty, targets = Map.empty,
     free_addr = 0, firstFlag = True, mRegistry = (\<lambda>_. []), tx_destroyed = False, mTargetMap = [],
     rx_destroyed = False, tfq = \<lparr>mQueue = [], mTransmitStartTimes = Map.empty\<rparr>, qos = Map.empty,
     mL1ChannelRegistry = Map.empty, mRequestedMap = Map.empty, mClientDirections = [], mRequestId = 1,
     ipc_result = ipc, ipc_log = [], timeout_log = [], sc_log = [], frames_unlocked = False\<rparr>"

definition MsgIdGen_next :: "l1_state \<Rightarrow> u32 \<times> l1_state" where
  "MsgIdGen_next w = (mRequestId w, w\<lparr>mRequestId := mRequestId w + 2\<rparr>)"

text \<open>\<^verbatim>\<open>CIpc::asyncRequest\<close> of the next message identifier.\<close>

definition ipc_asyncRequest :: "u8 list \<Rightarrow> DirectionID \<Rightarrow> l1_state \<Rightarrow> ErrorCode \<times> l1_state" where
  "ipc_asyncRequest bs dir w =
     (let (id, w) = MsgIdGen_next w; r = ipc_result w id
      in (r, if isNoError r then w\<lparr>ipc_log := ipc_log w @ [(dir, bs)]\<rparr> else w))"

definition timeout_addSubscriber :: "u32 \<Rightarrow> u32 \<Rightarrow> l1_state \<Rightarrow> l1_state" where
  "timeout_addSubscriber req channel w = w\<lparr>timeout_log := timeout_log w @ [(req, channel)]\<rparr>"

definition OnConnection :: "DirectionID \<Rightarrow> l1_state \<Rightarrow> l1_state" where
  "OnConnection dirId w = w\<lparr>mClientDirections := mClientDirections w @ [dirId]\<rparr>"

text \<open>
  \<^verbatim>\<open>std::remove\<close> moves the other elements to the front and returns the new end, which the code drops:
  the vector keeps its length and, behind the moved elements, its old ones.
\<close>

definition std_remove :: "'a \<Rightarrow> 'a list \<Rightarrow> 'a list" where
  "std_remove x xs = (let ys = filter (\<lambda>y. y \<noteq> x) xs in ys @ drop (length ys) xs)"

definition OnConnectionLost :: "DirectionID \<Rightarrow> l1_state \<Rightarrow> l1_state" where
  "OnConnectionLost dirId w = w\<lparr>mClientDirections := std_remove dirId (mClientDirections w)\<rparr>"

section \<open>Sending\<close>

text \<open>
  The first free buffer of the channel's source agent takes the message. The agent pointer of a
  registry entry made by \<^verbatim>\<open>operator[]\<close> is null.
\<close>

definition fill_channel ::
  "u32 \<Rightarrow> u8 list \<Rightarrow> u32 \<Rightarrow> l1_state \<Rightarrow> (ErrorCode \<times> l1_state) option" where
  "fill_channel channel bs sz w = do {
     info \<leftarrow> mL1ChannelRegistry w channel;
     buf \<leftarrow> reserveSize sz Buffer_new;
     buf \<leftarrow> fill_data bs (setFilledSize sz buf);
     agent \<leftarrow> mpSourceAgent info;
     (err, _, w) \<leftarrow> CSourceAgent_fillBuffer agent buf w;
     Some (err, w) }"

definition L1_sendData :: "CDataAccessor \<Rightarrow> l1_state \<Rightarrow> (ErrorCode \<times> l1_state) option" where
  "L1_sendData accessor w =
     (case mL1ChannelRegistry w (mChannelID accessor) of
        None \<Rightarrow> Some (ERROR_NOT_FOUND, w)
      | Some _ \<Rightarrow> do {
          cassert (unat (mDataSize accessor) \<le> MAX_SIZE);
          bs \<leftarrow> accessor_bytes accessor;
          fill_channel (mChannelID accessor) bs (mDataSize accessor) w })"

text \<open>
  A service message: the length of the whole message in 16 bits, the four header words in network
  order and the data as they are.
\<close>

definition service_bytes :: "endian \<Rightarrow> CDataAccessor \<Rightarrow> u8 list option" where
  "service_bytes e accessor = do {
     bs \<leftarrow> accessor_bytes accessor;
     Some (store e 2 (hton16 e (ucast (getObjectSize accessor + 2))) @ store e 4 (hton32 e (mOperation accessor))
       @ store e 4 (hton32 e (mChannelID accessor)) @ store e 4 (hton32 e (mDataSize accessor))
       @ store e 4 (hton32 e (mErrorCode accessor)) @ bs) }"

definition sendRequest :: "endian \<Rightarrow> CDataAccessor \<Rightarrow> l1_state \<Rightarrow> (ErrorCode \<times> l1_state) option" where
  "sendRequest e accessor w = do {
     bs \<leftarrow> service_bytes e accessor;
     fill_channel CA_SERVICE_CHANNEL bs (getObjectSize accessor + 2) w }"

definition sendIpcNotification :: "endian \<Rightarrow> CDataAccessor \<Rightarrow> DirectionID \<Rightarrow> l1_state \<Rightarrow> l1_state option" where
  "sendIpcNotification e accessor dirId w = do {
     cassert (dirId \<noteq> -1);
     bs \<leftarrow> copyToRawArray e accessor;
     Some (snd (ipc_asyncRequest bs dirId w)) }"

section \<open>The tables\<close>

text \<open>
  The priority goes through an 8-bit parameter of the lower layer and then indexes a vector of
  three lists.
\<close>

definition prio_of_u32 :: "u32 \<Rightarrow> TChannelPriority option" where
  "prio_of_u32 p =
     (let n = unat (ucast p :: u8) in
      if n = 0 then Some eSafetyCritical else if n = 1 then Some eRealTime else if n = 2 then Some ePlainData else None)"

definition allocateChannelLocally ::
  "u32 \<Rightarrow> tRequestedChannelInfo \<Rightarrow> l1_state \<Rightarrow> (ErrorCode \<times> l1_state) option" where
  "allocateChannelLocally channel req_info w = do {
     cassert (mL1ChannelRegistry w channel = None);
     cassert (rq_state req_info = E_TRANSITION_AGENT \<or> rq_state req_info = E_TRANSITION_CLIENT);
     prio \<leftarrow> prio_of_u32 (rq_type req_info);
     (result, sa, ta, w) \<leftarrow> allocateChannel prio channel 0xFFFFFFFF 0 w;
     if isNoError result
     then Some (result, w\<lparr>mL1ChannelRegistry := (mL1ChannelRegistry w)(channel \<mapsto>
         \<lparr>ci_upper = 0xFFFFFFFF, ci_lower = 0, ci_state = rq_state req_info, ci_type = rq_type req_info,
          mpSourceAgent = sa, mpTargetAgent = ta, ci_clientDir = rq_clientDir req_info\<rparr>)\<rparr>)
     else Some (result, w) }"

definition beginAllocateChannel ::
  "u32 \<Rightarrow> u32 \<Rightarrow> bool \<Rightarrow> DirectionID \<Rightarrow> l1_state \<Rightarrow> (ErrorCode \<times> DirectionID \<times> l1_state) option" where
  "beginAllocateChannel prio channel client_side dirId w =
     (if mL1ChannelRegistry w channel \<noteq> None then Some (ERROR_CHANNEL_BUSY, dirId, w)
      else case mRequestedMap w channel of
        None \<Rightarrow> do {
          cassert ((client_side \<and> dirId \<noteq> -1) \<or> (\<not> client_side \<and> dirId = -1));
          Some (if client_side then NO_ERROR else ERROR_DEFERRED, dirId,
            w\<lparr>mRequestedMap := (mRequestedMap w)(channel \<mapsto>
              \<lparr>rq_type = prio, rq_state = (if client_side then E_TRANSITION_CLIENT else E_TRANSITION_AGENT),
               rq_clientDir = dirId\<rparr>)\<rparr>) }
      | Some info \<Rightarrow>
         if \<not> client_side \<or> rq_state info = E_TRANSITION_AGENT
         then
           (let info = (if client_side then info\<lparr>rq_clientDir := dirId\<rparr> else info);
                dirId = rq_clientDir info
            in do {
              (result, w) \<leftarrow> allocateChannelLocally channel info
                (w\<lparr>mRequestedMap := (mRequestedMap w)(channel \<mapsto> info)\<rparr>);
              cassert (result \<noteq> ERROR_DEFERRED);
              Some (result, dirId, w\<lparr>mRequestedMap := (mRequestedMap w)(channel := None)\<rparr>) })
         else Some (ERROR_ALLOCATION_IN_PROGRESS, dirId, w))"

definition endAllocateChannel ::
  "u32 \<Rightarrow> DirectionID \<Rightarrow> l1_state \<Rightarrow> ErrorCode \<times> DirectionID \<times> l1_state" where
  "endAllocateChannel channel dirId w =
     (case mL1ChannelRegistry w channel of
        Some info \<Rightarrow>
          (if ci_state info = E_TRANSITION_AGENT then ERROR_DEFERRED else NO_ERROR, ci_clientDir info,
           w\<lparr>mL1ChannelRegistry := (mL1ChannelRegistry w)(channel \<mapsto> info\<lparr>ci_state := E_OPERATIONAL\<rparr>)\<rparr>)
      | None \<Rightarrow> (ERROR_NOT_FOUND, dirId, w))"

definition failAllocateChannel :: "u32 \<Rightarrow> DirectionID \<Rightarrow> l1_state \<Rightarrow> (DirectionID \<times> l1_state) option" where
  "failAllocateChannel channel dirId w =
     (let (dirId, w) = (case mRequestedMap w channel of
          Some info \<Rightarrow> (rq_clientDir info, w\<lparr>mRequestedMap := (mRequestedMap w)(channel := None)\<rparr>)
        | None \<Rightarrow> (dirId, w))
      in case mL1ChannelRegistry w channel of
          Some info \<Rightarrow> do {
            (_, w) \<leftarrow> allocator_deallocateChannel channel w;
            Some (ci_clientDir info, w\<lparr>mL1ChannelRegistry := (mL1ChannelRegistry w)(channel := None)\<rparr>) }
        | None \<Rightarrow> Some (dirId, w))"

definition L1_deallocateChannel :: "u32 \<Rightarrow> l1_state \<Rightarrow> (ErrorCode \<times> l1_state) option" where
  "L1_deallocateChannel channel w =
     (if mL1ChannelRegistry w channel \<noteq> None then allocator_deallocateChannel channel w
      else Some (ERROR_NOT_FOUND, w))"

section \<open>Connection to the peer\<close>

text \<open>
  \<^verbatim>\<open>OnConnected\<close> opens the service channel (its error is not looked at), needs a carrier adapter and
  unlocks it, and tells the system controller.
\<close>

definition L1_OnConnected :: "bool \<Rightarrow> l1_state \<Rightarrow> l1_state option" where
  "L1_OnConnected has_carrier w = do {
     (_, w) \<leftarrow> allocateChannelLocally CA_SERVICE_CHANNEL
       \<lparr>rq_type = 0, rq_state = E_TRANSITION_CLIENT, rq_clientDir = -1\<rparr> w;
     cassert has_carrier;
     Some (w\<lparr>frames_unlocked := True, sc_log := sc_log w @ [ConnectionEstablished]\<rparr>) }"

abbreviation E_ALLOCATE_CHANNEL :: u32 where "E_ALLOCATE_CHANNEL \<equiv> 1"
abbreviation E_DEALLOCATE_CHANNEL :: u32 where "E_DEALLOCATE_CHANNEL \<equiv> 2"
abbreviation E_SEND_DATA :: u32 where "E_SEND_DATA \<equiv> 3"
abbreviation E_ALLOCATE_CHANNEL_RESP :: u32 where "E_ALLOCATE_CHANNEL_RESP \<equiv> 5"
abbreviation E_DEALLOCATE_CHANNEL_RESP :: u32 where "E_DEALLOCATE_CHANNEL_RESP \<equiv> 6"
abbreviation E_RECEIVE_DATA_NTF :: u32 where "E_RECEIVE_DATA_NTF \<equiv> 9"
abbreviation E_CONNECTION_LOST_NTF :: u32 where "E_CONNECTION_LOST_NTF \<equiv> 10"
abbreviation E_DEALLOCATE_CHANNEL_NTF :: u32 where "E_DEALLOCATE_CHANNEL_NTF \<equiv> 11"
abbreviation E_CONNECT_DEVICE :: u32 where "E_CONNECT_DEVICE \<equiv> 12"
abbreviation E_DISCONNECT_DEVICE :: u32 where "E_DISCONNECT_DEVICE \<equiv> 13"
abbreviation E_GET_DEVICE_LIST :: u32 where "E_GET_DEVICE_LIST \<equiv> 14"
abbreviation E_GET_CONNECTION_ADDR :: u32 where "E_GET_CONNECTION_ADDR \<equiv> 100"
abbreviation E_DEALLOCATE_CHANNEL_WATCHDOG :: u32 where "E_DEALLOCATE_CHANNEL_WATCHDOG \<equiv> 200"
abbreviation ERR_TIMEOUT_CODE :: u32 where "ERR_TIMEOUT_CODE \<equiv> 7"

fun notify_all :: "u8 list \<Rightarrow> DirectionID list \<Rightarrow> l1_state \<Rightarrow> l1_state" where
  "notify_all bs [] w = w"
| "notify_all bs (d # ds) w = notify_all bs ds (snd (ipc_asyncRequest bs d w))"

definition L1_OnDisconnected :: "endian \<Rightarrow> l1_state \<Rightarrow> l1_state option" where
  "L1_OnDisconnected e w = do {
     bs \<leftarrow> copyToRawArray e (setOpCode E_CONNECTION_LOST_NTF accessor_new);
     Some (notify_all bs (mClientDirections w) (w\<lparr>sc_log := sc_log w @ [ConnectionLost]\<rparr>)) }"

end
