(* ===== verification/L1Stub.thy ===== *)
theory L1Stub
  imports L1Registry
begin

text \<open>
  The message handlers of \<^verbatim>\<open>L1InterfaceStub\<close>: requests of client processes, service messages of the
  peer, timeouts, and \<^verbatim>\<open>receiveData\<close>, which the receiving side of every channel calls. The three
  client requests that only ask \<^verbatim>\<open>CConnectivityAgent\<close> for something (disconnecting, the device
  list, the connection address) are the parameter \<^verbatim>\<open>agent_request\<close>.
\<close>

section \<open>Requests of clients\<close>

text \<open>A handler returns whether to answer, and the accessor that is the answer.\<close>

type_synonym client_result = "(bool \<times> CDataAccessor \<times> l1_state) option"

text \<open>\<^verbatim>\<open>memcpy(&prio, data, size)\<close> onto a word that was zero.\<close>

definition load_priority :: "endian \<Rightarrow> CDataAccessor \<Rightarrow> u32 option" where
  "load_priority e accessor = do {
     bs \<leftarrow> accessor_bytes accessor;
     if length bs \<le> 4 then Some (load e (bs @ replicate (4 - length bs) 0)) else None }"

definition processClientConnectionRequest :: "CDataAccessor \<Rightarrow> DirectionID \<Rightarrow> l1_state \<Rightarrow> client_result" where
  "processClientConnectionRequest accessor dirId w = Some (False, accessor, w)"

definition processClientAllocateRequest ::
  "endian \<Rightarrow> CDataAccessor \<Rightarrow> DirectionID \<Rightarrow> l1_state \<Rightarrow> client_result" where
  "processClientAllocateRequest e accessor dirId w =
     (let channel = mChannelID accessor in
      if channel = CA_SERVICE_CHANNEL
      then Some (True, setErrorCode ERROR_CHANNEL_BUSY (accessor_resetData accessor), w)
      else do {
        prio \<leftarrow> load_priority e accessor;
        (err, _, w) \<leftarrow> beginAllocateChannel prio channel True dirId w;
        let accessor = setErrorCode err accessor;
        (err, w) \<leftarrow> (if isNoError err then sendRequest e accessor w else Some (err, w));
        if isNoError err then Some (False, accessor, w)
        else do {
          cassert (err \<noteq> ERROR_DEFERRED);
          Some (True, setErrorCode err (accessor_resetData accessor), w) } })"

definition processClientDeallocateRequest ::
  "endian \<Rightarrow> CDataAccessor \<Rightarrow> DirectionID \<Rightarrow> l1_state \<Rightarrow> client_result" where
  "processClientDeallocateRequest e accessor dirId w =
     (let channel = mChannelID accessor in
      if channel = CA_SERVICE_CHANNEL then Some (False, accessor, w)
      else case mL1ChannelRegistry w channel of
        None \<Rightarrow> Some (False, accessor, w)
      | Some info \<Rightarrow> do {
          (_, w) \<leftarrow> sendRequest e accessor
            (w\<lparr>mL1ChannelRegistry := (mL1ChannelRegistry w)(channel \<mapsto> info\<lparr>ci_state := E_TRANSITION_CLIENT\<rparr>)\<rparr>);
          Some (False, accessor, timeout_addSubscriber (mOperation accessor) channel w) })"

definition processClientDeallocateByWD ::
  "endian \<Rightarrow> CDataAccessor \<Rightarrow> DirectionID \<Rightarrow> l1_state \<Rightarrow> client_result" where
  "processClientDeallocateByWD e accessor dirId w =
     (let channel = mChannelID accessor in
      if channel = CA_SERVICE_CHANNEL then Some (True, setErrorCode ERROR_OTHER accessor, w)
      else case mL1ChannelRegistry w channel of
        None \<Rightarrow> Some (True, setErrorCode ERROR_NOT_FOUND accessor, w)
      | Some info \<Rightarrow>
         (let accessor = setOpCode E_DEALLOCATE_CHANNEL accessor in do {
            (_, w) \<leftarrow> sendRequest e accessor
              (w\<lparr>mL1ChannelRegistry := (mL1ChannelRegistry w)(channel \<mapsto>
                info\<lparr>ci_clientDir := dirId, ci_state := E_TRANSITION_CLIENT\<rparr>)\<rparr>);
            Some (True, setErrorCode 0 accessor, timeout_addSubscriber (mOperation accessor) channel w) }))"

definition processClientSendRequest :: "CDataAccessor \<Rightarrow> DirectionID \<Rightarrow> l1_state \<Rightarrow> client_result" where
  "processClientSendRequest accessor dirId w =
     (if mChannelID accessor \<noteq> CA_SERVICE_CHANNEL
      then (case L1_sendData accessor w of None \<Rightarrow> None | Some (_, w) \<Rightarrow> Some (False, accessor, w))
      else Some (False, accessor, w))"

definition client_callback ::
  "endian \<Rightarrow> (CDataAccessor \<Rightarrow> DirectionID \<Rightarrow> l1_state \<Rightarrow> client_result) \<Rightarrow> u32 \<Rightarrow>
   (CDataAccessor \<Rightarrow> DirectionID \<Rightarrow> l1_state \<Rightarrow> client_result) option" where
  "client_callback e agent_request opcode =
     (if opcode = E_ALLOCATE_CHANNEL then Some (processClientAllocateRequest e)
      else if opcode = E_DEALLOCATE_CHANNEL then Some (processClientDeallocateRequest e)
      else if opcode = E_SEND_DATA then Some processClientSendRequest
      else if opcode = E_GET_CONNECTION_ADDR then Some agent_request
      else if opcode = E_DEALLOCATE_CHANNEL_WATCHDOG then Some (processClientDeallocateByWD e)
      else if opcode = E_CONNECT_DEVICE then Some processClientConnectionRequest
      else if opcode = E_DISCONNECT_DEVICE then Some agent_request
      else if opcode = E_GET_DEVICE_LIST then Some agent_request
      else None)"

definition dispatch_client ::
  "endian \<Rightarrow> (CDataAccessor \<Rightarrow> DirectionID \<Rightarrow> l1_state \<Rightarrow> client_result) \<Rightarrow> u8 list \<Rightarrow> DirectionID \<Rightarrow>
   l1_state \<Rightarrow> client_result" where
  "dispatch_client e agent_request pPayload dirId w = do {
     pReq \<leftarrow> accessor_fromRaw e pPayload;
     (case client_callback e agent_request (mOperation pReq) of
        Some callback \<Rightarrow> callback pReq dirId w
      | None \<Rightarrow> Some (True, setErrorCode ERROR_NOT_FOUND (accessor_resetData pReq), w)) }"

text \<open>The response, if any; a response that does not fit the caller's buffer is dropped.\<close>

definition L1_OnRequest ::
  "endian \<Rightarrow> (CDataAccessor \<Rightarrow> DirectionID \<Rightarrow> l1_state \<Rightarrow> client_result) \<Rightarrow> u8 list \<Rightarrow> u32 \<Rightarrow> DirectionID \<Rightarrow>
   l1_state \<Rightarrow> (u8 list \<times> l1_state) option" where
  "L1_OnRequest e agent_request pPayload savedBufferSize dirId w = do {
     (sendResult, pReq, w) \<leftarrow> dispatch_client e agent_request pPayload dirId w;
     if sendResult \<and> getObjectSize pReq \<le> savedBufferSize
     then do { bs \<leftarrow> copyToRawArray e pReq; Some (bs, w) }
     else Some ([], w) }"

definition L1_OnAsyncRequest ::
  "endian \<Rightarrow> (CDataAccessor \<Rightarrow> DirectionID \<Rightarrow> l1_state \<Rightarrow> client_result) \<Rightarrow> u8 list \<Rightarrow> DirectionID \<Rightarrow>
   l1_state \<Rightarrow> l1_state option" where
  "L1_OnAsyncRequest e agent_request pPayload dirId w =
     map_option (\<lambda>(_, _, w). w) (dispatch_client e agent_request pPayload dirId w)"

section \<open>Service messages of the peer\<close>

text \<open>A service handler keeps the accessor it changed, because the caller's loop reuses it.\<close>

type_synonym service_result = "(CDataAccessor \<times> l1_state) option"

text \<open>A word read through a pointer to the data.\<close>

definition load_data_word :: "endian \<Rightarrow> CDataAccessor \<Rightarrow> u32 option" where
  "load_data_word e accessor =
     (case mpData accessor of
        None \<Rightarrow> None
      | Some d \<Rightarrow> if 4 \<le> length d then Some (load e (take 4 d)) else None)"

definition processServiceAllocateRequest :: "endian \<Rightarrow> CDataAccessor \<Rightarrow> l1_state \<Rightarrow> service_result" where
  "processServiceAllocateRequest e accessor w = do {
     let channel = mChannelID accessor;
     prio \<leftarrow> load_data_word e accessor;
     let err = mErrorCode accessor;
     let accessor = accessor_resetData (setOpCode E_ALLOCATE_CHANNEL_RESP accessor);
     if \<not> isNoError err
     then do {
       (dirId, w) \<leftarrow> failAllocateChannel channel (-1) w;
       let accessor = setErrorCode err accessor;
       w \<leftarrow> (if dirId \<noteq> -1 then sendIpcNotification e accessor dirId w else Some w);
       Some (accessor, w) }
     else do {
       (err, dirId, w) \<leftarrow> beginAllocateChannel prio channel False (-1) w;
       if err = ERROR_DEFERRED
       then Some (accessor, timeout_addSubscriber E_ALLOCATE_CHANNEL channel w)
       else do {
         let accessor = setErrorCode err accessor;
         (_, w) \<leftarrow> sendRequest e accessor w;
         w \<leftarrow> (if \<not> isNoError err \<and> dirId \<noteq> -1 then sendIpcNotification e accessor dirId w else Some w);
         Some (accessor, w) } } }"

definition processServiceDeallocateRequest :: "endian \<Rightarrow> CDataAccessor \<Rightarrow> l1_state \<Rightarrow> service_result" where
  "processServiceDeallocateRequest e accessor w = do {
     let channel = mChannelID accessor;
     (ret, w) \<leftarrow> L1_deallocateChannel channel w;
     let accessor = accessor_setData (store e 4 ret) (setOpCode E_DEALLOCATE_CHANNEL_RESP accessor);
     (_, w) \<leftarrow> sendRequest e accessor w;
     if isNoError ret
     then (case mL1ChannelRegistry w channel of
         None \<Rightarrow> Some (accessor, w)
       | Some info \<Rightarrow> do {
           let accessor = setOpCode E_DEALLOCATE_CHANNEL_NTF accessor;
           bs \<leftarrow> copyToRawArray e accessor;
           Some (accessor, snd (ipc_asyncRequest bs (ci_clientDir info)
             (w\<lparr>mL1ChannelRegistry := (mL1ChannelRegistry w)(channel := None)\<rparr>))) })
     else Some (accessor, w) }"

definition processServiceAllocateResponse :: "endian \<Rightarrow> CDataAccessor \<Rightarrow> l1_state \<Rightarrow> service_result" where
  "processServiceAllocateResponse e accessor w = do {
     let channel = mChannelID accessor;
     let err = mErrorCode accessor;
     (err, dirId, accessor, w) \<leftarrow>
       (if isNoError err
        then (let (err, dirId, w) = endAllocateChannel channel (-1) w in
          if err = ERROR_DEFERRED
          then do {
            let accessor = setErrorCode 0 accessor;
            (err, w) \<leftarrow> sendRequest e accessor w;
            Some (err, dirId, accessor, w) }
          else Some (err, dirId, accessor, w))
        else Some (err, -1, accessor, w));
     (dirId, accessor, w) \<leftarrow>
       (if \<not> isNoError err \<or> dirId = -1
        then do {
          (dirId, w) \<leftarrow> failAllocateChannel channel dirId w;
          Some (dirId, setErrorCode err accessor, w) }
        else Some (dirId, accessor, w));
     w \<leftarrow> (if dirId \<noteq> -1 then sendIpcNotification e accessor dirId w else Some w);
     Some (accessor, w) }"

definition processServiceDeallocateResponse :: "endian \<Rightarrow> CDataAccessor \<Rightarrow> l1_state \<Rightarrow> service_result" where
  "processServiceDeallocateResponse e accessor w = do {
     let channel = mChannelID accessor;
     ret \<leftarrow> load_data_word e accessor;
     if isNoError ret
     then do {
       (ret, w) \<leftarrow> L1_deallocateChannel channel w;
       if isNoError ret
       then (case mL1ChannelRegistry w channel of
           None \<Rightarrow> Some (accessor, w)
         | Some info \<Rightarrow> do {
             bs \<leftarrow> copyToRawArray e accessor;
             Some (accessor, snd (ipc_asyncRequest bs (ci_clientDir info)
               (w\<lparr>mL1ChannelRegistry := (mL1ChannelRegistry w)(channel := None)\<rparr>))) })
       else Some (accessor, w) }
     else Some (accessor, w) }"

definition service_callback :: "endian \<Rightarrow> u32 \<Rightarrow> (CDataAccessor \<Rightarrow> l1_state \<Rightarrow> service_result) option" where
  "service_callback e opcode =
     (if opcode = E_ALLOCATE_CHANNEL then Some (processServiceAllocateRequest e)
      else if opcode = E_DEALLOCATE_CHANNEL then Some (processServiceDeallocateRequest e)
      else if opcode = E_ALLOCATE_CHANNEL_RESP then Some (processServiceAllocateResponse e)
      else if opcode = E_DEALLOCATE_CHANNEL_RESP then Some (processServiceDeallocateResponse e)
      else None)"

section \<open>Received data\<close>

text \<open>Reading \<^verbatim>\<open>n\<close> bytes of a buffer at an offset; past the initialised bytes there is no result.\<close>

definition read_at :: "u8 list \<Rightarrow> nat \<Rightarrow> nat \<Rightarrow> u8 list option" where
  "read_at d offset n = (if offset + n \<le> length d then Some (take n (drop offset d)) else None)"

definition read_word :: "endian \<Rightarrow> u8 list \<Rightarrow> nat \<Rightarrow> u32 option" where
  "read_word e d offset = map_option (\<lambda>bs. ntoh32 e (load e bs)) (read_at d offset 4)"

text \<open>One service message at an offset: the filled accessor and the offset behind the message.\<close>

definition parse_service ::
  "endian \<Rightarrow> u8 list \<Rightarrow> nat \<Rightarrow> nat \<Rightarrow> CDataAccessor \<Rightarrow> (CDataAccessor \<times> nat) option" where
  "parse_service e d filled offset accessor = do {
     len \<leftarrow> read_at d offset 2;
     let buf_length = ntoh16 e (load e len);
     cassert (offset + unat buf_length \<le> filled);
     operation \<leftarrow> read_word e d (offset + 2);
     channel \<leftarrow> read_word e d (offset + 6);
     data_size \<leftarrow> read_word e d (offset + 10);
     error_code \<leftarrow> read_word e d (offset + 14);
     bs \<leftarrow> read_at d (offset + 18) (unat data_size);
     Some (accessor_setData bs (setErrorCode error_code (setChannelID channel (setOpCode operation accessor))),
       offset + 18 + unat data_size) }"

text \<open>The loop over the messages of a buffer, at most \<^verbatim>\<open>fuel\<close> of them; every message has 18 bytes or more.\<close>

fun receive_service ::
  "nat \<Rightarrow> endian \<Rightarrow> u8 list \<Rightarrow> nat \<Rightarrow> nat \<Rightarrow> CDataAccessor \<Rightarrow> ErrorCode \<Rightarrow> l1_state \<Rightarrow> (ErrorCode \<times> l1_state) option" where
  "receive_service 0 e d filled offset accessor result w = None"
| "receive_service (Suc fuel) e d filled offset accessor result w =
     (case parse_service e d filled offset accessor of
        None \<Rightarrow> None
      | Some (accessor, offset) \<Rightarrow>
         (case (case service_callback e (mOperation accessor) of
              Some callback \<Rightarrow> map_option (\<lambda>(a, w). (NO_ERROR, a, w)) (callback accessor w)
            | None \<Rightarrow> Some (result, accessor, w)) of
            None \<Rightarrow> None
          | Some (result, accessor, w) \<Rightarrow>
              if offset < filled then receive_service fuel e d filled offset accessor result w
              else if filled = offset then Some (result, w) else None))"

text \<open>
  Data of a client channel. \<^verbatim>\<open>operator[]\<close> makes an entry with direction 0 and null agents if the channel
  is not in the table.
\<close>

definition default_channel_info :: tL1ChannelInfo where
  "default_channel_info = \<lparr>ci_upper = 0, ci_lower = 0, ci_state = E_UNDEFINED, ci_type = 0,
     mpSourceAgent = None, mpTargetAgent = None, ci_clientDir = 0\<rparr>"

definition receive_client_data :: "endian \<Rightarrow> u8 list \<Rightarrow> u32 \<Rightarrow> l1_state \<Rightarrow> (ErrorCode \<times> l1_state) option" where
  "receive_client_data e bs channel w = do {
     cassert (bs \<noteq> []);
     raw \<leftarrow> copyToRawArray e (accessor_setData bs (setChannelID channel (setOpCode E_RECEIVE_DATA_NTF accessor_new)));
     let info = (case mL1ChannelRegistry w channel of Some i \<Rightarrow> i | None \<Rightarrow> default_channel_info);
     let (ipcError, w) = ipc_asyncRequest raw (ci_clientDir info)
       (w\<lparr>mL1ChannelRegistry := (mL1ChannelRegistry w)(channel \<mapsto> info)\<rparr>);
     Some (if isNoError ipcError then NO_ERROR else ERROR_REQUEST_FAILED, w) }"

definition L1_receiveData :: "endian \<Rightarrow> Buffer \<Rightarrow> u32 \<Rightarrow> l1_state \<Rightarrow> (ErrorCode \<times> Buffer \<times> l1_state) option" where
  "L1_receiveData e buffer channel w = do {
     cassert (unat (filled_size buffer) \<le> MAX_SIZE);
     let d = (case data buffer of None \<Rightarrow> [] | Some d \<Rightarrow> d);
     (result, w) \<leftarrow>
       (if channel = CA_SERVICE_CHANNEL
        then receive_service (unat (filled_size buffer) + 1) e d (unat (filled_size buffer)) 0 accessor_new ERROR_OTHER w
        else do {
          bs \<leftarrow> read_at d 0 (unat (filled_size buffer));
          receive_client_data e bs channel w });
     Some (result, buffer, w) }"

section \<open>Timeouts\<close>

definition RequestTimeout_onTimeout :: "endian \<Rightarrow> bool \<Rightarrow> u32 \<Rightarrow> u32 \<Rightarrow> l1_state \<Rightarrow> l1_state option" where
  "RequestTimeout_onTimeout e enabled req channel w =
     (let resp = (\<lambda>opc. setErrorCode ERROR_TIMEOUT (accessor_setData (store e 4 ERR_TIMEOUT_CODE)
            (setOpCode opc (setChannelID channel accessor_new))))
      in if \<not> enabled then Some w
      else if req = E_ALLOCATE_CHANNEL
      then
        (if mL1ChannelRegistry w channel \<noteq> None then Some w
         else map_option snd (sendRequest e (resp E_ALLOCATE_CHANNEL_RESP)
           (w\<lparr>mRequestedMap := (mRequestedMap w)(channel := None)\<rparr>)))
      else if req = E_DEALLOCATE_CHANNEL
      then (case mL1ChannelRegistry w channel of
          None \<Rightarrow> Some w
        | Some info \<Rightarrow>
            (case copyToRawArray e (resp E_DEALLOCATE_CHANNEL_RESP) of
               None \<Rightarrow> None
             | Some bs \<Rightarrow> Some (snd (ipc_asyncRequest bs (ci_clientDir info) w))))
      else Some w)"

section \<open>The layer above, for the receiving side of a channel\<close>

text \<open>
  What the client of a channel has been sent: the notifications the IPC accepted, read back.
\<close>

definition client_deliveries :: "endian \<Rightarrow> l1_state \<Rightarrow> (u32 \<times> u8 list) list" where
  "client_deliveries e w = concat (map (\<lambda>(dir, raw). case accessor_fromRaw e raw of
       None \<Rightarrow> []
     | Some a \<Rightarrow> if mOperation a = E_RECEIVE_DATA_NTF
         then [(mChannelID a, case mpData a of None \<Rightarrow> [] | Some d \<Rightarrow> d)] else []) (ipc_log w))"

lemma receive_client_data_spec:
  assumes "bs \<noteq> []" "length bs < 2 ^ 32"
  shows "\<exists>r w'. receive_client_data e bs channel w = Some (r, w') \<and> r \<noteq> ERROR_RESEND_ACK
    \<and> l0_state.truncate w' = l0_state.truncate w \<and> client_deliveries e w' = (if isNoError r then client_deliveries e w @ [(channel, bs)] else client_deliveries e w)"
proof -
  define a where "a = accessor_setData bs (setChannelID channel (setOpCode E_RECEIVE_DATA_NTF accessor_new))"
  have a: "accessor_wf a" "mOperation a = E_RECEIVE_DATA_NTF" "mChannelID a = channel" "mpData a = Some bs"
    using assms by (simp_all add: a_def accessor_wf_setData) (simp_all add: accessor_setData_def)
  obtain raw where raw: "copyToRawArray e a = Some raw" "accessor_fromRaw e (raw @ []) = Some a"
    using accessor_raw_roundtrip [OF a(1)] by metis
  show ?thesis
    using assms(1) raw a
    by (simp add: receive_client_data_def a_def [symmetric] ipc_asyncRequest_def MsgIdGen_next_def Let_def
        client_deliveries_def l0_state.truncate_def isNoError_def)
qed

interpretation l1: data_sink "L1_receiveData e" "client_deliveries e" for e
proof
  fix channel :: u32 and b :: Buffer and w :: l1_state
  assume c: "channel \<noteq> CA_SERVICE_CHANNEL" and b: "buffer_wf b" "content b \<noteq> []"
  have d: "read_at (case data b of None \<Rightarrow> [] | Some d \<Rightarrow> d) 0 (unat (filled_size b)) = Some (content b)"
    using b by (auto simp: read_at_def buffer_wf_def content_def split: option.splits)
  have "length (content b) < 2 ^ 32"
    using length_content [OF b(1)] buffer_wf_size [OF b(1)] by (simp add: MAX_SIZE_def)
  from receive_client_data_spec [OF b(2) this, of e channel w] obtain r w' where
    "receive_client_data e (content b) channel w = Some (r, w')" "r \<noteq> ERROR_RESEND_ACK" "l0_state.truncate w' = l0_state.truncate w"
    "client_deliveries e w' = (if isNoError r then client_deliveries e w @ [(channel, content b)] else client_deliveries e w)"
    by blast
  then show "\<exists>r w'. L1_receiveData e b channel w = Some (r, b, w') \<and> r \<noteq> ERROR_RESEND_ACK
     \<and> l0_state.truncate w' = l0_state.truncate w \<and> client_deliveries e w' = (if isNoError r then client_deliveries e w @ [(channel, content b)] else client_deliveries e w)"
    using c d buffer_wf_size [OF b(1)] by (simp add: L1_receiveData_def)
next
  fix w w' :: l1_state
  assume "l0_state.more w = l0_state.more w'"
  then show "client_deliveries e w = client_deliveries e w'"
    by (cases w; cases w') (simp add: client_deliveries_def)
qed

section \<open>Frames of client channels\<close>

text \<open>
  C4: a frame for an open client channel is delivered to the client and then
  acknowledged, or acknowledged again without delivery, or refused, as its number says; a frame whose
  delivery the client's IPC refuses is not acknowledged and may come again. In all cases the call returns
  and the channel keeps all of its 200 buffers.
\<close>

theorem client_frame_accounted:
  assumes "target_channel_ok t a w" "channel_id f = tgt_channel (the (targets w t))" "channel_id f \<noteq> CA_SERVICE_CHANNEL"
    and "frame_wf f" "payload f \<noteq> []"
  shows "\<exists>r w'. CTarget_receiveFrame (L1_receiveData e) t f w = Some (r, w') \<and> target_channel_ok t a w'
    \<and> (case target_verdict (firstFlag w) (mCarrierReplaced (the (targets w t))) (mLastFrameNr (the (targets w t)))
          (frame_number f) of
        Deliver \<Rightarrow> r \<noteq> ERROR_RESEND_ACK \<and> client_deliveries e w' =
          (if isNoError r then client_deliveries e w @ [(channel_id f, payload f)] else client_deliveries e w)
          \<and> mLastFrameNr (the (targets w' t)) = (if isNoError r then frame_number f else mLastFrameNr (the (targets w t)))
      | AckAgain \<Rightarrow> r = ERROR_RESEND_ACK \<and> w' = w
      | Refuse \<Rightarrow> r = ERROR_WRONG_FRAME_SEQUENCE \<and> w' = w)"
proof -
  define v where "v = target_verdict (firstFlag w) (mCarrierReplaced (the (targets w t))) (mLastFrameNr (the (targets w t)))
    (frame_number f)"
  show ?thesis
  proof (cases "v = Deliver")
    case False
    from l1.receiveFrame_not_delivered [OF assms(1,2) v_def [symmetric] this, of e] assms(1) False show ?thesis
      unfolding v_def [symmetric] by (cases v) simp_all
  next
    case True
    obtain r w' tg' where d: "CTarget_receiveFrame (L1_receiveData e) t f w = Some (r, w')"
      "target_channel_ok t a w'" "r \<noteq> ERROR_RESEND_ACK" "targets w' = (targets w)(t \<mapsto> tg')"
      "isNoError r \<Longrightarrow> client_deliveries e w' = client_deliveries e w @ [(channel_id f, payload f)]
        \<and> \<not> firstFlag w' \<and> mLastFrameNr tg' = frame_number f \<and> \<not> mCarrierReplaced tg'"
      "\<not> isNoError r \<Longrightarrow> client_deliveries e w' = client_deliveries e w \<and> firstFlag w' = firstFlag w
        \<and> mLastFrameNr tg' = mLastFrameNr (the (targets w t))
        \<and> mCarrierReplaced tg' = mCarrierReplaced (the (targets w t))"
      by (rule l1.receiveFrame_delivered [OF assms(1,2) v_def [symmetric, unfolded True] assms(3,4,5), where e = e])
        (rule that; assumption)
    then show ?thesis
      unfolding v_def [symmetric] True by (cases "isNoError r") simp_all
  qed
qed

text \<open>
  Until the process has accepted its first frame, on whatever channel, a frame of any
  number is delivered; the frames before it on its channel are then acknowledged although no client
  has got them, so the sender drops them.
\<close>

theorem first_frame_any_number:
  assumes "target_channel_ok t a w" "firstFlag w" "channel_id f2 = tgt_channel (the (targets w t))"
    and "channel_id f2 \<noteq> CA_SERVICE_CHANNEL" "frame_wf f2" "payload f2 \<noteq> []"
    and "CTarget_receiveFrame (L1_receiveData e) t f2 w = Some (r, w')" "isNoError r"
    and "channel_id f1 = channel_id f2" "0 < frame_number f1" "frame_number f1 < frame_number f2"
  shows "client_deliveries e w' = client_deliveries e w @ [(channel_id f2, payload f2)]
    \<and> CTarget_receiveFrame (L1_receiveData e) t f1 w' = Some (ERROR_RESEND_ACK, w')"
proof -
  have v: "target_verdict (firstFlag w) (mCarrierReplaced (the (targets w t))) (mLastFrameNr (the (targets w t)))
    (frame_number f2) = Deliver"
    using assms(2) by (simp add: target_verdict_def)
  obtain r' w'' tg' where d: "CTarget_receiveFrame (L1_receiveData e) t f2 w = Some (r', w'')"
    "target_channel_ok t a w''" "targets w'' = (targets w)(t \<mapsto> tg')" "tgt_channel tg' = channel_id f2"
    "isNoError r' \<Longrightarrow> client_deliveries e w'' = client_deliveries e w @ [(channel_id f2, payload f2)]
      \<and> \<not> firstFlag w'' \<and> mLastFrameNr tg' = frame_number f2 \<and> \<not> mCarrierReplaced tg'"
    by (rule l1.receiveFrame_delivered [OF assms(1,3) v assms(4,5,6), where e = e]) (rule that; assumption)
  have eq: "r' = r" "w'' = w'" using d(1) assms(7) by simp_all
  note ok = d(2,3,4,5) [unfolded eq]
  have "frame_number f1 \<noteq> frame_number f2 + 1"
  proof
    assume n: "frame_number f1 = frame_number f2 + 1"
    then have "unat (frame_number f1) = Suc (unat (frame_number f2))"
      using assms(10) unatSuc [of "frame_number f2"] by (simp add: add.commute)
    then show False using assms(11) by (simp add: word_less_nat_alt)
  qed
  then have "target_verdict (firstFlag w') (mCarrierReplaced (the (targets w' t))) (mLastFrameNr (the (targets w' t)))
      (frame_number f1) = AckAgain"
    using ok(2,4) assms(8,11) by (simp add: target_verdict_def)
  from l1.receiveFrame_not_delivered [OF ok(1) _ this, of e] ok assms(8,9) show ?thesis by simp
qed

section \<open>A sample receiver\<close>

text \<open>A process with the client channel 7 open; its client takes everything, or nothing at all.\<close>

definition sample_receiver :: "(u32 \<Rightarrow> ErrorCode) \<Rightarrow> l1_state" where
  "sample_receiver ipc = (l1_init ipc)\<lparr>
     targetAgents := [0 \<mapsto> \<lparr>ta_channel = 7, ta_queue = [], ta_producer = Some 1\<rparr>],
     targets := [1 \<mapsto> \<lparr>tgt_channel = 7, tgt_queue = Buffer_new # replicate 199 Buffer_new, tgt_consumer = Some 0, mLastFrameNr = 0,
       mCarrierReplaced = False\<rparr>],
     mTargetMap := [(7, 1)], free_addr := 2,
     mL1ChannelRegistry := [7 \<mapsto> \<lparr>ci_upper = 0, ci_lower = 0, ci_state = E_OPERATIONAL, ci_type = 2,
       mpSourceAgent = None, mpTargetAgent = Some 0, ci_clientDir = 1\<rparr>]\<rparr>"

lemma sample_receiver_simps:
  "target_channel_ok 1 0 (sample_receiver ipc)" "channel_id sample_frame = tgt_channel (the (targets (sample_receiver ipc) 1))"
  "channel_id sample_frame \<noteq> CA_SERVICE_CHANNEL" "frame_wf sample_frame" "payload sample_frame = [10, 20]"
  "client_deliveries e (sample_receiver ipc) = []" "firstFlag (sample_receiver ipc)"
  using sample_frame_wf
  by (simp_all add: target_channel_ok_def sample_receiver_def l1_init_def QUEUE_SIZE_def buffer_mem_ok_def Buffer_new_def
      sample_frame_def CA_SERVICE_CHANNEL_def payload_def getSize_def client_deliveries_def list_all_iff)

theorem client_frame_accounted_witness:
  "\<exists>r w'. CTarget_receiveFrame (L1_receiveData BigEndian) 1 sample_frame (sample_receiver (\<lambda>_. NO_ERROR)) = Some (r, w')
    \<and> client_deliveries BigEndian w' = (if isNoError r then [(7, [10, 20])] else [])"
proof -
  let ?w = "sample_receiver (\<lambda>_. NO_ERROR)"
  have v: "target_verdict (firstFlag ?w) (mCarrierReplaced (the (targets ?w 1))) (mLastFrameNr (the (targets ?w 1)))
      (frame_number sample_frame) = Deliver"
    by (simp add: target_verdict_def sample_receiver_simps(7))
  have ne: "payload sample_frame \<noteq> []" "channel_id sample_frame = 7"
    by (simp add: sample_receiver_simps(5)) (simp add: sample_frame_def)
  from client_frame_accounted [OF sample_receiver_simps(1,2,3,4) ne(1), where e = BigEndian and ipc1 = "\<lambda>_. NO_ERROR"]
  show ?thesis unfolding v sample_receiver_simps(5,6) ne(2) by auto
qed


definition late_frame :: Frame where
  "late_frame = sample_frame\<lparr>frame_number := 2\<rparr>"

lemma late_frame_taken:
  "\<exists>w'. CTarget_receiveFrame (L1_receiveData BigEndian) 1 late_frame (sample_receiver (\<lambda>_. NO_ERROR)) = Some (NO_ERROR, w')"
  by (simp add: CTarget_receiveFrame_def late_frame_def sample_frame_def sample_receiver_def l1_init_def
      CTarget_copyFromFrame_def getSize_def reserveSize_def Buffer_new_def MAX_SIZE_def fill_data_def setFilledSize_def
      CTargetAgent_consumeBuffer_def CTargetAgent_visitStub_def L1_receiveData_def CA_SERVICE_CHANNEL_def read_at_def
      overwrite_def receive_client_data_def copyToRawArray_def accessor_bytes_def accessor_setData_def setChannelID_def
      setOpCode_def accessor_new_def ipc_asyncRequest_def MsgIdGen_next_def isNoError_def CTarget_returnBufferBack_def Let_def)


theorem first_frame_any_number_witness:
  "\<exists>w'. client_deliveries BigEndian w' = [(7, [10, 20])]
    \<and> CTarget_receiveFrame (L1_receiveData BigEndian) 1 sample_frame w' = Some (ERROR_RESEND_ACK, w')"
proof -
  have f2: "channel_id late_frame = channel_id sample_frame" "frame_wf late_frame" "payload late_frame = [10, 20]"
    "channel_id late_frame = 7" "0 < frame_number sample_frame" "frame_number sample_frame < frame_number late_frame"
    using sample_receiver_simps(4,5) by (simp_all add: late_frame_def frame_wf_def payload_def getSize_def sample_frame_def)
  obtain w' where w': "CTarget_receiveFrame (L1_receiveData BigEndian) 1 late_frame (sample_receiver (\<lambda>_. NO_ERROR))
      = Some (NO_ERROR, w')"
    using late_frame_taken by blast
  have "client_deliveries BigEndian w' = client_deliveries BigEndian (sample_receiver (\<lambda>_. NO_ERROR))
      @ [(channel_id late_frame, payload late_frame)]
    \<and> CTarget_receiveFrame (L1_receiveData BigEndian) 1 sample_frame w' = Some (ERROR_RESEND_ACK, w')"
    by (rule first_frame_any_number [OF sample_receiver_simps(1,7) _ _ f2(2) _ w'])
      (use f2 sample_receiver_simps(2,3) in \<open>simp_all add: isNoError_def\<close>)
  then show ?thesis unfolding f2(3,4) sample_receiver_simps(6) by auto
qed

end
