(* ===== verification/Link.thy ===== *)
theory Link
  imports L1Stub
begin

text \<open>
  One channel between two agent processes: the sending side of one and the receiving side of the
  other, joined by a carrier that may lose, duplicate and reorder frames and acknowledgements. Every
  step is an operation of the code; the interleaving is arbitrary. The carrier's byte stream is taken
  as a sequence of frames, which is what the receiving loop makes of it.
\<close>

section \<open>The system\<close>

text \<open>
  \<^verbatim>\<open>sent\<close> and \<^verbatim>\<open>submitted\<close> are history: the frames the source has produced and the bytes the client has
  handed over. \<^verbatim>\<open>given_up\<close> records that a retransmission ran into its limit of 20 seconds.
\<close>

record link =
  sender :: l1_state
  receiver :: l1_state
  in_flight :: "Frame list"
  acks :: "Frame list"
  sent :: "Frame list"
  submitted :: "u8 list"
  given_up :: bool

text \<open>The parameters: the byte order of the receiver, the channel, its source agent and its source.\<close>

inductive link_step :: "endian \<Rightarrow> addr \<Rightarrow> addr \<Rightarrow> link \<Rightarrow> link \<Rightarrow> bool" for e a s where
  submit: "CSourceAgent_fillBuffer a b (sender l) = Some (r, b', w) \<Longrightarrow> buffer_wf b \<Longrightarrow> content b \<noteq> [] \<Longrightarrow>
    link_step e a s l (l\<lparr>sender := w, submitted := submitted l @ (if isNoError r then content b else [])\<rparr>)"
| dispatch: "CSource_OnDispatch s fr (getQuoteBySourceType prio) (sender l) = Some (r, f, w) \<Longrightarrow> isNoError r \<Longrightarrow>
    length (frame_data fr) = MAX_SIZE \<Longrightarrow>
    link_step e a s l (l\<lparr>sender := w\<lparr>tfq := tfq_enqueue now f (tfq w)\<rparr>, in_flight := in_flight l @ [f],
      sent := sent l @ [f]\<rparr>)"
| retransmit: "tfq_getFrameToRetransmit now (tfq (sender l)) = Some (Some f) \<Longrightarrow>
    tfq_reenqueueRetransmittedFrame now' (tfq (sender l)) = Some q \<Longrightarrow>
    link_step e a s l (l\<lparr>sender := (sender l)\<lparr>tfq := q\<rparr>, in_flight := in_flight l @ [f],
      given_up := (given_up l \<or> length (mQueue q) < length (mQueue (tfq (sender l))))\<rparr>)"
| lose: "in_flight l = fs @ f # gs \<Longrightarrow> link_step e a s l (l\<lparr>in_flight := fs @ gs\<rparr>)"
| duplicate: "f \<in> set (in_flight l) \<Longrightarrow> link_step e a s l (l\<lparr>in_flight := f # in_flight l\<rparr>)"
| receive: "f \<in> set (in_flight l) \<Longrightarrow>
    rx_receiveFrame (L1_receiveData e) (\<lambda>u. (now, u)) f (receiver l, ()) = Some (r, w, ()) \<Longrightarrow>
    link_step e a s l (l\<lparr>receiver := w,
      acks := (if (isNoError r \<or> r = ERROR_RESEND_ACK) \<and> \<not> isACK f then ack_of f # acks l else acks l)\<rparr>)"
| lose_ack: "acks l = as @ g # bs \<Longrightarrow> link_step e a s l (l\<lparr>acks := as @ bs\<rparr>)"
| acknowledge: "g \<in> set (acks l) \<Longrightarrow>
    rx_receiveFrame (L1_receiveData e') (\<lambda>u. (now, u)) g (sender l, ()) = Some (r, w, ()) \<Longrightarrow>
    link_step e a s l (l\<lparr>sender := w\<rparr>)"

text \<open>A frame stays in flight when it is received, so that reordering and duplication need no steps of their own.\<close>

inductive_cases link_stepE: "link_step e a s l l'"

inductive link_steps :: "endian \<Rightarrow> addr \<Rightarrow> addr \<Rightarrow> link \<Rightarrow> link \<Rightarrow> bool" for e a s where
  start: "link_steps e a s l l"
| more: "link_steps e a s l l' \<Longrightarrow> link_step e a s l' l'' \<Longrightarrow> link_steps e a s l l''"

section \<open>Start and invariant\<close>

text \<open>
  The channel is open on both sides and nothing has been sent on it yet. The receiver has accepted a
  frame before (on the service channel), so the \<^verbatim>\<open>static\<close> flag of \<^verbatim>\<open>receiveFrame\<close> is down.
\<close>

definition link_start :: "u32 \<Rightarrow> addr \<Rightarrow> addr \<Rightarrow> addr \<Rightarrow> addr \<Rightarrow> link \<Rightarrow> bool" where
  "link_start c a s t ta l \<longleftrightarrow> c \<noteq> CA_SERVICE_CHANNEL
     \<and> source_channel_ok a s (sender l) \<and> src_channel (the (sources (sender l) s)) = c
     \<and> source_stream s (sender l) = ([], 1) \<and> mQueue (tfq (sender l)) = []
     \<and> map_of (mTargetMap (receiver l)) c = Some t \<and> target_channel_ok t ta (receiver l)
     \<and> tgt_channel (the (targets (receiver l) t)) = c \<and> mLastFrameNr (the (targets (receiver l) t)) = 0
     \<and> \<not> mCarrierReplaced (the (targets (receiver l) t)) \<and> \<not> firstFlag (receiver l) \<and> \<not> rx_destroyed (receiver l)
     \<and> in_flight l = [] \<and> acks l = [] \<and> sent l = [] \<and> submitted l = [] \<and> \<not> given_up l"

definition numbered :: "u32 \<Rightarrow> Frame list \<Rightarrow> bool" where
  "numbered c fs \<longleftrightarrow> (\<forall>i < length fs. channel_id (fs ! i) = c \<and> frame_number (fs ! i) = of_nat (i + 1)
     \<and> frame_wf (fs ! i) \<and> payload (fs ! i) \<noteq> [] \<and> \<not> isACK (fs ! i))"

definition sender_inv :: "u32 \<Rightarrow> addr \<Rightarrow> addr \<Rightarrow> link \<Rightarrow> bool" where
  "sender_inv c a s l \<longleftrightarrow> source_channel_ok a s (sender l) \<and> src_channel (the (sources (sender l) s)) = c
     \<and> snd (source_stream s (sender l)) = of_nat (length (sent l)) + 1
     \<and> list_all (\<lambda>m. m \<noteq> []) (fst (source_stream s (sender l)))
     \<and> concat (map payload (sent l)) @ concat (fst (source_stream s (sender l))) = submitted l
     \<and> numbered c (sent l) \<and> set (in_flight l) \<subseteq> set (sent l)
     \<and> ts_frame ` set (mQueue (tfq (sender l))) \<subseteq> set (sent l)"

definition receiver_inv :: "endian \<Rightarrow> u32 \<Rightarrow> addr \<Rightarrow> addr \<Rightarrow> (u32 \<times> u8 list) list \<Rightarrow> nat \<Rightarrow> link \<Rightarrow> bool" where
  "receiver_inv e c t ta old k l \<longleftrightarrow> k \<le> length (sent l)
     \<and> map_of (mTargetMap (receiver l)) c = Some t \<and> target_channel_ok t ta (receiver l)
     \<and> tgt_channel (the (targets (receiver l) t)) = c \<and> mLastFrameNr (the (targets (receiver l) t)) = of_nat k
     \<and> \<not> mCarrierReplaced (the (targets (receiver l) t)) \<and> \<not> firstFlag (receiver l) \<and> \<not> rx_destroyed (receiver l)
     \<and> client_deliveries e (receiver l) = old @ map (\<lambda>f. (c, payload f)) (take k (sent l))
     \<and> (\<forall>g \<in> set (acks l). isACK g \<and> channel_id g = c \<and> (\<exists>i < k. frame_number g = of_nat (i + 1)))
     \<and> (given_up l \<or> (\<forall>i. k \<le> i \<and> i < length (sent l) \<longrightarrow> sent l ! i \<in> ts_frame ` set (mQueue (tfq (sender l)))))"


section \<open>Frames by their number\<close>

lemma number_inj:
  assumes "i < 2 ^ 32 - 1" "j < 2 ^ 32 - 1"
  shows "(of_nat (i + 1) :: u32) = of_nat (j + 1) \<longleftrightarrow> i = j" "(of_nat (i + 1) :: u32) \<le> of_nat j \<longleftrightarrow> i < j"
  using assms by (simp_all add: word_unat_eq_iff word_le_nat_alt unsigned_of_nat take_bit_nat_eq_self Suc_le_eq flip: of_nat_Suc)

lemma verdict_number:
  assumes "i < 2 ^ 32 - 1" "k < 2 ^ 32 - 1"
  shows "target_verdict False False (of_nat k) (of_nat (i + 1)) =
    (if i = k then Deliver else if i < k then AckAgain else Refuse)"
  using number_inj [OF assms] number_inj [OF assms(2,1)] by (simp add: target_verdict_def eq_commute add.commute)

lemma numbered_append:
  "numbered c (fs @ [f]) \<longleftrightarrow> numbered c fs \<and> channel_id f = c \<and> frame_number f = of_nat (length fs + 1)
     \<and> frame_wf f \<and> payload f \<noteq> [] \<and> \<not> isACK f"
  by (auto simp: numbered_def nth_append less_Suc_eq)

lemma numbered_member:
  assumes "numbered c fs" "f \<in> set fs"
  obtains i where "i < length fs" "f = fs ! i" "channel_id f = c" "frame_number f = of_nat (i + 1)" "frame_wf f"
    "payload f \<noteq> []" "\<not> isACK f"
  using assms by (auto simp: numbered_def in_set_conv_nth)

text \<open>An acknowledgement takes away frames with its number only.\<close>

lemma tfq_dequeue_from_keeps:
  "tfq_dequeue_from now c n before ts (starts, m) = Some (q, m') \<Longrightarrow>
   set (mQueue q) \<subseteq> set before \<union> set ts
   \<and> (\<forall>x \<in> set before \<union> set ts. \<not> frame_has_id c n (ts_frame x) \<longrightarrow> x \<in> set (mQueue q))"
proof (induction ts arbitrary: before)
  case (Cons t ts)
  show ?case
  proof (cases "frame_has_id c n (ts_frame t)")
    case True
    with Cons.prems show ?thesis by (auto split: option.splits)
  next
    case False
    with Cons.prems Cons.IH [of "before @ [t]"] show ?thesis by simp
  qed
qed auto

lemma tfq_dequeue_keeps:
  "tfq_dequeue now c n (q, m) = Some (q', m') \<Longrightarrow>
   set (mQueue q') \<subseteq> set (mQueue q) \<and> (\<forall>x \<in> set (mQueue q). \<not> frame_has_id c n (ts_frame x) \<longrightarrow> x \<in> set (mQueue q'))"
  using tfq_dequeue_from_keeps [of now c n "[]" "mQueue q"] by (simp add: tfq_dequeue_def)

text \<open>A retransmission keeps every frame, or takes the one at the front away for good.\<close>

lemma retransmit_keeps:
  assumes "tfq_getFrameToRetransmit now q = Some (Some f)" "tfq_reenqueueRetransmittedFrame now' q = Some q'"
  shows "f \<in> ts_frame ` set (mQueue q) \<and> ts_frame ` set (mQueue q') \<subseteq> ts_frame ` set (mQueue q)
    \<and> (length (mQueue q') < length (mQueue q) \<or> ts_frame ` set (mQueue q') = ts_frame ` set (mQueue q))"
  using assms
  by (auto simp: tfq_getFrameToRetransmit_def tfq_reenqueueRetransmittedFrame_def Let_def
      split: list.splits option.splits if_splits)


section \<open>Every step keeps the invariant\<close>

text \<open>The invariant is about the first \<^verbatim>\<open>2 ^ 32 - 2\<close> frames of a channel: then the frame counter wraps around.\<close>

definition link_inv :: "endian \<Rightarrow> u32 \<Rightarrow> addr \<Rightarrow> addr \<Rightarrow> addr \<Rightarrow> addr \<Rightarrow> (u32 \<times> u8 list) list \<Rightarrow> link \<Rightarrow> bool" where
  "link_inv e c a s t ta old l \<longleftrightarrow> length (sent l) < 2 ^ 32 - 2 \<longrightarrow>
     sender_inv c a s l \<and> (\<exists>k. receiver_inv e c t ta old k l)"

lemma link_inv_start:
  assumes "link_start c a s t ta l"
  shows "link_inv e c a s t ta (client_deliveries e (receiver l)) l"
proof -
  have "sender_inv c a s l"
    using assms by (simp add: link_start_def sender_inv_def numbered_def)
  moreover have "receiver_inv e c t ta (client_deliveries e (receiver l)) 0 l"
    using assms by (simp add: link_start_def receiver_inv_def)
  ultimately show ?thesis by (auto simp: link_inv_def)
qed

lemma submit_inv:
  assumes "CSourceAgent_fillBuffer a b (sender l) = Some (r, b', w)" "buffer_wf b" "content b \<noteq> []"
    and "sender_inv c a s l"
  shows "sender_inv c a s (l\<lparr>sender := w, submitted := submitted l @ (if isNoError r then content b else [])\<rparr>)
    \<and> tfq w = tfq (sender l)"
proof -
  have ok: "source_channel_ok a s (sender l)" using assms(4) by (simp add: sender_inv_def)
  obtain ag src where o: "sourceAgents (sender l) a = Some ag" "sources (sender l) s = Some src" "sa_consumer ag = Some s"
    "src_producer src = Some a" "sa_channel ag = src_channel src"
    "length (sa_queue ag) + length (src_queue src) = QUEUE_SIZE" "list_all buffer_wf (src_queue src)"
    using ok by (rule source_channel_okE)
  show ?thesis
  proof (cases "sa_queue ag")
    case Nil
    then have "r = ERROR_NO_FREE_BUFFERS_LEFT" "w = sender l"
      using assms(1) o by (simp_all add: CSourceAgent_fillBuffer_def)
    then show ?thesis using assms(4) by (simp add: sender_inv_def isNoError_def)
  next
    case (Cons b0 rest)
    then have r: "r = NO_ERROR" and w: "w = (sender l)\<lparr>sourceAgents := (sourceAgents (sender l))(a \<mapsto> ag\<lparr>sa_queue := rest\<rparr>),
        sources := (sources (sender l))(s \<mapsto> src\<lparr>src_queue := src_queue src @ [b]\<rparr>)\<rparr>"
      using assms(1) o by (simp_all add: CSourceAgent_fillBuffer_def CSource_consumeBuffer_def)
    have "source_channel_ok a s w"
      using o Cons assms(2) by (simp add: source_channel_ok_def w)
    then show ?thesis
      using assms(3,4) o by (simp add: sender_inv_def r w isNoError_def source_stream_def)
  qed
qed

lemma source_tfq [simp]:
  "source_stream s (w\<lparr>tfq := q\<rparr>) = source_stream s w" "source_channel_ok a s (w\<lparr>tfq := q\<rparr>) = source_channel_ok a s w"
  "source_stream s (w\<lparr>qos := m\<rparr>) = source_stream s w" "source_channel_ok a s (w\<lparr>qos := m\<rparr>) = source_channel_ok a s w"
  by (simp_all add: source_stream_def source_channel_ok_def cong: option.case_cong)

lemma dispatch_inv:
  assumes "CSource_OnDispatch s fr (getQuoteBySourceType prio) (sender l) = Some (r, f, w)" "isNoError r"
    and "length (frame_data fr) = MAX_SIZE" "sender_inv c a s l"
  shows "sender_inv c a s (l\<lparr>sender := w\<lparr>tfq := tfq_enqueue now f (tfq w)\<rparr>, in_flight := in_flight l @ [f],
      sent := sent l @ [f]\<rparr>) \<and> tfq w = tfq (sender l)"
proof -
  have ok: "source_channel_ok a s (sender l)" using assms(4) by (simp add: sender_inv_def)
  have ne: "fst (source_stream s (sender l)) \<noteq> []"
    using dispatch_empty [OF ok] assms(1,2) by (auto simp: isNoError_def)
  have q: "unat (getQuoteBySourceType prio) \<le> length (frame_data fr)" "unat (getQuoteBySourceType prio) \<le> MAX_SIZE"
    using assms(3) by (simp_all add: quote_4000 MAX_SIZE_def)
  obtain m ms n where st: "source_stream s (sender l) = (m # ms, n)"
    using ne by (metis list.exhaust prod.collapse)
  obtain f' w' where d': "CSource_OnDispatch s fr (getQuoteBySourceType prio) (sender l) = Some (NO_ERROR, f', w')"
    "((payload f', frame_number f'), source_stream s w') =
       stream_dispatch (unat (getQuoteBySourceType prio)) (source_stream s (sender l))"
    "source_channel_ok a s w'" "frame_wf f'" "\<not> isACK f'" "channel_id f' = src_channel (the (sources (sender l) s))"
    "\<exists>src' ag'. w' = (sender l)\<lparr>sources := (sources (sender l))(s \<mapsto> src'), sourceAgents := (sourceAgents (sender l))(a \<mapsto> ag')\<rparr>
       \<and> src_channel src' = src_channel (the (sources (sender l) s))"
    by (rule OnDispatch_refines [OF ok ne q]) (rule that; assumption)
  have eq: "f' = f" "w' = w" using assms(1) d'(1) by simp_all
  have c: "src_channel (the (sources (sender l) s)) = c" using assms(4) by (simp add: sender_inv_def)
  obtain src' ag' where w: "w = (sender l)\<lparr>sources := (sources (sender l))(s \<mapsto> src'),
      sourceAgents := (sourceAgents (sender l))(a \<mapsto> ag')\<rparr>" "src_channel src' = c"
    using d'(7) unfolding eq c by (elim exE conjE) (rule that; assumption)
  have d: "((payload f, frame_number f), source_stream s w) = stream_dispatch 4000 (m # ms, n)"
    "source_channel_ok a s w" "frame_wf f" "\<not> isACK f" "channel_id f = c"
    using d'(2,3,4,5,6) unfolding eq c quote_4000 st by simp_all
  have dw: "src_channel (the (sources w s)) = c" "tfq w = tfq (sender l)"
    using w by simp_all
  have n: "n = of_nat (length (sent l)) + 1" "m \<noteq> []" "list_all (\<lambda>m. m \<noteq> []) ms"
    "concat (map payload (sent l)) @ m @ concat ms = submitted l"
    using assms(4) st by (simp_all add: sender_inv_def)
  have sd: "payload f = take 4000 m" "frame_number f = n" "snd (source_stream s w) = n + 1"
    "fst (source_stream s w) = (if length m \<le> 4000 then ms else drop 4000 m # ms)"
    using d(1) by (cases "source_stream s w"; auto simp: stream_dispatch_def split: if_splits)+
  have "concat (map payload (sent l @ [f])) @ concat (fst (source_stream s w)) = submitted l"
  proof -
    have "take 4000 m @ concat (fst (source_stream s w)) = m @ concat ms"
      unfolding sd(4) by (simp add: append_assoc [symmetric] del: append_assoc)
    then show ?thesis unfolding n(4) [symmetric] by (simp add: sd(1))
  qed
  moreover have "numbered c (sent l @ [f])"
    using assms(4) sd(1,2) n(1,2) d(3,4,5) by (simp add: numbered_append sender_inv_def add.commute)
  moreover have "list_all (\<lambda>m. m \<noteq> []) (fst (source_stream s w))"
    using sd(4) n(3) by simp
  moreover have "snd (source_stream s w) = of_nat (length (sent l @ [f])) + 1"
    using sd(3) n(1) by (simp add: add.commute)
  moreover have "set (in_flight l @ [f]) \<subseteq> set (sent l @ [f])"
    "ts_frame ` set (mQueue (tfq_enqueue now f (tfq w))) \<subseteq> set (sent l @ [f])"
    using assms(4) dw(2) by (auto simp: sender_inv_def tfq_enqueue_def Let_def)
  ultimately show ?thesis
    using d(2) dw by (simp add: sender_inv_def)
qed


text \<open>What the receiver does with a frame of the channel, by its number.\<close>

lemma receive_frame:
  assumes "receiver_inv e c t ta old k l" "c \<noteq> CA_SERVICE_CHANNEL" "numbered c (sent l)" "f \<in> set (sent l)"
    and "length (sent l) < 2 ^ 32 - 2"
    and "rx_receiveFrame (L1_receiveData e) (\<lambda>u. (now, u)) f (receiver l, ()) = Some (r, w, ())"
  shows "\<exists>k'. receiver_inv e c t ta old k' (l\<lparr>receiver := w,
      acks := (if (isNoError r \<or> r = ERROR_RESEND_ACK) \<and> \<not> isACK f then ack_of f # acks l else acks l)\<rparr>)"
proof -
  obtain i where i: "i < length (sent l)" "f = sent l ! i" "channel_id f = c" "frame_number f = of_nat (i + 1)"
    "frame_wf f" "payload f \<noteq> []" "\<not> isACK f"
    using assms(3,4) by (rule numbered_member)
  have k: "k \<le> length (sent l)" "map_of (mTargetMap (receiver l)) c = Some t" "target_channel_ok t ta (receiver l)"
    "tgt_channel (the (targets (receiver l) t)) = c" "mLastFrameNr (the (targets (receiver l) t)) = of_nat k"
    "\<not> mCarrierReplaced (the (targets (receiver l) t))" "\<not> firstFlag (receiver l)" "\<not> rx_destroyed (receiver l)"
    using assms(1) by (simp_all add: receiver_inv_def)
  have rx: "CTarget_receiveFrame (L1_receiveData e) t f (receiver l) = Some (r, w)"
    using assms(6) i(3,7) k(2,8) by (auto simp: rx_receiveFrame_def split: option.splits)
  have bound: "i < 2 ^ 32 - 1" "k < 2 ^ 32 - 1" using i(1) k(1) assms(5) by simp_all
  have v: "target_verdict (firstFlag (receiver l)) (mCarrierReplaced (the (targets (receiver l) t)))
      (mLastFrameNr (the (targets (receiver l) t))) (frame_number f)
    = (if i = k then Deliver else if i < k then AckAgain else Refuse)"
    using verdict_number [OF bound] k(5,6,7) i(4) by simp
  have ch: "channel_id f = tgt_channel (the (targets (receiver l) t))" using k(4) i(3) by simp
  have ack: "isACK (ack_of f)" "channel_id (ack_of f) = c" "frame_number (ack_of f) = of_nat (i + 1)"
    using i(3,4) by (simp_all add: ack_of_def)
  show ?thesis
  proof (cases "i = k")
    case False
    then have "w = receiver l" "r = (if i < k then ERROR_RESEND_ACK else ERROR_WRONG_FRAME_SEQUENCE)"
      using l1.receiveFrame_not_delivered [OF k(3) ch v, where e = e] rx by (cases "i < k"; simp)+
    then have "receiver_inv e c t ta old k (l\<lparr>receiver := w,
      acks := (if (isNoError r \<or> r = ERROR_RESEND_ACK) \<and> \<not> isACK f then ack_of f # acks l else acks l)\<rparr>)"
      using assms(1) ack by (auto simp: receiver_inv_def isNoError_def)
    then show ?thesis ..
  next
    case True
    obtain r' w' tg' where d: "CTarget_receiveFrame (L1_receiveData e) t f (receiver l) = Some (r', w')"
      "target_channel_ok t ta w'" "r' \<noteq> ERROR_RESEND_ACK" "targets w' = (targets (receiver l))(t \<mapsto> tg')"
      "tgt_channel tg' = channel_id f" "mTargetMap w' = mTargetMap (receiver l)" "rx_destroyed w' = rx_destroyed (receiver l)"
      "isNoError r' \<Longrightarrow> client_deliveries e w' = client_deliveries e (receiver l) @ [(channel_id f, payload f)]
        \<and> \<not> firstFlag w' \<and> mLastFrameNr tg' = frame_number f \<and> \<not> mCarrierReplaced tg'"
      "\<not> isNoError r' \<Longrightarrow> client_deliveries e w' = client_deliveries e (receiver l) \<and> firstFlag w' = firstFlag (receiver l)
        \<and> mLastFrameNr tg' = mLastFrameNr (the (targets (receiver l) t))
        \<and> mCarrierReplaced tg' = mCarrierReplaced (the (targets (receiver l) t))"
      by (rule l1.receiveFrame_delivered [OF k(3) ch, where e = e])
        (use v True assms(2) i in \<open>simp_all add: that\<close>)
    have eq: "r' = r" "w' = w" using rx d(1) by simp_all
    note d = d [unfolded eq]
    show ?thesis
    proof (cases "isNoError r")
      case ok: True
      have "receiver_inv e c t ta old (Suc k) (l\<lparr>receiver := w, acks := ack_of f # acks l\<rparr>)"
        using assms(1) d(2,4,5,6,7) d(8) [OF ok] i ack True
        by (auto simp: receiver_inv_def take_Suc_conv_app_nth less_Suc_eq)
      then show ?thesis using ok i(7) by auto
    next
      case err: False
      have "receiver_inv e c t ta old k (l\<lparr>receiver := w\<rparr>)"
        using assms(1) d(2,4,5,6,7) d(9) [OF err] i(3) by (simp add: receiver_inv_def)
      then show ?thesis using err d(3) by auto
    qed
  qed
qed

lemma acknowledge_inv:
  assumes "g \<in> set (acks l)" "rx_receiveFrame (L1_receiveData e') (\<lambda>u. (now, u)) g (sender l, ()) = Some (r, w, ())"
    and "sender_inv c a s l" "receiver_inv e c t ta old k l" "length (sent l) < 2 ^ 32 - 2"
  shows "sender_inv c a s (l\<lparr>sender := w\<rparr>) \<and> receiver_inv e c t ta old k (l\<lparr>sender := w\<rparr>)"
proof -
  obtain j where g: "isACK g" "channel_id g = c" "j < k" "frame_number g = of_nat (j + 1)"
    using assms(1,4) by (auto simp: receiver_inv_def)
  obtain q m where q: "tfq_dequeue now c (of_nat (j + 1)) (tfq (sender l), qos (sender l)) = Some (q, m)"
    "w = (sender l)\<lparr>tfq := q, qos := m\<rparr>"
    using assms(2) g by (auto simp: rx_receiveFrame_def split: option.splits)
  have keeps: "set (mQueue q) \<subseteq> set (mQueue (tfq (sender l)))"
    "\<And>x. x \<in> set (mQueue (tfq (sender l))) \<Longrightarrow> \<not> frame_has_id c (of_nat (j + 1)) (ts_frame x) \<Longrightarrow> x \<in> set (mQueue q)"
    using tfq_dequeue_keeps [OF q(1)] by auto
  have "ts_frame ` set (mQueue q) \<subseteq> set (sent l)"
    using assms(3) keeps(1) by (auto simp: sender_inv_def)
  then have "sender_inv c a s (l\<lparr>sender := w\<rparr>)"
    using assms(3) unfolding q(2) by (simp add: sender_inv_def)
  moreover have "sent l ! i \<in> ts_frame ` set (mQueue q)"
    if "k \<le> i" "i < length (sent l)" and x: "sent l ! i \<in> ts_frame ` set (mQueue (tfq (sender l)))" for i
  proof -
    have "frame_number (sent l ! i) = of_nat (i + 1)"
      using assms(3) that(2) by (simp add: sender_inv_def numbered_def)
    moreover have "(of_nat (i + 1) :: u32) \<noteq> of_nat (j + 1)"
      using number_inj(1) [of i j] that(1,2) g(3) assms(5) by simp
    ultimately have no: "\<not> frame_has_id c (of_nat (j + 1)) (sent l ! i)" by (simp only: frame_has_id_def) simp
    from x obtain y where y: "sent l ! i = ts_frame y" "y \<in> set (mQueue (tfq (sender l)))" by (rule imageE)
    have "y \<in> set (mQueue q)" using y(2) by (rule keeps(2)) (use no y(1) in simp)
    then show ?thesis unfolding y(1) by (rule imageI)
  qed
  then have "receiver_inv e c t ta old k (l\<lparr>sender := w\<rparr>)"
    using assms(4) unfolding q(2) by (simp add: receiver_inv_def) blast
  ultimately show ?thesis ..
qed


lemma link_step_sent: "link_step e a s l l' \<Longrightarrow> length (sent l) \<le> length (sent l')"
  by (induction rule: link_step.induct) simp_all

text \<open>The receiver's part of the invariant looks at the sender through its queue and the frames sent.\<close>

lemma receiver_inv_queue:
  "receiver_inv e c t ta old k l \<Longrightarrow>
   given_up l' \<or> \<not> given_up l \<and> ts_frame ` set (mQueue (tfq (sender l))) \<subseteq> ts_frame ` set (mQueue (tfq (sender l'))) \<Longrightarrow>
   receiver l' = receiver l \<Longrightarrow> set (acks l') \<subseteq> set (acks l) \<Longrightarrow> sent l' = sent l \<Longrightarrow> receiver_inv e c t ta old k l'"
  unfolding receiver_inv_def by (simp only: simp_thms) blast

lemma dispatch_receiver_inv:
  "receiver_inv e c t ta old k l \<Longrightarrow> tfq w = tfq (sender l) \<Longrightarrow>
   receiver_inv e c t ta old k (l\<lparr>sender := w\<lparr>tfq := tfq_enqueue now f (tfq w)\<rparr>, in_flight := in_flight l @ [f],
      sent := sent l @ [f]\<rparr>)"
  by (auto simp: receiver_inv_def tfq_enqueue_def Let_def nth_append less_Suc_eq)

lemma link_step_inv:
  assumes "link_step e a s l l'" "link_inv e c a s t ta old l" "c \<noteq> CA_SERVICE_CHANNEL"
  shows "link_inv e c a s t ta old l'"
  unfolding link_inv_def
proof
  assume "length (sent l') < 2 ^ 32 - 2"
  with link_step_sent [OF assms(1)] assms(2) obtain k where inv: "sender_inv c a s l" "receiver_inv e c t ta old k l"
    and len: "length (sent l) < 2 ^ 32 - 2"
    by (auto simp: link_inv_def)
  from assms(1) show "sender_inv c a s l' \<and> (\<exists>k. receiver_inv e c t ta old k l')"
  proof cases
    case (submit b r b' w)
    from submit_inv [OF submit(2,3,4) inv(1)] receiver_inv_queue [OF inv(2), of l'] show ?thesis
      unfolding submit(1) by auto
  next
    case (dispatch fr prio r f w now)
    from dispatch_inv [OF dispatch(2,3,4) inv(1), where now = now] dispatch_receiver_inv [OF inv(2), where w = w and now = now and f = f] show ?thesis
      unfolding dispatch(1) by blast
  next
    case (retransmit now f now' q)
    note q = retransmit_keeps [OF retransmit(2,3)]
    have "sender_inv c a s l'"
      using inv(1) q unfolding retransmit(1) by (auto simp: sender_inv_def)
    moreover have "receiver_inv e c t ta old k l'"
      by (rule receiver_inv_queue [OF inv(2)]) (use q in \<open>auto simp: retransmit(1)\<close>)
    ultimately show ?thesis by blast
  next
    case (lose fs f gs)
    have "sender_inv c a s l'" using inv(1) unfolding lose(1) by (simp add: sender_inv_def lose(2))
    moreover have "receiver_inv e c t ta old k l'" using inv(2) unfolding lose(1) by (simp add: receiver_inv_def)
    ultimately show ?thesis by blast
  next
    case (duplicate f)
    have "sender_inv c a s l'" using inv(1) duplicate(2) unfolding duplicate(1) by (auto simp: sender_inv_def)
    moreover have "receiver_inv e c t ta old k l'" using inv(2) unfolding duplicate(1) by (simp add: receiver_inv_def)
    ultimately show ?thesis by blast
  next
    case (receive f now r w)
    have "numbered c (sent l)" "f \<in> set (sent l)" using inv(1) receive(2) by (auto simp: sender_inv_def)
    from receive_frame [OF inv(2) assms(3) this len receive(3)] inv(1) show ?thesis
      unfolding receive(1) by (simp add: sender_inv_def)
  next
    case (lose_ack as g bs)
    have "sender_inv c a s l'" using inv(1) unfolding lose_ack(1) by (simp add: sender_inv_def)
    moreover have "receiver_inv e c t ta old k l'"
      using inv(2) unfolding lose_ack(1) by (simp add: receiver_inv_def lose_ack(2))
    ultimately show ?thesis by blast
  next
    case (acknowledge g e' now r w)
    from acknowledge_inv [OF acknowledge(2,3) inv len] show ?thesis
      unfolding acknowledge(1) by blast
  qed
qed

lemma link_steps_inv:
  "link_steps e a s l l' \<Longrightarrow> link_inv e c a s t ta old l \<Longrightarrow> c \<noteq> CA_SERVICE_CHANNEL \<Longrightarrow> link_inv e c a s t ta old l'"
  by (induction rule: link_steps.induct) (auto intro: link_step_inv)

section \<open>Properties\<close>

text \<open>
  C1: whatever the carrier loses, duplicates and reorders, the client of the receiver has been
  given the payloads of an initial part of the frames sent, each once and in order, and together with
  what waits to be sent these frames are the bytes the sender's client has handed over.
\<close>

theorem link_in_order:
  assumes "link_start c a s t ta l" "link_steps e a s l l'" "length (sent l') < 2 ^ 32 - 2"
  shows "\<exists>k \<le> length (sent l'). client_deliveries e (receiver l') =
      client_deliveries e (receiver l) @ map (\<lambda>f. (c, payload f)) (take k (sent l'))
    \<and> concat (map payload (sent l')) @ concat (fst (source_stream s (sender l'))) = submitted l'"
proof -
  have "c \<noteq> CA_SERVICE_CHANNEL" using assms(1) by (simp add: link_start_def)
  from link_steps_inv [OF assms(2) link_inv_start [OF assms(1)] this] assms(3) show ?thesis
    by (auto simp: link_inv_def sender_inv_def receiver_inv_def)
qed


section \<open>A sample run\<close>

definition sample_link :: link where
  "sample_link = \<lparr>sender = (l1_init (\<lambda>_. NO_ERROR))\<lparr>
       sourceAgents := [0 \<mapsto> \<lparr>sa_channel = 7, sa_queue = Buffer_new # replicate 199 Buffer_new, sa_consumer = Some 1\<rparr>],
       sources := [1 \<mapsto> \<lparr>src_channel = 7, src_frameCounter = 1, src_queue = [], src_producer = Some 0\<rparr>]\<rparr>,
     receiver = (sample_receiver (\<lambda>_. NO_ERROR))\<lparr>firstFlag := False\<rparr>,
     in_flight = [], acks = [], sent = [], submitted = [], given_up = False\<rparr>"

lemma sample_link_start: "link_start 7 0 1 1 0 sample_link"
  by (simp add: link_start_def sample_link_def source_channel_ok_def source_stream_def target_channel_ok_def
      sample_receiver_def l1_init_def QUEUE_SIZE_def buffer_mem_ok_def Buffer_new_def CA_SERVICE_CHANNEL_def list_all_iff)

lemma sample_link_run:
  "\<exists>l' f. link_steps LittleEndian 0 1 sample_link l' \<and> sent l' = [f] \<and> submitted l' = [1, 2] \<and> \<not> given_up l'"
proof -
  obtain w where w: "CSourceAgent_fillBuffer 0 (sample_buffer [1, 2]) (sender sample_link)
      = Some (NO_ERROR, forgetData (sample_buffer [1, 2]), w)"
    by (simp add: CSourceAgent_fillBuffer_def sample_link_def CSource_consumeBuffer_def l1_init_def)
  have b: "buffer_wf (sample_buffer [1, 2])" "content (sample_buffer [1, 2]) = [1, 2]"
    by (simp_all add: sample_buffer_def buffer_wf_def content_def MAX_SIZE_def)
  define l1 where "l1 = sample_link\<lparr>sender := w, submitted := [1, 2]\<rparr>"
  have s1: "link_step LittleEndian 0 1 sample_link l1"
    using link_step.submit [OF w b(1), of LittleEndian 1] b(2)
    by (simp add: l1_def isNoError_def) (simp add: sample_link_def)
  have inv: "sender_inv 7 0 1 l1"
    using submit_inv [OF w b(1)] b(2) link_inv_start [OF sample_link_start, of LittleEndian]
    by (simp add: l1_def isNoError_def link_inv_def) (simp add: sample_link_def)
  then have ok: "source_channel_ok 0 1 (sender l1)" "fst (source_stream 1 (sender l1)) \<noteq> []"
    by (auto simp: sender_inv_def) (auto simp: l1_def sample_link_def)
  obtain f w2 where d: "CSource_OnDispatch 1 blank_frame (getQuoteBySourceType ePlainData) (sender l1) = Some (NO_ERROR, f, w2)"
    by (rule OnDispatch_refines [OF ok, where quote = "getQuoteBySourceType ePlainData" and fr = blank_frame])
      (simp_all add: quote_4000 blank_frame_def, simp_all add: MAX_SIZE_def)
  have "link_step LittleEndian 0 1 l1 (l1\<lparr>sender := w2\<lparr>tfq := tfq_enqueue (fst (tick 0)) f (tfq w2)\<rparr>,
      in_flight := in_flight l1 @ [f], sent := sent l1 @ [f]\<rparr>)"
    by (rule link_step.dispatch [OF d]) (simp_all add: isNoError_def blank_frame_def)
  with s1 have "link_steps LittleEndian 0 1 sample_link (l1\<lparr>sender := w2\<lparr>tfq := tfq_enqueue (fst (tick 0)) f (tfq w2)\<rparr>,
      in_flight := in_flight l1 @ [f], sent := sent l1 @ [f]\<rparr>)"
    by (blast intro: link_steps.intros)
  moreover have "sent l1 = []" "submitted l1 = [1, 2]" "\<not> given_up l1"
    by (simp_all add: l1_def sample_link_def)
  ultimately show ?thesis
    by (intro exI conjI) (assumption, simp_all)
qed

theorem link_in_order_witness:
  "\<exists>l' f k. link_steps LittleEndian 0 1 sample_link l' \<and> sent l' = [f]
    \<and> client_deliveries LittleEndian (receiver l') = map (\<lambda>f. (7, payload f)) (take k [f])
    \<and> payload f @ concat (fst (source_stream 1 (sender l'))) = [1, 2]"
proof -
  obtain l' f where l': "link_steps LittleEndian 0 1 sample_link l'" "sent l' = [f]" "submitted l' = [1, 2]"
    using sample_link_run by blast
  have "client_deliveries LittleEndian (receiver sample_link) = []"
    by (simp add: sample_link_def sample_receiver_simps(6))
  with link_in_order [OF sample_link_start l'(1)] l' show ?thesis by auto
qed


end
