(* ===== verification/Handshake.thy ===== *)
theory Handshake
  imports L1Stub
begin

text \<open>
  The protocol by which two agents open a channel and close it again: service messages on the wire,
  the operations of \<^verbatim>\<open>L1InterfaceStub\<close> as steps of a state machine per channel, and complete runs
  of the handshake between two processes.
\<close>

section \<open>Service messages on the wire\<close>

definition service_message_ok :: "CDataAccessor \<Rightarrow> bool" where
  "service_message_ok a \<longleftrightarrow> accessor_wf a \<and> unat (mDataSize a) \<le> 4000"

lemma read_at_append: "read_at (xs @ ys) (length xs) n = read_at ys 0 n"
  by (simp add: read_at_def)

lemma service_bytes_parse:
  assumes "service_message_ok a"
  obtains bs where "service_bytes e a = Some bs" "length bs = 18 + unat (mDataSize a)"
    "\<And>tl. parse_service e' (bs @ tl) (length bs) 0 accessor_new = Some (a, length bs)"
proof -
  define d where "d = (case mpData a of None \<Rightarrow> [] | Some d \<Rightarrow> d)"
  have wf: "accessor_wf a" and sz: "unat (mDataSize a) \<le> 4000" using assms by (simp_all add: service_message_ok_def)
  have b: "accessor_bytes a = Some d" using wf by (simp add: accessor_bytes_wf d_def)
  have len: "length d = unat (mDataSize a)" using length_accessor_bytes [OF b] .
  define hs where "hs = store e 2 (hton16 e (ucast (getObjectSize a + 2)))"
  define os where "os = store e 4 (hton32 e (mOperation a))"
  define cs where "cs = store e 4 (hton32 e (mChannelID a))"
  define ds where "ds = store e 4 (hton32 e (mDataSize a))"
  define es where "es = store e 4 (hton32 e (mErrorCode a))"
  define bs where "bs = hs @ os @ cs @ ds @ es @ d"
  have l: "length hs = 2" "length os = 4" "length cs = 4" "length ds = 4" "length es = 4"
    by (simp_all add: hs_def os_def cs_def ds_def es_def)
  have lb: "length bs = 18 + unat (mDataSize a)" by (simp add: bs_def l len)
  have net: "ntoh32 e' (load e' os) = mOperation a" "ntoh32 e' (load e' cs) = mChannelID a"
    "ntoh32 e' (load e' ds) = mDataSize a" "ntoh32 e' (load e' es) = mErrorCode a"
    unfolding os_def cs_def ds_def es_def by (rule network_order)+
  have h: "ntoh16 e' (load e' hs) = ucast (mDataSize a + 18)"
    unfolding hs_def network_order by (simp add: getObjectSize_def add.assoc)
  have total: "unat (mDataSize a + 18) = unat (mDataSize a) + 18"
    using sz unat_add_lem [of "mDataSize a" 18, THEN iffD1] by simp
  have u: "unat (ucast (mDataSize a + 18) :: u16) = 18 + unat (mDataSize a)"
    using sz total by (simp add: unsigned_ucast_eq take_bit_nat_eq_self)
  have "parse_service e' (bs @ tl) (length bs) 0 accessor_new = Some (a, length bs)" for tl
  proof -
    have r: "read_at (bs @ tl) 0 2 = Some hs" "read_at (bs @ tl) 2 4 = Some os" "read_at (bs @ tl) 6 4 = Some cs"
      "read_at (bs @ tl) 10 4 = Some ds" "read_at (bs @ tl) 14 4 = Some es"
      "read_at (bs @ tl) 18 (unat (mDataSize a)) = Some d"
      by (simp_all add: read_at_def bs_def l len)
    have acc: "accessor_setData d (setErrorCode (mErrorCode a) (setChannelID (mChannelID a) (setOpCode (mOperation a) accessor_new))) = a"
    proof (cases "mpData a")
      case None
      then show ?thesis using wf
        by (cases a) (simp add: d_def accessor_setData_def setErrorCode_def setChannelID_def setOpCode_def accessor_new_def accessor_wf_def)
    next
      case (Some x)
      then show ?thesis using wf
        by (cases a) (simp add: d_def accessor_setData_def setErrorCode_def setChannelID_def setOpCode_def accessor_new_def accessor_wf_def)
    qed
    show ?thesis
      by (simp add: parse_service_def r r(2) [unfolded numeral_2_eq_2] read_word_def h u net acc lb)
  qed
  moreover have "service_bytes e a = Some bs"
    by (simp add: service_bytes_def b bs_def hs_def os_def cs_def ds_def es_def)
  ultimately show thesis using that lb by blast
qed


section \<open>Tables of L1 and objects of L0\<close>

text \<open>The lower layer's predicates do not look at the tables of this one.\<close>

lemma l0_ok_above [simp]:
  "l0_ok (w\<lparr>mL1ChannelRegistry := reg\<rparr>) = l0_ok w" "l0_ok (w\<lparr>mRequestedMap := rq\<rparr>) = l0_ok w"
  "l0_ok (w\<lparr>mRequestId := n\<rparr>) = l0_ok w" "l0_ok (w\<lparr>ipc_log := il\<rparr>) = l0_ok w" "l0_ok (w\<lparr>timeout_log := tm\<rparr>) = l0_ok w"
  by (simp_all add: l0_ok_def tx_ok_def rx_ok_def all_sources_def source_channel_ok_def target_channel_ok_def
      cong: option.case_cong)

lemma one_source_above [simp]:
  "one_source c (w\<lparr>mL1ChannelRegistry := reg\<rparr>) = one_source c w" "one_source c (w\<lparr>mRequestedMap := rq\<rparr>) = one_source c w"
  "one_source c (w\<lparr>mRequestId := n\<rparr>) = one_source c w" "one_source c (w\<lparr>ipc_log := il\<rparr>) = one_source c w"
  "one_source c (w\<lparr>timeout_log := tm\<rparr>) = one_source c w"
  by (simp_all add: one_source_def has_channel_def all_sources_def)

lemma channel_unused_above [simp]:
  "channel_unused c (w\<lparr>mL1ChannelRegistry := reg\<rparr>) = channel_unused c w" "channel_unused c (w\<lparr>mRequestedMap := rq\<rparr>) = channel_unused c w"
  "channel_unused c (w\<lparr>mRequestId := n\<rparr>) = channel_unused c w" "channel_unused c (w\<lparr>ipc_log := il\<rparr>) = channel_unused c w"
  "channel_unused c (w\<lparr>timeout_log := tm\<rparr>) = channel_unused c w"
  by (simp_all add: channel_unused_def registered_def cong: option.case_cong)

lemma channel_open_above [simp]:
  "channel_open c p sa ta (w\<lparr>mL1ChannelRegistry := reg\<rparr>) = channel_open c p sa ta w"
  "channel_open c p sa ta (w\<lparr>mRequestedMap := rq\<rparr>) = channel_open c p sa ta w"
  "channel_open c p sa ta (w\<lparr>mRequestId := n\<rparr>) = channel_open c p sa ta w"
  "channel_open c p sa ta (w\<lparr>ipc_log := il\<rparr>) = channel_open c p sa ta w"
  "channel_open c p sa ta (w\<lparr>timeout_log := tm\<rparr>) = channel_open c p sa ta w"
  by (simp_all add: channel_open_def registered_def source_channel_ok_def target_channel_ok_def cong: option.case_cong)

text \<open>The service channel is open with room for \<^verbatim>\<open>n\<close> more messages.\<close>

definition service_ready :: "nat \<Rightarrow> l1_state \<Rightarrow> bool" where
  "service_ready n w \<longleftrightarrow>
     (case mL1ChannelRegistry w CA_SERVICE_CHANNEL of None \<Rightarrow> False
      | Some info \<Rightarrow> (case mpSourceAgent info of None \<Rightarrow> False
          | Some sa \<Rightarrow> n \<le> source_pool sa w \<and> (\<exists>s. source_channel_ok sa s w)))"

lemma service_ready_above [simp]:
  "reg CA_SERVICE_CHANNEL = mL1ChannelRegistry w CA_SERVICE_CHANNEL \<Longrightarrow>
     service_ready n (w\<lparr>mL1ChannelRegistry := reg\<rparr>) = service_ready n w"
  "service_ready n (w\<lparr>mRequestedMap := rq\<rparr>) = service_ready n w"
  "service_ready n (w\<lparr>mRequestId := i\<rparr>) = service_ready n w" "service_ready n (w\<lparr>ipc_log := il\<rparr>) = service_ready n w"
  "service_ready n (w\<lparr>timeout_log := tm\<rparr>) = service_ready n w"
  by (simp_all add: service_ready_def source_pool_def source_channel_ok_def cong: option.case_cong)

lemma fill_data_setFilledSize: "fill_data bs (setFilledSize n b) = map_option (setFilledSize n) (fill_data bs b)"
  by (simp add: fill_data_def setFilledSize_def split: option.split)

lemma source_of_agent: "source_channel_ok a s w \<Longrightarrow> map_option sa_consumer (sourceAgents w a) = Some (Some s)"
  by (erule source_channel_okE) simp

lemma source_unique: "source_channel_ok a s w \<Longrightarrow> source_channel_ok a s' w \<Longrightarrow> s = s'"
  by (drule source_of_agent, drule source_of_agent) simp

text \<open>The source of the service channel belongs to no other channel.\<close>

definition service_source_ok :: "l1_state \<Rightarrow> bool" where
  "service_source_ok w \<longleftrightarrow> (\<forall>info sa s. mL1ChannelRegistry w CA_SERVICE_CHANNEL = Some info \<longrightarrow> mpSourceAgent info = Some sa \<longrightarrow>
     source_channel_ok sa s w \<longrightarrow> has_channel CA_SERVICE_CHANNEL w s)"

lemma service_source_ok_above [simp]:
  "reg CA_SERVICE_CHANNEL = mL1ChannelRegistry w CA_SERVICE_CHANNEL \<Longrightarrow>
     service_source_ok (w\<lparr>mL1ChannelRegistry := reg\<rparr>) = service_source_ok w"
  "service_source_ok (w\<lparr>timeout_log := tm\<rparr>) = service_source_ok w"
  by (simp_all add: service_source_ok_def has_channel_def source_channel_ok_def cong: option.case_cong)

text \<open>Sending a service message takes one buffer of the service channel and changes nothing else.\<close>

lemma sendRequest_ok:
  assumes "l0_ok w" "service_ready (Suc n) w" "service_message_ok a"
  obtains w' where "sendRequest e a w = Some (NO_ERROR, w')" "l0_ok w'" "service_ready n w'"
    "l0_state.more w' = l0_state.more w" "\<And>c. channel_unused c w \<Longrightarrow> channel_unused c w'"
    "\<And>c p sa ta. channel_open c p sa ta w \<Longrightarrow> channel_open c p sa ta w'" "\<And>c. one_source c w \<Longrightarrow> one_source c w'"
    "tfq w' = tfq w" "service_source_ok w \<Longrightarrow> service_source_ok w'"
proof -
  obtain info sa s where svc: "mL1ChannelRegistry w CA_SERVICE_CHANNEL = Some info" "mpSourceAgent info = Some sa"
    "Suc n \<le> source_pool sa w" "source_channel_ok sa s w"
    using assms(2) by (auto simp: service_ready_def split: option.splits)
  obtain ag src where o: "sourceAgents w sa = Some ag" "sources w s = Some src" "sa_consumer ag = Some s"
    "src_producer src = Some sa" "sa_channel ag = src_channel src"
    "length (sa_queue ag) + length (src_queue src) = QUEUE_SIZE" "list_all buffer_wf (src_queue src)"
    using svc(4) by (rule source_channel_okE)
  obtain b0 rest where q: "sa_queue ag = b0 # rest" using svc(3) o(1) by (cases "sa_queue ag") (auto simp: source_pool_def)
  obtain bs where bs: "service_bytes e a = Some bs" "length bs = 18 + unat (mDataSize a)"
    using service_bytes_parse [OF assms(3)] by metis
  have sz: "getObjectSize a + 2 = of_nat (length bs)" "length bs \<le> MAX_SIZE"
    using assms(3) bs(2) by (simp_all add: getObjectSize_def service_message_ok_def MAX_SIZE_def add.commute)
  have new: "buffer_mem_ok Buffer_new" by (simp add: buffer_mem_ok_def Buffer_new_def)
  obtain b1 b2 where b: "reserveSize (of_nat (length bs)) Buffer_new = Some b1"
    "fill_data bs (setFilledSize (of_nat (length bs)) b1) = Some b2" "buffer_wf b2"
    using reserve_fill [OF new sz(2)] by (metis fill_data_setFilledSize option.simps(9))
  define w' where "w' = w\<lparr>sourceAgents := (sourceAgents w)(sa \<mapsto> ag\<lparr>sa_queue := rest\<rparr>),
    sources := (sources w)(s \<mapsto> src\<lparr>src_queue := src_queue src @ [b2]\<rparr>)\<rparr>"
  have ok': "source_channel_ok sa s w'"
    using o q b(3) by (simp add: source_channel_ok_def w'_def)
  have eq: "w' = w\<lparr>sources := (sources w)(s \<mapsto> src\<lparr>src_queue := src_queue src @ [b2]\<rparr>),
    sourceAgents := (sourceAgents w)(sa \<mapsto> ag\<lparr>sa_queue := rest\<rparr>)\<rparr>" by (simp add: w'_def)
  show thesis
  proof (rule that)
    show "sendRequest e a w = Some (NO_ERROR, w')"
      using svc(1,2) o q b sz bs by (simp add: sendRequest_def fill_channel_def CSourceAgent_fillBuffer_def CSource_consumeBuffer_def w'_def)
    have "tx_ok w'" by (rule tx_ok_update [OF _ svc(4) ok' eq]) (use assms(1) in \<open>simp add: l0_ok_def\<close>)
    moreover have "rx_ok w'" using assms(1) by (simp add: l0_ok_def rx_ok_def target_channel_ok_def w'_def cong: option.case_cong)
    ultimately show "l0_ok w'" by (simp add: l0_ok_def)
    show "service_ready n w'"
      using svc o q ok' by (auto simp: service_ready_def source_pool_def w'_def)
    show "l0_state.more w' = l0_state.more w" "tfq w' = tfq w" by (simp_all add: w'_def)
    have hc: "has_channel c w' = has_channel c w" for c
      using o(2) by (auto simp: has_channel_def w'_def fun_eq_iff)
    show "service_source_ok w'" if "service_source_ok w"
    proof -
      have "has_channel CA_SERVICE_CHANNEL w s" using that svc(1,2,4) unfolding service_source_ok_def by blast
      then have h: "has_channel CA_SERVICE_CHANNEL w' s" by (simp only: hc)
      show ?thesis
        unfolding service_source_ok_def
      proof (intro allI impI)
        fix info' sa' s'
        assume i: "mL1ChannelRegistry w' CA_SERVICE_CHANNEL = Some info'" "mpSourceAgent info' = Some sa'" "source_channel_ok sa' s' w'"
        have "info' = info" using i(1) svc(1) by (simp add: w'_def)
        then have "sa' = sa" using i(2) svc(2) by simp
        with i(3) have "source_channel_ok sa s' w'" by simp
        then have "s' = s" using ok' by (rule source_unique)
        then show "has_channel CA_SERVICE_CHANNEL w' s'" using h by simp
      qed
    qed
    have "has_channel c w' = has_channel c w" "all_sources w' = all_sources w" for c
      using o(2) by (auto simp: has_channel_def all_sources_def w'_def fun_eq_iff)
    then show "one_source c w'" if "one_source c w" for c
      using that by (simp add: one_source_def)
    show "channel_unused c w'" if "channel_unused c w" for c
      using that o(2) by (auto simp: channel_unused_def registered_def w'_def list_ex_iff split: if_splits option.splits)
    show "channel_open c p ca ta w'" if "channel_open c p ca ta w" for c p ca ta
    proof -
      from that obtain s0 t where c: "registered c p w" "s0 \<in> set (mRegistry w p)" "source_channel_ok ca s0 w"
        "map_of (mTargetMap w) c = Some t" "target_channel_ok t ta w" "qos w c \<noteq> None"
        unfolding channel_open_def by blast
      have "source_channel_ok ca s0 w'"
      proof (cases "s0 = s")
        case True
        then have "ca = sa" using c(3) o(2,4) by (auto elim!: source_channel_okE)
        with True ok' show ?thesis by simp
      next
        case False
        then have "ca \<noteq> sa" using c(3) o(1,3) by (auto elim!: source_channel_okE)
        with False c(3) show ?thesis by (auto simp: source_channel_ok_def w'_def)
      qed
      moreover have "registered c p w'"
        using c(1) o(2) by (auto simp: registered_def w'_def list_ex_iff split: option.splits)
      moreover have "target_channel_ok t ta w'" using c(5) by (simp add: target_channel_ok_def w'_def)
      ultimately show ?thesis using c(2,4,6) by (auto simp: channel_open_def w'_def)
    qed
  qed
qed


text \<open>Opening a channel locally keeps the service channel ready.\<close>

lemma allocateChannelLocally_ok:
  assumes "l0_ok w" "channel_unused c w" "mL1ChannelRegistry w c = None" "c \<noteq> CA_SERVICE_CHANNEL" "service_ready n w"
    and "rq_state info = E_TRANSITION_AGENT \<or> rq_state info = E_TRANSITION_CLIENT" "prio_of_u32 (rq_type info) = Some p"
  obtains w' ci sa ta where "allocateChannelLocally c info w = Some (NO_ERROR, w')" "l0_ok w'" "service_ready n w'"
    "channel_open c p sa ta w'" "one_source c w'" "mL1ChannelRegistry w' = (mL1ChannelRegistry w)(c \<mapsto> ci)"
    "ci_state ci = rq_state info" "ci_clientDir ci = rq_clientDir info" "mRequestedMap w' = mRequestedMap w"
    "ipc_result w' = ipc_result w" "ipc_log w' = ipc_log w" "mRequestId w' = mRequestId w"
proof -
  obtain sa ta w1 where al: "allocateChannel p c 0xFFFFFFFF 0 w = Some (NO_ERROR, Some sa, Some ta, w1)"
    "l0_ok w1" "channel_open c p sa ta w1" "l0_state.more w1 = l0_state.more w"
    "\<And>r. r \<in> set (all_sources w1) \<Longrightarrow> has_channel c w1 r \<Longrightarrow> r = sa + 1"
    "\<And>r. r < free_addr w \<Longrightarrow> sources w1 r = sources w r \<and> sourceAgents w1 r = sourceAgents w r"
    by (rule allocate_opens [OF assms(1,2), of p "0xFFFFFFFF" 0]) (rule that; assumption)
  have one: "one_source c w1" using al(5) by (auto simp: one_source_def)
  have m: "mL1ChannelRegistry w1 = mL1ChannelRegistry w" "mRequestedMap w1 = mRequestedMap w"
    "ipc_result w1 = ipc_result w" "ipc_log w1 = ipc_log w" "mRequestId w1 = mRequestId w"
    using al(4) by (cases w; cases w1; simp)+
  define ci where "ci = \<lparr>ci_upper = 0xFFFFFFFF, ci_lower = 0, ci_state = rq_state info, ci_type = rq_type info,
          mpSourceAgent = Some sa, mpTargetAgent = Some ta, ci_clientDir = rq_clientDir info\<rparr>"
  have "service_ready n w1"
  proof -
    obtain i ca s where sv: "mL1ChannelRegistry w CA_SERVICE_CHANNEL = Some i" "mpSourceAgent i = Some ca"
      "n \<le> source_pool ca w" "source_channel_ok ca s w"
      using assms(5) by (auto simp: service_ready_def split: option.splits)
    have "ca < free_addr w" "s < free_addr w"
      using assms(1) sv(4) by (auto simp: l0_ok_def tx_ok_def not_le [symmetric] elim!: source_channel_okE)
    with al(6) have "source_channel_ok ca s w1" "source_pool ca w1 = source_pool ca w"
      using sv(4) by (simp_all add: source_channel_ok_def source_pool_def)
    with sv m(1) show ?thesis by (auto simp: service_ready_def)
  qed
  with al one m assms show thesis
    by (intro that [of "w1\<lparr>mL1ChannelRegistry := (mL1ChannelRegistry w1)(c \<mapsto> ci)\<rparr>" sa ta ci])
      (auto simp: allocateChannelLocally_def isNoError_def ci_def)
qed


section \<open>Steps of the handshake\<close>

definition idle :: "u32 \<Rightarrow> l1_state \<Rightarrow> bool" where
  "idle c w \<longleftrightarrow> l0_ok w \<and> channel_unused c w \<and> mL1ChannelRegistry w c = None \<and> mRequestedMap w c = None"

definition allocate_request :: "endian \<Rightarrow> u32 \<Rightarrow> TChannelPriority \<Rightarrow> CDataAccessor \<Rightarrow> bool" where
  "allocate_request e c p a \<longleftrightarrow> mOperation a = E_ALLOCATE_CHANNEL \<and> mChannelID a = c \<and> mErrorCode a = NO_ERROR
     \<and> mDataSize a = 4 \<and> (case mpData a of None \<Rightarrow> False | Some d \<Rightarrow> length d = 4 \<and> prio_of_u32 (load e d) = Some p)"

text \<open>The states of a channel on the way: asked for by the client, asked for by the peer, opened, in use.\<close>

definition requested :: "tChannelState \<Rightarrow> u32 \<Rightarrow> u32 \<Rightarrow> DirectionID \<Rightarrow> l1_state \<Rightarrow> bool" where
  "requested st c prio d w \<longleftrightarrow> l0_ok w \<and> channel_unused c w \<and> mL1ChannelRegistry w c = None
     \<and> mRequestedMap w c = Some \<lparr>rq_type = prio, rq_state = st, rq_clientDir = d\<rparr>"

definition opened :: "tChannelState \<Rightarrow> u32 \<Rightarrow> TChannelPriority \<Rightarrow> DirectionID \<Rightarrow> l1_state \<Rightarrow> bool" where
  "opened st c p d w \<longleftrightarrow> l0_ok w \<and> mRequestedMap w c = None \<and> (\<exists>sa ta. channel_open c p sa ta w) \<and> one_source c w
     \<and> (\<exists>info. mL1ChannelRegistry w c = Some info \<and> ci_state info = st \<and> ci_clientDir info = d)"

lemma allocate_requestE:
  assumes "allocate_request e c p a"
  obtains d where "mChannelID a = c" "mErrorCode a = NO_ERROR" "load_priority e a = Some (load e d)"
    "load_data_word e a = Some (load e d)" "prio_of_u32 (load e d) = Some p" "service_message_ok a"
    "setErrorCode NO_ERROR a = a"
proof -
  obtain d where d: "mChannelID a = c" "mErrorCode a = NO_ERROR" "mDataSize a = 4" "mpData a = Some d" "length d = 4"
    "prio_of_u32 (load e d) = Some p"
    using assms by (auto simp: allocate_request_def split: option.splits)
  moreover have "d \<noteq> []" using d(5) by auto
  ultimately show thesis
    by (intro that [of d]) (auto simp: load_priority_def load_data_word_def accessor_bytes_def service_message_ok_def
        accessor_wf_def setErrorCode_def)
qed

lemma more_fields:
  assumes "l0_state.more w' = l0_state.more (w :: l1_state)"
  shows "mL1ChannelRegistry w' = mL1ChannelRegistry w" "mRequestedMap w' = mRequestedMap w"
    "ipc_result w' = ipc_result w" "ipc_log w' = ipc_log w" "mRequestId w' = mRequestId w"
  using assms by (cases w; cases w'; simp)+

lemma client_asks_first:
  assumes "allocate_request e c p a" "c \<noteq> CA_SERVICE_CHANNEL" "idle c w" "service_ready (Suc n) w" "d \<noteq> -1"
  obtains w' prio where "processClientAllocateRequest e a d w = Some (False, a, w')" "service_ready n w'"
    "requested E_TRANSITION_CLIENT c prio d w'" "prio_of_u32 prio = Some p"
proof -
  obtain bs where a: "mChannelID a = c" "load_priority e a = Some (load e bs)" "prio_of_u32 (load e bs) = Some p"
    "service_message_ok a" "setErrorCode NO_ERROR a = a"
    using assms(1) by (rule allocate_requestE)
  define w1 where "w1 = w\<lparr>mRequestedMap := (mRequestedMap w)(c \<mapsto>
    \<lparr>rq_type = load e bs, rq_state = E_TRANSITION_CLIENT, rq_clientDir = d\<rparr>)\<rparr>"
  have ok: "l0_ok w1" "service_ready (Suc n) w1" "channel_unused c w1"
    using assms(3,4) by (simp_all add: w1_def idle_def)
  obtain w' where w': "sendRequest e a w1 = Some (NO_ERROR, w')" "l0_ok w'" "service_ready n w'"
    "l0_state.more w' = l0_state.more w1" "channel_unused c w'"
    using sendRequest_ok [OF ok(1,2) a(4)] ok(3) by metis
  show thesis
  proof (rule that)
    show "processClientAllocateRequest e a d w = Some (False, a, w')"
      using assms(2,3,5) a w'(1)
      by (simp add: processClientAllocateRequest_def beginAllocateChannel_def idle_def isNoError_def w1_def)
    show "requested E_TRANSITION_CLIENT c (load e bs) d w'"
      using w' more_fields [OF w'(4)] assms(3) by (simp add: requested_def w1_def idle_def)
  qed (use w' a in simp_all)
qed

lemma peer_asks_first:
  assumes "allocate_request e c p a" "idle c w" "service_ready n w"
  obtains a' w' prio where "processServiceAllocateRequest e a w = Some (a', w')" "service_ready n w'"
    "requested E_TRANSITION_AGENT c prio (-1) w'" "prio_of_u32 prio = Some p"
proof -
  obtain bs where a: "mChannelID a = c" "mErrorCode a = NO_ERROR" "load_data_word e a = Some (load e bs)"
    "prio_of_u32 (load e bs) = Some p"
    using assms(1) by (rule allocate_requestE)
  show thesis
    by (rule that [of "accessor_resetData (setOpCode E_ALLOCATE_CHANNEL_RESP a)" "timeout_addSubscriber E_ALLOCATE_CHANNEL c
        (w\<lparr>mRequestedMap := (mRequestedMap w)(c \<mapsto>
          \<lparr>rq_type = load e bs, rq_state = E_TRANSITION_AGENT, rq_clientDir = -1\<rparr>)\<rparr>)" "load e bs"])
      (use assms(2,3) a in \<open>simp_all add: processServiceAllocateRequest_def beginAllocateChannel_def isNoError_def
        idle_def requested_def timeout_addSubscriber_def\<close>)
qed


lemma client_asks_second:
  assumes "allocate_request e c p' a" "c \<noteq> CA_SERVICE_CHANNEL" "requested E_TRANSITION_AGENT c prio d0 w"
    and "prio_of_u32 prio = Some p" "service_ready (Suc n) w" "d \<noteq> -1"
  obtains w' where "processClientAllocateRequest e a d w = Some (False, a, w')" "service_ready n w'"
    "opened E_TRANSITION_AGENT c p d w'"
proof -
  obtain bs where a: "mChannelID a = c" "load_priority e a = Some (load e bs)" "service_message_ok a" "setErrorCode NO_ERROR a = a"
    using assms(1) by (rule allocate_requestE)
  define info where "info = \<lparr>rq_type = prio, rq_state = E_TRANSITION_AGENT, rq_clientDir = d\<rparr>"
  have info: "rq_state info = E_TRANSITION_AGENT \<or> rq_state info = E_TRANSITION_CLIENT" "prio_of_u32 (rq_type info) = Some p"
    using assms(4) by (simp_all add: info_def)
  define w1 where "w1 = w\<lparr>mRequestedMap := (mRequestedMap w)(c \<mapsto> info)\<rparr>"
  have ok: "l0_ok w1" "channel_unused c w1" "mL1ChannelRegistry w1 c = None" "service_ready (Suc n) w1"
    using assms(3,5) by (simp_all add: w1_def requested_def)
  obtain w2 ci sa ta where w2: "allocateChannelLocally c info w1 = Some (NO_ERROR, w2)" "l0_ok w2" "service_ready (Suc n) w2"
    "channel_open c p sa ta w2" "one_source c w2" "mL1ChannelRegistry w2 = (mL1ChannelRegistry w1)(c \<mapsto> ci)"
    "ci_state ci = rq_state info" "ci_clientDir ci = rq_clientDir info" "mRequestedMap w2 = mRequestedMap w1"
    by (rule allocateChannelLocally_ok [OF ok(1,2,3) assms(2) ok(4) info]) (rule that; assumption)
  define w3 where "w3 = w2\<lparr>mRequestedMap := (mRequestedMap w2)(c := None)\<rparr>"
  have ok3: "l0_ok w3" "service_ready (Suc n) w3" "channel_open c p sa ta w3" "one_source c w3" using w2 by (simp_all add: w3_def)
  obtain w' where w': "sendRequest e a w3 = Some (NO_ERROR, w')" "l0_ok w'" "service_ready n w'"
    "l0_state.more w' = l0_state.more w3" "channel_open c p sa ta w'" "one_source c w'"
    using sendRequest_ok [OF ok3(1,2) a(3)] ok3(3,4) by metis
  show thesis
  proof (rule that)
    have "beginAllocateChannel (load e bs) c True d w = Some (NO_ERROR, d, w3)"
      using assms(3) w2(1) by (simp add: beginAllocateChannel_def requested_def info_def w1_def w3_def Let_def)
    then show "processClientAllocateRequest e a d w = Some (False, a, w')"
      using assms(2) a w'(1) by (simp add: processClientAllocateRequest_def isNoError_def)
    show "opened E_TRANSITION_AGENT c p d w'"
      using w' w2 more_fields [OF w'(4)] by (auto simp: opened_def w3_def info_def)
  qed (rule w'(3))
qed

lemma peer_asks_second:
  assumes "allocate_request e c p' a" "c \<noteq> CA_SERVICE_CHANNEL" "requested E_TRANSITION_CLIENT c prio d w"
    and "prio_of_u32 prio = Some p" "service_ready (Suc n) w"
  obtains w' where "processServiceAllocateRequest e a w = Some (accessor_resetData (setOpCode E_ALLOCATE_CHANNEL_RESP a), w')"
    "service_ready n w'" "opened E_TRANSITION_CLIENT c p d w'"
proof -
  obtain bs where a: "mChannelID a = c" "mErrorCode a = NO_ERROR" "load_data_word e a = Some (load e bs)"
    "service_message_ok a" "setErrorCode NO_ERROR a = a"
    using assms(1) by (rule allocate_requestE)
  define r where "r = accessor_resetData (setOpCode E_ALLOCATE_CHANNEL_RESP a)"
  have r: "service_message_ok r" "setErrorCode NO_ERROR r = r"
    using a(2) by (simp_all add: r_def service_message_ok_def setErrorCode_def setOpCode_def accessor_resetData_def accessor_wf_def)
  define info where "info = \<lparr>rq_type = prio, rq_state = E_TRANSITION_CLIENT, rq_clientDir = d\<rparr>"
  have info: "rq_state info = E_TRANSITION_AGENT \<or> rq_state info = E_TRANSITION_CLIENT" "prio_of_u32 (rq_type info) = Some p"
    using assms(4) by (simp_all add: info_def)
  have ok: "l0_ok w" "channel_unused c w" "mL1ChannelRegistry w c = None" using assms(3) by (simp_all add: requested_def)
  have w: "mRequestedMap w c = Some info" "w\<lparr>mRequestedMap := (mRequestedMap w)(c \<mapsto> info)\<rparr> = w"
    using assms(3) by (simp_all add: requested_def info_def map_upd_triv)
  obtain w2 ci sa ta where w2: "allocateChannelLocally c info w = Some (NO_ERROR, w2)" "l0_ok w2" "service_ready (Suc n) w2"
    "channel_open c p sa ta w2" "one_source c w2" "mL1ChannelRegistry w2 = (mL1ChannelRegistry w)(c \<mapsto> ci)"
    "ci_state ci = rq_state info" "ci_clientDir ci = rq_clientDir info" "mRequestedMap w2 = mRequestedMap w"
    by (rule allocateChannelLocally_ok [OF ok(1,2,3) assms(2,5) info]) (rule that; assumption)
  define w3 where "w3 = w2\<lparr>mRequestedMap := (mRequestedMap w2)(c := None)\<rparr>"
  have ok3: "l0_ok w3" "service_ready (Suc n) w3" "channel_open c p sa ta w3" "one_source c w3" using w2 by (simp_all add: w3_def)
  obtain w' where w': "sendRequest e r w3 = Some (NO_ERROR, w')" "l0_ok w'" "service_ready n w'"
    "l0_state.more w' = l0_state.more w3" "channel_open c p sa ta w'" "one_source c w'"
    using sendRequest_ok [OF ok3(1,2) r(1)] ok3(3,4) by metis
  show thesis
  proof (rule that)
    have "beginAllocateChannel (load e bs) c False (-1) w = Some (NO_ERROR, d, w3)"
      using assms(3) w w2(1) by (simp add: beginAllocateChannel_def requested_def w3_def info_def Let_def)
    then show "processServiceAllocateRequest e a w = Some (accessor_resetData (setOpCode E_ALLOCATE_CHANNEL_RESP a), w')"
      using a r w'(1) by (simp add: processServiceAllocateRequest_def isNoError_def r_def [symmetric])
    show "opened E_TRANSITION_CLIENT c p d w'"
      using w' w2 more_fields [OF w'(4)] by (auto simp: opened_def w3_def info_def)
  qed (rule w'(3))
qed

text \<open>A positive response completes the channel: the side the peer asked first answers once more.\<close>

lemma notification_ok:
  assumes "d \<noteq> -1" "accessor_wf a" "opened st c p d' w" "service_ready n w"
  obtains w' where "sendIpcNotification e a d w = Some w'" "opened st c p d' w'" "service_ready n w'"
proof -
  obtain raw where "copyToRawArray e a = Some raw" using accessor_raw_roundtrip [OF assms(2)] by metis
  with assms show thesis
    by (intro that [of "snd (ipc_asyncRequest raw d w)"])
      (auto simp: sendIpcNotification_def ipc_asyncRequest_def MsgIdGen_next_def Let_def opened_def)
qed

lemma response_completes_client:
  assumes "mChannelID a = c" "mErrorCode a = NO_ERROR" "accessor_wf a" "opened E_TRANSITION_CLIENT c p d w"
    and "c \<noteq> CA_SERVICE_CHANNEL" "service_ready n w" "d \<noteq> -1"
  obtains w' where "processServiceAllocateResponse e a w = Some (a, w')" "service_ready n w'" "opened E_OPERATIONAL c p d w'"
proof -
  obtain info where info: "mL1ChannelRegistry w c = Some info" "ci_state info = E_TRANSITION_CLIENT" "ci_clientDir info = d"
    using assms(4) by (auto simp: opened_def)
  define w1 where "w1 = w\<lparr>mL1ChannelRegistry := (mL1ChannelRegistry w)(c \<mapsto> info\<lparr>ci_state := E_OPERATIONAL\<rparr>)\<rparr>"
  have "opened E_OPERATIONAL c p d w1" "service_ready n w1"
    using assms(4,5,6) info by (auto simp: opened_def w1_def)
  from notification_ok [OF assms(7,3) this, of e] obtain w' where w': "sendIpcNotification e a d w1 = Some w'"
    "opened E_OPERATIONAL c p d w'" "service_ready n w'" by metis
  show thesis
    by (rule that [OF _ w'(3,2)])
      (use assms info w'(1) in \<open>simp add: processServiceAllocateResponse_def endAllocateChannel_def isNoError_def w1_def\<close>)
qed

lemma response_completes_agent:
  assumes "mChannelID a = c" "mErrorCode a = NO_ERROR" "service_message_ok a" "opened E_TRANSITION_AGENT c p d w"
    and "c \<noteq> CA_SERVICE_CHANNEL" "service_ready (Suc n) w" "d \<noteq> -1"
  obtains w' where "processServiceAllocateResponse e a w = Some (a, w')" "service_ready n w'" "opened E_OPERATIONAL c p d w'"
proof -
  obtain info where info: "mL1ChannelRegistry w c = Some info" "ci_state info = E_TRANSITION_AGENT" "ci_clientDir info = d"
    using assms(4) by (auto simp: opened_def)
  define w1 where "w1 = w\<lparr>mL1ChannelRegistry := (mL1ChannelRegistry w)(c \<mapsto> info\<lparr>ci_state := E_OPERATIONAL\<rparr>)\<rparr>"
  obtain sa ta where o: "l0_ok w1" "service_ready (Suc n) w1" "channel_open c p sa ta w1" "one_source c w1" "mRequestedMap w1 c = None"
    using assms(4,5,6) info by (auto simp: opened_def w1_def)
  have a: "setErrorCode NO_ERROR a = a" "accessor_wf a"
    using assms(2,3) by (simp_all add: setErrorCode_def service_message_ok_def)
  obtain w2 where w2: "sendRequest e a w1 = Some (NO_ERROR, w2)" "l0_ok w2" "service_ready n w2"
    "l0_state.more w2 = l0_state.more w1" "channel_open c p sa ta w2" "one_source c w2"
    using sendRequest_ok [OF o(1,2) assms(3)] o(3,4) by metis
  have "opened E_OPERATIONAL c p d w2"
    using w2 o(5) more_fields [OF w2(4)] info by (auto simp: opened_def w1_def)
  from notification_ok [OF assms(7) a(2) this w2(3), of e] obtain w' where w': "sendIpcNotification e a d w2 = Some w'"
    "opened E_OPERATIONAL c p d w'" "service_ready n w'" by metis
  show thesis
    by (rule that [OF _ w'(3,2)])
      (use assms(1,2,7) info w'(1) w2(1) [unfolded w1_def] in
        \<open>simp add: processServiceAllocateResponse_def endAllocateChannel_def isNoError_def Let_def a(1)\<close>)
qed

section \<open>Properties\<close>


section \<open>Closing a channel\<close>

definition deallocate_request :: "u32 \<Rightarrow> CDataAccessor \<Rightarrow> bool" where
  "deallocate_request c a \<longleftrightarrow> mOperation a = E_DEALLOCATE_CHANNEL \<and> mChannelID a = c \<and> service_message_ok a"

lemma client_closes:
  assumes "deallocate_request c a" "c \<noteq> CA_SERVICE_CHANNEL" "opened st c p d w" "service_ready (Suc n) w"
    and "service_source_ok w"
  obtains w' where "processClientDeallocateRequest e a dir w = Some (False, a, w')" "service_ready n w'"
    "opened E_TRANSITION_CLIENT c p d w'" "service_source_ok w'"
proof -
  obtain info where info: "mL1ChannelRegistry w c = Some info" "ci_clientDir info = d"
    using assms(3) by (auto simp: opened_def)
  define w1 where "w1 = w\<lparr>mL1ChannelRegistry := (mL1ChannelRegistry w)(c \<mapsto> info\<lparr>ci_state := E_TRANSITION_CLIENT\<rparr>)\<rparr>"
  have a: "mChannelID a = c" "service_message_ok a" using assms(1) by (simp_all add: deallocate_request_def)
  obtain sa ta where o: "l0_ok w1" "service_ready (Suc n) w1" "channel_open c p sa ta w1" "one_source c w1" "mRequestedMap w1 c = None"
    "service_source_ok w1"
    using assms info by (auto simp: opened_def w1_def)
  obtain w2 where w2: "sendRequest e a w1 = Some (NO_ERROR, w2)" "l0_ok w2" "service_ready n w2"
    "l0_state.more w2 = l0_state.more w1" "channel_open c p sa ta w2" "one_source c w2" "service_source_ok w2"
    using sendRequest_ok [OF o(1,2) a(2)] o(3,4,6) by metis
  show thesis
  proof (rule that)
    show "processClientDeallocateRequest e a dir w = Some (False, a, timeout_addSubscriber (mOperation a) c w2)"
      using assms(2) a info w2(1) by (simp add: processClientDeallocateRequest_def w1_def)
    show "opened E_TRANSITION_CLIENT c p d (timeout_addSubscriber (mOperation a) c w2)"
      using w2 o(5) more_fields [OF w2(4)] info by (auto simp: opened_def timeout_addSubscriber_def w1_def)
  qed (use w2 in \<open>simp_all add: timeout_addSubscriber_def\<close>)
qed

definition closed :: "u32 \<Rightarrow> l1_state \<Rightarrow> bool" where
  "closed c w \<longleftrightarrow> idle c w \<and> no_frames_of c w"

lemma closes_locally:
  assumes "opened st c p d w" "c \<noteq> CA_SERVICE_CHANNEL" "service_ready n w" "service_source_ok w"
  obtains w' where "L1_deallocateChannel c w = Some (NO_ERROR, w')" "l0_state.more w' = l0_state.more w" "service_ready n w'"
    "l0_ok w'" "channel_unused c w'" "no_frames_of c w'"
proof -
  obtain sa ta info where o: "l0_ok w" "channel_open c p sa ta w" "one_source c w" "mL1ChannelRegistry w c = Some info"
    using assms(1) by (auto simp: opened_def)
  obtain w' where w': "allocator_deallocateChannel c w = Some (NO_ERROR, w')" "l0_ok w'" "channel_unused c w'"
    "no_frames_of c w'" "l0_state.more w' = l0_state.more w"
    "\<And>b q. source_channel_ok b q w \<Longrightarrow> \<not> has_channel c w q \<Longrightarrow>
       source_channel_ok b q w' \<and> source_pool b w' = source_pool b w"
    by (rule deallocate_closes [OF o(1,2,3)]) (rule that; assumption)
  obtain i ca s where sv: "mL1ChannelRegistry w CA_SERVICE_CHANNEL = Some i" "mpSourceAgent i = Some ca"
      "n \<le> source_pool ca w" "source_channel_ok ca s w"
    using assms(3) by (auto simp: service_ready_def split: option.splits)
  have "has_channel CA_SERVICE_CHANNEL w s" using assms(4) sv unfolding service_source_ok_def by blast
  then have "\<not> has_channel c w s" using assms(2) by (auto simp: has_channel_def split: option.splits)
  with w'(6) sv(4) have "source_channel_ok ca s w'" "source_pool ca w' = source_pool ca w" by blast+
  then have "service_ready n w'"
    using sv more_fields [OF w'(5)] by (auto simp: service_ready_def)
  with w' o(4) show thesis
    by (intro that [of w']) (simp_all add: L1_deallocateChannel_def)
qed

lemma peer_closes:
  assumes "deallocate_request c a" "c \<noteq> CA_SERVICE_CHANNEL" "opened st c p d w" "service_ready (Suc n) w" "service_source_ok w"
  obtains w' where "processServiceDeallocateRequest e a w = Some (setOpCode E_DEALLOCATE_CHANNEL_NTF
      (accessor_setData (store e 4 NO_ERROR) (setOpCode E_DEALLOCATE_CHANNEL_RESP a)), w')" "service_ready n w'" "closed c w'"
proof -
  obtain w1 where w1: "L1_deallocateChannel c w = Some (NO_ERROR, w1)" "l0_state.more w1 = l0_state.more w"
    "service_ready (Suc n) w1" "l0_ok w1" "channel_unused c w1" "no_frames_of c w1"
    using closes_locally [OF assms(3,2,4,5)] by metis
  obtain info where info: "mL1ChannelRegistry w1 c = Some info" "mRequestedMap w1 c = None"
    using assms(3) more_fields [OF w1(2)] by (auto simp: opened_def)
  have a: "mChannelID a = c" "service_message_ok a" using assms(1) by (simp_all add: deallocate_request_def)
  define r where "r = accessor_setData (store e 4 NO_ERROR) (setOpCode E_DEALLOCATE_CHANNEL_RESP a)"
  have ne: "store e 4 (w :: u32) \<noteq> []" for w by (metis length_store list.size(3) zero_neq_numeral)
  have r: "service_message_ok r" "accessor_wf (setOpCode E_DEALLOCATE_CHANNEL_NTF r)"
    using a(2) ne by (simp_all add: r_def service_message_ok_def accessor_wf_setData) (simp add: accessor_setData_def)
  obtain w2 where w2: "sendRequest e r w1 = Some (NO_ERROR, w2)" "l0_ok w2" "service_ready n w2"
    "l0_state.more w2 = l0_state.more w1" "channel_unused c w2" "tfq w2 = tfq w1"
    using sendRequest_ok [OF w1(4,3) r(1)] w1(5) by metis
  obtain raw where raw: "copyToRawArray e (setOpCode E_DEALLOCATE_CHANNEL_NTF r) = Some raw"
    using accessor_raw_roundtrip [OF r(2)] by metis
  define w3 where "w3 = snd (ipc_asyncRequest raw (ci_clientDir info) (w2\<lparr>mL1ChannelRegistry := (mL1ChannelRegistry w2)(c := None)\<rparr>))"
  show thesis
  proof (rule that)
    show "processServiceDeallocateRequest e a w = Some (setOpCode E_DEALLOCATE_CHANNEL_NTF
        (accessor_setData (store e 4 NO_ERROR) (setOpCode E_DEALLOCATE_CHANNEL_RESP a)), w3)"
      using a w1(1) w2(1) raw info(1) more_fields [OF w2(4)]
      by (simp add: processServiceDeallocateRequest_def isNoError_def r_def [symmetric] w3_def)
    show "service_ready n w3"
      using w2(3) assms(2) by (simp add: w3_def ipc_asyncRequest_def MsgIdGen_next_def Let_def)
    show "closed c w3"
      using w2 w1(6) info more_fields [OF w2(4)]
      by (simp add: w3_def closed_def idle_def no_frames_of_def ipc_asyncRequest_def MsgIdGen_next_def Let_def)
  qed
qed

lemma client_closed:
  assumes "mChannelID a = c" "load_data_word e a = Some NO_ERROR" "accessor_wf a" "c \<noteq> CA_SERVICE_CHANNEL"
    and "opened st c p d w" "service_ready n w" "service_source_ok w"
  obtains w' where "processServiceDeallocateResponse e a w = Some (a, w')" "service_ready n w'" "closed c w'"
proof -
  obtain w1 where w1: "L1_deallocateChannel c w = Some (NO_ERROR, w1)" "l0_state.more w1 = l0_state.more w"
    "service_ready n w1" "l0_ok w1" "channel_unused c w1" "no_frames_of c w1"
    using closes_locally [OF assms(5,4,6,7)] by metis
  obtain info where info: "mL1ChannelRegistry w1 c = Some info" "mRequestedMap w1 c = None"
    using assms(5) more_fields [OF w1(2)] by (auto simp: opened_def)
  obtain raw where raw: "copyToRawArray e a = Some raw" using accessor_raw_roundtrip [OF assms(3)] by metis
  define w3 where "w3 = snd (ipc_asyncRequest raw (ci_clientDir info) (w1\<lparr>mL1ChannelRegistry := (mL1ChannelRegistry w1)(c := None)\<rparr>))"
  show thesis
  proof (rule that)
    show "processServiceDeallocateResponse e a w = Some (a, w3)"
      using assms(1,2) w1(1) raw info(1) by (simp add: processServiceDeallocateResponse_def isNoError_def w3_def)
    show "service_ready n w3"
      using w1(3) assms(4) by (simp add: w3_def ipc_asyncRequest_def MsgIdGen_next_def Let_def)
    show "closed c w3"
      using w1 info by (simp add: w3_def closed_def idle_def no_frames_of_def ipc_asyncRequest_def MsgIdGen_next_def Let_def)
  qed
qed


definition closing_response :: "endian \<Rightarrow> CDataAccessor \<Rightarrow> CDataAccessor" where
  "closing_response e a = accessor_setData (store e 4 NO_ERROR) (setOpCode E_DEALLOCATE_CHANNEL_RESP a)"

text \<open>
  When the client of one side gives up an operational channel, the request to the peer
  and its response close it on both sides: no table and no object knows the channel any more, no frame
  of it waits for an acknowledgement, and it can be allocated again.
\<close>

theorem deallocation_closes:
  assumes "c \<noteq> CA_SERVICE_CHANNEL" "deallocate_request c a"
    and "opened E_OPERATIONAL c pA dA wA" "service_ready 1 wA" "service_source_ok wA"
    and "opened E_OPERATIONAL c pB dB wB" "service_ready 1 wB" "service_source_ok wB"
  shows "\<exists>wA1 wA2 wB1 b. processClientDeallocateRequest e a dA wA = Some (False, a, wA1)
    \<and> processServiceDeallocateRequest e a wB = Some (b, wB1)
    \<and> processServiceDeallocateResponse e (closing_response e a) wA1 = Some (closing_response e a, wA2)
    \<and> closed c wA2 \<and> closed c wB1"
proof -
  obtain wA1 where A1: "processClientDeallocateRequest e a dA wA = Some (False, a, wA1)" "service_ready 0 wA1"
    "opened E_TRANSITION_CLIENT c pA dA wA1" "service_source_ok wA1"
    using client_closes [OF assms(2,1,3) _ assms(5), of 0] assms(4) by auto
  obtain b wB1 where B1: "processServiceDeallocateRequest e a wB = Some (b, wB1)" "closed c wB1"
    using peer_closes [OF assms(2,1,6) _ assms(8), of 0] assms(7) by (metis One_nat_def)
  have ne: "store e 4 NO_ERROR \<noteq> []" by (metis length_store list.size(3) zero_neq_numeral)
  have a: "mChannelID a = c" "accessor_wf a" using assms(2) by (simp_all add: deallocate_request_def service_message_ok_def)
  have r: "mChannelID (closing_response e a) = c" "accessor_wf (closing_response e a)"
    using a by (simp_all add: closing_response_def accessor_wf_setData)
  have "mpData (closing_response e a) = Some (store e 4 NO_ERROR)"
    using ne by (simp add: closing_response_def accessor_setData_def)
  then have w: "load_data_word e (closing_response e a) = Some NO_ERROR"
    by (simp add: load_data_word_def load_store)
  obtain wA2 where "processServiceDeallocateResponse e (closing_response e a) wA1 = Some (closing_response e a, wA2)"
    "closed c wA2"
    using client_closed [OF r(1) w r(2) assms(1) A1(3,2,4)] by metis
  with A1(1) B1 show ?thesis by blast
qed

section \<open>Messages and byte orders\<close>

text \<open>
  A service message sent by an agent of one byte order is read by an agent of any
  byte order as the same operation, channel, error code and data, to its last byte.
\<close>

theorem service_message_roundtrip:
  assumes "service_message_ok a"
  shows "\<exists>bs. service_bytes e a = Some bs \<and> parse_service e' bs (length bs) 0 accessor_new = Some (a, length bs)"
  using service_bytes_parse [OF assms] by (metis append_Nil2)

definition plain_data_request :: "endian \<Rightarrow> u32 \<Rightarrow> CDataAccessor" where
  "plain_data_request e c = accessor_setData (store e 4 (2 :: u32)) (setChannelID c (setOpCode E_ALLOCATE_CHANNEL accessor_new))"

text \<open>
  The data of a message are not converted, so the priority of an allocation request is
  read in the byte order of the receiver: what a little-endian client asked for as plain data a
  big-endian agent opens as safety-critical.
\<close>

theorem priority_byte_order:
  assumes "idle c w"
  shows "allocate_request LittleEndian c ePlainData (plain_data_request LittleEndian c)
    \<and> (\<exists>a w' prio. processServiceAllocateRequest BigEndian (plain_data_request LittleEndian c) w = Some (a, w')
        \<and> requested E_TRANSITION_AGENT c prio (-1) w' \<and> prio_of_u32 prio = Some eSafetyCritical)"
proof -
  have st: "store LittleEndian 4 (2 :: u32) = [2, 0, 0, 0]"
    by code_simp
  have l: "load BigEndian [2, 0, 0, 0] = (0x02000000 :: u32)" "load LittleEndian [2, 0, 0, 0] = (2 :: u32)"
    by code_simp+
  have p: "prio_of_u32 0x02000000 = Some eSafetyCritical" "prio_of_u32 2 = Some ePlainData"
    by (simp_all add: prio_of_u32_def)
  show ?thesis
    using assms p
    by (simp add: plain_data_request_def st l allocate_request_def accessor_setData_def setChannelID_def setOpCode_def
        accessor_new_def processServiceAllocateRequest_def load_data_word_def beginAllocateChannel_def idle_def
        requested_def isNoError_def timeout_addSubscriber_def accessor_resetData_def)
qed

section \<open>Sample processes\<close>

text \<open>A process connected to its peer, with the service channel open and no client channel.\<close>

definition sample_connected :: l1_state where
  "sample_connected = (l1_init (\<lambda>_. NO_ERROR))\<lparr>
     sourceAgents := [0 \<mapsto> \<lparr>sa_channel = 0, sa_queue = replicate 200 Buffer_new, sa_consumer = Some 1\<rparr>],
     sources := [1 \<mapsto> \<lparr>src_channel = 0, src_frameCounter = 1, src_queue = [], src_producer = Some 0\<rparr>],
     targetAgents := [2 \<mapsto> \<lparr>ta_channel = 0, ta_queue = [], ta_producer = Some 3\<rparr>],
     targets := [3 \<mapsto> \<lparr>tgt_channel = 0, tgt_queue = replicate 200 Buffer_new, tgt_consumer = Some 2, mLastFrameNr = 0,
       mCarrierReplaced = False\<rparr>],
     free_addr := 4, mRegistry := (\<lambda>_. [])(eSafetyCritical := [1]), mTargetMap := [(0, 3)], qos := [0 \<mapsto> timeStat_init],
     mL1ChannelRegistry := [0 \<mapsto> \<lparr>ci_upper = 0xFFFFFFFF, ci_lower = 0, ci_state = E_TRANSITION_CLIENT, ci_type = 0,
       mpSourceAgent = Some 0, mpTargetAgent = Some 2, ci_clientDir = -1\<rparr>]\<rparr>"

text \<open>The same process with channel 7 in use by client 5.\<close>

definition sample_operational :: l1_state where
  "sample_operational = sample_connected\<lparr>
     sourceAgents := (sourceAgents sample_connected)(4 \<mapsto>
       \<lparr>sa_channel = 7, sa_queue = replicate 200 Buffer_new, sa_consumer = Some 5\<rparr>),
     sources := (sources sample_connected)(5 \<mapsto>
       \<lparr>src_channel = 7, src_frameCounter = 1, src_queue = [], src_producer = Some 4\<rparr>),
     targetAgents := (targetAgents sample_connected)(6 \<mapsto> \<lparr>ta_channel = 7, ta_queue = [], ta_producer = Some 7\<rparr>),
     targets := (targets sample_connected)(7 \<mapsto> \<lparr>tgt_channel = 7, tgt_queue = replicate 200 Buffer_new,
       tgt_consumer = Some 6, mLastFrameNr = 0, mCarrierReplaced = False\<rparr>),
     free_addr := 8, mRegistry := (\<lambda>_. [])(eSafetyCritical := [1], ePlainData := [5]), mTargetMap := [(0, 3), (7, 7)],
     qos := [0 \<mapsto> timeStat_init, 7 \<mapsto> timeStat_init],
     mL1ChannelRegistry := (mL1ChannelRegistry sample_connected)(7 \<mapsto> \<lparr>ci_upper = 0xFFFFFFFF, ci_lower = 0,
       ci_state = E_OPERATIONAL, ci_type = 2, mpSourceAgent = Some 4, mpTargetAgent = Some 6, ci_clientDir = 5\<rparr>)\<rparr>"

lemma sample_channels:
  "source_channel_ok 0 1 sample_connected" "target_channel_ok 3 2 sample_connected"
  "source_channel_ok 0 1 sample_operational" "target_channel_ok 3 2 sample_operational"
  "source_channel_ok 4 5 sample_operational" "target_channel_ok 7 6 sample_operational"
  by (simp_all add: source_channel_ok_def target_channel_ok_def sample_connected_def sample_operational_def l1_init_def
      QUEUE_SIZE_def buffer_mem_ok_def Buffer_new_def list_all_iff)

lemma sample_l0_ok: "l0_ok sample_connected" "l0_ok sample_operational"
proof -
  have "tx_ok sample_connected" "rx_ok sample_connected"
    using sample_channels(1,2) by (auto simp: tx_ok_def rx_ok_def all_sources_def priorities_def)
      (auto simp: sample_connected_def l1_init_def)
  moreover have "tx_ok sample_operational" "rx_ok sample_operational"
    using sample_channels(3,4,5,6) by (auto simp: tx_ok_def rx_ok_def all_sources_def priorities_def)
      (auto simp: sample_operational_def sample_connected_def l1_init_def)
  ultimately show "l0_ok sample_connected" "l0_ok sample_operational" by (simp_all add: l0_ok_def)
qed


lemma service_source_okI:
  assumes "mL1ChannelRegistry w CA_SERVICE_CHANNEL = Some info" "mpSourceAgent info = Some sa" "source_channel_ok sa s w"
    and "has_channel CA_SERVICE_CHANNEL w s"
  shows "service_source_ok w"
  using assms source_unique [OF assms(3)] unfolding service_source_ok_def by (metis option.inject)

lemma sample_connected_ready: "idle 7 sample_connected" "service_ready 2 sample_connected"
proof -
  have "channel_unused 7 sample_connected"
    by (simp add: channel_unused_def registered_def sample_connected_def l1_init_def)
  then show "idle 7 sample_connected"
    by (simp add: idle_def sample_l0_ok) (simp add: sample_connected_def l1_init_def)
  show "service_ready 2 sample_connected"
    using sample_channels(1)
    by (auto simp: service_ready_def CA_SERVICE_CHANNEL_def sample_connected_def source_pool_def)
qed

lemma sample_operational_ready: "opened E_OPERATIONAL 7 ePlainData 5 sample_operational" "service_ready 1 sample_operational"
  "service_source_ok sample_operational"
proof -
  have r: "mL1ChannelRegistry sample_operational 0 = Some \<lparr>ci_upper = 0xFFFFFFFF, ci_lower = 0, ci_state = E_TRANSITION_CLIENT,
      ci_type = 0, mpSourceAgent = Some 0, mpTargetAgent = Some 2, ci_clientDir = -1\<rparr>"
    "mRegistry sample_operational ePlainData = [5]" "map_of (mTargetMap sample_operational) 7 = Some 7"
    "qos sample_operational 7 \<noteq> None" "mRequestedMap sample_operational 7 = None" "registered 7 ePlainData sample_operational"
    "one_source 7 sample_operational" "source_pool 0 sample_operational = 200" "has_channel 0 sample_operational 1"
    "mL1ChannelRegistry sample_operational 7 = Some \<lparr>ci_upper = 0xFFFFFFFF, ci_lower = 0, ci_state = E_OPERATIONAL,
      ci_type = 2, mpSourceAgent = Some 4, mpTargetAgent = Some 6, ci_clientDir = 5\<rparr>"
    by (simp_all add: sample_operational_def sample_connected_def l1_init_def registered_def one_source_def has_channel_def
        all_sources_def priorities_def source_pool_def)
  have "channel_open 7 ePlainData 4 6 sample_operational"
    using r sample_channels(5,6) by (auto simp: channel_open_def)
  then show "opened E_OPERATIONAL 7 ePlainData 5 sample_operational"
    using r(5,7,10) sample_l0_ok(2) by (auto simp: opened_def)
  show "service_ready 1 sample_operational"
    using r(1,8) sample_channels(3) by (auto simp: service_ready_def CA_SERVICE_CHANNEL_def)
  show "service_source_ok sample_operational"
    by (rule service_source_okI [OF r(1) [folded CA_SERVICE_CHANNEL_def] _ sample_channels(3)])
      (use r(9) in \<open>simp_all add: CA_SERVICE_CHANNEL_def\<close>)
qed

lemma sample_requests:
  "allocate_request LittleEndian 7 ePlainData (plain_data_request LittleEndian 7)"
  "deallocate_request 7 (setChannelID 7 (setOpCode E_DEALLOCATE_CHANNEL accessor_new))"
proof -
  have st: "store LittleEndian 4 (2 :: u32) = [2, 0, 0, 0]" "load LittleEndian [2, 0, 0, 0] = (2 :: u32)"
    by code_simp+
  show "allocate_request LittleEndian 7 ePlainData (plain_data_request LittleEndian 7)"
    by (simp add: allocate_request_def plain_data_request_def st accessor_setData_def setChannelID_def setOpCode_def
        accessor_new_def prio_of_u32_def)
  show "deallocate_request 7 (setChannelID 7 (setOpCode E_DEALLOCATE_CHANNEL accessor_new))"
    by (simp add: deallocate_request_def service_message_ok_def) (simp add: setChannelID_def setOpCode_def accessor_new_def)
qed


theorem deallocation_closes_witness:
  "\<exists>wA wB b. processServiceDeallocateRequest BigEndian (setChannelID 7 (setOpCode E_DEALLOCATE_CHANNEL accessor_new))
      sample_operational = Some (b, wB) \<and> closed 7 wB \<and> closed 7 wA"
proof -
  have "(7 :: u32) \<noteq> CA_SERVICE_CHANNEL" by (simp add: CA_SERVICE_CHANNEL_def)
  from deallocation_closes [OF this sample_requests(2) sample_operational_ready sample_operational_ready, of BigEndian]
  show ?thesis by blast
qed

theorem service_message_roundtrip_witness:
  "\<exists>bs. service_bytes LittleEndian (accessor_setData [1, 2] accessor_new) = Some bs
    \<and> parse_service BigEndian bs (length bs) 0 accessor_new = Some (accessor_setData [1, 2] accessor_new, length bs)"
  by (rule service_message_roundtrip)
    (simp add: service_message_ok_def accessor_wf_setData, simp add: accessor_setData_def)

theorem priority_byte_order_witness:
  "\<exists>a w' prio. processServiceAllocateRequest BigEndian (plain_data_request LittleEndian 7) sample_connected = Some (a, w')
    \<and> requested E_TRANSITION_AGENT 7 prio (-1) w' \<and> prio_of_u32 prio = Some eSafetyCritical"
  using priority_byte_order [OF sample_connected_ready(1)] by blast

end
