(* ===== verification/L1Faults.thy ===== *)
theory L1Faults
  imports Handshake
begin

text \<open>
  Behaviour of \<^verbatim>\<open>L1InterfaceStub\<close> the callers do not expect: entries that stay in its tables, assertions a
  second connection or an empty message runs into.
\<close>

section \<open>Where the tables go wrong\<close>

text \<open>
  When the service channel has no free buffer, an allocation request is answered with
  \<^verbatim>\<open>ERROR_NO_FREE_BUFFERS_LEFT\<close>, but its entry in the table of requested channels stays, and the same request
  gets \<^verbatim>\<open>ERROR_ALLOCATION_IN_PROGRESS\<close> from then on.
\<close>

theorem stuck_allocation:
  assumes "allocate_request e c p a" "c \<noteq> CA_SERVICE_CHANNEL" "idle c w" "d \<noteq> -1"
    and "mL1ChannelRegistry w CA_SERVICE_CHANNEL = Some info" "mpSourceAgent info = Some sa" "source_channel_ok sa s w"
    and "source_pool sa w = 0"
  shows "\<exists>w'. processClientAllocateRequest e a d w =
        Some (True, setErrorCode ERROR_NO_FREE_BUFFERS_LEFT (accessor_resetData a), w')
    \<and> processClientAllocateRequest e a d w' =
        Some (True, setErrorCode ERROR_ALLOCATION_IN_PROGRESS (accessor_resetData a), w')"
proof -
  obtain bs where a: "mChannelID a = c" "load_priority e a = Some (load e bs)" "service_message_ok a"
    "setErrorCode NO_ERROR a = a"
    using assms(1) by (rule allocate_requestE)
  define w' where "w' = w\<lparr>mRequestedMap := (mRequestedMap w)(c \<mapsto>
    \<lparr>rq_type = load e bs, rq_state = E_TRANSITION_CLIENT, rq_clientDir = d\<rparr>)\<rparr>"
  obtain ms where ms: "service_bytes e a = Some ms" "length ms = 18 + unat (mDataSize a)"
    using service_bytes_parse [OF a(3)] by metis
  have sz: "getObjectSize a + 2 = of_nat (length ms)" "length ms \<le> MAX_SIZE"
    using a(3) ms(2) by (simp_all add: getObjectSize_def service_message_ok_def MAX_SIZE_def add.commute)
  have new: "buffer_mem_ok Buffer_new" by (simp add: buffer_mem_ok_def Buffer_new_def)
  obtain b1 b2 where b: "reserveSize (of_nat (length ms)) Buffer_new = Some b1"
    "fill_data ms (setFilledSize (of_nat (length ms)) b1) = Some b2"
    using reserve_fill [OF new sz(2)] by (metis fill_data_setFilledSize option.simps(9))
  have "source_channel_ok sa s w'" "source_pool sa w' = 0"
    using assms(7,8) by (simp_all add: w'_def source_channel_ok_def source_pool_def cong: option.case_cong)
  then have f: "CSourceAgent_fillBuffer sa b2 w' = Some (ERROR_NO_FREE_BUFFERS_LEFT, b2, w')" by (rule fillBuffer_full)
  have "sendRequest e a w' = Some (ERROR_NO_FREE_BUFFERS_LEFT, w')"
    using assms(5,6) f b ms(1) sz(1) by (simp add: sendRequest_def fill_channel_def w'_def)
  moreover have "beginAllocateChannel (load e bs) c True d w = Some (NO_ERROR, d, w')"
    using assms(3,4) by (simp add: beginAllocateChannel_def idle_def w'_def)
  moreover have "beginAllocateChannel (load e bs) c True d w' = Some (ERROR_ALLOCATION_IN_PROGRESS, d, w')"
    using assms(3) by (simp add: beginAllocateChannel_def idle_def w'_def)
  moreover have "setErrorCode x (accessor_resetData (setErrorCode y a)) = setErrorCode x (accessor_resetData a)" for x y
    by (simp add: setErrorCode_def accessor_resetData_def)
  ultimately show ?thesis
    using assms(2) a(1,2,4) by (intro exI [of _ w']) (simp add: processClientAllocateRequest_def isNoError_def)
qed

text \<open>
  A connection to a peer opens the service channel; losing it tells the clients but
  leaves the channel registered, so the next connection fails the assertion that it is not.
\<close>

theorem second_connection_aborts:
  assumes "l0_ok w" "channel_unused CA_SERVICE_CHANNEL w" "mL1ChannelRegistry w CA_SERVICE_CHANNEL = None"
  shows "\<exists>w1 w2. L1_OnConnected True w = Some w1 \<and> mL1ChannelRegistry w1 CA_SERVICE_CHANNEL \<noteq> None \<and> frames_unlocked w1
    \<and> L1_OnDisconnected e w1 = Some w2 \<and> L1_OnConnected True w2 = None"
proof -
  define info where "info = \<lparr>rq_type = 0, rq_state = E_TRANSITION_CLIENT, rq_clientDir = -1\<rparr>"
  have p: "prio_of_u32 0 = Some eSafetyCritical" by (simp add: prio_of_u32_def)
  obtain sa ta w0 where al: "allocateChannel eSafetyCritical CA_SERVICE_CHANNEL 0xFFFFFFFF 0 w = Some (NO_ERROR, Some sa, Some ta, w0)"
    using allocate_opens [OF assms(1,2), of eSafetyCritical "0xFFFFFFFF" 0] by metis
  obtain w1 where w1: "L1_OnConnected True w = Some w1" "mL1ChannelRegistry w1 CA_SERVICE_CHANNEL \<noteq> None" "frames_unlocked w1"
    using al p assms(3)
    by (simp add: L1_OnConnected_def allocateChannelLocally_def isNoError_def)
  obtain bs where bs: "copyToRawArray e (setOpCode E_CONNECTION_LOST_NTF accessor_new) = Some bs"
    using accessor_raw_roundtrip [of "setOpCode E_CONNECTION_LOST_NTF accessor_new" e "[]"] by auto
  have n: "mL1ChannelRegistry (notify_all bs ds v) = mL1ChannelRegistry v" for ds v
    by (induction ds arbitrary: v) (simp_all add: ipc_asyncRequest_def MsgIdGen_next_def Let_def)
  show ?thesis
    using w1 bs n by (auto simp: L1_OnDisconnected_def L1_OnConnected_def allocateChannelLocally_def)
qed

text \<open>
  The vector of client directions forgets no client. A client that connects and is lost
  again stays in it, and is notified of a lost connection ever after.
\<close>

theorem lost_direction_stays:
  assumes "d \<notin> set (mClientDirections w)"
  shows "mClientDirections (OnConnectionLost d (OnConnection d w)) = mClientDirections w @ [d]"
proof -
  have "filter (\<lambda>y. y \<noteq> d) (mClientDirections w) = mClientDirections w"
    using assms by (induction "mClientDirections w") (auto simp: filter_id_conv)
  then show ?thesis by (simp add: OnConnectionLost_def OnConnection_def std_remove_def Let_def)
qed

text \<open>
  Sending no data at all on a client channel is accepted and queued like any message,
  and the frame it becomes ends the process of the receiving agent.
\<close>

theorem empty_data_aborts_peer:
  assumes "mL1ChannelRegistry w c = Some info" "mpSourceAgent info = Some sa" "source_channel_ok sa s w" "source_pool sa w \<noteq> 0"
    and "mChannelID a = c" "mDataSize a = 0" "c \<noteq> CA_SERVICE_CHANNEL" "buffer_wf b" "filled_size b = 0"
  shows "(\<exists>w'. L1_sendData a w = Some (NO_ERROR, w') \<and> fst (source_stream s w') = fst (source_stream s w) @ [[]])
    \<and> L1_receiveData e b c v = None"
proof -
  define b1 where "b1 = Buffer_new\<lparr>data := Some []\<rparr>"
  have b1: "reserveSize 0 Buffer_new = Some b1" "fill_data [] (setFilledSize 0 b1) = Some b1" "buffer_wf b1" "content b1 = []"
    by (simp_all add: b1_def reserveSize_def Buffer_new_def fill_data_def setFilledSize_def buffer_wf_def content_def overwrite_def)
  obtain w' where f: "CSourceAgent_fillBuffer sa b1 w = Some (NO_ERROR, forgetData b1, w')"
    "source_stream s w' = (fst (source_stream s w) @ [content b1], snd (source_stream s w))"
    using fillBuffer_queues [OF assms(3,4) b1(3)] by metis
  have "L1_sendData a w = Some (NO_ERROR, w')"
    using assms(1,2,5,6) b1(1,2) f(1)
    by (simp add: L1_sendData_def accessor_bytes_def fill_channel_def)
  moreover have "L1_receiveData e b c v = None"
    using assms(7,9) by (simp add: L1_receiveData_def read_at_def receive_client_data_def)
  ultimately show ?thesis using f(2) b1(4) by simp
qed


text \<open>The sample process with all buffers of the service channel waiting to be sent.\<close>

definition sample_clogged :: l1_state where
  "sample_clogged = sample_connected\<lparr>
     sourceAgents := [0 \<mapsto> \<lparr>sa_channel = 0, sa_queue = [], sa_consumer = Some 1\<rparr>],
     sources := [1 \<mapsto> \<lparr>src_channel = 0, src_frameCounter = 1, src_queue = replicate 200 Buffer_new, src_producer = Some 0\<rparr>]\<rparr>"

lemma sample_clogged_ok: "source_channel_ok 0 1 sample_clogged" "idle 7 sample_clogged" "source_pool 0 sample_clogged = 0"
proof -
  show s: "source_channel_ok 0 1 sample_clogged" "source_pool 0 sample_clogged = 0"
    by (simp_all add: source_channel_ok_def sample_clogged_def sample_connected_def QUEUE_SIZE_def buffer_wf_def Buffer_new_def
        list_all_iff source_pool_def)
  have "target_channel_ok 3 2 sample_clogged"
    using sample_channels(2) by (simp add: target_channel_ok_def sample_clogged_def)
  then have "tx_ok sample_clogged" "rx_ok sample_clogged"
    using s(1) by (auto simp: tx_ok_def rx_ok_def all_sources_def priorities_def)
      (auto simp: sample_clogged_def sample_connected_def l1_init_def)
  then show "idle 7 sample_clogged"
    by (simp add: idle_def l0_ok_def)
      (simp add: channel_unused_def registered_def sample_clogged_def sample_connected_def l1_init_def)
qed

theorem stuck_allocation_witness:
  "\<exists>w'. processClientAllocateRequest LittleEndian (plain_data_request LittleEndian 7) 3 w' =
        Some (True, setErrorCode ERROR_ALLOCATION_IN_PROGRESS (accessor_resetData (plain_data_request LittleEndian 7)), w')"
proof -
  have "(7 :: u32) \<noteq> CA_SERVICE_CHANNEL" "(3 :: int) \<noteq> -1" by (simp_all add: CA_SERVICE_CHANNEL_def)
  moreover have "mL1ChannelRegistry sample_clogged CA_SERVICE_CHANNEL = Some \<lparr>ci_upper = 0xFFFFFFFF, ci_lower = 0,
      ci_state = E_TRANSITION_CLIENT, ci_type = 0, mpSourceAgent = Some 0, mpTargetAgent = Some 2, ci_clientDir = -1\<rparr>"
    by (simp add: sample_clogged_def sample_connected_def CA_SERVICE_CHANNEL_def)
  ultimately show ?thesis
    using stuck_allocation [OF sample_requests(1) _ sample_clogged_ok(2) _ _ _ sample_clogged_ok(1,3)] by fastforce
qed

theorem second_connection_aborts_witness:
  "\<exists>w1 w2. L1_OnConnected True (l1_init (\<lambda>_. NO_ERROR)) = Some w1 \<and> L1_OnDisconnected LittleEndian w1 = Some w2
    \<and> L1_OnConnected True w2 = None"
proof -
  have "l0_ok (l1_init (\<lambda>_. NO_ERROR))" "channel_unused CA_SERVICE_CHANNEL (l1_init (\<lambda>_. NO_ERROR))"
    "mL1ChannelRegistry (l1_init (\<lambda>_. NO_ERROR)) CA_SERVICE_CHANNEL = None"
    by (simp_all add: l0_ok_def tx_ok_def rx_ok_def all_sources_def priorities_def channel_unused_def registered_def l1_init_def)
  from second_connection_aborts [OF this, of LittleEndian] show ?thesis by blast
qed

theorem lost_direction_stays_witness:
  "mClientDirections (OnConnectionLost 4 (OnConnection 4 (l1_init (\<lambda>_. NO_ERROR)))) = mClientDirections (l1_init (\<lambda>_. NO_ERROR)) @ [4]"
  by (rule lost_direction_stays) (simp add: l1_init_def)

theorem empty_data_aborts_peer_witness:
  "(\<exists>w'. L1_sendData (setChannelID 7 accessor_new) sample_operational = Some (NO_ERROR, w')
      \<and> fst (source_stream 5 w') = fst (source_stream 5 sample_operational) @ [[]])
    \<and> L1_receiveData LittleEndian Buffer_new 7 sample_operational = None"
  by (rule empty_data_aborts_peer [OF _ _ sample_channels(5), where info = "\<lparr>ci_upper = 0xFFFFFFFF, ci_lower = 0,
       ci_state = E_OPERATIONAL, ci_type = 2, mpSourceAgent = Some 4, mpTargetAgent = Some 6, ci_clientDir = 5\<rparr>"])
    (simp_all add: sample_operational_def source_pool_def setChannelID_def accessor_new_def CA_SERVICE_CHANNEL_def
      buffer_wf_def Buffer_new_def)

end
