(* ===== verification/ProfileBuffer.thy ===== *)
theory ProfileBuffer
  imports ByteOrder
begin

text \<open>
  The serialization buffer of the profile library (\<^verbatim>\<open>iviLink/include/ProfileLibrary/Buffer.hpp\<close>,
  \<^verbatim>\<open>framework/libraries/ProfileLibrary/private/Buffer.cpp\<close>): typed writes and reads at two
  independent positions of a fixed block of memory. A write returns its success; a read returns the
  value or none. What a type's write and read must have in common is the locale \<^verbatim>\<open>codec\<close>.
\<close>

section \<open>State and primitive operations\<close>

record PBuffer =
  pb_size :: u32
  pb_readPos :: u32
  pb_writePos :: u32
  pb_mem :: "u8 list"
  pb_endianConvert :: bool

definition PBuffer_new :: "u8 list \<Rightarrow> bool \<Rightarrow> PBuffer" where
  "PBuffer_new mem endianConvert = \<lparr>pb_size = of_nat (length mem), pb_readPos = 0, pb_writePos = 0, pb_mem = mem,
     pb_endianConvert = endianConvert\<rparr>"

definition setReadPosition :: "u32 \<Rightarrow> PBuffer \<Rightarrow> bool \<times> PBuffer" where
  "setReadPosition pos b = (if pb_size b \<le> pos then (False, b) else (True, b\<lparr>pb_readPos := pos\<rparr>))"

definition setWritePosition :: "u32 \<Rightarrow> PBuffer \<Rightarrow> bool \<times> PBuffer" where
  "setWritePosition pos b = (if pb_size b \<le> pos then (False, b) else (True, b\<lparr>pb_writePos := pos\<rparr>))"

definition write_raw :: "u8 list \<Rightarrow> PBuffer \<Rightarrow> bool \<times> PBuffer" where
  "write_raw bs b =
     (if pb_size b - pb_writePos b < of_nat (length bs) then (False, b)
      else (True, b\<lparr>pb_mem := overwrite (unat (pb_writePos b)) bs (pb_mem b),
        pb_writePos := pb_writePos b + of_nat (length bs)\<rparr>))"

definition read_raw :: "u32 \<Rightarrow> PBuffer \<Rightarrow> u8 list option \<times> PBuffer" where
  "read_raw sz b =
     (if pb_size b - pb_readPos b < sz then (None, b)
      else (Some (take (unat sz) (drop (unat (pb_readPos b)) (pb_mem b))), b\<lparr>pb_readPos := pb_readPos b + sz\<rparr>))"

definition write_internal ::
  "endian \<Rightarrow> nat \<Rightarrow> ('a::len word \<Rightarrow> 'a word) \<Rightarrow> 'a word \<Rightarrow> PBuffer \<Rightarrow> bool \<times> PBuffer" where
  "write_internal e n hton val b = write_raw (store e n (if pb_endianConvert b then hton val else val)) b"

definition read_internal ::
  "endian \<Rightarrow> nat \<Rightarrow> ('a::len word \<Rightarrow> 'a word) \<Rightarrow> PBuffer \<Rightarrow> 'a word option \<times> PBuffer" where
  "read_internal e n ntoh b =
     (case read_raw (of_nat n) b of
        (None, b') \<Rightarrow> (None, b')
      | (Some bs, b') \<Rightarrow> (Some (if pb_endianConvert b then ntoh (load e bs) else load e bs), b'))"

text \<open>The overloads; a signed integer is the word of its bits, and is converted with \<^verbatim>\<open>ntoh\<close> both ways.\<close>

definition write_u8 :: "endian \<Rightarrow> u8 \<Rightarrow> PBuffer \<Rightarrow> bool \<times> PBuffer" where "write_u8 e = write_internal e 1 (\<lambda>v. v)"
definition write_u16 :: "endian \<Rightarrow> u16 \<Rightarrow> PBuffer \<Rightarrow> bool \<times> PBuffer" where "write_u16 e = write_internal e 2 (hton16 e)"
definition write_i16 :: "endian \<Rightarrow> u16 \<Rightarrow> PBuffer \<Rightarrow> bool \<times> PBuffer" where "write_i16 e = write_internal e 2 (ntoh16 e)"
definition write_u32 :: "endian \<Rightarrow> u32 \<Rightarrow> PBuffer \<Rightarrow> bool \<times> PBuffer" where "write_u32 e = write_internal e 4 (hton32 e)"
definition write_i32 :: "endian \<Rightarrow> u32 \<Rightarrow> PBuffer \<Rightarrow> bool \<times> PBuffer" where "write_i32 e = write_internal e 4 (ntoh32 e)"
definition write_u64 :: "endian \<Rightarrow> u64 \<Rightarrow> PBuffer \<Rightarrow> bool \<times> PBuffer" where "write_u64 e = write_internal e 8 (hton64 e)"
definition write_i64 :: "endian \<Rightarrow> u64 \<Rightarrow> PBuffer \<Rightarrow> bool \<times> PBuffer" where "write_i64 e = write_internal e 8 (ntoh64 e)"

definition read_u8 :: "endian \<Rightarrow> PBuffer \<Rightarrow> u8 option \<times> PBuffer" where "read_u8 e = read_internal e 1 (\<lambda>v. v)"
definition read_u16 :: "endian \<Rightarrow> PBuffer \<Rightarrow> u16 option \<times> PBuffer" where "read_u16 e = read_internal e 2 (ntoh16 e)"
definition read_u32 :: "endian \<Rightarrow> PBuffer \<Rightarrow> u32 option \<times> PBuffer" where "read_u32 e = read_internal e 4 (ntoh32 e)"
definition read_u64 :: "endian \<Rightarrow> PBuffer \<Rightarrow> u64 option \<times> PBuffer" where "read_u64 e = read_internal e 8 (ntoh64 e)"

section \<open>Strings, pairs and containers\<close>

definition write_string :: "endian \<Rightarrow> u8 list \<Rightarrow> PBuffer \<Rightarrow> bool \<times> PBuffer" where
  "write_string e val b =
     (let valSize = of_nat (length val) :: u32; (ok, b1) = write_u32 e valSize b
      in if \<not> ok then (False, b1)
         else if pb_size b1 - pb_writePos b1 < valSize then (False, b1)
         else write_raw val b1)"

definition read_string :: "endian \<Rightarrow> PBuffer \<Rightarrow> u8 list option \<times> PBuffer" where
  "read_string e b =
     (case read_u32 e b of
        (None, b1) \<Rightarrow> (None, b1)
      | (Some valSize, b1) \<Rightarrow>
         if pb_size b1 - pb_readPos b1 < valSize then (None, b1)
         else (Some (take (unat valSize) (drop (unat (pb_readPos b1)) (pb_mem b1))),
               b1\<lparr>pb_readPos := pb_readPos b1 + valSize\<rparr>))"

definition write_pair ::
  "('a \<Rightarrow> PBuffer \<Rightarrow> bool \<times> PBuffer) \<Rightarrow> ('b \<Rightarrow> PBuffer \<Rightarrow> bool \<times> PBuffer) \<Rightarrow> 'a \<times> 'b \<Rightarrow> PBuffer \<Rightarrow> bool \<times> PBuffer" where
  "write_pair w1 w2 v b = (let (ok, b1) = w1 (fst v) b in if \<not> ok then (False, b1) else w2 (snd v) b1)"

definition read_pair ::
  "(PBuffer \<Rightarrow> 'a option \<times> PBuffer) \<Rightarrow> (PBuffer \<Rightarrow> 'b option \<times> PBuffer) \<Rightarrow> PBuffer \<Rightarrow> ('a \<times> 'b) option \<times> PBuffer" where
  "read_pair r1 r2 b =
     (case r1 b of
        (None, b1) \<Rightarrow> (None, b1)
      | (Some x, b1) \<Rightarrow> (case r2 b1 of (None, b2) \<Rightarrow> (None, b2) | (Some y, b2) \<Rightarrow> (Some (x, y), b2)))"

fun write_elements :: "('a \<Rightarrow> PBuffer \<Rightarrow> bool \<times> PBuffer) \<Rightarrow> 'a list \<Rightarrow> u32 \<Rightarrow> PBuffer \<Rightarrow> (bool \<times> u32) \<times> PBuffer" where
  "write_elements w [] sz b = ((True, sz), b)"
| "write_elements w (x # xs) sz b =
     (let (ok, b1) = w x b in if \<not> ok then ((False, sz), b1) else write_elements w xs (sz + 1) b1)"

text \<open>The count is written first as zero, and written again over it when all elements are in.\<close>

definition write_container :: "endian \<Rightarrow> ('a \<Rightarrow> PBuffer \<Rightarrow> bool \<times> PBuffer) \<Rightarrow> 'a list \<Rightarrow> PBuffer \<Rightarrow> bool \<times> PBuffer" where
  "write_container e w xs b =
     (let savedPos1 = pb_writePos b; (ok, b1) = write_u32 e 0 b
      in if \<not> ok then (False, b1)
         else let ((ok, sz), b2) = write_elements w xs 0 b1
           in if \<not> ok then (False, b2)
              else let savedPos2 = pb_writePos b2;
                       (_, b3) = setWritePosition savedPos1 b2;
                       (ok, b4) = write_u32 e sz b3
                   in if \<not> ok then (False, b4)
                      else let (_, b5) = setWritePosition savedPos2 b4 in (True, b5))"

fun read_elements :: "nat \<Rightarrow> (PBuffer \<Rightarrow> 'a option \<times> PBuffer) \<Rightarrow> PBuffer \<Rightarrow> 'a list option \<times> PBuffer" where
  "read_elements 0 r b = (Some [], b)"
| "read_elements (Suc k) r b =
     (case r b of
        (None, b1) \<Rightarrow> (None, b1)
      | (Some x, b1) \<Rightarrow>
         (case read_elements k r b1 of (None, b2) \<Rightarrow> (None, b2) | (Some xs, b2) \<Rightarrow> (Some (x # xs), b2)))"

text \<open>The elements read, in order; a failing read has already inserted the elements before it.\<close>

definition read_container :: "endian \<Rightarrow> (PBuffer \<Rightarrow> 'a option \<times> PBuffer) \<Rightarrow> PBuffer \<Rightarrow> 'a list option \<times> PBuffer" where
  "read_container e r b =
     (case read_u32 e b of
        (None, b1) \<Rightarrow> (None, b1)
      | (Some sz, b1) \<Rightarrow> read_elements (unat sz) r b1)"

definition read_map ::
  "endian \<Rightarrow> (PBuffer \<Rightarrow> 'k option \<times> PBuffer) \<Rightarrow> (PBuffer \<Rightarrow> 'v option \<times> PBuffer) \<Rightarrow> PBuffer \<Rightarrow>
   ('k \<times> 'v) list option \<times> PBuffer" where
  "read_map e rk rv = read_container e (read_pair rk rv)"

section \<open>Well-formed buffers\<close>

definition pb_ok :: "PBuffer \<Rightarrow> bool" where
  "pb_ok b \<longleftrightarrow> length (pb_mem b) = unat (pb_size b) \<and> pb_writePos b \<le> pb_size b \<and> pb_readPos b \<le> pb_size b
     \<and> pb_endianConvert b"

definition pb_room :: "PBuffer \<Rightarrow> nat" where
  "pb_room b = unat (pb_size b) - unat (pb_writePos b)"

definition pb_unread :: "PBuffer \<Rightarrow> u8 list" where
  "pb_unread b = drop (unat (pb_readPos b)) (pb_mem b)"

definition pb_append :: "u8 list \<Rightarrow> PBuffer \<Rightarrow> PBuffer" where
  "pb_append bs b = b\<lparr>pb_mem := overwrite (unat (pb_writePos b)) bs (pb_mem b),
     pb_writePos := pb_writePos b + of_nat (length bs)\<rparr>"

definition pb_skip :: "nat \<Rightarrow> PBuffer \<Rightarrow> PBuffer" where
  "pb_skip n b = b\<lparr>pb_readPos := pb_readPos b + of_nat n\<rparr>"

lemma unat_add_small: "unat (a :: u32) + n \<le> unat (c :: u32) \<Longrightarrow> unat (a + of_nat n) = unat a + n"
proof -
  assume a: "unat a + n \<le> unat c"
  have "unat c < 2 ^ 32" using unsigned_less [of c] by simp
  with a show ?thesis by (simp add: unat_word_ariths take_bit_nat_eq_self unsigned_of_nat)
qed

lemma pb_ok_bounds:
  "pb_ok b \<Longrightarrow> unat (pb_writePos b) \<le> unat (pb_size b)" "pb_ok b \<Longrightarrow> unat (pb_readPos b) \<le> unat (pb_size b)"
  by (simp_all add: pb_ok_def word_le_nat_alt)

lemma pb_append_fits:
  assumes "pb_ok b" "length bs \<le> pb_room b"
  shows "pb_ok (pb_append bs b) \<and> pb_room (pb_append bs b) = pb_room b - length bs
    \<and> unat (pb_writePos (pb_append bs b)) = unat (pb_writePos b) + length bs \<and> pb_size (pb_append bs b) = pb_size b
    \<and> pb_readPos (pb_append bs b) = pb_readPos b
    \<and> take (unat (pb_writePos b) + length bs) (pb_mem (pb_append bs b)) = take (unat (pb_writePos b)) (pb_mem b) @ bs"
proof -
  note bd = pb_ok_bounds [OF assms(1)]
  have le: "unat (pb_writePos b) + length bs \<le> unat (pb_size b)" using assms(2) bd by (simp add: pb_room_def)
  note pos = unat_add_small [OF this]
  show ?thesis
    using assms(1) le pos by (simp add: pb_ok_def pb_room_def pb_append_def word_le_nat_alt take_overwrite_end)
qed

lemma write_raw_spec:
  assumes "pb_ok b" "length bs < 2 ^ 32"
  shows "write_raw bs b = (if length bs \<le> pb_room b then (True, pb_append bs b) else (False, b))"
proof -
  have "unat (pb_size b - pb_writePos b) = pb_room b"
    using assms(1) by (simp add: pb_ok_def pb_room_def unat_diff_u32)
  then have "pb_size b - pb_writePos b < of_nat (length bs) \<longleftrightarrow> \<not> length bs \<le> pb_room b"
    using assms(2) by (simp add: word_less_nat_alt unsigned_of_nat take_bit_nat_eq_self not_le)
  then show ?thesis by (simp add: write_raw_def pb_append_def)
qed

lemma pb_skip_ok:
  assumes "pb_ok b" "n \<le> length (pb_unread b)"
  shows "pb_ok (pb_skip n b) \<and> pb_unread (pb_skip n b) = drop n (pb_unread b)"
proof -
  have le: "unat (pb_readPos b) + n \<le> unat (pb_size b)"
    using assms pb_ok_bounds [OF assms(1)] by (simp add: pb_unread_def pb_ok_def)
  note pos = unat_add_small [OF le]
  show ?thesis using assms(1) le pos
    by (simp add: pb_ok_def pb_skip_def pb_unread_def word_le_nat_alt add.commute)
qed

lemma read_raw_spec:
  assumes "pb_ok b" "n < 2 ^ 32"
  shows "read_raw (of_nat n) b =
    (if n \<le> length (pb_unread b) then (Some (take n (pb_unread b)), pb_skip n b) else (None, b))"
proof -
  have "unat (pb_size b - pb_readPos b) = length (pb_unread b)"
    using assms(1) by (simp add: pb_ok_def pb_unread_def unat_diff_u32)
  then have "pb_size b - pb_readPos b < of_nat n \<longleftrightarrow> \<not> n \<le> length (pb_unread b)"
    using assms(2) by (simp add: word_less_nat_alt unsigned_of_nat take_bit_nat_eq_self not_le)
  then show ?thesis
    using assms(2) by (simp add: read_raw_def pb_skip_def pb_unread_def unsigned_of_nat take_bit_nat_eq_self)
qed

lemma pb_append_append:
  assumes "pb_ok b" "length bs + length cs \<le> pb_room b"
  shows "pb_append cs (pb_append bs b) = pb_append (bs @ cs) b"
proof -
  have a: "unat (pb_writePos (pb_append bs b)) = unat (pb_writePos b) + length bs"
    using pb_append_fits [of b bs] assms by simp
  have "unat (pb_writePos b) \<le> length (pb_mem b)"
    using pb_ok_bounds [OF assms(1)] assms(1) by (simp add: pb_ok_def)
  then have "overwrite (unat (pb_writePos b) + length bs) cs (overwrite (unat (pb_writePos b)) bs (pb_mem b))
      = overwrite (unat (pb_writePos b)) (bs @ cs) (pb_mem b)"
    by (simp add: overwrite_def ac_simps)
  with a show ?thesis by (simp add: pb_append_def add.assoc)
qed

lemma pb_skip_skip: "pb_skip m (pb_skip n b) = pb_skip (n + m) b"
  by (simp add: pb_skip_def add.assoc)

section \<open>The contract of a type's write and read\<close>

locale codec =
  fixes put :: "'a \<Rightarrow> PBuffer \<Rightarrow> bool \<times> PBuffer"
    and get :: "PBuffer \<Rightarrow> 'a option \<times> PBuffer"
    and enc :: "'a \<Rightarrow> u8 list"
    and valid :: "'a \<Rightarrow> bool"
  assumes put_fits: "pb_ok b \<Longrightarrow> valid v \<Longrightarrow> length (enc v) \<le> pb_room b \<Longrightarrow> put v b = (True, pb_append (enc v) b)"
    and put_full: "pb_ok b \<Longrightarrow> valid v \<Longrightarrow> pb_room b < length (enc v) \<Longrightarrow> \<not> fst (put v b)"
    and get_enc: "pb_ok b \<Longrightarrow> valid v \<Longrightarrow> pb_unread b = enc v @ rest \<Longrightarrow> get b = (Some v, pb_skip (length (enc v)) b)"
begin

lemma put_succeeds_iff:
  "pb_ok b \<Longrightarrow> valid v \<Longrightarrow> fst (put v b) \<longleftrightarrow> length (enc v) \<le> pb_room b"
  using put_fits [of b v] put_full [of b v] by (cases "length (enc v) \<le> pb_room b") auto

text \<open>A value written where the reader stands is the value read, and the reader stops behind it.\<close>

lemma put_get:
  assumes "pb_ok b" "valid v" "put v b = (True, b')" "pb_readPos b = pb_writePos b"
  shows "get b' = (Some v, b'\<lparr>pb_readPos := pb_writePos b'\<rparr>)"
proof -
  have fits: "length (enc v) \<le> pb_room b" using put_succeeds_iff [OF assms(1,2)] assms(3) by simp
  have b': "b' = pb_append (enc v) b" using put_fits [OF assms(1,2) fits] assms(3) by simp
  note f = pb_append_fits [OF assms(1) fits]
  have "pb_unread b' = enc v @ drop (unat (pb_writePos b) + length (enc v)) (pb_mem b')"
  proof -
    have t: "take (unat (pb_writePos b) + length (enc v)) (pb_mem b') = take (unat (pb_writePos b)) (pb_mem b) @ enc v"
      using f b' by simp
    have l: "length (take (unat (pb_writePos b)) (pb_mem b)) = unat (pb_writePos b)"
      using pb_ok_bounds [OF assms(1)] assms(1) by (simp add: pb_ok_def)
    have "pb_mem b' = (take (unat (pb_writePos b)) (pb_mem b) @ enc v) @ drop (unat (pb_writePos b) + length (enc v)) (pb_mem b')"
      by (metis t append_take_drop_id)
    then have "drop (unat (pb_writePos b)) (pb_mem b') = enc v @ drop (unat (pb_writePos b) + length (enc v)) (pb_mem b')"
      using l by (metis append.assoc append_eq_conv_conj)
    moreover have "pb_readPos b' = pb_writePos b" using f b' assms(4) by simp
    ultimately show ?thesis by (simp add: pb_unread_def)
  qed
  then have "get b' = (Some v, pb_skip (length (enc v)) b')"
    using get_enc assms(2) f b' by blast
  then show ?thesis by (simp add: pb_skip_def b' pb_append_def assms(4))
qed

lemma read_elements_enc:
  assumes "pb_ok b" "list_all valid xs" "pb_unread b = concat (map enc xs) @ rest"
  shows "read_elements (length xs) get b = (Some xs, pb_skip (length (concat (map enc xs))) b)"
  using assms
proof (induction xs arbitrary: b)
  case (Cons x xs)
  have g: "get b = (Some x, pb_skip (length (enc x)) b)"
    using get_enc [OF Cons.prems(1), of x "concat (map enc xs) @ rest"] Cons.prems by simp
  have "pb_ok (pb_skip (length (enc x)) b)" "pb_unread (pb_skip (length (enc x)) b) = concat (map enc xs) @ rest"
    using pb_skip_ok [OF Cons.prems(1), of "length (enc x)"] Cons.prems(3) by simp_all
  from Cons.IH [OF this(1) _ this(2)] Cons.prems(2) g show ?case by (simp add: pb_skip_skip)
qed (simp add: pb_skip_def)

lemma write_elements_fits:
  assumes "pb_ok b" "list_all valid xs" "length (concat (map enc xs)) \<le> pb_room b"
  shows "write_elements put xs n b = ((True, n + of_nat (length xs)), pb_append (concat (map enc xs)) b)"
  using assms
proof (induction xs arbitrary: b n)
  case Nil
  then have "pb_append [] b = b"
    using pb_ok_bounds [of b] by (simp add: pb_append_def overwrite_def)
  then show ?case by simp
next
  case (Cons x xs)
  have p: "put x b = (True, pb_append (enc x) b)" using Cons.prems by (intro put_fits) auto
  note f = pb_append_fits [OF Cons.prems(1), of "enc x"]
  have "write_elements put xs (n + 1) (pb_append (enc x) b) =
    ((True, n + 1 + of_nat (length xs)), pb_append (concat (map enc xs)) (pb_append (enc x) b))"
    using Cons.prems f by (intro Cons.IH) auto
  with p Cons.prems show ?case by (simp add: pb_append_append add.assoc)
qed

end

section \<open>Integers\<close>

lemma write_internal_codec:
  assumes "LENGTH('a) = 8 * n" "n < 2 ^ 32" "\<And>v. store e n (hton v) = rev (bytes_le n v)"
    and "\<And>bs. length bs = n \<Longrightarrow> ntoh (load e' bs) = of_bytes_le (rev bs)"
  shows "codec (write_internal e n hton) (read_internal e' n ntoh) (\<lambda>v :: 'a::len word. rev (bytes_le n v)) (\<lambda>_. True)"
proof
  fix b :: PBuffer and v :: "'a word"
  assume ok: "pb_ok b"
  have w: "write_internal e n hton v b = write_raw (rev (bytes_le n v)) b"
    using ok by (simp add: write_internal_def pb_ok_def assms(3))
  show "length (rev (bytes_le n v)) \<le> pb_room b \<Longrightarrow> write_internal e n hton v b = (True, pb_append (rev (bytes_le n v)) b)"
    using write_raw_spec [OF ok] assms(2) by (simp add: w)
  show "pb_room b < length (rev (bytes_le n v)) \<Longrightarrow> \<not> fst (write_internal e n hton v b)"
    using write_raw_spec [OF ok] assms(2) by (simp add: w)
next
  fix b :: PBuffer and v :: "'a word" and rest
  assume ok: "pb_ok b" and u: "pb_unread b = rev (bytes_le n v) @ rest"
  have "read_raw (of_nat n) b = (Some (rev (bytes_le n v)), pb_skip n b)"
    using read_raw_spec [OF ok assms(2)] u by simp
  then show "read_internal e' n ntoh b = (Some v, pb_skip (length (rev (bytes_le n v))) b)"
    using ok assms(1,4) by (simp add: read_internal_def pb_ok_def of_bytes_le_bytes_le)
qed

lemma hton_eq_ntoh: "hton16 = ntoh16" "hton32 = ntoh32" "hton64 = ntoh64"
  by (auto simp: fun_eq_iff hton16_def ntoh16_def hton32_def ntoh32_def hton64_def ntoh64_def)

lemma store_ntoh:
  "store e 2 (ntoh16 e a) = rev (bytes_le 2 a)" "store e 4 (ntoh32 e b) = rev (bytes_le 4 b)"
  "store e 8 (ntoh64 e c) = rev (bytes_le 8 c)"
  by (simp_all flip: hton_eq_ntoh)

text \<open>The writer and the reader may run on hosts of different byte order.\<close>

interpretation u8: codec "write_u8 e" "read_u8 e'" "\<lambda>v. rev (bytes_le 1 v)" "\<lambda>_. True" for e e'
  unfolding write_u8_def read_u8_def
proof (rule write_internal_codec)
  show "store e 1 v = rev (bytes_le 1 v)" for v :: u8
    by (simp add: store_def bytes_le_def split: endian.split)
  show "load e' bs = (of_bytes_le (rev bs) :: u8)" if "length bs = 1" for bs
  proof -
    from that obtain x where "bs = [x]" by (cases bs) auto
    then show ?thesis by (simp add: load_def split: endian.split)
  qed
qed simp_all

interpretation u16: codec "write_u16 e" "read_u16 e'" "\<lambda>v. rev (bytes_le 2 v)" "\<lambda>_. True" for e e'
  unfolding write_u16_def read_u16_def by (rule write_internal_codec) (simp_all add: ntoh16_load)

interpretation i16: codec "write_i16 e" "read_u16 e'" "\<lambda>v. rev (bytes_le 2 v)" "\<lambda>_. True" for e e'
  unfolding write_i16_def read_u16_def
  by (rule write_internal_codec) (simp_all add: ntoh16_load store_ntoh)

interpretation u32: codec "write_u32 e" "read_u32 e'" "\<lambda>v. rev (bytes_le 4 v)" "\<lambda>_. True" for e e'
  unfolding write_u32_def read_u32_def by (rule write_internal_codec) (simp_all add: ntoh32_load)

interpretation i32: codec "write_i32 e" "read_u32 e'" "\<lambda>v. rev (bytes_le 4 v)" "\<lambda>_. True" for e e'
  unfolding write_i32_def read_u32_def
  by (rule write_internal_codec) (simp_all add: ntoh32_load store_ntoh)

interpretation u64: codec "write_u64 e" "read_u64 e'" "\<lambda>v. rev (bytes_le 8 v)" "\<lambda>_. True" for e e'
  unfolding write_u64_def read_u64_def by (rule write_internal_codec) (simp_all add: ntoh64_load)

interpretation i64: codec "write_i64 e" "read_u64 e'" "\<lambda>v. rev (bytes_le 8 v)" "\<lambda>_. True" for e e'
  unfolding write_i64_def read_u64_def
  by (rule write_internal_codec) (simp_all add: ntoh64_load store_ntoh)

section \<open>Strings and pairs\<close>

definition enc_u32 :: "u32 \<Rightarrow> u8 list" where
  "enc_u32 v = rev (bytes_le 4 v)"

lemma length_enc_u32 [simp]: "length (enc_u32 v) = 4"
  by (simp add: enc_u32_def)

lemmas write_u32_fits = u32.put_fits [folded enc_u32_def]
lemmas write_u32_full = u32.put_full [folded enc_u32_def]
lemmas read_u32_enc = u32.get_enc [folded enc_u32_def]

definition enc_string :: "u8 list \<Rightarrow> u8 list" where
  "enc_string s = enc_u32 (of_nat (length s)) @ s"

interpretation str: codec "write_string e" "read_string e'" enc_string "\<lambda>s. length s < 2 ^ 32" for e e'
proof
  fix b :: PBuffer and s :: "u8 list"
  assume ok: "pb_ok b" and len: "length s < 2 ^ 32"
  define b1 where "b1 = pb_append (enc_u32 (of_nat (length s))) b"
  have step: "write_string e s b = write_raw s b1 \<and> pb_ok b1 \<and> pb_room b1 = pb_room b - 4"
    if "4 \<le> pb_room b"
  proof -
    note f = pb_append_fits [OF ok, of "enc_u32 (of_nat (length s))"]
    have ok1: "pb_ok b1" "pb_room b1 = pb_room b - 4" using f that by (simp_all add: b1_def)
    have w: "write_u32 e (of_nat (length s)) b = (True, b1)"
      using write_u32_fits [OF ok] that by (simp add: b1_def)
    have "(if pb_size b1 - pb_writePos b1 < of_nat (length s) then (False, b1) else write_raw s b1) = write_raw s b1"
      by (simp add: write_raw_def)
    with w ok1 show ?thesis by (simp add: write_string_def)
  qed
  show "length (enc_string s) \<le> pb_room b \<Longrightarrow> write_string e s b = (True, pb_append (enc_string s) b)"
    using step write_raw_spec [of b1 s] len pb_append_append [OF ok, of "enc_u32 (of_nat (length s))" s]
    by (simp add: enc_string_def b1_def)
  show "pb_room b < length (enc_string s) \<Longrightarrow> \<not> fst (write_string e s b)"
  proof (cases "4 \<le> pb_room b")
    case True
    then show "pb_room b < length (enc_string s) \<Longrightarrow> \<not> fst (write_string e s b)"
      using step write_raw_spec [of b1 s] len by (simp add: enc_string_def)
  next
    case False
    obtain r b2 where w: "write_u32 e (of_nat (length s)) b = (r, b2)" by fastforce
    have "\<not> fst (write_u32 e (of_nat (length s)) b)"
      by (rule write_u32_full [OF ok]) (use False in simp_all)
    with w show "\<not> fst (write_string e s b)" by (simp add: write_string_def)
  qed
next
  fix b :: PBuffer and s rest :: "u8 list"
  assume ok: "pb_ok b" and len: "length s < 2 ^ 32" and u: "pb_unread b = enc_string s @ rest"
  let ?n = "of_nat (length s) :: u32"
  have n: "unat ?n = length s" using len by (simp add: unsigned_of_nat take_bit_nat_eq_self)
  have r: "read_u32 e' b = (Some ?n, pb_skip 4 b)"
    using read_u32_enc [OF ok, of ?n "s @ rest"] u by (simp add: enc_string_def)
  have b1: "pb_ok (pb_skip 4 b)" "pb_unread (pb_skip 4 b) = s @ rest"
    using pb_skip_ok [OF ok, of 4] u by (simp_all add: enc_string_def)
  have "\<not> pb_size (pb_skip 4 b) - pb_readPos (pb_skip 4 b) < ?n"
  proof -
    have "unat (pb_size (pb_skip 4 b) - pb_readPos (pb_skip 4 b)) = length (pb_unread (pb_skip 4 b))"
      using b1(1) by (simp add: pb_ok_def pb_unread_def unat_diff_u32)
    then show ?thesis by (simp add: word_less_nat_alt n b1(2))
  qed
  moreover have "take (length s) (drop (unat (pb_readPos (pb_skip 4 b))) (pb_mem (pb_skip 4 b))) = s"
    using b1(2) by (simp add: pb_unread_def)
  ultimately show "read_string e' b = (Some s, pb_skip (length (enc_string s)) b)"
    using r n by (simp add: read_string_def enc_string_def) (simp add: pb_skip_def add.assoc)
qed

locale codec_pair = c1: codec put1 get1 enc1 valid1 + c2: codec put2 get2 enc2 valid2
  for put1 :: "'a \<Rightarrow> PBuffer \<Rightarrow> bool \<times> PBuffer" and get1 enc1 valid1
    and put2 :: "'b \<Rightarrow> PBuffer \<Rightarrow> bool \<times> PBuffer" and get2 enc2 valid2

sublocale codec_pair \<subseteq> pair: codec "write_pair put1 put2" "read_pair get1 get2"
  "\<lambda>v. enc1 (fst v) @ enc2 (snd v)" "\<lambda>v. valid1 (fst v) \<and> valid2 (snd v)"
proof
  fix b :: PBuffer and v :: "'a \<times> 'b"
  assume ok: "pb_ok b" and v: "valid1 (fst v) \<and> valid2 (snd v)"
  let ?b = "pb_append (enc1 (fst v)) b"
  have f: "pb_ok ?b \<and> pb_room ?b = pb_room b - length (enc1 (fst v)) \<and> put1 (fst v) b = (True, ?b)"
    if "length (enc1 (fst v)) \<le> pb_room b"
    using pb_append_fits [OF ok that] c1.put_fits [OF ok _ that] v by simp
  show "length (enc1 (fst v) @ enc2 (snd v)) \<le> pb_room b \<Longrightarrow>
      write_pair put1 put2 v b = (True, pb_append (enc1 (fst v) @ enc2 (snd v)) b)"
    using f c2.put_fits [of ?b "snd v"] v pb_append_append [OF ok] by (simp add: write_pair_def)
  show "pb_room b < length (enc1 (fst v) @ enc2 (snd v)) \<Longrightarrow> \<not> fst (write_pair put1 put2 v b)"
  proof (cases "length (enc1 (fst v)) \<le> pb_room b")
    case True
    then show "pb_room b < length (enc1 (fst v) @ enc2 (snd v)) \<Longrightarrow> \<not> fst (write_pair put1 put2 v b)"
      using f c2.put_full [of ?b "snd v"] v by (simp add: write_pair_def)
  next
    case False
    then show "\<not> fst (write_pair put1 put2 v b)"
      using c1.put_full [OF ok, of "fst v"] v by (cases "put1 (fst v) b") (simp add: write_pair_def)
  qed
next
  fix b :: PBuffer and v :: "'a \<times> 'b" and rest
  assume ok: "pb_ok b" and v: "valid1 (fst v) \<and> valid2 (snd v)"
    and u: "pb_unread b = (enc1 (fst v) @ enc2 (snd v)) @ rest"
  have "get1 b = (Some (fst v), pb_skip (length (enc1 (fst v))) b)"
    using c1.get_enc [OF ok, of "fst v" "enc2 (snd v) @ rest"] v u by simp
  moreover have "get2 (pb_skip (length (enc1 (fst v))) b) =
      (Some (snd v), pb_skip (length (enc2 (snd v))) (pb_skip (length (enc1 (fst v))) b))"
    using c2.get_enc [of "pb_skip (length (enc1 (fst v))) b" "snd v" rest] pb_skip_ok [OF ok, of "length (enc1 (fst v))"] v u
    by simp
  ultimately show "read_pair get1 get2 b = (Some v, pb_skip (length (enc1 (fst v) @ enc2 (snd v))) b)"
    by (simp add: read_pair_def pb_skip_skip)
qed

section \<open>Containers\<close>

context codec begin

definition enc_container :: "'a list \<Rightarrow> u8 list" where
  "enc_container xs = enc_u32 (of_nat (length xs)) @ concat (map enc xs)"

text \<open>The memory after a successful write of a container, and where the write position ends.\<close>

lemma write_container_fits:
  assumes "pb_ok b" "list_all valid xs" "length (enc_container xs) \<le> pb_room b"
  shows "write_container e put xs b =
    (True, if length (enc_container xs) < pb_room b then pb_append (enc_container xs) b
       else (pb_append (enc_container xs) b)\<lparr>pb_writePos := pb_writePos b + 4\<rparr>)"
proof -
  let ?body = "concat (map enc xs)" and ?cnt = "enc_u32 (of_nat (length xs))"
  let ?p = "unat (pb_writePos b)"
  define b1 where "b1 = pb_append (enc_u32 0) b"
  define b2 where "b2 = pb_append ?body b1"
  define b3 where "b3 = b2\<lparr>pb_writePos := pb_writePos b\<rparr>"
  have r4: "4 + length ?body \<le> pb_room b" using assms(3) by (simp add: enc_container_def)
  have w1: "write_u32 e 0 b = (True, b1)" using write_u32_fits [OF assms(1)] r4 by (simp add: b1_def)
  note f1 = pb_append_fits [OF assms(1), of "enc_u32 0", folded b1_def]
  have ok1: "pb_ok b1" "pb_room b1 = pb_room b - 4" "pb_size b1 = pb_size b" using f1 r4 by simp_all
  have w2: "write_elements put xs 0 b1 = ((True, of_nat (length xs)), b2)"
    using write_elements_fits [OF ok1(1) assms(2), of 0] ok1(2) r4 by (simp add: b2_def)
  note f2 = pb_append_fits [OF ok1(1), of ?body, folded b2_def]
  have ok2: "pb_ok b2" "pb_size b2 = pb_size b" "unat (pb_writePos b2) = ?p + 4 + length ?body"
    using f2 f1 ok1 r4 by simp_all
  have lt: "?p < unat (pb_size b)" using r4 by (simp add: pb_room_def)
  have s3: "setWritePosition (pb_writePos b) b2 = (True, b3)"
    using lt ok2(2) by (simp add: setWritePosition_def b3_def word_le_nat_alt)
  have ok3: "pb_ok b3" "pb_room b3 = pb_room b" using ok2(1,2) assms(1) by (simp_all add: b3_def pb_ok_def pb_room_def)
  define b4 where "b4 = pb_append ?cnt b3"
  have w4: "write_u32 e (of_nat (length xs)) b3 = (True, b4)"
    using write_u32_fits [OF ok3(1)] ok3(2) r4 by (simp add: b4_def)
  have mem: "pb_mem b4 = pb_mem (pb_append (enc_container xs) b)"
  proof -
    have pl: "?p + 4 + length ?body \<le> length (pb_mem b)"
      using r4 assms(1) by (simp add: pb_room_def pb_ok_def)
    have p1: "unat (pb_writePos b1) = ?p + 4" using f1 r4 by simp
    show ?thesis
      using pl p1
      by (simp add: b4_def b3_def b2_def pb_append_def enc_container_def)
        (simp add: b1_def pb_append_def overwrite_def enc_u32_def [symmetric] ac_simps)
  qed
  have b4: "b4\<lparr>pb_writePos := pb_writePos b2\<rparr> = pb_append (enc_container xs) b"
    "b4 = (pb_append (enc_container xs) b)\<lparr>pb_writePos := pb_writePos b + 4\<rparr>" "pb_size b4 = pb_size b"
    using mem by (simp_all add: b4_def b3_def b2_def b1_def pb_append_def enc_container_def add.assoc)
  have "setWritePosition (pb_writePos b2) b4 =
     (if length (enc_container xs) < pb_room b then (True, b4\<lparr>pb_writePos := pb_writePos b2\<rparr>) else (False, b4))"
    using ok2(3) b4(3) assms(3) pb_ok_bounds [OF assms(1)]
    by (auto simp: setWritePosition_def word_le_nat_alt pb_room_def enc_container_def)
  with w1 w2 s3 w4 b4 show ?thesis by (simp add: write_container_def Let_def)
qed

lemma read_container_enc:
  assumes "pb_ok b" "list_all valid xs" "length xs < 2 ^ 32" "pb_unread b = enc_container xs @ rest"
  shows "read_container e get b = (Some xs, pb_skip (length (enc_container xs)) b)"
proof -
  have n: "unat (of_nat (length xs) :: u32) = length xs" using assms(3) by (simp add: unsigned_of_nat take_bit_nat_eq_self)
  have r: "read_u32 e b = (Some (of_nat (length xs)), pb_skip 4 b)"
    using read_u32_enc [OF assms(1), of "of_nat (length xs)" "concat (map enc xs) @ rest"] assms(4)
    by (simp add: enc_container_def)
  have "pb_ok (pb_skip 4 b)" "pb_unread (pb_skip 4 b) = concat (map enc xs) @ rest"
    using pb_skip_ok [OF assms(1), of 4] assms(4) by (simp_all add: enc_container_def)
  from read_elements_enc [OF this(1) assms(2) this(2)] r n show ?thesis
    by (simp add: read_container_def enc_container_def pb_skip_skip)
qed

text \<open>A container written where the reader stands, with room to spare, is read back.\<close>

lemma container_roundtrip:
  assumes "pb_ok b" "list_all valid xs" "length xs < 2 ^ 32" "length (enc_container xs) < pb_room b"
    and "pb_readPos b = pb_writePos b"
  shows "\<exists>b' b''. write_container e put xs b = (True, b') \<and> read_container e' get b' = (Some xs, b'')
    \<and> pb_readPos b'' = pb_writePos b'"
proof -
  let ?b = "pb_append (enc_container xs) b"
  have w: "write_container e put xs b = (True, ?b)"
    using write_container_fits [OF assms(1,2)] assms(4) by simp
  note f = pb_append_fits [OF assms(1) less_imp_le [OF assms(4)]]
  have "pb_unread ?b = enc_container xs @ drop (unat (pb_writePos b) + length (enc_container xs)) (pb_mem ?b)"
    using assms(4,5) pb_ok_bounds [OF assms(1)] assms(1)
    by (simp add: pb_unread_def pb_append_def overwrite_def pb_ok_def)
  then have "read_container e' get ?b = (Some xs, pb_skip (length (enc_container xs)) ?b)"
    using f by (intro read_container_enc [OF _ assms(2,3)]) simp_all
  with w show ?thesis by (simp add: pb_skip_def pb_append_def assms(5))
qed

end

interpretation str_str: codec_pair "write_string e" "read_string e'" enc_string "\<lambda>s. length s < 2 ^ 32"
    "write_string e" "read_string e'" enc_string "\<lambda>s. length s < 2 ^ 32" for e e'
  by (rule codec_pair.intro) (rule str.codec_axioms)+

section \<open>Properties\<close>

definition string_map_size :: "(u8 list \<times> u8 list) list \<Rightarrow> nat" where
  "string_map_size m = 4 + (\<Sum>(k, v) \<leftarrow> m. 8 + length k + length v)"

text \<open>
  C10: a map of strings to strings written by a host of one byte order is read back
  by a host of another, entry by entry, when the buffer has room for it and at least one byte more.
\<close>

theorem string_map_roundtrip:
  assumes "pb_ok b" "list_all (\<lambda>(k, v). length k < 2 ^ 32 \<and> length v < 2 ^ 32) m" "length m < 2 ^ 32"
    and "string_map_size m < pb_room b" "pb_readPos b = pb_writePos b"
  shows "\<exists>b' b''. write_container e (write_pair (write_string e) (write_string e)) m b = (True, b')
    \<and> read_map e' (read_string e') (read_string e') b' = (Some m, b'') \<and> pb_readPos b'' = pb_writePos b'"
proof -
  have "(\<Sum>(k, v) \<leftarrow> m. 8 + length k + length v) = (\<Sum>v \<leftarrow> m. length (enc_string (fst v) @ enc_string (snd v)))"
    by (simp add: enc_string_def split_def add.assoc)
  then have "length (str_str.pair.enc_container m) = string_map_size m"
    by (simp add: str_str.pair.enc_container_def string_map_size_def length_concat comp_def)
  moreover have "list_all (\<lambda>v. length (fst v) < 2 ^ 32 \<and> length (snd v) < 2 ^ 32) m"
    using assms(2) by (auto simp: list_all_iff)
  ultimately show ?thesis
    using str_str.pair.container_roundtrip [OF assms(1) _ assms(3) _ assms(5), of e e e' e'] assms(4)
    by (simp add: read_map_def)
qed

text \<open>
  A container whose encoding exactly fills the buffer is written, and the write
  reports success, but the write position is left right behind the count instead of at the end:
  \<^verbatim>\<open>setWritePosition\<close> refuses the end of the buffer and its result is ignored. The next write goes
  over the elements.
\<close>

theorem container_exact_fill:
  assumes "pb_ok b" "4 + 4 * length xs = pb_room b"
  shows "\<exists>b'. write_container e (write_u32 e) xs b = (True, b') \<and> pb_writePos b' = pb_writePos b + 4
    \<and> pb_room b' = 4 * length xs"
proof -
  have len: "length (u32.enc_container xs) = pb_room b"
    using assms(2) by (simp add: u32.enc_container_def length_concat comp_def sum_list_triv)
  have w: "write_container e (write_u32 e) xs b = (True, (pb_append (u32.enc_container xs) b)\<lparr>pb_writePos := pb_writePos b + 4\<rparr>)"
    using u32.write_container_fits [OF assms(1), of xs e] len by (simp add: list_all_iff)
  have "unat (pb_writePos b + 4) = unat (pb_writePos b) + 4"
    using unat_add_small [of "pb_writePos b" 4 "pb_size b"] assms(2) by (simp add: pb_room_def)
  then show ?thesis
    using w assms(2) by (simp add: pb_room_def pb_append_def)
qed

text \<open>
  What one host writes as a signed 32-bit integer and a string, in this
  order, is what another host reads, whatever the byte orders of the two.
\<close>

theorem signed_and_string_roundtrip:
  assumes "pb_ok b" "length s < 2 ^ 32" "8 + length s \<le> pb_room b" "pb_readPos b = pb_writePos b"
  shows "\<exists>b1 b2 b3 b4. write_i32 e i b = (True, b1) \<and> write_string e s b1 = (True, b2)
    \<and> read_u32 e' b2 = (Some i, b3) \<and> read_string e' b3 = (Some s, b4) \<and> pb_readPos b4 = pb_writePos b2"
proof -
  define b1 where "b1 = pb_append (enc_u32 i) b"
  define b2 where "b2 = pb_append (enc_string s) b1"
  have w1: "write_i32 e i b = (True, b1)"
    using i32.put_fits [OF assms(1), of i e] assms(3) by (simp add: b1_def enc_u32_def)
  have ok1: "pb_ok b1" "pb_room b1 = pb_room b - 4"
    using pb_append_fits [OF assms(1), of "enc_u32 i"] assms(3) by (simp_all add: b1_def)
  have w2: "write_string e s b1 = (True, b2)"
    using str.put_fits [OF ok1(1) assms(2), of e] ok1(2) assms(3) by (simp add: b2_def enc_string_def)
  have b2: "b2 = pb_append (enc_u32 i @ enc_string s) b"
    using pb_append_append [OF assms(1), of "enc_u32 i" "enc_string s"] assms(3)
    by (simp add: b2_def b1_def enc_string_def)
  note f = pb_append_fits [OF assms(1), of "enc_u32 i @ enc_string s"]
  have ok2: "pb_ok b2" "pb_readPos b2 = pb_writePos b"
    using f assms(3,4) by (simp_all add: b2 enc_string_def)
  obtain rest where u: "pb_unread b2 = enc_u32 i @ enc_string s @ rest"
    using assms(3,4) pb_ok_bounds [OF assms(1)] assms(1)
    by (simp add: b2 pb_unread_def pb_append_def overwrite_def pb_ok_def)
  have r1: "read_u32 e' b2 = (Some i, pb_skip 4 b2)" using read_u32_enc [OF ok2(1) _ u] by simp
  have b3: "pb_ok (pb_skip 4 b2)" "pb_unread (pb_skip 4 b2) = enc_string s @ rest"
    using pb_skip_ok [OF ok2(1), of 4] u by simp_all
  have r2: "read_string e' (pb_skip 4 b2) = (Some s, pb_skip (length (enc_string s)) (pb_skip 4 b2))"
    using str.get_enc [OF b3(1) assms(2) b3(2)] .
  show ?thesis
    using w1 w2 r1 r2 by (simp add: pb_skip_def ok2(2)) (simp add: b2 pb_append_def add.assoc)
qed

text \<open>A little-endian writer and a big-endian reader on a buffer of 32 bytes.\<close>

definition sample_pbuffer :: PBuffer where
  "sample_pbuffer = PBuffer_new (replicate 32 0) True"

lemma sample_pbuffer_ok: "pb_ok sample_pbuffer" "pb_room sample_pbuffer = 32"
  "pb_readPos sample_pbuffer = pb_writePos sample_pbuffer"
  by (simp_all add: sample_pbuffer_def PBuffer_new_def pb_ok_def pb_room_def)

theorem string_map_roundtrip_witness:
  "\<exists>b' b''. write_container LittleEndian (write_pair (write_string LittleEndian) (write_string LittleEndian))
      [([1], [2, 3]), ([4, 5], [])] sample_pbuffer = (True, b')
    \<and> read_map BigEndian (read_string BigEndian) (read_string BigEndian) b' = (Some [([1], [2, 3]), ([4, 5], [])], b'')
    \<and> pb_readPos b'' = pb_writePos b'"
  by (rule string_map_roundtrip [OF sample_pbuffer_ok(1) _ _ _ sample_pbuffer_ok(3)])
    (simp_all add: string_map_size_def sample_pbuffer_ok(2))

theorem container_exact_fill_witness:
  "\<exists>b'. write_container LittleEndian (write_u32 LittleEndian) [1, 2, 3, 4, 5, 6, 7] sample_pbuffer = (True, b')
    \<and> pb_writePos b' = pb_writePos sample_pbuffer + 4 \<and> pb_room b' = 4 * length [1 :: u32, 2, 3, 4, 5, 6, 7]"
  by (rule container_exact_fill [OF sample_pbuffer_ok(1)]) (simp add: sample_pbuffer_ok(2))

theorem signed_and_string_roundtrip_witness:
  "\<exists>b1 b2 b3 b4. write_i32 LittleEndian (-2) sample_pbuffer = (True, b1) \<and> write_string LittleEndian [7, 8] b1 = (True, b2)
    \<and> read_u32 BigEndian b2 = (Some (-2), b3) \<and> read_string BigEndian b3 = (Some [7, 8], b4)
    \<and> pb_readPos b4 = pb_writePos b2"
  by (rule signed_and_string_roundtrip [OF sample_pbuffer_ok(1) _ _ sample_pbuffer_ok(3)])
    (simp_all add: sample_pbuffer_ok(2))

end
