(* ===== verification/IpcSocket.thy ===== *)
theory IpcSocket
  imports ByteOrder
begin

text \<open>
  The stream socket of the inter-process communication (\<^verbatim>\<open>framework/utils/ipc/private/CIpcSocket.cpp\<close>)
  and the table of outstanding requests of \<^verbatim>\<open>CIpc\<close> (\<^verbatim>\<open>CIpc.cpp\<close>). A message is a header of three
  words and a payload; the receiver collects both in steps of whatever \<^verbatim>\<open>recv\<close> returns. The results
  of the system calls are arguments, and what is handed to the client is a list of events.
\<close>

section \<open>State\<close>

type_synonym DirId = int

datatype RECV_MODE = RECV_HEADER | RECV_DATA_REQU | RECV_DATA_RESP | RECV_DATA_TRIG

record RequestData =
  rd_bufferSize :: u32
  rd_response :: "u8 list"
  rd_dirId :: DirId

datatype ipc_event =
    IncomingRequest u32 "u8 list" DirId
  | IncomingAsyncRequest u32 "u8 list" DirId
  | ResponseSignalled u32
  | ConnectionOpened DirId
  | ConnectionClosed DirId

text \<open>
  \<^verbatim>\<open>sk_cur\<close> are the bytes between \<^verbatim>\<open>mpCurrentBufBegin\<close> and \<^verbatim>\<open>mpCurrentBuf\<close> (the start of
  \<^verbatim>\<open>mBuffer\<close> while a header is read), \<^verbatim>\<open>sk_sock\<close> is \<^verbatim>\<open>-1\<close> for no socket.
\<close>

record CIpcSocket =
  mListen :: bool
  mContinuousListen :: bool
  mLsnSocket :: int
  mIsConnected :: bool
  mReadingSock :: int
  mReadingDir :: DirId
  mMode :: RECV_MODE
  mMsgID :: u32
  mUnknownResponse :: bool
  sk_cur :: "u8 list"
  mHaveInBuffer :: u32
  mLeftToReceive :: u32
  mSockets :: "(int \<times> DirId) list"
  mClosedSocketsQueue :: "int list"
  dir_count :: DirId
  mRequestDataMap :: "u32 \<rightharpoonup> RequestData"
  ipc_events :: "ipc_event list"

definition MSG_HEADER_SIZE :: u32 where "MSG_HEADER_SIZE = 12"
definition BUFFER_SIZE :: u32 where "BUFFER_SIZE = 4096"

abbreviation TYPE_REQUEST :: u32 where "TYPE_REQUEST \<equiv> 1"
abbreviation TYPE_RESPONSE :: u32 where "TYPE_RESPONSE \<equiv> 2"
abbreviation TYPE_TRIGGER :: u32 where "TYPE_TRIGGER \<equiv> 3"

abbreviation IPC_ERROR_CONNECTION_LOST :: ErrorCode where "IPC_ERROR_CONNECTION_LOST \<equiv> 7"
abbreviation IPC_ERROR_UNKNOWN_DIRECTION :: ErrorCode where "IPC_ERROR_UNKNOWN_DIRECTION \<equiv> 8"
abbreviation IPC_ERROR_INVALID_PARAMS :: ErrorCode where "IPC_ERROR_INVALID_PARAMS \<equiv> 5"
abbreviation IPC_ERROR_COMMUNICATION :: ErrorCode where "IPC_ERROR_COMMUNICATION \<equiv> 4"
abbreviation IPC_ERROR_REQUEST_TIMEOUT :: ErrorCode where "IPC_ERROR_REQUEST_TIMEOUT \<equiv> 2"
abbreviation IPC_ERROR_RESPONSE_TIMEOUT :: ErrorCode where "IPC_ERROR_RESPONSE_TIMEOUT \<equiv> 3"
abbreviation IPC_ERROR_OTHER :: ErrorCode where "IPC_ERROR_OTHER \<equiv> 9"
abbreviation IPC_ERROR_WRONG_THREAD :: ErrorCode where "IPC_ERROR_WRONG_THREAD \<equiv> 10"

definition CIpcSocket_new :: "bool \<Rightarrow> CIpcSocket" where
  "CIpcSocket_new lstn = \<lparr>mListen = lstn, mContinuousListen = False, mLsnSocket = -1, mIsConnected = False,
     mReadingSock = -1, mReadingDir = -1, mMode = RECV_HEADER, mMsgID = 0, mUnknownResponse = True, sk_cur = [],
     mHaveInBuffer = 0, mLeftToReceive = 0, mSockets = [], mClosedSocketsQueue = [], dir_count = 0,
     mRequestDataMap = Map.empty, ipc_events = []\<rparr>"

definition ipc_emit :: "ipc_event \<Rightarrow> CIpcSocket \<Rightarrow> CIpcSocket" where
  "ipc_emit ev s = s\<lparr>ipc_events := ipc_events s @ [ev]\<rparr>"

section \<open>Outstanding requests\<close>

definition rdc_insert :: "u32 \<Rightarrow> u8 list \<Rightarrow> u32 \<Rightarrow> DirId option \<Rightarrow> (u32 \<rightharpoonup> RequestData) \<Rightarrow> bool \<times> (u32 \<rightharpoonup> RequestData)" where
  "rdc_insert msgid buf bufferSize pDirId m =
     (if m msgid \<noteq> None then (False, m)
      else (True, m(msgid \<mapsto> \<lparr>rd_bufferSize = bufferSize, rd_response = buf,
        rd_dirId = (case pDirId of None \<Rightarrow> 1 | Some d \<Rightarrow> d)\<rparr>)))"

definition rdc_getData :: "u32 \<Rightarrow> (u32 \<rightharpoonup> RequestData) \<Rightarrow> RequestData option" where
  "rdc_getData msgid m = m msgid"

definition rdc_haveData :: "u32 \<Rightarrow> (u32 \<rightharpoonup> RequestData) \<Rightarrow> bool" where
  "rdc_haveData msgid m \<longleftrightarrow> m msgid = None"

definition rdc_erase :: "u32 \<Rightarrow> (u32 \<rightharpoonup> RequestData) \<Rightarrow> (u32 \<rightharpoonup> RequestData)" where
  "rdc_erase msgid m = m(msgid := None)"

text \<open>The semaphores of the requests taken out are signalled, so their callers wake up and find nothing.\<close>

definition rdc_invalidateRequestsForDirection :: "DirId \<Rightarrow> (u32 \<rightharpoonup> RequestData) \<Rightarrow> (u32 \<rightharpoonup> RequestData)" where
  "rdc_invalidateRequestsForDirection dirId m =
     (\<lambda>msgid. case m msgid of None \<Rightarrow> None | Some d \<Rightarrow> if rd_dirId d = dirId then None else Some d)"

section \<open>Receiving\<close>

definition setMode :: "RECV_MODE \<Rightarrow> u32 \<Rightarrow> CIpcSocket \<Rightarrow> CIpcSocket" where
  "setMode mode leftToReceive s =
     s\<lparr>mMode := mode, mReadingSock := (if mode = RECV_HEADER then -1 else mReadingSock s),
       mLeftToReceive := leftToReceive, mHaveInBuffer := 0\<rparr>"

text \<open>
  The outcome of one \<^verbatim>\<open>recv\<close> for at most \<^verbatim>\<open>sz\<close> bytes: data, the end of the stream, or an error.
\<close>

datatype recv_outcome = RecvData "u8 list" | RecvClosed | RecvError

definition ipc_receive :: "recv_outcome \<Rightarrow> CIpcSocket \<Rightarrow> u8 list option option" where
  "ipc_receive r s =
     (if mReadingSock s = -1 then None
      else Some (case r of RecvData bs \<Rightarrow> if bs = [] then None else Some bs | RecvClosed \<Rightarrow> None | RecvError \<Rightarrow> None))"

text \<open>
  \<^verbatim>\<open>recvReqRespData\<close> returns \<^verbatim>\<open>-1\<close> on an error, \<^verbatim>\<open>0\<close> when the message goes on and \<^verbatim>\<open>1\<close> when it is
  complete. The first component of the comparisons is what earlier calls have collected;
  \<^verbatim>\<open>mLeftToReceive\<close> has been reduced by it.
\<close>

definition recvReqRespData :: "recv_outcome \<Rightarrow> CIpcSocket \<Rightarrow> (int \<times> CIpcSocket) option" where
  "recvReqRespData r s =
     (case ipc_receive r s of
        None \<Rightarrow> None
      | Some None \<Rightarrow> Some (-1, s)
      | Some (Some bs) \<Rightarrow>
         (let sz = of_nat (length bs) :: u32 in
          if \<not> sz \<le> mLeftToReceive s then None
          else if \<not> mHaveInBuffer s + sz \<le> mLeftToReceive s then None
          else Some (if mHaveInBuffer s + sz < mLeftToReceive s then 0 else 1,
             s\<lparr>sk_cur := sk_cur s @ bs, mHaveInBuffer := mHaveInBuffer s + sz,
               mLeftToReceive := mLeftToReceive s - sz\<rparr>)))"

definition received :: "CIpcSocket \<Rightarrow> u8 list" where
  "received s = take (unat (mHaveInBuffer s)) (sk_cur s)"

definition consumeRequestData :: "recv_outcome \<Rightarrow> CIpcSocket \<Rightarrow> (bool \<times> CIpcSocket) option" where
  "consumeRequestData r s =
     (case recvReqRespData r s of
        None \<Rightarrow> None
      | Some (recvRes, s) \<Rightarrow>
         (let s = (if 0 < recvRes then ipc_emit (IncomingRequest (mMsgID s) (received s) (mReadingDir s)) s else s);
              s = (if recvRes \<noteq> 0 then setMode RECV_HEADER MSG_HEADER_SIZE s else s)
          in Some (0 \<le> recvRes, s)))"

definition consumeTriggerData :: "recv_outcome \<Rightarrow> CIpcSocket \<Rightarrow> (bool \<times> CIpcSocket) option" where
  "consumeTriggerData r s =
     (case recvReqRespData r s of
        None \<Rightarrow> None
      | Some (recvRes, s) \<Rightarrow>
         (let s = (if 0 < recvRes then ipc_emit (IncomingAsyncRequest (mMsgID s) (received s) (mReadingDir s)) s else s);
              s = (if recvRes \<noteq> 0 then setMode RECV_HEADER MSG_HEADER_SIZE s else s)
          in Some (0 \<le> recvRes, s)))"

text \<open>A response goes to the caller's buffer, unless nobody waits for it (any more).\<close>

definition consumeResponseData :: "recv_outcome \<Rightarrow> CIpcSocket \<Rightarrow> (bool \<times> CIpcSocket) option" where
  "consumeResponseData r s =
     (let sz = mLeftToReceive s;
          s = (if \<not> mUnknownResponse s \<and> mRequestDataMap s (mMsgID s) = None then s\<lparr>mUnknownResponse := True\<rparr> else s);
          s = (if mUnknownResponse s then s\<lparr>sk_cur := []\<rparr> else s)
      in case (if 0 < sz then recvReqRespData r s else Some (1, s)) of
           None \<Rightarrow> None
         | Some (recvRes, s) \<Rightarrow>
            (let s = (if 0 < recvRes \<and> \<not> mUnknownResponse s
                   then (case mRequestDataMap s (mMsgID s) of
                       None \<Rightarrow> s
                     | Some d \<Rightarrow> ipc_emit (ResponseSignalled (mMsgID s))
                         (s\<lparr>mRequestDataMap := (mRequestDataMap s)(mMsgID s \<mapsto>
                            d\<lparr>rd_bufferSize := mHaveInBuffer s, rd_response := received s\<rparr>)\<rparr>))
                   else s);
                 s = (if recvRes \<noteq> 0 then setMode RECV_HEADER MSG_HEADER_SIZE s else s)
             in Some (\<not> recvRes < 0, s)))"

text \<open>The header: size, identifier and type of the message, in the byte order of the host.\<close>

definition consumeHeader :: "endian \<Rightarrow> recv_outcome \<Rightarrow> CIpcSocket \<Rightarrow> (bool \<times> CIpcSocket) option" where
  "consumeHeader e r s =
     (if \<not> mHaveInBuffer s < MSG_HEADER_SIZE then None
      else case ipc_receive r s of
        None \<Rightarrow> None
      | Some None \<Rightarrow> Some (False, s)
      | Some (Some bs) \<Rightarrow>
         (let sz = of_nat (length bs) :: u32; hdr = received s @ bs; s = s\<lparr>sk_cur := hdr\<rparr> in
          if \<not> mHaveInBuffer s + sz \<le> MSG_HEADER_SIZE then None
          else if mHaveInBuffer s + sz < MSG_HEADER_SIZE
          then Some (True, s\<lparr>mHaveInBuffer := mHaveInBuffer s + sz\<rparr>)
          else
            (let msg_size = load e (take 4 hdr); msg_type = load e (take 4 (drop 8 hdr)) :: u32;
                 s = s\<lparr>mMsgID := load e (take 4 (drop 4 hdr))\<rparr>
             in if msg_type = TYPE_REQUEST \<or> msg_type = TYPE_TRIGGER
                then (let s = setMode (if msg_type = TYPE_REQUEST then RECV_DATA_REQU else RECV_DATA_TRIG) msg_size s
                  in if mLeftToReceive s \<le> BUFFER_SIZE then Some (True, s\<lparr>sk_cur := []\<rparr>) else None)
                else if msg_type = TYPE_RESPONSE
                then (let s = setMode RECV_DATA_RESP msg_size s;
                          unknown = (case rdc_getData (mMsgID s) (mRequestDataMap s) of
                            None \<Rightarrow> True
                          | Some d \<Rightarrow> rd_bufferSize d < mLeftToReceive s);
                          s = s\<lparr>mUnknownResponse := unknown, sk_cur := []\<rparr>
                      in if mLeftToReceive s = 0
                         then (case consumeResponseData r s of
                             None \<Rightarrow> None
                           | Some (res, s) \<Rightarrow> if res then Some (True, s) else None)
                         else Some (True, s))
                else Some (True, s))))"

definition consumeData :: "endian \<Rightarrow> recv_outcome \<Rightarrow> CIpcSocket \<Rightarrow> (bool \<times> CIpcSocket) option" where
  "consumeData e r s =
     (case mMode s of
        RECV_HEADER \<Rightarrow> consumeHeader e r s
      | RECV_DATA_REQU \<Rightarrow> consumeRequestData r s
      | RECV_DATA_RESP \<Rightarrow> consumeResponseData r s
      | RECV_DATA_TRIG \<Rightarrow> consumeTriggerData r s)"

section \<open>Connections\<close>

definition closeListenSocket :: "CIpcSocket \<Rightarrow> CIpcSocket" where
  "closeListenSocket s = (if mLsnSocket s \<noteq> -1 then s\<lparr>mLsnSocket := -1, mListen := False\<rparr> else s)"

text \<open>A new connection, also when it is the client end: the next direction identifier.\<close>

definition new_connection :: "int \<Rightarrow> CIpcSocket \<Rightarrow> CIpcSocket" where
  "new_connection sock s =
     (let d = dir_count s + 1 in
      ipc_emit (ConnectionOpened d) (s\<lparr>dir_count := d, mSockets := mSockets s @ [(sock, d)], mIsConnected := True\<rparr>))"

text \<open>\<^verbatim>\<open>connect\<close> with the results of \<^verbatim>\<open>socket\<close> and of \<^verbatim>\<open>listen\<close> or \<^verbatim>\<open>connect\<close> as arguments.\<close>

definition CIpcSocket_connect :: "int \<Rightarrow> bool \<Rightarrow> CIpcSocket \<Rightarrow> ErrorCode \<times> CIpcSocket" where
  "CIpcSocket_connect sock ok s =
     (if mIsConnected s then (NO_ERROR, s)
      else if sock = -1 then (IPC_ERROR_COMMUNICATION, s)
      else if mListen s
      then (let s = s\<lparr>mLsnSocket := sock\<rparr> in (if ok then NO_ERROR else IPC_ERROR_COMMUNICATION, s))
      else if ok then (NO_ERROR, new_connection sock s) else (IPC_ERROR_COMMUNICATION, s))"

definition acceptConnection :: "int \<Rightarrow> CIpcSocket \<Rightarrow> CIpcSocket" where
  "acceptConnection newSock s =
     (if newSock \<noteq> -1
      then new_connection newSock (if mContinuousListen s then s else closeListenSocket s)
      else s)"

definition ipc_onConnectionLost :: "DirId \<Rightarrow> CIpcSocket \<Rightarrow> CIpcSocket" where
  "ipc_onConnectionLost dirId s =
     (let s = ipc_emit (ConnectionClosed dirId) s
      in s\<lparr>mRequestDataMap := rdc_invalidateRequestsForDirection dirId (mRequestDataMap s)\<rparr>)"

definition closeClientSocket :: "int \<Rightarrow> CIpcSocket \<Rightarrow> bool \<times> CIpcSocket" where
  "closeClientSocket sock s =
     (case filter (\<lambda>(k, _). k = sock) (mSockets s) of
        [] \<Rightarrow> (mSockets s = [], s)
      | (k, dirId) # _ \<Rightarrow>
         (let socks = remove1 (k, dirId) (mSockets s);
              s = s\<lparr>mSockets := socks, mIsConnected := (if socks = [] then False else mIsConnected s)\<rparr>
          in (socks = [], ipc_onConnectionLost dirId s)))"

definition closeAllSockets :: "CIpcSocket \<Rightarrow> CIpcSocket" where
  "closeAllSockets s =
     (let s = fold (\<lambda>(_, d). ipc_onConnectionLost d) (mSockets s) (closeListenSocket s)
      in s\<lparr>mIsConnected := False, mSockets := []\<rparr>)"

definition findClientSocket :: "DirId option \<Rightarrow> CIpcSocket \<Rightarrow> int" where
  "findClientSocket pDirId s =
     (case pDirId of
        Some d \<Rightarrow> (case filter (\<lambda>(_, dir). dir = d) (mSockets s) of [] \<Rightarrow> -1 | (k, _) # _ \<Rightarrow> k)
      | None \<Rightarrow> (case mSockets s of [] \<Rightarrow> -1 | (k, _) # _ \<Rightarrow> k))"

text \<open>
  \<^verbatim>\<open>send\<close> with the success of its one or two \<^verbatim>\<open>send\<close> calls: the bytes of a successful send. A failed call
  queues the socket for closing; so does a direction that is not known, as socket \<^verbatim>\<open>-1\<close>.
\<close>

definition message_bytes :: "endian \<Rightarrow> u32 \<Rightarrow> u32 \<Rightarrow> u8 list \<Rightarrow> u8 list" where
  "message_bytes e msgid msg_type pPayload =
     store e 4 (of_nat (length pPayload) :: u32) @ store e 4 msgid @ store e 4 msg_type @ pPayload"

definition CIpcSocket_send ::
  "endian \<Rightarrow> bool \<Rightarrow> u32 \<Rightarrow> u32 \<Rightarrow> u8 list \<Rightarrow> DirId option \<Rightarrow> CIpcSocket \<Rightarrow> ErrorCode \<times> u8 list \<times> CIpcSocket" where
  "CIpcSocket_send e send_ok msgid msg_type pPayload pDirId s =
     (if \<not> mIsConnected s then (IPC_ERROR_CONNECTION_LOST, [], s)
      else if \<not> length pPayload < 2 ^ 32 - 1 - 12 then (IPC_ERROR_INVALID_PARAMS, [], s)
      else let sock = findClientSocket pDirId s in
        if sock = -1 \<or> \<not> send_ok
        then (IPC_ERROR_CONNECTION_LOST, [], s\<lparr>mClosedSocketsQueue := mClosedSocketsQueue s @ [sock]\<rparr>)
        else (NO_ERROR, message_bytes e msgid msg_type pPayload, s))"

section \<open>The receiving thread\<close>

text \<open>
  What a round of the thread sees: the result of \<^verbatim>\<open>select\<close> (whether it failed, the signal in the self
  pipe, whether a client waits, the client sockets that are readable) and of the calls that follow.
\<close>

datatype pipe_signal = SPS_ENDALL | SPS_END_CONT_LSN | SPS_CLI_DIR_CLOSED

record select_result =
  sel_failed :: bool
  sel_pipe :: "pipe_signal option"
  sel_listen :: bool
  sel_ready :: "int list"
  sel_accepted :: int
  sel_received :: recv_outcome

text \<open>The socket chosen for reading stays chosen until its message is complete.\<close>

definition choose_socket :: "int list \<Rightarrow> int \<Rightarrow> CIpcSocket \<Rightarrow> bool \<times> int \<times> CIpcSocket" where
  "choose_socket ready lastReadingSock s =
     (if mReadingSock s \<noteq> -1 then (mReadingSock s \<in> set ready, lastReadingSock, s)
      else case filter (\<lambda>(k, _). k \<in> set ready) (mSockets s) of
          [] \<Rightarrow> (False, lastReadingSock, s)
        | (k, d) # _ \<Rightarrow> (True, k, s\<lparr>mReadingSock := k, mReadingDir := d\<rparr>))"

text \<open>A round returns whether the thread goes on, and its \<^verbatim>\<open>lastReadingSock\<close>.\<close>

definition ipc_threadFunc_round ::
  "endian \<Rightarrow> select_result \<Rightarrow> int \<Rightarrow> CIpcSocket \<Rightarrow> (bool \<times> int \<times> CIpcSocket) option" where
  "ipc_threadFunc_round e sel lastSock s =
     (if sel_failed sel then Some (False, lastSock, closeAllSockets s)
      else
        let (sockSet, lastSock, s) = choose_socket (sel_ready sel) lastSock s in
        case sel_pipe sel of
          Some SPS_ENDALL \<Rightarrow> Some (False, lastSock, closeAllSockets s)
        | Some SPS_END_CONT_LSN \<Rightarrow> Some (True, lastSock, closeListenSocket s)
        | Some SPS_CLI_DIR_CLOSED \<Rightarrow>
            (case mClosedSocketsQueue s of
               [] \<Rightarrow> Some (False, lastSock, closeAllSockets s)
             | closedSock # rest \<Rightarrow>
                (let s = s\<lparr>mClosedSocketsQueue := rest\<rparr> in
                 if closedSock = -1 then Some (True, lastSock, s)
                 else
                   (let s = (if lastSock = closedSock then setMode RECV_HEADER MSG_HEADER_SIZE s else s);
                        (lst, s) = closeClientSocket closedSock s
                    in if lst \<and> \<not> mListen s then Some (False, lastSock, closeAllSockets s)
                       else Some (True, lastSock, s))))
        | None \<Rightarrow>
            if sel_listen sel \<and> mLsnSocket s \<noteq> -1 then Some (True, lastSock, acceptConnection (sel_accepted sel) s)
            else if sockSet
            then (case consumeData e (sel_received sel) s of
                None \<Rightarrow> None
              | Some (True, s) \<Rightarrow> Some (True, lastSock, s)
              | Some (False, s) \<Rightarrow>
                  (let (lst, s) = closeClientSocket lastSock s
                   in if lst \<and> \<not> mListen s then Some (False, lastSock, closeAllSockets s)
                      else Some (True, lastSock, setMode RECV_HEADER MSG_HEADER_SIZE s)))
            else Some (True, lastSock, s))"

end
