(* ===== verification/IpcRequests.thy ===== *)
theory IpcRequests
  imports IpcSocket
begin

text \<open>
  Requests and responses of \<^verbatim>\<open>CIpc\<close> (\<^verbatim>\<open>framework/utils/ipc/private/CIpc.cpp\<close>) on top of the socket, and
  what the pair delivers: a message whose payload arrives in one piece is delivered once and whole, and
  a payload in several pieces is not.
\<close>

section \<open>Sending a request and waiting for its response\<close>

text \<open>
  \<^verbatim>\<open>request\<close> up to the wait: the lock (0, a timeout or another error), the entry in the table, the send.
  \<^verbatim>\<open>None\<close> in the second component means that the call has returned with the error.
\<close>

datatype lock_result = Locked | LockTimeout | LockError

definition CIpc_request_begin ::
  "endian \<Rightarrow> bool \<Rightarrow> lock_result \<Rightarrow> bool \<Rightarrow> u32 \<Rightarrow> u8 list \<Rightarrow> u8 list \<Rightarrow> u32 \<Rightarrow> DirId option \<Rightarrow> CIpcSocket \<Rightarrow>
   ErrorCode \<times> u8 list option \<times> CIpcSocket" where
  "CIpc_request_begin e otherThread locked send_ok msgid pPayload respBuf bufferSize pDirId s =
     (if \<not> mIsConnected s then (IPC_ERROR_COMMUNICATION, None, s)
      else if \<not> otherThread then (IPC_ERROR_WRONG_THREAD, None, s)
      else case locked of
        LockTimeout \<Rightarrow> (IPC_ERROR_REQUEST_TIMEOUT, None, s)
      | LockError \<Rightarrow> (IPC_ERROR_OTHER, None, s)
      | Locked \<Rightarrow>
         (let (inserted, m) = rdc_insert msgid respBuf bufferSize pDirId (mRequestDataMap s) in
          if \<not> inserted then (IPC_ERROR_INVALID_PARAMS, None, s)
          else
            (let (err, bytes, s) = CIpcSocket_send e send_ok msgid TYPE_REQUEST pPayload pDirId (s\<lparr>mRequestDataMap := m\<rparr>)
             in if \<not> isNoError err
                then (err, None, s\<lparr>mRequestDataMap := rdc_erase msgid (mRequestDataMap s)\<rparr>)
                else (NO_ERROR, Some bytes, s))))"

datatype wait_result = Woken | WaitTimeout | WaitError

text \<open>After the wait: the error, and the response for a caller that was answered.\<close>

definition CIpc_request_end :: "wait_result \<Rightarrow> u32 \<Rightarrow> CIpcSocket \<Rightarrow> ErrorCode \<times> u8 list \<times> CIpcSocket" where
  "CIpc_request_end waited msgid s =
     (let s' = s\<lparr>mRequestDataMap := rdc_erase msgid (mRequestDataMap s)\<rparr>
      in case waited of
        WaitTimeout \<Rightarrow> (IPC_ERROR_RESPONSE_TIMEOUT, [], s')
      | WaitError \<Rightarrow> (IPC_ERROR_OTHER, [], s')
      | Woken \<Rightarrow>
         (case rdc_getData msgid (mRequestDataMap s) of
            None \<Rightarrow> (IPC_ERROR_CONNECTION_LOST, [], s')
          | Some d \<Rightarrow> (NO_ERROR, take (unat (rd_bufferSize d)) (rd_response d), s')))"

definition CIpc_asyncRequest ::
  "endian \<Rightarrow> bool \<Rightarrow> lock_result \<Rightarrow> bool \<Rightarrow> u32 \<Rightarrow> u8 list \<Rightarrow> DirId option \<Rightarrow> CIpcSocket \<Rightarrow>
   ErrorCode \<times> u8 list \<times> CIpcSocket" where
  "CIpc_asyncRequest e otherThread locked send_ok msgid pPayload pDirId s =
     (if \<not> mIsConnected s then (IPC_ERROR_COMMUNICATION, [], s)
      else if \<not> otherThread then (IPC_ERROR_WRONG_THREAD, [], s)
      else case locked of
        LockTimeout \<Rightarrow> (IPC_ERROR_REQUEST_TIMEOUT, [], s)
      | LockError \<Rightarrow> (IPC_ERROR_OTHER, [], s)
      | Locked \<Rightarrow> CIpcSocket_send e send_ok msgid TYPE_TRIGGER pPayload pDirId s)"

text \<open>\<^verbatim>\<open>incomingRequest\<close>: the client's handler fills the response, which goes back the way it came.\<close>

definition CIpc_incomingRequest ::
  "endian \<Rightarrow> (u32 \<Rightarrow> u8 list \<Rightarrow> DirId \<Rightarrow> 'h \<Rightarrow> (u8 list \<times> 'h) option) \<Rightarrow> bool \<Rightarrow> u32 \<Rightarrow> u8 list \<Rightarrow> DirId \<Rightarrow>
   CIpcSocket \<times> 'h \<Rightarrow> (u8 list \<times> CIpcSocket \<times> 'h) option" where
  "CIpc_incomingRequest e onRequest send_ok msgid pPayload dirId = (\<lambda>(s, h).
     case onRequest msgid pPayload dirId h of
       None \<Rightarrow> None
     | Some (resp, h) \<Rightarrow>
        (let (_, bytes, s) = CIpcSocket_send e send_ok msgid TYPE_RESPONSE resp (Some dirId) s in Some (bytes, s, h)))"

section \<open>Feeding a connection\<close>

text \<open>A run of \<^verbatim>\<open>consumeData\<close> over the pieces \<^verbatim>\<open>recv\<close> returned, as long as it succeeds.\<close>

fun ipc_feed :: "endian \<Rightarrow> u8 list list \<Rightarrow> CIpcSocket \<Rightarrow> (bool \<times> CIpcSocket) option" where
  "ipc_feed e [] s = Some (True, s)"
| "ipc_feed e (bs # bss) s =
     (case consumeData e (RecvData bs) s of
        None \<Rightarrow> None
      | Some (ok, s) \<Rightarrow> if ok then ipc_feed e bss s else Some (False, s))"

lemma ipc_feed_append:
  "ipc_feed e (as @ bs) s =
     (case ipc_feed e as s of None \<Rightarrow> None | Some (ok, s') \<Rightarrow> if ok then ipc_feed e bs s' else Some (False, s'))"
  by (induction as arbitrary: s) (auto split: option.split)

text \<open>A receiver between two messages, with the socket to read from chosen.\<close>

definition awaits_message :: "DirId \<Rightarrow> CIpcSocket \<Rightarrow> bool" where
  "awaits_message d s \<longleftrightarrow> mMode s = RECV_HEADER \<and> mHaveInBuffer s = 0 \<and> mReadingSock s \<noteq> -1 \<and> mReadingDir s = d"

definition header_bytes :: "endian \<Rightarrow> u32 \<Rightarrow> u32 \<Rightarrow> u32 \<Rightarrow> u8 list" where
  "header_bytes e sz msgid msg_type = store e 4 sz @ store e 4 msgid @ store e 4 msg_type"

lemma length_header_bytes [simp]: "length (header_bytes e sz msgid msg_type) = 12"
  by (simp add: header_bytes_def)

lemma header_bytes_nonempty [simp]: "header_bytes e sz msgid msg_type \<noteq> []"
  using length_header_bytes [of e sz msgid msg_type] by (metis list.size(3) zero_neq_numeral)

lemma header_fields [simp]:
  "take 4 (header_bytes e sz msgid msg_type) = store e 4 sz"
  "take 4 (drop 4 (header_bytes e sz msgid msg_type)) = store e 4 msgid"
  "take 4 (drop 8 (header_bytes e sz msgid msg_type)) = store e 4 msg_type"
  by (simp_all add: header_bytes_def)

lemma message_bytes_header:
  "message_bytes e msgid msg_type p = header_bytes e (of_nat (length p)) msgid msg_type @ p"
  by (simp add: message_bytes_def header_bytes_def)

text \<open>
  While the header comes in, nothing is delivered and the connection stays open. The state behind the
  header depends only on the bytes, not on their pieces.
\<close>

definition header_state :: "u8 list \<Rightarrow> CIpcSocket \<Rightarrow> CIpcSocket" where
  "header_state bs s = s\<lparr>sk_cur := bs, mHaveInBuffer := of_nat (length bs)\<rparr>"

lemma consumeHeader_piece:
  assumes "mMode s = RECV_HEADER" "mReadingSock s \<noteq> -1" "received s = got" "mHaveInBuffer s = of_nat (length got)"
    and "bs \<noteq> []" "length got + length bs < 12"
  shows "consumeData e (RecvData bs) s = Some (True, header_state (got @ bs) s)"
proof -
  have u: "unat (of_nat (length got) :: u32) = length got" "unat (of_nat (length bs) :: u32) = length bs"
    "unat (of_nat (length got) + of_nat (length bs) :: u32) = length got + length bs"
    using assms(6) by (simp_all add: unsigned_of_nat take_bit_nat_eq_self flip: of_nat_add)
  show ?thesis
    using assms u
    by (simp add: consumeData_def consumeHeader_def ipc_receive_def MSG_HEADER_SIZE_def word_less_nat_alt
        word_le_nat_alt header_state_def Let_def)
qed

lemma header_prefix:
  assumes "mMode s = RECV_HEADER" "mReadingSock s \<noteq> -1" "received s = got" "mHaveInBuffer s = of_nat (length got)"
    and "list_all (\<lambda>b. b \<noteq> []) hs" "length got + length (concat hs) < 12"
  shows "\<exists>s'. ipc_feed e hs s = Some (True, s') \<and> mHaveInBuffer s' = of_nat (length (got @ concat hs))
    \<and> received s' = got @ concat hs \<and> (\<exists>cur n. s' = s\<lparr>sk_cur := cur, mHaveInBuffer := n\<rparr>)"
  using assms
proof (induction hs arbitrary: s got)
  case Nil
  have "s = s\<lparr>sk_cur := sk_cur s, mHaveInBuffer := mHaveInBuffer s\<rparr>" by simp
  with Nil show ?case by (metis append_Nil2 concat.simps(1) ipc_feed.simps(1))
next
  case (Cons b hs)
  let ?s = "header_state (got @ b) s"
  have c: "consumeData e (RecvData b) s = Some (True, ?s)"
    using Cons.prems by (intro consumeHeader_piece) auto
  have u: "unat (of_nat (length (got @ b)) :: u32) = length (got @ b)"
    using Cons.prems(6) by (simp add: unsigned_of_nat take_bit_nat_eq_self del: of_nat_add)
  have "received ?s = got @ b" using u by (simp add: header_state_def received_def)
  from Cons.IH [OF _ _ this] Cons.prems
  obtain s' cur n where "ipc_feed e hs ?s = Some (True, s')" "mHaveInBuffer s' = of_nat (length ((got @ b) @ concat hs))"
    "received s' = (got @ b) @ concat hs" "s' = ?s\<lparr>sk_cur := cur, mHaveInBuffer := n\<rparr>"
    by (auto simp: header_state_def)
  with c show ?case by (auto simp: header_state_def)
qed

lemma header_complete:
  assumes "awaits_message d s" "list_all (\<lambda>b. b \<noteq> []) hs" "concat hs = header_bytes e sz msgid msg_type"
    and "msg_type = TYPE_REQUEST \<or> msg_type = TYPE_TRIGGER" "sz \<le> BUFFER_SIZE"
  shows "\<exists>s'. ipc_feed e hs s = Some (True, s') \<and> mHaveInBuffer s' = 0 \<and> mLeftToReceive s' = sz \<and> sk_cur s' = []
    \<and> mMode s' = (if msg_type = TYPE_REQUEST then RECV_DATA_REQU else RECV_DATA_TRIG) \<and> mMsgID s' = msgid
    \<and> mReadingSock s' \<noteq> -1 \<and> mReadingDir s' = d \<and> ipc_events s' = ipc_events s"
proof -
  have len: "length (concat hs) = 12" using assms(3) by simp
  then obtain hs1 h where hs: "hs = hs1 @ [h]" by (cases hs rule: rev_cases) auto
  have h: "h \<noteq> []" "list_all (\<lambda>b. b \<noteq> []) hs1" using assms(2) hs by auto
  have l: "length (concat hs1) + length h = 12" using len hs by simp
  have l1: "length [] + length (concat hs1) < 12" using l h(1) by (cases h) auto
  obtain s1 cur n where p: "ipc_feed e hs1 s = Some (True, s1)" "mHaveInBuffer s1 = of_nat (length (concat hs1))"
    "received s1 = concat hs1" "s1 = s\<lparr>sk_cur := cur, mHaveInBuffer := n\<rparr>"
    using header_prefix [OF _ _ _ _ h(2) l1, of s e] assms(1) by (auto simp: awaits_message_def received_def)
  have u: "unat (of_nat (length (concat hs1)) :: u32) = length (concat hs1)" "unat (of_nat (length h) :: u32) = length h"
    using l by (simp_all add: unsigned_of_nat take_bit_nat_eq_self)
  have sum: "mHaveInBuffer s1 + of_nat (length h) = 12" using p(2) l by (metis of_nat_add of_nat_numeral)
  have "mHaveInBuffer s1 < 12" using p(2) u(1) l1 by (simp add: word_less_nat_alt)
  moreover have "received s1 @ h = header_bytes e sz msgid msg_type" using p(3) hs assms(3) by simp
  moreover have "mMode s1 = RECV_HEADER" "mReadingSock s1 \<noteq> -1" "mReadingDir s1 = d" "ipc_events s1 = ipc_events s"
    using p(4) assms(1) by (simp_all add: awaits_message_def)
  ultimately have "\<exists>s'. consumeData e (RecvData h) s1 = Some (True, s') \<and> mHaveInBuffer s' = 0 \<and> mLeftToReceive s' = sz
    \<and> sk_cur s' = [] \<and> mMode s' = (if msg_type = TYPE_REQUEST then RECV_DATA_REQU else RECV_DATA_TRIG) \<and> mMsgID s' = msgid
    \<and> mReadingSock s' \<noteq> -1 \<and> mReadingDir s' = d \<and> ipc_events s' = ipc_events s"
    using sum h(1) assms(4,5)
    by (auto simp: consumeData_def consumeHeader_def ipc_receive_def MSG_HEADER_SIZE_def load_store setMode_def Let_def)
  then show ?thesis using p(1) by (auto simp: hs ipc_feed_append)
qed

section \<open>Properties\<close>

definition incoming_event :: "u32 \<Rightarrow> u32 \<Rightarrow> u8 list \<Rightarrow> DirId \<Rightarrow> ipc_event" where
  "incoming_event msg_type msgid p d =
     (if msg_type = TYPE_REQUEST then IncomingRequest msgid p d else IncomingAsyncRequest msgid p d)"

lemma consume_body:
  assumes "mMode s = (if msg_type = TYPE_REQUEST then RECV_DATA_REQU else RECV_DATA_TRIG)"
    and "mReadingSock s \<noteq> -1" "mHaveInBuffer s = of_nat (length (sk_cur s))" "bs \<noteq> []" "length bs < 2 ^ 32"
    and "length (sk_cur s) + length bs < 2 ^ 32"
  shows "consumeData e (RecvData bs) s =
    (if unat (mLeftToReceive s) < length (sk_cur s) + length bs then None
     else if length (sk_cur s) + length bs < unat (mLeftToReceive s)
     then Some (True, s\<lparr>sk_cur := sk_cur s @ bs, mHaveInBuffer := of_nat (length (sk_cur s @ bs)),
       mLeftToReceive := mLeftToReceive s - of_nat (length bs)\<rparr>)
     else Some (True, setMode RECV_HEADER MSG_HEADER_SIZE
       (ipc_emit (incoming_event msg_type (mMsgID s) (sk_cur s @ bs) (mReadingDir s))
         (s\<lparr>sk_cur := sk_cur s @ bs, mHaveInBuffer := of_nat (length (sk_cur s @ bs)),
           mLeftToReceive := mLeftToReceive s - of_nat (length bs)\<rparr>))))"
proof -
  let ?h = "of_nat (length (sk_cur s)) :: u32" and ?b = "of_nat (length bs) :: u32"
  have sum: "?h + ?b = of_nat (length (sk_cur s @ bs))" by simp
  have u: "unat ?b = length bs" "unat (?h + ?b) = length (sk_cur s) + length bs"
    using assms(5,6) unfolding sum by (simp_all add: unsigned_of_nat take_bit_nat_eq_self del: of_nat_add)
  have r: "received (s\<lparr>sk_cur := sk_cur s @ bs, mHaveInBuffer := ?h + ?b, mLeftToReceive := n\<rparr>) = sk_cur s @ bs" for n
    using u by (simp add: received_def)
  have le: "?b \<le> mLeftToReceive s \<longleftrightarrow> length bs \<le> unat (mLeftToReceive s)"
    "?h + ?b \<le> mLeftToReceive s \<longleftrightarrow> length (sk_cur s) + length bs \<le> unat (mLeftToReceive s)"
    "?h + ?b < mLeftToReceive s \<longleftrightarrow> length (sk_cur s) + length bs < unat (mLeftToReceive s)"
    "mLeftToReceive s < ?b \<longleftrightarrow> unat (mLeftToReceive s) < length bs"
    by (simp_all add: word_le_nat_alt word_less_nat_alt u)
  have rr: "recvReqRespData (RecvData bs) s =
    (if unat (mLeftToReceive s) < length (sk_cur s) + length bs then None
     else Some (if length (sk_cur s) + length bs < unat (mLeftToReceive s) then 0 else 1,
       s\<lparr>sk_cur := sk_cur s @ bs, mHaveInBuffer := ?h + ?b, mLeftToReceive := mLeftToReceive s - ?b\<rparr>))"
    using assms(2,3,4) by (simp add: recvReqRespData_def ipc_receive_def le Let_def not_le)
  show ?thesis
    using assms(1) r
    by (cases "msg_type = TYPE_REQUEST")
      (simp_all add: consumeData_def consumeRequestData_def consumeTriggerData_def rr incoming_event_def)
qed

text \<open>
  C7: a request or trigger whose header arrives in any pieces and whose payload
  arrives in one is delivered once, with its identifier, its payload and the direction it came from, and
  the receiver is ready for the next message.
\<close>

theorem whole_message_delivered:
  assumes "awaits_message d s" "list_all (\<lambda>b. b \<noteq> []) hs" "p \<noteq> []" "length p \<le> 4096"
    and "msg_type = TYPE_REQUEST \<or> msg_type = TYPE_TRIGGER"
    and "concat hs @ p = message_bytes e msgid msg_type p"
  shows "\<exists>s'. ipc_feed e (hs @ [p]) s = Some (True, s')
    \<and> ipc_events s' = ipc_events s @ [incoming_event msg_type msgid p d]
    \<and> mMode s' = RECV_HEADER \<and> mHaveInBuffer s' = 0"
proof -
  let ?n = "of_nat (length p) :: u32"
  have n: "unat ?n = length p" using assms(4) by (simp add: unsigned_of_nat take_bit_nat_eq_self)
  then have "?n \<le> BUFFER_SIZE" using assms(4) by (simp add: word_le_nat_alt BUFFER_SIZE_def)
  moreover have "concat hs = header_bytes e ?n msgid msg_type"
    using assms(6) by (simp add: message_bytes_header)
  ultimately obtain s1 where h: "ipc_feed e hs s = Some (True, s1)" "mHaveInBuffer s1 = 0" "mLeftToReceive s1 = ?n"
    "sk_cur s1 = []" "mMode s1 = (if msg_type = TYPE_REQUEST then RECV_DATA_REQU else RECV_DATA_TRIG)"
    "mMsgID s1 = msgid" "mReadingSock s1 \<noteq> -1" "mReadingDir s1 = d" "ipc_events s1 = ipc_events s"
    using header_complete [OF assms(1,2) _ assms(5)] by metis
  have "consumeData e (RecvData p) s1 = Some (True, setMode RECV_HEADER MSG_HEADER_SIZE
      (ipc_emit (incoming_event msg_type msgid p d) (s1\<lparr>sk_cur := p, mHaveInBuffer := ?n, mLeftToReceive := 0\<rparr>)))"
    using consume_body [OF h(5,7), of p e] h assms(3,4) n by simp
  with h show ?thesis by (simp add: ipc_feed_append setMode_def ipc_emit_def)
qed

text \<open>
  A payload that \<^verbatim>\<open>recv\<close> returns in two pieces is never delivered: the second
  piece violates the assertion of \<^verbatim>\<open>recvReqRespData\<close>, which adds what it has to what it reads but compares
  with a remainder from which the former has been subtracted already.
\<close>

theorem split_payload_aborts:
  assumes "awaits_message d s" "list_all (\<lambda>b. b \<noteq> []) hs" "p1 \<noteq> []" "p2 \<noteq> []" "length (p1 @ p2) \<le> 4096"
    and "msg_type = TYPE_REQUEST \<or> msg_type = TYPE_TRIGGER"
    and "concat hs @ p1 @ p2 = message_bytes e msgid msg_type (p1 @ p2)"
  shows "ipc_feed e (hs @ [p1, p2]) s = None"
proof -
  let ?n = "of_nat (length (p1 @ p2)) :: u32"
  have n: "unat ?n = length p1 + length p2"
    using assms(5) by (simp add: unsigned_of_nat take_bit_nat_eq_self del: of_nat_add)
  then have "?n \<le> BUFFER_SIZE" using assms(5) by (simp add: word_le_nat_alt BUFFER_SIZE_def)
  moreover have "concat hs = header_bytes e ?n msgid msg_type"
    using assms(7) by (simp add: message_bytes_header)
  ultimately obtain s1 where h: "ipc_feed e hs s = Some (True, s1)" "mHaveInBuffer s1 = 0" "mLeftToReceive s1 = ?n"
    "sk_cur s1 = []" "mMode s1 = (if msg_type = TYPE_REQUEST then RECV_DATA_REQU else RECV_DATA_TRIG)"
    "mMsgID s1 = msgid" "mReadingSock s1 \<noteq> -1" "mReadingDir s1 = d" "ipc_events s1 = ipc_events s"
    using header_complete [OF assms(1,2) _ assms(6)] by metis
  define s2 where "s2 = s1\<lparr>sk_cur := p1, mHaveInBuffer := of_nat (length p1), mLeftToReceive := of_nat (length p2)\<rparr>"
  have c1: "consumeData e (RecvData p1) s1 = Some (True, s2)"
    using consume_body [OF h(5,7), of p1 e] h assms(3,4,5) n by (simp add: s2_def)
  have u2: "unat (of_nat (length p2) :: u32) = length p2"
    using assms(5) by (simp add: unsigned_of_nat take_bit_nat_eq_self)
  have "consumeData e (RecvData p2) s2 = None"
  proof -
    have m: "mMode s2 = (if msg_type = TYPE_REQUEST then RECV_DATA_REQU else RECV_DATA_TRIG)"
      "mReadingSock s2 \<noteq> -1" "mHaveInBuffer s2 = of_nat (length (sk_cur s2))" "sk_cur s2 = p1"
      "mLeftToReceive s2 = of_nat (length p2)"
      using h by (simp_all add: s2_def)
    show ?thesis
      using consume_body [OF m(1,2,3) assms(4)] assms(3,5) u2 m(4,5) by (cases p1) auto
  qed
  with h(1) c1 show ?thesis by (simp add: ipc_feed_append)
qed

text \<open>
  A header that announces more than 4096 bytes, which nothing on the sending
  side prevents, ends the receiving process.
\<close>

theorem oversized_message_aborts:
  assumes "awaits_message d s" "4096 < sz" "msg_type = TYPE_REQUEST \<or> msg_type = TYPE_TRIGGER"
  shows "ipc_feed e [header_bytes e sz msgid msg_type] s = None"
  using assms
  by (auto simp: awaits_message_def consumeData_def consumeHeader_def ipc_receive_def received_def MSG_HEADER_SIZE_def
      load_store setMode_def BUFFER_SIZE_def Let_def)

text \<open>
  C8: a response that arrives whole while its request waits is stored for the
  caller, who gets exactly its bytes and no error; if the connection of the request is lost first, the
  caller gets \<^verbatim>\<open>ERROR_CONNECTION_LOST\<close>.
\<close>

theorem response_reaches_caller:
  assumes "awaits_message d s" "p \<noteq> []" "length p < 2 ^ 32" "mRequestDataMap s msgid = Some r"
    and "length p \<le> unat (rd_bufferSize r)"
  shows "(\<exists>s'. ipc_feed e [header_bytes e (of_nat (length p)) msgid TYPE_RESPONSE, p] s = Some (True, s')
      \<and> ResponseSignalled msgid \<in> set (ipc_events s')
      \<and> (let (err, bs, s'') = CIpc_request_end Woken msgid s' in err = NO_ERROR \<and> bs = p \<and> mRequestDataMap s'' msgid = None))
    \<and> fst (CIpc_request_end Woken msgid (ipc_onConnectionLost (rd_dirId r) s)) = IPC_ERROR_CONNECTION_LOST"
proof
  let ?n = "of_nat (length p) :: u32"
  have n: "unat ?n = length p" using assms(3) by (simp add: unsigned_of_nat take_bit_nat_eq_self)
  then have nz: "?n \<noteq> 0" using assms(2) by auto
  have le: "\<not> rd_bufferSize r < ?n" using assms(5) n by (simp add: word_less_nat_alt)
  let ?s1 = "s\<lparr>sk_cur := [], mMsgID := msgid, mMode := RECV_DATA_RESP, mLeftToReceive := ?n, mHaveInBuffer := 0,
      mUnknownResponse := False\<rparr>"
  have h: "consumeData e (RecvData (header_bytes e ?n msgid TYPE_RESPONSE)) s = Some (True, ?s1)"
  proof -
    have ne: "header_bytes e ?n msgid TYPE_RESPONSE \<noteq> []"
      using length_header_bytes [of e ?n msgid TYPE_RESPONSE] by (metis list.size(3) zero_neq_numeral)
    show ?thesis
      using assms(1,4) nz le ne
      by (simp add: awaits_message_def consumeData_def consumeHeader_def ipc_receive_def received_def
          MSG_HEADER_SIZE_def load_store setMode_def rdc_getData_def Let_def)
  qed
  have b: "consumeData e (RecvData p) ?s1 = Some (True, setMode RECV_HEADER MSG_HEADER_SIZE (ipc_emit (ResponseSignalled msgid)
      (?s1\<lparr>sk_cur := p, mHaveInBuffer := ?n, mLeftToReceive := 0, mRequestDataMap := (mRequestDataMap s)(msgid \<mapsto>
         r\<lparr>rd_bufferSize := ?n, rd_response := p\<rparr>)\<rparr>)))"
    using assms(1,2,4) nz n
    by (simp add: awaits_message_def consumeData_def consumeResponseData_def recvReqRespData_def ipc_receive_def
        received_def word_gt_0 Let_def)
  show "\<exists>s'. ipc_feed e [header_bytes e ?n msgid TYPE_RESPONSE, p] s = Some (True, s')
      \<and> ResponseSignalled msgid \<in> set (ipc_events s')
      \<and> (let (err, bs, s'') = CIpc_request_end Woken msgid s' in err = NO_ERROR \<and> bs = p \<and> mRequestDataMap s'' msgid = None)"
    using h b n by (simp add: CIpc_request_end_def rdc_getData_def rdc_erase_def setMode_def ipc_emit_def)
  show "fst (CIpc_request_end Woken msgid (ipc_onConnectionLost (rd_dirId r) s)) = IPC_ERROR_CONNECTION_LOST"
    using assms(4)
    by (simp add: CIpc_request_end_def ipc_onConnectionLost_def rdc_invalidateRequestsForDirection_def rdc_getData_def
        ipc_emit_def Let_def)
qed

section \<open>Witnesses\<close>

text \<open>A connected client whose socket 3 is ready, with request 6 waiting for up to 16 bytes.\<close>

definition sample_ipc :: CIpcSocket where
  "sample_ipc = (CIpcSocket_new False)\<lparr>mIsConnected := True, mSockets := [(3, 1)], mReadingSock := 3, mReadingDir := 1,
     mRequestDataMap := [6 \<mapsto> \<lparr>rd_bufferSize = 16, rd_response = [], rd_dirId = 1\<rparr>]\<rparr>"

lemma sample_ipc_ok: "awaits_message 1 sample_ipc"
  "mRequestDataMap sample_ipc 6 = Some \<lparr>rd_bufferSize = 16, rd_response = [], rd_dirId = 1\<rparr>" "ipc_events sample_ipc = []"
  by (simp_all add: awaits_message_def sample_ipc_def CIpcSocket_new_def)

lemma sample_message:
  "concat [take 5 (header_bytes LittleEndian 3 7 TYPE_REQUEST), drop 5 (header_bytes LittleEndian 3 7 TYPE_REQUEST)] @ [1, 2, 3]
     = message_bytes LittleEndian 7 TYPE_REQUEST [1, 2, 3]"
  "list_all (\<lambda>b. b \<noteq> []) [take 5 (header_bytes LittleEndian 3 7 TYPE_REQUEST), drop 5 (header_bytes LittleEndian 3 7 TYPE_REQUEST)]"
  by (simp_all add: message_bytes_header)

theorem whole_message_delivered_witness:
  "\<exists>s'. ipc_feed LittleEndian ([take 5 (header_bytes LittleEndian 3 7 TYPE_REQUEST),
        drop 5 (header_bytes LittleEndian 3 7 TYPE_REQUEST)] @ [[1, 2, 3]]) sample_ipc = Some (True, s')
    \<and> ipc_events s' = [] @ [incoming_event TYPE_REQUEST 7 [1, 2, 3] 1] \<and> mMode s' = RECV_HEADER \<and> mHaveInBuffer s' = 0"
  using whole_message_delivered [OF sample_ipc_ok(1) sample_message(2) _ _ _ sample_message(1)]
  unfolding sample_ipc_ok(3) by simp

theorem split_payload_aborts_witness:
  "ipc_feed LittleEndian ([take 5 (header_bytes LittleEndian 3 7 TYPE_REQUEST),
        drop 5 (header_bytes LittleEndian 3 7 TYPE_REQUEST)] @ [[1], [2, 3]]) sample_ipc = None"
  by (rule split_payload_aborts [OF sample_ipc_ok(1) sample_message(2)]) (use sample_message(1) in simp_all)

theorem oversized_message_aborts_witness:
  "ipc_feed LittleEndian [header_bytes LittleEndian 4097 7 TYPE_TRIGGER] sample_ipc = None"
  by (rule oversized_message_aborts [OF sample_ipc_ok(1)]) simp_all

theorem response_reaches_caller_witness:
  "(\<exists>s'. ipc_feed LittleEndian [header_bytes LittleEndian (of_nat (length [9, 8 :: u8])) 6 TYPE_RESPONSE, [9, 8]] sample_ipc
        = Some (True, s')
      \<and> ResponseSignalled 6 \<in> set (ipc_events s')
      \<and> (let (err, bs, s'') = CIpc_request_end Woken 6 s' in err = NO_ERROR \<and> bs = [9, 8] \<and> mRequestDataMap s'' 6 = None))
    \<and> fst (CIpc_request_end Woken 6 (ipc_onConnectionLost (rd_dirId \<lparr>rd_bufferSize = 16, rd_response = [], rd_dirId = 1\<rparr>) sample_ipc))
      = IPC_ERROR_CONNECTION_LOST"
  by (rule response_reaches_caller [OF sample_ipc_ok(1) _ _ sample_ipc_ok(2)]) simp_all

end
