(* ===== verification/TriggerQueue.thy ===== *)
theory TriggerQueue
  imports Prelude
begin

text \<open>
  The queue of \<^verbatim>\<open>libraries/TriggerQueue/TriggerQueue.hpp\<close>, by which event handlers hand triggers to the
  one thread that works on them. The deque is protected by \<^verbatim>\<open>mQueueMutex\<close>, the flag
  \<^verbatim>\<open>mIsQueueEmpty\<close> by the lock of the condition variable; no lock covers both, so
  \<^verbatim>\<open>sendTrigger\<close> and \<^verbatim>\<open>receiveTrigger\<close> are split into their critical sections here, and the sections of
  any number of senders and of the receiver interleave.
\<close>

section \<open>The sections of the operations\<close>

record 'a TriggerQueue =
  mQueue :: "'a list"
  mIsQueueEmpty :: bool

definition emptyTriggerQueue :: "'a TriggerQueue" where
  "emptyTriggerQueue = \<lparr>mQueue = [], mIsQueueEmpty = True\<rparr>"

definition sendTrigger_push :: "'a \<Rightarrow> 'a TriggerQueue \<Rightarrow> 'a TriggerQueue" where
  "sendTrigger_push trigger q = q\<lparr>mQueue := mQueue q @ [trigger]\<rparr>"

definition sendTrigger_signal :: "'a TriggerQueue \<Rightarrow> 'a TriggerQueue" where
  "sendTrigger_signal q = q\<lparr>mIsQueueEmpty := False\<rparr>"

definition sendTrigger :: "'a \<Rightarrow> 'a TriggerQueue \<Rightarrow> 'a TriggerQueue" where
  "sendTrigger trigger q = sendTrigger_signal (sendTrigger_push trigger q)"

text \<open>The section under \<^verbatim>\<open>mQueueMutex\<close>: the trigger and \<^verbatim>\<open>queueState\<close>.\<close>

definition receiveTrigger_pop :: "'a TriggerQueue \<Rightarrow> ('a \<times> bool \<times> 'a TriggerQueue) option" where
  "receiveTrigger_pop q = (case mQueue q of
     [] \<Rightarrow> None
   | trigger # ts \<Rightarrow> Some (trigger, ts = [], q\<lparr>mQueue := ts\<rparr>))"

definition receiveTrigger_flag :: "bool \<Rightarrow> 'a TriggerQueue \<Rightarrow> 'a TriggerQueue" where
  "receiveTrigger_flag queueState q = q\<lparr>mIsQueueEmpty := queueState\<rparr>"

text \<open>
  The whole call when no sender interferes: \<^verbatim>\<open>None\<close> when it waits or its assertion fails.
\<close>

definition receiveTrigger :: "'a TriggerQueue \<Rightarrow> ('a \<times> 'a TriggerQueue) option" where
  "receiveTrigger q =
     (if mIsQueueEmpty q then None
      else do {
        (trigger, queueState, q) \<leftarrow> receiveTrigger_pop q;
        Some (trigger, if mQueue q = [] then receiveTrigger_flag queueState q else q) })"

definition resetTriggerQueue :: "'a TriggerQueue \<Rightarrow> 'a TriggerQueue" where
  "resetTriggerQueue q = q\<lparr>mIsQueueEmpty := True, mQueue := []\<rparr>"

section \<open>Calls that do not interleave\<close>

definition tq_ok :: "'a TriggerQueue \<Rightarrow> bool" where
  "tq_ok q \<longleftrightarrow> (mIsQueueEmpty q \<longleftrightarrow> mQueue q = [])"

lemma tq_ok_reset [simp]: "tq_ok (resetTriggerQueue q)" "mQueue (resetTriggerQueue q) = []"
  by (simp_all add: tq_ok_def resetTriggerQueue_def)

lemma tq_ok_send [simp]: "tq_ok (sendTrigger t q)" "mQueue (sendTrigger t q) = mQueue q @ [t]"
  by (simp_all add: tq_ok_def sendTrigger_def sendTrigger_push_def sendTrigger_signal_def)

lemma receiveTrigger_None [simp]: "tq_ok q \<Longrightarrow> receiveTrigger q = None \<longleftrightarrow> mQueue q = []"
  by (auto simp: tq_ok_def receiveTrigger_def receiveTrigger_pop_def split: list.splits)

lemma receiveTrigger_Some:
  assumes "tq_ok q" "mQueue q = t # ts"
  obtains q' where "receiveTrigger q = Some (t, q')" "tq_ok q'" "mQueue q' = ts"
proof (rule that)
  show "receiveTrigger q = Some (t, q\<lparr>mQueue := ts, mIsQueueEmpty := (ts = [])\<rparr>)"
    using assms
    by (cases ts) (simp_all add: tq_ok_def receiveTrigger_def receiveTrigger_pop_def receiveTrigger_flag_def)
qed (simp_all add: tq_ok_def)

section \<open>Senders and the receiver interleaved\<close>

text \<open>
  Where the receiving thread stands: waiting for the flag, behind that loop, with a trigger before
  the second look at the queue, between that look and its assignment (holding the lock of the
  condition variable), or stopped by the assertion. For the senders it is enough to count those between
  their two sections, because the second section is the same for all. The last two fields record the history.
\<close>

datatype 'a receiver_at = At_wait | At_pop | At_look 'a bool | At_assign 'a bool | At_assert

record 'a trigger_monitor =
  tm_queue :: "'a TriggerQueue"
  tm_senders :: nat
  tm_receiver :: "'a receiver_at"
  tm_sent :: "'a list"
  tm_received :: "'a list"

definition tm_init :: "'a trigger_monitor" where
  "tm_init = \<lparr>tm_queue = emptyTriggerQueue, tm_senders = 0, tm_receiver = At_wait, tm_sent = [], tm_received = []\<rparr>"

text \<open>The steps other than the start of a new \<^verbatim>\<open>sendTrigger\<close>.\<close>

inductive tm_internal :: "'a trigger_monitor \<Rightarrow> 'a trigger_monitor \<Rightarrow> bool" where
  signal: "tm_senders s = Suc n \<Longrightarrow> \<forall>t b. tm_receiver s \<noteq> At_assign t b \<Longrightarrow>
    tm_internal s (s\<lparr>tm_senders := n, tm_queue := sendTrigger_signal (tm_queue s)\<rparr>)"
| pass: "tm_receiver s = At_wait \<Longrightarrow> \<not> mIsQueueEmpty (tm_queue s) \<Longrightarrow>
    tm_internal s (s\<lparr>tm_receiver := At_pop\<rparr>)"
| pop: "tm_receiver s = At_pop \<Longrightarrow> receiveTrigger_pop (tm_queue s) = Some (t, b, q) \<Longrightarrow>
    tm_internal s (s\<lparr>tm_receiver := At_look t b, tm_queue := q\<rparr>)"
| fails: "tm_receiver s = At_pop \<Longrightarrow> receiveTrigger_pop (tm_queue s) = None \<Longrightarrow>
    tm_internal s (s\<lparr>tm_receiver := At_assert\<rparr>)"
| look_empty: "tm_receiver s = At_look t b \<Longrightarrow> mQueue (tm_queue s) = [] \<Longrightarrow>
    tm_internal s (s\<lparr>tm_receiver := At_assign t b\<rparr>)"
| look_more: "tm_receiver s = At_look t b \<Longrightarrow> mQueue (tm_queue s) \<noteq> [] \<Longrightarrow>
    tm_internal s (s\<lparr>tm_receiver := At_wait, tm_received := tm_received s @ [t]\<rparr>)"
| assign: "tm_receiver s = At_assign t b \<Longrightarrow>
    tm_internal s (s\<lparr>tm_receiver := At_wait, tm_received := tm_received s @ [t],
      tm_queue := receiveTrigger_flag b (tm_queue s)\<rparr>)"

inductive tm_step :: "'a trigger_monitor \<Rightarrow> 'a trigger_monitor \<Rightarrow> bool" where
  push: "tm_step s (s\<lparr>tm_queue := sendTrigger_push t (tm_queue s), tm_senders := Suc (tm_senders s),
      tm_sent := tm_sent s @ [t]\<rparr>)"
| internal: "tm_internal s s' \<Longrightarrow> tm_step s s'"

inductive tm_reachable :: "'a trigger_monitor \<Rightarrow> bool" where
  start: "tm_reachable tm_init"
| step: "tm_reachable s \<Longrightarrow> tm_step s s' \<Longrightarrow> tm_reachable s'"

text \<open>
  The trigger in the receiver's hands; what was sent is received, in hand or queued, in this order. A
  trigger that waits for a receiver that waits has a sender that will still signal, and the
  assignment never hides a trigger.
\<close>

fun in_hand :: "'a receiver_at \<Rightarrow> 'a list" where
  "in_hand (At_look t b) = [t]"
| "in_hand (At_assign t b) = [t]"
| "in_hand _ = []"

fun assigning :: "'a receiver_at \<Rightarrow> bool" where
  "assigning (At_assign t b) = True"
| "assigning _ = False"

definition tm_inv :: "'a trigger_monitor \<Rightarrow> bool" where
  "tm_inv s \<longleftrightarrow> tm_sent s = tm_received s @ in_hand (tm_receiver s) @ mQueue (tm_queue s)
    \<and> (mQueue (tm_queue s) \<noteq> [] \<and> tm_senders s = 0 \<longrightarrow>
        \<not> mIsQueueEmpty (tm_queue s) \<and> \<not> assigning (tm_receiver s))"

lemmas tm_defs = tm_inv_def sendTrigger_push_def sendTrigger_signal_def receiveTrigger_pop_def receiveTrigger_flag_def

lemma tm_inv_init: "tm_inv tm_init"
  by (simp add: tm_inv_def tm_init_def emptyTriggerQueue_def)

lemma assigning_iff: "assigning r \<longleftrightarrow> (\<exists>t b. r = At_assign t b)"
  by (cases r) auto

lemma tm_internal_inv: "tm_internal s s' \<Longrightarrow> tm_inv s \<Longrightarrow> tm_inv s'"
  by (induction rule: tm_internal.induct)
    (auto simp: tm_defs assigning_iff split: list.splits)

lemma tm_step_inv: "tm_step s s' \<Longrightarrow> tm_inv s \<Longrightarrow> tm_inv s'"
proof (induction rule: tm_step.induct)
  case (push s t)
  then show ?case
    by (simp add: tm_defs)
qed (rule tm_internal_inv)

lemma tm_reachable_inv: "tm_reachable s \<Longrightarrow> tm_inv s"
  by (induction rule: tm_reachable.induct) (auto intro: tm_inv_init tm_step_inv)

text \<open>
  When only the start of new sends is possible, nothing is left in the queue, unless the assertion has failed.
\<close>

lemma tm_quiescent:
  assumes "tm_inv s" "\<And>s'. \<not> tm_internal s s'" "tm_receiver s \<noteq> At_assert"
  shows "mQueue (tm_queue s) = [] \<and> tm_received s = tm_sent s \<and> tm_receiver s = At_wait"
proof -
  have wait: "tm_receiver s = At_wait"
  proof (cases "tm_receiver s")
    case At_pop
    then show ?thesis
      using assms(2) tm_internal.pop [OF At_pop] tm_internal.fails [OF At_pop]
      by (cases "receiveTrigger_pop (tm_queue s)") auto
  next
    case (At_look t b)
    then show ?thesis
      using assms(2) tm_internal.look_empty [OF At_look] tm_internal.look_more [OF At_look] by blast
  next
    case (At_assign t b)
    then show ?thesis
      using assms(2) tm_internal.assign [OF At_assign] by blast
  qed (simp_all add: assms(3))
  moreover have "tm_senders s = 0"
    using assms(2) tm_internal.signal [of s] wait by (cases "tm_senders s") auto
  moreover have "mIsQueueEmpty (tm_queue s)"
    using assms(2) tm_internal.pass [OF wait] by auto
  ultimately show ?thesis
    using assms(1) by (auto simp: tm_inv_def)
qed

text \<open>The internal steps come to an end: each one lowers this number.\<close>

fun receiver_rank :: "'a receiver_at \<Rightarrow> nat" where
  "receiver_rank At_wait = 2"
| "receiver_rank At_pop = 1"
| "receiver_rank (At_look t b) = 4"
| "receiver_rank (At_assign t b) = 3"
| "receiver_rank At_assert = 0"

definition tm_work :: "'a trigger_monitor \<Rightarrow> nat" where
  "tm_work s = 5 * length (mQueue (tm_queue s)) + tm_senders s + receiver_rank (tm_receiver s)"

lemma tm_internal_works: "tm_internal s s' \<Longrightarrow> tm_work s' < tm_work s"
  by (induction rule: tm_internal.induct)
    (auto simp: tm_work_def sendTrigger_signal_def receiveTrigger_pop_def receiveTrigger_flag_def split: list.splits)

lemma tm_settles:
  obtains s' where "tm_internal\<^sup>*\<^sup>* s s'" "\<And>s''. \<not> tm_internal s' s''"
proof (induction "tm_work s" arbitrary: s thesis rule: less_induct)
  case less
  show ?case
  proof (cases "\<exists>s'. tm_internal s s'")
    case True
    then obtain s1 where s1: "tm_internal s s1" ..
    obtain s2 where "tm_internal\<^sup>*\<^sup>* s1 s2" "\<And>s''. \<not> tm_internal s2 s''"
      using less.hyps [OF tm_internal_works [OF s1]] by blast
    then show ?thesis
      using less.prems s1 by (meson converse_rtranclp_into_rtranclp)
  qed (use less.prems in blast)
qed

lemma tm_internals_inv: "tm_internal\<^sup>*\<^sup>* s s' \<Longrightarrow> tm_inv s \<Longrightarrow> tm_inv s'"
  by (induction rule: rtranclp_induct) (auto intro: tm_internal_inv)

lemma tm_internals_sent: "tm_internal\<^sup>*\<^sup>* s s' \<Longrightarrow> tm_sent s' = tm_sent s"
proof (induction rule: rtranclp_induct)
  case (step y z)
  from step(2) have "tm_sent z = tm_sent y"
    by (induction rule: tm_internal.induct) auto
  then show ?case
    using step by simp
qed simp

section \<open>Properties\<close>



text \<open>
  One sender sends two triggers; the receiver takes both before the second \<^verbatim>\<open>sendTrigger\<close> sets the flag.
\<close>

lemma late_signal_asserts:
  fixes t1 t2 :: 'a
  obtains s where "tm_reachable s" "tm_sent s = [t1, t2]" "tm_received s = [t1, t2]" "tm_receiver s = At_assert"
proof -
  let ?q = "\<lambda>(ts :: 'a list) b. \<lparr>mQueue = ts, mIsQueueEmpty = b\<rparr>"
  let ?m = "\<lambda>ts b n r se re. \<lparr>tm_queue = ?q ts b, tm_senders = n, tm_receiver = r, tm_sent = se, tm_received = re\<rparr>"
  note defs = tm_defs emptyTriggerQueue_def tm_init_def
  have internal: "tm_reachable s'" if "tm_reachable s" "tm_internal s s'" for s s' :: "'a trigger_monitor"
    using that by (blast intro: tm_reachable.step tm_step.internal)
  have push: "tm_reachable (?m (ts @ [t]) b (Suc n) r (se @ [t]) re)" if "tm_reachable (?m ts b n r se re)" for ts b n r se re t
    using tm_reachable.step [OF that tm_step.push [of _ t]] by (simp add: defs)
  have signal: "tm_reachable (?m ts False n At_wait se re)" if "tm_reachable (?m ts b (Suc n) At_wait se re)" for ts b n se re
    using internal [OF that tm_internal.signal] by (simp add: defs)
  have pass: "tm_reachable (?m ts False n At_pop se re)" if "tm_reachable (?m ts False n At_wait se re)" for ts n se re
    using internal [OF that tm_internal.pass] by simp
  have pop: "tm_reachable (?m ts b n (At_look t (ts = [])) se re)" if "tm_reachable (?m (t # ts) b n At_pop se re)" for t ts b n se re
    using internal [OF that tm_internal.pop] by (simp add: defs)
  have more: "tm_reachable (?m (x # ts) b n At_wait se (re @ [t]))" if "tm_reachable (?m (x # ts) b n (At_look t c) se re)"
    for x t ts b n c se re
    using internal [OF that tm_internal.look_more] by simp
  have last: "tm_reachable (?m [] c n At_wait se (re @ [t]))" if "tm_reachable (?m [] b n (At_look t c) se re)" for b n t c se re
    using internal [OF internal [OF that tm_internal.look_empty] tm_internal.assign [where t = t and b = c]] by (simp add: defs)
  have fails: "tm_reachable (?m [] b n At_assert se re)" if "tm_reachable (?m [] b n At_pop se re)" for b n se re
    using internal [OF that tm_internal.fails] by (simp add: defs)
  have "tm_reachable (?m [] True 0 At_wait [] [])"
    using tm_reachable.start by (simp add: defs)
  from signal [OF push [OF this, of t1, simplified]] have "tm_reachable (?m [t1] False 0 At_wait [t1] [])"
    by simp
  from push [OF pass [OF this], of t2] have "tm_reachable (?m [t1, t2] False 1 At_pop [t1, t2] [])"
    by simp
  from more [OF pop [OF this]] have "tm_reachable (?m [t2] False 1 At_wait [t1, t2] [t1])"
    by simp
  from last [OF pop [OF pass [OF this]]] have "tm_reachable (?m [] True (Suc 0) At_wait [t1, t2] [t1, t2])"
    by simp
  from fails [OF pass [OF signal [OF this]]] show thesis
    by (rule that) simp_all
qed

text \<open>
  \<^verbatim>\<open>sendTrigger\<close> puts the trigger into the queue before it announces it, under another lock. A
  receiver that is already awake takes the trigger first; the announcement then finds an empty
  queue, and the next \<^verbatim>\<open>receiveTrigger\<close> fails its assertion, although every trigger was received. For every pair of triggers
  there is such a run.
\<close>

theorem late_signal_kills_receiver:
  "\<exists>s. tm_reachable s \<and> tm_sent s = [t1, t2] \<and> tm_received s = [t1, t2] \<and> tm_receiver s = At_assert"
  by (rule late_signal_asserts [of t1 t2]) blast

end
