(* ===== verification/SystemState.thy ===== *)
theory SystemState
  imports TriggerQueue "HOL-Library.Sublist"
begin

text \<open>
  The system controller (\<^verbatim>\<open>components/SystemController/ssm\<close>): a state machine that starts the
  processes of the framework one after the other, waits for the counterpart of each layer on the other
  device, runs the authentication and then reports the link to the applications. Callbacks of the message
  proxies call the handler of the present state, which changes the state and sends a trigger; one thread takes the
  triggers and launches the next component. The build without \<^verbatim>\<open>ANDROID\<close> is modelled.
\<close>

section \<open>States, triggers and the machine\<close>

datatype Components = PROFILE_MANAGER | CHANNEL_SUPERVISOR | CONNECTIVITY_AGENT | APPLICATION_MANAGER
  | AUTHENTICATION_APP | SPLASH_SCREEN | SYSTEM_CONTROLLER | SYSTEM_CONTROLLER_WATCHDOG

datatype CSystemState = InitialState | WatchdogReady | CApplicationManagerReady | ApplicationManagerInitDone
  | CPhysicalLayerReady | CPhysicalLayerHandshakeDone | CChannelLayerReady | CChannelLayerHandshakeDone
  | CProfileManagerReady | CAuthenticateState | CIdleState

datatype eSSMTriggers = EMPTY_TRIGGER_QUEUE | INITIALIZED | SYSTEM_WATCHDOG_STARTED | CONNECTIVITY_AGENT_STARTED
  | PHISYCAL_CONNECTION_ESTABLISHED | PHISYCAL_CONNECTION_LOST | CHANNEL_SUPERVISOR_STARTED
  | CHANNEL_CONNECTION_ESTABLISHED | CHANNEL_CONNECTION_LOST | AUTHENTICATION_ESTABLISHED | AUTHENTICATION_CANCELED
  | PROFILE_MANAGER_STARTED | PROFILE_MANAGER_CONNECTION_ESTABLISHED | APPLICATION_MANAGER_STARTED
  | APPLICATION_MANAGER_CONNECTION_ESTABLISHED | AUTHENTICATION_STARTED | AUTHENTICATION_STOPPED

text \<open>What the machine asks of other processes, in the order of the calls.\<close>

datatype SystemControllerToWatchdog = SC_WD_LAUNCHED_PHYSICAL_LAYER | SC_WD_LAUNCHED_CHANNEL_LAYER
  | SC_WD_LAUNCHED_PROFILE_LAYER | SC_WD_LAUNCHED_APPLICATION_LAYER | SC_WD_LAUNCHED_AUTHENTICATON
  | SC_WD_STOPPED_AUTHENTICATION

datatype ssm_call = Launch Components | Connect Components | DisconnectAuthenticationApp
  | TellWatchdog SystemControllerToWatchdog | SendRole bool | UnlockAuthenticationProfile | UnlockProfiles
  | AuthenticationDone | ShutDownAuthenticationApp | StopProgressBar | LinkUpNotification | LinkDownNotification
  | HardReset

record ssm =
  mSystemState :: CSystemState
  authOn :: bool
  mSystemGender :: int
  linkIsUp :: bool
  isResetInProgress :: bool
  ssm_triggers :: "eSSMTriggers TriggerQueue"
  ssm_calls :: "ssm_call list"

definition ssm_call :: "ssm_call list \<Rightarrow> ssm \<Rightarrow> ssm" where
  "ssm_call cs m = m\<lparr>ssm_calls := ssm_calls m @ cs\<rparr>"

definition ssm_send :: "eSSMTriggers \<Rightarrow> ssm \<Rightarrow> ssm" where
  "ssm_send t m = m\<lparr>ssm_triggers := sendTrigger t (ssm_triggers m)\<rparr>"

definition changeState :: "CSystemState \<Rightarrow> ssm \<Rightarrow> ssm" where
  "changeState s m = m\<lparr>mSystemState := s\<rparr>"

text \<open>The constructor leaves \<^verbatim>\<open>mSystemGender\<close> unset: its first value is an argument.\<close>

definition ssm_init :: "bool \<Rightarrow> int \<Rightarrow> ssm" where
  "ssm_init auth gender =
     \<lparr>mSystemState = InitialState, authOn = auth, mSystemGender = gender, linkIsUp = False, isResetInProgress = False,
      ssm_triggers = sendTrigger INITIALIZED (resetTriggerQueue emptyTriggerQueue), ssm_calls = []\<rparr>"

section \<open>The handlers of the states\<close>

text \<open>A state inherits the empty handler of \<^verbatim>\<open>CSystemState\<close> for everything it does not override.\<close>

definition launchSystemWatchdog :: "ssm \<Rightarrow> ssm" where
  "launchSystemWatchdog m = (case mSystemState m of
     InitialState \<Rightarrow> ssm_call [Launch SYSTEM_CONTROLLER_WATCHDOG, Connect SYSTEM_CONTROLLER_WATCHDOG] m
   | _ \<Rightarrow> m)"

definition onSystemWatchdogAvaliable :: "ssm \<Rightarrow> ssm" where
  "onSystemWatchdogAvaliable m = (case mSystemState m of
     InitialState \<Rightarrow> ssm_send SYSTEM_WATCHDOG_STARTED (changeState WatchdogReady m)
   | _ \<Rightarrow> m)"

definition launchApplicationManager :: "ssm \<Rightarrow> ssm" where
  "launchApplicationManager m = (case mSystemState m of
     WatchdogReady \<Rightarrow> ssm_call [Launch APPLICATION_MANAGER, Connect APPLICATION_MANAGER] m
   | _ \<Rightarrow> m)"

definition onApplicationManagerAvailable :: "ssm \<Rightarrow> ssm" where
  "onApplicationManagerAvailable m = (case mSystemState m of
     WatchdogReady \<Rightarrow> ssm_send APPLICATION_MANAGER_STARTED (changeState CApplicationManagerReady m)
   | _ \<Rightarrow> m)"

definition onApplicationManagerHandshakeDone :: "ssm \<Rightarrow> ssm" where
  "onApplicationManagerHandshakeDone m = (case mSystemState m of
     CApplicationManagerReady \<Rightarrow>
       ssm_send APPLICATION_MANAGER_CONNECTION_ESTABLISHED (changeState ApplicationManagerInitDone m)
   | _ \<Rightarrow> m)"

definition launchPhysicalLayer :: "ssm \<Rightarrow> ssm" where
  "launchPhysicalLayer m = (case mSystemState m of
     ApplicationManagerInitDone \<Rightarrow> ssm_call [Launch CONNECTIVITY_AGENT, Connect CONNECTIVITY_AGENT] m
   | _ \<Rightarrow> m)"

definition onConnectivityAgentAvailable :: "ssm \<Rightarrow> ssm" where
  "onConnectivityAgentAvailable m = (case mSystemState m of
     ApplicationManagerInitDone \<Rightarrow> ssm_send CONNECTIVITY_AGENT_STARTED (changeState CPhysicalLayerReady m)
   | _ \<Rightarrow> m)"

definition onConnectivityAgentHandshakeDone :: "ssm \<Rightarrow> ssm" where
  "onConnectivityAgentHandshakeDone m = (case mSystemState m of
     CPhysicalLayerReady \<Rightarrow> ssm_send PHISYCAL_CONNECTION_ESTABLISHED (changeState CPhysicalLayerHandshakeDone m)
   | _ \<Rightarrow> m)"

definition launchChannelLayer :: "ssm \<Rightarrow> ssm" where
  "launchChannelLayer m = (case mSystemState m of
     CPhysicalLayerHandshakeDone \<Rightarrow> ssm_call [Launch CHANNEL_SUPERVISOR, Connect CHANNEL_SUPERVISOR] m
   | _ \<Rightarrow> m)"

definition onChannelSupervisorAvailable :: "ssm \<Rightarrow> ssm" where
  "onChannelSupervisorAvailable m = (case mSystemState m of
     CPhysicalLayerHandshakeDone \<Rightarrow> ssm_send CHANNEL_SUPERVISOR_STARTED (changeState CChannelLayerReady m)
   | _ \<Rightarrow> m)"

definition onChannelSupervisorHandshakeDone :: "ssm \<Rightarrow> ssm" where
  "onChannelSupervisorHandshakeDone m = (case mSystemState m of
     CChannelLayerReady \<Rightarrow> ssm_send CHANNEL_CONNECTION_ESTABLISHED (changeState CChannelLayerHandshakeDone m)
   | _ \<Rightarrow> m)"

definition launchProfileManager :: "ssm \<Rightarrow> ssm" where
  "launchProfileManager m = (case mSystemState m of
     CChannelLayerHandshakeDone \<Rightarrow> ssm_call [Launch PROFILE_MANAGER, Connect PROFILE_MANAGER] m
   | _ \<Rightarrow> m)"

definition onProfileManagerAvailable :: "ssm \<Rightarrow> ssm" where
  "onProfileManagerAvailable m = (case mSystemState m of
     CChannelLayerHandshakeDone \<Rightarrow> ssm_send PROFILE_MANAGER_STARTED (changeState CProfileManagerReady m)
   | _ \<Rightarrow> m)"

definition onProfileManagerHandshakeDone :: "ssm \<Rightarrow> ssm" where
  "onProfileManagerHandshakeDone m = (case mSystemState m of
     CProfileManagerReady \<Rightarrow> ssm_send PROFILE_MANAGER_CONNECTION_ESTABLISHED (changeState CAuthenticateState m)
   | _ \<Rightarrow> m)"

definition startAuthentication :: "ssm \<Rightarrow> ssm" where
  "startAuthentication m = (case mSystemState m of
     CAuthenticateState \<Rightarrow>
       if authOn m
       then
         (let m = ssm_call [Connect AUTHENTICATION_APP] m
          in if mSystemGender m = 1 then ssm_call [Launch AUTHENTICATION_APP] m else m)
       else changeState CIdleState m
   | _ \<Rightarrow> m)"

definition finishAuthentication :: "ssm \<Rightarrow> ssm" where
  "finishAuthentication m = (case mSystemState m of
     CAuthenticateState \<Rightarrow>
       ssm_call [DisconnectAuthenticationApp] (ssm_send AUTHENTICATION_ESTABLISHED (changeState CIdleState m))
   | _ \<Rightarrow> m)"

definition cancelAuthentication :: "ssm \<Rightarrow> ssm" where
  "cancelAuthentication m = (case mSystemState m of
     CAuthenticateState \<Rightarrow> ssm_send AUTHENTICATION_CANCELED (changeState CIdleState m)
   | _ \<Rightarrow> m)"

section \<open>The machine\<close>

text \<open>
  \<^verbatim>\<open>hardReset\<close> replaces the process; the lock of \<^verbatim>\<open>doReset\<close> is held meanwhile, but the other threads go on, so the
  machine is followed beyond it.
\<close>

definition doReset :: "ssm \<Rightarrow> ssm" where
  "doReset m = (if isResetInProgress m then m else ssm_call [HardReset] (m\<lparr>isResetInProgress := True\<rparr>))"

fun onTrigger :: "eSSMTriggers \<Rightarrow> ssm \<Rightarrow> ssm" where
  "onTrigger INITIALIZED m = launchSystemWatchdog m"
| "onTrigger SYSTEM_WATCHDOG_STARTED m =
     ssm_call [TellWatchdog SC_WD_LAUNCHED_APPLICATION_LAYER] (launchApplicationManager m)"
| "onTrigger APPLICATION_MANAGER_CONNECTION_ESTABLISHED m =
     ssm_call [TellWatchdog SC_WD_LAUNCHED_PHYSICAL_LAYER] (launchPhysicalLayer m)"
| "onTrigger PHISYCAL_CONNECTION_ESTABLISHED m =
     ssm_call [TellWatchdog SC_WD_LAUNCHED_CHANNEL_LAYER] (launchChannelLayer m)"
| "onTrigger CHANNEL_SUPERVISOR_STARTED m = ssm_call [SendRole (mSystemGender m = 1)] m"
| "onTrigger CHANNEL_CONNECTION_ESTABLISHED m =
     ssm_call [TellWatchdog SC_WD_LAUNCHED_PROFILE_LAYER] (launchProfileManager m)"
| "onTrigger PROFILE_MANAGER_CONNECTION_ESTABLISHED m =
     (if authOn m
      then ssm_call [TellWatchdog SC_WD_LAUNCHED_AUTHENTICATON]
        (startAuthentication (ssm_call [UnlockAuthenticationProfile] m))
      else finishAuthentication m)"
| "onTrigger AUTHENTICATION_ESTABLISHED m =
     ssm_call [LinkUpNotification]
       ((ssm_call [UnlockProfiles, AuthenticationDone, ShutDownAuthenticationApp,
          TellWatchdog SC_WD_STOPPED_AUTHENTICATION, StopProgressBar] m)\<lparr>linkIsUp := True\<rparr>)"
| "onTrigger AUTHENTICATION_CANCELED m = doReset (ssm_call [ShutDownAuthenticationApp] m)"
| "onTrigger _ m = m"

text \<open>One round of \<^verbatim>\<open>startTriggerHandler\<close>; \<^verbatim>\<open>None\<close> when it waits for a trigger.\<close>

definition handleTrigger :: "ssm \<Rightarrow> ssm option" where
  "handleTrigger m = do {
     (t, q) \<leftarrow> receiveTrigger (ssm_triggers m);
     Some (onTrigger t (m\<lparr>ssm_triggers := q\<rparr>)) }"

definition onCounterCAConnected :: "u8 \<Rightarrow> ssm \<Rightarrow> ssm" where
  "onCounterCAConnected role m = onConnectivityAgentHandshakeDone (m\<lparr>mSystemGender := uint role\<rparr>)"

definition onCounterCADisconnected :: "ssm \<Rightarrow> ssm" where
  "onCounterCADisconnected m = doReset (ssm_call [LinkDownNotification] (m\<lparr>linkIsUp := False\<rparr>))"

text \<open>The callbacks of the proxies; those with an empty body or that only write a log are one event, \<^verbatim>\<open>Ignored\<close>.\<close>

datatype ssm_event = WatchdogAvaliable | AppManAvailable | CounterAMConnected | ConnectivityAgentAvailable
  | CounterCAConnected u8 | CounterCADisconnected | ChannelSupervisorAvailable | CounterCSConnected
  | ProfileManagerAvailable | CounterPMConnected | AuthenticationOK | AuthenticationCanceled | AuthenticationError | Ignored

fun ssm_callback :: "ssm_event \<Rightarrow> ssm \<Rightarrow> ssm" where
  "ssm_callback WatchdogAvaliable m = onSystemWatchdogAvaliable m"
| "ssm_callback AppManAvailable m = onApplicationManagerAvailable m"
| "ssm_callback CounterAMConnected m = onApplicationManagerHandshakeDone m"
| "ssm_callback ConnectivityAgentAvailable m = onConnectivityAgentAvailable m"
| "ssm_callback (CounterCAConnected role) m = onCounterCAConnected role m"
| "ssm_callback CounterCADisconnected m = onCounterCADisconnected m"
| "ssm_callback ChannelSupervisorAvailable m = onChannelSupervisorAvailable m"
| "ssm_callback CounterCSConnected m = onChannelSupervisorHandshakeDone m"
| "ssm_callback ProfileManagerAvailable m = onProfileManagerAvailable m"
| "ssm_callback CounterPMConnected m = onProfileManagerHandshakeDone m"
| "ssm_callback AuthenticationOK m = finishAuthentication m"
| "ssm_callback AuthenticationCanceled m = cancelAuthentication m"
| "ssm_callback AuthenticationError m = doReset m"
| "ssm_callback Ignored m = m"

text \<open>
  A run: callbacks in any order at any time, and rounds of the trigger handler between them. The list holds
  the events of the callbacks.
\<close>

inductive ssm_run :: "ssm \<Rightarrow> ssm_event list \<Rightarrow> ssm \<Rightarrow> bool" where
  stop: "ssm_run m [] m"
| callback: "ssm_run m evs m' \<Longrightarrow> ssm_run m (evs @ [ev]) (ssm_callback ev m')"
| trigger: "ssm_run m evs m' \<Longrightarrow> handleTrigger m' = Some m'' \<Longrightarrow> ssm_run m evs m''"

end
