(* ===== verification/SystemStartup.thy ===== *)
theory SystemStartup
  imports SystemState
begin

text \<open>
  What the state machine of the system controller guarantees for every interleaving of callbacks and trigger
  rounds: the order of the start-up, what must have happened before profiles are unlocked, and that the start-up
  can always go on.
\<close>

section \<open>The order of the states\<close>

fun stage :: "CSystemState \<Rightarrow> nat" where
  "stage InitialState = 0"
| "stage WatchdogReady = 1"
| "stage CApplicationManagerReady = 2"
| "stage ApplicationManagerInitDone = 3"
| "stage CPhysicalLayerReady = 4"
| "stage CPhysicalLayerHandshakeDone = 5"
| "stage CChannelLayerReady = 6"
| "stage CChannelLayerHandshakeDone = 7"
| "stage CProfileManagerReady = 8"
| "stage CAuthenticateState = 9"
| "stage CIdleState = 10"

lemma stage_inject [simp]: "stage s = stage t \<longleftrightarrow> s = t"
  by (cases s; cases t) simp_all

lemma stage_le: "stage s \<le> 10"
  by (cases s) simp_all

instantiation CSystemState :: linorder
begin

definition less_eq_CSystemState :: "CSystemState \<Rightarrow> CSystemState \<Rightarrow> bool" where
  "less_eq_CSystemState s t \<longleftrightarrow> stage s \<le> stage t"

definition less_CSystemState :: "CSystemState \<Rightarrow> CSystemState \<Rightarrow> bool" where
  "less_CSystemState s t \<longleftrightarrow> stage s < stage t"

instance
  by standard (auto simp: less_eq_CSystemState_def less_CSystemState_def)

end

text \<open>The trigger sent on entering each state, and the callback that led there.\<close>

definition stage_triggers :: "eSSMTriggers \<Rightarrow> eSSMTriggers list" where
  "stage_triggers fin = [INITIALIZED, SYSTEM_WATCHDOG_STARTED, APPLICATION_MANAGER_STARTED,
     APPLICATION_MANAGER_CONNECTION_ESTABLISHED, CONNECTIVITY_AGENT_STARTED, PHISYCAL_CONNECTION_ESTABLISHED,
     CHANNEL_SUPERVISOR_STARTED, CHANNEL_CONNECTION_ESTABLISHED, PROFILE_MANAGER_STARTED,
     PROFILE_MANAGER_CONNECTION_ESTABLISHED, fin]"

definition startup_events :: "ssm_event list" where
  "startup_events = [WatchdogAvaliable, AppManAvailable, CounterAMConnected, ConnectivityAgentAvailable,
     CounterCAConnected 0, ChannelSupervisorAvailable, CounterCSConnected, ProfileManagerAvailable, CounterPMConnected]"

fun erase_role :: "ssm_event \<Rightarrow> ssm_event" where
  "erase_role (CounterCAConnected role) = CounterCAConnected 0"
| "erase_role ev = ev"

text \<open>The component launched when the trigger of a state is handled.\<close>

definition stage_launches :: "Components list list" where
  "stage_launches = [[SYSTEM_CONTROLLER_WATCHDOG], [APPLICATION_MANAGER], [], [CONNECTIVITY_AGENT], [],
     [CHANNEL_SUPERVISOR], [], [PROFILE_MANAGER], [], [AUTHENTICATION_APP], []]"

fun launch_of :: "ssm_call \<Rightarrow> Components list" where
  "launch_of (Launch c) = [c]"
| "launch_of _ = []"

definition launched :: "ssm \<Rightarrow> Components list" where
  "launched m = concat (map launch_of (ssm_calls m))"

text \<open>
  The invariant: \<^verbatim>\<open>n\<close> triggers are handled; those of the states passed since are in the queue in this order, and only
  components of handled triggers have been launched.
\<close>

definition pending :: "nat \<Rightarrow> CSystemState \<Rightarrow> eSSMTriggers \<Rightarrow> eSSMTriggers list" where
  "pending n s fin = drop n (take (Suc (stage s)) (stage_triggers fin))"

definition ssm_queue_inv :: "ssm \<Rightarrow> bool" where
  "ssm_queue_inv m \<longleftrightarrow> tq_ok (ssm_triggers m) \<and> (\<exists>n fin. n \<le> Suc (stage (mSystemState m))
     \<and> mQueue (ssm_triggers m) = pending n (mSystemState m) fin
     \<and> fin \<in> {AUTHENTICATION_ESTABLISHED, AUTHENTICATION_CANCELED}
     \<and> subseq (launched m) (concat (take n stage_launches))
     \<and> (n = 11 \<longrightarrow> linkIsUp m \<or> isResetInProgress m))"

definition unlocked :: "ssm \<Rightarrow> bool" where
  "unlocked m \<longleftrightarrow> linkIsUp m \<or> UnlockProfiles \<in> set (ssm_calls m) \<or> LinkUpNotification \<in> set (ssm_calls m)"

definition ssm_events_inv :: "ssm_event list \<Rightarrow> ssm \<Rightarrow> bool" where
  "ssm_events_inv evs m \<longleftrightarrow> subseq (take (stage (mSystemState m)) startup_events) (map erase_role evs)
     \<and> (unlocked m \<or> AUTHENTICATION_ESTABLISHED \<in> set (mQueue (ssm_triggers m)) \<longrightarrow>
         subseq (startup_events @ (if authOn m then [AuthenticationOK] else [])) (map erase_role evs))"

definition ssm_reset_inv :: "ssm \<Rightarrow> bool" where
  "ssm_reset_inv m \<longleftrightarrow> count_list (ssm_calls m) HardReset = of_bool (isResetInProgress m)"

lemma launched_call [simp]: "launched (ssm_call cs m) = launched m @ concat (map launch_of cs)"
  by (simp add: launched_def ssm_call_def)

lemma launched_simps [simp]:
  "launched (ssm_send t m) = launched m" "launched (changeState s m) = launched m"
  "launched (m\<lparr>mSystemGender := g\<rparr>) = launched m" "launched (m\<lparr>ssm_triggers := q\<rparr>) = launched m"
  "launched (m\<lparr>linkIsUp := b\<rparr>) = launched m" "launched (m\<lparr>isResetInProgress := b\<rparr>) = launched m"
  by (simp_all add: launched_def ssm_send_def changeState_def)

lemma ssm_call_simps [simp]:
  "mSystemState (ssm_call cs m) = mSystemState m" "authOn (ssm_call cs m) = authOn m"
  "mSystemGender (ssm_call cs m) = mSystemGender m" "linkIsUp (ssm_call cs m) = linkIsUp m"
  "isResetInProgress (ssm_call cs m) = isResetInProgress m" "ssm_triggers (ssm_call cs m) = ssm_triggers m"
  "ssm_calls (ssm_call cs m) = ssm_calls m @ cs"
  by (simp_all add: ssm_call_def)

lemma ssm_send_simps [simp]:
  "mSystemState (ssm_send t m) = mSystemState m" "authOn (ssm_send t m) = authOn m"
  "mSystemGender (ssm_send t m) = mSystemGender m" "linkIsUp (ssm_send t m) = linkIsUp m"
  "isResetInProgress (ssm_send t m) = isResetInProgress m" "ssm_calls (ssm_send t m) = ssm_calls m"
  "ssm_triggers (ssm_send t m) = sendTrigger t (ssm_triggers m)"
  by (simp_all add: ssm_send_def)

lemma changeState_simps [simp]:
  "mSystemState (changeState s m) = s" "authOn (changeState s m) = authOn m"
  "mSystemGender (changeState s m) = mSystemGender m" "linkIsUp (changeState s m) = linkIsUp m"
  "isResetInProgress (changeState s m) = isResetInProgress m" "ssm_calls (changeState s m) = ssm_calls m"
  "ssm_triggers (changeState s m) = ssm_triggers m"
  by (simp_all add: changeState_def)

lemmas ssm_handlers = launchSystemWatchdog_def onSystemWatchdogAvaliable_def launchApplicationManager_def
  onApplicationManagerAvailable_def onApplicationManagerHandshakeDone_def launchPhysicalLayer_def
  onConnectivityAgentAvailable_def onConnectivityAgentHandshakeDone_def launchChannelLayer_def
  onChannelSupervisorAvailable_def onChannelSupervisorHandshakeDone_def launchProfileManager_def
  onProfileManagerAvailable_def onProfileManagerHandshakeDone_def startAuthentication_def finishAuthentication_def
  cancelAuthentication_def onCounterCAConnected_def onCounterCADisconnected_def doReset_def

text \<open>A callback leaves state and queue alone, or enters the next state and sends its trigger.\<close>

lemma callback_cases:
  obtains (same) "mSystemState (ssm_callback ev m) = mSystemState m"
      "ssm_triggers (ssm_callback ev m) = ssm_triggers m"
      "linkIsUp (ssm_callback ev m) = (linkIsUp m \<and> ev \<noteq> CounterCADisconnected)"
      "isResetInProgress (ssm_callback ev m) = (isResetInProgress m \<or> ev \<in> {CounterCADisconnected, AuthenticationError})"
    | (advance) fin where "stage (mSystemState (ssm_callback ev m)) = Suc (stage (mSystemState m))"
      "fin \<in> {AUTHENTICATION_ESTABLISHED, AUTHENTICATION_CANCELED}"
      "ssm_triggers (ssm_callback ev m) = sendTrigger (stage_triggers fin ! Suc (stage (mSystemState m))) (ssm_triggers m)"
      "linkIsUp (ssm_callback ev m) = linkIsUp m" "isResetInProgress (ssm_callback ev m) = isResetInProgress m"
      "mSystemState m < CAuthenticateState \<Longrightarrow> erase_role ev = startup_events ! stage (mSystemState m)"
      "mSystemState m = CAuthenticateState \<Longrightarrow> ev = (if fin = AUTHENTICATION_ESTABLISHED then AuthenticationOK else AuthenticationCanceled)"
proof -
  note defs = ssm_handlers stage_triggers_def startup_events_def less_CSystemState_def
  have finish: thesis if "ev = AuthenticationOK"
    by (insert that, cases "mSystemState m"; (rule same; simp add: ssm_handlers; fail)?)
      (rule advance [of AUTHENTICATION_ESTABLISHED]; simp add: defs)
  show thesis
    by (cases ev; (rule finish; assumption)?; cases "mSystemState m"; (rule same; simp add: ssm_handlers; fail)?;
      rule advance [of AUTHENTICATION_CANCELED]; simp add: defs)
qed

lemma length_stage_triggers [simp]: "length (stage_triggers fin) = 11"
  by (simp add: stage_triggers_def)

lemma length_stage_launches [simp]: "length stage_launches = 11"
  by (simp add: stage_launches_def)

lemma pending_next:
  assumes "stage s' = Suc (stage s)" "n \<le> Suc (stage s)"
  shows "pending n s' fin = pending n s fin' @ [stage_triggers fin ! stage s']"
proof -
  have "stage s \<le> 9"
    using assms(1) stage_le [of s'] by simp
  then have "take (Suc (stage s')) (stage_triggers fin) = take (Suc (stage s)) (stage_triggers fin') @ [stage_triggers fin ! stage s']"
    using assms(1) by (cases s) (simp_all add: stage_triggers_def)
  then show ?thesis
    using assms(2) \<open>stage s \<le> 9\<close> unfolding pending_def by simp
qed

lemma callback_launches [simp]: "launched (ssm_callback ev m) = launched m"
  by (cases ev; cases "mSystemState m") (simp_all add: ssm_handlers)

lemma callback_unlocked: "unlocked (ssm_callback ev m) \<Longrightarrow> unlocked m"
  by (cases ev; cases "mSystemState m") (auto simp: unlocked_def ssm_handlers split: if_splits)

lemma callback_auth [simp]: "authOn (ssm_callback ev m) = authOn m"
  by (cases ev; cases "mSystemState m") (simp_all add: ssm_handlers)

lemma callback_queue_inv:
  assumes "ssm_queue_inv m"
  shows "ssm_queue_inv (ssm_callback ev m)"
proof -
  obtain n fin' where n: "n \<le> Suc (stage (mSystemState m))" "mQueue (ssm_triggers m) = pending n (mSystemState m) fin'"
    "fin' \<in> {AUTHENTICATION_ESTABLISHED, AUTHENTICATION_CANCELED}"
    "subseq (launched m) (concat (take n stage_launches))" "n = 11 \<longrightarrow> linkIsUp m \<or> isResetInProgress m"
    and ok: "tq_ok (ssm_triggers m)"
    using assms unfolding ssm_queue_inv_def by (elim conjE exE) (rule that; assumption)
  show ?thesis
  proof (cases rule: callback_cases [of ev m])
    case same
    have "n = 11 \<longrightarrow> linkIsUp (ssm_callback ev m) \<or> isResetInProgress (ssm_callback ev m)"
      using n(5) same(3,4) by auto
    with n ok show ?thesis
      unfolding ssm_queue_inv_def callback_launches same(1,2) by (intro conjI exI [of _ n] exI [of _ fin']) simp_all
  next
    case (advance fin)
    have "n \<le> Suc (stage (mSystemState (ssm_callback ev m)))" "n \<noteq> 11"
      using n(1) advance(1) stage_le [of "mSystemState (ssm_callback ev m)"] by simp_all
    moreover have "mQueue (ssm_triggers (ssm_callback ev m)) = pending n (mSystemState (ssm_callback ev m)) fin"
      using pending_next [OF advance(1) n(1), of fin fin'] n(2) advance(1,3) by simp
    ultimately show ?thesis
      unfolding ssm_queue_inv_def callback_launches using n(4) advance(2,3)
      by (intro conjI exI [of _ n] exI [of _ fin]) simp_all
  qed
qed

lemma subseq_snoc: "subseq xs ys \<Longrightarrow> subseq xs (ys @ zs)"
  using list_emb_append_mono [of "(=)" xs ys "[]" zs] by simp

lemma callback_events_inv:
  assumes "ssm_events_inv evs m"
  shows "ssm_events_inv (evs @ [ev]) (ssm_callback ev m)"
proof (cases rule: callback_cases [of ev m])
  case same
  with assms show ?thesis
    by (auto simp: ssm_events_inv_def intro: subseq_snoc dest: callback_unlocked)
next
  case (advance fin)
  let ?k = "stage (mSystemState m)"
  have old: "subseq (take ?k startup_events) (map erase_role evs)"
    "unlocked m \<or> AUTHENTICATION_ESTABLISHED \<in> set (mQueue (ssm_triggers m)) \<Longrightarrow>
     subseq (startup_events @ (if authOn m then [AuthenticationOK] else [])) (map erase_role evs)"
    using assms by (simp_all add: ssm_events_inv_def)
  have grow: "subseq (take (Suc ?k) startup_events) (map erase_role (evs @ [ev]))"
  proof (cases "mSystemState m < CAuthenticateState")
    case True
    then have "?k < length startup_events"
      by (simp add: less_CSystemState_def startup_events_def)
    then show ?thesis
      using list_emb_append_mono [OF old(1), of "[erase_role ev]" "[erase_role ev]"] advance(6) [OF True]
      by (simp add: take_Suc_conv_app_nth)
  next
    case False
    then have "9 \<le> ?k"
      by (simp add: less_CSystemState_def)
    then show ?thesis
      using subseq_snoc [OF old(1), of "[erase_role ev]"] by (simp add: startup_events_def)
  qed
  have up: "subseq (startup_events @ (if authOn m then [AuthenticationOK] else [])) (map erase_role (evs @ [ev]))"
    if "stage_triggers fin ! Suc ?k = AUTHENTICATION_ESTABLISHED"
  proof -
    have "?k \<le> 9"
      using advance(1) stage_le [of "mSystemState (ssm_callback ev m)"] by simp
    with that have k: "?k = 9" "fin = AUTHENTICATION_ESTABLISHED"
      by (cases "mSystemState m"; simp add: stage_triggers_def)+
    then have auth: "mSystemState m = CAuthenticateState"
      by (cases "mSystemState m") simp_all
    have "subseq startup_events (map erase_role evs)"
      using old(1) k(1) by (simp add: startup_events_def)
    then show ?thesis
      using advance(7) [OF auth] k(2) list_emb_append_mono [of "(=)" startup_events "map erase_role evs" "[AuthenticationOK]" "[AuthenticationOK]"]
        subseq_snoc [of startup_events "map erase_role evs"] by simp
  qed
  show ?thesis
    unfolding ssm_events_inv_def advance(1) callback_auth
  proof (intro conjI impI)
    assume "unlocked (ssm_callback ev m) \<or> AUTHENTICATION_ESTABLISHED \<in> set (mQueue (ssm_triggers (ssm_callback ev m)))"
    then consider "unlocked m \<or> AUTHENTICATION_ESTABLISHED \<in> set (mQueue (ssm_triggers m))"
      | "stage_triggers fin ! Suc ?k = AUTHENTICATION_ESTABLISHED"
      using advance(3) callback_unlocked by auto
    then show "subseq (startup_events @ (if authOn m then [AuthenticationOK] else [])) (map erase_role (evs @ [ev]))"
    proof cases
      case 1
      then show ?thesis
        using subseq_snoc [OF old(2)] by simp
    qed (rule up)
  qed (rule grow)
qed

lemma callback_reset_inv: "ssm_reset_inv m \<Longrightarrow> ssm_reset_inv (ssm_callback ev m)"
  by (cases ev; cases "mSystemState m") (simp_all add: ssm_reset_inv_def ssm_handlers)

section \<open>Triggers keep the invariant\<close>

lemma handleTriggerE:
  assumes "handleTrigger m = Some m'" "tq_ok (ssm_triggers m)"
  obtains t ts q where "mQueue (ssm_triggers m) = t # ts" "m' = onTrigger t (m\<lparr>ssm_triggers := q\<rparr>)" "tq_ok q" "mQueue q = ts"
proof (cases "mQueue (ssm_triggers m)")
  case Nil
  then have "receiveTrigger (ssm_triggers m) = None"
    using receiveTrigger_None [OF assms(2)] by simp
  then show ?thesis
    using assms(1) by (simp add: handleTrigger_def)
next
  case (Cons t ts)
  obtain q where q: "receiveTrigger (ssm_triggers m) = Some (t, q)" "tq_ok q" "mQueue q = ts"
    using receiveTrigger_Some [OF assms(2) Cons] .
  show ?thesis
    by (rule that [OF Cons _ q(2,3)]) (use assms(1) q(1) in \<open>simp add: handleTrigger_def\<close>)
qed

lemma trigger_auth [simp]: "authOn (onTrigger t m) = authOn m"
  by (cases t; cases "mSystemState m") (simp_all add: ssm_handlers Let_def)

lemma trigger_reset_inv: "ssm_reset_inv m \<Longrightarrow> ssm_reset_inv (onTrigger t m)"
  by (cases t; cases "mSystemState m") (simp_all add: ssm_reset_inv_def ssm_handlers Let_def)

text \<open>Only a finished authentication without the application changes the state in the trigger handler.\<close>

lemma trigger_state:
  "mSystemState (onTrigger t m) =
     (if t = PROFILE_MANAGER_CONNECTION_ESTABLISHED \<and> \<not> authOn m \<and> mSystemState m = CAuthenticateState
      then CIdleState else mSystemState m)"
  "ssm_triggers (onTrigger t m) =
     (if t = PROFILE_MANAGER_CONNECTION_ESTABLISHED \<and> \<not> authOn m \<and> mSystemState m = CAuthenticateState
      then sendTrigger AUTHENTICATION_ESTABLISHED (ssm_triggers m) else ssm_triggers m)"
  "linkIsUp (onTrigger t m) = (linkIsUp m \<or> t = AUTHENTICATION_ESTABLISHED)"
  "isResetInProgress (onTrigger t m) = (isResetInProgress m \<or> t = AUTHENTICATION_CANCELED)"
  by (cases t; cases "mSystemState m"; simp add: ssm_handlers Let_def)+

lemma trigger_unlocked: "unlocked (onTrigger t m) \<longleftrightarrow> unlocked m \<or> t = AUTHENTICATION_ESTABLISHED"
  by (cases t; cases "mSystemState m") (auto simp: unlocked_def ssm_handlers Let_def)

lemma unlocked_triggers [simp]: "unlocked (m\<lparr>ssm_triggers := q\<rparr>) = unlocked m"
  by (simp add: unlocked_def)

lemma trigger_launches:
  assumes "n \<le> 10" "fin \<in> {AUTHENTICATION_ESTABLISHED, AUTHENTICATION_CANCELED}"
  obtains cs where "launched (onTrigger (stage_triggers fin ! n) m) = launched m @ cs" "subseq cs (stage_launches ! n)"
proof -
  have n: "n \<in> {0, 1, 2, 3, 4, 5, 6, 7, 8, 9, 10}"
    using assms(1) by (simp, presburger)
  let ?cs = "drop (length (launched m)) (launched (onTrigger (stage_triggers fin ! n) m))"
  have "launched (onTrigger (stage_triggers fin ! n) m) = launched m @ ?cs \<and> subseq ?cs (stage_launches ! n)"
    using n assms(2)
    by (elim insertE emptyE; cases "mSystemState m";
      simp add: stage_triggers_def stage_launches_def ssm_handlers Let_def)
  then show thesis
    by (blast intro: that)
qed


lemma pending_head:
  assumes "pending n s fin = t # ts" "n \<le> Suc (stage s)"
  shows "t = stage_triggers fin ! n" "ts = pending (Suc n) s fin" "n \<le> stage s"
proof -
  have le: "Suc (stage s) \<le> length (stage_triggers fin)"
    using stage_le [of s] by simp
  have "n \<noteq> Suc (stage s)"
    using assms(1) by (auto simp: pending_def)
  then show n: "n \<le> stage s"
    using assms(2) by simp
  have "drop n (take (Suc (stage s)) (stage_triggers fin)) =
      stage_triggers fin ! n # drop (Suc n) (take (Suc (stage s)) (stage_triggers fin))"
    using n le by (subst Cons_nth_drop_Suc [symmetric]) simp_all
  with assms(1) show "t = stage_triggers fin ! n" "ts = pending (Suc n) s fin"
    by (simp_all add: pending_def)
qed

lemma stage_trigger_index:
  "n \<le> 10 \<Longrightarrow> fin \<in> {AUTHENTICATION_ESTABLISHED, AUTHENTICATION_CANCELED} \<Longrightarrow>
   stage_triggers fin ! n \<in> {AUTHENTICATION_ESTABLISHED, AUTHENTICATION_CANCELED} \<longleftrightarrow> n = 10"
  by (auto simp: stage_triggers_def nth_Cons split: nat.splits)

lemma trigger_queue_inv:
  assumes "ssm_queue_inv m" "handleTrigger m = Some m'"
  shows "ssm_queue_inv m'"
proof -
  let ?s = "mSystemState m"
  obtain n fin where n: "n \<le> Suc (stage ?s)" "mQueue (ssm_triggers m) = pending n ?s fin"
    "fin \<in> {AUTHENTICATION_ESTABLISHED, AUTHENTICATION_CANCELED}"
    "subseq (launched m) (concat (take n stage_launches))" "n = 11 \<longrightarrow> linkIsUp m \<or> isResetInProgress m"
    and ok: "tq_ok (ssm_triggers m)"
    using assms(1) unfolding ssm_queue_inv_def by (elim conjE exE) (rule that; assumption)
  obtain t ts q where t: "mQueue (ssm_triggers m) = t # ts" "m' = onTrigger t (m\<lparr>ssm_triggers := q\<rparr>)" "tq_ok q" "mQueue q = ts"
    using handleTriggerE [OF assms(2) ok] .
  note head = pending_head [OF trans [OF n(2) [symmetric] t(1)] n(1)]
  have n10: "n \<le> 10"
    using head(3) stage_le [of ?s] by simp
  obtain cs where cs: "launched m' = launched m @ cs" "subseq cs (stage_launches ! n)"
    using trigger_launches [OF n10 n(3), of "m\<lparr>ssm_triggers := q\<rparr>"] t(2) head(1) by auto
  have launches: "subseq (launched m') (concat (take (Suc n) stage_launches))"
    using list_emb_append_mono [OF n(4) cs(2)] n10 cs(1)
    by (simp add: take_Suc_conv_app_nth)
  have up: "Suc n = 11 \<longrightarrow> linkIsUp m' \<or> isResetInProgress m'"
    using stage_trigger_index [OF n10 n(3)] head(1) t(2) by (auto simp: trigger_state)
  show ?thesis
  proof (cases "t = PROFILE_MANAGER_CONNECTION_ESTABLISHED \<and> \<not> authOn m \<and> ?s = CAuthenticateState")
    case True
    then have "mQueue (ssm_triggers m') = pending (Suc n) CAuthenticateState fin @ [AUTHENTICATION_ESTABLISHED]"
      using t head(2) by (simp add: trigger_state del: onTrigger.simps)
    also have "\<dots> = pending (Suc n) CIdleState AUTHENTICATION_ESTABLISHED"
      using pending_next [of CIdleState CAuthenticateState "Suc n" AUTHENTICATION_ESTABLISHED fin] head(3) True
      by (simp add: stage_triggers_def)
    finally show ?thesis
      unfolding ssm_queue_inv_def
      using t True launches up head(3)
      by (intro conjI exI [of _ "Suc n"] exI [of _ AUTHENTICATION_ESTABLISHED]) (simp_all add: trigger_state del: onTrigger.simps)
  next
    case False
    then have "ssm_triggers m' = q" "mSystemState m' = ?s"
      using t(2) by (auto simp: trigger_state)
    then show ?thesis
      unfolding ssm_queue_inv_def using t(3,4) head(2,3) n(3) launches up
      by (intro conjI exI [of _ "Suc n"] exI [of _ fin]) simp_all
  qed
qed

lemma trigger_events_inv:
  assumes "ssm_events_inv evs m" "ssm_queue_inv m" "handleTrigger m = Some m'"
  shows "ssm_events_inv evs m'"
proof -
  have ok: "tq_ok (ssm_triggers m)"
    using assms(2) by (simp add: ssm_queue_inv_def)
  obtain t ts q where t: "mQueue (ssm_triggers m) = t # ts" "m' = onTrigger t (m\<lparr>ssm_triggers := q\<rparr>)" "tq_ok q" "mQueue q = ts"
    using handleTriggerE [OF assms(3) ok] .
  show ?thesis
    using assms(1) t by (auto simp: ssm_events_inv_def trigger_state trigger_unlocked startup_events_def split: if_splits)
qed

lemma ssm_run_auth: "ssm_run m evs m' \<Longrightarrow> authOn m' = authOn m"
proof (induction rule: ssm_run.induct)
  case (trigger m evs m' m'')
  then show ?case
    by (auto simp: handleTrigger_def bind_eq_Some_conv)
qed simp_all

lemma ssm_init_inv: "ssm_queue_inv (ssm_init a g)" "ssm_events_inv [] (ssm_init a g)" "ssm_reset_inv (ssm_init a g)"
  unfolding ssm_queue_inv_def
  by (intro conjI exI [of _ 0] exI [of _ AUTHENTICATION_ESTABLISHED],
    simp_all add: ssm_init_def pending_def stage_triggers_def launched_def ssm_events_inv_def ssm_reset_inv_def unlocked_def)

lemma ssm_run_inv:
  "ssm_run m evs m' \<Longrightarrow> m = ssm_init a g \<Longrightarrow> ssm_queue_inv m' \<and> ssm_events_inv evs m' \<and> ssm_reset_inv m'"
proof (induction rule: ssm_run.induct)
  case (stop m)
  then show ?case
    by (simp add: ssm_init_inv)
next
  case (callback m evs m' ev)
  then show ?case
    by (simp add: callback_queue_inv callback_events_inv callback_reset_inv)
next
  case (trigger m evs m' m'')
  then have inv: "ssm_queue_inv m'" "ssm_events_inv evs m'" "ssm_reset_inv m'"
    by simp_all
  have "ssm_reset_inv m''"
    using trigger.hyps(2) inv(3) trigger_reset_inv [of "m'\<lparr>ssm_triggers := q\<rparr>" for q]
    by (auto simp: handleTrigger_def bind_eq_Some_conv ssm_reset_inv_def)
  then show ?case
    using trigger_queue_inv [OF inv(1) trigger.hyps(2)] trigger_events_inv [OF inv(2,1) trigger.hyps(2)] by simp
qed


lemma ssm_run_trans: "ssm_run m2 evs2 m3 \<Longrightarrow> ssm_run m1 evs1 m2 \<Longrightarrow> ssm_run m1 (evs1 @ evs2) m3"
proof (induction rule: ssm_run.induct)
  case (callback m evs m' ev)
  then show ?case
    using ssm_run.callback [of m1 "evs1 @ evs" m' ev] by simp
qed (auto intro: ssm_run.trigger)

lemma ssm_run_forward: "ssm_run m evs m' \<Longrightarrow> mSystemState m \<le> mSystemState m'"
proof (induction rule: ssm_run.induct)
  case (callback m evs m' ev)
  have "mSystemState m' \<le> mSystemState (ssm_callback ev m')"
    by (cases rule: callback_cases [of ev m']) (simp_all add: less_eq_CSystemState_def)
  then show ?case
    using callback.IH by simp
next
  case (trigger m evs m' m'')
  then have "mSystemState m' \<le> mSystemState m''"
    by (auto simp: handleTrigger_def bind_eq_Some_conv trigger_state less_eq_CSystemState_def)
  then show ?case
    using trigger.IH by simp
qed simp

text \<open>The callback that leaves a state, and with it the way to the end of the start-up from any state.\<close>

lemma next_callback:
  assumes "mSystemState m \<noteq> CIdleState"
  obtains ev where "stage (mSystemState (ssm_callback ev m)) = Suc (stage (mSystemState m))"
proof (cases "mSystemState m = CAuthenticateState")
  case True
  then show ?thesis
    by (intro that [of AuthenticationOK]) (simp add: ssm_handlers)
next
  case False
  then show ?thesis
    using assms by (intro that [of "startup_events ! stage (mSystemState m)"])
      (cases "mSystemState m"; simp add: startup_events_def ssm_handlers)
qed

lemma startup_continues:
  assumes "ssm_queue_inv m"
  obtains evs m' where "ssm_run m evs m'" "linkIsUp m' \<or> isResetInProgress m'"
  using assms
proof (induction "12 * (10 - stage (mSystemState m)) + length (mQueue (ssm_triggers m))" arbitrary: m thesis rule: less_induct)
  case less
  have go: thesis if run: "ssm_run m evs1 m1" and inv: "ssm_queue_inv m1"
    and smaller: "12 * (10 - stage (mSystemState m1)) + length (mQueue (ssm_triggers m1))
      < 12 * (10 - stage (mSystemState m)) + length (mQueue (ssm_triggers m))" for evs1 m1
  proof -
    obtain evs m' where "ssm_run m1 evs m'" "linkIsUp m' \<or> isResetInProgress m'"
      using less.hyps [OF smaller _ inv] by blast
    then show thesis
      using ssm_run_trans [OF _ run] less.prems(1) by blast
  qed
  have ok: "tq_ok (ssm_triggers m)"
    using less.prems(2) by (simp add: ssm_queue_inv_def)
  show ?case
  proof (cases "mQueue (ssm_triggers m)")
    case (Cons t ts)
    obtain q where q: "receiveTrigger (ssm_triggers m) = Some (t, q)" "tq_ok q" "mQueue q = ts"
      using receiveTrigger_Some [OF ok Cons] .
    let ?m = "onTrigger t (m\<lparr>ssm_triggers := q\<rparr>)"
    have step: "handleTrigger m = Some ?m"
      using q(1) by (simp add: handleTrigger_def)
    show ?thesis
      by (rule go [OF ssm_run.trigger [OF ssm_run.stop step] trigger_queue_inv [OF less.prems(2) step]])
        (simp add: trigger_state Cons q(3))
  next
    case Nil
    obtain n fin where n: "n \<le> Suc (stage (mSystemState m))" "pending n (mSystemState m) fin = []"
      "n = 11 \<longrightarrow> linkIsUp m \<or> isResetInProgress m"
      using less.prems(2) Nil unfolding ssm_queue_inv_def by (elim conjE exE) (rule that; simp)
    show ?thesis
    proof (cases "mSystemState m = CIdleState")
      case True
      then have "linkIsUp m \<or> isResetInProgress m"
        using n by (auto simp: pending_def)
      then show ?thesis
        using less.prems(1) ssm_run.stop by blast
    next
      case False
      then obtain ev where ev: "stage (mSystemState (ssm_callback ev m)) = Suc (stage (mSystemState m))"
        by (rule next_callback)
      have "length (mQueue (ssm_triggers (ssm_callback ev m))) \<le> 1"
        using Nil by (cases rule: callback_cases [of ev m]) simp_all
      then show ?thesis
        using go [OF ssm_run.callback [OF ssm_run.stop, of m ev] callback_queue_inv [OF less.prems(2)]] ev
          stage_le [of "mSystemState (ssm_callback ev m)"] by simp
    qed
  qed
qed

section \<open>The normal start-up\<close>

text \<open>A schedule of callbacks and of rounds of the trigger handler, executed.\<close>

fun ssm_script :: "ssm_event option list \<Rightarrow> ssm \<Rightarrow> ssm option" where
  "ssm_script [] m = Some m"
| "ssm_script (Some ev # s) m = ssm_script s (ssm_callback ev m)"
| "ssm_script (None # s) m = (case handleTrigger m of None \<Rightarrow> None | Some m' \<Rightarrow> ssm_script s m')"

lemma ssm_script_runs: "ssm_script s m = Some m' \<Longrightarrow> ssm_run m (concat (map (case_option [] (\<lambda>ev. [ev])) s)) m'"
proof (induction s m rule: ssm_script.induct)
  case (2 ev s m)
  have "ssm_run m ([] @ [ev]) (ssm_callback ev m)"
    by (rule ssm_run.callback [OF ssm_run.stop])
  then show ?case
    using 2 ssm_run_trans by fastforce
next
  case (3 s m)
  then obtain m1 where m1: "handleTrigger m = Some m1" "ssm_script s m1 = Some m'"
    by (auto split: option.splits)
  have "ssm_run m [] m1"
    by (rule ssm_run.trigger [OF ssm_run.stop m1(1)])
  then show ?case
    using 3 (1) [OF m1] ssm_run_trans by fastforce
qed (simp add: ssm_run.stop)

definition normal_startup :: "u8 \<Rightarrow> ssm_event option list" where
  "normal_startup role = [None, Some WatchdogAvaliable, None, Some AppManAvailable, None, Some CounterAMConnected, None,
     Some ConnectivityAgentAvailable, None, Some (CounterCAConnected role), None, Some ChannelSupervisorAvailable, None,
     Some CounterCSConnected, None, Some ProfileManagerAvailable, None, Some CounterPMConnected, None]"

definition startup_calls :: "u8 \<Rightarrow> ssm_call list" where
  "startup_calls role =
    [Launch SYSTEM_CONTROLLER_WATCHDOG, Connect SYSTEM_CONTROLLER_WATCHDOG,
     Launch APPLICATION_MANAGER, Connect APPLICATION_MANAGER, TellWatchdog SC_WD_LAUNCHED_APPLICATION_LAYER,
     Launch CONNECTIVITY_AGENT, Connect CONNECTIVITY_AGENT, TellWatchdog SC_WD_LAUNCHED_PHYSICAL_LAYER,
     Launch CHANNEL_SUPERVISOR, Connect CHANNEL_SUPERVISOR, TellWatchdog SC_WD_LAUNCHED_CHANNEL_LAYER,
     SendRole (role = 1),
     Launch PROFILE_MANAGER, Connect PROFILE_MANAGER, TellWatchdog SC_WD_LAUNCHED_PROFILE_LAYER,
     UnlockAuthenticationProfile, Connect AUTHENTICATION_APP] @
    (if role = 1 then [Launch AUTHENTICATION_APP] else []) @ [TellWatchdog SC_WD_LAUNCHED_AUTHENTICATON]"

lemma handleTrigger_round:
  "tq_ok (ssm_triggers m) \<Longrightarrow> handleTrigger m = (case mQueue (ssm_triggers m) of [] \<Rightarrow> None
    | t # ts \<Rightarrow> Some (onTrigger t (m\<lparr>ssm_triggers := \<lparr>mQueue = ts, mIsQueueEmpty = (ts = [])\<rparr>\<rparr>)))"
  by (cases "ssm_triggers m")
    (auto simp: handleTrigger_def receiveTrigger_def receiveTrigger_pop_def receiveTrigger_flag_def tq_ok_def split: list.splits)

lemma uint_role: "uint (role :: u8) = 1 \<longleftrightarrow> role = 1"
  by (metis uint_1 word_uint_eq_iff)

lemmas ssm_execution = normal_startup_def ssm_init_def handleTrigger_round sendTrigger_def sendTrigger_push_def
  sendTrigger_signal_def resetTriggerQueue_def tq_ok_def ssm_handlers ssm_send_def ssm_call_def changeState_def
  Let_def uint_role startup_calls_def

lemma normal_startup_asks:
  "ssm_script (normal_startup role) (ssm_init True gender) = Some
     \<lparr>mSystemState = CAuthenticateState, authOn = True, mSystemGender = uint role, linkIsUp = False,
      isResetInProgress = False, ssm_triggers = \<lparr>mQueue = [], mIsQueueEmpty = True\<rparr>, ssm_calls = startup_calls role\<rparr>"
  by (simp add: ssm_execution)

lemma normal_startup_ends:
  "ssm_script [Some AuthenticationOK, None]
     \<lparr>mSystemState = CAuthenticateState, authOn = True, mSystemGender = g, linkIsUp = False,
      isResetInProgress = False, ssm_triggers = \<lparr>mQueue = [], mIsQueueEmpty = True\<rparr>, ssm_calls = calls\<rparr> = Some
     \<lparr>mSystemState = CIdleState, authOn = True, mSystemGender = g, linkIsUp = True,
      isResetInProgress = False, ssm_triggers = \<lparr>mQueue = [], mIsQueueEmpty = True\<rparr>,
      ssm_calls = calls @ [DisconnectAuthenticationApp, UnlockProfiles, AuthenticationDone,
        ShutDownAuthenticationApp, TellWatchdog SC_WD_STOPPED_AUTHENTICATION, StopProgressBar, LinkUpNotification]\<rparr>"
  by (simp add: ssm_execution)

lemma ssm_script_append:
  "ssm_script (s1 @ s2) m = (case ssm_script s1 m of None \<Rightarrow> None | Some m' \<Rightarrow> ssm_script s2 m')"
  by (induction s1 m rule: ssm_script.induct) (auto split: option.splits)

lemma subseq_take_mono: "i \<le> j \<Longrightarrow> subseq (concat (take i xss)) (concat (take j xss))"
  using subseq_snoc [of "concat (take i xss)" "concat (take i xss)"] by (simp add: take_drop_split [of i j])

lemma subseq_distinct: "subseq xs ys \<Longrightarrow> distinct ys \<Longrightarrow> distinct xs"
  by (auto simp: subseq_conv_nths)

section \<open>Properties\<close>

text \<open>
  C13: whatever callbacks come in whatever order, profiles are unlocked and the link is reported only after
  the counterparts of all layers have answered in the order of the start-up and, with authentication on, after the
  authentication has succeeded. The state never moves back, and a reset is requested once at most.
\<close>

theorem unlocked_after_startup:
  assumes "ssm_run (ssm_init auth gender) evs m"
  shows "(linkIsUp m \<or> UnlockProfiles \<in> set (ssm_calls m) \<or> LinkUpNotification \<in> set (ssm_calls m) \<longrightarrow>
      subseq (startup_events @ (if auth then [AuthenticationOK] else [])) (map erase_role evs))
    \<and> (\<forall>evs' m'. ssm_run m evs' m' \<longrightarrow> mSystemState m \<le> mSystemState m')
    \<and> count_list (ssm_calls m) HardReset \<le> 1"
proof (intro conjI allI)
  have inv: "ssm_events_inv evs m" "ssm_reset_inv m" "authOn m = auth"
    using ssm_run_inv [OF assms refl] ssm_run_auth [OF assms] by (simp_all add: ssm_init_def)
  then show "linkIsUp m \<or> UnlockProfiles \<in> set (ssm_calls m) \<or> LinkUpNotification \<in> set (ssm_calls m) \<longrightarrow>
      subseq (startup_events @ (if auth then [AuthenticationOK] else [])) (map erase_role evs)"
    by (auto simp: ssm_events_inv_def unlocked_def)
  show "count_list (ssm_calls m) HardReset \<le> 1"
    using inv(2) by (simp add: ssm_reset_inv_def)
qed (blast intro: ssm_run_forward)

theorem unlocked_after_startup_witness:
  "\<exists>evs m. ssm_run (ssm_init True 0) evs m \<and> linkIsUp m
    \<and> subseq (startup_events @ [AuthenticationOK]) (map erase_role evs)"
proof -
  obtain m where m: "ssm_script (normal_startup 1 @ [Some AuthenticationOK, None]) (ssm_init True 0) = Some m" "linkIsUp m"
    by (simp add: ssm_script_append normal_startup_asks normal_startup_ends del: ssm_script.simps)
  note run = ssm_script_runs [OF m(1)]
  show ?thesis
    by (intro exI conjI, rule run, rule m(2)) (use unlocked_after_startup [OF run] m(2) in simp)
qed

text \<open>
  Components are launched in the order of the layers, each once at most and none before its state is
  reached; and a start-up is never stuck: from every state the machine can get into, the right callbacks lead to
  the link being up, unless a reset is on its way.
\<close>

theorem startup_order:
  assumes "ssm_run (ssm_init auth gender) evs m"
  shows "subseq (launched m) (concat (take (Suc (stage (mSystemState m))) stage_launches))
    \<and> distinct (launched m)
    \<and> (\<exists>evs' m'. ssm_run m evs' m' \<and> (linkIsUp m' \<or> isResetInProgress m'))"
proof (intro conjI)
  have inv: "ssm_queue_inv m"
    using ssm_run_inv [OF assms refl] by simp
  then obtain n where n: "n \<le> Suc (stage (mSystemState m))" "subseq (launched m) (concat (take n stage_launches))"
    unfolding ssm_queue_inv_def by (elim conjE exE) (rule that; assumption)
  show s: "subseq (launched m) (concat (take (Suc (stage (mSystemState m))) stage_launches))"
    by (rule subseq_order.trans [OF n(2) subseq_take_mono [OF n(1)]])
  have "subseq (launched m) (concat stage_launches)"
    using subseq_order.trans [OF n(2), of "concat (take 11 stage_launches)"] subseq_take_mono [of n 11 stage_launches]
      n(1) stage_le [of "mSystemState m"] by simp
  then show "distinct (launched m)"
    by (rule subseq_distinct) (simp add: stage_launches_def)
  show "\<exists>evs' m'. ssm_run m evs' m' \<and> (linkIsUp m' \<or> isResetInProgress m')"
    using startup_continues [OF inv] by blast
qed

theorem startup_order_witness:
  "\<exists>evs m. ssm_run (ssm_init False 0) evs m \<and> (linkIsUp m \<or> isResetInProgress m)"
  using startup_order [OF ssm_run.stop [of "ssm_init False 0"]] by blast

end
