(* ===== verification/Watchdog.thy ===== *)
theory Watchdog
  imports SystemStartup
begin

text \<open>
  The watchdog process of the system controller (\<^verbatim>\<open>components/SystemController/watchdog\<close>): it is told by
  the state machine which components run, polls one UDP socket per component for the heartbeats of
  \<^verbatim>\<open>messageProtocols/WatchdogThread\<close>, and restarts everything when one of them is silent for too long.
\<close>

section \<open>Monitored components\<close>

definition MAX_FAIL_COUNT :: nat where
  "MAX_FAIL_COUNT = 5"

datatype Statuses = IS_UP | IS_DOWN | NOT_STARTED

text \<open>The datagrams that wait in the socket, the oldest first.\<close>

record Component =
  wc_status :: Statuses
  wc_failCount :: nat
  wc_socket :: "u8 list"

type_synonym tComponentStatusMap = "Components \<Rightarrow> Component option"

text \<open>The keys in the order of the map.\<close>

definition all_components :: "Components list" where
  "all_components = [PROFILE_MANAGER, CHANNEL_SUPERVISOR, CONNECTIVITY_AGENT, APPLICATION_MANAGER, AUTHENTICATION_APP,
     SPLASH_SCREEN, SYSTEM_CONTROLLER, SYSTEM_CONTROLLER_WATCHDOG]"

text \<open>
  The constructor binds the port of the component and repeats until that succeeds: while another object of the
  process has the same port it does not return.
\<close>

definition new_Component :: "Components \<Rightarrow> tComponentStatusMap \<Rightarrow> Component option" where
  "new_Component c wd =
     (if wd c = None then Some \<lparr>wc_status = IS_UP, wc_failCount = 0, wc_socket = []\<rparr> else None)"

definition resetCounters :: "Component \<Rightarrow> Component" where
  "resetCounters x = x\<lparr>wc_status := IS_UP, wc_failCount := 0\<rparr>"

definition addComponent :: "Components \<Rightarrow> Component \<Rightarrow> tComponentStatusMap \<Rightarrow> tComponentStatusMap" where
  "addComponent c x wd = (if wd c = None then wd(c \<mapsto> x) else wd)"

definition removeComponent :: "Components \<Rightarrow> tComponentStatusMap \<Rightarrow> tComponentStatusMap" where
  "removeComponent c wd = wd(c := None)"

section \<open>Polling\<close>

definition receiveMessage :: "u8 list \<Rightarrow> int \<times> u8 \<times> u8 list" where
  "receiveMessage ds = (case ds of [] \<Rightarrow> (-1, 0, []) | d # ds' \<Rightarrow> (1, d, ds'))"

definition recvAnswer :: "Components \<Rightarrow> tComponentStatusMap \<Rightarrow> int \<times> u8 \<times> tComponentStatusMap" where
  "recvAnswer c wd = (case wd c of
     None \<Rightarrow> (0, 0, wd)
   | Some x \<Rightarrow> (let (bytesRead, message, ds) = receiveMessage (wc_socket x)
       in (bytesRead, message, wd(c \<mapsto> x\<lparr>wc_socket := ds\<rparr>))))"

definition isComponentResponsive :: "Components \<Rightarrow> tComponentStatusMap \<Rightarrow> bool \<times> tComponentStatusMap" where
  "isComponentResponsive c wd = (let (bytesRead, message, wd) = recvAnswer c wd in (0 < bytesRead \<and> message \<noteq> 0, wd))"

definition updateComponentStatus :: "Components \<Rightarrow> tComponentStatusMap \<Rightarrow> tComponentStatusMap" where
  "updateComponentStatus c wd =
     (if wd c = None then wd
      else
        (let (responsive, wd) = isComponentResponsive c wd; x = the (wd c)
         in if \<not> responsive
            then
              (let x = x\<lparr>wc_failCount := wc_failCount x + 1\<rparr>
               in wd(c \<mapsto> if MAX_FAIL_COUNT \<le> wc_failCount x then x\<lparr>wc_status := IS_DOWN\<rparr> else x))
            else wd(c \<mapsto> resetCounters x)))"

definition updateAllComponentsStatus :: "tComponentStatusMap \<Rightarrow> tComponentStatusMap" where
  "updateAllComponentsStatus wd = fold updateComponentStatus (filter (\<lambda>c. wd c \<noteq> None) all_components) wd"

definition getNumberOfFailComponent :: "tComponentStatusMap \<Rightarrow> nat" where
  "getNumberOfFailComponent wd =
     length (filter (\<lambda>c. map_option wc_status (wd c) = Some IS_DOWN) all_components)"

definition waitLoop :: "tComponentStatusMap \<Rightarrow> bool \<times> tComponentStatusMap" where
  "waitLoop wd = (let wd = updateAllComponentsStatus wd in (getNumberOfFailComponent wd = 0, wd))"

section \<open>Messages of the system controller\<close>

definition start_component :: "Components \<Rightarrow> tComponentStatusMap \<Rightarrow> tComponentStatusMap option" where
  "start_component c wd = do { x \<leftarrow> new_Component c wd; Some (addComponent c x wd) }"

fun watchdog_message :: "SystemControllerToWatchdog \<Rightarrow> tComponentStatusMap \<Rightarrow> tComponentStatusMap option" where
  "watchdog_message SC_WD_LAUNCHED_PHYSICAL_LAYER wd = start_component CONNECTIVITY_AGENT wd"
| "watchdog_message SC_WD_LAUNCHED_CHANNEL_LAYER wd = start_component CHANNEL_SUPERVISOR wd"
| "watchdog_message SC_WD_LAUNCHED_PROFILE_LAYER wd = start_component PROFILE_MANAGER wd"
| "watchdog_message SC_WD_LAUNCHED_APPLICATION_LAYER wd = start_component APPLICATION_MANAGER wd"
| "watchdog_message SC_WD_LAUNCHED_AUTHENTICATON wd = start_component AUTHENTICATION_APP wd"
| "watchdog_message SC_WD_STOPPED_AUTHENTICATION wd = Some (removeComponent AUTHENTICATION_APP wd)"

text \<open>The listener's constructor starts with the system controller itself.\<close>

definition watchdog_init :: tComponentStatusMap where
  "watchdog_init = [SYSTEM_CONTROLLER \<mapsto> \<lparr>wc_status = IS_UP, wc_failCount = 0, wc_socket = []\<rparr>]"

text \<open>
  The process: messages, heartbeats that the kernel delivers to an open socket, and rounds of
  \<^verbatim>\<open>watchdogProcessEntryPoint\<close>, which count the calls of \<^verbatim>\<open>restartIviLinkFromWatchdog\<close>.
\<close>

datatype wd_event = Told SystemControllerToWatchdog | Heartbeat Components u8 | Round

definition deliver :: "Components \<Rightarrow> u8 \<Rightarrow> tComponentStatusMap \<Rightarrow> tComponentStatusMap" where
  "deliver c d wd = (case wd c of None \<Rightarrow> wd | Some x \<Rightarrow> wd(c \<mapsto> x\<lparr>wc_socket := wc_socket x @ [d]\<rparr>))"

fun watchdog_event :: "wd_event \<Rightarrow> tComponentStatusMap \<times> nat \<Rightarrow> (tComponentStatusMap \<times> nat) option" where
  "watchdog_event (Told msg) (wd, restarts) = map_option (\<lambda>wd. (wd, restarts)) (watchdog_message msg wd)"
| "watchdog_event (Heartbeat c d) (wd, restarts) = Some (deliver c d wd, restarts)"
| "watchdog_event Round (wd, restarts) =
     (let (ok, wd) = waitLoop wd in Some (wd, if ok then restarts else restarts + 1))"

fun watchdog_run :: "wd_event list \<Rightarrow> tComponentStatusMap \<times> nat \<Rightarrow> (tComponentStatusMap \<times> nat) option" where
  "watchdog_run [] s = Some s"
| "watchdog_run (ev # evs) s = (case watchdog_event ev s of None \<Rightarrow> None | Some s' \<Rightarrow> watchdog_run evs s')"

section \<open>One poll of one component\<close>

text \<open>What a poll does to a component, and that a round does this to each of them.\<close>

definition polled :: "Component \<Rightarrow> Component" where
  "polled x = (case wc_socket x of
     d # ds \<Rightarrow> if d \<noteq> 0 then x\<lparr>wc_socket := ds, wc_status := IS_UP, wc_failCount := 0\<rparr>
       else x\<lparr>wc_socket := ds, wc_failCount := Suc (wc_failCount x),
         wc_status := if MAX_FAIL_COUNT \<le> Suc (wc_failCount x) then IS_DOWN else wc_status x\<rparr>
   | [] \<Rightarrow> x\<lparr>wc_failCount := Suc (wc_failCount x),
         wc_status := if MAX_FAIL_COUNT \<le> Suc (wc_failCount x) then IS_DOWN else wc_status x\<rparr>)"

lemma updateComponentStatus_eq:
  "updateComponentStatus c wd = wd(c := map_option polled (wd c))"
  by (cases "wd c")
    (auto simp: updateComponentStatus_def isComponentResponsive_def recvAnswer_def receiveMessage_def polled_def
      resetCounters_def fun_eq_iff split: list.split)

lemma fold_updateComponentStatus:
  "distinct cs \<Longrightarrow> fold updateComponentStatus cs wd c = (if c \<in> set cs then map_option polled (wd c) else wd c)"
  by (induction cs arbitrary: wd) (auto simp: updateComponentStatus_eq)

lemma all_components [simp]: "c \<in> set all_components" "distinct all_components"
  by (cases c; simp add: all_components_def) (simp add: all_components_def)

lemma updateAll_eq: "updateAllComponentsStatus wd c = map_option polled (wd c)"
  by (cases "wd c") (simp_all add: updateAllComponentsStatus_def fold_updateComponentStatus)

lemma no_failures_iff:
  "getNumberOfFailComponent wd = 0 \<longleftrightarrow> (\<forall>c x. wd c = Some x \<longrightarrow> wc_status x \<noteq> IS_DOWN)"
  by (auto simp: getNumberOfFailComponent_def filter_empty_conv)

lemma waitLoop_eq:
  "waitLoop wd = ((\<forall>c x. wd c = Some x \<longrightarrow> wc_status (polled x) \<noteq> IS_DOWN), \<lambda>c. map_option polled (wd c))"
  by (auto simp: waitLoop_def Let_def no_failures_iff updateAll_eq)

section \<open>The counter is the number of silent rounds\<close>

text \<open>
  The specification looks at the history, latest event first, and knows nothing of the counters: the datagrams
  that wait for a component, and for how many rounds in a row none was read.
\<close>

fun message_starts :: "SystemControllerToWatchdog \<Rightarrow> Components option" where
  "message_starts SC_WD_LAUNCHED_PHYSICAL_LAYER = Some CONNECTIVITY_AGENT"
| "message_starts SC_WD_LAUNCHED_CHANNEL_LAYER = Some CHANNEL_SUPERVISOR"
| "message_starts SC_WD_LAUNCHED_PROFILE_LAYER = Some PROFILE_MANAGER"
| "message_starts SC_WD_LAUNCHED_APPLICATION_LAYER = Some APPLICATION_MANAGER"
| "message_starts SC_WD_LAUNCHED_AUTHENTICATON = Some AUTHENTICATION_APP"
| "message_starts SC_WD_STOPPED_AUTHENTICATION = None"

fun silence :: "Components \<Rightarrow> wd_event list \<Rightarrow> (u8 list \<times> nat) option" where
  "silence c [] = (if c = SYSTEM_CONTROLLER then Some ([], 0) else None)"
| "silence c (Told msg # h) =
     (if message_starts msg = Some c then Some ([], 0)
      else if msg = SC_WD_STOPPED_AUTHENTICATION \<and> c = AUTHENTICATION_APP then None
      else silence c h)"
| "silence c (Heartbeat c' d # h) = map_option (\<lambda>(ds, n). (if c' = c then ds @ [d] else ds, n)) (silence c h)"
| "silence c (Round # h) = map_option (\<lambda>(ds, n). case ds of [] \<Rightarrow> ([], Suc n) | d # ds' \<Rightarrow> (ds', if d = 0 then Suc n else 0))
     (silence c h)"

definition seen :: "Component \<Rightarrow> u8 list \<times> nat" where
  "seen x = (wc_socket x, wc_failCount x)"

definition status_ok :: "Component \<Rightarrow> bool" where
  "status_ok x \<longleftrightarrow> wc_status x = (if MAX_FAIL_COUNT \<le> wc_failCount x then IS_DOWN else IS_UP)"

definition watchdog_inv :: "wd_event list \<Rightarrow> tComponentStatusMap \<Rightarrow> bool" where
  "watchdog_inv h wd \<longleftrightarrow> (\<forall>c. map_option seen (wd c) = silence c h) \<and> (\<forall>c x. wd c = Some x \<longrightarrow> status_ok x)"

lemma polled_ok: "status_ok x \<Longrightarrow> status_ok (polled x)"
  by (cases "wc_socket x") (auto simp: status_ok_def polled_def MAX_FAIL_COUNT_def)

lemma seen_polled:
  "seen (polled x) = (case wc_socket x of [] \<Rightarrow> ([], Suc (wc_failCount x))
    | d # ds' \<Rightarrow> (ds', if d = 0 then Suc (wc_failCount x) else 0))"
  by (simp add: seen_def polled_def split: list.split)

lemma status_ok_socket [simp]: "status_ok (x\<lparr>wc_socket := ds\<rparr>) = status_ok x"
  by (simp add: status_ok_def)

lemma start_component_Some:
  "start_component c wd = Some wd' \<longleftrightarrow>
     wd c = None \<and> wd' = wd(c \<mapsto> \<lparr>wc_status = IS_UP, wc_failCount = 0, wc_socket = []\<rparr>)"
  by (auto simp: start_component_def new_Component_def addComponent_def)

lemma watchdog_message_Some:
  "watchdog_message msg wd = Some wd' \<longleftrightarrow> (case message_starts msg of
     Some c \<Rightarrow> wd c = None \<and> wd' = wd(c \<mapsto> \<lparr>wc_status = IS_UP, wc_failCount = 0, wc_socket = []\<rparr>)
   | None \<Rightarrow> wd' = wd(AUTHENTICATION_APP := None))"
  by (cases msg) (auto simp: start_component_Some removeComponent_def)

lemma new_ok:
  "status_ok \<lparr>wc_status = IS_UP, wc_failCount = 0, wc_socket = []\<rparr>"
  "seen \<lparr>wc_status = IS_UP, wc_failCount = 0, wc_socket = []\<rparr> = ([], 0)"
  by (simp_all add: status_ok_def seen_def MAX_FAIL_COUNT_def)

lemma watchdog_event_inv:
  assumes "watchdog_inv h wd" "watchdog_event ev (wd, r) = Some (wd', r')"
  shows "watchdog_inv (ev # h) wd'"
proof (cases ev)
  case (Told msg)
  then show ?thesis
    using assms by (cases "message_starts msg"; cases msg)
      (auto simp: watchdog_inv_def watchdog_message_Some start_component_Some removeComponent_def new_ok split: if_splits)
next
  case (Heartbeat c d)
  have "map_option seen (deliver c d wd c') = silence c' (Heartbeat c d # h)" for c'
  proof -
    have "silence c' h = map_option seen (wd c')"
      using assms(1) by (simp add: watchdog_inv_def)
    then show ?thesis
      by (cases "wd c'"; cases "wd c") (auto simp: deliver_def seen_def)
  qed
  moreover have "status_ok x" if "deliver c d wd c' = Some x" for c' x
    using assms(1) that by (auto simp: watchdog_inv_def deliver_def split: option.splits if_splits)
  ultimately show ?thesis
    using assms(2) Heartbeat by (auto simp: watchdog_inv_def)
next
  case Round
  have "map_option seen (map_option polled (wd c)) = silence c (Round # h)" for c
  proof -
    have "silence c h = map_option seen (wd c)"
      using assms(1) by (simp add: watchdog_inv_def)
    then show ?thesis
      by (cases "wd c") (auto simp: seen_polled, auto simp: seen_def split: list.split)
  qed
  then show ?thesis
    using assms Round by (auto simp: watchdog_inv_def waitLoop_eq Let_def polled_ok)
qed

lemma watchdog_run_snoc:
  "watchdog_run (evs @ [ev]) s = (case watchdog_run evs s of None \<Rightarrow> None | Some s' \<Rightarrow> watchdog_event ev s')"
  by (induction evs arbitrary: s) (auto split: option.splits)

lemma watchdog_run_inv:
  "watchdog_run evs (watchdog_init, 0) = Some (wd, r) \<Longrightarrow> watchdog_inv (rev evs) wd"
proof (induction evs arbitrary: wd r rule: rev_induct)
  case Nil
  then show ?case
    by (auto simp: watchdog_inv_def watchdog_init_def seen_def status_ok_def MAX_FAIL_COUNT_def split: if_splits)
next
  case (snoc ev evs)
  then obtain wd1 r1 where "watchdog_run evs (watchdog_init, 0) = Some (wd1, r1)" "watchdog_event ev (wd1, r1) = Some (wd, r)"
    by (auto simp: watchdog_run_snoc split: option.splits)
  then show ?case
    using snoc.IH watchdog_event_inv by simp
qed

text \<open>Events in which a component neither beats nor is started or stopped.\<close>

fun quiet_event :: "Components \<Rightarrow> wd_event \<Rightarrow> bool" where
  "quiet_event c (Heartbeat c' d) \<longleftrightarrow> c' \<noteq> c"
| "quiet_event c (Told msg) \<longleftrightarrow> message_starts msg \<noteq> Some c \<and> \<not> (msg = SC_WD_STOPPED_AUTHENTICATION \<and> c = AUTHENTICATION_APP)"
| "quiet_event c Round \<longleftrightarrow> True"

lemma silence_quiet:
  assumes "silence c h = Some (ds, 0)" "0 \<notin> set ds" "list_all (quiet_event c) h'"
  shows "silence c (h' @ h) = Some (drop (count_list h' Round) ds, count_list h' Round - length ds)"
  using assms(3)
proof (induction h')
  case Nil
  then show ?case
    using assms(1) by simp
next
  case (Cons ev h')
  then have IH: "silence c (h' @ h) = Some (drop (count_list h' Round) ds, count_list h' Round - length ds)"
    by simp
  show ?case
  proof (cases ev)
    case Round
    have "d \<noteq> 0" "length ds > count_list h' Round" if "drop (count_list h' Round) ds = d # ds'" for d ds'
    proof -
      have "d \<in> set ds"
        using that by (metis in_set_dropD list.set_intros(1))
      with assms(2) show "d \<noteq> 0"
        by metis
      show "length ds > count_list h' Round"
        using that by (metis drop_eq_Nil2 list.distinct(1) not_le)
    qed
    moreover have "drop (Suc (count_list h' Round)) ds = ds'" if "drop (count_list h' Round) ds = d # ds'" for d ds'
      using that by (metis drop_Suc list.sel(3) tl_drop)
    moreover have "length ds \<le> count_list h' Round" if "drop (count_list h' Round) ds = []"
      using that by simp
    ultimately show ?thesis
      using Round IH by (cases "drop (count_list h' Round) ds") (simp_all add: Suc_diff_le)
  qed (use IH Cons.prems in auto)
qed

section \<open>Properties\<close>

text \<open>
  C15: for every sequence of messages, heartbeats and rounds, a round calls for a restart exactly when
  some component that is monitored has, with this round, answered in none of the last five rounds. The specification
  \<^verbatim>\<open>silence\<close> reads the history only.
\<close>

theorem watchdog_counts_silence:
  assumes "watchdog_run evs (watchdog_init, 0) = Some (wd, restarts)"
  shows "\<exists>wd'. watchdog_event Round (wd, restarts) = Some (wd',
      restarts + (if \<exists>c ds n. silence c (Round # rev evs) = Some (ds, n) \<and> MAX_FAIL_COUNT \<le> n then 1 else 0))"
proof -
  have inv: "watchdog_inv (rev evs) wd"
    using watchdog_run_inv [OF assms] .
  let ?wd = "\<lambda>c. map_option polled (wd c)"
  have round: "watchdog_inv (Round # rev evs) ?wd"
    using watchdog_event_inv [OF inv, of Round restarts ?wd] by (simp add: waitLoop_eq Let_def)
  have "(\<exists>c x. wd c = Some x \<and> wc_status (polled x) = IS_DOWN) \<longleftrightarrow>
      (\<exists>c ds n. silence c (Round # rev evs) = Some (ds, n) \<and> MAX_FAIL_COUNT \<le> n)"
  proof
    assume "\<exists>c x. wd c = Some x \<and> wc_status (polled x) = IS_DOWN"
    then obtain c x where x: "wd c = Some x" "wc_status (polled x) = IS_DOWN"
      by blast
    then have "status_ok (polled x)" "silence c (Round # rev evs) = Some (seen (polled x))"
      using round unfolding watchdog_inv_def by (auto dest!: spec [of _ c] simp del: silence.simps)
    then show "\<exists>c ds n. silence c (Round # rev evs) = Some (ds, n) \<and> MAX_FAIL_COUNT \<le> n"
      using x(2) by (intro exI [of _ c]) (auto simp: status_ok_def seen_def split: if_splits)
  next
    assume "\<exists>c ds n. silence c (Round # rev evs) = Some (ds, n) \<and> MAX_FAIL_COUNT \<le> n"
    then obtain c ds n where n: "silence c (Round # rev evs) = Some (ds, n)" "MAX_FAIL_COUNT \<le> n"
      by blast
    moreover have "map_option seen (?wd c) = silence c (Round # rev evs)" "\<And>x. ?wd c = Some x \<Longrightarrow> status_ok x"
      using round by (simp_all add: watchdog_inv_def)
    ultimately obtain x where "wd c = Some x" "seen (polled x) = (ds, n)" "status_ok (polled x)"
      by (cases "wd c") auto
    then show "\<exists>c x. wd c = Some x \<and> wc_status (polled x) = IS_DOWN"
      using n(2) by (intro exI [of _ c]) (auto simp: status_ok_def seen_def)
  qed
  then show ?thesis
    by (auto simp: waitLoop_eq Let_def)
qed


theorem watchdog_counts_silence_witness:
  "\<exists>wd'. watchdog_event Round (watchdog_init, 0) = Some (wd', 0)"
proof -
  have "silence c [Round] = (if c = SYSTEM_CONTROLLER then Some ([], 1) else None)" for c
    by simp
  then show ?thesis
    using watchdog_counts_silence [of "[]" watchdog_init 0]
    by (simp add: MAX_FAIL_COUNT_def split: if_splits)
qed

text \<open>
  One poll reads one datagram. A component that dies while \<^verbatim>\<open>k\<close> of its heartbeats still wait in the
  socket is therefore reported in round \<^verbatim>\<open>k + 5\<close> and not before, whatever else happens meanwhile.
\<close>

theorem backlog_delays_detection:
  assumes "watchdog_run (evs @ quiet) (watchdog_init, 0) = Some (wd, restarts)"
    and "silence c (rev evs) = Some (ds, 0)" "0 \<notin> set ds" "list_all (quiet_event c) quiet"
  shows "map_option wc_status (wd c) =
    Some (if length ds + MAX_FAIL_COUNT \<le> count_list quiet Round then IS_DOWN else IS_UP)"
proof -
  have inv: "watchdog_inv (rev quiet @ rev evs) wd"
    using watchdog_run_inv [OF assms(1)] by simp
  moreover have "silence c (rev quiet @ rev evs) =
      Some (drop (count_list quiet Round) ds, count_list quiet Round - length ds)"
    using silence_quiet [OF assms(2,3), of "rev quiet"] assms(4) by simp
  ultimately have "map_option seen (wd c) = Some (drop (count_list quiet Round) ds, count_list quiet Round - length ds)"
    by (metis watchdog_inv_def)
  then obtain x where "wd c = Some x" "wc_failCount x = count_list quiet Round - length ds" "status_ok x"
    using inv by (cases "wd c") (auto simp: seen_def watchdog_inv_def)
  then show ?thesis
    by (auto simp: status_ok_def MAX_FAIL_COUNT_def)
qed

theorem backlog_delays_detection_witness:
  "\<exists>wd r. watchdog_run ([Heartbeat SYSTEM_CONTROLLER 1] @ replicate 6 Round) (watchdog_init, 0) = Some (wd, r)
    \<and> map_option wc_status (wd SYSTEM_CONTROLLER) = Some IS_DOWN"
proof -
  have "watchdog_run evs s \<noteq> None" if "\<forall>ev \<in> set evs. \<forall>msg. ev \<noteq> Told msg" for evs s
    using that
  proof (induction evs arbitrary: s)
    case (Cons ev evs)
    then show ?case
      by (cases ev; cases s) (auto simp: Let_def split_beta)
  qed simp
  then obtain wd r where run: "watchdog_run ([Heartbeat SYSTEM_CONTROLLER 1] @ replicate 6 Round) (watchdog_init, 0) = Some (wd, r)"
    by fastforce
  show ?thesis
    using backlog_delays_detection [OF run, of SYSTEM_CONTROLLER "[1]"] run
    by (simp add: MAX_FAIL_COUNT_def eval_nat_numeral)
qed

text \<open>What the watchdog hears of a run of the state machine.\<close>

fun notice :: "ssm_call \<Rightarrow> wd_event list" where
  "notice (TellWatchdog msg) = [Told msg]"
| "notice _ = []"

definition all_but_authentication_beat :: "wd_event list" where
  "all_but_authentication_beat =
     map (\<lambda>c. Heartbeat c 1) [SYSTEM_CONTROLLER, APPLICATION_MANAGER, CONNECTIVITY_AGENT, CHANNEL_SUPERVISOR, PROFILE_MANAGER]
     @ [Round]"

text \<open>The monitored components when only the authentication application, for \<^verbatim>\<open>n\<close> rounds now, does not answer.\<close>

definition only_authentication_silent :: "nat \<Rightarrow> tComponentStatusMap" where
  "only_authentication_silent n c =
     (if c \<in> {SYSTEM_CONTROLLER, APPLICATION_MANAGER, CONNECTIVITY_AGENT, CHANNEL_SUPERVISOR, PROFILE_MANAGER}
      then Some \<lparr>wc_status = IS_UP, wc_failCount = 0, wc_socket = []\<rparr>
      else if c = AUTHENTICATION_APP
      then Some \<lparr>wc_status = (if MAX_FAIL_COUNT \<le> n then IS_DOWN else IS_UP), wc_failCount = n, wc_socket = []\<rparr>
      else None)"

lemma authentication_silent_round:
  "watchdog_run all_but_authentication_beat (only_authentication_silent n, r) =
     Some (only_authentication_silent (Suc n), if MAX_FAIL_COUNT \<le> Suc n then r + 1 else r)"
proof -
  let ?up = "\<lambda>ds. \<lparr>wc_status = IS_UP, wc_failCount = 0, wc_socket = ds\<rparr>"
  let ?five = "[SYSTEM_CONTROLLER, APPLICATION_MANAGER, CONNECTIVITY_AGENT, CHANNEL_SUPERVISOR, PROFILE_MANAGER]"
  have beats: "fold (\<lambda>c. deliver c 1) ?five (only_authentication_silent n) =
      (\<lambda>c. if c \<in> set ?five then Some (?up [1]) else only_authentication_silent n c)"
    by (auto simp: deliver_def only_authentication_silent_def fun_eq_iff)
  have run: "watchdog_run (map (\<lambda>c. Heartbeat c 1) cs @ evs) (wd, r) = watchdog_run evs (fold (\<lambda>c. deliver c 1) cs wd, r)"
    for cs evs wd
    by (induction cs arbitrary: wd) simp_all
  have "(\<lambda>c. map_option polled (if c \<in> set ?five then Some (?up [1]) else only_authentication_silent n c)) =
      only_authentication_silent (Suc n)"
    by (auto simp: only_authentication_silent_def polled_def fun_eq_iff)
  moreover have "getNumberOfFailComponent (only_authentication_silent (Suc n)) = 0 \<longleftrightarrow> \<not> MAX_FAIL_COUNT \<le> Suc n"
    by (auto simp: no_failures_iff only_authentication_silent_def)
  moreover have "waitLoop wd = (getNumberOfFailComponent (\<lambda>c. map_option polled (wd c)) = 0, \<lambda>c. map_option polled (wd c))" for wd
    by (simp add: waitLoop_def Let_def updateAll_eq [abs_def])
  ultimately show ?thesis
    using run [of ?five "[Round]" "only_authentication_silent n"] beats
    by (simp add: all_but_authentication_beat_def Let_def del: fold_simps)
qed

lemma watchdog_run_append:
  "watchdog_run (evs1 @ evs2) s = (case watchdog_run evs1 s of None \<Rightarrow> None | Some s' \<Rightarrow> watchdog_run evs2 s')"
  by (induction evs1 arbitrary: s) (auto split: option.splits)

lemma normal_startup_notices:
  "watchdog_run (concat (map notice (startup_calls role))) (watchdog_init, 0) = Some (only_authentication_silent 0, 0)"
  by (auto simp: startup_calls_def watchdog_init_def start_component_def new_Component_def addComponent_def
    only_authentication_silent_def MAX_FAIL_COUNT_def fun_eq_iff)

text \<open>
  On the device whose role is not 1 the state machine does not launch the authentication
  application, but tells the watchdog that it runs. If nobody else launches it, the fifth round
  restarts the framework although everything launched answers in every round.
\<close>

theorem unlaunched_application_restarts:
  assumes "role \<noteq> 1"
  shows "\<exists>m wd. ssm_script (normal_startup role) (ssm_init True gender) = Some m
    \<and> AUTHENTICATION_APP \<notin> set (launched m)
    \<and> watchdog_run (concat (map notice (ssm_calls m)) @ concat (replicate 5 all_but_authentication_beat))
        (watchdog_init, 0) = Some (wd, 1)"
proof (intro exI conjI)
  show "ssm_script (normal_startup role) (ssm_init True gender) = Some
     \<lparr>mSystemState = CAuthenticateState, authOn = True, mSystemGender = uint role, linkIsUp = False,
      isResetInProgress = False, ssm_triggers = \<lparr>mQueue = [], mIsQueueEmpty = True\<rparr>, ssm_calls = startup_calls role\<rparr>"
    by (rule normal_startup_asks)
  show "AUTHENTICATION_APP \<notin> set (launched \<lparr>mSystemState = CAuthenticateState, authOn = True,
     mSystemGender = uint role, linkIsUp = False, isResetInProgress = False,
     ssm_triggers = \<lparr>mQueue = [], mIsQueueEmpty = True\<rparr>, ssm_calls = startup_calls role\<rparr>)"
    using assms by (simp add: launched_def startup_calls_def)
  show "watchdog_run (concat (map notice (ssm_calls \<lparr>mSystemState = CAuthenticateState, authOn = True,
     mSystemGender = uint role, linkIsUp = False, isResetInProgress = False,
     ssm_triggers = \<lparr>mQueue = [], mIsQueueEmpty = True\<rparr>, ssm_calls = startup_calls role\<rparr>)) @
     concat (replicate 5 all_but_authentication_beat)) (watchdog_init, 0) = Some (only_authentication_silent 5, 1)"
    by (simp add: watchdog_run_append normal_startup_notices authentication_silent_round MAX_FAIL_COUNT_def eval_nat_numeral
      del: watchdog_run.simps(2))
qed

theorem unlaunched_application_restarts_witness:
  "\<exists>m. ssm_script (normal_startup 2) (ssm_init True 0) = Some m \<and> AUTHENTICATION_APP \<notin> set (launched m)"
  using unlaunched_application_restarts [of 2 0] by (auto simp del: ssm_script.simps)

end
