(* ===== verification/ChannelMap.thy ===== *)
theory ChannelMap
  imports Prelude
begin

text \<open>
  The map of the channels in use that each side of the channel supervisor keeps
  (\<^verbatim>\<open>components/ChannelSupervisor/Map\<close>), and the watchdog that frees the channels nobody reports
  (\<^verbatim>\<open>ChannelSupervisor/Watchdog\<close>). Time is in whole seconds, as \<^verbatim>\<open>time\<close> gives it.
\<close>

section \<open>The map\<close>

definition CHANNEL_ID_START_NUMBER :: u32 where
  "CHANNEL_ID_START_NUMBER = 100"

definition DEALLOCATE_TIMEOUT_MS :: u32 where
  "DEALLOCATE_TIMEOUT_MS = 30000"

record ChannelInfo =
  ch_mTag :: string
  ch_mTimeStamp :: int

record ChannelMap =
  m_channelMap :: "u32 \<Rightarrow> ChannelInfo option"
  m_FreeChannelId :: u32

definition Map_init :: ChannelMap where
  "Map_init = \<lparr>m_channelMap = (\<lambda>_. None), m_FreeChannelId = CHANNEL_ID_START_NUMBER\<rparr>"

definition updateFreeChannel :: "u32 \<Rightarrow> ChannelMap \<Rightarrow> ChannelMap" where
  "updateFreeChannel lastChannel m =
     (if m_FreeChannelId m \<le> lastChannel then m\<lparr>m_FreeChannelId := lastChannel + 1\<rparr> else m)"

definition getChannelInfo :: "u32 \<Rightarrow> ChannelMap \<Rightarrow> ChannelInfo option" where
  "getChannelInfo channelId m = m_channelMap m channelId"

text \<open>An entry that is there already stays: \<^verbatim>\<open>insert\<close> does not replace.\<close>

definition addChannelInfo :: "u32 \<Rightarrow> ChannelInfo \<Rightarrow> ChannelMap \<Rightarrow> ChannelMap" where
  "addChannelInfo channelId info m =
     updateFreeChannel channelId
       (case m_channelMap m channelId of
          None \<Rightarrow> m\<lparr>m_channelMap := (m_channelMap m)(channelId \<mapsto> info)\<rparr>
        | Some _ \<Rightarrow> m)"

definition updateChannelInfo :: "u32 \<Rightarrow> ChannelInfo \<Rightarrow> ChannelMap \<Rightarrow> ChannelMap" where
  "updateChannelInfo channelId info m =
     (let m = (case m_channelMap m channelId of None \<Rightarrow> updateFreeChannel channelId m | Some _ \<Rightarrow> m)
      in m\<lparr>m_channelMap := (m_channelMap m)(channelId \<mapsto> info)\<rparr>)"

definition getNextFreeChannelId :: "u32 \<Rightarrow> ChannelMap \<Rightarrow> u32 \<times> ChannelMap" where
  "getNextFreeChannelId channelId m =
     (if channelId < m_FreeChannelId m then (m_FreeChannelId m, m)
      else (let m = updateFreeChannel channelId m in (m_FreeChannelId m, m)))"

definition invalidateChannelInfo :: "u32 \<Rightarrow> ChannelMap \<Rightarrow> ChannelMap" where
  "invalidateChannelInfo channelId m =
     (case m_channelMap m channelId of
        None \<Rightarrow> m
      | Some _ \<Rightarrow> m\<lparr>m_channelMap := (m_channelMap m)(channelId \<mapsto> \<lparr>ch_mTag = [], ch_mTimeStamp = 0\<rparr>)\<rparr>)"

definition isChannelok :: "u32 \<Rightarrow> ChannelMap \<Rightarrow> bool" where
  "isChannelok channelId m \<longleftrightarrow> m_FreeChannelId m \<le> channelId"

section \<open>Free identifiers are fresh\<close>

text \<open>
  The identifiers of the map lie below the free one; this needs that nobody uses the largest identifier, after
  which the counter would start at 0.
\<close>

definition map_ok :: "ChannelMap \<Rightarrow> bool" where
  "map_ok m \<longleftrightarrow> CHANNEL_ID_START_NUMBER \<le> m_FreeChannelId m
    \<and> (\<forall>c. m_channelMap m c \<noteq> None \<longrightarrow> c < m_FreeChannelId m)"

lemma map_ok_init: "map_ok Map_init"
  by (simp add: map_ok_def Map_init_def)

lemma less_plus_one_u32: "(c :: u32) \<noteq> -1 \<Longrightarrow> c < c + 1"
  by (metis add.commute add.right_inverse add_eq_0_iff lessI unatSuc word_less_nat_alt)

lemma updateFreeChannel_ok:
  assumes "map_ok m" "c \<noteq> -1"
  shows "map_ok (updateFreeChannel c m)" "c < m_FreeChannelId (updateFreeChannel c m)"
    "m_channelMap (updateFreeChannel c m) = m_channelMap m"
    "m_FreeChannelId m \<le> m_FreeChannelId (updateFreeChannel c m)"
  using assms less_plus_one_u32 [of c]
  by (auto simp: updateFreeChannel_def map_ok_def intro: order.strict_trans order.strict_trans1 less_imp_le)

lemma addChannelInfo_ok:
  assumes "map_ok m" "c \<noteq> -1"
  shows "map_ok (addChannelInfo c info m)"
proof -
  have "m_FreeChannelId (updateFreeChannel c (m\<lparr>m_channelMap := f\<rparr>)) = m_FreeChannelId (updateFreeChannel c m)" for f
    by (simp add: updateFreeChannel_def)
  then show ?thesis
    using updateFreeChannel_ok [OF assms]
    by (auto simp: addChannelInfo_def map_ok_def updateFreeChannel_def split: option.splits)
qed

lemma updateChannelInfo_ok:
  assumes "map_ok m" "c \<noteq> -1"
  shows "map_ok (updateChannelInfo c info m)"
  using updateFreeChannel_ok [OF assms] assms(1)
  by (auto simp: updateChannelInfo_def map_ok_def Let_def split: option.splits if_splits)

lemma getNextFreeChannelId_ok:
  assumes "map_ok m" "c \<noteq> -1" "getNextFreeChannelId c m = (new, m')"
  shows "map_ok m'" "c < new" "m_channelMap m new = None" "m_FreeChannelId m' = new" "m_channelMap m' = m_channelMap m"
    "m_FreeChannelId m \<le> new"
proof -
  have "map_ok m' \<and> c < new \<and> m_FreeChannelId m' = new \<and> m_channelMap m' = m_channelMap m \<and> m_FreeChannelId m \<le> new"
    using assms updateFreeChannel_ok [OF assms(1,2)] by (auto simp: getNextFreeChannelId_def Let_def split: if_splits)
  then show "map_ok m'" "c < new" "m_FreeChannelId m' = new" "m_channelMap m' = m_channelMap m"
    "m_FreeChannelId m \<le> new" "m_channelMap m new = None"
    using assms(1) by (auto simp: map_ok_def)
qed

lemma invalidateChannelInfo_ok: "map_ok m \<Longrightarrow> map_ok (invalidateChannelInfo c m)"
  by (auto simp: invalidateChannelInfo_def map_ok_def split: option.splits)

section \<open>The watchdog\<close>

text \<open>
  One pass of \<^verbatim>\<open>checkChannels\<close> at the time \<^verbatim>\<open>now\<close>, with the channels it asks the connectivity agent to
  deallocate. The bound of the loop does not change during the pass.
\<close>

definition diffMillis :: "int \<Rightarrow> ChannelInfo \<Rightarrow> u32" where
  "diffMillis now info = of_int (now - ch_mTimeStamp info) * 1000"

definition checkChannel :: "int \<Rightarrow> u32 \<Rightarrow> u32 list \<times> ChannelMap \<Rightarrow> u32 list \<times> ChannelMap" where
  "checkChannel now channelId s =
     (case getChannelInfo channelId (snd s) of
        None \<Rightarrow> s
      | Some info \<Rightarrow>
          if ch_mTag info = [] then s
          else if DEALLOCATE_TIMEOUT_MS < diffMillis now info
          then (fst s @ [channelId], invalidateChannelInfo channelId (snd s))
          else s)"

definition checkChannels :: "int \<Rightarrow> ChannelMap \<Rightarrow> u32 list \<times> ChannelMap" where
  "checkChannels now m =
     fold (checkChannel now)
       (map of_nat [unat (CHANNEL_ID_START_NUMBER + 1)..<unat (fst (getNextFreeChannelId 0 m))]) ([], m)"

text \<open>Reports come every ten seconds; \<^verbatim>\<open>stale\<close> says that the last one is more than thirty seconds old.\<close>

definition stale :: "int \<Rightarrow> ChannelMap \<Rightarrow> u32 \<Rightarrow> bool" where
  "stale now m c \<longleftrightarrow> (\<exists>info. m_channelMap m c = Some info \<and> ch_mTag info \<noteq> [] \<and> 30 < now - ch_mTimeStamp info)"

definition times_ok :: "int \<Rightarrow> ChannelMap \<Rightarrow> bool" where
  "times_ok now m \<longleftrightarrow> (\<forall>c info. m_channelMap m c = Some info \<longrightarrow> ch_mTag info \<noteq> [] \<longrightarrow>
     0 \<le> now - ch_mTimeStamp info \<and> now - ch_mTimeStamp info < 2 ^ 22)"

lemma uint_millis: "0 \<le> d \<Longrightarrow> d < 2 ^ 22 \<Longrightarrow> uint (of_int (d * 1000) :: u32) = d * 1000"
  by (simp add: uint_word_of_int_eq take_bit_int_eq_self del: of_int_mult)

lemma millis_less_iff: "x = d * 1000 \<Longrightarrow> y = 30000 \<Longrightarrow> y < x \<longleftrightarrow> 30 < (d :: int)"
  by auto

lemma diffMillis_stale:
  assumes "0 \<le> now - ch_mTimeStamp info" "now - ch_mTimeStamp info < 2 ^ 22"
  shows "DEALLOCATE_TIMEOUT_MS < diffMillis now info \<longleftrightarrow> 30 < now - ch_mTimeStamp info"
proof -
  let ?d = "now - ch_mTimeStamp info"
  have "diffMillis now info = (of_int (?d * 1000) :: u32)"
    by (simp add: diffMillis_def)
  then have "uint (diffMillis now info) = ?d * 1000"
    using uint_millis [OF assms] by simp
  moreover have "uint DEALLOCATE_TIMEOUT_MS = 30000"
    by (simp add: DEALLOCATE_TIMEOUT_MS_def)
  ultimately show ?thesis
    unfolding word_less_def by (rule millis_less_iff)
qed

lemma checkChannels_fold:
  assumes "times_ok now m" "distinct cs" "\<And>c. c \<in> set cs \<Longrightarrow> m_channelMap m' c = m_channelMap m c"
  shows "fold (checkChannel now) cs (freed, m') =
    (freed @ filter (stale now m) cs, fold invalidateChannelInfo (filter (stale now m) cs) m')"
  using assms(2,3)
proof (induction cs arbitrary: freed m')
  case (Cons c cs)
  have stale: "checkChannel now c (freed, m') =
      (if stale now m c then (freed @ [c], invalidateChannelInfo c m') else (freed, m'))"
    using assms(1) Cons.prems(2) [of c] diffMillis_stale [of now]
    by (auto simp: checkChannel_def stale_def times_ok_def getChannelInfo_def split: option.splits)
  have "m_channelMap (invalidateChannelInfo c m') c' = m_channelMap m c'" if "c' \<in> set cs" for c'
    using Cons.prems that by (auto simp: invalidateChannelInfo_def split: option.splits)
  then show ?case
    using Cons.IH Cons.prems by (simp add: stale)
qed simp

definition watched :: "ChannelMap \<Rightarrow> u32 list" where
  "watched m = map of_nat [unat (CHANNEL_ID_START_NUMBER + 1)..<unat (m_FreeChannelId m)]"

lemma watched:
  "distinct (watched m)" "set (watched m) = {c. CHANNEL_ID_START_NUMBER < c \<and> c < m_FreeChannelId m}"
proof -
  have inj: "inj_on (of_nat :: nat \<Rightarrow> u32) {unat (CHANNEL_ID_START_NUMBER + 1)..<unat (m_FreeChannelId m)}"
  proof (rule inj_onI)
    fix i j
    assume "i \<in> {unat (CHANNEL_ID_START_NUMBER + 1)..<unat (m_FreeChannelId m)}"
      "j \<in> {unat (CHANNEL_ID_START_NUMBER + 1)..<unat (m_FreeChannelId m)}" "(of_nat i :: u32) = of_nat j"
    moreover have "unat (m_FreeChannelId m) < 2 ^ 32"
      using unsigned_less [of "m_FreeChannelId m"] by simp
    ultimately show "i = j"
      by (simp add: word_of_nat_eq_iff take_bit_nat_eq_self)
  qed
  then show "distinct (watched m)"
    by (simp add: watched_def distinct_map)
  show "set (watched m) = {c. CHANNEL_ID_START_NUMBER < c \<and> c < m_FreeChannelId m}"
  proof (intro set_eqI iffI)
    fix c
    assume "c \<in> set (watched m)"
    then obtain i where "c = of_nat i" "101 \<le> i" "i < unat (m_FreeChannelId m)"
      by (auto simp: watched_def CHANNEL_ID_START_NUMBER_def)
    moreover have "unat (m_FreeChannelId m) < 2 ^ 32"
      using unsigned_less [of "m_FreeChannelId m"] by simp
    ultimately show "c \<in> {c. CHANNEL_ID_START_NUMBER < c \<and> c < m_FreeChannelId m}"
      using take_bit_nat_eq_self [of i 32]
      by (simp add: word_less_nat_alt CHANNEL_ID_START_NUMBER_def unsigned_of_nat)
  next
    fix c
    assume "c \<in> {c. CHANNEL_ID_START_NUMBER < c \<and> c < m_FreeChannelId m}"
    then show "c \<in> set (watched m)"
      by (auto simp: watched_def CHANNEL_ID_START_NUMBER_def word_less_nat_alt intro: image_eqI [of _ _ "unat c"])
  qed
qed

lemma sorted_watched: "sorted (watched m)"
proof -
  have "unat (m_FreeChannelId m) < 2 ^ 32"
    using unsigned_less [of "m_FreeChannelId m"] by simp
  then have "mono_on {unat (CHANNEL_ID_START_NUMBER + 1)..<unat (m_FreeChannelId m)} (of_nat :: nat \<Rightarrow> u32)"
    by (intro mono_onI) (simp add: word_of_nat_less_eq_iff take_bit_nat_eq_self)
  then show ?thesis
    unfolding watched_def sorted_map
    by (intro sorted_wrt_mono_rel [OF _ sorted_upt]) (auto simp: mono_on_def)
qed

lemma checkChannels_eq:
  assumes "map_ok m" "times_ok now m"
  shows "checkChannels now m =
    (filter (stale now m) (watched m), fold invalidateChannelInfo (filter (stale now m) (watched m)) m)"
proof -
  have "0 < m_FreeChannelId m"
    using assms(1) order.strict_trans2 [of 0 100 "m_FreeChannelId m"] by (simp add: map_ok_def CHANNEL_ID_START_NUMBER_def)
  then have "fst (getNextFreeChannelId 0 m) = m_FreeChannelId m"
    by (simp add: getNextFreeChannelId_def)
  then show ?thesis
    using checkChannels_fold [OF assms(2) watched(1) refl, of m "[]"] by (simp add: checkChannels_def watched_def)
qed

lemma fold_invalidate:
  "m_channelMap (fold invalidateChannelInfo cs m) c =
     (if c \<in> set cs then map_option (\<lambda>_. \<lparr>ch_mTag = [], ch_mTimeStamp = 0\<rparr>) (m_channelMap m c) else m_channelMap m c)"
  by (induction cs arbitrary: m) (auto simp: invalidateChannelInfo_def split: option.split)

lemma checkChannels_spec:
  assumes "map_ok m" "times_ok now m" "checkChannels now m = (freed, m')"
  shows "set freed = {c. CHANNEL_ID_START_NUMBER < c \<and> c < m_FreeChannelId m \<and> stale now m c}"
    and "sorted freed" and "distinct freed"
    and "\<forall>c. m_channelMap m' c = (if c \<in> set freed then Some \<lparr>ch_mTag = [], ch_mTimeStamp = 0\<rparr> else m_channelMap m c)"
    and "fst (checkChannels now m') = []"
proof -
  have freed: "freed = filter (stale now m) (watched m)" "m' = fold invalidateChannelInfo freed m"
    using assms(3) checkChannels_eq [OF assms(1,2)] by auto
  show set: "set freed = {c. CHANNEL_ID_START_NUMBER < c \<and> c < m_FreeChannelId m \<and> stale now m c}"
    by (auto simp: freed(1) watched(2))
  show "sorted freed" "distinct freed"
    by (simp_all add: freed(1) watched(1) sorted_watched sorted_wrt_filter)
  show blank: "\<forall>c. m_channelMap m' c = (if c \<in> set freed then Some \<lparr>ch_mTag = [], ch_mTimeStamp = 0\<rparr> else m_channelMap m c)"
    by (auto simp: freed(2) fold_invalidate set stale_def)
  have "map_ok (fold invalidateChannelInfo cs m0)" if "map_ok m0" for cs m0
    using that by (induction cs arbitrary: m0) (auto intro: invalidateChannelInfo_ok)
  then have "map_ok m'"
    using assms(1) freed(2) by simp
  moreover have "times_ok now m'"
    using assms(2) blank by (auto simp: times_ok_def)
  moreover have "m_FreeChannelId (fold invalidateChannelInfo cs m0) = m_FreeChannelId m0" for cs m0
    by (induction cs arbitrary: m0) (auto simp: invalidateChannelInfo_def split: option.split)
  then have "watched m' = watched m"
    by (simp add: watched_def freed(2))
  moreover have "\<not> stale now m' c" if "c \<in> set (watched m)" for c
    using that blank freed(1) by (auto simp: stale_def)
  ultimately show "fst (checkChannels now m') = []"
    using checkChannels_eq [of m' now] by (simp add: filter_empty_conv)
qed

section \<open>Properties\<close>

text \<open>
  One pass of the channel watchdog deallocates, in ascending order and once each, exactly the channels above
  the first identifier whose last report is more than thirty seconds old, blanks their entries so that the next
  pass leaves them alone, and keeps every other entry.
\<close>

theorem watchdog_frees_stale:
  assumes "map_ok m" "times_ok now m" "checkChannels now m = (freed, m')"
  shows "set freed = {c. CHANNEL_ID_START_NUMBER < c \<and> c < m_FreeChannelId m \<and> stale now m c}
    \<and> sorted freed \<and> distinct freed
    \<and> (\<forall>c. m_channelMap m' c = (if c \<in> set freed then Some \<lparr>ch_mTag = [], ch_mTimeStamp = 0\<rparr> else m_channelMap m c))
    \<and> fst (checkChannels now m') = []"
  using checkChannels_spec [OF assms] by blast

theorem watchdog_frees_stale_witness:
  "\<exists>m'. checkChannels 31 (addChannelInfo 101 \<lparr>ch_mTag = ''a'', ch_mTimeStamp = 0\<rparr> Map_init) = ([101], m')
    \<and> fst (checkChannels 31 m') = []"
proof -
  let ?m = "addChannelInfo 101 \<lparr>ch_mTag = ''a'', ch_mTimeStamp = 0\<rparr> Map_init"
  have m: "?m = \<lparr>m_channelMap = [101 \<mapsto> \<lparr>ch_mTag = ''a'', ch_mTimeStamp = 0\<rparr>], m_FreeChannelId = 102\<rparr>"
    by (simp add: addChannelInfo_def updateFreeChannel_def Map_init_def CHANNEL_ID_START_NUMBER_def)
  have ok: "map_ok ?m" "times_ok 31 ?m"
    by (rule addChannelInfo_ok [OF map_ok_init]) (simp_all add: m times_ok_def)
  obtain freed m' where run: "checkChannels 31 ?m = (freed, m')"
    by (cases "checkChannels 31 ?m")
  have "freed = filter (stale 31 ?m) (watched ?m)"
    using checkChannels_eq [OF ok] run by simp
  also have "\<dots> = [101]"
    by (simp add: m watched_def stale_def CHANNEL_ID_START_NUMBER_def upt_conv_Cons)
  finally show ?thesis
    using run watchdog_frees_stale [OF ok run] by simp
qed

text \<open>
  The loop starts one behind the first identifier. The channel that gets it, which is the first one
  allocated after the start, is never freed by the watchdog, however long nobody has reported it.
\<close>

theorem first_channel_unwatched:
  assumes "map_ok m" "times_ok now m"
  shows "fst (getNextFreeChannelId 0 Map_init) = CHANNEL_ID_START_NUMBER
    \<and> CHANNEL_ID_START_NUMBER \<notin> set (fst (checkChannels now m))
    \<and> m_channelMap (snd (checkChannels now m)) CHANNEL_ID_START_NUMBER = m_channelMap m CHANNEL_ID_START_NUMBER"
  by (auto simp: checkChannels_eq [OF assms] fold_invalidate watched(2) getNextFreeChannelId_def Map_init_def
    CHANNEL_ID_START_NUMBER_def)

theorem first_channel_unwatched_witness:
  "fst (checkChannels 1000 (addChannelInfo 100 \<lparr>ch_mTag = ''a'', ch_mTimeStamp = 0\<rparr> Map_init)) = []
    \<and> stale 1000 (addChannelInfo 100 \<lparr>ch_mTag = ''a'', ch_mTimeStamp = 0\<rparr> Map_init) 100"
proof -
  let ?m = "addChannelInfo 100 \<lparr>ch_mTag = ''a'', ch_mTimeStamp = 0\<rparr> Map_init"
  have m: "?m = \<lparr>m_channelMap = [100 \<mapsto> \<lparr>ch_mTag = ''a'', ch_mTimeStamp = 0\<rparr>], m_FreeChannelId = 101\<rparr>"
    by (simp add: addChannelInfo_def updateFreeChannel_def Map_init_def CHANNEL_ID_START_NUMBER_def)
  have ok: "map_ok ?m" "times_ok 1000 ?m"
    by (rule addChannelInfo_ok [OF map_ok_init]) (simp_all add: m times_ok_def)
  have "set (fst (checkChannels 1000 ?m)) \<subseteq> {100}"
    unfolding checkChannels_eq [OF ok] by (auto simp: m stale_def split: if_splits)
  then show ?thesis
    using first_channel_unwatched [OF ok] by (auto simp: CHANNEL_ID_START_NUMBER_def m stale_def subset_singleton_iff)
qed

end
