(* ===== verification/Negotiator.thy ===== *)
theory Negotiator
  imports ChannelMap
begin

text \<open>
  The negotiator processes of the two devices (\<^verbatim>\<open>ChannelSupervisor/NegotiatorProcess\<close>): they agree on the
  identifier of a channel and enter it in both maps. A request of a local client and the notifications of the other side meet in
  a \<^verbatim>\<open>Processor\<close>, found by its tag. Messages are records here; their XML form is the work of the
  \<^verbatim>\<open>pugixml\<close> library, which gives back what was printed.
\<close>

section \<open>Messages\<close>

datatype RequestType = REQUESTTYPE_UNKNOWN | REQUESTTYPE_ALLOCATE_CHANNEL | REQUESTTYPE_CA_ALLOCATION_DONE
  | REQUESTTYPE_DEALLOCATE_CHANNEL | REQUESTTYPE_UPDATE_CHANNEL_INFO | REQUESTTYPE_INVALIDATE_TIMEDOUT_REQUEST

datatype NotificationType = NOTIFICATIONTTYPE_UNKNOWN | NOTIFICATIONTTYPE_ALLOCATE | NOTIFICATIONTTYPE_CHECK_MAP
  | NOTIFICATIONTTYPE_CA_ALLOCATE | NOTIFICATIONTTYPE_MAP_ADD_CID | NOTIFICATIONTTYPE_DEALLOCATE
  | NOTIFICATIONTTYPE_UPDATE_CHANNEL_INFO | NOTIFICATIONTTYPE_CLIENT_DISCONNECTED
  | NOTIFICATIONTTYPE_INVALIDATE_TIMEDOUT_REQUEST

datatype ResponseType = RESPONSETYPE_ALLOCATE_CHANNEL | RESPONSETYPE_CA_ALLOCATION_DONE | RESPONSETYPE_UPDATE_CHANNEL_INFO

record Notification =
  n_tag :: string
  n_channelID :: u32
  n_clientID :: int
  n_requestID :: u32
  n_type :: NotificationType

record Request =
  r_tag :: string
  r_channelID :: u32
  r_type :: RequestType

text \<open>A client of the negotiator and the number of its request.\<close>

record ResponseContainer =
  rc_clientID :: int
  rc_responseID :: u32

record Response =
  resp_container :: ResponseContainer
  resp_tag :: string
  resp_channelID :: u32
  resp_type :: ResponseType

text \<open>
  A tag ends in \<^verbatim>\<open>#SERVER\<close> or \<^verbatim>\<open>#CLIENT\<close>; the two sides of a channel use complementing tags.
\<close>

fun find_last_of :: "char \<Rightarrow> string \<Rightarrow> nat option" where
  "find_last_of c [] = None"
| "find_last_of c (x # xs) = (case find_last_of c xs of
     Some i \<Rightarrow> Some (Suc i)
   | None \<Rightarrow> if x = c then Some 0 else None)"

definition getComplementingTag :: "string \<Rightarrow> string" where
  "getComplementingTag tag = (case find_last_of (CHR ''#'') tag of
     None \<Rightarrow> tag
   | Some separatorPos \<Rightarrow>
       (let result = take separatorPos tag; suffix = drop (separatorPos + 1) tag
        in if suffix = ''SERVER'' then result @ ''#'' @ ''CLIENT''
           else if suffix = ''CLIENT'' then result @ ''#'' @ ''SERVER''
           else tag))"

section \<open>Processors\<close>

datatype processor_kind = AllocationProcessor | ConAgentAllocationDoneProcessor | DeallocationProcessor | UpdateChannelProcessor

text \<open>
  The classes derived from \<^verbatim>\<open>Processor\<close>, with the fields of the base class. \<^verbatim>\<open>p_got\<close> is
  \<^verbatim>\<open>mGotAllocateRequest\<close> or \<^verbatim>\<open>mGotRemoteNotificationCaalloc\<close>; \<^verbatim>\<open>p_sender\<close> says that
  \<^verbatim>\<open>mResponseSender\<close> is not null. The tube is set before any use.
\<close>

record Processor =
  p_kind :: processor_kind
  p_requestType :: RequestType
  p_notificationType :: NotificationType
  p_sender :: bool
  p_container :: ResponseContainer
  p_channelID :: u32
  p_tag :: string
  p_localClientID :: int
  p_remoteClientID :: int
  p_localRequestID :: u32
  p_remoteRequestID :: u32
  p_got :: bool
  p_isMaster :: bool

record negotiator =
  ng_map :: ChannelMap
  ng_processors :: "Processor list"
  ng_isMaster :: bool
  ng_tube :: "Notification list"
  ng_responses :: "Response list"

definition new_Processor :: "processor_kind \<Rightarrow> RequestType \<Rightarrow> NotificationType \<Rightarrow> bool \<Rightarrow> Processor" where
  "new_Processor kind rt nt isMaster = \<lparr>p_kind = kind, p_requestType = rt, p_notificationType = nt, p_sender = False,
     p_container = \<lparr>rc_clientID = 0, rc_responseID = 0\<rparr>, p_channelID = 0, p_tag = [], p_localClientID = 0,
     p_remoteClientID = 0, p_localRequestID = 0, p_remoteRequestID = 0, p_got = False, p_isMaster = isMaster\<rparr>"

definition sendResponse :: "ResponseType \<Rightarrow> Processor \<Rightarrow> negotiator \<Rightarrow> negotiator" where
  "sendResponse t p s =
     (if p_sender p
      then s\<lparr>ng_responses := ng_responses s @
        [\<lparr>resp_container = p_container p, resp_tag = p_tag p, resp_channelID = p_channelID p, resp_type = t\<rparr>]\<rparr>
      else s)"

definition sendNotification :: "NotificationType \<Rightarrow> Processor \<Rightarrow> negotiator \<Rightarrow> negotiator" where
  "sendNotification t p s = s\<lparr>ng_tube := ng_tube s @
     [\<lparr>n_tag = p_tag p, n_channelID = p_channelID p, n_clientID = rc_clientID (p_container p),
       n_requestID = rc_responseID (p_container p), n_type = t\<rparr>]\<rparr>"

definition Processor_onRemoteNotification :: "Notification \<Rightarrow> Processor \<Rightarrow> Processor" where
  "Processor_onRemoteNotification n p = p\<lparr>p_remoteClientID := n_clientID n, p_remoteRequestID := n_requestID n\<rparr>"

definition Processor_onLocalRequest :: "ResponseContainer \<Rightarrow> Processor \<Rightarrow> Processor" where
  "Processor_onLocalRequest container p = p\<lparr>p_sender := True, p_container := container,
     p_localClientID := rc_clientID container, p_localRequestID := rc_responseID container\<rparr>"

text \<open>
  \<^verbatim>\<open>AllocationProcessor\<close>. An error code other than success never comes in, because no notification is sent with
  one: the assertion on it holds.
\<close>

definition Allocation_onRemoteNotification :: "Notification \<Rightarrow> Processor \<Rightarrow> negotiator \<Rightarrow> (Processor \<times> negotiator) option" where
  "Allocation_onRemoteNotification n p s =
     (let p = Processor_onRemoteNotification n p
      in if n_type n = NOTIFICATIONTTYPE_ALLOCATE
         then
           (let p = p\<lparr>p_got := True\<rparr>;
                p = (if \<not> p_isMaster p then p\<lparr>p_channelID := n_channelID n\<rparr> else p)
            in if p_requestType p \<noteq> REQUESTTYPE_UNKNOWN
               then Some (p\<lparr>p_tag := getComplementingTag (n_tag n)\<rparr>, s)
               else Some (p\<lparr>p_notificationType := NOTIFICATIONTTYPE_CHECK_MAP\<rparr>,
                 sendNotification NOTIFICATIONTTYPE_CHECK_MAP p s))
         else if n_type n = NOTIFICATIONTTYPE_CHECK_MAP
         then Some (p\<lparr>p_notificationType := NOTIFICATIONTTYPE_UNKNOWN\<rparr>, sendResponse RESPONSETYPE_ALLOCATE_CHANNEL p s)
         else None)"

definition Allocation_onLocalRequest ::
  "Request \<Rightarrow> ResponseContainer \<Rightarrow> Processor \<Rightarrow> negotiator \<Rightarrow> (Processor \<times> negotiator) option" where
  "Allocation_onLocalRequest r container p s =
     (let p = (Processor_onLocalRequest container p)\<lparr>p_requestType := REQUESTTYPE_UNKNOWN, p_tag := r_tag r\<rparr>;
          (p, s) = (if p_isMaster p
            then (let (c, m) = getNextFreeChannelId (r_channelID r) (ng_map s) in (p\<lparr>p_channelID := c\<rparr>, s\<lparr>ng_map := m\<rparr>))
            else (p, s));
          s = sendNotification NOTIFICATIONTTYPE_ALLOCATE p s
      in if p_got p
         then Some (p\<lparr>p_notificationType := NOTIFICATIONTTYPE_CHECK_MAP\<rparr>, sendNotification NOTIFICATIONTTYPE_CHECK_MAP p s)
         else Some (p, s))"

definition CADone_onRemoteNotification ::
  "int \<Rightarrow> Notification \<Rightarrow> Processor \<Rightarrow> negotiator \<Rightarrow> (Processor \<times> negotiator) option" where
  "CADone_onRemoteNotification now n p s =
     (let p = Processor_onRemoteNotification n p
      in if n_type n = NOTIFICATIONTTYPE_CA_ALLOCATE
         then do {
           cassert (\<not> p_got p);
           let p = p\<lparr>p_got := True\<rparr>;
           if p_requestType p \<noteq> REQUESTTYPE_UNKNOWN
           then Some (p\<lparr>p_tag := getComplementingTag (n_tag n), p_channelID := n_channelID n\<rparr>, s)
           else do {
             cassert (p_channelID p = n_channelID n);
             Some (p\<lparr>p_notificationType := NOTIFICATIONTTYPE_MAP_ADD_CID\<rparr>,
               sendNotification NOTIFICATIONTTYPE_MAP_ADD_CID p s) } }
         else if n_type n = NOTIFICATIONTTYPE_MAP_ADD_CID
         then
           (let s = s\<lparr>ng_map := addChannelInfo (p_channelID p) \<lparr>ch_mTag = p_tag p, ch_mTimeStamp = now\<rparr> (ng_map s)\<rparr>
            in Some (p\<lparr>p_notificationType := NOTIFICATIONTTYPE_UNKNOWN\<rparr>, sendResponse RESPONSETYPE_CA_ALLOCATION_DONE p s))
         else None)"

definition CADone_onLocalRequest ::
  "Request \<Rightarrow> ResponseContainer \<Rightarrow> Processor \<Rightarrow> negotiator \<Rightarrow> (Processor \<times> negotiator) option" where
  "CADone_onLocalRequest r container p s =
     (let p = (Processor_onLocalRequest container p)
            \<lparr>p_requestType := REQUESTTYPE_UNKNOWN, p_tag := r_tag r, p_channelID := r_channelID r\<rparr>;
          s = sendNotification NOTIFICATIONTTYPE_CA_ALLOCATE p s
      in if p_got p
         then Some (p\<lparr>p_notificationType := NOTIFICATIONTTYPE_MAP_ADD_CID\<rparr>, sendNotification NOTIFICATIONTTYPE_MAP_ADD_CID p s)
         else Some (p, s))"

definition Deallocation_onLocalRequest ::
  "Request \<Rightarrow> ResponseContainer \<Rightarrow> Processor \<Rightarrow> negotiator \<Rightarrow> (Processor \<times> negotiator) option" where
  "Deallocation_onLocalRequest r container p s =
     Some ((Processor_onLocalRequest container p)
         \<lparr>p_requestType := REQUESTTYPE_UNKNOWN, p_tag := r_tag r, p_channelID := r_channelID r\<rparr>,
       s\<lparr>ng_map := invalidateChannelInfo (r_channelID r) (ng_map s)\<rparr>)"

definition updateMapAndSendResponse :: "int \<Rightarrow> Processor \<Rightarrow> negotiator \<Rightarrow> negotiator" where
  "updateMapAndSendResponse now p s =
     sendResponse RESPONSETYPE_UPDATE_CHANNEL_INFO p
       (s\<lparr>ng_map := updateChannelInfo (p_channelID p) \<lparr>ch_mTag = p_tag p, ch_mTimeStamp = now\<rparr> (ng_map s)\<rparr>)"

text \<open>\<^verbatim>\<open>isFinished\<close> of each class.\<close>

definition isFinished :: "Processor \<Rightarrow> bool" where
  "isFinished p = (case p_kind p of
     AllocationProcessor \<Rightarrow> p_notificationType p = NOTIFICATIONTTYPE_UNKNOWN
   | ConAgentAllocationDoneProcessor \<Rightarrow> p_notificationType p = NOTIFICATIONTTYPE_UNKNOWN
   | DeallocationProcessor \<Rightarrow> p_requestType p = REQUESTTYPE_UNKNOWN
   | UpdateChannelProcessor \<Rightarrow>
       p_notificationType p = NOTIFICATIONTTYPE_UNKNOWN \<and> p_requestType p = REQUESTTYPE_UNKNOWN)"

definition Update_onRemoteNotification ::
  "int \<Rightarrow> Notification \<Rightarrow> Processor \<Rightarrow> negotiator \<Rightarrow> (Processor \<times> negotiator) option" where
  "Update_onRemoteNotification now n p s =
     (let p = (Processor_onRemoteNotification n p)\<lparr>p_notificationType := NOTIFICATIONTTYPE_UNKNOWN\<rparr>
      in if \<not> isFinished p
         then Some (p\<lparr>p_tag := getComplementingTag (n_tag n), p_channelID := n_channelID n\<rparr>, s)
         else Some (p, updateMapAndSendResponse now p s))"

definition Update_onLocalRequest ::
  "int \<Rightarrow> Request \<Rightarrow> ResponseContainer \<Rightarrow> Processor \<Rightarrow> negotiator \<Rightarrow> (Processor \<times> negotiator) option" where
  "Update_onLocalRequest now r container p s =
     (let p = (Processor_onLocalRequest container p)
            \<lparr>p_requestType := REQUESTTYPE_UNKNOWN, p_tag := r_tag r, p_channelID := r_channelID r\<rparr>;
          s = sendNotification NOTIFICATIONTTYPE_UPDATE_CHANNEL_INFO p s
      in Some (p, if isFinished p then updateMapAndSendResponse now p s else s))"

text \<open>The virtual calls; a \<^verbatim>\<open>DeallocationProcessor\<close> inherits \<^verbatim>\<open>onRemoteNotification\<close>.\<close>

definition onRemoteNotification ::
  "int \<Rightarrow> Notification \<Rightarrow> Processor \<Rightarrow> negotiator \<Rightarrow> (Processor \<times> negotiator) option" where
  "onRemoteNotification now n p s = (case p_kind p of
     AllocationProcessor \<Rightarrow> Allocation_onRemoteNotification n p s
   | ConAgentAllocationDoneProcessor \<Rightarrow> CADone_onRemoteNotification now n p s
   | DeallocationProcessor \<Rightarrow> Some (Processor_onRemoteNotification n p, s)
   | UpdateChannelProcessor \<Rightarrow> Update_onRemoteNotification now n p s)"

definition onLocalRequest ::
  "int \<Rightarrow> Request \<Rightarrow> ResponseContainer \<Rightarrow> Processor \<Rightarrow> negotiator \<Rightarrow> (Processor \<times> negotiator) option" where
  "onLocalRequest now r container p s = (case p_kind p of
     AllocationProcessor \<Rightarrow> Allocation_onLocalRequest r container p s
   | ConAgentAllocationDoneProcessor \<Rightarrow> CADone_onLocalRequest r container p s
   | DeallocationProcessor \<Rightarrow> Deallocation_onLocalRequest r container p s
   | UpdateChannelProcessor \<Rightarrow> Update_onLocalRequest now r container p s)"

section \<open>The holder of the processors\<close>

definition requestTypeToNotification :: "RequestType \<Rightarrow> NotificationType" where
  "requestTypeToNotification t = (case t of
     REQUESTTYPE_ALLOCATE_CHANNEL \<Rightarrow> NOTIFICATIONTTYPE_ALLOCATE
   | REQUESTTYPE_CA_ALLOCATION_DONE \<Rightarrow> NOTIFICATIONTTYPE_CA_ALLOCATE
   | REQUESTTYPE_DEALLOCATE_CHANNEL \<Rightarrow> NOTIFICATIONTTYPE_DEALLOCATE
   | REQUESTTYPE_UPDATE_CHANNEL_INFO \<Rightarrow> NOTIFICATIONTTYPE_UPDATE_CHANNEL_INFO
   | _ \<Rightarrow> NOTIFICATIONTTYPE_UNKNOWN)"

definition createProcessorForType :: "bool \<Rightarrow> NotificationType \<Rightarrow> Processor option" where
  "createProcessorForType isMaster t = (case t of
     NOTIFICATIONTTYPE_ALLOCATE \<Rightarrow>
       Some (new_Processor AllocationProcessor REQUESTTYPE_ALLOCATE_CHANNEL NOTIFICATIONTTYPE_ALLOCATE isMaster)
   | NOTIFICATIONTTYPE_DEALLOCATE \<Rightarrow>
       Some (new_Processor DeallocationProcessor REQUESTTYPE_DEALLOCATE_CHANNEL NOTIFICATIONTTYPE_UNKNOWN False)
   | NOTIFICATIONTTYPE_CA_ALLOCATE \<Rightarrow>
       Some (new_Processor ConAgentAllocationDoneProcessor REQUESTTYPE_CA_ALLOCATION_DONE NOTIFICATIONTTYPE_CA_ALLOCATE False)
   | NOTIFICATIONTTYPE_UPDATE_CHANNEL_INFO \<Rightarrow>
       Some (new_Processor UpdateChannelProcessor REQUESTTYPE_UPDATE_CHANNEL_INFO NOTIFICATIONTTYPE_UPDATE_CHANNEL_INFO False)
   | _ \<Rightarrow> None)"

text \<open>
  The processors are a set of pointers, searched in the order of the addresses; here they are a list, and a new
  one goes to the end. The processor that matches is taken out of the list while it works, and put back
  where it was unless it has finished.
\<close>

definition matches_request :: "Request \<Rightarrow> Processor \<Rightarrow> bool" where
  "matches_request r p \<longleftrightarrow> p_requestType p = r_type r \<and> p_tag p = r_tag r
     \<and> (r_type r \<noteq> REQUESTTYPE_ALLOCATE_CHANNEL \<longrightarrow> p_channelID p = r_channelID r)"

definition matches_notification :: "Notification \<Rightarrow> Processor \<Rightarrow> bool" where
  "matches_notification n p \<longleftrightarrow> p_notificationType p = n_type n \<and> p_tag p = getComplementingTag (n_tag n)
     \<and> (n_type n \<noteq> NOTIFICATIONTTYPE_ALLOCATE \<longrightarrow> p_channelID p = n_channelID n)"

fun split_at :: "('a \<Rightarrow> bool) \<Rightarrow> 'a list \<Rightarrow> ('a list \<times> 'a \<times> 'a list) option" where
  "split_at P [] = None"
| "split_at P (x # xs) = (if P x then Some ([], x, xs)
     else map_option (\<lambda>(before, y, after). (x # before, y, after)) (split_at P xs))"

definition obtainProcessor ::
  "(Processor \<Rightarrow> bool) \<Rightarrow> NotificationType \<Rightarrow> negotiator \<Rightarrow> (Processor list \<times> Processor \<times> Processor list) option" where
  "obtainProcessor P t s = (case split_at P (ng_processors s) of
     Some found \<Rightarrow> Some found
   | None \<Rightarrow> map_option (\<lambda>p. (ng_processors s, p, [])) (createProcessorForType (ng_isMaster s) t))"

definition put_back :: "Processor list \<Rightarrow> Processor \<Rightarrow> Processor list \<Rightarrow> negotiator \<Rightarrow> negotiator" where
  "put_back before p after s =
     s\<lparr>ng_processors := (if isFinished p then before @ after else before @ p # after)\<rparr>"

definition processTubeNotification :: "int \<Rightarrow> Notification \<Rightarrow> negotiator \<Rightarrow> negotiator option" where
  "processTubeNotification now n s =
     (if n_type n = NOTIFICATIONTTYPE_UNKNOWN then Some s
      else case obtainProcessor (matches_notification n) (n_type n) s of
        None \<Rightarrow> Some s
      | Some (before, p, after) \<Rightarrow> do {
          (p, s) \<leftarrow> onRemoteNotification now n p s;
          Some (put_back before p after s) })"

definition processClientRequest :: "int \<Rightarrow> Request \<Rightarrow> ResponseContainer \<Rightarrow> negotiator \<Rightarrow> negotiator option" where
  "processClientRequest now r container s =
     (if requestTypeToNotification (r_type r) = NOTIFICATIONTTYPE_UNKNOWN then Some s
      else case obtainProcessor (matches_request r) (requestTypeToNotification (r_type r)) s of
        None \<Rightarrow> Some s
      | Some (before, p, after) \<Rightarrow> do {
          (p, s) \<leftarrow> onLocalRequest now r container p s;
          Some (put_back before p after s) })"

definition processLocalClientDisconnected :: "int \<Rightarrow> negotiator \<Rightarrow> negotiator" where
  "processLocalClientDisconnected client s =
     s\<lparr>ng_processors := filter (\<lambda>p. p_localClientID p \<noteq> client) (ng_processors s)\<rparr>"

definition processRemoteClientDisconnected :: "int \<Rightarrow> negotiator \<Rightarrow> negotiator" where
  "processRemoteClientDisconnected client s =
     s\<lparr>ng_processors := filter (\<lambda>p. p_remoteClientID p \<noteq> client) (ng_processors s)\<rparr>"

definition drop_first :: "(Processor \<Rightarrow> bool) \<Rightarrow> negotiator \<Rightarrow> negotiator" where
  "drop_first P s = (case split_at P (ng_processors s) of
     None \<Rightarrow> s
   | Some (before, _, after) \<Rightarrow> s\<lparr>ng_processors := before @ after\<rparr>)"

definition invalidateLocalTimedOutRequest :: "int \<Rightarrow> u32 \<Rightarrow> negotiator \<Rightarrow> negotiator" where
  "invalidateLocalTimedOutRequest client req s =
     (if client = 0 \<or> req = 0 then s
      else drop_first (\<lambda>p. p_localClientID p = client \<and> p_localRequestID p = req) s)"

definition invalidateRemoteTimedOutRequest :: "int \<Rightarrow> u32 \<Rightarrow> negotiator \<Rightarrow> negotiator" where
  "invalidateRemoteTimedOutRequest client req s =
     (if client = 0 \<or> req = 0 then s
      else drop_first (\<lambda>p. p_remoteClientID p = client \<and> p_remoteRequestID p = req) s)"

section \<open>What comes in\<close>

definition NegotiatorTube_onDataReceived :: "int \<Rightarrow> Notification \<Rightarrow> negotiator \<Rightarrow> negotiator option" where
  "NegotiatorTube_onDataReceived now n s =
     (if n_type n = NOTIFICATIONTTYPE_CLIENT_DISCONNECTED then Some (processRemoteClientDisconnected (n_clientID n) s)
      else if n_type n = NOTIFICATIONTTYPE_INVALIDATE_TIMEDOUT_REQUEST
      then Some (invalidateRemoteTimedOutRequest (n_clientID n) (n_requestID n) s)
      else processTubeNotification now n s)"

definition Negotiator_OnAsyncRequest :: "int \<Rightarrow> u32 \<Rightarrow> Request \<Rightarrow> int \<Rightarrow> negotiator \<Rightarrow> negotiator option" where
  "Negotiator_OnAsyncRequest now reqId r dirId s =
     (if r_type r = REQUESTTYPE_INVALIDATE_TIMEDOUT_REQUEST
      then
        (let s = s\<lparr>ng_tube := ng_tube s @ [\<lparr>n_tag = [], n_channelID = 0, n_clientID = dirId, n_requestID = reqId,
               n_type = NOTIFICATIONTTYPE_INVALIDATE_TIMEDOUT_REQUEST\<rparr>]\<rparr>
         in Some (invalidateLocalTimedOutRequest dirId reqId s))
      else processClientRequest now r \<lparr>rc_clientID = dirId, rc_responseID = reqId\<rparr> s)"

definition Negotiator_OnConnectionLost :: "int \<Rightarrow> negotiator \<Rightarrow> negotiator" where
  "Negotiator_OnConnectionLost dirId s =
     processLocalClientDisconnected dirId
       (s\<lparr>ng_tube := ng_tube s @ [\<lparr>n_tag = [], n_channelID = 0, n_clientID = dirId, n_requestID = 0,
          n_type = NOTIFICATIONTTYPE_CLIENT_DISCONNECTED\<rparr>]\<rparr>)"

end
