(* ===== verification/NegotiatorAgreement.thy ===== *)
theory NegotiatorAgreement
  imports Negotiator
begin

text \<open>
  Two negotiators and the messages between them: what a negotiation of one tag can see of the others, the steps
  of one negotiation as a product of two small automata, and the agreement on the identifier.
\<close>

section \<open>Tags\<close>

lemma find_last_of_None: "find_last_of c xs = None \<longleftrightarrow> c \<notin> set xs"
  by (induction xs) (auto split: option.splits)

lemma find_last_of_append:
  "c \<notin> set ys \<Longrightarrow> find_last_of c (xs @ c # ys) = Some (length xs)"
proof (induction xs)
  case Nil
  then show ?case
    using find_last_of_None [of c ys] by simp
qed simp

lemma find_last_of_Some: "find_last_of c xs = Some i \<Longrightarrow> i < length xs \<and> xs ! i = c"
  by (induction xs arbitrary: i) (auto split: option.splits if_splits)

lemma tag_split: "find_last_of c tag = Some i \<Longrightarrow> tag = take i tag @ c # drop (i + 1) tag"
  using find_last_of_Some [of c tag i] id_take_nth_drop [of i tag] by simp

lemma getComplementingTag_server [simp]: "getComplementingTag (base @ ''#SERVER'') = base @ ''#CLIENT''"
  using find_last_of_append [of "CHR ''#''" "''SERVER''" base] by (simp add: getComplementingTag_def)

lemma getComplementingTag_client [simp]: "getComplementingTag (base @ ''#CLIENT'') = base @ ''#SERVER''"
  using find_last_of_append [of "CHR ''#''" "''CLIENT''" base] by (simp add: getComplementingTag_def)

lemma tag_cases:
  obtains (server) base where "tag = base @ ''#SERVER''"
  | (client) base where "tag = base @ ''#CLIENT''"
  | (other) "getComplementingTag tag = tag"
proof (cases "find_last_of (CHR ''#'') tag")
  case None
  then show thesis
    by (intro other) (simp add: getComplementingTag_def)
next
  case (Some i)
  note split = tag_split [OF Some]
  show thesis
  proof (cases "drop (i + 1) tag = ''SERVER'' \<or> drop (i + 1) tag = ''CLIENT''")
    case True
    then show thesis
      using split server [of "take i tag"] client [of "take i tag"] by auto
  next
    case False
    then show thesis
      using Some by (intro other) (simp add: getComplementingTag_def Let_def)
  qed
qed

lemma getComplementingTag_involution [simp]: "getComplementingTag (getComplementingTag tag) = tag"
  by (cases tag rule: tag_cases) simp_all

lemma getComplementingTag_Nil_iff [simp]: "getComplementingTag tag = [] \<longleftrightarrow> tag = []"
proof -
  have "getComplementingTag [] = []"
    by (simp add: getComplementingTag_def)
  then show ?thesis
    by (metis getComplementingTag_involution)
qed

section \<open>Processors of one tag\<close>

lemma split_at_Some:
  "split_at P xs = Some (before, x, after) \<Longrightarrow> xs = before @ x # after \<and> P x \<and> (\<forall>y \<in> set before. \<not> P y)"
  by (induction xs arbitrary: before) (auto split: if_splits)

lemma split_at_None: "split_at P xs = None \<longleftrightarrow> (\<forall>x \<in> set xs. \<not> P x)"
  by (induction xs) (auto split: if_splits)

definition mine :: "string \<Rightarrow> negotiator \<Rightarrow> Processor list" where
  "mine t s = filter (\<lambda>p. p_tag p = t) (ng_processors s)"

definition sent_by :: "string \<Rightarrow> negotiator \<Rightarrow> Notification list" where
  "sent_by t s = filter (\<lambda>n. n_tag n = t) (ng_tube s)"

definition answers_to :: "string \<Rightarrow> negotiator \<Rightarrow> Response list" where
  "answers_to t s = filter (\<lambda>r. resp_tag r = t) (ng_responses s)"

text \<open>What an operation may do that concerns another tag: nothing that a negotiation of \<^verbatim>\<open>t\<close> could see.\<close>

definition leaves :: "string \<Rightarrow> negotiator \<Rightarrow> negotiator \<Rightarrow> bool" where
  "leaves t s s' \<longleftrightarrow> mine t s' = mine t s \<and> sent_by t s' = sent_by t s \<and> answers_to t s' = answers_to t s
     \<and> ng_isMaster s' = ng_isMaster s \<and> (\<exists>ns. ng_tube s' = ng_tube s @ ns)"

lemma leaves_sendNotification [simp]:
  "p_tag p \<noteq> t \<Longrightarrow> leaves t s (sendNotification nt p s)"
  by (simp add: leaves_def mine_def sent_by_def answers_to_def sendNotification_def)

lemma leaves_sendResponse [simp]: "p_tag p \<noteq> t \<Longrightarrow> leaves t s (sendResponse rt p s)"
  by (simp add: leaves_def mine_def sent_by_def answers_to_def sendResponse_def)

lemma leaves_map [simp]: "leaves t s (s\<lparr>ng_map := m\<rparr>)"
  by (simp add: leaves_def mine_def sent_by_def answers_to_def)

lemma tube_fields [simp]:
  "mine t (s\<lparr>ng_tube := ns\<rparr>) = mine t s" "answers_to t (s\<lparr>ng_tube := ns\<rparr>) = answers_to t s"
  by (simp_all add: mine_def answers_to_def)

lemma leaves_refl [simp]: "leaves t s s"
  by (simp add: leaves_def)

lemma leaves_trans [trans]: "leaves t s s' \<Longrightarrow> leaves t s' s'' \<Longrightarrow> leaves t s s''"
  by (auto simp: leaves_def)

lemma processors_unchanged [simp]:
  "ng_processors (sendNotification nt p s) = ng_processors s" "ng_processors (sendResponse rt p s) = ng_processors s"
  by (simp_all add: sendNotification_def sendResponse_def)

lemma remote_leaves:
  assumes "onRemoteNotification now n p s = Some (p', s')"
    and "p_tag p \<noteq> t" "getComplementingTag (n_tag n) \<noteq> t"
  shows "p_tag p' \<noteq> t" "leaves t s s'" "ng_processors s' = ng_processors s"
proof -
  have "p_tag p' \<noteq> t \<and> leaves t s s' \<and> ng_processors s' = ng_processors s"
  proof (cases "p_kind p")
    case AllocationProcessor
    then show ?thesis
      using assms by (auto simp: onRemoteNotification_def Allocation_onRemoteNotification_def Processor_onRemoteNotification_def
        Let_def split: if_splits)
  next
    case ConAgentAllocationDoneProcessor
    then show ?thesis
      using assms leaves_trans [OF leaves_map leaves_sendResponse]
      by (auto simp: onRemoteNotification_def CADone_onRemoteNotification_def Processor_onRemoteNotification_def
        Let_def bind_eq_Some_conv split: if_splits)
  next
    case DeallocationProcessor
    then show ?thesis
      using assms by (auto simp: onRemoteNotification_def Processor_onRemoteNotification_def)
  next
    case UpdateChannelProcessor
    then show ?thesis
      using assms leaves_trans [OF leaves_map leaves_sendResponse]
      by (auto simp: onRemoteNotification_def Update_onRemoteNotification_def Processor_onRemoteNotification_def
        updateMapAndSendResponse_def Let_def split: if_splits)
  qed
  then show "p_tag p' \<noteq> t" "leaves t s s'" "ng_processors s' = ng_processors s"
    by simp_all
qed

lemma local_leaves:
  assumes "onLocalRequest now r container p s = Some (p', s')" "r_tag r \<noteq> t"
  shows "p_tag p' \<noteq> t" "leaves t s s'" "ng_processors s' = ng_processors s"
proof -
  note defs = onLocalRequest_def Processor_onLocalRequest_def Let_def
  have "p_tag p' \<noteq> t \<and> leaves t s s' \<and> ng_processors s' = ng_processors s"
  proof (cases "p_kind p")
    case AllocationProcessor
    then show ?thesis
      using assms leaves_trans [OF leaves_map leaves_sendNotification] leaves_trans [OF leaves_sendNotification leaves_sendNotification]
        leaves_trans [OF leaves_map leaves_trans [OF leaves_sendNotification leaves_sendNotification]]
      by (auto simp: defs Allocation_onLocalRequest_def split: if_splits prod.splits)
  next
    case ConAgentAllocationDoneProcessor
    then show ?thesis
      using assms leaves_trans [OF leaves_sendNotification leaves_sendNotification]
      by (auto simp: defs CADone_onLocalRequest_def split: if_splits)
  next
    case DeallocationProcessor
    then show ?thesis
      using assms by (auto simp: defs Deallocation_onLocalRequest_def)
  next
    case UpdateChannelProcessor
    then show ?thesis
      using assms leaves_trans [OF leaves_sendNotification leaves_trans [OF leaves_map leaves_sendResponse]]
      by (auto simp: defs Update_onLocalRequest_def updateMapAndSendResponse_def split: if_splits)
  qed
  then show "p_tag p' \<noteq> t" "leaves t s s'" "ng_processors s' = ng_processors s"
    by simp_all
qed


lemma leaves_put_back:
  assumes "leaves t s s'" "filter (\<lambda>p. p_tag p = t) before @ filter (\<lambda>p. p_tag p = t) after = mine t s" "p_tag p \<noteq> t"
  shows "leaves t s (put_back before p after s')"
  using assms by (auto simp: leaves_def put_back_def mine_def sent_by_def answers_to_def)

lemma obtain_other:
  assumes "obtainProcessor P nt s = Some (before, p, after)" "\<And>p. P p \<Longrightarrow> p_tag p \<noteq> t" "t \<noteq> []"
  shows "p_tag p \<noteq> t" "filter (\<lambda>p. p_tag p = t) before @ filter (\<lambda>p. p_tag p = t) after = mine t s"
proof -
  have new: "p_tag q = []" if "createProcessorForType b nt = Some q" for b q
    using that by (auto simp: createProcessorForType_def new_Processor_def split: NotificationType.splits)
  have "p_tag p \<noteq> t \<and> filter (\<lambda>p. p_tag p = t) before @ filter (\<lambda>p. p_tag p = t) after = mine t s"
  proof (cases "split_at P (ng_processors s)")
    case None
    then show ?thesis
      using assms(1,3) new by (auto simp: obtainProcessor_def mine_def)
  next
    case (Some found)
    then have "split_at P (ng_processors s) = Some (before, p, after)"
      using assms(1) by (simp add: obtainProcessor_def)
    then show ?thesis
      using split_at_Some [of P "ng_processors s"] assms(2) by (auto simp: mine_def)
  qed
  then show "p_tag p \<noteq> t" "filter (\<lambda>p. p_tag p = t) before @ filter (\<lambda>p. p_tag p = t) after = mine t s"
    by simp_all
qed

lemma notification_leaves:
  assumes "processTubeNotification now n s = Some s'" "getComplementingTag (n_tag n) \<noteq> t" "t \<noteq> []"
  shows "leaves t s s'"
proof (cases "n_type n = NOTIFICATIONTTYPE_UNKNOWN \<or> obtainProcessor (matches_notification n) (n_type n) s = None")
  case True
  then show ?thesis
    using assms(1) by (auto simp: processTubeNotification_def split: if_splits)
next
  case False
  then obtain before p after where found: "obtainProcessor (matches_notification n) (n_type n) s = Some (before, p, after)"
    by auto
  then obtain p1 s1 where step: "onRemoteNotification now n p s = Some (p1, s1)" "s' = put_back before p1 after s1"
    using assms(1) False by (auto simp: processTubeNotification_def bind_eq_Some_conv)
  have other: "p_tag p \<noteq> t" "filter (\<lambda>p. p_tag p = t) before @ filter (\<lambda>p. p_tag p = t) after = mine t s"
    by (rule obtain_other [OF found _ assms(3)]; use assms(2) in \<open>simp add: matches_notification_def\<close>)+
  note r = remote_leaves [OF step(1) other(1) assms(2)]
  show ?thesis
    unfolding step(2) by (rule leaves_put_back [OF r(2) other(2) r(1)])
qed

lemma request_leaves:
  assumes "processClientRequest now r container s = Some s'" "r_tag r \<noteq> t" "t \<noteq> []"
  shows "leaves t s s'"
proof (cases "requestTypeToNotification (r_type r) = NOTIFICATIONTTYPE_UNKNOWN
    \<or> obtainProcessor (matches_request r) (requestTypeToNotification (r_type r)) s = None")
  case True
  then show ?thesis
    using assms(1) by (auto simp: processClientRequest_def split: if_splits)
next
  case False
  then obtain before p after
    where found: "obtainProcessor (matches_request r) (requestTypeToNotification (r_type r)) s = Some (before, p, after)"
    by auto
  then obtain p1 s1 where step: "onLocalRequest now r container p s = Some (p1, s1)" "s' = put_back before p1 after s1"
    using assms(1) False by (auto simp: processClientRequest_def bind_eq_Some_conv)
  have other: "filter (\<lambda>p. p_tag p = t) before @ filter (\<lambda>p. p_tag p = t) after = mine t s"
    by (rule obtain_other [OF found _ assms(3)]) (use assms(2) in \<open>simp add: matches_request_def\<close>)
  note r = local_leaves [OF step(1) assms(2)]
  show ?thesis
    unfolding step(2) by (rule leaves_put_back [OF r(2) other r(1)])
qed

lemma obtain_new:
  assumes "mine t s = []" "\<And>p. P p \<Longrightarrow> p_tag p = t"
  shows "obtainProcessor P nt s = map_option (\<lambda>p. (ng_processors s, p, [])) (createProcessorForType (ng_isMaster s) nt)"
proof -
  have "split_at P (ng_processors s) = None"
    unfolding split_at_None using assms by (auto simp: mine_def filter_empty_conv)
  then show ?thesis
    by (simp add: obtainProcessor_def)
qed

lemma obtain_mine:
  assumes "mine t s = [p]" "P p" "\<And>p. P p \<Longrightarrow> p_tag p = t"
  obtains before after where "obtainProcessor P nt s = Some (before, p, after)"
    "filter (\<lambda>p. p_tag p = t) before = []" "filter (\<lambda>p. p_tag p = t) after = []"
proof -
  have "p \<in> set (mine t s)"
    using assms(1) by simp
  then have "p \<in> set (ng_processors s)"
    by (simp add: mine_def)
  then obtain before q after where q: "split_at P (ng_processors s) = Some (before, q, after)"
    using assms(2) split_at_None [of P "ng_processors s"] by (cases "split_at P (ng_processors s)") auto
  note split = split_at_Some [OF q]
  then have "q = p" "filter (\<lambda>p. p_tag p = t) before = []" "filter (\<lambda>p. p_tag p = t) after = []"
    using assms(1,3) by (auto simp: mine_def filter_empty_conv append_eq_Cons_conv)
  then show thesis
    using that q by (simp add: obtainProcessor_def)
qed

lemma mine_put_back:
  assumes "filter (\<lambda>p. p_tag p = t) before = []" "filter (\<lambda>p. p_tag p = t) after = []" "p_tag p = t"
  shows "mine t (put_back before p after s) = (if isFinished p then [] else [p])"
  using assms by (simp add: mine_def put_back_def)

lemma put_back_simps [simp]:
  "ng_tube (put_back before p after s) = ng_tube s" "ng_responses (put_back before p after s) = ng_responses s"
  "ng_isMaster (put_back before p after s) = ng_isMaster s" "ng_map (put_back before p after s) = ng_map s"
  "sent_by t (put_back before p after s) = sent_by t s" "answers_to t (put_back before p after s) = answers_to t s"
  by (simp_all add: put_back_def sent_by_def answers_to_def)


section \<open>One negotiation\<close>

text \<open>Where one side of a negotiation stands, by its request and the messages it has read.\<close>

datatype phase = Nothing | LocalOnly | RemoteOnly | Checking | Done

fun messages_read :: "phase \<Rightarrow> nat" where
  "messages_read Nothing = 0"
| "messages_read LocalOnly = 0"
| "messages_read RemoteOnly = 1"
| "messages_read Checking = 1"
| "messages_read Done = 2"

fun messages_sent :: "u32 \<Rightarrow> u32 \<Rightarrow> phase \<Rightarrow> (NotificationType \<times> u32) list" where
  "messages_sent x c LocalOnly = [(NOTIFICATIONTTYPE_ALLOCATE, x)]"
| "messages_sent x c Checking = [(NOTIFICATIONTTYPE_ALLOCATE, x), (NOTIFICATIONTTYPE_CHECK_MAP, c)]"
| "messages_sent x c Done = [(NOTIFICATIONTTYPE_ALLOCATE, x), (NOTIFICATIONTTYPE_CHECK_MAP, c)]"
| "messages_sent x c _ = []"

definition message :: "Notification \<Rightarrow> NotificationType \<times> u32" where
  "message n = (n_type n, n_channelID n)"

fun proc_in :: "bool \<Rightarrow> u32 \<Rightarrow> ResponseContainer \<Rightarrow> phase \<Rightarrow> Processor \<Rightarrow> bool" where
  "proc_in master c k LocalOnly p \<longleftrightarrow> p_requestType p = REQUESTTYPE_UNKNOWN \<and> p_notificationType p = NOTIFICATIONTTYPE_ALLOCATE
     \<and> p_sender p \<and> p_container p = k \<and> \<not> p_got p \<and> (master \<longrightarrow> p_channelID p = c)"
| "proc_in master c k RemoteOnly p \<longleftrightarrow> p_requestType p = REQUESTTYPE_ALLOCATE_CHANNEL
     \<and> p_notificationType p = NOTIFICATIONTTYPE_ALLOCATE \<and> p_got p \<and> (\<not> master \<longrightarrow> p_channelID p = c)"
| "proc_in master c k Checking p \<longleftrightarrow> p_requestType p = REQUESTTYPE_UNKNOWN \<and> p_notificationType p = NOTIFICATIONTTYPE_CHECK_MAP
     \<and> p_sender p \<and> p_container p = k \<and> p_channelID p = c"
| "proc_in master c k _ p \<longleftrightarrow> False"

definition side_inv :: "bool \<Rightarrow> string \<Rightarrow> u32 \<Rightarrow> ResponseContainer \<Rightarrow> phase \<Rightarrow> phase \<Rightarrow> negotiator \<Rightarrow> bool" where
  "side_inv master t c k ph other s \<longleftrightarrow> ng_isMaster s = master
     \<and> (if ph \<in> {Nothing, Done} then mine t s = []
        else \<exists>p. mine t s = [p] \<and> p_kind p = AllocationProcessor \<and> p_isMaster p = master \<and> proc_in master c k ph p)
     \<and> (\<exists>x. (master \<longrightarrow> x = c) \<and> map message (sent_by t s) = drop (messages_read other) (messages_sent x c ph))
     \<and> messages_read other \<le> length (messages_sent c c ph)
     \<and> answers_to t s = (if ph = Done
          then [\<lparr>resp_container = k, resp_tag = t, resp_channelID = c, resp_type = RESPONSETYPE_ALLOCATE_CHANNEL\<rparr>] else [])"

lemma side_inv_leaves: "side_inv master t c k ph other s \<Longrightarrow> leaves t s s' \<Longrightarrow> side_inv master t c k ph other s'"
  by (simp add: side_inv_def leaves_def)

lemma matches_tag:
  "matches_notification n p \<Longrightarrow> p_tag p = getComplementingTag (n_tag n)" "matches_request r p \<Longrightarrow> p_tag p = r_tag r"
  by (simp_all add: matches_notification_def matches_request_def)

lemma sent_by_send [simp]:
  "sent_by t (sendNotification nt p s) = sent_by t s @ (if p_tag p = t
     then [\<lparr>n_tag = t, n_channelID = p_channelID p, n_clientID = rc_clientID (p_container p),
       n_requestID = rc_responseID (p_container p), n_type = nt\<rparr>] else [])"
  "sent_by t (sendResponse rt p s) = sent_by t s" "sent_by t (s\<lparr>ng_map := m\<rparr>) = sent_by t s"
  by (simp_all add: sent_by_def sendNotification_def sendResponse_def)

lemma answers_to_send [simp]:
  "answers_to t (sendResponse rt p s) = answers_to t s @ (if p_sender p \<and> p_tag p = t
     then [\<lparr>resp_container = p_container p, resp_tag = t, resp_channelID = p_channelID p, resp_type = rt\<rparr>] else [])"
  "answers_to t (sendNotification nt p s) = answers_to t s" "answers_to t (s\<lparr>ng_map := m\<rparr>) = answers_to t s"
  by (simp_all add: answers_to_def sendNotification_def sendResponse_def)

lemma isMaster_send [simp]:
  "ng_isMaster (sendResponse rt p s) = ng_isMaster s" "ng_isMaster (sendNotification nt p s) = ng_isMaster s"
  by (simp_all add: sendNotification_def sendResponse_def)

text \<open>The three steps of one side. A request of the local client:\<close>

fun after_request :: "phase \<Rightarrow> phase" where
  "after_request Nothing = LocalOnly"
| "after_request RemoteOnly = Checking"
| "after_request ph = ph"

lemma side_request:
  assumes inv: "side_inv master t c k ph other s" and ph: "ph \<in> {Nothing, RemoteOnly}"
    and r: "r_tag r = t" "r_type r = REQUESTTYPE_ALLOCATE_CHANNEL"
    and c': "c' = (if master then fst (getNextFreeChannelId (r_channelID r) (ng_map s)) else c)"
  shows "\<exists>s'. processClientRequest now r k s = Some s' \<and> side_inv master t c' k (after_request ph) other s'"
proof -
  note defs = onLocalRequest_def Allocation_onLocalRequest_def Processor_onLocalRequest_def Let_def split_beta
    requestTypeToNotification_def processClientRequest_def
  have read: "messages_read other = 0" "sent_by t s = []"
    using inv ph by (auto simp: side_inv_def)
  show ?thesis
  proof (cases "ph = Nothing")
    case True
    let ?p0 = "new_Processor AllocationProcessor REQUESTTYPE_ALLOCATE_CHANNEL NOTIFICATIONTTYPE_ALLOCATE master"
    have found: "obtainProcessor (matches_request r) NOTIFICATIONTTYPE_ALLOCATE s = Some (ng_processors s, ?p0, [])"
      using obtain_new [of t s "matches_request r"] inv True r(1) matches_tag(2)
      by (simp add: side_inv_def createProcessorForType_def)
    have "mine t s = []"
      using inv True by (simp add: side_inv_def)
    then have mine: "mine t (put_back (ng_processors s) p [] s1) = (if isFinished p then [] else [p])" if "p_tag p = t" for p s1
      using mine_put_back [of t "ng_processors s" "[]" p s1] that by (simp add: mine_def)
    show ?thesis
      using inv True r found read c'
      by (cases master) (auto simp: defs side_inv_def mine new_Processor_def isFinished_def message_def)
  next
    case False
    then obtain p where p: "mine t s = [p]" "p_kind p = AllocationProcessor" "p_isMaster p = master" "proc_in master c k RemoteOnly p"
      using inv ph by (auto simp: side_inv_def)
    have tag: "p_tag p = t"
      using p(1) by (auto simp: mine_def dest: filter_eq_ConsD)
    have match: "matches_request r p"
      using p(4) r tag by (simp add: matches_request_def)
    have tags: "matches_request r p \<Longrightarrow> p_tag p = t" for p
      using matches_tag(2) r(1) by simp
    obtain before after where found: "obtainProcessor (matches_request r) NOTIFICATIONTTYPE_ALLOCATE s = Some (before, p, after)"
      "filter (\<lambda>p. p_tag p = t) before = []" "filter (\<lambda>p. p_tag p = t) after = []"
      using obtain_mine [of t s p "matches_request r", OF p(1) match tags] .
    show ?thesis
      using inv ph False r found read c' p
      by (cases master) (auto simp: defs side_inv_def mine_put_back [OF found(2,3)] isFinished_def message_def)
  qed
qed

text \<open>The message \<^verbatim>\<open>ALLOCATE\<close> of the other side:\<close>

fun after_allocate :: "phase \<Rightarrow> phase" where
  "after_allocate Nothing = RemoteOnly"
| "after_allocate LocalOnly = Checking"
| "after_allocate ph = ph"

lemma side_allocate:
  assumes inv: "side_inv master t c k ph other s" and ph: "ph \<in> {Nothing, LocalOnly}"
    and n: "getComplementingTag (n_tag n) = t" "n_type n = NOTIFICATIONTTYPE_ALLOCATE" "\<not> master \<longrightarrow> n_channelID n = c"
  shows "\<exists>s'. processTubeNotification now n s = Some s' \<and> side_inv master t c k (after_allocate ph) other s'"
proof -
  note defs = onRemoteNotification_def Allocation_onRemoteNotification_def Processor_onRemoteNotification_def Let_def
    processTubeNotification_def
  show ?thesis
  proof (cases "ph = Nothing")
    case True
    let ?p0 = "new_Processor AllocationProcessor REQUESTTYPE_ALLOCATE_CHANNEL NOTIFICATIONTTYPE_ALLOCATE master"
    have found: "obtainProcessor (matches_notification n) NOTIFICATIONTTYPE_ALLOCATE s = Some (ng_processors s, ?p0, [])"
      using obtain_new [of t s "matches_notification n"] inv True n(1) matches_tag(1)
      by (simp add: side_inv_def createProcessorForType_def)
    have "mine t s = []"
      using inv True by (simp add: side_inv_def)
    then have mine: "mine t (put_back (ng_processors s) p [] s1) = (if isFinished p then [] else [p])" if "p_tag p = t" for p s1
      using mine_put_back [of t "ng_processors s" "[]" p s1] that by (simp add: mine_def)
    show ?thesis
      using inv True n found
      by (cases master) (auto simp: defs side_inv_def mine new_Processor_def isFinished_def)
  next
    case False
    then obtain p where p: "mine t s = [p]" "p_kind p = AllocationProcessor" "p_isMaster p = master" "proc_in master c k LocalOnly p"
      using inv ph by (auto simp: side_inv_def)
    have tag: "p_tag p = t"
      using p(1) by (auto simp: mine_def dest: filter_eq_ConsD)
    have match: "matches_notification n p"
      using p(4) n tag by (simp add: matches_notification_def)
    have tags: "matches_notification n p \<Longrightarrow> p_tag p = t" for p
      using matches_tag(1) n(1) by simp
    obtain before after where found: "obtainProcessor (matches_notification n) NOTIFICATIONTTYPE_ALLOCATE s = Some (before, p, after)"
      "filter (\<lambda>p. p_tag p = t) before = []" "filter (\<lambda>p. p_tag p = t) after = []"
      using obtain_mine [of t s p "matches_notification n", OF p(1) match tags] .
    have "messages_read other \<le> 1"
      using inv ph False by (auto simp: side_inv_def)
    then have read: "messages_read other = 0 \<or> messages_read other = 1"
      by auto
    let ?q1 = "(Processor_onRemoteNotification n p)\<lparr>p_got := True\<rparr>"
    define q where "q = (if master then ?q1 else ?q1\<lparr>p_channelID := n_channelID n\<rparr>)"
    have q: "p_kind q = AllocationProcessor" "p_isMaster q = master" "p_channelID q = c" "p_tag q = t"
      "p_requestType q = REQUESTTYPE_UNKNOWN" "p_sender q" "p_container q = k"
      using p(2,3,4) n(3) tag by (auto simp: q_def Processor_onRemoteNotification_def)
    let ?q = "q\<lparr>p_notificationType := NOTIFICATIONTTYPE_CHECK_MAP\<rparr>"
    let ?s = "put_back before ?q after (sendNotification NOTIFICATIONTTYPE_CHECK_MAP q s)"
    have "processTubeNotification now n s = Some ?s"
      using n(2) found(1) p by (cases master) (simp_all add: defs q_def)
    moreover have "side_inv master t c k Checking other ?s"
    proof -
      obtain x where x: "master \<longrightarrow> x = c" "map message (sent_by t s) = drop (messages_read other) [(NOTIFICATIONTTYPE_ALLOCATE, x)]"
        using inv ph False by (auto simp: side_inv_def)
      have "mine t ?s = [?q]"
        using mine_put_back [OF found(2,3), of ?q] q by (simp add: isFinished_def)
      moreover have "map message (sent_by t ?s) = drop (messages_read other) (messages_sent x c Checking)"
        using q x(2) read by (auto simp: message_def)
      moreover have "messages_read other \<le> length (messages_sent c c Checking)"
        using read by auto
      moreover have "ng_isMaster ?s = master" "answers_to t ?s = []"
        using inv ph False by (auto simp: side_inv_def)
      ultimately show ?thesis
        using x(1) q unfolding side_inv_def by auto
    qed
    ultimately show ?thesis
      using ph False by auto
  qed
qed

text \<open>The message \<^verbatim>\<open>CHECK_MAP\<close>, which ends the negotiation:\<close>

lemma side_check_map:
  assumes inv: "side_inv master t c k Checking other s"
    and n: "getComplementingTag (n_tag n) = t" "n_type n = NOTIFICATIONTTYPE_CHECK_MAP" "n_channelID n = c"
  shows "\<exists>s'. processTubeNotification now n s = Some s' \<and> side_inv master t c k Done other s'"
proof -
  obtain p where p: "mine t s = [p]" "p_kind p = AllocationProcessor" "p_isMaster p = master" "proc_in master c k Checking p"
    using inv by (auto simp: side_inv_def)
  have tag: "p_tag p = t"
    using p(1) by (auto simp: mine_def dest: filter_eq_ConsD)
  have match: "matches_notification n p"
    using p(4) n tag by (simp add: matches_notification_def)
  have tags: "matches_notification n p \<Longrightarrow> p_tag p = t" for p
    using matches_tag(1) n(1) by simp
  obtain before after where found: "obtainProcessor (matches_notification n) NOTIFICATIONTTYPE_CHECK_MAP s = Some (before, p, after)"
    "filter (\<lambda>p. p_tag p = t) before = []" "filter (\<lambda>p. p_tag p = t) after = []"
    using obtain_mine [of t s p "matches_notification n", OF p(1) match tags] .
  let ?q = "(Processor_onRemoteNotification n p)\<lparr>p_notificationType := NOTIFICATIONTTYPE_UNKNOWN\<rparr>"
  let ?s = "put_back before ?q after (sendResponse RESPONSETYPE_ALLOCATE_CHANNEL (Processor_onRemoteNotification n p) s)"
  have "processTubeNotification now n s = Some ?s"
    using n(2) found(1) p by (simp add: onRemoteNotification_def Allocation_onRemoteNotification_def Let_def processTubeNotification_def)
  moreover have "side_inv master t c k Done other ?s"
  proof -
    have "p_tag ?q = t" "isFinished ?q"
      using p(2) tag by (simp_all add: isFinished_def Processor_onRemoteNotification_def)
    then show ?thesis
      using inv p tag by (simp add: side_inv_def mine_put_back [OF found(2,3)] Processor_onRemoteNotification_def)
  qed
  ultimately show ?thesis
    by blast
qed


section \<open>Two negotiators and the tube between them\<close>

datatype side = Master | Slave

text \<open>
  What happens at the two negotiators: a client of one side sends a request, or the oldest message on the way from one side
  reaches the other. The service channel that carries the messages delivers them in order and without loss.
\<close>

datatype neg_event = Asks side int u32 Request int | Delivers side int

fun neg_step :: "neg_event \<Rightarrow> negotiator \<times> negotiator \<Rightarrow> (negotiator \<times> negotiator) option" where
  "neg_step (Asks Master now reqId r dirId) (a, b) = map_option (\<lambda>a. (a, b)) (Negotiator_OnAsyncRequest now reqId r dirId a)"
| "neg_step (Asks Slave now reqId r dirId) (a, b) = map_option (\<lambda>b. (a, b)) (Negotiator_OnAsyncRequest now reqId r dirId b)"
| "neg_step (Delivers Master now) (a, b) = (case ng_tube a of
     [] \<Rightarrow> Some (a, b)
   | n # ns \<Rightarrow> map_option (\<lambda>b. (a\<lparr>ng_tube := ns\<rparr>, b)) (NegotiatorTube_onDataReceived now n b))"
| "neg_step (Delivers Slave now) (a, b) = (case ng_tube b of
     [] \<Rightarrow> Some (a, b)
   | n # ns \<Rightarrow> map_option (\<lambda>a. (a, b\<lparr>ng_tube := ns\<rparr>)) (NegotiatorTube_onDataReceived now n a))"

fun neg_run :: "neg_event list \<Rightarrow> negotiator \<times> negotiator \<Rightarrow> (negotiator \<times> negotiator) option" where
  "neg_run [] s = Some s"
| "neg_run (ev # evs) s = (case neg_step ev s of None \<Rightarrow> None | Some s' \<Rightarrow> neg_run evs s')"

text \<open>Messages for the processors; the other kinds announce that a client has gone or given up.\<close>

definition ordinary :: "negotiator \<Rightarrow> bool" where
  "ordinary s \<longleftrightarrow> (\<forall>n \<in> set (ng_tube s). n_type n \<notin> {NOTIFICATIONTTYPE_CLIENT_DISCONNECTED, NOTIFICATIONTTYPE_INVALIDATE_TIMEDOUT_REQUEST})"

lemma ordinary_simps [simp]:
  "ordinary (sendNotification nt p s) \<longleftrightarrow> ordinary s \<and> nt \<notin> {NOTIFICATIONTTYPE_CLIENT_DISCONNECTED, NOTIFICATIONTTYPE_INVALIDATE_TIMEDOUT_REQUEST}"
  "ordinary (sendResponse rt p s) = ordinary s" "ordinary (s\<lparr>ng_map := m\<rparr>) = ordinary s"
  "ordinary (put_back before p after s) = ordinary s"
  by (auto simp: ordinary_def sendNotification_def sendResponse_def put_back_def)

lemma notification_ordinary:
  assumes "processTubeNotification now n s = Some s'" "ordinary s"
  shows "ordinary s'"
  using assms
  by (auto simp: processTubeNotification_def onRemoteNotification_def Allocation_onRemoteNotification_def
    CADone_onRemoteNotification_def Update_onRemoteNotification_def updateMapAndSendResponse_def Let_def bind_eq_Some_conv
    split: if_splits option.splits processor_kind.splits prod.splits)

lemma request_ordinary:
  assumes "processClientRequest now r container s = Some s'" "ordinary s"
  shows "ordinary s'"
  using assms
  by (auto simp: processClientRequest_def onLocalRequest_def Allocation_onLocalRequest_def CADone_onLocalRequest_def
    Deallocation_onLocalRequest_def Update_onLocalRequest_def updateMapAndSendResponse_def Let_def bind_eq_Some_conv
    split: if_splits option.splits processor_kind.splits prod.splits)


lemma leaves_ordinary: "leaves t s s' \<Longrightarrow> answers_to t s' = answers_to t s"
  by (simp add: leaves_def)

fun asked :: "phase \<Rightarrow> bool" where
  "asked Nothing = False"
| "asked RemoteOnly = False"
| "asked _ = True"

text \<open>A message of the negotiation reaches the other side.\<close>

lemma side_inv_pop:
  assumes "side_inv master t c k ph other s" "ng_tube s = n # ns" "n_tag n = t" "messages_read other' = Suc (messages_read other)"
  shows "side_inv master t c k ph other' (s\<lparr>ng_tube := ns\<rparr>)"
proof -
  obtain x where x: "master \<longrightarrow> x = c" "map message (sent_by t s) = drop (messages_read other) (messages_sent x c ph)"
    using assms(1) by (auto simp: side_inv_def)
  have "sent_by t s = n # sent_by t (s\<lparr>ng_tube := ns\<rparr>)"
    using assms(2,3) by (simp add: sent_by_def)
  then have "map message (sent_by t (s\<lparr>ng_tube := ns\<rparr>)) = tl (drop (messages_read other) (messages_sent x c ph))"
    "drop (messages_read other) (messages_sent x c ph) \<noteq> []"
    using x(2) by (metis list.sel(3) list.simps(9)) (use x(2) \<open>sent_by t s = _\<close> in auto)
  moreover have "length (messages_sent x c ph) = length (messages_sent c c ph)"
    by (cases ph) simp_all
  ultimately have "map message (sent_by t (s\<lparr>ng_tube := ns\<rparr>)) = drop (messages_read other') (messages_sent x c ph)"
    "messages_read other' \<le> length (messages_sent c c ph)"
    using assms(4) by (simp_all add: tl_drop drop_Suc)
  then show ?thesis
    using assms(1) x(1) by (auto simp: side_inv_def)
qed

lemma deliver_mine:
  assumes from_inv: "side_inv m1 t1 c k1 i j s1" and to_inv: "side_inv m2 t2 c k2 j i s2"
    and n: "ng_tube s1 = n # ns" "n_tag n = t1" and t2: "t2 = getComplementingTag t1" "m2 = (\<not> m1)"
  shows "\<exists>j' s2'. processTubeNotification now n s2 = Some s2' \<and> side_inv m1 t1 c k1 i j' (s1\<lparr>ng_tube := ns\<rparr>)
    \<and> side_inv m2 t2 c k2 j' i s2' \<and> asked j' = asked j"
proof -
  obtain x where x: "m1 \<longrightarrow> x = c" "map message (sent_by t1 s1) = drop (messages_read j) (messages_sent x c i)"
    using from_inv by (auto simp: side_inv_def)
  have "hd (map message (sent_by t1 s1)) = message n" "map message (sent_by t1 s1) \<noteq> []"
    using n by (simp_all add: sent_by_def)
  then have msg: "message n = hd (drop (messages_read j) (messages_sent x c i))" "drop (messages_read j) (messages_sent x c i) \<noteq> []"
    using x(2) by simp_all
  have read: "messages_read i \<le> length (messages_sent c c j)"
    using to_inv by (simp add: side_inv_def)
  have tag: "getComplementingTag (n_tag n) = t2"
    using n(2) t2(1) by simp
  consider (first) "j \<in> {Nothing, LocalOnly}" "message n = (NOTIFICATIONTTYPE_ALLOCATE, x)"
    | (second) "j = Checking" "message n = (NOTIFICATIONTTYPE_CHECK_MAP, c)"
    using msg read by (cases i; cases j) auto
  then show ?thesis
  proof cases
    case first
    then obtain s2' where "processTubeNotification now n s2 = Some s2'" "side_inv m2 t2 c k2 (after_allocate j) i s2'"
      using side_allocate [OF to_inv first(1) tag] x(1) t2(2) by (auto simp: message_def)
    moreover have "messages_read (after_allocate j) = Suc (messages_read j)" "asked (after_allocate j) = asked j"
      using first(1) by auto
    ultimately show ?thesis
      using side_inv_pop [OF from_inv n] by blast
  next
    case second
    then obtain s2' where "processTubeNotification now n s2 = Some s2'" "side_inv m2 t2 c k2 Done i s2'"
      using side_check_map [of m2 t2 c k2 i s2 n] to_inv tag by (auto simp: message_def)
    then show ?thesis
      using side_inv_pop [OF from_inv n, of Done] second(1) by auto
  qed
qed

lemma deliver_other:
  assumes "side_inv m1 t1 c k1 i j s1" "side_inv m2 t2 c k2 j i s2"
    and "ng_tube s1 = n # ns" "n_tag n \<noteq> t1" "t2 = getComplementingTag t1" "t2 \<noteq> []"
    and "processTubeNotification now n s2 = Some s2'"
  shows "side_inv m1 t1 c k1 i j (s1\<lparr>ng_tube := ns\<rparr>)" "side_inv m2 t2 c k2 j i s2'"
proof -
  have "getComplementingTag (n_tag n) \<noteq> t2"
    using assms(4,5) by (metis getComplementingTag_involution)
  then have "leaves t2 s2 s2'"
    using notification_leaves assms(6,7) by blast
  then show "side_inv m2 t2 c k2 j i s2'"
    using assms(2) side_inv_leaves by blast
  have "sent_by t1 (s1\<lparr>ng_tube := ns\<rparr>) = sent_by t1 s1"
    using assms(3,4) by (simp add: sent_by_def)
  then show "side_inv m1 t1 c k1 i j (s1\<lparr>ng_tube := ns\<rparr>)"
    using assms(1) by (simp add: side_inv_def)
qed


section \<open>Whole runs\<close>

definition neg_inv ::
  "string \<Rightarrow> ResponseContainer \<Rightarrow> ResponseContainer \<Rightarrow> u32 \<Rightarrow> phase \<Rightarrow> phase \<Rightarrow> negotiator \<Rightarrow> negotiator \<Rightarrow> bool" where
  "neg_inv t ka kb c i j a b \<longleftrightarrow> side_inv True t c ka i j a \<and> side_inv False (getComplementingTag t) c kb j i b
     \<and> ordinary a \<and> ordinary b"

text \<open>
  The clients \<^verbatim>\<open>ka\<close> and \<^verbatim>\<open>kb\<close> ask for the channel of the tag, once each; every other request is about other
  tags, and no client gives up.
\<close>

fun asks_for :: "side \<Rightarrow> string \<Rightarrow> neg_event \<Rightarrow> bool" where
  "asks_for sd t (Asks sd' now reqId r dirId) \<longleftrightarrow> sd' = sd \<and> r_tag r = t"
| "asks_for sd t (Delivers sd' now) \<longleftrightarrow> False"

fun good_event :: "string \<Rightarrow> ResponseContainer \<Rightarrow> ResponseContainer \<Rightarrow> neg_event \<Rightarrow> bool" where
  "good_event t ka kb (Asks sd now reqId r dirId) \<longleftrightarrow> r_type r \<noteq> REQUESTTYPE_INVALIDATE_TIMEDOUT_REQUEST
     \<and> (r_tag r = (if sd = Master then t else getComplementingTag t) \<longrightarrow> r_type r = REQUESTTYPE_ALLOCATE_CHANNEL
         \<and> (if sd = Master then ka else kb) = \<lparr>rc_clientID = dirId, rc_responseID = reqId\<rparr>)"
| "good_event t ka kb (Delivers sd now) \<longleftrightarrow> True"

lemma side_inv_other:
  "messages_read other = messages_read other' \<Longrightarrow> side_inv m t c k ph other s \<Longrightarrow> side_inv m t c k ph other' s"
  by (simp add: side_inv_def)

lemma slave_side_inv_channel:
  assumes "side_inv False t c k ph other s" "messages_read ph = 0"
  shows "side_inv False t c' k ph other s"
  using assms by (cases ph) (auto simp: side_inv_def)

lemma messages_read_after_request [simp]: "messages_read (after_request ph) = messages_read ph"
  by (cases ph) simp_all

lemma asked_after_request [simp]: "asked (after_request ph)"
  if "ph \<in> {Nothing, RemoteOnly}"
  using that by auto

lemma asked_iff: "\<not> asked ph \<longleftrightarrow> ph \<in> {Nothing, RemoteOnly}"
  by (cases ph) simp_all

lemma neg_step_inv:
  assumes inv: "neg_inv t ka kb c i j a b" and t: "t \<noteq> []" and step: "neg_step ev (a, b) = Some (a', b')"
    and good: "good_event t ka kb ev"
    and once: "asks_for Master t ev \<longrightarrow> \<not> asked i" "asks_for Slave (getComplementingTag t) ev \<longrightarrow> \<not> asked j"
  shows "\<exists>c' i' j'. neg_inv t ka kb c' i' j' a' b' \<and> (asked i' \<longleftrightarrow> asked i \<or> asks_for Master t ev)
    \<and> (asked j' \<longleftrightarrow> asked j \<or> asks_for Slave (getComplementingTag t) ev)"
proof -
  let ?t' = "getComplementingTag t"
  have A: "side_inv True t c ka i j a" "ordinary a" and B: "side_inv False ?t' c kb j i b" "ordinary b"
    using inv by (simp_all add: neg_inv_def)
  have t': "?t' \<noteq> []"
    using t by simp
  have ask: "Negotiator_OnAsyncRequest now reqId r dirId s =
      processClientRequest now r \<lparr>rc_clientID = dirId, rc_responseID = reqId\<rparr> s"
    if "r_type r \<noteq> REQUESTTYPE_INVALIDATE_TIMEDOUT_REQUEST" for now reqId r dirId s
    using that by (simp add: Negotiator_OnAsyncRequest_def)
  have receive: "NegotiatorTube_onDataReceived now n s = processTubeNotification now n s"
    "ordinary (s1\<lparr>ng_tube := ns\<rparr>)" if "ng_tube s1 = n # ns" "ordinary s1" for now n s s1 ns
    using that by (auto simp: NegotiatorTube_onDataReceived_def ordinary_def)
  show ?thesis
  proof (cases ev)
    case (Asks sd now reqId r dirId)
    let ?k = "\<lparr>rc_clientID = dirId, rc_responseID = reqId\<rparr>"
    have type: "r_type r \<noteq> REQUESTTYPE_INVALIDATE_TIMEDOUT_REQUEST"
      using good Asks by simp
    show ?thesis
    proof (cases sd)
      case Master
      have p: "processClientRequest now r ?k a = Some a'" "b' = b"
        using step Asks Master ask [OF type] by auto
      note ord = request_ordinary [OF p(1) A(2)]
      show ?thesis
      proof (cases "r_tag r = t")
        case True
        then have ph: "i \<in> {Nothing, RemoteOnly}" "r_type r = REQUESTTYPE_ALLOCATE_CHANNEL" "ka = ?k"
          using once(1) good Asks Master asked_iff by auto
        let ?c = "fst (getNextFreeChannelId (r_channelID r) (ng_map a))"
        have A': "side_inv True t ?c ka (after_request i) j a'"
          using side_request [OF A(1) ph(1) True ph(2), of ?c now] p(1) ph(3) by simp
        have "messages_read j = 0"
          using A(1) ph(1) by (auto simp: side_inv_def)
        then have "side_inv False ?t' ?c kb j (after_request i) b"
          using slave_side_inv_channel [OF B(1)] side_inv_other [of i "after_request i"] by simp
        then have "neg_inv t ka kb ?c (after_request i) j a' b'"
          using A' ord B(2) p(2) by (simp add: neg_inv_def)
        then show ?thesis
          using asked_after_request [OF ph(1)] Asks Master True by auto
      next
        case False
        have "neg_inv t ka kb c i j a' b'"
          using side_inv_leaves [OF A(1) request_leaves [OF p(1) False t]] B ord p(2) by (simp add: neg_inv_def)
        then show ?thesis
          using Asks Master False by auto
      qed
    next
      case Slave
      have p: "processClientRequest now r ?k b = Some b'" "a' = a"
        using step Asks Slave ask [OF type] by auto
      note ord = request_ordinary [OF p(1) B(2)]
      show ?thesis
      proof (cases "r_tag r = ?t'")
        case True
        then have ph: "j \<in> {Nothing, RemoteOnly}" "r_type r = REQUESTTYPE_ALLOCATE_CHANNEL" "kb = ?k"
          using once(2) good Asks Slave asked_iff by auto
        have B': "side_inv False ?t' c kb (after_request j) i b'"
          using side_request [OF B(1) ph(1) True ph(2), of c now] p(1) ph(3) by simp
        then have "neg_inv t ka kb c i (after_request j) a' b'"
          using side_inv_other [of j "after_request j"] A ord p(2) by (simp add: neg_inv_def)
        then show ?thesis
          using asked_after_request [OF ph(1)] Asks Slave True by auto
      next
        case False
        have "neg_inv t ka kb c i j a' b'"
          using side_inv_leaves [OF B(1) request_leaves [OF p(1) False t']] A ord p(2) by (simp add: neg_inv_def)
        then show ?thesis
          using Asks Slave False by auto
      qed
    qed
  next
    case (Delivers sd now)
    show ?thesis
    proof (cases sd)
      case Master
      show ?thesis
      proof (cases "ng_tube a")
        case Nil
        then show ?thesis
          using inv step Delivers Master by auto
      next
        case (Cons n ns)
        have p: "processTubeNotification now n b = Some b'" "a' = a\<lparr>ng_tube := ns\<rparr>"
          using step Delivers Master Cons receive(1) [OF Cons A(2)] by auto
        note ord = notification_ordinary [OF p(1) B(2)] receive(2) [OF Cons A(2)]
        show ?thesis
        proof (cases "n_tag n = t")
          case True
          then show ?thesis
            using deliver_mine [OF A(1) B(1) Cons True refl, of now] p ord Delivers by (auto simp: neg_inv_def)
        next
          case False
          then show ?thesis
            using deliver_other [OF A(1) B(1) Cons False refl t' p(1)] p(2) ord Delivers by (auto simp: neg_inv_def)
        qed
      qed
    next
      case Slave
      show ?thesis
      proof (cases "ng_tube b")
        case Nil
        then show ?thesis
          using inv step Delivers Slave by auto
      next
        case (Cons n ns)
        have p: "processTubeNotification now n a = Some a'" "b' = b\<lparr>ng_tube := ns\<rparr>"
          using step Delivers Slave Cons receive(1) [OF Cons B(2)] by auto
        note ord = notification_ordinary [OF p(1) A(2)] receive(2) [OF Cons B(2)]
        have tt: "t = getComplementingTag ?t'"
          by simp
        show ?thesis
        proof (cases "n_tag n = ?t'")
          case True
          then show ?thesis
            using deliver_mine [OF B(1) A(1) Cons True tt, of now] p ord Delivers by (auto simp: neg_inv_def)
        next
          case False
          then show ?thesis
            using deliver_other [OF B(1) A(1) Cons False tt t p(1)] p(2) ord Delivers by (auto simp: neg_inv_def)
        qed
      qed
    qed
  qed
qed

lemma neg_run_snoc:
  "neg_run (evs @ [ev]) s = (case neg_run evs s of None \<Rightarrow> None | Some s' \<Rightarrow> neg_step ev s')"
  by (induction evs arbitrary: s) (auto split: option.splits)

definition fresh_negotiator :: "bool \<Rightarrow> string \<Rightarrow> negotiator \<Rightarrow> bool" where
  "fresh_negotiator master t s \<longleftrightarrow> ng_isMaster s = master \<and> mine t s = [] \<and> ng_tube s = [] \<and> answers_to t s = []"

lemma fresh_neg_inv:
  "fresh_negotiator True t a \<Longrightarrow> fresh_negotiator False (getComplementingTag t) b \<Longrightarrow> neg_inv t ka kb c Nothing Nothing a b"
  by (auto simp: fresh_negotiator_def neg_inv_def side_inv_def sent_by_def ordinary_def)

lemma neg_run_inv:
  assumes "fresh_negotiator True t a0" "fresh_negotiator False (getComplementingTag t) b0" "t \<noteq> []"
  shows "neg_run evs (a0, b0) = Some (a, b) \<Longrightarrow> list_all (good_event t ka kb) evs \<Longrightarrow>
    length (filter (asks_for Master t) evs) \<le> 1 \<Longrightarrow> length (filter (asks_for Slave (getComplementingTag t)) evs) \<le> 1 \<Longrightarrow>
    \<exists>c i j. neg_inv t ka kb c i j a b \<and> (asked i \<longleftrightarrow> filter (asks_for Master t) evs \<noteq> [])
      \<and> (asked j \<longleftrightarrow> filter (asks_for Slave (getComplementingTag t)) evs \<noteq> [])"
proof (induction evs arbitrary: a b rule: rev_induct)
  case Nil
  then show ?case
    using fresh_neg_inv [OF assms(1,2)] by (metis asked.simps(1) filter.simps(1) neg_run.simps(1) option.inject prod.inject)
next
  case (snoc ev evs)
  then obtain a1 b1 where run: "neg_run evs (a0, b0) = Some (a1, b1)" "neg_step ev (a1, b1) = Some (a, b)"
    by (auto simp: neg_run_snoc split: option.splits)
  obtain c i j where inv: "neg_inv t ka kb c i j a1 b1" "asked i \<longleftrightarrow> filter (asks_for Master t) evs \<noteq> []"
    "asked j \<longleftrightarrow> filter (asks_for Slave (getComplementingTag t)) evs \<noteq> []"
    using snoc.IH [OF run(1)] snoc.prems by (auto split: if_splits)
  have "asks_for Master t ev \<longrightarrow> \<not> asked i" "asks_for Slave (getComplementingTag t) ev \<longrightarrow> \<not> asked j"
    using snoc.prems(3,4) inv(2,3) by auto
  from neg_step_inv [OF inv(1) assms(3) run(2) _ this] snoc.prems(2)
  obtain c' i' j' where "neg_inv t ka kb c' i' j' a b" "asked i' \<longleftrightarrow> asked i \<or> asks_for Master t ev"
    "asked j' \<longleftrightarrow> asked j \<or> asks_for Slave (getComplementingTag t) ev"
    by auto
  then show ?case
    using inv(2,3) by auto
qed


section \<open>Properties\<close>

text \<open>
  C11: the client on each side asks once for the channel of a tag and its complement. However the two requests, the
  messages between the negotiators and all negotiations of other tags interleave, both clients are answered with the same
  identifier, and once the messages of the negotiation have arrived both have been answered.
\<close>

theorem negotiation_agrees:
  assumes "neg_run evs (a0, b0) = Some (a, b)" "fresh_negotiator True t a0" "fresh_negotiator False (getComplementingTag t) b0"
    and "t \<noteq> []" "list_all (good_event t ka kb) evs"
    and "length (filter (asks_for Master t) evs) \<le> 1" "length (filter (asks_for Slave (getComplementingTag t)) evs) \<le> 1"
  shows "\<exists>c. map (\<lambda>r. (resp_container r, resp_channelID r)) (answers_to t a) \<in> {[], [(ka, c)]}
    \<and> map (\<lambda>r. (resp_container r, resp_channelID r)) (answers_to (getComplementingTag t) b) \<in> {[], [(kb, c)]}
    \<and> (list_ex (asks_for Master t) evs \<and> list_ex (asks_for Slave (getComplementingTag t)) evs
        \<and> sent_by t a = [] \<and> sent_by (getComplementingTag t) b = [] \<longrightarrow>
        answers_to t a \<noteq> [] \<and> answers_to (getComplementingTag t) b \<noteq> [])"
proof -
  obtain c i j where inv: "neg_inv t ka kb c i j a b" "asked i \<longleftrightarrow> filter (asks_for Master t) evs \<noteq> []"
    "asked j \<longleftrightarrow> filter (asks_for Slave (getComplementingTag t)) evs \<noteq> []"
    using neg_run_inv [OF assms(2-4,1,5-7)] by blast
  have A: "side_inv True t c ka i j a" and B: "side_inv False (getComplementingTag t) c kb j i b"
    using inv(1) by (simp_all add: neg_inv_def)
  have "i = Done \<and> j = Done" if "asked i" "asked j" "sent_by t a = []" "sent_by (getComplementingTag t) b = []"
    using that A B by (cases i; cases j) (auto simp: side_inv_def)
  then have "answers_to t a \<noteq> [] \<and> answers_to (getComplementingTag t) b \<noteq> []"
    if "list_ex (asks_for Master t) evs" "list_ex (asks_for Slave (getComplementingTag t)) evs"
      "sent_by t a = []" "sent_by (getComplementingTag t) b = []"
    using that inv(2,3) A B by (auto simp: side_inv_def filter_empty_conv list_ex_iff)
  then show ?thesis
    using A B by (intro exI [of _ c]) (auto simp: side_inv_def)
qed

definition sample_negotiator :: "bool \<Rightarrow> negotiator" where
  "sample_negotiator master =
     \<lparr>ng_map = Map_init, ng_processors = [], ng_isMaster = master, ng_tube = [], ng_responses = []\<rparr>"

definition sample_negotiation :: "neg_event list" where
  "sample_negotiation =
     [Asks Master 0 7 \<lparr>r_tag = ''a#SERVER'', r_channelID = 0, r_type = REQUESTTYPE_ALLOCATE_CHANNEL\<rparr> 1,
      Asks Slave 0 9 \<lparr>r_tag = ''a#CLIENT'', r_channelID = 0, r_type = REQUESTTYPE_ALLOCATE_CHANNEL\<rparr> 2,
      Delivers Master 1, Delivers Slave 1, Delivers Master 2, Delivers Slave 2]"

theorem negotiation_agrees_witness:
  "\<exists>a b. neg_run sample_negotiation (sample_negotiator True, sample_negotiator False) = Some (a, b)
    \<and> answers_to ''a#SERVER'' a \<noteq> [] \<and> answers_to ''a#CLIENT'' b \<noteq> []"
proof -
  have tag: "getComplementingTag ''a#SERVER'' = ''a#CLIENT''"
    using getComplementingTag_server [of "''a''"] by simp
  have "map_option (\<lambda>(a, b). (sent_by ''a#SERVER'' a, sent_by ''a#CLIENT'' b))
      (neg_run sample_negotiation (sample_negotiator True, sample_negotiator False)) = Some ([], [])"
    by code_simp
  then obtain a b where run: "neg_run sample_negotiation (sample_negotiator True, sample_negotiator False) = Some (a, b)"
    "sent_by ''a#SERVER'' a = []" "sent_by ''a#CLIENT'' b = []"
    by auto
  have "fresh_negotiator True ''a#SERVER'' (sample_negotiator True)"
    "fresh_negotiator False ''a#CLIENT'' (sample_negotiator False)"
    by (simp_all add: fresh_negotiator_def sample_negotiator_def mine_def answers_to_def)
  moreover have "list_all (good_event ''a#SERVER'' \<lparr>rc_clientID = 1, rc_responseID = 7\<rparr> \<lparr>rc_clientID = 2, rc_responseID = 9\<rparr>)
      sample_negotiation"
    "length (filter (asks_for Master ''a#SERVER'') sample_negotiation) = 1" "list_ex (asks_for Master ''a#SERVER'') sample_negotiation"
    "length (filter (asks_for Slave ''a#CLIENT'') sample_negotiation) = 1" "list_ex (asks_for Slave ''a#CLIENT'') sample_negotiation"
    by (simp_all add: sample_negotiation_def tag)
  ultimately have "answers_to ''a#SERVER'' a \<noteq> [] \<and> answers_to ''a#CLIENT'' b \<noteq> []"
    using negotiation_agrees [OF run(1), of "''a#SERVER''" "\<lparr>rc_clientID = 1, rc_responseID = 7\<rparr>" "\<lparr>rc_clientID = 2, rc_responseID = 9\<rparr>"]
      run(2,3) by (auto simp: tag)
  with run(1) show ?thesis
    by blast
qed

text \<open>
  The master takes an identifier without marking it as taken, which happens only when the channel is entered in
  the map. Two channels that are negotiated at the same time get the same identifier: requests of different
  tags, with no processor waiting for them, are announced with the same number.
\<close>

theorem identifier_given_twice:
  assumes "ng_isMaster s" "mine t1 s = []" "mine t2 s = []" "t1 \<noteq> t2" "t1 \<noteq> []" "t2 \<noteq> []" "0 < m_FreeChannelId (ng_map s)"
  shows "\<exists>s1 s2. Negotiator_OnAsyncRequest now1 id1 \<lparr>r_tag = t1, r_channelID = 0, r_type = REQUESTTYPE_ALLOCATE_CHANNEL\<rparr> k1 s = Some s1
    \<and> Negotiator_OnAsyncRequest now2 id2 \<lparr>r_tag = t2, r_channelID = 0, r_type = REQUESTTYPE_ALLOCATE_CHANNEL\<rparr> k2 s1 = Some s2
    \<and> (\<exists>c. map message (ng_tube s2) = map message (ng_tube s) @ [(NOTIFICATIONTTYPE_ALLOCATE, c), (NOTIFICATIONTTYPE_ALLOCATE, c)])"
proof -
  have one: "\<exists>s'. Negotiator_OnAsyncRequest now reqId \<lparr>r_tag = t, r_channelID = 0, r_type = REQUESTTYPE_ALLOCATE_CHANNEL\<rparr> k s = Some s'
      \<and> map message (ng_tube s') = map message (ng_tube s) @ [(NOTIFICATIONTTYPE_ALLOCATE, m_FreeChannelId (ng_map s))]
      \<and> ng_map s' = ng_map s \<and> ng_isMaster s' \<and> (\<forall>t'. t' \<noteq> t \<and> t' \<noteq> [] \<longrightarrow> mine t' s' = mine t' s)"
    if "ng_isMaster s" "mine t s = []" "0 < m_FreeChannelId (ng_map s)" for now reqId t k s
  proof -
    let ?r = "\<lparr>r_tag = t, r_channelID = 0, r_type = REQUESTTYPE_ALLOCATE_CHANNEL\<rparr>"
    have found: "obtainProcessor (matches_request ?r) NOTIFICATIONTTYPE_ALLOCATE s =
        Some (ng_processors s, new_Processor AllocationProcessor REQUESTTYPE_ALLOCATE_CHANNEL NOTIFICATIONTTYPE_ALLOCATE True, [])"
      using obtain_new [of t s "matches_request ?r"] that(1,2) matches_tag(2) [of ?r]
      by (simp add: createProcessorForType_def)
    have "\<exists>s'. Negotiator_OnAsyncRequest now reqId ?r k s = Some s'
        \<and> map message (ng_tube s') = map message (ng_tube s) @ [(NOTIFICATIONTTYPE_ALLOCATE, m_FreeChannelId (ng_map s))]
        \<and> ng_map s' = ng_map s \<and> ng_isMaster s'"
      using found that(1,3)
      by (simp add: Negotiator_OnAsyncRequest_def processClientRequest_def requestTypeToNotification_def onLocalRequest_def
        Allocation_onLocalRequest_def new_Processor_def Processor_onLocalRequest_def Let_def getNextFreeChannelId_def message_def
        sendNotification_def)
    then obtain s' where s': "Negotiator_OnAsyncRequest now reqId ?r k s = Some s'"
      "map message (ng_tube s') = map message (ng_tube s) @ [(NOTIFICATIONTTYPE_ALLOCATE, m_FreeChannelId (ng_map s))]"
      "ng_map s' = ng_map s" "ng_isMaster s'"
      by blast
    moreover have "mine t' s' = mine t' s" if "t' \<noteq> t" "t' \<noteq> []" for t'
      using request_leaves [of now ?r _ s s' t'] s'(1) that by (auto simp: Negotiator_OnAsyncRequest_def leaves_def)
    ultimately show ?thesis
      using s' by blast
  qed
  obtain s1 where s1: "Negotiator_OnAsyncRequest now1 id1 \<lparr>r_tag = t1, r_channelID = 0, r_type = REQUESTTYPE_ALLOCATE_CHANNEL\<rparr> k1 s = Some s1"
    "map message (ng_tube s1) = map message (ng_tube s) @ [(NOTIFICATIONTTYPE_ALLOCATE, m_FreeChannelId (ng_map s))]"
    "ng_map s1 = ng_map s" "ng_isMaster s1" "mine t2 s1 = []"
    using one [OF assms(1,2,7)] assms(3,4,6) by metis
  obtain s2 where s2: "Negotiator_OnAsyncRequest now2 id2 \<lparr>r_tag = t2, r_channelID = 0, r_type = REQUESTTYPE_ALLOCATE_CHANNEL\<rparr> k2 s1 = Some s2"
    "map message (ng_tube s2) = map message (ng_tube s1) @ [(NOTIFICATIONTTYPE_ALLOCATE, m_FreeChannelId (ng_map s1))]"
    using one [OF s1(4,5)] assms(7) s1(3) by metis
  show ?thesis
    using s1 s2 by auto
qed

theorem identifier_given_twice_witness:
  "\<exists>s1 s2 c. Negotiator_OnAsyncRequest 0 1 \<lparr>r_tag = ''a'', r_channelID = 0, r_type = REQUESTTYPE_ALLOCATE_CHANNEL\<rparr> 1
      (sample_negotiator True) = Some s1
    \<and> Negotiator_OnAsyncRequest 0 2 \<lparr>r_tag = ''b'', r_channelID = 0, r_type = REQUESTTYPE_ALLOCATE_CHANNEL\<rparr> 1 s1 = Some s2
    \<and> map message (ng_tube s2) = [(NOTIFICATIONTTYPE_ALLOCATE, c), (NOTIFICATIONTTYPE_ALLOCATE, c)]"
  using identifier_given_twice [of "sample_negotiator True" "''a''" "''b''" 0 1 1 0 2 1]
  by (simp add: sample_negotiator_def mine_def Map_init_def CHANNEL_ID_START_NUMBER_def)

end
