(* ===== verification/AgentProxy.thy ===== *)
theory AgentProxy
  imports L1Stub
begin

text \<open>
  The client library's side of the connectivity agent (\<^verbatim>\<open>common/private/CConnectivityAgentProxy.cpp\<close>,
  \<^verbatim>\<open>API.cpp\<close>, \<^verbatim>\<open>CallbackWrappers.hpp\<close>). A call that blocks is split at its locks and waits into the critical
  sections it consists of; the theory ProxyThreads interleaves them. The outcome of an IPC request (its
  error and the bytes of its response) is an argument. An observer is its address.
\<close>

section \<open>State\<close>

record tChannelInfo =
  ch_mType :: u32
  ch_mpClient :: "addr option"
  mChannelBuffer :: Buffer

record AllocateRequestInfo =
  ar_mType :: u32
  ar_mpClient :: "addr option"
  mRequestDone :: bool
  mResult :: ErrorCode

datatype CCallbackWrapper =
    CDataReceivedCallback addr u32 u32
  | CBufferOverflowCallback addr u32
  | CChannelDeletedCallback addr u32
  | CConnectionLostCallback addr

record proxy =
  mChannelRegistry :: "u32 \<rightharpoonup> tChannelInfo"
  mChannelOnDeallocSet :: "u32 set"
  mAllocateRequestMap :: "u32 \<rightharpoonup> AllocateRequestInfo"
  mDeallocateRequestResultMap :: "u32 \<rightharpoonup> CDataAccessor"
  mCallbacksQueue :: "CCallbackWrapper list"
  mpIpc :: bool
  proxy_msgId :: u32

definition proxy_init :: "bool \<Rightarrow> proxy" where
  "proxy_init connected = \<lparr>mChannelRegistry = Map.empty, mChannelOnDeallocSet = {}, mAllocateRequestMap = Map.empty,
     mDeallocateRequestResultMap = Map.empty, mCallbacksQueue = [], mpIpc = connected, proxy_msgId = 0\<rparr>"

definition proxy_nextMsgId :: "proxy \<Rightarrow> u32 \<times> proxy" where
  "proxy_nextMsgId p = (proxy_msgId p, p\<lparr>proxy_msgId := proxy_msgId p + 2\<rparr>)"

definition connectIpcIfNecessary :: "proxy \<Rightarrow> ErrorCode" where
  "connectIpcIfNecessary p = (if mpIpc p then NO_ERROR else ERROR_OTHER)"

section \<open>Callbacks\<close>

text \<open>The constructor of a callback asserts that there is an observer.\<close>

definition pushCallbackToQueue :: "(addr \<Rightarrow> CCallbackWrapper) \<Rightarrow> addr option \<Rightarrow> proxy \<Rightarrow> proxy option" where
  "pushCallbackToQueue cb client p =
     (case client of None \<Rightarrow> None | Some a \<Rightarrow> Some (p\<lparr>mCallbacksQueue := mCallbacksQueue p @ [cb a]\<rparr>))"

definition popCallbackFromQueue :: "proxy \<Rightarrow> CCallbackWrapper option \<times> proxy" where
  "popCallbackFromQueue p =
     (case mCallbacksQueue p of [] \<Rightarrow> (None, p) | c # cs \<Rightarrow> (Some c, p\<lparr>mCallbacksQueue := cs\<rparr>))"

section \<open>Allocating a channel\<close>

text \<open>The call up to the look into the registry: it returns at once, or knows whether the channel is unknown.\<close>

definition proxy_allocate_check :: "u32 \<Rightarrow> addr option \<Rightarrow> proxy \<Rightarrow> ErrorCode + bool" where
  "proxy_allocate_check channel observer p =
     (let res = connectIpcIfNecessary p
      in if \<not> isNoError res then Inl res
         else if 0 < channel \<and> channel \<le> 0xFFFF \<and> observer \<noteq> None then Inr (mChannelRegistry p channel = None)
         else Inl ERROR_OTHER)"

text \<open>
  The entry in the table of requests. An entry that is there already sets the result
  \<^verbatim>\<open>ERROR_ALLOCATION_IN_PROGRESS\<close>, which the branch of the known channel overwrites.
\<close>

definition proxy_allocate_enter :: "u32 \<Rightarrow> u32 \<Rightarrow> addr option \<Rightarrow> bool \<Rightarrow> proxy \<Rightarrow> bool \<times> ErrorCode \<times> proxy" where
  "proxy_allocate_enter prio channel observer channel_unknown p =
     (if \<not> channel_unknown then (False, ERROR_OTHER, p)
      else if mAllocateRequestMap p channel \<noteq> None then (False, ERROR_ALLOCATION_IN_PROGRESS, p)
      else (True, ERROR_OTHER, p\<lparr>mAllocateRequestMap := (mAllocateRequestMap p)(channel \<mapsto>
        \<lparr>ar_mType = prio, ar_mpClient = observer, mRequestDone = False, mResult = ERROR_OTHER\<rparr>)\<rparr>))"

definition proxy_allocate_request :: "endian \<Rightarrow> u32 \<Rightarrow> u32 \<Rightarrow> u8 list option" where
  "proxy_allocate_request e prio channel =
     copyToRawArray e (accessor_setData (store e 4 prio) (setOpCode E_ALLOCATE_CHANNEL (setChannelID channel accessor_new)))"

text \<open>Both sections and the request: the call returns, or has the request's bytes and identifier.\<close>

definition proxy_allocate_send ::
  "endian \<Rightarrow> u32 \<Rightarrow> u32 \<Rightarrow> addr option \<Rightarrow> bool \<Rightarrow> proxy \<Rightarrow> ((ErrorCode + u32 \<times> u8 list) \<times> proxy) option" where
  "proxy_allocate_send e prio channel observer channel_unknown p =
     (let (channel_unknown, result, p) = proxy_allocate_enter prio channel observer channel_unknown p
      in if channel_unknown
         then do {
           buf \<leftarrow> proxy_allocate_request e prio channel;
           let (msgid, p) = proxy_nextMsgId p;
           Some (Inr (msgid, buf), p) }
         else (let result = ERROR_CHANNEL_BUSY in Some (Inl result, p)))"

text \<open>
  The answer to the request: an error ends the call, a response carries its error code, and without
  a response (\<^verbatim>\<open>Inr ()\<close>) the call goes on to wait.
\<close>

definition proxy_allocate_answer ::
  "endian \<Rightarrow> u32 \<Rightarrow> ErrorCode \<Rightarrow> u8 list \<Rightarrow> proxy \<Rightarrow> ((ErrorCode + unit) \<times> proxy) option" where
  "proxy_allocate_answer e channel err resp p =
     (if \<not> isNoError err
      then Some (Inl ERROR_REQUEST_FAILED, p\<lparr>mAllocateRequestMap := (mAllocateRequestMap p)(channel := None)\<rparr>)
      else if resp \<noteq> []
      then do {
        responseDA \<leftarrow> accessor_fromRaw e resp;
        Some (Inl (mErrorCode responseDA), p\<lparr>mAllocateRequestMap := (mAllocateRequestMap p)(channel := None)\<rparr>) }
      else Some (Inr (), p))"

text \<open>One turn of the waiting loop: \<^verbatim>\<open>Inr ()\<close> waits for the next broadcast.\<close>

definition proxy_allocate_poll :: "u32 \<Rightarrow> proxy \<Rightarrow> (ErrorCode + unit) \<times> proxy" where
  "proxy_allocate_poll channel p =
     (case mAllocateRequestMap p channel of
        None \<Rightarrow> (Inl ERROR_NOT_FOUND, p)
      | Some info \<Rightarrow>
          if mRequestDone info
          then (Inl (mResult info), p\<lparr>mAllocateRequestMap := (mAllocateRequestMap p)(channel := None)\<rparr>)
          else (Inr (), p))"

text \<open>\<^verbatim>\<open>operator[]\<close> on the registry: an absent entry is made with a null observer and an empty buffer.\<close>

definition registry_entry :: "u32 \<Rightarrow> proxy \<Rightarrow> tChannelInfo" where
  "registry_entry channel p = (case mChannelRegistry p channel of
     Some info \<Rightarrow> info | None \<Rightarrow> \<lparr>ch_mType = 0, ch_mpClient = None, mChannelBuffer = Buffer_new\<rparr>)"

definition receiveAllocateChannelResponse :: "CDataAccessor \<Rightarrow> proxy \<Rightarrow> proxy option" where
  "receiveAllocateChannelResponse accessor p =
     (let channel = mChannelID accessor; error = mErrorCode accessor
      in case mAllocateRequestMap p channel of
           None \<Rightarrow> Some p
         | Some info \<Rightarrow>
            (let info = info\<lparr>mRequestDone := True, mResult := error\<rparr>;
                 p = p\<lparr>mAllocateRequestMap := (mAllocateRequestMap p)(channel \<mapsto> info)\<rparr>
             in if isNoError error
                then do {
                  let entry = registry_entry channel p;
                  buf \<leftarrow> reserveSize (of_nat MAX_SIZE) (mChannelBuffer entry);
                  Some (p\<lparr>mChannelRegistry := (mChannelRegistry p)(channel \<mapsto>
                    entry\<lparr>ch_mType := ar_mType info, ch_mpClient := ar_mpClient info, mChannelBuffer := buf\<rparr>)\<rparr>) }
                else Some p))"

section \<open>Closing a channel\<close>

text \<open>
  The entry leaves the registry, and the caller keeps it (its buffer goes with it, the entry has
  forgotten it) while the request is under way.
\<close>

definition proxy_deallocate_begin ::
  "endian \<Rightarrow> u32 \<Rightarrow> proxy \<Rightarrow> ((ErrorCode + u32 \<times> u8 list \<times> tChannelInfo) \<times> proxy) option" where
  "proxy_deallocate_begin e channel p =
     (let res = connectIpcIfNecessary p
      in if \<not> isNoError res then Some (Inl res, p)
         else case mChannelRegistry p channel of
           None \<Rightarrow> Some (Inl ERROR_NOT_FOUND, p)
         | Some info \<Rightarrow> do {
             let p = p\<lparr>mChannelRegistry := (mChannelRegistry p)(channel := None),
               mChannelOnDeallocSet := insert channel (mChannelOnDeallocSet p)\<rparr>;
             buf \<leftarrow> copyToRawArray e (setOpCode E_DEALLOCATE_CHANNEL (setChannelID channel accessor_new));
             let (msgid, p) = proxy_nextMsgId p;
             Some (Inr (msgid, buf, info), p) })"

text \<open>The waiting loop: it takes the response out of the table when there is one.\<close>

definition proxy_deallocate_poll :: "u32 \<Rightarrow> proxy \<Rightarrow> (CDataAccessor \<times> proxy) option" where
  "proxy_deallocate_poll channel p =
     (case mDeallocateRequestResultMap p channel of
        None \<Rightarrow> None
      | Some responseDA \<Rightarrow> Some (responseDA, p\<lparr>mDeallocateRequestResultMap := (mDeallocateRequestResultMap p)(channel := None)\<rparr>))"

definition deallocate_result :: "endian \<Rightarrow> u32 \<Rightarrow> CDataAccessor \<Rightarrow> ErrorCode option" where
  "deallocate_result e channel responseDA =
     (if mpData responseDA \<noteq> None
      then if mOperation responseDA = E_DEALLOCATE_CHANNEL_RESP \<and> mChannelID responseDA = channel
        then load_data_word e responseDA
        else Some ERROR_REQUEST_FAILED
      else Some NO_ERROR)"

text \<open>The end of the call: a failed closing gives the channel its entry and buffer back.\<close>

definition proxy_deallocate_end :: "u32 \<Rightarrow> tChannelInfo \<Rightarrow> ErrorCode \<Rightarrow> proxy \<Rightarrow> ErrorCode \<times> proxy" where
  "proxy_deallocate_end channel info result p =
     (let (result, p) =
        (if \<not> isNoError result
         then if mChannelRegistry p channel \<noteq> None then (ERROR_NOT_FOUND, p)
           else (result, p\<lparr>mChannelRegistry := (mChannelRegistry p)(channel \<mapsto> info)\<rparr>)
         else (result, p))
      in (result, p\<lparr>mChannelOnDeallocSet := mChannelOnDeallocSet p - {channel}\<rparr>))"

section \<open>Closing a channel of another process\<close>

definition proxy_forcibly_begin :: "endian \<Rightarrow> u32 \<Rightarrow> proxy \<Rightarrow> ((u32 \<times> u8 list) option \<times> proxy) option" where
  "proxy_forcibly_begin e channel p =
     (if \<not> isNoError (connectIpcIfNecessary p) then Some (None, p)
      else do {
        let p = p\<lparr>mChannelOnDeallocSet := insert channel (mChannelOnDeallocSet p)\<rparr>;
        buf \<leftarrow> copyToRawArray e (setOpCode E_DEALLOCATE_CHANNEL_WATCHDOG (setChannelID channel accessor_new));
        let (msgid, p) = proxy_nextMsgId p;
        Some (Some (msgid, buf), p) })"

text \<open>After the request: \<^verbatim>\<open>True\<close> goes on to wait. A failed request leaves the channel in the set.\<close>

definition proxy_forcibly_answer :: "endian \<Rightarrow> u32 \<Rightarrow> ErrorCode \<Rightarrow> u8 list \<Rightarrow> proxy \<Rightarrow> (bool \<times> proxy) option" where
  "proxy_forcibly_answer e channel err resp p =
     (if \<not> isNoError err then Some (False, p)
      else do {
        responseInitial \<leftarrow> accessor_fromRaw e resp;
        Some (if mErrorCode responseInitial = ERROR_NOT_FOUND
          then (False, p\<lparr>mChannelOnDeallocSet := mChannelOnDeallocSet p - {channel}\<rparr>)
          else (True, p)) })"

definition proxy_forcibly_end :: "u32 \<Rightarrow> proxy \<Rightarrow> proxy" where
  "proxy_forcibly_end channel p = p\<lparr>mChannelOnDeallocSet := mChannelOnDeallocSet p - {channel}\<rparr>"

section \<open>Messages of the agent\<close>

definition receiveDataNotification :: "CDataAccessor \<Rightarrow> proxy \<Rightarrow> proxy option" where
  "receiveDataNotification accessor p =
     (let channel = mChannelID accessor; data_size = mDataSize accessor
      in case mChannelRegistry p channel of
           None \<Rightarrow> Some p
         | Some info \<Rightarrow>
             if allocated_size (mChannelBuffer info) - filled_size (mChannelBuffer info) < data_size
             then pushCallbackToQueue (\<lambda>a. CBufferOverflowCallback a channel) (ch_mpClient info) p
             else do {
               bs \<leftarrow> accessor_bytes accessor;
               (_, buf) \<leftarrow> appendData bs (mChannelBuffer info);
               pushCallbackToQueue (\<lambda>a. CDataReceivedCallback a channel data_size) (ch_mpClient info)
                 (p\<lparr>mChannelRegistry := (mChannelRegistry p)(channel \<mapsto> info\<lparr>mChannelBuffer := buf\<rparr>)\<rparr>) })"

definition channelDeletedNotification :: "CDataAccessor \<Rightarrow> proxy \<Rightarrow> proxy option" where
  "channelDeletedNotification accessor p =
     (let channel = mChannelID accessor
      in case mChannelRegistry p channel of
           None \<Rightarrow> Some (if channel \<in> mChannelOnDeallocSet p
             then p\<lparr>mDeallocateRequestResultMap := (mDeallocateRequestResultMap p)(channel \<mapsto> accessor_new)\<rparr> else p)
         | Some info \<Rightarrow> do {
             p \<leftarrow> pushCallbackToQueue (\<lambda>a. CChannelDeletedCallback a channel) (ch_mpClient info) p;
             Some (p\<lparr>mChannelRegistry := (mChannelRegistry p)(channel := None)\<rparr>) })"

text \<open>\<^verbatim>\<open>OnDisconnected\<close> walks the registry in the order of its keys.\<close>

definition registry_keys :: "proxy \<Rightarrow> u32 list" where
  "registry_keys p = filter (\<lambda>c. mChannelRegistry p c \<noteq> None) (map of_nat [0..<0x10000])"

fun push_lost :: "tChannelInfo list \<Rightarrow> proxy \<Rightarrow> proxy option" where
  "push_lost [] p = Some p"
| "push_lost (info # infos) p = do {
     p \<leftarrow> pushCallbackToQueue CConnectionLostCallback (ch_mpClient info) p;
     push_lost infos p }"

definition proxy_OnDisconnected :: "proxy \<Rightarrow> proxy option" where
  "proxy_OnDisconnected p = push_lost (map (the \<circ> mChannelRegistry p) (registry_keys p)) p"

definition proxy_OnAsyncRequest :: "endian \<Rightarrow> u8 list \<Rightarrow> proxy \<Rightarrow> proxy option" where
  "proxy_OnAsyncRequest e pPayload p = do {
     responseDA \<leftarrow> accessor_fromRaw e pPayload;
     let channel = mChannelID responseDA;
     let type = mOperation responseDA;
     (if type = E_ALLOCATE_CHANNEL_RESP then receiveAllocateChannelResponse responseDA p
      else if type = E_DEALLOCATE_CHANNEL_RESP
      then do {
        a \<leftarrow> accessor_assign accessor_new responseDA;
        Some (p\<lparr>mDeallocateRequestResultMap := (mDeallocateRequestResultMap p)(channel \<mapsto> a)\<rparr>) }
      else if type = E_RECEIVE_DATA_NTF then receiveDataNotification responseDA p
      else if type = E_DEALLOCATE_CHANNEL_NTF then channelDeletedNotification responseDA p
      else if type = E_CONNECTION_LOST_NTF then proxy_OnDisconnected p
      else Some p) }"

section \<open>Data\<close>

text \<open>
  \<^verbatim>\<open>receiveData\<close> into memory of \<^verbatim>\<open>max_size\<close> bytes: the error, the bytes taken (\<^verbatim>\<open>received_size\<close> of them), and
  the rest moved to the front of the channel's buffer.
\<close>

definition buffer_take :: "u32 \<Rightarrow> Buffer \<Rightarrow> (u8 list \<times> Buffer) option" where
  "buffer_take max_size b = do {
     d \<leftarrow> data b;
     let n = unat (filled_size b);
     cassert (n \<le> length d);
     Some (if max_size < filled_size b
       then (take (unat max_size) d,
         b\<lparr>data := Some (overwrite 0 (drop (unat max_size) (take n d)) d), filled_size := filled_size b - max_size\<rparr>)
       else (take n d, b\<lparr>data := Some (overwrite 0 (replicate n 0) d), filled_size := 0\<rparr>)) }"

definition proxy_receiveData :: "u32 \<Rightarrow> u32 \<Rightarrow> proxy \<Rightarrow> (ErrorCode \<times> u8 list \<times> proxy) option" where
  "proxy_receiveData channel max_size p =
     (case mChannelRegistry p channel of
        None \<Rightarrow> Some (ERROR_NOT_FOUND, [], p)
      | Some info \<Rightarrow>
          if filled_size (mChannelBuffer info) = 0 then Some (ERROR_NOT_FOUND, [], p)
          else do {
            (bs, buf) \<leftarrow> buffer_take max_size (mChannelBuffer info);
            Some (NO_ERROR, bs, p\<lparr>mChannelRegistry := (mChannelRegistry p)(channel \<mapsto> info\<lparr>mChannelBuffer := buf\<rparr>)\<rparr>) })"

definition proxy_getFreeSize :: "u32 \<Rightarrow> proxy \<Rightarrow> ErrorCode \<times> u32 option" where
  "proxy_getFreeSize channel p =
     (case mChannelRegistry p channel of
        Some info \<Rightarrow> (NO_ERROR, Some (allocated_size (mChannelBuffer info) - filled_size (mChannelBuffer info)))
      | None \<Rightarrow> (ERROR_NOT_FOUND, None))"

text \<open>
  \<^verbatim>\<open>sendData\<close> of the bytes \<^verbatim>\<open>bs\<close>. The message is copied into an array of 0xFFFF bytes before its size is
  looked at; a message that does not fit has no result. \<^verbatim>\<open>ipc\<close> is the outcome of the asynchronous request of
  the message.
\<close>

definition proxy_sendData ::
  "endian \<Rightarrow> u32 \<Rightarrow> u8 list \<Rightarrow> (u32 \<Rightarrow> u8 list \<Rightarrow> ErrorCode) \<Rightarrow> proxy \<Rightarrow> (ErrorCode \<times> u8 list option \<times> proxy) option" where
  "proxy_sendData e channel bs ipc p =
     (let sz = of_nat (length bs) :: u32; res = connectIpcIfNecessary p
      in if \<not> isNoError res then Some (res, None, p)
         else if 0 <s sz \<and> sz < 0xFFFF
         then if mChannelRegistry p channel \<noteq> None
           then do {
             let requestDA = accessor_setData bs (setOpCode E_SEND_DATA (setChannelID channel accessor_new));
             buf \<leftarrow> copyToRawArray e requestDA;
             cassert (length buf \<le> 0xFFFF);
             let (msgid, p) = proxy_nextMsgId p;
             let err = ipc msgid buf;
             Some (if isNoError err then (NO_ERROR, Some buf, p) else (ERROR_REQUEST_FAILED, None, p)) }
           else Some (ERROR_NOT_FOUND, None, p)
         else Some (ERROR_INCONSISTENT_DATA, None, p))"

end
