(* ===== verification/ProxyData.thy ===== *)
theory ProxyData
  imports AgentProxy
begin

text \<open>
  The data of a client's channels. What the readers of several byte streams may rely on is the locale
  \<^verbatim>\<open>byte_streams\<close>: blocks that fit are appended, others are refused whole, a read takes from the front, and
  one stream does not touch another. The registry of the proxy, written by raw messages of the agent and
  read by \<^verbatim>\<open>receiveData\<close>, is its interpretation.
\<close>

section \<open>The reference: bounded queues of bytes\<close>

datatype ('k, 'b) io = Put 'k "'b list" | Get 'k nat

text \<open>What stream \<^verbatim>\<open>k\<close> accepts, what is read from it, and what stays in it.\<close>

fun fifo_run :: "nat \<Rightarrow> 'k \<Rightarrow> ('k, 'b) io list \<Rightarrow> 'b list \<Rightarrow> 'b list \<times> 'b list \<times> 'b list" where
  "fifo_run cap k [] q = ([], [], q)"
| "fifo_run cap k (Put j bs # ops) q =
     (if j = k \<and> length q + length bs \<le> cap
      then (let (acc, out, rest) = fifo_run cap k ops (q @ bs) in (bs @ acc, out, rest))
      else fifo_run cap k ops q)"
| "fifo_run cap k (Get j n # ops) q =
     (if j = k then (let (acc, out, rest) = fifo_run cap k ops (drop n q) in (acc, take n q @ out, rest))
      else fifo_run cap k ops q)"

lemma fifo_run_conserves: "fifo_run cap k ops q = (acc, out, rest) \<Longrightarrow> q @ acc = out @ rest"
  by (induction cap k ops q arbitrary: acc out rest rule: fifo_run.induct)
    (auto split: if_splits prod.splits simp flip: append_assoc, metis append.assoc append_take_drop_id)

lemma fifo_run_bounded: "fifo_run cap k ops q = (acc, out, rest) \<Longrightarrow> length q \<le> cap \<Longrightarrow> length rest \<le> cap"
  by (induction cap k ops q arbitrary: acc out rest rule: fifo_run.induct) (auto split: if_splits prod.splits)

text \<open>A sequence of operations on an implementation: the blocks read, each with its stream.\<close>

fun io_run :: "('k \<Rightarrow> 'b list \<Rightarrow> 's \<Rightarrow> 's option) \<Rightarrow> ('k \<Rightarrow> nat \<Rightarrow> 's \<Rightarrow> ('b list \<times> 's) option) \<Rightarrow>
  ('k, 'b) io list \<Rightarrow> 's \<Rightarrow> (('k \<times> 'b list) list \<times> 's) option" where
  "io_run put get [] s = Some ([], s)"
| "io_run put get (Put k bs # ops) s = (case put k bs s of None \<Rightarrow> None | Some s \<Rightarrow> io_run put get ops s)"
| "io_run put get (Get k n # ops) s =
     (case get k n s of
        None \<Rightarrow> None
      | Some (bs, s) \<Rightarrow> map_option (\<lambda>(outs, s). ((k, bs) # outs, s)) (io_run put get ops s))"

definition read_from :: "'k \<Rightarrow> ('k \<times> 'b list) list \<Rightarrow> 'b list" where
  "read_from k outs = concat (map snd (filter (\<lambda>x. fst x = k) outs))"

lemma read_from_simps [simp]:
  "read_from k [] = []" "read_from k ((j, bs) # outs) = (if j = k then bs @ read_from k outs else read_from k outs)"
  by (simp_all add: read_from_def)

fun io_ok :: "('k, 'b) io \<Rightarrow> bool" where
  "io_ok (Put k bs) \<longleftrightarrow> length bs + 16 < 2 ^ 32"
| "io_ok (Get k n) \<longleftrightarrow> n < 2 ^ 32"

locale byte_streams =
  fixes put :: "'k \<Rightarrow> 'b list \<Rightarrow> 's \<Rightarrow> 's option"
    and get :: "'k \<Rightarrow> nat \<Rightarrow> 's \<Rightarrow> ('b list \<times> 's) option"
    and inv :: "'s \<Rightarrow> bool"
    and open_stream :: "'k \<Rightarrow> 's \<Rightarrow> bool"
    and stored :: "'k \<Rightarrow> 's \<Rightarrow> 'b list"
    and cap :: nat
  assumes put_law: "inv s \<Longrightarrow> length bs + 16 < 2 ^ 32 \<Longrightarrow>
      \<exists>s'. put k bs s = Some s' \<and> inv s' \<and> (\<forall>j. open_stream j s' = open_stream j s)
        \<and> (\<forall>j. stored j s' = (if j = k \<and> open_stream k s \<and> length (stored k s) + length bs \<le> cap
              then stored j s @ bs else stored j s))"
    and get_law: "inv s \<Longrightarrow> n < 2 ^ 32 \<Longrightarrow>
      \<exists>s'. get k n s = Some (if open_stream k s then take n (stored k s) else [], s') \<and> inv s'
        \<and> (\<forall>j. open_stream j s' = open_stream j s)
        \<and> (\<forall>j. stored j s' = (if j = k \<and> open_stream k s then drop n (stored j s) else stored j s))"
begin

lemma run_refines:
  assumes "inv s" "list_all io_ok ops"
  shows "\<exists>outs s'. io_run put get ops s = Some (outs, s') \<and> inv s' \<and> (\<forall>k. open_stream k s' = open_stream k s)
    \<and> (\<forall>k. open_stream k s \<longrightarrow> (\<exists>acc. fifo_run cap k ops (stored k s) = (acc, read_from k outs, stored k s')))"
  using assms
proof (induction ops arbitrary: s)
  case (Cons op ops)
  show ?case
  proof (cases op)
    case (Put j bs)
    obtain s1 where s1: "put j bs s = Some s1" "inv s1" "\<forall>i. open_stream i s1 = open_stream i s"
      "\<forall>i. stored i s1 = (if i = j \<and> open_stream j s \<and> length (stored j s) + length bs \<le> cap
        then stored i s @ bs else stored i s)"
      using put_law [OF Cons.prems(1), of bs j] Cons.prems(2) Put by auto
    obtain outs s' where r: "io_run put get ops s1 = Some (outs, s')" "inv s'" "\<forall>k. open_stream k s' = open_stream k s1"
      "\<forall>k. open_stream k s1 \<longrightarrow> (\<exists>acc. fifo_run cap k ops (stored k s1) = (acc, read_from k outs, stored k s'))"
      using Cons.IH [OF s1(2)] Cons.prems(2) by auto
    have "\<exists>acc. fifo_run cap k (op # ops) (stored k s) = (acc, read_from k outs, stored k s')" if "open_stream k s" for k
      using r(4) [rule_format, of k] that s1(3,4) Put by (cases "k = j") (auto split: if_splits)
    then show ?thesis
      using r(1-3) s1(1,3) Put by auto
  next
    case (Get j n)
    obtain s1 where s1: "get j n s = Some (if open_stream j s then take n (stored j s) else [], s1)" "inv s1"
      "\<forall>i. open_stream i s1 = open_stream i s"
      "\<forall>i. stored i s1 = (if i = j \<and> open_stream j s then drop n (stored i s) else stored i s)"
      using get_law [OF Cons.prems(1), of n j] Cons.prems(2) Get by auto
    obtain outs s' where r: "io_run put get ops s1 = Some (outs, s')" "inv s'" "\<forall>k. open_stream k s' = open_stream k s1"
      "\<forall>k. open_stream k s1 \<longrightarrow> (\<exists>acc. fifo_run cap k ops (stored k s1) = (acc, read_from k outs, stored k s'))"
      using Cons.IH [OF s1(2)] Cons.prems(2) by auto
    let ?bs = "if open_stream j s then take n (stored j s) else []"
    have "\<exists>acc. fifo_run cap k (op # ops) (stored k s) = (acc, read_from k ((j, ?bs) # outs), stored k s')"
      if "open_stream k s" for k
      using r(4) [rule_format, of k] that s1(3,4) Get by (cases "k = j") auto
    then show ?thesis
      using r(1-3) s1(1,3) Get by auto
  qed
qed simp

lemma run_in_order:
  assumes "inv s" "list_all io_ok ops" "open_stream k s"
  shows "\<exists>outs s' acc. io_run put get ops s = Some (outs, s') \<and> inv s' \<and> open_stream k s'
    \<and> fifo_run cap k ops (stored k s) = (acc, read_from k outs, stored k s')
    \<and> stored k s @ acc = read_from k outs @ stored k s'"
  using run_refines [OF assms(1,2)] assms(3) fifo_run_conserves by metis

end

section \<open>The invariant of the registry\<close>

definition channel_buffer_ok :: "Buffer \<Rightarrow> bool" where
  "channel_buffer_ok b \<longleftrightarrow> buffer_wf b \<and> data b \<noteq> None \<and> allocated_size b = of_nat MAX_SIZE"

definition channel_info_ok :: "tChannelInfo \<Rightarrow> bool" where
  "channel_info_ok info \<longleftrightarrow> ch_mpClient info \<noteq> None \<and> channel_buffer_ok (mChannelBuffer info)"

definition channel_number_ok :: "u32 \<Rightarrow> bool" where
  "channel_number_ok c \<longleftrightarrow> 0 < c \<and> c \<le> 0xFFFF"

definition proxy_ok :: "proxy \<Rightarrow> bool" where
  "proxy_ok p \<longleftrightarrow> (\<forall>c info. mChannelRegistry p c = Some info \<longrightarrow> channel_number_ok c \<and> channel_info_ok info)
     \<and> (\<forall>c info. mAllocateRequestMap p c = Some info \<longrightarrow> channel_number_ok c \<and> ar_mpClient info \<noteq> None)"

definition stored_data :: "u32 \<Rightarrow> proxy \<Rightarrow> u8 list" where
  "stored_data c p = (case mChannelRegistry p c of None \<Rightarrow> [] | Some info \<Rightarrow> content (mChannelBuffer info))"

lemma MAX_SIZE_simps [simp]: "unat (of_nat MAX_SIZE :: u32) = 4096" "4096 \<le> MAX_SIZE"
  by (simp_all add: MAX_SIZE_def)

lemma channel_buffer_okE:
  assumes "channel_buffer_ok b"
  obtains d where "data b = Some d" "unat (filled_size b) \<le> length d" "length d \<le> 4096"
    "allocated_size b = of_nat MAX_SIZE" "content b = take (unat (filled_size b)) d"
    "length (content b) = unat (filled_size b)"
  using assms by (auto simp: channel_buffer_ok_def buffer_wf_def content_def)

lemma free_room:
  assumes "channel_buffer_ok b"
  shows "unat (allocated_size b - filled_size b) = 4096 - length (content b)"
proof -
  obtain d where "unat (filled_size b) \<le> 4096" "allocated_size b = of_nat MAX_SIZE" "length (content b) = unat (filled_size b)"
    using assms by (elim channel_buffer_okE) simp
  then show ?thesis
    by (simp add: unat_diff_u32 word_le_nat_alt MAX_SIZE_def)
qed

lemma append_fits:
  assumes "channel_buffer_ok b" "length (content b) + length bs \<le> 4096"
  obtains b' where "appendData bs b = Some (True, b')" "channel_buffer_ok b'" "content b' = content b @ bs"
proof -
  obtain d where d: "data b = Some d" "unat (filled_size b) \<le> length d" "length d \<le> 4096"
    "allocated_size b = of_nat MAX_SIZE" "content b = take (unat (filled_size b)) d"
    "length (content b) = unat (filled_size b)"
    using assms(1) by (rule channel_buffer_okE)
  have n: "unat (of_nat (length bs) :: u32) = length bs"
    using assms(2) by (simp add: unsigned_of_nat take_bit_nat_eq_self)
  have sum: "unat (filled_size b + of_nat (length bs)) = unat (filled_size b) + length bs"
    using assms(2) d(6) n by (simp add: unat_word_ariths(1))
  let ?b = "b\<lparr>data := Some (overwrite (unat (filled_size b)) bs d), filled_size := filled_size b + of_nat (length bs)\<rparr>"
  show thesis
  proof (rule that)
    show "appendData bs b = Some (True, ?b)"
      using assms(2) free_room [OF assms(1)] n d(1) by (simp add: appendData_def word_less_nat_alt)
    show "channel_buffer_ok ?b"
      using d sum assms(2) by (simp add: channel_buffer_ok_def buffer_wf_def overwrite_def)
    show "content ?b = content b @ bs"
      using d sum by (simp add: content_def take_overwrite_end)
  qed
qed

lemma take_front:
  assumes "channel_buffer_ok b" "n < 2 ^ 32"
  obtains b' where "buffer_take (of_nat n) b = Some (take n (content b), b')" "channel_buffer_ok b'"
    "content b' = drop n (content b)"
proof -
  obtain d where d: "data b = Some d" "unat (filled_size b) \<le> length d" "length d \<le> 4096"
    "allocated_size b = of_nat MAX_SIZE" "content b = take (unat (filled_size b)) d"
    "length (content b) = unat (filled_size b)"
    using assms(1) by (rule channel_buffer_okE)
  have n: "unat (of_nat n :: u32) = n"
    using assms(2) by (simp add: unsigned_of_nat take_bit_nat_eq_self)
  show thesis
  proof (cases "of_nat n < filled_size b")
    case True
    then have lt: "n < unat (filled_size b)"
      by (simp add: word_less_nat_alt n)
    then have f: "unat (filled_size b - of_nat n) = unat (filled_size b) - n"
      using True n by (simp add: unat_diff_u32)
    show thesis
      by (rule that [of "b\<lparr>data := Some (overwrite 0 (drop n (take (unat (filled_size b)) d)) d),
          filled_size := filled_size b - of_nat n\<rparr>"])
        (use d lt f n True in \<open>auto simp: Let_def buffer_take_def channel_buffer_ok_def buffer_wf_def content_def overwrite_def\<close>)
  next
    case False
    then have "unat (filled_size b) \<le> n"
      by (simp add: not_less word_le_nat_alt n)
    then show thesis
      by (intro that [of "b\<lparr>data := Some (overwrite 0 (replicate (unat (filled_size b)) 0) d), filled_size := 0\<rparr>"])
        (use d False in \<open>auto simp: Let_def buffer_take_def channel_buffer_ok_def buffer_wf_def content_def overwrite_def\<close>)
  qed
qed

section \<open>The proxy as an implementation\<close>

text \<open>The message the agent makes of a block (\<^verbatim>\<open>receive_client_data\<close>), handed to the proxy as raw bytes.\<close>

definition data_notification :: "endian \<Rightarrow> u32 \<Rightarrow> u8 list \<Rightarrow> u8 list option" where
  "data_notification e c bs =
     copyToRawArray e (accessor_setData bs (setChannelID c (setOpCode E_RECEIVE_DATA_NTF accessor_new)))"

definition proxy_put :: "endian \<Rightarrow> u32 \<Rightarrow> u8 list \<Rightarrow> proxy \<Rightarrow> proxy option" where
  "proxy_put e c bs p = do { raw \<leftarrow> data_notification e c bs; proxy_OnAsyncRequest e raw p }"

definition proxy_get :: "u32 \<Rightarrow> nat \<Rightarrow> proxy \<Rightarrow> (u8 list \<times> proxy) option" where
  "proxy_get c n p = map_option snd (proxy_receiveData c (of_nat n) p)"

definition registered_channel :: "u32 \<Rightarrow> proxy \<Rightarrow> bool" where
  "registered_channel c p \<longleftrightarrow> mChannelRegistry p c \<noteq> None"

lemma data_notification_read:
  assumes "length bs + 16 < 2 ^ 32"
  obtains raw a where "data_notification e c bs = Some raw" "accessor_fromRaw e raw = Some a" "mChannelID a = c"
    "mOperation a = E_RECEIVE_DATA_NTF" "unat (mDataSize a) = length bs" "accessor_bytes a = Some bs"
proof -
  let ?a = "accessor_setData bs (setChannelID c (setOpCode E_RECEIVE_DATA_NTF accessor_new))"
  have wf: "accessor_wf ?a"
    using assms by (intro accessor_wf_setData) simp_all
  obtain raw where "copyToRawArray e ?a = Some raw" "accessor_fromRaw e (raw @ []) = Some ?a"
    using accessor_raw_roundtrip [OF wf] by metis
  moreover have "unat (mDataSize ?a) = length bs" "accessor_bytes ?a = Some bs"
    using assms accessor_bytes_wf [OF wf]
    by (auto simp: accessor_setData_def unsigned_of_nat take_bit_nat_eq_self setChannelID_def setOpCode_def accessor_new_def)
  ultimately show thesis
    by (intro that [of raw ?a]) (simp_all add: data_notification_def)
qed

lemma proxy_put_closed:
  assumes "length bs + 16 < 2 ^ 32" "mChannelRegistry p c = None"
  shows "proxy_put e c bs p = Some p"
  by (rule data_notification_read [OF assms(1), of e c])
    (simp add: proxy_put_def proxy_OnAsyncRequest_def receiveDataNotification_def assms(2))

lemma proxy_put_open:
  assumes "proxy_ok p" "length bs + 16 < 2 ^ 32" "mChannelRegistry p c = Some info"
  obtains a buf cb where "ch_mpClient info = Some a" "channel_buffer_ok buf"
    "proxy_put e c bs p = Some (p\<lparr>mChannelRegistry := (mChannelRegistry p)(c \<mapsto> info\<lparr>mChannelBuffer := buf\<rparr>),
       mCallbacksQueue := mCallbacksQueue p @ [cb]\<rparr>)"
    "length (stored_data c p) + length bs \<le> 4096 \<Longrightarrow>
       content buf = stored_data c p @ bs \<and> cb = CDataReceivedCallback a c (of_nat (length bs))"
    "4096 < length (stored_data c p) + length bs \<Longrightarrow>
       content buf = stored_data c p \<and> cb = CBufferOverflowCallback a c"
proof -
  have ok: "channel_info_ok info"
    using assms(1,3) by (simp add: proxy_ok_def)
  then obtain a where a: "ch_mpClient info = Some a" "channel_buffer_ok (mChannelBuffer info)"
    by (auto simp: channel_info_ok_def)
  have st: "stored_data c p = content (mChannelBuffer info)"
    by (simp add: stored_data_def assms(3))
  obtain raw acc where r: "data_notification e c bs = Some raw" "accessor_fromRaw e raw = Some acc" "mChannelID acc = c"
    "mOperation acc = E_RECEIVE_DATA_NTF" "unat (mDataSize acc) = length bs" "accessor_bytes acc = Some bs"
    using data_notification_read [OF assms(2)] by metis
  have n: "mDataSize acc = of_nat (length bs)"
    by (simp flip: r(5))
  show thesis
  proof (cases "length (stored_data c p) + length bs \<le> 4096")
    case True
    then obtain buf where b: "appendData bs (mChannelBuffer info) = Some (True, buf)" "channel_buffer_ok buf"
      "content buf = content (mChannelBuffer info) @ bs"
      using append_fits [OF a(2)] st by metis
    show thesis
      by (rule that [OF a(1) b(2), of "CDataReceivedCallback a c (of_nat (length bs))"])
        (use True r n b a assms(3) free_room [OF a(2)] in
          \<open>auto simp: proxy_put_def proxy_OnAsyncRequest_def receiveDataNotification_def pushCallbackToQueue_def
            word_less_nat_alt st\<close>)
  next
    case False
    moreover have "length (stored_data c p) \<le> 4096"
      using a(2) st by (auto elim: channel_buffer_okE)
    ultimately have more: "unat (allocated_size (mChannelBuffer info) - filled_size (mChannelBuffer info)) < length bs"
      by (simp add: free_room [OF a(2)] st)
    show thesis
      by (rule that [OF a, of "CBufferOverflowCallback a c"])
        (use False r n a assms(3) more in
          \<open>auto simp: proxy_put_def proxy_OnAsyncRequest_def receiveDataNotification_def pushCallbackToQueue_def
            word_less_nat_alt st map_upd_triv\<close>)
  qed
qed

lemma proxy_get_closed: "mChannelRegistry p c = None \<Longrightarrow> proxy_get c n p = Some ([], p)"
  by (simp add: proxy_get_def proxy_receiveData_def)

lemma proxy_get_open:
  assumes "proxy_ok p" "n < 2 ^ 32" "mChannelRegistry p c = Some info"
  obtains buf where "channel_buffer_ok buf" "content buf = drop n (stored_data c p)"
    "proxy_get c n p = Some (take n (stored_data c p),
       p\<lparr>mChannelRegistry := (mChannelRegistry p)(c \<mapsto> info\<lparr>mChannelBuffer := buf\<rparr>)\<rparr>)"
proof -
  have b: "channel_buffer_ok (mChannelBuffer info)"
    using assms(1,3) by (auto simp: proxy_ok_def channel_info_ok_def)
  have st: "stored_data c p = content (mChannelBuffer info)"
    by (simp add: stored_data_def assms(3))
  show thesis
  proof (cases "filled_size (mChannelBuffer info) = 0")
    case True
    then have "stored_data c p = []"
      using b st by (auto elim: channel_buffer_okE)
    then show thesis
      by (intro that [OF b]) (use True st assms(3) in \<open>simp_all add: proxy_get_def proxy_receiveData_def map_upd_triv\<close>)
  next
    case False
    obtain buf where "buffer_take (of_nat n) (mChannelBuffer info) = Some (take n (stored_data c p), buf)"
      "channel_buffer_ok buf" "content buf = drop n (stored_data c p)"
      using take_front [OF b assms(2)] st by metis
    then show thesis
      by (intro that) (use False assms(3) in \<open>simp_all add: proxy_get_def proxy_receiveData_def\<close>)
  qed
qed

lemma proxy_ok_buffer:
  "proxy_ok p \<Longrightarrow> mChannelRegistry p c = Some info \<Longrightarrow> channel_buffer_ok buf \<Longrightarrow>
     proxy_ok (p\<lparr>mChannelRegistry := (mChannelRegistry p)(c \<mapsto> info\<lparr>mChannelBuffer := buf\<rparr>)\<rparr>)"
  by (auto simp: proxy_ok_def channel_info_ok_def)

lemma proxy_ok_queue [simp]: "proxy_ok (p\<lparr>mCallbacksQueue := q\<rparr>) = proxy_ok p"
  by (simp add: proxy_ok_def)

interpretation registry: byte_streams "proxy_put e" proxy_get proxy_ok registered_channel stored_data 4096 for e
proof unfold_locales
  fix p c and bs :: "u8 list"
  assume p: "proxy_ok p" and len: "length bs + 16 < 2 ^ 32"
  show "\<exists>p'. proxy_put e c bs p = Some p' \<and> proxy_ok p' \<and> (\<forall>j. registered_channel j p' = registered_channel j p)
    \<and> (\<forall>j. stored_data j p' = (if j = c \<and> registered_channel c p \<and> length (stored_data c p) + length bs \<le> 4096
          then stored_data j p @ bs else stored_data j p))"
  proof (cases "mChannelRegistry p c")
    case None
    then show ?thesis
      using p proxy_put_closed [OF len None, of e] by (auto simp: registered_channel_def)
  next
    case (Some info)
    show ?thesis
    proof (rule proxy_put_open [OF p len Some, of e])
      fix a buf cb
      assume b: "channel_buffer_ok buf"
        "proxy_put e c bs p = Some (p\<lparr>mChannelRegistry := (mChannelRegistry p)(c \<mapsto> info\<lparr>mChannelBuffer := buf\<rparr>),
           mCallbacksQueue := mCallbacksQueue p @ [cb]\<rparr>)"
        "length (stored_data c p) + length bs \<le> 4096 \<Longrightarrow>
           content buf = stored_data c p @ bs \<and> cb = CDataReceivedCallback a c (of_nat (length bs))"
        "4096 < length (stored_data c p) + length bs \<Longrightarrow>
           content buf = stored_data c p \<and> cb = CBufferOverflowCallback a c"
      show ?thesis
        using b proxy_ok_buffer [OF p Some b(1)] Some
        by (cases "length (stored_data c p) + length bs \<le> 4096") (auto simp: registered_channel_def stored_data_def)
    qed
  qed
next
  fix p n c
  assume p: "proxy_ok p" and len: "n < (2::nat) ^ 32"
  show "\<exists>p'. proxy_get c n p = Some (if registered_channel c p then take n (stored_data c p) else [], p') \<and> proxy_ok p'
    \<and> (\<forall>j. registered_channel j p' = registered_channel j p)
    \<and> (\<forall>j. stored_data j p' = (if j = c \<and> registered_channel c p then drop n (stored_data j p) else stored_data j p))"
  proof (cases "mChannelRegistry p c")
    case None
    then show ?thesis
      using p proxy_get_closed by (auto simp: registered_channel_def)
  next
    case (Some info)
    show ?thesis
    proof (rule proxy_get_open [OF p len Some])
      fix buf
      assume "channel_buffer_ok buf" "content buf = drop n (stored_data c p)"
        "proxy_get c n p = Some (take n (stored_data c p),
           p\<lparr>mChannelRegistry := (mChannelRegistry p)(c \<mapsto> info\<lparr>mChannelBuffer := buf\<rparr>)\<rparr>)"
      then show ?thesis
        using proxy_ok_buffer [OF p Some] Some by (auto simp: registered_channel_def stored_data_def)
    qed
  qed
qed

section \<open>Properties\<close>


definition sample_proxy :: proxy where
  "sample_proxy = (proxy_init True)\<lparr>mChannelRegistry := [101 \<mapsto> \<lparr>ch_mType = 2, ch_mpClient = Some 1,
     mChannelBuffer = \<lparr>allocated_size = of_nat MAX_SIZE, filled_size = 0, data = Some []\<rparr>\<rparr>]\<rparr>"

lemma sample_proxy_ok: "proxy_ok sample_proxy"
  by (simp add: proxy_ok_def sample_proxy_def proxy_init_def channel_number_ok_def channel_info_ok_def channel_buffer_ok_def
      buffer_wf_def)


end
