(* ===== verification/ProxyThreads.thy ===== *)
theory ProxyThreads
  imports ProxyData
begin

text \<open>
  The threads of a client process inside \<^verbatim>\<open>CConnectivityAgentProxy\<close>: each is at one of the waits or unlocked
  points of its call, and a step runs one critical section, hands over a message of the agent, reads data or
  executes a callback. Every interleaving of these steps is possible.
\<close>

section \<open>Threads\<close>

datatype thread_pc =
    Outside
  | AllocChecked u32 u32 "addr option" bool
  | AllocSent u32
  | AllocWaits u32
  | CloseSent u32 tChannelInfo
  | CloseWaits u32 tChannelInfo
  | ForceSent u32
  | ForceWaits u32
  | Finished ErrorCode

datatype thread_input =
    CallAllocate u32 u32 "addr option"
  | CallDeallocate u32
  | CallForcibly u32
  | Go
  | Answer ErrorCode "u8 list"

text \<open>
  What a thread does next. The result \<^verbatim>\<open>Some None\<close> is an input that does not fit the point where the thread is, or
  a wait that goes on; \<^verbatim>\<open>None\<close> is a failed assertion or a bad access.
\<close>

fun thread_step :: "endian \<Rightarrow> thread_input \<Rightarrow> thread_pc \<Rightarrow> proxy \<Rightarrow> (thread_pc \<times> proxy) option option" where
  "thread_step e (CallAllocate prio c observer) Outside p =
     Some (Some (case proxy_allocate_check c observer p of
        Inl err \<Rightarrow> (Finished err, p) | Inr unknown \<Rightarrow> (AllocChecked prio c observer unknown, p)))"
| "thread_step e Go (AllocChecked prio c observer unknown) p =
     map_option (\<lambda>(r, p). Some (case r of Inl err \<Rightarrow> (Finished err, p) | Inr _ \<Rightarrow> (AllocSent c, p)))
       (proxy_allocate_send e prio c observer unknown p)"
| "thread_step e (Answer err resp) (AllocSent c) p =
     map_option (\<lambda>(r, p). Some (case r of Inl err \<Rightarrow> (Finished err, p) | Inr _ \<Rightarrow> (AllocWaits c, p)))
       (proxy_allocate_answer e c err resp p)"
| "thread_step e Go (AllocWaits c) p =
     Some (case proxy_allocate_poll c p of (Inl err, p) \<Rightarrow> Some (Finished err, p) | (Inr _, _) \<Rightarrow> None)"
| "thread_step e (CallDeallocate c) Outside p =
     map_option (\<lambda>(r, p). Some (case r of Inl err \<Rightarrow> (Finished err, p) | Inr (_, _, info) \<Rightarrow> (CloseSent c info, p)))
       (proxy_deallocate_begin e c p)"
| "thread_step e (Answer err resp) (CloseSent c info) p =
     Some (Some (if \<not> isNoError err
       then (let (r, p) = proxy_deallocate_end c info ERROR_REQUEST_FAILED p in (Finished r, p))
       else (CloseWaits c info, p)))"
| "thread_step e Go (CloseWaits c info) p =
     (case proxy_deallocate_poll c p of
        None \<Rightarrow> Some None
      | Some (responseDA, p) \<Rightarrow>
          map_option (\<lambda>result. Some (let (r, p) = proxy_deallocate_end c info result p in (Finished r, p)))
            (deallocate_result e c responseDA))"
| "thread_step e (CallForcibly c) Outside p =
     map_option (\<lambda>(r, p). Some (case r of None \<Rightarrow> (Finished NO_ERROR, p) | Some _ \<Rightarrow> (ForceSent c, p)))
       (proxy_forcibly_begin e c p)"
| "thread_step e (Answer err resp) (ForceSent c) p =
     map_option (\<lambda>(waits, p). Some (if waits then ForceWaits c else Finished NO_ERROR, p)) (proxy_forcibly_answer e c err resp p)"
| "thread_step e Go (ForceWaits c) p =
     Some (case proxy_deallocate_poll c p of
        None \<Rightarrow> None | Some (_, p) \<Rightarrow> Some (Finished NO_ERROR, proxy_forcibly_end c p))"
| "thread_step e Go (Finished err) p = Some (Some (Outside, p))"
| "thread_step e _ _ p = Some None"

section \<open>The process\<close>

text \<open>
  Messages the agent may send: readable ones whose answer to a closing, if it has data, has an error word; and
  responses that are empty or readable.
\<close>

definition message_ok :: "endian \<Rightarrow> u8 list \<Rightarrow> bool" where
  "message_ok e raw \<longleftrightarrow> (case accessor_fromRaw e raw of
     None \<Rightarrow> False
   | Some a \<Rightarrow> mOperation a = E_DEALLOCATE_CHANNEL_RESP \<longrightarrow> mDataSize a = 0 \<or> 4 \<le> mDataSize a)"

fun input_ok :: "endian \<Rightarrow> thread_input \<Rightarrow> thread_pc \<Rightarrow> bool" where
  "input_ok e (Answer err resp) (AllocSent c) \<longleftrightarrow> resp = [] \<or> accessor_fromRaw e resp \<noteq> None"
| "input_ok e (Answer err resp) (ForceSent c) \<longleftrightarrow> accessor_fromRaw e resp \<noteq> None"
| "input_ok e _ _ \<longleftrightarrow> True"

type_synonym client_state = "proxy \<times> (nat \<Rightarrow> thread_pc)"

inductive client_step :: "endian \<Rightarrow> client_state \<Rightarrow> client_state \<Rightarrow> bool" for e where
  thread: "input_ok e i (pcs t) \<Longrightarrow> thread_step e i (pcs t) p = Some (Some (pc, p')) \<Longrightarrow>
     client_step e (p, pcs) (p', pcs(t := pc))"
| message: "message_ok e raw \<Longrightarrow> proxy_OnAsyncRequest e raw p = Some p' \<Longrightarrow> client_step e (p, pcs) (p', pcs)"
| reading: "n < 2 ^ 32 \<Longrightarrow> proxy_get c n p = Some (bs, p') \<Longrightarrow> client_step e (p, pcs) (p', pcs)"
| callback: "popCallbackFromQueue p = (cb, p') \<Longrightarrow> client_step e (p, pcs) (p', pcs)"

inductive client_reachable :: "endian \<Rightarrow> client_state \<Rightarrow> bool" for e where
  start: "client_reachable e (proxy_init connected, \<lambda>_. Outside)"
| step: "client_reachable e s \<Longrightarrow> client_step e s s' \<Longrightarrow> client_reachable e s'"

section \<open>The invariant\<close>

fun allocating :: "u32 \<Rightarrow> thread_pc \<Rightarrow> bool" where
  "allocating c (AllocSent d) \<longleftrightarrow> d = c"
| "allocating c (AllocWaits d) \<longleftrightarrow> d = c"
| "allocating c _ \<longleftrightarrow> False"

definition requested_channels :: "proxy \<Rightarrow> u32 set" where
  "requested_channels p = dom (mAllocateRequestMap p)"

text \<open>Every entry of the table of requests belongs to exactly one thread that allocates the channel.\<close>

definition requests_owned :: "client_state \<Rightarrow> bool" where
  "requests_owned = (\<lambda>(p, pcs). (\<forall>c. c \<in> requested_channels p \<longleftrightarrow> (\<exists>t. allocating c (pcs t)))
     \<and> (\<forall>c t u. allocating c (pcs t) \<longrightarrow> allocating c (pcs u) \<longrightarrow> t = u))"

fun pc_ok :: "thread_pc \<Rightarrow> bool" where
  "pc_ok (AllocChecked prio c observer unknown) \<longleftrightarrow> channel_number_ok c \<and> observer \<noteq> None"
| "pc_ok (CloseSent c info) \<longleftrightarrow> channel_number_ok c \<and> channel_info_ok info"
| "pc_ok (CloseWaits c info) \<longleftrightarrow> channel_number_ok c \<and> channel_info_ok info"
| "pc_ok _ \<longleftrightarrow> True"

definition response_ok :: "CDataAccessor \<Rightarrow> bool" where
  "response_ok a \<longleftrightarrow> accessor_wf a \<and> (mDataSize a = 0 \<or> mOperation a = E_DEALLOCATE_CHANNEL_RESP \<and> 4 \<le> mDataSize a)"

definition client_ok :: "proxy \<Rightarrow> bool" where
  "client_ok p \<longleftrightarrow> proxy_ok p \<and> (\<forall>c a. mDeallocateRequestResultMap p c = Some a \<longrightarrow> response_ok a)"

lemma response_ok_result: "response_ok a \<Longrightarrow> deallocate_result e c a \<noteq> None"
  by (auto simp: response_ok_def accessor_wf_def deallocate_result_def load_data_word_def word_le_nat_alt split: option.splits)

lemma client_ok_fields [simp]:
  "client_ok (p\<lparr>mChannelOnDeallocSet := ds\<rparr>) = client_ok p" "client_ok (p\<lparr>proxy_msgId := i\<rparr>) = client_ok p"
  "client_ok (p\<lparr>mCallbacksQueue := q\<rparr>) = client_ok p"
  by (simp_all add: client_ok_def proxy_ok_def)

lemma client_ok_drop:
  "client_ok p \<Longrightarrow> client_ok (p\<lparr>mChannelRegistry := (mChannelRegistry p)(c := None)\<rparr>)"
  "client_ok p \<Longrightarrow> client_ok (p\<lparr>mAllocateRequestMap := (mAllocateRequestMap p)(c := None)\<rparr>)"
  "client_ok p \<Longrightarrow> client_ok (p\<lparr>mDeallocateRequestResultMap := (mDeallocateRequestResultMap p)(c := None)\<rparr>)"
  by (auto simp: client_ok_def proxy_ok_def)

lemma client_ok_add:
  "client_ok p \<Longrightarrow> channel_number_ok c \<Longrightarrow> channel_info_ok info \<Longrightarrow>
     client_ok (p\<lparr>mChannelRegistry := (mChannelRegistry p)(c \<mapsto> info)\<rparr>)"
  "client_ok p \<Longrightarrow> channel_number_ok c \<Longrightarrow> ar_mpClient ar \<noteq> None \<Longrightarrow>
     client_ok (p\<lparr>mAllocateRequestMap := (mAllocateRequestMap p)(c \<mapsto> ar)\<rparr>)"
  "client_ok p \<Longrightarrow> response_ok a \<Longrightarrow>
     client_ok (p\<lparr>mDeallocateRequestResultMap := (mDeallocateRequestResultMap p)(c \<mapsto> a)\<rparr>)"
  by (auto simp: client_ok_def proxy_ok_def)

lemma requested_channels_simps [simp]:
  "requested_channels (p\<lparr>mChannelRegistry := r\<rparr>) = requested_channels p"
  "requested_channels (p\<lparr>mChannelOnDeallocSet := ds\<rparr>) = requested_channels p"
  "requested_channels (p\<lparr>mDeallocateRequestResultMap := rm\<rparr>) = requested_channels p"
  "requested_channels (p\<lparr>mCallbacksQueue := q\<rparr>) = requested_channels p"
  "requested_channels (p\<lparr>proxy_msgId := i\<rparr>) = requested_channels p"
  "requested_channels (p\<lparr>mAllocateRequestMap := (mAllocateRequestMap p)(c \<mapsto> ar)\<rparr>) = insert c (requested_channels p)"
  "requested_channels (p\<lparr>mAllocateRequestMap := (mAllocateRequestMap p)(c := None)\<rparr>) = requested_channels p - {c}"
  by (auto simp: requested_channels_def)

section \<open>Messages\<close>

lemma accessor_fromRaw_wf:
  assumes "accessor_fromRaw e raw = Some a"
  shows "accessor_wf a"
proof (cases "mDataSize a = 0")
  case False
  then have "unat (mDataSize a) \<noteq> 0" by (simp add: unsigned_eq_0_iff)
  then show ?thesis
    using assms by (auto simp: accessor_fromRaw_def accessor_wf_def Let_def split: if_splits)
qed (use assms in \<open>auto simp: accessor_fromRaw_def accessor_wf_def Let_def split: if_splits\<close>)

lemma push_ok [simp]:
  "pushCallbackToQueue cb (Some a) p = Some (p\<lparr>mCallbacksQueue := mCallbacksQueue p @ [cb a]\<rparr>)"
  by (simp add: pushCallbackToQueue_def)

lemma allocateResponse_ok:
  assumes "client_ok p"
  shows "\<exists>p'. receiveAllocateChannelResponse a p = Some p' \<and> client_ok p' \<and> requested_channels p' = requested_channels p"
proof (cases "mAllocateRequestMap p (mChannelID a)")
  case None
  then show ?thesis using assms by (simp add: receiveAllocateChannelResponse_def)
next
  case (Some info)
  define info' where "info' = info\<lparr>mRequestDone := True, mResult := mErrorCode a\<rparr>"
  define p1 where "p1 = p\<lparr>mAllocateRequestMap := (mAllocateRequestMap p)(mChannelID a \<mapsto> info')\<rparr>"
  have c: "channel_number_ok (mChannelID a)" "ar_mpClient info' \<noteq> None"
    using assms Some by (auto simp: client_ok_def proxy_ok_def info'_def)
  then have p1: "client_ok p1" "requested_channels p1 = requested_channels p"
    using client_ok_add(2) [OF assms] Some by (auto simp: p1_def requested_channels_def)
  define entry where "entry = registry_entry (mChannelID a) p1"
  have "\<exists>buf. reserveSize (of_nat MAX_SIZE) (mChannelBuffer entry) = Some buf \<and> channel_buffer_ok buf"
  proof (cases "mChannelRegistry p1 (mChannelID a)")
    case None
    then show ?thesis
      by (simp add: entry_def registry_entry_def reserveSize_def Buffer_new_def channel_buffer_ok_def buffer_wf_def MAX_SIZE_def)
  next
    case (Some i)
    then have "channel_buffer_ok (mChannelBuffer entry)"
      using p1(1) by (auto simp: entry_def registry_entry_def client_ok_def proxy_ok_def channel_info_ok_def)
    then show ?thesis
      by (auto simp: reserveSize_def channel_buffer_ok_def)
  qed
  then obtain buf where "reserveSize (of_nat MAX_SIZE) (mChannelBuffer entry) = Some buf" "channel_buffer_ok buf" by blast
  then show ?thesis
    using Some c p1 client_ok_add(1) [OF p1(1) c(1)]
    by (auto simp: receiveAllocateChannelResponse_def Let_def channel_info_ok_def simp flip: info'_def p1_def entry_def)
qed

lemma dataNotification_ok:
  assumes "client_ok p" "accessor_wf a"
  shows "\<exists>p'. receiveDataNotification a p = Some p' \<and> client_ok p' \<and> requested_channels p' = requested_channels p"
proof (cases "mChannelRegistry p (mChannelID a)")
  case None
  then show ?thesis using assms by (simp add: receiveDataNotification_def)
next
  case (Some info)
  then have info: "channel_number_ok (mChannelID a)" "channel_info_ok info"
    using assms(1) by (auto simp: client_ok_def proxy_ok_def)
  then obtain cl where cl: "ch_mpClient info = Some cl" "channel_buffer_ok (mChannelBuffer info)"
    by (auto simp: channel_info_ok_def)
  obtain bs where bs: "accessor_bytes a = Some bs" "length bs = unat (mDataSize a)"
    using accessor_bytes_wf [OF assms(2)] length_accessor_bytes by blast
  show ?thesis
  proof (cases "allocated_size (mChannelBuffer info) - filled_size (mChannelBuffer info) < mDataSize a")
    case True
    then show ?thesis using assms(1) Some cl by (simp add: receiveDataNotification_def Let_def)
  next
    case False
    have "length (content (mChannelBuffer info)) \<le> 4096"
      using cl(2) by (auto elim: channel_buffer_okE)
    then have "length (content (mChannelBuffer info)) + length bs \<le> 4096"
      using False bs(2) free_room [OF cl(2)] by (simp add: word_less_nat_alt)
    then obtain buf where buf: "appendData bs (mChannelBuffer info) = Some (True, buf)" "channel_buffer_ok buf"
      using append_fits [OF cl(2)] by metis
    then have "channel_info_ok (info\<lparr>mChannelBuffer := buf\<rparr>)"
      using info(2) by (simp add: channel_info_ok_def)
    then show ?thesis
      using client_ok_add(1) [OF assms(1) info(1)] False Some bs buf cl(1)
      by (simp add: receiveDataNotification_def Let_def)
  qed
qed

lemma deletedNotification_ok:
  assumes "client_ok p"
  shows "\<exists>p'. channelDeletedNotification a p = Some p' \<and> client_ok p' \<and> requested_channels p' = requested_channels p"
proof (cases "mChannelRegistry p (mChannelID a)")
  case None
  have "response_ok accessor_new" by (simp add: response_ok_def accessor_new_def accessor_wf_def)
  then show ?thesis using None client_ok_add(3) [OF assms] assms by (simp add: channelDeletedNotification_def Let_def)
next
  case (Some info)
  then have "channel_info_ok info"
    using assms by (simp add: client_ok_def proxy_ok_def)
  then obtain cl where cl: "ch_mpClient info = Some cl"
    by (auto simp: channel_info_ok_def)
  have "client_ok (p\<lparr>mCallbacksQueue := mCallbacksQueue p @ [CChannelDeletedCallback cl (mChannelID a)]\<rparr>)"
    using assms by simp
  from client_ok_drop(1) [OF this, of "mChannelID a"] show ?thesis
    using Some cl by (simp add: channelDeletedNotification_def Let_def)
qed

lemma push_lost_ok:
  assumes "list_all (\<lambda>info. ch_mpClient info \<noteq> None) infos"
  shows "push_lost infos p = Some (p\<lparr>mCallbacksQueue := mCallbacksQueue p @ map (CConnectionLostCallback \<circ> the \<circ> ch_mpClient) infos\<rparr>)"
  using assms by (induction infos arbitrary: p) (auto simp: pushCallbackToQueue_def)

lemma disconnected_ok:
  assumes "client_ok p"
  shows "\<exists>p'. proxy_OnDisconnected p = Some p' \<and> client_ok p' \<and> requested_channels p' = requested_channels p"
proof -
  have "list_all (\<lambda>info. ch_mpClient info \<noteq> None) (map (the \<circ> mChannelRegistry p) (registry_keys p))"
    using assms by (auto simp: list_all_iff registry_keys_def client_ok_def proxy_ok_def channel_info_ok_def)
  then show ?thesis
    using assms by (simp add: proxy_OnDisconnected_def push_lost_ok)
qed

lemma message_safe:
  assumes "client_ok p" "message_ok e raw"
  shows "\<exists>p'. proxy_OnAsyncRequest e raw p = Some p' \<and> client_ok p' \<and> requested_channels p' = requested_channels p"
proof -
  obtain a where a: "accessor_fromRaw e raw = Some a" "accessor_wf a"
    "mOperation a = E_DEALLOCATE_CHANNEL_RESP \<Longrightarrow> mDataSize a = 0 \<or> 4 \<le> mDataSize a"
    using assms(2) accessor_fromRaw_wf by (auto simp: message_ok_def split: option.splits)
  have assign: "accessor_assign accessor_new a = Some a"
    using a(2) by (auto simp: accessor_assign_def accessor_bytes_wf accessor_new_def accessor_wf_def split: option.splits)
  have "response_ok a" if "mOperation a = E_DEALLOCATE_CHANNEL_RESP"
    using a that by (simp add: response_ok_def)
  then show ?thesis
    using a(1) assign assms(1) client_ok_add(3) [OF assms(1)]
      allocateResponse_ok [OF assms(1)] dataNotification_ok [OF assms(1) a(2)] deletedNotification_ok [OF assms(1)]
      disconnected_ok [OF assms(1)]
    by (simp add: proxy_OnAsyncRequest_def Let_def)
qed

section \<open>Steps of threads\<close>

lemma readable_requests:
  "\<exists>raw. proxy_allocate_request e prio c = Some raw"
  "\<exists>raw. copyToRawArray e (setOpCode opc (setChannelID c accessor_new)) = Some raw"
proof -
  have "accessor_wf (accessor_setData (store e 4 prio) (setOpCode E_ALLOCATE_CHANNEL (setChannelID c accessor_new)))"
    by (intro accessor_wf_setData) simp_all
  then show "\<exists>raw. proxy_allocate_request e prio c = Some raw"
    unfolding proxy_allocate_request_def by (rule accessor_raw_roundtrip) blast
  have "accessor_wf (setOpCode opc (setChannelID c accessor_new))" by simp
  then show "\<exists>raw. copyToRawArray e (setOpCode opc (setChannelID c accessor_new)) = Some raw"
    by (rule accessor_raw_roundtrip) blast
qed

text \<open>
  A step that is taken keeps the invariant of the proxy, and touches the table of requests only for the channel the thread
  is allocating: an entry is made when there was none, and taken away when the thread is done with it.
\<close>

definition step_safe :: "thread_pc \<Rightarrow> proxy \<Rightarrow> (thread_pc \<times> proxy) option option \<Rightarrow> bool" where
  "step_safe pc p r \<longleftrightarrow> (case r of None \<Rightarrow> False | Some None \<Rightarrow> True
     | Some (Some (pc', p')) \<Rightarrow> pc_ok pc' \<and> client_ok p'
         \<and> (\<forall>c. c \<in> requested_channels p' \<longleftrightarrow> allocating c pc' \<or> c \<in> requested_channels p \<and> \<not> allocating c pc)
         \<and> (\<forall>c. allocating c pc' \<longrightarrow> allocating c pc \<or> c \<notin> requested_channels p))"

lemma step_safe_simps [simp]:
  "\<not> step_safe pc p None" "step_safe pc p (Some None)"
  by (simp_all add: step_safe_def)

lemma step_safe_quiet:
  "client_ok p' \<Longrightarrow> requested_channels p' = requested_channels p \<Longrightarrow> pc_ok pc' \<Longrightarrow>
     \<forall>c. \<not> allocating c pc \<and> \<not> allocating c pc' \<Longrightarrow> step_safe pc p (Some (Some (pc', p')))"
  by (simp add: step_safe_def)

lemma safe_allocate_call:
  "client_ok p \<Longrightarrow> step_safe Outside p (thread_step e (CallAllocate prio c observer) Outside p)"
  by (auto simp: proxy_allocate_check_def Let_def channel_number_ok_def intro!: step_safe_quiet)

lemma safe_allocate_send:
  assumes "client_ok p" "pc_ok (AllocChecked prio c observer unknown)"
  shows "step_safe (AllocChecked prio c observer unknown) p (thread_step e Go (AllocChecked prio c observer unknown) p)"
proof -
  obtain raw where "proxy_allocate_request e prio c = Some raw"
    using readable_requests(1) by blast
  then show ?thesis
    using assms client_ok_add(2) [OF assms(1), of c]
    by (auto simp: proxy_allocate_send_def proxy_allocate_enter_def proxy_nextMsgId_def step_safe_def requested_channels_def)
qed

lemma safe_allocate_answer:
  assumes "client_ok p" "input_ok e (Answer err resp) (AllocSent c)" "c \<in> requested_channels p"
  shows "step_safe (AllocSent c) p (thread_step e (Answer err resp) (AllocSent c) p)"
  using assms client_ok_drop(2) [OF assms(1), of c] by (auto simp: proxy_allocate_answer_def step_safe_def)

lemma safe_allocate_wake:
  assumes "client_ok p" "c \<in> requested_channels p"
  shows "step_safe (AllocWaits c) p (thread_step e Go (AllocWaits c) p)"
  using assms client_ok_drop(2) [OF assms(1), of c]
  by (auto simp: proxy_allocate_poll_def step_safe_def split: option.splits) (auto simp: requested_channels_def)

lemma deallocate_end_ok:
  assumes "client_ok p" "channel_number_ok c" "channel_info_ok info" "proxy_deallocate_end c info r p = (r', p')"
  shows "client_ok p' \<and> requested_channels p' = requested_channels p"
  using assms client_ok_add(1) [OF assms(1-3)] by (auto simp: proxy_deallocate_end_def split: if_splits)

lemma safe_close_call:
  assumes "client_ok p"
  shows "step_safe Outside p (thread_step e (CallDeallocate c) Outside p)"
proof -
  obtain raw where raw: "copyToRawArray e (setOpCode E_DEALLOCATE_CHANNEL (setChannelID c accessor_new)) = Some raw"
    using readable_requests(2) by blast
  show ?thesis
  proof (cases "mChannelRegistry p c")
    case (Some info)
    then have "channel_number_ok c" "channel_info_ok info"
      using assms by (auto simp: client_ok_def proxy_ok_def)
    then show ?thesis
      using Some raw assms client_ok_drop(1) [OF assms, of c]
      by (auto simp: proxy_deallocate_begin_def proxy_nextMsgId_def Let_def intro!: step_safe_quiet)
  qed (use assms in \<open>auto simp: proxy_deallocate_begin_def Let_def intro!: step_safe_quiet\<close>)
qed

lemma safe_close_answer:
  assumes "client_ok p" "pc_ok (CloseSent c info)"
  shows "step_safe (CloseSent c info) p (thread_step e (Answer err resp) (CloseSent c info) p)"
  using assms deallocate_end_ok [OF assms(1), of c info]
  by (auto split: prod.splits intro!: step_safe_quiet)

lemma safe_close_wait:
  assumes "client_ok p" "pc_ok (CloseWaits c info)"
  shows "step_safe (CloseWaits c info) p (thread_step e Go (CloseWaits c info) p)"
proof (cases "mDeallocateRequestResultMap p c")
  case (Some a)
  then have a: "response_ok a" using assms(1) by (simp add: client_ok_def)
  obtain r where "deallocate_result e c a = Some r"
    using response_ok_result [OF a, of e c] by auto
  then show ?thesis
    using Some assms deallocate_end_ok [OF client_ok_drop(3) [OF assms(1)], of c info]
    by (auto simp: proxy_deallocate_poll_def split: prod.splits intro!: step_safe_quiet)
qed (simp add: proxy_deallocate_poll_def)

lemma safe_force_call:
  assumes "client_ok p"
  shows "step_safe Outside p (thread_step e (CallForcibly c) Outside p)"
proof -
  obtain raw where "copyToRawArray e (setOpCode E_DEALLOCATE_CHANNEL_WATCHDOG (setChannelID c accessor_new)) = Some raw"
    using readable_requests(2) by blast
  then show ?thesis
    using assms by (auto simp: proxy_forcibly_begin_def proxy_nextMsgId_def Let_def intro!: step_safe_quiet)
qed

lemma safe_force_answer:
  assumes "client_ok p" "input_ok e (Answer err resp) (ForceSent c)"
  shows "step_safe (ForceSent c) p (thread_step e (Answer err resp) (ForceSent c) p)"
  using assms by (auto simp: proxy_forcibly_answer_def intro!: step_safe_quiet)

lemma safe_force_wait:
  assumes "client_ok p"
  shows "step_safe (ForceWaits c) p (thread_step e Go (ForceWaits c) p)"
  using client_ok_drop(3) [OF assms, of c] assms
  by (auto simp: proxy_deallocate_poll_def proxy_forcibly_end_def split: option.splits intro!: step_safe_quiet)

lemmas safe_steps = safe_allocate_call safe_allocate_send safe_allocate_answer safe_allocate_wake safe_close_call
  safe_close_answer safe_close_wait safe_force_call safe_force_answer safe_force_wait

lemma thread_step_safe:
  assumes "client_ok p" "pc_ok pc" "input_ok e i pc" "\<And>c. allocating c pc \<Longrightarrow> c \<in> requested_channels p"
  shows "step_safe pc p (thread_step e i pc p)"
proof (cases "thread_step e i pc p = Some None")
  case False
  then consider (call) "pc = Outside" | (finished) err where "pc = Finished err" "i = Go"
    | (go) "i = Go" "pc \<noteq> Outside" "\<forall>err. pc \<noteq> Finished err" | (answer) err resp where "i = Answer err resp" "pc \<noteq> Outside"
    by (cases pc; cases i) auto
  then show ?thesis
  proof cases
    case call
    then show ?thesis using assms(1) False safe_steps by (cases i) (auto simp del: thread_step.simps(1,5,8))
  next
    case finished
    then show ?thesis using assms(1) by (auto intro: step_safe_quiet)
  next
    case go
    then show ?thesis
      using assms False safe_steps by (cases pc) (auto simp del: thread_step.simps(2,4,7,10))
  next
    case answer
    then show ?thesis
      using assms False safe_steps by (cases pc) (auto simp del: thread_step.simps(3,6,9) input_ok.simps(1,2))
  qed
qed simp

section \<open>Reachable states\<close>

definition client_inv :: "client_state \<Rightarrow> bool" where
  "client_inv s \<longleftrightarrow> client_ok (fst s) \<and> (\<forall>t. pc_ok (snd s t)) \<and> requests_owned s"

lemma client_inv_thread:
  assumes "client_inv (p, pcs)" "input_ok e i (pcs t)" "thread_step e i (pcs t) p = Some (Some (pc, p'))"
  shows "client_inv (p', pcs(t := pc))"
proof -
  have inv: "client_ok p" "\<And>t. pc_ok (pcs t)" "\<And>c. c \<in> requested_channels p \<longleftrightarrow> (\<exists>t. allocating c (pcs t))"
    "\<And>c t u. allocating c (pcs t) \<Longrightarrow> allocating c (pcs u) \<Longrightarrow> t = u"
    using assms(1) by (auto simp: client_inv_def requests_owned_def)
  have "step_safe (pcs t) p (Some (Some (pc, p')))"
    using thread_step_safe [OF inv(1,2) assms(2)] inv(3) assms(3) by metis
  then have s: "pc_ok pc" "client_ok p'"
    "\<And>c. c \<in> requested_channels p' \<longleftrightarrow> allocating c pc \<or> c \<in> requested_channels p \<and> \<not> allocating c (pcs t)"
    "\<And>c. allocating c pc \<Longrightarrow> allocating c (pcs t) \<or> c \<notin> requested_channels p"
    by (simp_all add: step_safe_def)
  have old: "(\<exists>u. u \<noteq> t \<and> allocating c (pcs u)) \<longleftrightarrow> c \<in> requested_channels p \<and> \<not> allocating c (pcs t)" for c
    unfolding inv(3) by (metis inv(4))
  have keys: "c \<in> requested_channels p' \<longleftrightarrow> (\<exists>u. allocating c ((pcs(t := pc)) u))" for c
    using s(3) [of c] old [of c] by auto
  have other: False if "u \<noteq> t" "allocating c (pcs u)" "allocating c pc" for c u
    using that s(4) [of c] old [of c] by blast
  have unique: "u = v" if "allocating c ((pcs(t := pc)) u)" "allocating c ((pcs(t := pc)) v)" for c u v
    by (cases "u = t"; cases "v = t") (use that other [of u c] other [of v c] inv(4) [of c u v] in simp_all)
  have "requests_owned (p', pcs(t := pc))"
    unfolding requests_owned_def prod.case by (intro conjI allI impI) (rule keys, rule unique)
  then show ?thesis
    using s(1,2) inv(2) by (simp add: client_inv_def)
qed

lemma proxy_get_safe:
  assumes "client_ok p" "n < 2 ^ 32"
  shows "\<exists>bs p'. proxy_get c n p = Some (bs, p') \<and> client_ok p' \<and> requested_channels p' = requested_channels p"
proof (cases "mChannelRegistry p c")
  case None
  then show ?thesis using assms(1) proxy_get_closed by simp
next
  case (Some info)
  then have info: "channel_number_ok c" "channel_info_ok info"
    using assms(1) by (auto simp: client_ok_def proxy_ok_def)
  show ?thesis
  proof (rule proxy_get_open [OF _ assms(2) Some])
    show "proxy_ok p" using assms(1) by (simp add: client_ok_def)
  next
    fix buf
    assume "channel_buffer_ok buf" "proxy_get c n p = Some (take n (stored_data c p),
      p\<lparr>mChannelRegistry := (mChannelRegistry p)(c \<mapsto> info\<lparr>mChannelBuffer := buf\<rparr>)\<rparr>)"
    then show ?thesis
      using client_ok_add(1) [OF assms(1) info(1), of "info\<lparr>mChannelBuffer := buf\<rparr>"] info(2) by (simp add: channel_info_ok_def)
  qed
qed

lemma client_inv_step: "client_step e s s' \<Longrightarrow> client_inv s \<Longrightarrow> client_inv s'"
proof (induction rule: client_step.induct)
  case (thread i pcs t p pc p')
  then show ?case by (intro client_inv_thread [of p pcs])
next
  case (message raw p p' pcs)
  then show ?case
    using message_safe [of p e raw] by (auto simp: client_inv_def requests_owned_def)
next
  case (reading n c p bs p' pcs)
  then show ?case
    using proxy_get_safe [of p n c] by (auto simp: client_inv_def requests_owned_def)
next
  case (callback p cb p' pcs)
  then show ?case
    by (auto simp: popCallbackFromQueue_def client_inv_def requests_owned_def split: list.splits)
qed

lemma client_inv_reachable: "client_reachable e s \<Longrightarrow> client_inv s"
proof (induction rule: client_reachable.induct)
  case (start connected)
  show ?case
    by (simp add: client_inv_def client_ok_def proxy_ok_def proxy_init_def requests_owned_def requested_channels_def)
qed (rule client_inv_step)

section \<open>Properties\<close>

text \<open>
  C17: in every interleaving, a channel has at most one thread that waits for its allocation, that
  thread's entry is in the table as long as it waits (the branch that answers \<^verbatim>\<open>ERROR_NOT_FOUND\<close> is never taken),
  and it returns with the result of the agent's response exactly when the response has been received.
\<close>

theorem one_allocation_per_channel:
  assumes "client_reachable e (p, pcs)" "pcs t = AllocWaits c"
  shows "\<exists>info. mAllocateRequestMap p c = Some info \<and> (\<forall>u. allocating c (pcs u) \<longrightarrow> u = t)
    \<and> proxy_allocate_poll c p = (if mRequestDone info
        then (Inl (mResult info), p\<lparr>mAllocateRequestMap := (mAllocateRequestMap p)(c := None)\<rparr>) else (Inr (), p))"
proof -
  have owned: "requests_owned (p, pcs)" and alloc: "allocating c (pcs t)"
    using client_inv_reachable [OF assms(1)] assms(2) by (simp_all add: client_inv_def)
  then obtain info where "mAllocateRequestMap p c = Some info"
    unfolding requests_owned_def requested_channels_def by blast
  then show ?thesis
    using owned alloc by (auto simp: requests_owned_def proxy_allocate_poll_def)
qed


section \<open>A run\<close>

lemma reach_thread:
  "client_reachable e (p, pcs) \<Longrightarrow> input_ok e i (pcs t) \<Longrightarrow> thread_step e i (pcs t) p = Some (Some (pc, p')) \<Longrightarrow>
     client_reachable e (p', pcs(t := pc))"
  by (rule client_reachable.step [OF _ client_step.thread])

text \<open>A client asks for channel 101 and waits.\<close>

lemma sample_waiting:
  obtains p where "client_reachable BigEndian (p, (\<lambda>_. Outside)(0 := AllocWaits 101))"
    "mAllocateRequestMap p = [101 \<mapsto> \<lparr>ar_mType = 2, ar_mpClient = Some 1, mRequestDone = False, mResult = ERROR_OTHER\<rparr>]"
proof -
  obtain raw where raw: "proxy_allocate_request BigEndian 2 101 = Some raw"
    using readable_requests(1) by blast
  define p where "p = (proxy_init True)\<lparr>mAllocateRequestMap :=
    [101 \<mapsto> \<lparr>ar_mType = 2, ar_mpClient = Some 1, mRequestDone = False, mResult = ERROR_OTHER\<rparr>], proxy_msgId := 2\<rparr>"
  have "client_reachable BigEndian (proxy_init True, (\<lambda>_. Outside)(0 := AllocChecked 2 101 (Some 1) True))"
    by (rule reach_thread [OF client_reachable.start, where i = "CallAllocate 2 101 (Some 1)"])
      (simp_all add: proxy_allocate_check_def connectIpcIfNecessary_def proxy_init_def isNoError_def)
  then have "client_reachable BigEndian (p, ((\<lambda>_. Outside)(0 := AllocChecked 2 101 (Some 1) True))(0 := AllocSent 101))"
    by (rule reach_thread [where i = Go])
      (simp_all add: proxy_allocate_send_def proxy_allocate_enter_def raw proxy_nextMsgId_def proxy_init_def p_def)
  then have "client_reachable BigEndian (p, (\<lambda>_. Outside)(0 := AllocSent 101))"
    by simp
  then have "client_reachable BigEndian (p, ((\<lambda>_. Outside)(0 := AllocSent 101))(0 := AllocWaits 101))"
    by (rule reach_thread [where i = "Answer NO_ERROR []"]) (simp_all add: proxy_allocate_answer_def isNoError_def)
  then show thesis
    by (intro that [of p]) (simp_all add: p_def)
qed

theorem one_allocation_per_channel_witness:
  "\<exists>p pcs. client_reachable BigEndian (p, pcs) \<and> pcs 0 = AllocWaits 101 \<and> proxy_allocate_poll 101 p = (Inr (), p)"
proof -
  obtain p where p: "client_reachable BigEndian (p, (\<lambda>_. Outside)(0 := AllocWaits 101))"
    "mAllocateRequestMap p = [101 \<mapsto> \<lparr>ar_mType = 2, ar_mpClient = Some 1, mRequestDone = False, mResult = ERROR_OTHER\<rparr>]"
    by (rule sample_waiting)
  have "proxy_allocate_poll 101 p = (Inr (), p)"
    using one_allocation_per_channel [OF p(1), of 0 101] p(2) by simp
  then show ?thesis
    using p(1) by (intro exI [of _ p] exI [of _ "(\<lambda>_. Outside)(0 := AllocWaits 101)"]) simp
qed


end
