(* ===== verification/ClientAgent.thy ===== *)
theory ClientAgent
  imports ProxyThreads L1Faults
begin

text \<open>
  The client library (\<^verbatim>\<open>CConnectivityAgentProxy\<close>) and the agent's L1 (\<^verbatim>\<open>L1InterfaceStub\<close>) together: what becomes of
  the raw messages one of them makes when the other one handles them.
\<close>

section \<open>Sending\<close>

lemma send_request_made:
  assumes "mpIpc p" "mChannelRegistry p c \<noteq> None" "bs \<noteq> []" "length bs \<le> 65519"
  obtains raw a where "\<And>ipc. ipc (proxy_msgId p) raw = NO_ERROR \<Longrightarrow>
      proxy_sendData e c bs ipc p = Some (NO_ERROR, Some raw, p\<lparr>proxy_msgId := proxy_msgId p + 2\<rparr>)"
    "accessor_fromRaw e raw = Some a" "mOperation a = E_SEND_DATA" "mChannelID a = c" "accessor_bytes a = Some bs"
    "mDataSize a = of_nat (length bs)" "length raw = 16 + length bs"
proof -
  let ?a = "accessor_setData bs (setOpCode E_SEND_DATA (setChannelID c accessor_new))"
  have n: "unat (of_nat (length bs) :: u32) = length bs"
    using assms(4) by (simp add: unsigned_of_nat take_bit_nat_eq_self)
  have wf: "accessor_wf ?a"
    using assms(4) by (intro accessor_wf_setData) simp_all
  have size: "mDataSize ?a = of_nat (length bs)"
    using assms(3) by (simp add: accessor_setData_def)
  obtain raw where raw: "copyToRawArray e ?a = Some raw" "length raw = 16 + unat (mDataSize ?a)" "accessor_fromRaw e (raw @ []) = Some ?a"
    using accessor_raw_roundtrip [OF wf] by metis
  have bytes: "accessor_bytes ?a = Some bs"
    using accessor_bytes_wf [OF wf] assms(3) by (simp add: accessor_setData_def)
  have sz: "0 <s (of_nat (length bs) :: u32)" "(of_nat (length bs) :: u32) < 0xFFFF"
  proof -
    have "sint (of_nat (length bs) :: u32) = int (length bs)"
      using assms(4) by (simp add: signed_of_nat signed_take_bit_int_eq_self)
    then show "0 <s (of_nat (length bs) :: u32)"
      using assms(3) by (simp add: word_sless_alt)
    show "(of_nat (length bs) :: u32) < 0xFFFF"
      using assms(4) n by (simp add: word_less_nat_alt)
  qed
  show thesis
  proof (rule that)
    show "proxy_sendData e c bs ipc p = Some (NO_ERROR, Some raw, p\<lparr>proxy_msgId := proxy_msgId p + 2\<rparr>)"
      if "ipc (proxy_msgId p) raw = NO_ERROR" for ipc
      using that assms raw(1,2) sz n size
      by (simp add: proxy_sendData_def connectIpcIfNecessary_def isNoError_def proxy_nextMsgId_def)
  qed (use raw size n bytes in simp_all)
qed

lemma agent_takes_data:
  assumes "mL1ChannelRegistry w c = Some info" "mpSourceAgent info = Some sa" "source_channel_ok sa s w"
    and "mChannelID a = c" "accessor_bytes a = Some bs" "mDataSize a = of_nat (length bs)" "length bs \<le> MAX_SIZE"
  shows "\<exists>err w'. L1_sendData a w = Some (err, w')
    \<and> (if source_pool sa w = 0 then err = ERROR_NO_FREE_BUFFERS_LEFT \<and> w' = w
       else err = NO_ERROR \<and> fst (source_stream s w') = fst (source_stream s w) @ [bs])"
proof -
  have n: "unat (of_nat (length bs) :: u32) = length bs"
    using assms(7) by (simp add: MAX_SIZE_def unsigned_of_nat take_bit_nat_eq_self)
  have new: "buffer_mem_ok Buffer_new" by (simp add: buffer_mem_ok_def Buffer_new_def)
  obtain b1 b2 where b: "reserveSize (of_nat (length bs)) Buffer_new = Some b1"
    "fill_data bs (setFilledSize (of_nat (length bs)) b1) = Some b2" "buffer_wf b2" "content b2 = bs"
    using reserve_fill [OF new assms(7)] by (metis fill_data_setFilledSize option.simps(9))
  show ?thesis
  proof (cases "source_pool sa w = 0")
    case True
    then show ?thesis
      using assms b fillBuffer_full [OF assms(3) True, of b2] n by (simp add: L1_sendData_def fill_channel_def)
  next
    case False
    obtain w' where "CSourceAgent_fillBuffer sa b2 w = Some (NO_ERROR, forgetData b2, w')"
      "source_stream s w' = (fst (source_stream s w) @ [content b2], snd (source_stream s w))"
      using fillBuffer_queues [OF assms(3) False b(3)] by metis
    then show ?thesis
      using False assms b n by (simp add: L1_sendData_def fill_channel_def)
  qed
qed

lemma agent_gets_send:
  assumes "accessor_fromRaw e raw = Some a" "mOperation a = E_SEND_DATA" "mChannelID a \<noteq> CA_SERVICE_CHANNEL"
  shows "L1_OnAsyncRequest e agent_request raw dir w = map_option snd (L1_sendData a w)"
  using assms by (cases "L1_sendData a w")
    (auto simp: L1_OnAsyncRequest_def dispatch_client_def client_callback_def processClientSendRequest_def)

section \<open>Properties\<close>


text \<open>
  The client library accepts up to 65534 bytes. With more than 4096 of them the message the call makes
  fails an assertion of the agent, and with more than 65519 the call writes past its own array.
\<close>

theorem large_data_overruns:
  assumes "mpIpc p" "mChannelRegistry p c \<noteq> None" "length bs < 65535" "c \<noteq> CA_SERVICE_CHANNEL"
    and "mL1ChannelRegistry w c \<noteq> None" "\<forall>msgid raw. ipc msgid raw = NO_ERROR"
  shows "(4096 < length bs \<and> length bs \<le> 65519 \<longrightarrow>
      (\<exists>raw p'. proxy_sendData e c bs ipc p = Some (NO_ERROR, Some raw, p') \<and> L1_OnAsyncRequest e agent_request raw dir w = None))
    \<and> (65519 < length bs \<longrightarrow> proxy_sendData e c bs ipc p = None)"
proof (intro conjI impI)
  assume len: "4096 < length bs \<and> length bs \<le> 65519"
  then have "bs \<noteq> []" "length bs \<le> 65519" by auto
  with assms(1,2) obtain raw a where r: "\<And>ipc. ipc (proxy_msgId p) raw = NO_ERROR \<Longrightarrow>
      proxy_sendData e c bs ipc p = Some (NO_ERROR, Some raw, p\<lparr>proxy_msgId := proxy_msgId p + 2\<rparr>)"
    "accessor_fromRaw e raw = Some a" "mOperation a = E_SEND_DATA" "mChannelID a = c" "mDataSize a = of_nat (length bs)"
    by (rule send_request_made) blast
  have "unat (mDataSize a) = length bs"
    using len r(5) by (simp add: unsigned_of_nat take_bit_nat_eq_self)
  then have "L1_sendData a w = None"
    using len r(4) assms(5) by (auto simp: L1_sendData_def MAX_SIZE_def cassert_def)
  moreover have "L1_OnAsyncRequest e agent_request raw dir w = map_option snd (L1_sendData a w)"
    using r(2-4) assms(4) by (intro agent_gets_send) simp_all
  ultimately show "\<exists>raw p'. proxy_sendData e c bs ipc p = Some (NO_ERROR, Some raw, p')
      \<and> L1_OnAsyncRequest e agent_request raw dir w = None"
    using r(1) [of ipc] assms(6) by auto
next
  assume len: "65519 < length bs"
  let ?a = "accessor_setData bs (setOpCode E_SEND_DATA (setChannelID c accessor_new))"
  have n: "unat (of_nat (length bs) :: u32) = length bs"
    using assms(3) by (simp add: unsigned_of_nat take_bit_nat_eq_self)
  have "bs \<noteq> []" using len by (cases bs) simp_all
  then have size: "mDataSize ?a = of_nat (length bs)"
    by (simp add: accessor_setData_def)
  have wf: "accessor_wf ?a"
    using assms(3) by (intro accessor_wf_setData) simp_all
  obtain raw where raw: "copyToRawArray e ?a = Some raw" "length raw = 16 + unat (mDataSize ?a)"
    using accessor_raw_roundtrip [OF wf] by metis
  have "(of_nat (length bs) :: u32) < 0xFFFF"
    using assms(3) n by (simp add: word_less_nat_alt)
  moreover have "0 <s (of_nat (length bs) :: u32)"
    using assms(3) \<open>bs \<noteq> []\<close> by (simp add: word_sless_alt signed_of_nat signed_take_bit_int_eq_self)
  ultimately show "proxy_sendData e c bs ipc p = None"
    using raw size n len assms(1,2)
    by (simp add: proxy_sendData_def connectIpcIfNecessary_def isNoError_def cassert_def)
qed

text \<open>
  Closing a channel the agent does not know (any more) never returns: the agent takes the
  request, keeps its state, answers nothing and starts no timer, and the thread goes on waiting.
\<close>

theorem unknown_close_waits:
  assumes "mpIpc p" "mChannelRegistry p c = Some info" "mDeallocateRequestResultMap p c = None"
    and "mL1ChannelRegistry w c = None"
  shows "\<exists>msgid raw p'. proxy_deallocate_begin e c p = Some (Inr (msgid, raw, info), p')
    \<and> L1_OnRequest e agent_request raw 0 dir w = Some ([], w)
    \<and> thread_step e (Answer NO_ERROR []) (CloseSent c info) p' = Some (Some (CloseWaits c info, p'))
    \<and> thread_step e Go (CloseWaits c info) p' = Some None"
proof -
  let ?a = "setOpCode E_DEALLOCATE_CHANNEL (setChannelID c accessor_new)"
  have "accessor_wf ?a" by simp
  then obtain raw where raw: "copyToRawArray e ?a = Some raw" "accessor_fromRaw e (raw @ []) = Some ?a"
    using accessor_raw_roundtrip by metis
  have "L1_OnRequest e agent_request raw 0 dir w = Some ([], w)"
    using raw(2) assms(4)
    by (simp add: L1_OnRequest_def dispatch_client_def client_callback_def processClientDeallocateRequest_def)
  then show ?thesis
    using assms raw(1) by (simp add: proxy_deallocate_begin_def connectIpcIfNecessary_def isNoError_def proxy_nextMsgId_def
        proxy_deallocate_poll_def)
qed

text \<open>
  The timer of an answered closing request is never cancelled. When it runs out after the
  channel has been allocated again, the client keeps the timeout as an answer, and its next closing of the channel
  returns that error as soon as the request has been sent, and keeps the channel, whatever the agent does.
\<close>

theorem late_timeout_fails_close:
  assumes "mL1ChannelRegistry w c = Some linfo" "\<forall>i. ipc_result w i = NO_ERROR" "mpIpc p" "mChannelRegistry p c = Some info"
  shows "\<exists>w' raw p1 msgid req p2 p3. RequestTimeout_onTimeout e True E_DEALLOCATE_CHANNEL c w = Some w'
    \<and> ipc_log w' = ipc_log w @ [(ci_clientDir linfo, raw)]
    \<and> proxy_OnAsyncRequest e raw p = Some p1 \<and> proxy_deallocate_begin e c p1 = Some (Inr (msgid, req, info), p2)
    \<and> thread_step e (Answer NO_ERROR []) (CloseSent c info) p2 = Some (Some (CloseWaits c info, p2))
    \<and> thread_step e Go (CloseWaits c info) p2 = Some (Some (Finished ERR_TIMEOUT_CODE, p3))
    \<and> mChannelRegistry p3 c = Some info"
proof -
  define a where "a = setErrorCode ERROR_TIMEOUT (accessor_setData (store e 4 ERR_TIMEOUT_CODE)
    (setOpCode E_DEALLOCATE_CHANNEL_RESP (setChannelID c accessor_new)))"
  have wf: "accessor_wf a"
    unfolding a_def accessor_wf_simps by (intro accessor_wf_setData) simp_all
  then obtain raw where raw: "copyToRawArray e a = Some raw" "accessor_fromRaw e (raw @ []) = Some a"
    using accessor_raw_roundtrip by metis
  have ne: "store e 4 ERR_TIMEOUT_CODE \<noteq> []"
    using length_store [of e 4 ERR_TIMEOUT_CODE] by (metis list.size(3) zero_neq_numeral)
  then have f: "mpData a = Some (store e 4 ERR_TIMEOUT_CODE)" "mOperation a = E_DEALLOCATE_CHANNEL_RESP" "mChannelID a = c"
    by (simp_all add: a_def accessor_setData_def)
  have assign: "accessor_assign accessor_new a = Some a"
    using wf by (auto simp: accessor_assign_def accessor_bytes_wf accessor_new_def accessor_wf_def split: option.splits)
  have result: "deallocate_result e c a = Some ERR_TIMEOUT_CODE"
    using f by (simp add: deallocate_result_def load_data_word_def load_store)
  define p1 where "p1 = p\<lparr>mDeallocateRequestResultMap := (mDeallocateRequestResultMap p)(c \<mapsto> a)\<rparr>"
  have msg: "proxy_OnAsyncRequest e raw p = Some p1"
    using raw(2) assign f by (simp add: proxy_OnAsyncRequest_def p1_def)
  obtain req where "copyToRawArray e (setOpCode E_DEALLOCATE_CHANNEL (setChannelID c accessor_new)) = Some req"
    using readable_requests(2) by blast
  moreover have "RequestTimeout_onTimeout e True E_DEALLOCATE_CHANNEL c w
      = Some (snd (ipc_asyncRequest raw (ci_clientDir linfo) w))"
    using assms(1) raw(1) by (simp add: RequestTimeout_onTimeout_def a_def)
  moreover have "ipc_log (snd (ipc_asyncRequest raw (ci_clientDir linfo) w)) = ipc_log w @ [(ci_clientDir linfo, raw)]"
    using assms(2) by (simp add: ipc_asyncRequest_def MsgIdGen_next_def isNoError_def)
  ultimately show ?thesis
    using msg assms(3,4) result
    by (simp add: proxy_deallocate_begin_def connectIpcIfNecessary_def isNoError_def proxy_nextMsgId_def
        proxy_deallocate_poll_def proxy_deallocate_end_def p1_def)
qed

section \<open>Sample runs\<close>

text \<open>A client with channel 7 open, for the sample agents.\<close>

definition sample_client :: proxy where
  "sample_client = (proxy_init True)\<lparr>mChannelRegistry := [7 \<mapsto> \<lparr>ch_mType = 2, ch_mpClient = Some 1,
     mChannelBuffer = \<lparr>allocated_size = of_nat MAX_SIZE, filled_size = 0, data = Some []\<rparr>\<rparr>]\<rparr>"

lemma sample_client_simps:
  "mpIpc sample_client" "mDeallocateRequestResultMap sample_client c = None" "mChannelRegistry sample_client 7 \<noteq> None"
  by (simp_all add: sample_client_def proxy_init_def)

lemma sample_agent_simps:
  "mL1ChannelRegistry sample_connected 7 = None"
  "mL1ChannelRegistry sample_operational 7 = Some \<lparr>ci_upper = 0xFFFFFFFF, ci_lower = 0, ci_state = E_OPERATIONAL,
      ci_type = 2, mpSourceAgent = Some 4, mpTargetAgent = Some 6, ci_clientDir = 5\<rparr>"
  "source_pool 4 sample_operational = 200" "ipc_result sample_operational i = NO_ERROR"
  "fst (source_stream 5 sample_operational) = []"
  by (simp_all add: sample_operational_def sample_connected_def l1_init_def source_pool_def source_stream_def)


theorem large_data_overruns_witness:
  "\<exists>raw p'. proxy_sendData BigEndian 7 (replicate 5000 1) (\<lambda>_ _. NO_ERROR) sample_client = Some (NO_ERROR, Some raw, p')
    \<and> L1_OnAsyncRequest BigEndian (\<lambda>_ _ _. None) raw 5 sample_operational = None"
  using large_data_overruns [of sample_client 7 "replicate 5000 1" sample_operational "\<lambda>_ _. NO_ERROR" BigEndian "\<lambda>_ _ _. None" 5]
    sample_client_simps sample_agent_simps(2)
  by (simp add: CA_SERVICE_CHANNEL_def)

theorem unknown_close_waits_witness:
  "\<exists>raw p' msgid. proxy_deallocate_begin BigEndian 7 sample_client =
      Some (Inr (msgid, raw, the (mChannelRegistry sample_client 7)), p')
    \<and> L1_OnRequest BigEndian (\<lambda>_ _ _. None) raw 0 5 sample_connected = Some ([], sample_connected)"
proof -
  obtain info where "mChannelRegistry sample_client 7 = Some info"
    using sample_client_simps(3) by auto
  then show ?thesis
    using unknown_close_waits [OF sample_client_simps(1) _ sample_client_simps(2) sample_agent_simps(1), of info BigEndian "\<lambda>_ _ _. None" 5]
    by auto
qed

theorem late_timeout_fails_close_witness:
  "\<exists>w' raw p1. RequestTimeout_onTimeout BigEndian True E_DEALLOCATE_CHANNEL 7 sample_operational = Some w'
    \<and> ipc_log w' = [(5, raw)] \<and> proxy_OnAsyncRequest BigEndian raw sample_client = Some p1
    \<and> proxy_deallocate_begin BigEndian 7 p1 \<noteq> None"
proof -
  obtain info where info: "mChannelRegistry sample_client 7 = Some info"
    using sample_client_simps(3) by auto
  have "ipc_log sample_operational = []"
    by (simp add: sample_operational_def sample_connected_def l1_init_def)
  then show ?thesis
    using late_timeout_fails_close [OF sample_agent_simps(2) _ sample_client_simps(1) info, of BigEndian] sample_agent_simps(4)
    by auto
qed

end
