(* ===== verification/SupervisorTube.thy ===== *)
theory SupervisorTube
  imports Negotiator ProxyThreads
begin

text \<open>
  The client library of the channel supervisor: the requests to the negotiator process and their responses
  (\<^verbatim>\<open>ChannelSupervisor/NegotiatorClient\<close>), and the calls of profiles on channels
  (\<^verbatim>\<open>ChannelSupervisor/Tube\<close>), which join a negotiation with an allocation by the agent.
\<close>

section \<open>Error codes of \<^verbatim>\<open>CSError\<close>\<close>

abbreviation CS_ERROR_OTHER :: ErrorCode where "CS_ERROR_OTHER \<equiv> 1"
abbreviation CS_ERROR_TIMEOUT :: ErrorCode where "CS_ERROR_TIMEOUT \<equiv> 2"
abbreviation CS_IPC_NO_DATA_ERROR :: ErrorCode where "CS_IPC_NO_DATA_ERROR \<equiv> 3"
abbreviation CS_NEGOTIATION_CHANNEL_ERROR :: ErrorCode where "CS_NEGOTIATION_CHANNEL_ERROR \<equiv> 4"
abbreviation CS_UPDATE_MAP_WRONG_CID :: ErrorCode where "CS_UPDATE_MAP_WRONG_CID \<equiv> 12"
abbreviation CS_ATTEMPTS_LIMIT_EXCEEDED :: ErrorCode where "CS_ATTEMPTS_LIMIT_EXCEEDED \<equiv> 13"
abbreviation CS_ALLOCATION_ALREADY_IN_PROGRESS :: ErrorCode where "CS_ALLOCATION_ALREADY_IN_PROGRESS \<equiv> 14"
abbreviation CS_SEND_TO_RESTRICTED_CHANNEL :: ErrorCode where "CS_SEND_TO_RESTRICTED_CHANNEL \<equiv> 15"
abbreviation CS_SEND_TO_NOT_EXISTING_CHANNEL :: ErrorCode where "CS_SEND_TO_NOT_EXISTING_CHANNEL \<equiv> 16"

definition ERRORCODE_SUCCESS :: u32 where
  "ERRORCODE_SUCCESS = 0"

section \<open>The client of the negotiator\<close>

text \<open>A response as far as the client reads it, and the entry of a request that waits for it.\<close>

record nc_response =
  nr_errorCode :: u32
  nr_channelID :: u32

record NegotiatorResponseData =
  nd_mSema :: nat
  nd_mResponse :: "nc_response option"

record NegotiatorClient =
  mResponsesMap :: "u32 \<rightharpoonup> NegotiatorResponseData"
  mMessageId :: u32
  nc_connected :: bool

definition NegotiatorClient_new :: NegotiatorClient where
  "NegotiatorClient_new = \<lparr>mResponsesMap = Map.empty, mMessageId = 1, nc_connected = False\<rparr>"

definition getNextMsgId :: "NegotiatorClient \<Rightarrow> u32 \<times> NegotiatorClient" where
  "getNextMsgId n = (mMessageId n, n\<lparr>mMessageId := mMessageId n + 1\<rparr>)"

text \<open>Fifty attempts to connect; \<^verbatim>\<open>connects\<close> are their outcomes.\<close>

definition MAX_RECONNECT_ATTEMPTS :: nat where
  "MAX_RECONNECT_ATTEMPTS = 50"

fun connect_attempts :: "nat \<Rightarrow> (nat \<Rightarrow> bool) \<Rightarrow> NegotiatorClient \<Rightarrow> bool \<times> NegotiatorClient" where
  "connect_attempts 0 connects n = (False, n)"
| "connect_attempts (Suc k) connects n =
     (if connects 0 then (True, n\<lparr>nc_connected := True\<rparr>) else connect_attempts k (connects \<circ> Suc) n)"

definition ensureConnection :: "(nat \<Rightarrow> bool) \<Rightarrow> NegotiatorClient \<Rightarrow> bool \<times> NegotiatorClient" where
  "ensureConnection connects n =
     (if nc_connected n then (True, n) else connect_attempts MAX_RECONNECT_ATTEMPTS connects n)"

text \<open>The entry of a request is made by whoever comes first, the waiting thread or the response.\<close>

definition getDataForMessageId :: "u32 \<Rightarrow> NegotiatorClient \<Rightarrow> NegotiatorResponseData \<times> NegotiatorClient" where
  "getDataForMessageId i n =
     (case mResponsesMap n i of
        Some d \<Rightarrow> (d, n)
      | None \<Rightarrow> (let d = \<lparr>nd_mSema = 0, nd_mResponse = None\<rparr> in (d, n\<lparr>mResponsesMap := (mResponsesMap n)(i \<mapsto> d)\<rparr>)))"

definition eraseDataForMessageId :: "u32 \<Rightarrow> NegotiatorClient \<Rightarrow> NegotiatorClient" where
  "eraseDataForMessageId i n = n\<lparr>mResponsesMap := (mResponsesMap n)(i := None)\<rparr>"

definition signalResponseSemaphore :: "nc_response \<Rightarrow> u32 \<Rightarrow> NegotiatorClient \<Rightarrow> NegotiatorClient" where
  "signalResponseSemaphore r i n =
     (let (d, n) = getDataForMessageId i n
      in n\<lparr>mResponsesMap := (mResponsesMap n)(i \<mapsto> d\<lparr>nd_mResponse := Some r, nd_mSema := nd_mSema d + 1\<rparr>)\<rparr>)"

text \<open>
  The end of \<^verbatim>\<open>waitForResponse\<close>. Without a timeout the semaphore must have been signalled (\<^verbatim>\<open>None\<close>: the thread still
  waits); with one there is no result, and the negotiator is told to forget the request.
\<close>

definition waitForResponse_end :: "bool \<Rightarrow> u32 \<Rightarrow> NegotiatorClient \<Rightarrow> (nc_response option \<times> NegotiatorClient) option" where
  "waitForResponse_end timed_out i n =
     (case mResponsesMap n i of
        None \<Rightarrow> None
      | Some d \<Rightarrow>
          if timed_out then Some (None, eraseDataForMessageId i n)
          else if 0 < nd_mSema d then Some (nd_mResponse d, eraseDataForMessageId i n)
          else None)"

text \<open>How a request ends for its caller: the error and the channel identifier, which is also changed by errors.\<close>

datatype nc_outcome = SendFailed | TimedOut | Answered nc_response

definition communicate_result :: "nc_outcome \<Rightarrow> u32 \<Rightarrow> ErrorCode \<times> u32" where
  "communicate_result outcome channelID =
     (case outcome of
        SendFailed \<Rightarrow> (CS_IPC_NO_DATA_ERROR, channelID)
      | TimedOut \<Rightarrow> (CS_ERROR_TIMEOUT, channelID)
      | Answered r \<Rightarrow>
          if nr_errorCode r = ERRORCODE_SUCCESS then (NO_ERROR, nr_channelID r) else (CS_ERROR_OTHER, 0))"

text \<open>
  The negotiator is a parameter: \<^verbatim>\<open>ask\<close> gives the outcome of a request in the environment and the environment after it.
\<close>

type_synonym 'n ask = "RequestType \<Rightarrow> string \<Rightarrow> u32 \<Rightarrow> 'n \<Rightarrow> nc_outcome \<times> 'n"

definition communicateWithNegotiator :: "'n ask \<Rightarrow> RequestType \<Rightarrow> string \<Rightarrow> u32 \<Rightarrow> 'n \<Rightarrow> ErrorCode \<times> u32 \<times> 'n" where
  "communicateWithNegotiator ask requestType tag channelID n =
     (let (outcome, n) = ask requestType tag channelID n; (err, channelID) = communicate_result outcome channelID
      in (err, channelID, n))"

definition negotiateChannel :: "'n ask \<Rightarrow> string \<Rightarrow> u32 \<Rightarrow> 'n \<Rightarrow> ErrorCode \<times> u32 \<times> 'n" where
  "negotiateChannel ask tag channelID n = communicateWithNegotiator ask REQUESTTYPE_ALLOCATE_CHANNEL tag channelID n"

definition updateMapWithCID :: "'n ask \<Rightarrow> string \<Rightarrow> u32 \<Rightarrow> 'n \<Rightarrow> ErrorCode \<times> 'n" where
  "updateMapWithCID ask tag channelID n =
     (let (err, _, n) = communicateWithNegotiator ask REQUESTTYPE_CA_ALLOCATION_DONE tag channelID n in (err, n))"

definition tube_kickWatchdog :: "'n ask \<Rightarrow> u32 \<Rightarrow> string \<Rightarrow> 'n \<Rightarrow> ErrorCode \<times> 'n" where
  "tube_kickWatchdog ask channelId tag n =
     (let (err, _, n) = communicateWithNegotiator ask REQUESTTYPE_UPDATE_CHANNEL_INFO tag channelId n in (err, n))"

section \<open>Observers of channels\<close>

text \<open>
  A \<^verbatim>\<open>ChannelObserver\<close> stands between the agent's callbacks and the observer of the caller. They are never in the map under
  their channel: the index \<^verbatim>\<open>channel\<close> is a static variable that stays 0.
\<close>

record ChannelObserver =
  m_tubeObserver :: "addr option"

datatype tube_event = OnDataReceived addr u32 u32 | OnBufferOverflow addr u32 | OnChannelDeleted addr u32 | OnConnectionLost addr

record 'n tube =
  observerMap :: "int \<rightharpoonup> addr"
  observer_objects :: "addr \<rightharpoonup> ChannelObserver"
  next_observer :: addr
  env :: 'n

definition tube_init :: "'n \<Rightarrow> 'n tube" where
  "tube_init n = \<lparr>observerMap = Map.empty, observer_objects = Map.empty, next_observer = 0, env = n\<rparr>"

definition new_observer :: "addr \<Rightarrow> 'n tube \<Rightarrow> addr \<times> 'n tube" where
  "new_observer client t =
     (let a = next_observer t
      in (a, t\<lparr>observer_objects := (observer_objects t)(a \<mapsto> \<lparr>m_tubeObserver = Some client\<rparr>), next_observer := a + 1\<rparr>))"

text \<open>A callback of the agent executed on an observer; on a deleted one it has no result.\<close>

fun observer_callback :: "CCallbackWrapper \<Rightarrow> 'n tube \<Rightarrow> (tube_event list \<times> 'n tube) option" where
  "observer_callback (CDataReceivedCallback a c n) t =
     (case observer_objects t a of None \<Rightarrow> None
      | Some ob \<Rightarrow> Some (case m_tubeObserver ob of None \<Rightarrow> [] | Some cl \<Rightarrow> [OnDataReceived cl c n], t))"
| "observer_callback (CBufferOverflowCallback a c) t =
     (case observer_objects t a of None \<Rightarrow> None
      | Some ob \<Rightarrow> Some (case m_tubeObserver ob of None \<Rightarrow> [] | Some cl \<Rightarrow> [OnBufferOverflow cl c], t))"
| "observer_callback (CChannelDeletedCallback a c) t =
     (case observer_objects t a of None \<Rightarrow> None
      | Some ob \<Rightarrow> Some (case m_tubeObserver ob of None \<Rightarrow> [] | Some cl \<Rightarrow> [OnChannelDeleted cl c],
          t\<lparr>observer_objects := (observer_objects t)(a \<mapsto> ob\<lparr>m_tubeObserver := None\<rparr>)\<rparr>))"
| "observer_callback (CConnectionLostCallback a) t =
     (case observer_objects t a of None \<Rightarrow> None
      | Some ob \<Rightarrow> Some (case m_tubeObserver ob of None \<Rightarrow> [] | Some cl \<Rightarrow> [OnConnectionLost cl], t))"

section \<open>Allocating a channel\<close>

definition ALLOCATION_ATTEMPTS :: nat where
  "ALLOCATION_ATTEMPTS = 100"

text \<open>How one turn of the loop ends: by \<^verbatim>\<open>break\<close>, by \<^verbatim>\<open>continue\<close> (which does not count), or at its end.\<close>

datatype attempt = Break ErrorCode | Continue ErrorCode | Counted

type_synonym 'n ca_allocate = "u32 \<Rightarrow> addr \<Rightarrow> 'n \<Rightarrow> (ErrorCode \<times> 'n) option"

definition tube_attempt ::
  "'n ask \<Rightarrow> 'n ca_allocate \<Rightarrow> string \<Rightarrow> addr \<Rightarrow> u32 \<Rightarrow> 'n tube \<Rightarrow> (attempt \<times> u32 \<times> 'n tube) option" where
  "tube_attempt ask ca tag obs channelId t =
     (let (err, channelId, n) = negotiateChannel ask tag channelId (env t); t = t\<lparr>env := n\<rparr>
      in if channelId \<noteq> 0 \<and> isNoError err
         then do {
           let t = t\<lparr>observerMap := (observerMap t)(0 \<mapsto> obs)\<rparr>;
           (caError, n) \<leftarrow> ca channelId obs (env t);
           let t = t\<lparr>env := n\<rparr>;
           if isNoError caError
           then (let (err, n) = updateMapWithCID ask tag channelId (env t); t = t\<lparr>env := n\<rparr>
             in Some (if isNoError err then Break NO_ERROR
                      else if err \<noteq> CS_UPDATE_MAP_WRONG_CID then Break err else Counted, channelId, t))
           else Some (if caError = ERROR_CHANNEL_BUSY then Continue err
             else if caError = ERROR_ALLOCATION_IN_PROGRESS then Break CS_ALLOCATION_ALREADY_IN_PROGRESS
             else if caError = ERROR_REQUEST_FAILED then Break CS_IPC_NO_DATA_ERROR
             else Break CS_ERROR_OTHER, channelId, t) }
         else Some (if err \<noteq> CS_NEGOTIATION_CHANNEL_ERROR then Break err else Counted, channelId, t))"

partial_function (option) tube_attempts ::
  "'n ask \<Rightarrow> 'n ca_allocate \<Rightarrow> string \<Rightarrow> addr \<Rightarrow> nat \<Rightarrow> ErrorCode \<Rightarrow> u32 \<Rightarrow> 'n tube \<Rightarrow> (ErrorCode \<times> u32 \<times> 'n tube) option" where
  "tube_attempts ask ca tag obs i err channelId t =
     (if i < ALLOCATION_ATTEMPTS
      then do {
        (r, channelId, t) \<leftarrow> tube_attempt ask ca tag obs channelId t;
        (case r of
           Break err \<Rightarrow> Some (err, channelId, t)
         | Continue err \<Rightarrow> tube_attempts ask ca tag obs i err channelId t
         | Counted \<Rightarrow> tube_attempts ask ca tag obs (i + 1) CS_ATTEMPTS_LIMIT_EXCEEDED channelId t) }
      else Some (err, channelId, t))"

definition tube_allocateChannel ::
  "'n ask \<Rightarrow> 'n ca_allocate \<Rightarrow> addr option \<Rightarrow> string \<Rightarrow> u32 \<Rightarrow> 'n tube \<Rightarrow> (ErrorCode \<times> u32 \<times> 'n tube) option" where
  "tube_allocateChannel ask ca observer tag channelId t =
     (if tag = [] then Some (CS_ERROR_OTHER, channelId, t)
      else case observer of
        None \<Rightarrow> Some (CS_ERROR_OTHER, channelId, t)
      | Some client \<Rightarrow>
          (let (obs, t) = new_observer client t in tube_attempts ask ca tag obs 0 CS_ERROR_OTHER 0 t))"

definition tube_allocateServiceChannel ::
  "'n ca_allocate \<Rightarrow> addr option \<Rightarrow> u32 \<Rightarrow> 'n tube \<Rightarrow> (ErrorCode \<times> 'n tube) option" where
  "tube_allocateServiceChannel ca observer channelId t =
     (case observer of
        None \<Rightarrow> Some (CS_ERROR_OTHER, t)
      | Some client \<Rightarrow>
          (let (obs, t) = new_observer client t; t = t\<lparr>observerMap := (observerMap t)(0 \<mapsto> obs)\<rparr>
           in do {
             (caError, n) \<leftarrow> ca channelId obs (env t);
             Some (if isNoError caError then NO_ERROR else CS_ERROR_OTHER, t\<lparr>env := n\<rparr>) }))"

section \<open>Closing a channel\<close>

definition isIdRestricted :: "u32 \<Rightarrow> bool" where
  "isIdRestricted numberToCheck \<longleftrightarrow> numberToCheck < CHANNEL_ID_START_NUMBER"

definition tube_deallocateChannel ::
  "(u32 \<Rightarrow> 'n \<Rightarrow> (ErrorCode \<times> 'n) option) \<Rightarrow> (u32 \<Rightarrow> 'n \<Rightarrow> 'n) \<Rightarrow> u32 \<Rightarrow> 'n tube \<Rightarrow> (ErrorCode \<times> 'n tube) option" where
  "tube_deallocateChannel closeChannel freeChannel channelId t =
     (if isIdRestricted channelId then Some (CS_ERROR_OTHER, t)
      else do {
        (caError, n) \<leftarrow> closeChannel channelId (env t);
        let t = t\<lparr>env := n\<rparr>;
        if caError = ERROR_REQUEST_FAILED then Some (CS_IPC_NO_DATA_ERROR, t)
        else (let t = (case observerMap t (sint channelId) of
                None \<Rightarrow> t
              | Some obs \<Rightarrow> t\<lparr>observer_objects := (observer_objects t)(obs := None),
                  observerMap := (observerMap t)(sint channelId := None)\<rparr>)
              in Some (NO_ERROR, t\<lparr>env := freeChannel channelId (env t)\<rparr>)) })"

section \<open>Data\<close>

text \<open>The errors of the agent's client library as the errors of the tube.\<close>

definition tube_sendData :: "u32 \<Rightarrow> ErrorCode \<Rightarrow> ErrorCode" where
  "tube_sendData channelId caError =
     (if channelId \<noteq> CA_SERVICE_CHANNEL
      then if \<not> isNoError caError
        then if caError = ERROR_NOT_FOUND then CS_SEND_TO_NOT_EXISTING_CHANNEL
          else if caError = ERROR_REQUEST_FAILED then CS_IPC_NO_DATA_ERROR else CS_ERROR_OTHER
        else NO_ERROR
      else CS_SEND_TO_RESTRICTED_CHANNEL)"

definition tube_receiveData :: "ErrorCode \<Rightarrow> ErrorCode" where
  "tube_receiveData caError = (if isNoError caError then NO_ERROR else CS_ERROR_OTHER)"

definition tube_getFreeSize :: "ErrorCode \<Rightarrow> ErrorCode" where
  "tube_getFreeSize caError = (if isNoError caError then NO_ERROR else CS_ERROR_OTHER)"

section \<open>The whole call of the agent's client library\<close>

text \<open>
  \<^verbatim>\<open>allocateChannel\<close> of the proxy run to its end by one thread: \<^verbatim>\<open>world\<close> gives the outcome of its request and the messages
  that arrive while it waits. It waits for ever when they do not contain its response.
\<close>

fun proxy_allocate_wait :: "endian \<Rightarrow> u32 \<Rightarrow> u8 list list \<Rightarrow> proxy \<Rightarrow> (ErrorCode \<times> proxy) option" where
  "proxy_allocate_wait e c msgs p =
     (case proxy_allocate_poll c p of
        (Inl err, p) \<Rightarrow> Some (err, p)
      | (Inr _, p) \<Rightarrow> (case msgs of [] \<Rightarrow> None
          | raw # msgs \<Rightarrow> (case proxy_OnAsyncRequest e raw p of None \<Rightarrow> None | Some p \<Rightarrow> proxy_allocate_wait e c msgs p)))"

definition proxy_allocateChannel ::
  "endian \<Rightarrow> u32 \<Rightarrow> (u32 \<Rightarrow> u8 list \<Rightarrow> ErrorCode \<times> u8 list \<times> u8 list list) \<Rightarrow> u32 \<Rightarrow> addr \<Rightarrow> proxy \<Rightarrow> (ErrorCode \<times> proxy) option" where
  "proxy_allocateChannel e prio world c observer p =
     (case proxy_allocate_check c (Some observer) p of
        Inl err \<Rightarrow> Some (err, p)
      | Inr unknown \<Rightarrow> do {
          (r, p) \<leftarrow> proxy_allocate_send e prio c (Some observer) unknown p;
          (case r of
             Inl err \<Rightarrow> Some (err, p)
           | Inr (msgid, buf) \<Rightarrow> (let (err, resp, msgs) = world msgid buf in do {
               (r, p) \<leftarrow> proxy_allocate_answer e c err resp p;
               (case r of Inl err \<Rightarrow> Some (err, p) | Inr _ \<Rightarrow> proxy_allocate_wait e c msgs p) })) })"

end
