(* ===== verification/TubeAllocation.thy ===== *)
theory TubeAllocation
  imports SupervisorTube
begin

text \<open>
  When the calls of the tube end, and what they leave behind. What the loop of \<^verbatim>\<open>allocateChannel\<close> needs of the negotiator
  and of the agent's client library is the locale \<^verbatim>\<open>channel_negotiation\<close>: a negotiated identifier is larger than the one
  proposed, and the agent's library returns, and reports a busy channel only for an identifier it accepts.
\<close>

section \<open>One turn of the loop\<close>

lemma communicate_codes:
  "communicateWithNegotiator ask rt tag c n = (err, c', n') \<Longrightarrow>
     err \<in> {NO_ERROR, CS_ERROR_OTHER, CS_ERROR_TIMEOUT, CS_IPC_NO_DATA_ERROR}"
  by (auto simp: communicateWithNegotiator_def communicate_result_def split: prod.splits nc_outcome.splits if_splits)

text \<open>
  The errors of the negotiator's client never are the two that end a turn at its end, so no turn counts as an attempt.
\<close>

lemma attempt_never_counted: "tube_attempt ask ca tag obs c t \<noteq> Some (Counted, c', t')"
proof
  assume "tube_attempt ask ca tag obs c t = Some (Counted, c', t')"
  then show False
    by (auto simp: tube_attempt_def negotiateChannel_def updateMapWithCID_def Let_def
        split: prod.splits if_splits bind_splits dest!: communicate_codes)
qed

lemma attempt_observer:
  "tube_attempt ask ca tag obs c t = Some (r, c', t') \<Longrightarrow>
     observer_objects t' = observer_objects t \<and> next_observer t' = next_observer t
     \<and> (observerMap t' = observerMap t \<or> observerMap t' = (observerMap t)(0 \<mapsto> obs))"
  by (auto simp: tube_attempt_def Let_def split: prod.splits if_splits bind_splits)

text \<open>The errors with which a turn ends the loop.\<close>

lemma attempt_codes:
  "tube_attempt ask ca tag obs c t = Some (Break err, c', t') \<Longrightarrow>
     err \<in> {NO_ERROR, CS_ERROR_OTHER, CS_ERROR_TIMEOUT, CS_IPC_NO_DATA_ERROR, CS_ALLOCATION_ALREADY_IN_PROGRESS}"
  by (auto simp: tube_attempt_def negotiateChannel_def updateMapWithCID_def Let_def
      split: prod.splits if_splits bind_splits dest!: communicate_codes)

section \<open>The end of the loop\<close>

locale channel_negotiation =
  fixes ask :: "'n ask" and ca :: "'n ca_allocate" and inv :: "'n \<Rightarrow> bool"
  assumes ask_inv: "inv n \<Longrightarrow> ask rt tag c n = (outcome, n') \<Longrightarrow> inv n'"
    and ascending: "inv n \<Longrightarrow> ask REQUESTTYPE_ALLOCATE_CHANNEL tag c n = (Answered r, n') \<Longrightarrow>
      nr_errorCode r = ERRORCODE_SUCCESS \<Longrightarrow> nr_channelID r \<noteq> 0 \<Longrightarrow> c < nr_channelID r"
    and ca_returns: "inv n \<Longrightarrow> \<exists>err n'. ca c obs n = Some (err, n') \<and> inv n' \<and> (err = ERROR_CHANNEL_BUSY \<longrightarrow> c \<le> 0xFFFF)"
begin

lemma negotiate_inv: "inv n \<Longrightarrow> communicateWithNegotiator ask rt tag c n = (err, c', n') \<Longrightarrow> inv n'"
  by (auto simp: communicateWithNegotiator_def split: prod.splits dest: ask_inv)

lemma negotiate_ascends:
  "inv n \<Longrightarrow> negotiateChannel ask tag c n = (err, c', n') \<Longrightarrow> isNoError err \<Longrightarrow> c' \<noteq> 0 \<Longrightarrow> c < c'"
  by (auto simp: negotiateChannel_def communicateWithNegotiator_def communicate_result_def isNoError_def
      split: prod.splits nc_outcome.splits if_splits dest: ascending)

lemma attempt_returns:
  assumes "inv (env t)"
  shows "\<exists>r c' t'. tube_attempt ask ca tag obs c t = Some (r, c', t') \<and> inv (env t')
    \<and> (\<forall>err. r = Continue err \<longrightarrow> c < c' \<and> c' \<le> 0xFFFF)"
proof -
  obtain err c' n where neg: "negotiateChannel ask tag c (env t) = (err, c', n)"
    by (metis prod_cases3)
  have n: "inv n"
    using assms neg negotiate_inv by (auto simp: negotiateChannel_def)
  show ?thesis
  proof (cases "c' \<noteq> 0 \<and> isNoError err")
    case False
    then show ?thesis
      using neg n by (auto simp: tube_attempt_def)
  next
    case True
    then have up: "c < c'"
      using negotiate_ascends [OF assms neg] by simp
    obtain caErr n1 where ca: "ca c' obs n = Some (caErr, n1)" "inv n1" "caErr = ERROR_CHANNEL_BUSY \<longrightarrow> c' \<le> 0xFFFF"
      using ca_returns [OF n] by blast
    obtain err2 n2 where upd: "updateMapWithCID ask tag c' n1 = (err2, n2)"
      by fastforce
    have "inv n2"
      using upd negotiate_inv [OF ca(2)] by (auto simp: updateMapWithCID_def split: prod.splits)
    then show ?thesis
      using True neg ca upd up by (auto simp: tube_attempt_def isNoError_def Let_def)
  qed
qed

lemma attempts_end:
  assumes "inv (env t)"
  shows "\<exists>err' c' t'. tube_attempts ask ca tag obs 0 err c t = Some (err', c', t') \<and> inv (env t')
    \<and> err' \<in> {NO_ERROR, CS_ERROR_OTHER, CS_ERROR_TIMEOUT, CS_IPC_NO_DATA_ERROR, CS_ALLOCATION_ALREADY_IN_PROGRESS}"
  using assms
proof (induction "0xFFFF - unat c" arbitrary: c err t rule: less_induct)
  case less
  obtain r c1 t1 where a: "tube_attempt ask ca tag obs c t = Some (r, c1, t1)" "inv (env t1)"
    "\<And>err. r = Continue err \<Longrightarrow> c < c1 \<and> c1 \<le> 0xFFFF"
    using attempt_returns [OF less.prems] by metis
  show ?case
  proof (cases r)
    case (Break err1)
    then show ?thesis
      using a attempt_codes [of ask ca tag obs c t err1 c1 t1] by (subst tube_attempts.simps) (simp add: ALLOCATION_ATTEMPTS_def)
  next
    case (Continue err1)
    then have "c < c1" "c1 \<le> 0xFFFF"
      using a(3) by simp_all
    then have "0xFFFF - unat c1 < 0xFFFF - unat c"
      by (simp add: word_less_nat_alt word_le_nat_alt)
    from less.hyps [OF this a(2), of err1] show ?thesis
      using a(1) Continue by (subst tube_attempts.simps) (simp add: ALLOCATION_ATTEMPTS_def)
  next
    case Counted
    then show ?thesis
      using a(1) attempt_never_counted by blast
  qed
qed

end

section \<open>The negotiator of the master and the agent's library\<close>

text \<open>
  The environment of a client on the master's device: its negotiator and the proxy of its agent. The other side
  agrees at once, and the agent answers a request with the given code, as \<^verbatim>\<open>L1InterfaceStub\<close> does: an error in the response, a
  success in a notification.
\<close>

definition master_ask :: "(negotiator \<times> proxy) ask" where
  "master_ask rt tag c = (\<lambda>(ng, p).
     if rt = REQUESTTYPE_ALLOCATE_CHANNEL
     then (case Allocation_onLocalRequest \<lparr>r_tag = tag, r_channelID = c, r_type = rt\<rparr> \<lparr>rc_clientID = 0, rc_responseID = 0\<rparr>
         (new_Processor AllocationProcessor REQUESTTYPE_UNKNOWN NOTIFICATIONTTYPE_ALLOCATE True) ng of
         None \<Rightarrow> (TimedOut, ng, p)
       | Some (q, ng) \<Rightarrow> (Answered \<lparr>nr_errorCode = ERRORCODE_SUCCESS, nr_channelID = p_channelID q\<rparr>, ng, p))
     else (Answered \<lparr>nr_errorCode = ERRORCODE_SUCCESS, nr_channelID = c\<rparr>, ng, p))"

definition agent_answer :: "endian \<Rightarrow> (u32 \<Rightarrow> ErrorCode) \<Rightarrow> u32 \<Rightarrow> u8 list \<Rightarrow> ErrorCode \<times> u8 list \<times> u8 list list" where
  "agent_answer e codes msgid buf =
     (case accessor_fromRaw e buf of
        None \<Rightarrow> (ERROR_OTHER, [], [])
      | Some a \<Rightarrow>
          (let a = setErrorCode (codes msgid) (accessor_resetData a) in
           if isNoError (codes msgid)
           then (case copyToRawArray e (setOpCode E_ALLOCATE_CHANNEL_RESP a) of
               None \<Rightarrow> (ERROR_OTHER, [], []) | Some raw \<Rightarrow> (NO_ERROR, [], [raw]))
           else (case copyToRawArray e a of
               None \<Rightarrow> (ERROR_OTHER, [], []) | Some raw \<Rightarrow> (NO_ERROR, raw, []))))"

definition agent_allocate :: "endian \<Rightarrow> u32 \<Rightarrow> (u32 \<Rightarrow> ErrorCode) \<Rightarrow> (negotiator \<times> proxy) ca_allocate" where
  "agent_allocate e prio codes c obs = (\<lambda>(ng, p).
     map_option (\<lambda>(err, p). (err, ng, p)) (proxy_allocateChannel e prio (agent_answer e codes) c obs p))"

lemma master_ask_ascends:
  assumes "master_ask REQUESTTYPE_ALLOCATE_CHANNEL tag c n = (Answered r, n')" "nr_channelID r \<noteq> 0"
  shows "c < nr_channelID r"
proof -
  obtain ng p where n: "n = (ng, p)" by fastforce
  have "nr_channelID r = fst (getNextFreeChannelId c (ng_map ng))"
    using assms(1) by (auto simp: n master_ask_def Allocation_onLocalRequest_def Processor_onLocalRequest_def new_Processor_def
        split: option.splits prod.splits if_splits)
  moreover have "c < c + 1" if "c + 1 \<noteq> 0"
    using that unatSuc [of c] by (simp add: word_less_nat_alt add.commute)
  ultimately show ?thesis
    using assms(2) by (auto simp: getNextFreeChannelId_def updateFreeChannel_def Let_def split: if_splits)
qed

lemma master_ask_proxy: "master_ask rt tag c (ng, p) = (outcome, ng', p') \<Longrightarrow> p' = p"
  by (auto simp: master_ask_def split: if_splits option.splits)

lemma response_marks_done:
  assumes "receiveAllocateChannelResponse a p = Some p'" "mChannelID a = c" "c \<in> requested_channels p"
  shows "\<exists>info. mAllocateRequestMap p' c = Some info \<and> mRequestDone info \<and> mResult info = mErrorCode a"
  using assms by (auto simp: receiveAllocateChannelResponse_def requested_channels_def Let_def split: if_splits bind_splits)

lemma agent_messages:
  assumes "proxy_allocate_request e prio c = Some buf"
  obtains (granted) raw a where "codes i = NO_ERROR" "agent_answer e codes i buf = (NO_ERROR, [], [raw])"
      "accessor_fromRaw e raw = Some a" "mChannelID a = c" "mOperation a = E_ALLOCATE_CHANNEL_RESP"
    | (refused) raw a where "codes i \<noteq> NO_ERROR" "agent_answer e codes i buf = (NO_ERROR, raw, [])"
      "accessor_fromRaw e raw = Some a" "mErrorCode a = codes i" "raw \<noteq> []"
proof -
  define q where "q = accessor_setData (store e 4 prio) (setOpCode E_ALLOCATE_CHANNEL (setChannelID c accessor_new))"
  have "accessor_wf q"
    unfolding q_def by (intro accessor_wf_setData) simp_all
  then have q: "accessor_fromRaw e buf = Some q"
    using accessor_raw_roundtrip [of q e "[]"] assms by (auto simp: proxy_allocate_request_def q_def)
  define a where "a = setErrorCode (codes i) (accessor_resetData q)"
  have a: "mChannelID a = c" "mErrorCode a = codes i"
    by (simp_all add: a_def q_def)
  have wf: "accessor_wf a" "accessor_wf (setOpCode E_ALLOCATE_CHANNEL_RESP a)"
    by (simp_all add: a_def)
  show thesis
  proof (cases "codes i = NO_ERROR")
    case True
    obtain raw where "copyToRawArray e (setOpCode E_ALLOCATE_CHANNEL_RESP a) = Some raw"
      "accessor_fromRaw e (raw @ []) = Some (setOpCode E_ALLOCATE_CHANNEL_RESP a)"
      using accessor_raw_roundtrip [OF wf(2)] by metis
    then show thesis
      using True q a by (intro granted [of raw "setOpCode E_ALLOCATE_CHANNEL_RESP a"])
        (simp_all add: agent_answer_def isNoError_def a_def)
  next
    case False
    obtain raw where "copyToRawArray e a = Some raw" "length raw = 16 + unat (mDataSize a)"
      "accessor_fromRaw e (raw @ []) = Some a"
      using accessor_raw_roundtrip [OF wf(1)] by metis
    then show thesis
      using False q a by (intro refused [of raw a]) (auto simp: agent_answer_def isNoError_def simp flip: a_def)
  qed
qed

lemma allocateChannel_returns:
  assumes "client_ok p"
  shows "\<exists>err p'. proxy_allocateChannel e prio (agent_answer e codes) c obs p = Some (err, p') \<and> client_ok p'
    \<and> (err = ERROR_CHANNEL_BUSY \<longrightarrow> c \<le> 0xFFFF)"
proof (cases "proxy_allocate_check c (Some obs) p")
  case (Inl err)
  then have "err \<noteq> ERROR_CHANNEL_BUSY"
    by (auto simp: proxy_allocate_check_def connectIpcIfNecessary_def isNoError_def Let_def split: if_splits)
  then show ?thesis
    using Inl assms by (simp add: proxy_allocateChannel_def)
next
  case (Inr unknown)
  then have c: "channel_number_ok c"
    by (auto simp: proxy_allocate_check_def channel_number_ok_def Let_def split: if_splits)
  have sent: "step_safe (AllocChecked prio c (Some obs) unknown) p (thread_step e Go (AllocChecked prio c (Some obs) unknown) p)"
    using assms c by (intro safe_allocate_send) simp_all
  obtain buf where buf: "proxy_allocate_request e prio c = Some buf"
    using readable_requests(1) by blast
  show ?thesis
  proof (cases "unknown \<and> c \<notin> requested_channels p")
    case False
    then show ?thesis
      using Inr assms c by (auto simp: proxy_allocateChannel_def proxy_allocate_send_def proxy_allocate_enter_def
          requested_channels_def channel_number_ok_def split: if_splits)
  next
    case True
    define p1 where "p1 = p\<lparr>mAllocateRequestMap := (mAllocateRequestMap p)(c \<mapsto>
        \<lparr>ar_mType = prio, ar_mpClient = Some obs, mRequestDone = False, mResult = ERROR_OTHER\<rparr>),
      proxy_msgId := proxy_msgId p + 2\<rparr>"
    have send: "proxy_allocate_send e prio c (Some obs) unknown p = Some (Inr (proxy_msgId p, buf), p1)"
      using True buf by (auto simp: proxy_allocate_send_def proxy_allocate_enter_def proxy_nextMsgId_def requested_channels_def p1_def)
    have p1: "client_ok p1" "c \<in> requested_channels p1"
      using client_ok_add(2) [OF assms c] by (simp_all add: p1_def)
    from buf show ?thesis
    proof (cases rule: agent_messages [where i = "proxy_msgId p" and codes = codes])
      case (refused raw a)
      then show ?thesis
        using Inr send p1 c client_ok_drop(2) [OF p1(1)]
        by (simp add: proxy_allocateChannel_def proxy_allocate_answer_def isNoError_def channel_number_ok_def)
    next
      case (granted raw a)
      obtain p2 where p2: "receiveAllocateChannelResponse a p1 = Some p2" "client_ok p2"
        using allocateResponse_ok [OF p1(1)] by blast
      obtain info where info: "mAllocateRequestMap p2 c = Some info" "mRequestDone info"
        using response_marks_done [OF p2(1) granted(4) p1(2)] by blast
      have "proxy_OnAsyncRequest e raw p1 = Some p2"
        using granted p2(1) by (simp add: proxy_OnAsyncRequest_def)
      moreover have "proxy_allocate_poll c p1 = (Inr (), p1)"
        by (simp add: proxy_allocate_poll_def p1_def)
      moreover have "proxy_allocate_poll c p2 =
          (Inl (mResult info), p2\<lparr>mAllocateRequestMap := (mAllocateRequestMap p2)(c := None)\<rparr>)"
        using info by (simp add: proxy_allocate_poll_def)
      ultimately show ?thesis
        using Inr send granted(2) c client_ok_drop(2) [OF p2(2)]
        by (simp add: proxy_allocateChannel_def proxy_allocate_answer_def isNoError_def channel_number_ok_def)
    qed
  qed
qed

interpretation master: channel_negotiation master_ask "agent_allocate e prio codes" "\<lambda>n. client_ok (snd n)" for e prio codes
proof unfold_locales
  fix n rt tag c outcome n'
  assume "client_ok (snd (n :: negotiator \<times> proxy))" "master_ask rt tag c n = (outcome, n')"
  then show "client_ok (snd n')"
    using master_ask_proxy by (metis prod.collapse)
next
  fix n tag c r n'
  assume "master_ask REQUESTTYPE_ALLOCATE_CHANNEL tag c n = (Answered r, n')" "nr_channelID r \<noteq> 0"
  then show "c < nr_channelID r" by (rule master_ask_ascends)
next
  fix n c obs
  assume "client_ok (snd (n :: negotiator \<times> proxy))"
  then show "\<exists>err n'. agent_allocate e prio codes c obs n = Some (err, n') \<and> client_ok (snd n')
      \<and> (err = ERROR_CHANNEL_BUSY \<longrightarrow> c \<le> 0xFFFF)"
    using allocateChannel_returns [of "snd n" e prio codes c obs] by (auto simp: agent_allocate_def split: prod.splits)
qed

section \<open>Properties\<close>


text \<open>
  The response of the negotiator and the waiting thread meet in the entry of their request: what happens to a client,
  with the thread's wait split at its semaphore.
\<close>

datatype nc_event = Responds u32 nc_response | StartsWaiting u32 | StopsWaiting u32 bool

fun nc_run :: "nc_event list \<Rightarrow> NegotiatorClient \<Rightarrow> ((u32 \<times> nc_response option) list \<times> NegotiatorClient) option" where
  "nc_run [] n = Some ([], n)"
| "nc_run (Responds i r # evs) n = nc_run evs (signalResponseSemaphore r i n)"
| "nc_run (StartsWaiting i # evs) n = nc_run evs (snd (getDataForMessageId i n))"
| "nc_run (StopsWaiting i timed_out # evs) n =
     (case waitForResponse_end timed_out i n of
        None \<Rightarrow> None
      | Some (r, n) \<Rightarrow> map_option (\<lambda>(rs, n). ((i, r) # rs, n)) (nc_run evs n))"

fun of_message :: "u32 \<Rightarrow> nc_event \<Rightarrow> bool" where
  "of_message i (Responds j r) \<longleftrightarrow> j = i"
| "of_message i (StartsWaiting j) \<longleftrightarrow> j = i"
| "of_message i (StopsWaiting j timed_out) \<longleftrightarrow> j = i"

text \<open>The entry of one request depends on the events of this request only.\<close>

fun entry_after :: "nc_event list \<Rightarrow> NegotiatorResponseData option \<Rightarrow> NegotiatorResponseData option" where
  "entry_after [] d = d"
| "entry_after (Responds i r # evs) d = entry_after evs (Some (case d of
     None \<Rightarrow> \<lparr>nd_mSema = 1, nd_mResponse = Some r\<rparr> | Some d \<Rightarrow> d\<lparr>nd_mResponse := Some r, nd_mSema := nd_mSema d + 1\<rparr>))"
| "entry_after (StartsWaiting i # evs) d = entry_after evs (Some (case d of None \<Rightarrow> \<lparr>nd_mSema = 0, nd_mResponse = None\<rparr> | Some d \<Rightarrow> d))"
| "entry_after (StopsWaiting i timed_out # evs) d = entry_after evs None"

lemma nc_run_entry:
  "nc_run evs n = Some (rs, n') \<Longrightarrow> mResponsesMap n' i = entry_after (filter (of_message i) evs) (mResponsesMap n i)"
proof (induction evs n arbitrary: rs rule: nc_run.induct)
  case (2 j r evs n)
  then show ?case
    by (cases "mResponsesMap n j") (auto simp: signalResponseSemaphore_def getDataForMessageId_def Let_def split: if_splits)
next
  case (3 j evs n)
  then show ?case
    by (cases "mResponsesMap n j") (auto simp: getDataForMessageId_def Let_def)
next
  case (4 j timed_out evs n)
  then obtain r n1 rs1 where w: "waitForResponse_end timed_out j n = Some (r, n1)" "nc_run evs n1 = Some (rs1, n')"
    by (auto split: option.splits)
  then have "mResponsesMap n1 = (mResponsesMap n)(j := None)"
    by (auto simp: waitForResponse_end_def eraseDataForMessageId_def split: option.splits if_splits)
  then show ?case
    using 4(1) [OF w(1) refl w(2)] by auto
qed simp

text \<open>
  Whether the response of the negotiator comes before or after its thread starts to wait,
  and whatever happens to other requests, the thread wakes up with exactly that response, and no entry
  of the request is left.
\<close>

theorem response_rendezvous:
  assumes "nc_run evs n = Some (rs, n1)" "mResponsesMap n i = None"
    and "filter (of_message i) evs = [Responds i r, StartsWaiting i] \<or> filter (of_message i) evs = [StartsWaiting i, Responds i r]"
  shows "\<exists>n2. waitForResponse_end False i n1 = Some (Some r, n2) \<and> mResponsesMap n2 i = None
    \<and> (\<forall>j. j \<noteq> i \<longrightarrow> mResponsesMap n2 j = mResponsesMap n1 j)"
proof -
  have "mResponsesMap n1 i = Some \<lparr>nd_mSema = 1, nd_mResponse = Some r\<rparr>"
    using nc_run_entry [OF assms(1), of i] assms(2,3) by auto
  then show ?thesis
    by (simp add: waitForResponse_end_def eraseDataForMessageId_def)
qed

text \<open>
  The tube enters every observer under the index 0 and looks for it under its channel, so closing
  a channel never finds and never deletes one: observers pile up, and a callback that is still in the agent's queue always has its object.
\<close>

theorem observers_never_deleted:
  assumes "dom (observerMap t) \<subseteq> {0}"
  shows "(tube_deallocateChannel close free c t = Some (err, t') \<longrightarrow>
        observer_objects t' = observer_objects t \<and> dom (observerMap t') \<subseteq> {0})
    \<and> (tube_attempt ask ca tag obs c t = Some (r, c', t'') \<longrightarrow>
        observer_objects t'' = observer_objects t \<and> dom (observerMap t'') \<subseteq> {0})"
proof (intro conjI impI)
  assume "tube_deallocateChannel close free c t = Some (err, t')"
  moreover have "observerMap t (sint c) = None" if "\<not> isIdRestricted c"
  proof -
    have "sint c \<noteq> 0"
      using that by (auto simp: isIdRestricted_def CHANNEL_ID_START_NUMBER_def signed_eq_0_iff)
    then show ?thesis using assms by auto
  qed
  ultimately have "observer_objects t' = observer_objects t \<and> observerMap t' = observerMap t"
    by (auto simp: tube_deallocateChannel_def Let_def split: if_splits bind_splits)
  then show "observer_objects t' = observer_objects t" "dom (observerMap t') \<subseteq> {0}"
    using assms by simp_all
next
  assume "tube_attempt ask ca tag obs c t = Some (r, c', t'')"
  from attempt_observer [OF this] show "observer_objects t'' = observer_objects t" "dom (observerMap t'') \<subseteq> {0}"
    using assms by (elim conjE disjE; simp)+
qed

text \<open>
  When the maps cannot be updated after the agent has allocated the channel, the call returns the error
  and neither the channel nor the observer is taken back.
\<close>

lemma failed_update_keeps_channel:
  assumes "negotiateChannel ask tag c (env t) = (NO_ERROR, c', n)" "c' \<noteq> 0" "ca c' obs n = Some (NO_ERROR, n1)"
    and "updateMapWithCID ask tag c' n1 = (err, n2)" "\<not> isNoError err"
  shows "tube_attempt ask ca tag obs c t =
    Some (Break err, c', t\<lparr>observerMap := (observerMap t)(0 \<mapsto> obs), env := n2\<rparr>)"
proof -
  have "err \<noteq> CS_UPDATE_MAP_WRONG_CID"
    using assms(4) by (auto simp: updateMapWithCID_def split: prod.splits dest: communicate_codes)
  then show ?thesis
    using assms by (simp add: tube_attempt_def isNoError_def Let_def)
qed

section \<open>Sample runs\<close>


theorem response_rendezvous_witness:
  "\<exists>n2. waitForResponse_end False 1 (snd (the (nc_run [StartsWaiting 2, Responds 1 \<lparr>nr_errorCode = 0, nr_channelID = 101\<rparr>,
      StartsWaiting 1, Responds 3 \<lparr>nr_errorCode = 0, nr_channelID = 7\<rparr>] NegotiatorClient_new)))
    = Some (Some \<lparr>nr_errorCode = 0, nr_channelID = 101\<rparr>, n2)"
proof -
  let ?evs = "[StartsWaiting 2, Responds 1 \<lparr>nr_errorCode = 0, nr_channelID = 101\<rparr>, StartsWaiting 1,
    Responds 3 \<lparr>nr_errorCode = 0, nr_channelID = 7\<rparr>]"
  obtain n where run: "nc_run ?evs NegotiatorClient_new = Some ([], n)"
    by simp
  then show ?thesis
    using response_rendezvous [OF run, of 1 "\<lparr>nr_errorCode = 0, nr_channelID = 101\<rparr>"]
    by (auto simp: NegotiatorClient_new_def)
qed

theorem observers_never_deleted_witness:
  "\<exists>t'. tube_deallocateChannel (\<lambda>_ n. Some (NO_ERROR, n)) (\<lambda>_ n. n) 101 (snd (new_observer 5 (tube_init ()))) = Some (NO_ERROR, t')
    \<and> observer_objects t' 0 = Some \<lparr>m_tubeObserver = Some 5\<rparr>"
proof -
  let ?t = "snd (new_observer 5 (tube_init ()))"
  have t: "dom (observerMap ?t) \<subseteq> {0}" "observer_objects ?t 0 = Some \<lparr>m_tubeObserver = Some 5\<rparr>"
    by (simp_all add: new_observer_def tube_init_def)
  obtain t' where run: "tube_deallocateChannel (\<lambda>_ n. Some (NO_ERROR, n)) (\<lambda>_ n. n) 101 ?t = Some (NO_ERROR, t')"
    by (simp add: tube_deallocateChannel_def isIdRestricted_def CHANNEL_ID_START_NUMBER_def Let_def)
  then show ?thesis
    using observers_never_deleted [OF t(1), THEN conjunct1, rule_format, OF run] t(2) by simp
qed

end
