(* ===== verification/Timeouts.thy ===== *)
theory Timeouts
  imports Prelude "HOL-Library.Multiset"
begin

text \<open>
  The timeout manager (\<^verbatim>\<open>framework/utils/threads/private/TimeoutManager.cpp\<close>): a multimap of subscribers by the time they
  are due, a thread that hands the due ones to a thread pool and sleeps until the next one, and a
  semaphore by which the other threads wake it. Times are \<^verbatim>\<open>Int64\<close> milliseconds, far from their bounds.
\<close>

section \<open>The manager\<close>

text \<open>The multimap in the order of its keys, and equal keys in the order of their insertion. \<^verbatim>\<open>tm_jobs\<close> is the pool's queue.\<close>

record 'j TimeoutManager =
  mSubscriberMap :: "(int \<times> 'j) list"
  mThreadSemaphore :: nat
  mBe :: bool
  tm_jobs :: "'j list"

definition TimeoutManager_new :: "'j TimeoutManager" where
  "TimeoutManager_new = \<lparr>mSubscriberMap = [], mThreadSemaphore = 0, mBe = True, tm_jobs = []\<rparr>"

fun multimap_insert :: "int \<Rightarrow> 'j \<Rightarrow> (int \<times> 'j) list \<Rightarrow> (int \<times> 'j) list" where
  "multimap_insert t j [] = [(t, j)]"
| "multimap_insert t j ((u, k) # m) = (if u \<le> t then (u, k) # multimap_insert t j m else (t, j) # (u, k) # m)"

definition signal_if :: "bool \<Rightarrow> 'j TimeoutManager \<Rightarrow> 'j TimeoutManager" where
  "signal_if needReSetTimer m = (if needReSetTimer then m\<lparr>mThreadSemaphore := mThreadSemaphore m + 1\<rparr> else m)"

text \<open>The condition is the code's: its second part cannot hold without the first.\<close>

definition addSubscriber :: "int \<Rightarrow> 'j \<Rightarrow> u32 \<Rightarrow> 'j TimeoutManager \<Rightarrow> 'j TimeoutManager" where
  "addSubscriber curTime subscriber ms m =
     (let timeoutTime = curTime + int (unat ms);
          needReSetTimer = (mSubscriberMap m = []
            \<or> (timeoutTime < fst (hd (mSubscriberMap m)) \<and> mSubscriberMap m = []))
      in signal_if needReSetTimer (m\<lparr>mSubscriberMap := multimap_insert timeoutTime subscriber (mSubscriberMap m)\<rparr>))"

fun remove_first :: "'j \<Rightarrow> (int \<times> 'j) list \<Rightarrow> (int \<times> 'j) list" where
  "remove_first j [] = []"
| "remove_first j ((t, k) # m) = (if k = j then m else (t, k) # remove_first j m)"

definition removeSubscriber :: "'j \<Rightarrow> 'j TimeoutManager \<Rightarrow> 'j TimeoutManager" where
  "removeSubscriber subscriber m =
     (let needReSetTimer = (case mSubscriberMap m of [] \<Rightarrow> True | (t, k) # _ \<Rightarrow> k = subscriber)
      in signal_if needReSetTimer (m\<lparr>mSubscriberMap := remove_first subscriber (mSubscriberMap m)\<rparr>))"

definition processTopTimeout :: "int \<Rightarrow> 'j TimeoutManager \<Rightarrow> bool \<times> 'j TimeoutManager" where
  "processTopTimeout nowMs m =
     (case mSubscriberMap m of
        [] \<Rightarrow> (False, m)
      | (t, pSubscriber) # rest \<Rightarrow>
          if nowMs < t then (False, m)
          else (True, m\<lparr>mSubscriberMap := rest, tm_jobs := tm_jobs m @ [pSubscriber]\<rparr>))"

function processTimeout :: "int \<Rightarrow> 'j TimeoutManager \<Rightarrow> 'j TimeoutManager" where
  "processTimeout now m = (case processTopTimeout now m of (True, m') \<Rightarrow> processTimeout now m' | (False, m') \<Rightarrow> m')"
  by pat_completeness auto

termination
  by (relation "measure (\<lambda>(now, m). length (mSubscriberMap m))")
    (auto simp: processTopTimeout_def split: list.splits if_splits prod.splits)

declare processTimeout.simps [simp del]

text \<open>What \<^verbatim>\<open>smartWait\<close> does: wait for the semaphore, wait for it up to a time, or go on.\<close>

datatype smart_wait = WaitSignal | WaitUntil int | NoWait

definition smartWait :: "int \<Rightarrow> 'j TimeoutManager \<Rightarrow> smart_wait" where
  "smartWait now m =
     (case mSubscriberMap m of
        [] \<Rightarrow> WaitSignal
      | (t, _) # _ \<Rightarrow> if 0 < t - now then WaitUntil t else NoWait)"

definition TimeoutManager_finish :: "'j TimeoutManager \<Rightarrow> 'j TimeoutManager" where
  "TimeoutManager_finish m = m\<lparr>mBe := False, mThreadSemaphore := mThreadSemaphore m + 1\<rparr>"

section \<open>The manager's thread among the others\<close>

datatype tm_pc = Processing | ChoosingWait | Asleep | AsleepUntil int

text \<open>
  The time, the manager and its thread. \<^verbatim>\<open>timeout_step ms\<close> are the steps of a process whose calls of \<^verbatim>\<open>addSubscriber\<close> use
  the given timeouts; a sleeping thread wakes up by the semaphore or when its time has come.
\<close>

record 'j tm_state =
  st_now :: int
  st_manager :: "'j TimeoutManager"
  st_pc :: tm_pc
  st_added :: "(int \<times> 'j) list"
  st_removed :: "(int \<times> 'j) list"
  st_fired :: "(int \<times> int \<times> 'j) list"

definition tm_start :: "'j tm_state" where
  "tm_start = \<lparr>st_now = 0, st_manager = TimeoutManager_new, st_pc = Processing, st_added = [], st_removed = [], st_fired = []\<rparr>"

definition due :: "int \<Rightarrow> 'j TimeoutManager \<Rightarrow> (int \<times> 'j) list" where
  "due now m = takeWhile (\<lambda>(t, _). t \<le> now) (mSubscriberMap m)"

definition first_entry :: "'j \<Rightarrow> 'j TimeoutManager \<Rightarrow> (int \<times> 'j) list" where
  "first_entry j m = take 1 (filter (\<lambda>(t, k). k = j) (mSubscriberMap m))"

inductive timeout_step :: "u32 set \<Rightarrow> 'j tm_state \<Rightarrow> 'j tm_state \<Rightarrow> bool" for timeouts where
  tick: "st_now s \<le> now \<Longrightarrow> timeout_step timeouts s (s\<lparr>st_now := now\<rparr>)"
| add: "ms \<in> timeouts \<Longrightarrow> timeout_step timeouts s (s\<lparr>st_manager := addSubscriber (st_now s) j ms (st_manager s),
    st_added := st_added s @ [(st_now s + int (unat ms), j)]\<rparr>)"
| remove: "timeout_step timeouts s (s\<lparr>st_manager := removeSubscriber j (st_manager s),
    st_removed := st_removed s @ first_entry j (st_manager s)\<rparr>)"
| process: "st_pc s = Processing \<Longrightarrow> timeout_step timeouts s (s\<lparr>st_pc := ChoosingWait,
    st_manager := processTimeout (st_now s) (st_manager s),
    st_fired := st_fired s @ map (\<lambda>(t, j). (st_now s, t, j)) (due (st_now s) (st_manager s))\<rparr>)"
| choose: "st_pc s = ChoosingWait \<Longrightarrow> timeout_step timeouts s (s\<lparr>st_pc :=
    (case smartWait (st_now s) (st_manager s) of WaitSignal \<Rightarrow> Asleep | WaitUntil t \<Rightarrow> AsleepUntil t | NoWait \<Rightarrow> Processing)\<rparr>)"
| woken: "st_pc s = Asleep \<or> st_pc s = AsleepUntil t \<Longrightarrow> 0 < mThreadSemaphore (st_manager s) \<Longrightarrow>
    timeout_step timeouts s (s\<lparr>st_pc := Processing,
      st_manager := (st_manager s)\<lparr>mThreadSemaphore := mThreadSemaphore (st_manager s) - 1\<rparr>\<rparr>)"
| expired: "st_pc s = AsleepUntil t \<Longrightarrow> t \<le> st_now s \<Longrightarrow> timeout_step timeouts s (s\<lparr>st_pc := Processing\<rparr>)"

inductive timeout_reachable :: "u32 set \<Rightarrow> 'j tm_state \<Rightarrow> bool" for timeouts where
  start: "timeout_reachable timeouts tm_start"
| step: "timeout_reachable timeouts s \<Longrightarrow> timeout_step timeouts s s' \<Longrightarrow> timeout_reachable timeouts s'"

section \<open>Lemmas on the operations\<close>

lemma mset_multimap_insert [simp]: "mset (multimap_insert t j m) = add_mset (t, j) (mset m)"
  by (induction t j m rule: multimap_insert.induct) simp_all

lemma set_multimap_insert: "set (multimap_insert t j m) = insert (t, j) (set m)"
  by (induction t j m rule: multimap_insert.induct) auto

lemma sorted_multimap_insert:
  "sorted (map fst m) \<Longrightarrow> sorted (map fst (multimap_insert t j m))"
proof (induction t j m rule: multimap_insert.induct)
  case (2 t j u k m)
  then show ?case
    by (auto simp: set_multimap_insert)
qed simp

lemma hd_multimap_insert:
  "m \<noteq> [] \<Longrightarrow> fst (hd (multimap_insert t j m)) = min t (fst (hd m))"
  by (cases m) auto

lemma multimap_insert_nonempty [simp]: "multimap_insert t j m \<noteq> []"
  by (induction t j m rule: multimap_insert.induct) simp_all

lemma mset_remove_first:
  "mset m = mset (remove_first j m) + mset (take 1 (filter (\<lambda>(t, k). k = j) m))"
  by (induction j m rule: remove_first.induct) auto

lemma set_remove_first: "set (remove_first j m) \<subseteq> set m"
  by (induction j m rule: remove_first.induct) auto

lemma sorted_remove_first: "sorted (map fst m) \<Longrightarrow> sorted (map fst (remove_first j m))"
proof (induction j m rule: remove_first.induct)
  case (2 j t k m)
  then show ?case
    using set_remove_first [of j m] by auto
qed simp

lemma hd_remove_first:
  "m \<noteq> [] \<Longrightarrow> snd (hd m) \<noteq> j \<Longrightarrow> remove_first j m \<noteq> [] \<and> hd (remove_first j m) = hd m"
  by (cases m) auto

lemma sorted_dropWhile_fst: "sorted (map fst m) \<Longrightarrow> sorted (map fst (dropWhile P m))"
  by (induction m) auto

text \<open>The loop hands over the due subscribers, in the order of their times, and stops at the first that is not due.\<close>

lemma processTimeout_spec:
  "processTimeout now m = m\<lparr>mSubscriberMap := dropWhile (\<lambda>(t, _). t \<le> now) (mSubscriberMap m),
     tm_jobs := tm_jobs m @ map snd (due now m)\<rparr>"
proof (induction now m rule: processTimeout.induct)
  case (1 now m)
  show ?case
  proof (cases "mSubscriberMap m")
    case Nil
    then show ?thesis
      by (subst processTimeout.simps) (simp add: processTopTimeout_def due_def)
  next
    case (Cons tj rest)
    obtain t j where tj: "tj = (t, j)" by fastforce
    show ?thesis
    proof (cases "now < t")
      case True
      then show ?thesis
        using Cons tj by (subst processTimeout.simps) (simp add: processTopTimeout_def due_def)
    next
      case False
      define m' where "m' = m\<lparr>mSubscriberMap := rest, tm_jobs := tm_jobs m @ [j]\<rparr>"
      have p: "processTopTimeout now m = (True, m')"
        using False Cons tj by (simp add: processTopTimeout_def m'_def)
      from 1(1) [OF p [symmetric]] show ?thesis
        using False Cons tj p by (subst processTimeout.simps) (simp add: due_def m'_def)
    qed
  qed
qed

section \<open>The invariant\<close>

definition entries_ok :: "'j tm_state \<Rightarrow> bool" where
  "entries_ok s \<longleftrightarrow> sorted (map fst (mSubscriberMap (st_manager s)))
     \<and> mset (st_added s) = mset (map snd (st_fired s)) + mset (st_removed s) + mset (mSubscriberMap (st_manager s))
     \<and> tm_jobs (st_manager s) = map (snd \<circ> snd) (st_fired s)
     \<and> (\<forall>(now, t, j) \<in> set (st_fired s). t \<le> now)"

text \<open>A thread asleep without a time has nothing to wait for, unless it has been signalled.\<close>

definition wakeup_ok :: "'j tm_state \<Rightarrow> bool" where
  "wakeup_ok s \<longleftrightarrow> (st_pc s = Asleep \<and> mSubscriberMap (st_manager s) \<noteq> [] \<longrightarrow> 0 < mThreadSemaphore (st_manager s))"

lemma addSubscriber_fields [simp]:
  "mSubscriberMap (addSubscriber now j ms m) = multimap_insert (now + int (unat ms)) j (mSubscriberMap m)"
  "tm_jobs (addSubscriber now j ms m) = tm_jobs m"
  "mThreadSemaphore (addSubscriber now j ms m) = mThreadSemaphore m + (if mSubscriberMap m = [] then 1 else 0)"
  by (auto simp: addSubscriber_def signal_if_def Let_def)

lemma removeSubscriber_fields [simp]:
  "mSubscriberMap (removeSubscriber j m) = remove_first j (mSubscriberMap m)" "tm_jobs (removeSubscriber j m) = tm_jobs m"
  "mThreadSemaphore (removeSubscriber j m) = mThreadSemaphore m
     + (if mSubscriberMap m = [] \<or> snd (hd (mSubscriberMap m)) = j then 1 else 0)"
  by (auto simp: removeSubscriber_def signal_if_def Let_def split: list.splits)

lemma due_rest: "mset (due now m) + mset (dropWhile (\<lambda>(t, _). t \<le> now) (mSubscriberMap m)) = mset (mSubscriberMap m)"
  unfolding due_def by (metis mset_append takeWhile_dropWhile_id)

lemma entries_ok_step: "timeout_step timeouts s s' \<Longrightarrow> entries_ok s \<Longrightarrow> entries_ok s'"
proof (induction rule: timeout_step.induct)
  case (add ms s j)
  then show ?case by (auto simp: entries_ok_def sorted_multimap_insert)
next
  case (remove s j)
  then show ?case
    using mset_remove_first [of "mSubscriberMap (st_manager s)" j]
    by (auto simp: entries_ok_def sorted_remove_first first_entry_def)
next
  case (process s)
  have "map snd (map (\<lambda>(t, j). (st_now s, t, j)) (due (st_now s) (st_manager s))) = due (st_now s) (st_manager s)"
    "map (snd \<circ> snd) (map (\<lambda>(t, j). (st_now s, t, j)) (due (st_now s) (st_manager s))) = map snd (due (st_now s) (st_manager s))"
    by (induction "due (st_now s) (st_manager s)") (auto simp: o_def case_prod_beta)
  moreover have "\<forall>(t, j) \<in> set (due (st_now s) (st_manager s)). t \<le> st_now s"
    by (auto simp: due_def dest: set_takeWhileD)
  moreover have "sorted (map fst (dropWhile (\<lambda>(t, _). t \<le> st_now s) (mSubscriberMap (st_manager s))))"
    using process(2) by (simp add: entries_ok_def sorted_dropWhile_fst)
  ultimately show ?case
    using process(2) due_rest [of "st_now s" "st_manager s"]
    by (auto simp: entries_ok_def processTimeout_spec ac_simps)
qed (auto simp: entries_ok_def)

lemma wakeup_ok_step: "timeout_step timeouts s s' \<Longrightarrow> wakeup_ok s \<Longrightarrow> wakeup_ok s'"
proof (induction rule: timeout_step.induct)
  case (remove s j)
  then show ?case by (cases "mSubscriberMap (st_manager s)") (auto simp: wakeup_ok_def)
next
  case (choose s)
  then show ?case by (auto simp: wakeup_ok_def smartWait_def split: list.splits if_splits)
qed (auto simp: wakeup_ok_def)

text \<open>
  With one timeout for all subscribers and a clock that does not go back, new entries go to the end, so the time the
  thread sleeps until is never after the first one due.
\<close>

definition uniform_ok :: "u32 \<Rightarrow> 'j tm_state \<Rightarrow> bool" where
  "uniform_ok ms s \<longleftrightarrow> sorted (map fst (mSubscriberMap (st_manager s)))
     \<and> (\<forall>(t, j) \<in> set (mSubscriberMap (st_manager s)). t \<le> st_now s + int (unat ms))
     \<and> (\<forall>d. st_pc s = AsleepUntil d \<longrightarrow> d \<le> st_now s + int (unat ms)
          \<and> (\<forall>(t, j) \<in> set (mSubscriberMap (st_manager s)). d \<le> t))"

lemma uniform_ok_step: "timeout_step {ms} s s' \<Longrightarrow> uniform_ok ms s \<Longrightarrow> uniform_ok ms s'"
proof (induction rule: timeout_step.induct)
  case (tick s now)
  then show ?case by (force simp: uniform_ok_def)
next
  case (add ms' s j)
  then show ?case by (auto simp: uniform_ok_def sorted_multimap_insert set_multimap_insert)
next
  case (remove s j)
  then show ?case
    using subsetD [OF set_remove_first [of j "mSubscriberMap (st_manager s)"]]
    by (fastforce simp: uniform_ok_def sorted_remove_first)
next
  case (process s)
  then show ?case
    by (auto simp: uniform_ok_def processTimeout_spec sorted_dropWhile_fst dest: set_dropWhileD)
next
  case (choose s)
  show ?case
  proof (cases "mSubscriberMap (st_manager s)")
    case (Cons tj rest)
    then show ?thesis
      using choose by (cases tj) (auto simp: uniform_ok_def smartWait_def)
  qed (use choose in \<open>auto simp: uniform_ok_def smartWait_def\<close>)
qed (auto simp: uniform_ok_def)

lemma timeout_reachable_inv: "timeout_reachable timeouts s \<Longrightarrow> entries_ok s \<and> wakeup_ok s"
proof (induction rule: timeout_reachable.induct)
  case start
  show ?case by (simp add: entries_ok_def wakeup_ok_def tm_start_def TimeoutManager_new_def)
next
  case (step s s')
  then show ?case using entries_ok_step wakeup_ok_step by blast
qed

lemma timeout_reachable_uniform: "timeout_reachable {ms} s \<Longrightarrow> uniform_ok ms s"
proof (induction rule: timeout_reachable.induct)
  case start
  show ?case by (simp add: uniform_ok_def tm_start_def TimeoutManager_new_def)
qed (rule uniform_ok_step)

section \<open>Properties\<close>

text \<open>
  Whatever other threads add and remove and however the thread is scheduled, every subscriber
  added is handed to the pool once, taken back, or still waiting; none is handed over before its time, the pool gets them in
  the order in which they were handed over, and the thread does not sleep without a time while there are subscribers,
  unless a signal is on its way.
\<close>

theorem timeouts_never_early:
  assumes "timeout_reachable timeouts s"
  shows "(\<forall>(now, t, j) \<in> set (st_fired s). t \<le> now)
    \<and> mset (st_added s) = mset (map snd (st_fired s)) + mset (st_removed s) + mset (mSubscriberMap (st_manager s))
    \<and> tm_jobs (st_manager s) = map (snd \<circ> snd) (st_fired s)
    \<and> (st_pc s = Asleep \<and> mSubscriberMap (st_manager s) \<noteq> [] \<longrightarrow> 0 < mThreadSemaphore (st_manager s))"
  using timeout_reachable_inv [OF assms] by (auto simp: entries_ok_def wakeup_ok_def)

lemma due_sorted:
  "sorted (map fst m) \<Longrightarrow> (t, j) \<in> set m \<Longrightarrow> t \<le> now \<Longrightarrow> (t, j) \<in> set (takeWhile (\<lambda>(t, _). t \<le> now) m)"
  by (induction m) auto

lemma fires_when_processing:
  assumes "uniform_ok ms s" "st_pc s = Processing" "(t, j) \<in> set (mSubscriberMap (st_manager s))" "t \<le> st_now s"
  shows "\<exists>s'. timeout_step {ms} s s' \<and> st_now s' = st_now s \<and> (st_now s, t, j) \<in> set (st_fired s')"
proof -
  have "(t, j) \<in> set (due (st_now s) (st_manager s))"
    using due_sorted [OF _ assms(3,4)] assms(1) by (simp add: uniform_ok_def due_def)
  then have "(st_now s, t, j) \<in> (\<lambda>(t, j). (st_now s, t, j)) ` set (due (st_now s) (st_manager s))"
    by force
  moreover obtain s' where "timeout_step {ms} s s'" "st_now s' = st_now s"
      "set (st_fired s') = set (st_fired s) \<union> (\<lambda>(t, j). (st_now s, t, j)) ` set (due (st_now s) (st_manager s))"
    using timeout_step.process [OF assms(2), of "{ms}"] that by simp
  ultimately show ?thesis by blast
qed

text \<open>
  As long as all subscribers are added with the same timeout, as the agent does, the thread is
  never asleep past the time of one: from any reachable state in which a subscriber is due, steps of the thread alone, with no
  time passing, hand it to the pool.
\<close>

theorem uniform_timeouts_in_time:
  assumes "timeout_reachable {ms} s" "(t, j) \<in> set (mSubscriberMap (st_manager s))" "t \<le> st_now s"
  shows "\<exists>s'. (timeout_step {ms})\<^sup>*\<^sup>* s s' \<and> st_now s' = st_now s \<and> (st_now s, t, j) \<in> set (st_fired s')"
proof -
  have inv: "uniform_ok ms s" "wakeup_ok s"
    using timeout_reachable_uniform [OF assms(1)] timeout_reachable_inv [OF assms(1)] by simp_all
  have awake: "\<exists>s1. (timeout_step {ms})\<^sup>*\<^sup>* s s1 \<and> uniform_ok ms s1 \<and> st_pc s1 = Processing \<and> st_now s1 = st_now s
    \<and> mSubscriberMap (st_manager s1) = mSubscriberMap (st_manager s)"
  proof (cases "st_pc s = Processing")
    case False
    then consider "st_pc s = ChoosingWait" | "st_pc s = Asleep" | d where "st_pc s = AsleepUntil d"
      by (cases "st_pc s") auto
    then have "\<exists>s1. timeout_step {ms} s s1 \<and> st_pc s1 = Processing \<and> st_now s1 = st_now s
      \<and> mSubscriberMap (st_manager s1) = mSubscriberMap (st_manager s)"
    proof cases
      case 1
      obtain t0 j0 rest where m: "mSubscriberMap (st_manager s) = (t0, j0) # rest"
        using assms(2) by (cases "mSubscriberMap (st_manager s)") auto
      then have "t0 \<le> t"
        using inv(1) assms(2) by (auto simp: uniform_ok_def)
      then have "smartWait (st_now s) (st_manager s) = NoWait"
        using assms(3) m by (simp add: smartWait_def)
      then show ?thesis
        using timeout_step.choose [OF 1, of "{ms}"] by auto
    next
      case 2
      then have "0 < mThreadSemaphore (st_manager s)"
        using inv(2) assms(2) by (auto simp: wakeup_ok_def)
      from timeout_step.woken [OF disjI1 [OF 2] this, of "{ms}"] show ?thesis
        by (intro exI, intro conjI, assumption) simp_all
    next
      case (3 d)
      then have "d \<le> st_now s"
        using inv(1) assms(2,3) by (force simp: uniform_ok_def)
      from timeout_step.expired [OF 3 this, of "{ms}"] show ?thesis
        by (intro exI, intro conjI, assumption) simp_all
    qed
    then obtain s1 where "timeout_step {ms} s s1" "st_pc s1 = Processing" "st_now s1 = st_now s"
      "mSubscriberMap (st_manager s1) = mSubscriberMap (st_manager s)" by blast
    then show ?thesis
      using uniform_ok_step inv(1) by blast
  qed (use inv(1) in blast)
  then obtain s1 where s1: "(timeout_step {ms})\<^sup>*\<^sup>* s s1" "uniform_ok ms s1" "st_pc s1 = Processing" "st_now s1 = st_now s"
    "mSubscriberMap (st_manager s1) = mSubscriberMap (st_manager s)" by blast
  obtain s' where "timeout_step {ms} s1 s'" "st_now s' = st_now s1" "(st_now s1, t, j) \<in> set (st_fired s')"
    using fires_when_processing [OF s1(2,3)] assms(2,3) s1(4,5) by metis
  then show ?thesis
    using s1(1,4) by (metis rtranclp.rtrancl_into_rtrancl)
qed

text \<open>
  With different timeouts this is lost: a subscriber that is due before the one the thread sleeps for does not wake it, since
  \<^verbatim>\<open>addSubscriber\<close> signals only when the map was empty. Here one of 10 seconds waits as long as one of 250 seconds.
\<close>

lemma reach_step: "timeout_reachable T s \<Longrightarrow> timeout_step T s s' \<Longrightarrow> s'' = s' \<Longrightarrow> timeout_reachable T s''"
  by (simp add: timeout_reachable.step)

lemma short_timeout_waits:
  "\<exists>s. timeout_reachable {250000, 10000} s \<and> st_now s = 249999 \<and> (10000, ''b'') \<in> set (mSubscriberMap (st_manager s))
    \<and> (\<forall>s'. timeout_step {250000, 10000} s s' \<longrightarrow> st_pc s' \<noteq> Processing \<or> 250000 \<le> st_now s')"
proof -
  define m where "m = \<lparr>mSubscriberMap = [(250000, ''a'')], mThreadSemaphore = 1, mBe = True, tm_jobs = []\<rparr>"
  define st where "st now sem pc = \<lparr>st_now = now, st_manager = m\<lparr>mThreadSemaphore := sem\<rparr>, st_pc = pc,
    st_added = [(250000, ''a'')], st_removed = [], st_fired = []\<rparr>" for now sem pc
  let ?T = "{250000, 10000} :: u32 set"
  have "timeout_reachable ?T (st 0 1 Processing)"
    by (rule reach_step [OF timeout_reachable.start timeout_step.add [where ms = 250000 and j = "''a''"]])
      (simp_all add: st_def m_def tm_start_def TimeoutManager_new_def addSubscriber_def signal_if_def)
  then have "timeout_reachable ?T (st 0 1 ChoosingWait)"
    by (rule reach_step [OF _ timeout_step.process]) (simp_all add: st_def m_def processTimeout_spec due_def)
  then have "timeout_reachable ?T (st 0 1 (AsleepUntil 250000))"
    by (rule reach_step [OF _ timeout_step.choose]) (simp_all add: st_def m_def smartWait_def)
  then have "timeout_reachable ?T (st 0 0 Processing)"
    by (rule reach_step [OF _ timeout_step.woken]) (simp_all add: st_def m_def)
  then have "timeout_reachable ?T (st 0 0 ChoosingWait)"
    by (rule reach_step [OF _ timeout_step.process]) (simp_all add: st_def m_def processTimeout_spec due_def)
  then have asleep: "timeout_reachable ?T (st 0 0 (AsleepUntil 250000))"
    by (rule reach_step [OF _ timeout_step.choose]) (simp_all add: st_def m_def smartWait_def)
  define s1 where "s1 = (st 0 0 (AsleepUntil 250000))\<lparr>st_manager := addSubscriber 0 ''b'' 10000 (m\<lparr>mThreadSemaphore := 0\<rparr>),
    st_added := [(250000, ''a''), (10000, ''b'')]\<rparr>"
  have "timeout_reachable ?T s1"
    by (rule reach_step [OF asleep timeout_step.add [where ms = 10000 and j = "''b''"]]) (simp_all add: s1_def st_def)
  then have "timeout_reachable ?T (s1\<lparr>st_now := 249999\<rparr>)"
    by (rule reach_step [OF _ timeout_step.tick]) (simp_all add: s1_def st_def)
  moreover have "st_pc s' \<noteq> Processing \<or> 250000 \<le> st_now s'" if "timeout_step ?T (s1\<lparr>st_now := 249999\<rparr>) s'" for s'
    using that by cases (auto simp: s1_def st_def m_def)
  ultimately show ?thesis
    by (intro exI [of _ "s1\<lparr>st_now := 249999\<rparr>"]) (auto simp: s1_def st_def m_def set_multimap_insert)
qed

theorem timeouts_never_early_witness:
  "\<exists>s. timeout_reachable {250000, 10000} s \<and> mset (st_added s) = mset (map snd (st_fired s)) + mset (st_removed s)
    + mset (mSubscriberMap (st_manager s)) \<and> (10000, ''b'') \<in> set (mSubscriberMap (st_manager s))"
proof -
  obtain s where s: "timeout_reachable {250000, 10000} s" "(10000, ''b'') \<in> set (mSubscriberMap (st_manager s))"
    using short_timeout_waits by blast
  then show ?thesis
    using timeouts_never_early [OF s(1)] by blast
qed

theorem uniform_timeouts_in_time_witness:
  "\<exists>s s'. timeout_reachable {250000} s \<and> (timeout_step {250000})\<^sup>*\<^sup>* s s' \<and> (250000, 250000, ''a'') \<in> set (st_fired s')"
proof -
  define s where "s = \<lparr>st_now = 250000, st_manager = \<lparr>mSubscriberMap = [(250000, ''a'')], mThreadSemaphore = 1, mBe = True, tm_jobs = []\<rparr>,
    st_pc = Processing, st_added = [(250000, ''a'')], st_removed = [], st_fired = []\<rparr>"
  have "timeout_reachable {250000} (s\<lparr>st_now := 0\<rparr>)"
    by (rule reach_step [OF timeout_reachable.start timeout_step.add [where ms = 250000 and j = "''a''"]])
      (simp_all add: s_def tm_start_def TimeoutManager_new_def addSubscriber_def signal_if_def)
  then have "timeout_reachable {250000} s"
    by (rule reach_step [OF _ timeout_step.tick [where now = 250000]]) (simp_all add: s_def)
  moreover from this obtain s' where "(timeout_step {250000})\<^sup>*\<^sup>* s s'" "(st_now s, 250000, ''a'') \<in> set (st_fired s')"
    using uniform_timeouts_in_time [of 250000 s 250000 "''a''"] by (auto simp: s_def)
  ultimately show ?thesis
    by (auto simp: s_def)
qed

end
