(* ===== verification/PmpFrames.thy ===== *)
theory PmpFrames
  imports ByteOrder
begin

text \<open>
  The messages between the profile managers of the two devices: the strings of \<^verbatim>\<open>utils/serialize/private/Serialize.cpp\<close>,
  the requests of \<^verbatim>\<open>PmpCoreProtocol\<close>, \<^verbatim>\<open>PmpPimProtocol\<close> and \<^verbatim>\<open>PmpSessionProtocol\<close>, and the frame that \<^verbatim>\<open>PmpProtocol\<close>
  puts around them (\<^verbatim>\<open>components/ProfileManager/interaction\<close>). A received frame becomes an event of \<^verbatim>\<open>EventFactory\<close>.
\<close>

section \<open>Strings in buffers\<close>

type_synonym Uid = string

definition byte_of :: "char \<Rightarrow> u8" where
  "byte_of c = word_of_nat (of_char c)"

definition char_of_byte :: "u8 \<Rightarrow> char" where
  "char_of_byte b = char_of (unat b)"

definition stringInBufSize :: "string \<Rightarrow> nat" where
  "stringInBufSize str = length str + 1 + 4"

text \<open>What \<^verbatim>\<open>stringToBuffer\<close> writes: the size with its terminating zero, and the bytes.\<close>

definition stringToBuffer :: "endian \<Rightarrow> string \<Rightarrow> bool \<Rightarrow> u8 list" where
  "stringToBuffer e str forNetwork =
     (let size = (of_nat (length str + 1) :: u32)
      in store e 4 (if forNetwork then hton32 e size else size) @ map byte_of str @ [0])"

text \<open>Reading behind the end of the array is undefined: \<^const>\<open>None\<close>. So is a size of 0, whose predecessor is the largest size.\<close>

definition bufferToString :: "endian \<Rightarrow> u8 list \<Rightarrow> bool \<Rightarrow> string option" where
  "bufferToString e pBuffer forNetwork =
     (if length pBuffer < 4 then None
      else (let raw = load e (take 4 pBuffer); size = (if forNetwork then ntoh32 e raw else raw);
                n = unat (size - 1 :: u32)
            in if length pBuffer < 4 + n then None
               else Some (map char_of_byte (take n (drop 4 pBuffer)))))"

section \<open>Requests\<close>

text \<open>
  The calls of \<^verbatim>\<open>EventFactory\<close> that the protocol makes for what it receives. The same names stand for the requests
  of the sender.
\<close>

datatype pmp_event =
    GetAvailableProfileComplementsRequest
  | GetAvailableProfileComplementsResponse "(Uid \<times> u32) list"
  | ReloadProfilesFromRepository
  | ResetProfileState
  | LockProfile Uid
  | UnlockProfile Uid
  | LockAll
  | UnlockAll
  | DisableByClient Uid
  | EnableByClient Uid
  | EnableByClientAll
  | PimCreateProfile Uid Uid Uid
  | PimProfileDied Uid Uid
  | PmpReady
  | NegotiateRole u32
  | RemoteWaitingServices "Uid list"

abbreviation (input) PMP_CLIENT_CORE :: u32 where "PMP_CLIENT_CORE \<equiv> 0"
abbreviation (input) PMP_CLIENT_PI_SRV :: u32 where "PMP_CLIENT_PI_SRV \<equiv> 1"
abbreviation (input) PMP_CLIENT_CMP_MGR :: u32 where "PMP_CLIENT_CMP_MGR \<equiv> 2"
abbreviation (input) PMP_CLIENT_SESSION :: u32 where "PMP_CLIENT_SESSION \<equiv> 3"

definition put_string :: "endian \<Rightarrow> string \<Rightarrow> u8 list" where
  "put_string e s = stringToBuffer e s True"

definition put_u32 :: "endian \<Rightarrow> u32 \<Rightarrow> u8 list" where
  "put_u32 e n = store e 4 (hton32 e n)"

text \<open>The request functions: the client, the request type and the data of the frame.\<close>

fun core_request :: "endian \<Rightarrow> pmp_event \<Rightarrow> (u32 \<times> u8 list) option" where
  "core_request e GetAvailableProfileComplementsRequest = Some (0, [])"
| "core_request e (GetAvailableProfileComplementsResponse complements) =
     Some (1, put_u32 e (of_nat (length complements)) @ concat (map (\<lambda>(u, v). put_string e u @ put_u32 e v) complements))"
| "core_request e ReloadProfilesFromRepository = Some (2, [])"
| "core_request e ResetProfileState = Some (3, [])"
| "core_request e (LockProfile u) = Some (4, put_string e u)"
| "core_request e (UnlockProfile u) = Some (5, put_string e u)"
| "core_request e LockAll = Some (6, [])"
| "core_request e UnlockAll = Some (7, [])"
| "core_request e (DisableByClient u) = Some (8, put_string e u)"
| "core_request e (EnableByClient u) = Some (9, put_string e u)"
| "core_request e EnableByClientAll = Some (10, [])"
| "core_request e _ = None"

fun pim_request :: "endian \<Rightarrow> pmp_event \<Rightarrow> (u32 \<times> u8 list) option" where
  "pim_request e (PimCreateProfile profileUid piuid sid) = Some (11, put_string e profileUid @ put_string e piuid @ put_string e sid)"
| "pim_request e (PimProfileDied piuid sid) = Some (12, put_string e piuid @ put_string e sid)"
| "pim_request e _ = None"

fun session_request :: "endian \<Rightarrow> pmp_event \<Rightarrow> (u32 \<times> u8 list) option" where
  "session_request e (NegotiateRole n) = Some (14, put_u32 e n)"
| "session_request e (RemoteWaitingServices services) =
     Some (15, put_u32 e (of_nat (length services)) @ concat (map (put_string e) services))"
| "session_request e _ = None"

definition ready_request :: "pmp_event \<Rightarrow> (u32 \<times> u8 list) option" where
  "ready_request ev = (if ev = PmpReady then Some (13, []) else None)"

text \<open>\<^verbatim>\<open>makeRequest\<close>: the identifier and the size are converted to network order, the client and the type are not.\<close>

definition makeRequest :: "endian \<Rightarrow> u32 \<Rightarrow> u32 \<Rightarrow> u32 \<Rightarrow> u8 list \<Rightarrow> u8 list" where
  "makeRequest e mid client reqType payload =
     store e 4 (hton32 e mid) @ store e 4 client @ store e 4 reqType
       @ store e 4 (hton32 e (16 + of_nat (length payload))) @ payload"

text \<open>A request of one of the protocols, with the counter of messages before and after.\<close>

definition pmp_send :: "endian \<Rightarrow> pmp_event \<Rightarrow> u32 \<Rightarrow> u8 list \<times> u32" where
  "pmp_send e ev mGenId =
     (let frame = (\<lambda>client (reqType, payload). makeRequest e mGenId client reqType payload)
      in (case core_request e ev of Some r \<Rightarrow> frame PMP_CLIENT_CORE r
          | None \<Rightarrow> (case pim_request e ev of Some r \<Rightarrow> frame PMP_CLIENT_PI_SRV r
          | None \<Rightarrow> (case session_request e ev of Some r \<Rightarrow> frame PMP_CLIENT_SESSION r
          | None \<Rightarrow> frame PMP_CLIENT_CMP_MGR (the (ready_request ev)))), mGenId + 1))"

section \<open>Receiving\<close>

definition get_u32 :: "endian \<Rightarrow> u8 list \<Rightarrow> u32 option" where
  "get_u32 e bs = (if length bs < 4 then None else Some (ntoh32 e (load e (take 4 bs))))"

definition get_string :: "endian \<Rightarrow> u8 list \<Rightarrow> string option" where
  "get_string e bs = bufferToString e bs True"

fun get_complements :: "endian \<Rightarrow> nat \<Rightarrow> u8 list \<Rightarrow> (Uid \<times> u32) list option" where
  "get_complements e 0 bs = Some []"
| "get_complements e (Suc k) bs = do {
     str \<leftarrow> get_string e bs;
     let bs = drop (stringInBufSize str) bs;
     version \<leftarrow> get_u32 e bs;
     complements \<leftarrow> get_complements e k (drop 4 bs);
     Some ((str, version) # complements) }"

fun get_services :: "endian \<Rightarrow> nat \<Rightarrow> u8 list \<Rightarrow> Uid list option" where
  "get_services e 0 bs = Some []"
| "get_services e (Suc k) bs = do {
     str \<leftarrow> get_string e bs;
     services \<leftarrow> get_services e k (drop (stringInBufSize str) bs);
     Some (str # services) }"

text \<open>\<^verbatim>\<open>Some None\<close>: the frame is ignored.\<close>

definition onCoreRequest :: "endian \<Rightarrow> u32 \<Rightarrow> u8 list \<Rightarrow> pmp_event option option" where
  "onCoreRequest e reqType payload =
     (if reqType = 0 then Some (Some GetAvailableProfileComplementsRequest)
      else if reqType = 1 then do {
        count \<leftarrow> get_u32 e payload;
        complements \<leftarrow> get_complements e (unat count) (drop 4 payload);
        Some (Some (GetAvailableProfileComplementsResponse complements)) }
      else if reqType = 2 then Some (Some ReloadProfilesFromRepository)
      else if reqType = 3 then Some (Some ResetProfileState)
      else if reqType = 4 then do { id \<leftarrow> get_string e payload; Some (Some (LockProfile id)) }
      else if reqType = 5 then do { id \<leftarrow> get_string e payload; Some (Some (UnlockProfile id)) }
      else if reqType = 6 then Some (Some LockAll)
      else if reqType = 7 then Some (Some UnlockAll)
      else if reqType = 8 then do { id \<leftarrow> get_string e payload; Some (Some (DisableByClient id)) }
      else if reqType = 9 then do { id \<leftarrow> get_string e payload; Some (Some (EnableByClient id)) }
      else if reqType = 10 then Some (Some EnableByClientAll)
      else Some None)"

definition onPimRequest :: "endian \<Rightarrow> u32 \<Rightarrow> u8 list \<Rightarrow> pmp_event option option" where
  "onPimRequest e reqType payload =
     (if reqType = 11 then do {
        profileUid \<leftarrow> get_string e payload;
        let payload = drop (stringInBufSize profileUid) payload;
        piuid \<leftarrow> get_string e payload;
        sid \<leftarrow> get_string e (drop (stringInBufSize piuid) payload);
        Some (Some (PimCreateProfile profileUid piuid sid)) }
      else if reqType = 12 then do {
        piuid \<leftarrow> get_string e payload;
        sid \<leftarrow> get_string e (drop (stringInBufSize piuid) payload);
        Some (Some (PimProfileDied piuid sid)) }
      else Some None)"

definition onSessionRequest :: "endian \<Rightarrow> u32 \<Rightarrow> u8 list \<Rightarrow> pmp_event option option" where
  "onSessionRequest e reqType payload =
     (if reqType = 14 then do { number \<leftarrow> get_u32 e payload; Some (Some (NegotiateRole number)) }
      else if reqType = 15 then do {
        count \<leftarrow> get_u32 e payload;
        services \<leftarrow> get_services e (unat count) (drop 4 payload);
        Some (Some (RemoteWaitingServices services)) }
      else Some None)"

definition onCmpMgrRequest :: "u32 \<Rightarrow> pmp_event option" where
  "onCmpMgrRequest reqType = (if reqType = 13 then Some PmpReady else None)"

definition onRequest :: "endian \<Rightarrow> u32 \<Rightarrow> u32 \<Rightarrow> u8 list \<Rightarrow> pmp_event option option" where
  "onRequest e client reqType payload =
     (if client = PMP_CLIENT_CORE then onCoreRequest e reqType payload
      else if client = PMP_CLIENT_PI_SRV then onPimRequest e reqType payload
      else if client = PMP_CLIENT_CMP_MGR then Some (onCmpMgrRequest reqType)
      else if client = PMP_CLIENT_SESSION then onSessionRequest e reqType payload
      else Some None)"

definition pmp_onDataReceived :: "endian \<Rightarrow> u8 list \<Rightarrow> pmp_event option option" where
  "pmp_onDataReceived e bs =
     (if length bs < 16 then None
      else onRequest e (load e (take 4 (drop 4 bs))) (load e (take 4 (drop 8 bs))) (drop 16 bs))"

section \<open>Strings and numbers come back\<close>

lemma char_of_byte_of [simp]: "char_of_byte (byte_of c) = c"
proof -
  have "of_char c < (256 :: nat)" by simp
  then have "unat (word_of_nat (of_char c) :: u8) = of_char c"
    by (simp add: unsigned_of_nat take_bit_nat_eq_self)
  then show ?thesis by (simp add: byte_of_def char_of_byte_def)
qed

lemma char_of_byte_comp [simp]: "map (char_of_byte \<circ> byte_of) s = s"
  by (simp add: comp_def)

lemma length_put_string [simp]: "length (put_string e s) = stringInBufSize s"
  by (simp add: put_string_def stringToBuffer_def stringInBufSize_def Let_def)

lemma length_put_u32 [simp]: "length (put_u32 e n) = 4"
  by (simp add: put_u32_def)

lemma ntoh32_big_endian [simp]: "ntoh32 e (load e (rev (bytes_le 4 n))) = n"
  using network_order(2) [of e e n] by simp

lemma get_put_u32 [simp]: "get_u32 e (put_u32 e' n @ bs) = Some n"
  by (simp add: get_u32_def put_u32_def network_order)

definition string_fits :: "string \<Rightarrow> bool" where
  "string_fits s \<longleftrightarrow> length s < 2 ^ 32 - 1"

lemma get_put_string [simp]:
  assumes "string_fits s"
  shows "get_string e (put_string e' s @ bs) = Some s"
proof -
  have "unat ((1 + of_nat (length s) :: u32) - 1) = length s"
    using assms by (simp add: string_fits_def unsigned_of_nat take_bit_nat_eq_self)
  then show ?thesis
    by (simp add: get_string_def put_string_def bufferToString_def stringToBuffer_def Let_def network_order)
qed

lemmas get_put_end [simp] = get_put_u32 [where bs = "[]", simplified] get_put_string [where bs = "[]", simplified]

text \<open>The strings of a request are short enough for their size to fit.\<close>

fun event_ok :: "pmp_event \<Rightarrow> bool" where
  "event_ok (GetAvailableProfileComplementsResponse cs) \<longleftrightarrow>
     length cs < 2 ^ 32 \<and> list_all (\<lambda>(u, v). string_fits u) cs"
| "event_ok (RemoteWaitingServices ss) \<longleftrightarrow> length ss < 2 ^ 32 \<and> list_all (\<lambda>u. string_fits u) ss"
| "event_ok (LockProfile u) \<longleftrightarrow> string_fits u"
| "event_ok (UnlockProfile u) \<longleftrightarrow> string_fits u"
| "event_ok (DisableByClient u) \<longleftrightarrow> string_fits u"
| "event_ok (EnableByClient u) \<longleftrightarrow> string_fits u"
| "event_ok (PimCreateProfile u i s) \<longleftrightarrow> string_fits u \<and> string_fits i \<and> string_fits s"
| "event_ok (PimProfileDied i s) \<longleftrightarrow> string_fits i \<and> string_fits s"
| "event_ok _ \<longleftrightarrow> True"

lemma get_complements_put:
  "list_all (\<lambda>(u, v). string_fits u) cs \<Longrightarrow>
   get_complements e (length cs) (concat (map (\<lambda>(u, v). put_string e' u @ put_u32 e' v) cs) @ bs) = Some cs"
  by (induction cs) auto

lemma get_services_put:
  "list_all (\<lambda>u. string_fits u) ss \<Longrightarrow>
   get_services e (length ss) (concat (map (put_string e') ss) @ bs) = Some ss"
  by (induction ss) auto


section \<open>Frames between two devices\<close>

lemma load_other_order:
  assumes "e \<noteq> e'"
  shows "load e' (store e 4 w) = swab32 w"
  using assms by (cases e; cases e')
    (simp_all add: eq_by_bytes [where n = 4 and 'a = 32] load_store_order bytes_le_swab32 store_def)

lemma onDataReceived_make:
  "pmp_onDataReceived e' (makeRequest e mid client reqType payload) =
     onRequest e' (load e' (store e 4 client)) (load e' (store e 4 reqType)) payload"
  by (simp add: pmp_onDataReceived_def makeRequest_def)

lemmas request_defs = onRequest_def onCoreRequest_def onPimRequest_def onSessionRequest_def onCmpMgrRequest_def


section \<open>Properties\<close>


text \<open>
  Only the identifier and the size of a frame are converted to network order. A device of
  the other byte order understands one request, the first of the first client, and silently ignores every other.
\<close>

theorem foreign_frames_ignored:
  assumes "e \<noteq> e'"
  shows "pmp_onDataReceived e' (fst (pmp_send e ev n)) =
    Some (if ev = GetAvailableProfileComplementsRequest then Some ev else None)"
  by (cases ev)
    (simp_all add: pmp_send_def onDataReceived_make load_other_order [OF assms] swab32_def request_defs ready_request_def)



theorem foreign_frames_ignored_witness:
  "pmp_onDataReceived BigEndian (fst (pmp_send LittleEndian (LockProfile ''profile'') 0)) = Some None"
  using foreign_frames_ignored [of LittleEndian BigEndian "LockProfile ''profile''" 0] by simp

end
