(* ===== verification/StdMap.thy ===== *)
theory StdMap
  imports Main "HOL-Library.List_Lexorder" "HOL-Library.Char_ord"
begin

text \<open>
  \<^verbatim>\<open>std::map\<close> where the order of the iteration matters: an association list in ascending order of the keys. Identifiers are
  strings, which \<^verbatim>\<open>std::string\<close> orders lexicographically as the library does.
\<close>

fun map_insert :: "'k::linorder \<Rightarrow> 'v \<Rightarrow> ('k \<times> 'v) list \<Rightarrow> ('k \<times> 'v) list" where
  "map_insert k v [] = [(k, v)]"
| "map_insert k v ((k', v') # m) =
     (if k < k' then (k, v) # (k', v') # m else if k = k' then (k', v') # m else (k', v') # map_insert k v m)"

definition map_erase :: "'k \<Rightarrow> ('k \<times> 'v) list \<Rightarrow> ('k \<times> 'v) list" where
  "map_erase k m = filter (\<lambda>(k', _). k' \<noteq> k) m"

text \<open>\<^verbatim>\<open>m[k] = v\<close>, and assignment to the value behind an iterator.\<close>

definition map_put :: "'k::linorder \<Rightarrow> 'v \<Rightarrow> ('k \<times> 'v) list \<Rightarrow> ('k \<times> 'v) list" where
  "map_put k v m = map_insert k v (map_erase k m)"

definition map_assign :: "'k \<Rightarrow> ('v \<Rightarrow> 'v) \<Rightarrow> ('k \<times> 'v) list \<Rightarrow> ('k \<times> 'v) list" where
  "map_assign k f m = map (\<lambda>(k', v). (k', if k' = k then f v else v)) m"

definition map_sorted :: "('k::linorder \<times> 'v) list \<Rightarrow> bool" where
  "map_sorted m \<longleftrightarrow> sorted_wrt (<) (map fst m)"

lemma map_sorted_simps [simp]:
  "map_sorted []" "map_sorted (kv # m) \<longleftrightarrow> (\<forall>k \<in> fst ` set m. fst kv < k) \<and> map_sorted m"
  by (simp_all add: map_sorted_def)

lemma map_sorted_distinct: "map_sorted m \<Longrightarrow> distinct (map fst m)"
  by (simp add: map_sorted_def strict_sorted_iff)

lemma map_above: "\<forall>j \<in> fst ` set m. k < j \<Longrightarrow> map_of m k = None" for k :: "'k::linorder"
  by (auto simp: map_of_eq_None_iff)

lemma map_insert_keys [simp]: "fst ` set (map_insert k v m) = insert k (fst ` set m)"
  by (induction k v m rule: map_insert.induct) auto

lemma map_insert_subset: "x \<in> set (map_insert k v m) \<Longrightarrow> x = (k, v) \<or> x \<in> set m"
  by (induction k v m rule: map_insert.induct) (auto split: if_splits)

lemma map_insert_sorted [simp]: "map_sorted m \<Longrightarrow> map_sorted (map_insert k v m)"
  by (induction k v m rule: map_insert.induct) (auto dest: map_insert_subset)

lemma map_of_insert:
  "map_sorted m \<Longrightarrow> map_of (map_insert k v m) j = (case map_of m j of Some w \<Rightarrow> Some w | None \<Rightarrow> if j = k then Some v else None)"
proof (induction k v m rule: map_insert.induct)
  case (2 k v k' v' m)
  have "map_of m k = None" if "k < k'"
    using 2(2) that by (intro map_above) auto
  then show ?case using 2 by (auto split: option.splits)
qed simp

lemma map_of_insert_new: "map_sorted m \<Longrightarrow> map_of m k = None \<Longrightarrow> map_of (map_insert k v m) = (map_of m)(k \<mapsto> v)"
  by (auto simp: fun_eq_iff map_of_insert split: option.splits)

lemma map_erase_sorted [simp]: "map_sorted m \<Longrightarrow> map_sorted (map_erase k m)"
  by (induction m) (auto simp: map_erase_def)

lemma map_of_erase [simp]: "map_of (map_erase k m) = (map_of m)(k := None)"
  by (induction m) (auto simp: map_erase_def fun_eq_iff)

lemma map_put_sorted [simp]: "map_sorted m \<Longrightarrow> map_sorted (map_put k v m)"
  by (simp add: map_put_def)

lemma map_put_lookup [simp]: "map_sorted m \<Longrightarrow> map_of (map_put k v m) = (map_of m)(k \<mapsto> v)"
  by (simp add: map_put_def map_of_insert_new)

lemma map_put_end:
  assumes "\<forall>j \<in> fst ` set m. j < k"
  shows "map_put k v m = m @ [(k, v)]"
proof -
  have "map_insert k v m = m @ [(k, v)]"
    using assms by (induction m) (auto dest: less_asym)
  moreover have "map_erase k m = m"
    using assms by (auto simp: map_erase_def filter_id_conv)
  ultimately show ?thesis
    by (simp add: map_put_def)
qed

lemma map_assign_keys [simp]: "map fst (map_assign k f m) = map fst m"
  by (simp add: map_assign_def comp_def case_prod_unfold)

lemma map_assign_sorted [simp]: "map_sorted (map_assign k f m) = map_sorted m"
  by (simp add: map_sorted_def)

lemma map_of_assign: "map_of (map_assign k f m) j = map_option (if j = k then f else id) (map_of m j)"
  by (induction m) (auto simp: map_assign_def)

lemma map_of_sorted_iff: "map_sorted m \<Longrightarrow> (k, v) \<in> set m \<longleftrightarrow> map_of m k = Some v"
  using map_sorted_distinct map_of_eq_Some_iff by metis

lemma find_snoc: "find P (xs @ [x]) = (case find P xs of None \<Rightarrow> if P x then Some x else None | Some y \<Rightarrow> Some y)"
  by (induction xs) auto

end
