(* ===== verification/PmpCore.thy ===== *)
theory PmpCore
  imports PmpFrames StdMap
begin

text \<open>
  The profile manager's table of profiles (\<^verbatim>\<open>components/ProfileManager/core\<close>): which profiles of the device are installed on
  the other one too, enabled by the clients and unlocked, and the requests by which the two tables follow each other. The
  repository, the instance manager and the transport are arguments; what the core asks of them is a list of actions.
\<close>

section \<open>Profiles\<close>

record LibInfo =
  lib_uid :: Uid
  lib_apiUid :: Uid
  lib_complement :: Uid
  lib_version :: u32
  lib_platform :: string
  lib_path :: string

record PmpCoreProfileInfo =
  mEnabledByComplement :: bool
  mEnabledByClient :: bool
  mLocked :: bool
  mLibInfo :: LibInfo

definition PmpCoreProfileInfo_new :: "LibInfo \<Rightarrow> PmpCoreProfileInfo" where
  "PmpCoreProfileInfo_new libInfo =
     \<lparr>mEnabledByComplement = False, mEnabledByClient = True, mLocked = False, mLibInfo = libInfo\<rparr>"

definition uid :: "PmpCoreProfileInfo \<Rightarrow> Uid" where
  "uid p = lib_uid (mLibInfo p)"

definition api :: "PmpCoreProfileInfo \<Rightarrow> Uid" where
  "api p = lib_apiUid (mLibInfo p)"

definition complement :: "PmpCoreProfileInfo \<Rightarrow> Uid" where
  "complement p = lib_complement (mLibInfo p)"

definition version :: "PmpCoreProfileInfo \<Rightarrow> u32" where
  "version p = lib_version (mLibInfo p)"

definition library :: "PmpCoreProfileInfo \<Rightarrow> string" where
  "library p = lib_path (mLibInfo p)"

definition enabled :: "PmpCoreProfileInfo \<Rightarrow> bool" where
  "enabled p \<longleftrightarrow> mEnabledByClient p \<and> mEnabledByComplement p"

definition available :: "PmpCoreProfileInfo \<Rightarrow> bool" where
  "available p \<longleftrightarrow> enabled p \<and> \<not> mLocked p"

definition p_lock :: "PmpCoreProfileInfo \<Rightarrow> PmpCoreProfileInfo" where
  "p_lock p = p\<lparr>mLocked := True\<rparr>"

definition p_unlock :: "PmpCoreProfileInfo \<Rightarrow> PmpCoreProfileInfo" where
  "p_unlock p = p\<lparr>mLocked := False\<rparr>"

definition p_enableByClient :: "PmpCoreProfileInfo \<Rightarrow> PmpCoreProfileInfo" where
  "p_enableByClient p = p\<lparr>mEnabledByClient := True\<rparr>"

definition p_disableByClient :: "PmpCoreProfileInfo \<Rightarrow> PmpCoreProfileInfo" where
  "p_disableByClient p = p\<lparr>mEnabledByClient := False\<rparr>"

definition p_enableByComplement :: "PmpCoreProfileInfo \<Rightarrow> PmpCoreProfileInfo" where
  "p_enableByComplement p = p\<lparr>mEnabledByComplement := True\<rparr>"

definition p_disableByComplement :: "PmpCoreProfileInfo \<Rightarrow> PmpCoreProfileInfo" where
  "p_disableByComplement p = p\<lparr>mEnabledByComplement := False\<rparr>"

section \<open>The table\<close>

text \<open>The pointers that \<^verbatim>\<open>init\<close> sets are flags: whether there is an object.\<close>

record PmpCore =
  mProfiles :: "PmpCoreProfileInfo list"
  mPlatform :: string
  mActualRepoState :: bool
  core_mpPim :: bool
  mpCoreProtocol :: bool
  mEventFactory :: bool

definition PmpCore_new :: "string \<Rightarrow> PmpCore" where
  "PmpCore_new platform = \<lparr>mProfiles = [], mPlatform = platform, mActualRepoState = False, core_mpPim = False,
     mpCoreProtocol = False, mEventFactory = False\<rparr>"

definition core_init :: "bool \<Rightarrow> bool \<Rightarrow> bool \<Rightarrow> PmpCore \<Rightarrow> PmpCore" where
  "core_init pPim pCoreProtocol factory c = c\<lparr>core_mpPim := pPim, mpCoreProtocol := pCoreProtocol, mEventFactory := factory\<rparr>"

datatype core_action = Send pmp_event | UnloadInstances Uid | UnloadInstancesEvent Uid | CoreIsReady

text \<open>The loops of the operations: one that changes the profiles of a kind, and one that remembers the last complement.\<close>

definition update_profiles ::
    "(PmpCoreProfileInfo \<Rightarrow> bool) \<Rightarrow> (PmpCoreProfileInfo \<Rightarrow> PmpCoreProfileInfo) \<Rightarrow> PmpCore \<Rightarrow> PmpCore" where
  "update_profiles P f c = c\<lparr>mProfiles := map (\<lambda>p. if P p then f p else p) (mProfiles c)\<rparr>"

definition matching :: "(PmpCoreProfileInfo \<Rightarrow> bool) \<Rightarrow> PmpCore \<Rightarrow> PmpCoreProfileInfo list" where
  "matching P c = filter P (mProfiles c)"

definition has_profile :: "Uid \<Rightarrow> PmpCore \<Rightarrow> bool" where
  "has_profile pid c \<longleftrightarrow> matching (\<lambda>p. uid p = pid) c \<noteq> []"

definition last_complement :: "Uid \<Rightarrow> PmpCore \<Rightarrow> Uid" where
  "last_complement pid c = foldl (\<lambda>u p. if uid p = pid then complement p else u) '''' (mProfiles c)"

text \<open>The condition of the loop of \<^verbatim>\<open>findProfiles\<close>. Its map keeps the profile that is first entered for a relevance.\<close>

definition wanted :: "Uid \<Rightarrow> bool \<Rightarrow> PmpCoreProfileInfo \<Rightarrow> bool" where
  "wanted pid enabledProfiles p \<longleftrightarrow> (pid = api p \<or> pid = uid p) \<and> (\<not> enabledProfiles \<or> available p)"

definition findProfiles :: "(Uid \<Rightarrow> u32 \<Rightarrow> int) \<Rightarrow> Uid \<Rightarrow> bool \<Rightarrow> PmpCore \<Rightarrow> Uid list" where
  "findProfiles getRelevance pid enabledProfiles c =
     (let profMap = foldl (\<lambda>m p. map_insert (getRelevance (uid p) (version p)) (uid p) m) []
            (matching (wanted pid enabledProfiles) c)
      in map snd (rev profMap))"

definition reloadProfilesFromRepository :: "LibInfo list \<Rightarrow> PmpCore \<Rightarrow> PmpCore" where
  "reloadProfilesFromRepository libs c =
     c\<lparr>mProfiles := map PmpCoreProfileInfo_new (filter (\<lambda>l. mPlatform c = lib_platform l) libs), mActualRepoState := True\<rparr>"

definition disableByComplementAll :: "PmpCore \<Rightarrow> PmpCore" where
  "disableByComplementAll c = update_profiles (\<lambda>_. True) p_disableByComplement c"

definition onLockAll :: "PmpCore \<Rightarrow> PmpCore" where
  "onLockAll c = update_profiles (\<lambda>_. True) p_lock c"

definition onUnlockAll :: "PmpCore \<Rightarrow> PmpCore" where
  "onUnlockAll c = update_profiles (\<lambda>_. True) p_unlock c"

text \<open>A call through a pointer that \<^verbatim>\<open>init\<close> has not set does not return.\<close>

definition send_all :: "('a \<Rightarrow> pmp_event) \<Rightarrow> 'a list \<Rightarrow> PmpCore \<Rightarrow> core_action list option" where
  "send_all f us c = (if us \<noteq> [] \<and> \<not> mpCoreProtocol c then None else Some (map (Send \<circ> f) us))"

definition resetProfilesState :: "PmpCore \<Rightarrow> (core_action list \<times> PmpCore) option" where
  "resetProfilesState c = do {
     acts \<leftarrow> send_all (\<lambda>_. GetAvailableProfileComplementsRequest) [()] c;
     Some (acts, onLockAll (disableByComplementAll c)) }"

definition getAvailableProfileComplements :: "PmpCore \<Rightarrow> core_action list option" where
  "getAvailableProfileComplements c =
     send_all GetAvailableProfileComplementsResponse [map (\<lambda>p. (uid p, version p)) (mProfiles c)] c"

definition getAvailbleProfileComplementsResponse :: "(Uid \<times> u32) list \<Rightarrow> PmpCore \<Rightarrow> (core_action list \<times> PmpCore) option" where
  "getAvailbleProfileComplementsResponse complements c =
     (let c = foldl (\<lambda>c (u, v). update_profiles (\<lambda>p. u = complement p \<and> v = version p) p_enableByComplement c) c complements
      in if mEventFactory c then Some ([CoreIsReady], c) else None)"

text \<open>The result is the returned flag, the actions and the table; \<^verbatim>\<open>sent\<close> is what the transport answers a request.\<close>

type_synonym core_result = "(bool \<times> core_action list \<times> PmpCore) option"

definition lockByApiUid :: "(Uid \<Rightarrow> bool) \<Rightarrow> Uid \<Rightarrow> PmpCore \<Rightarrow> core_result" where
  "lockByApiUid hasInstance pid c =
     (let P = (\<lambda>p. api p = pid \<and> core_mpPim c \<and> \<not> hasInstance (uid p)) in do {
        acts \<leftarrow> send_all LockProfile (map complement (matching P c)) c;
        Some (matching P c \<noteq> [], acts, update_profiles P p_lock c) })"

definition unlockByApiUid :: "Uid \<Rightarrow> PmpCore \<Rightarrow> core_result" where
  "unlockByApiUid pid c =
     (let P = (\<lambda>p. api p = pid) in do {
        acts \<leftarrow> send_all UnlockProfile (map complement (matching P c)) c;
        Some (matching P c \<noteq> [], acts, update_profiles P p_unlock c) })"

definition core_lock :: "(Uid \<Rightarrow> bool) \<Rightarrow> bool \<Rightarrow> Uid \<Rightarrow> PmpCore \<Rightarrow> core_result" where
  "core_lock hasInstance sent pid c =
     (if \<not> mpCoreProtocol c \<or> \<not> core_mpPim c \<or> hasInstance pid then Some (False, [], c)
      else if \<not> has_profile pid c then lockByApiUid hasInstance pid c
      else Some (sent, [Send (LockProfile (last_complement pid c))], update_profiles (\<lambda>p. uid p = pid) p_lock c))"

definition core_unlock :: "bool \<Rightarrow> Uid \<Rightarrow> PmpCore \<Rightarrow> core_result" where
  "core_unlock sent pid c =
     (if \<not> mpCoreProtocol c then Some (False, [], c)
      else if \<not> has_profile pid c then unlockByApiUid pid c
      else Some (sent, [Send (UnlockProfile (last_complement pid c))], update_profiles (\<lambda>p. uid p = pid) p_unlock c))"

definition lockAll :: "PmpCore \<Rightarrow> core_action list \<times> PmpCore" where
  "lockAll c = (if \<not> mpCoreProtocol c then ([], c) else ([Send LockAll], update_profiles (\<lambda>_. True) p_lock c))"

definition unlockAll :: "PmpCore \<Rightarrow> core_action list \<times> PmpCore" where
  "unlockAll c = (if \<not> mpCoreProtocol c then ([], c) else ([Send UnlockAll], update_profiles (\<lambda>_. True) p_unlock c))"

definition disableApiUidByClient :: "Uid \<Rightarrow> PmpCore \<Rightarrow> core_result" where
  "disableApiUidByClient pid c =
     (let P = (\<lambda>p. api p = pid) in do {
        acts \<leftarrow> send_all DisableByClient (map complement (matching P c)) c;
        Some (matching P c \<noteq> [], (if core_mpPim c then map (UnloadInstances \<circ> uid) (matching P c) else []) @ acts,
          update_profiles P p_disableByClient c) })"

definition enableApiUidByClient :: "Uid \<Rightarrow> PmpCore \<Rightarrow> core_result" where
  "enableApiUidByClient pid c =
     (let P = (\<lambda>p. api p = pid) in do {
        acts \<leftarrow> send_all EnableByClient (map complement (matching P c)) c;
        Some (matching P c \<noteq> [], acts, update_profiles P p_enableByClient c) })"

definition disableByClient :: "Uid \<Rightarrow> PmpCore \<Rightarrow> core_result" where
  "disableByClient pid c =
     (if \<not> mpCoreProtocol c then Some (False, [], c)
      else if \<not> has_profile pid c then disableApiUidByClient pid c
      else Some (True, (if core_mpPim c \<and> mEventFactory c then [UnloadInstancesEvent pid] else [])
        @ [Send (DisableByClient (last_complement pid c))], update_profiles (\<lambda>p. uid p = pid) p_disableByClient c))"

definition enableByClient :: "Uid \<Rightarrow> PmpCore \<Rightarrow> core_result" where
  "enableByClient pid c =
     (if \<not> mpCoreProtocol c then Some (False, [], c)
      else if \<not> has_profile pid c then enableApiUidByClient pid c
      else Some (True, [Send (EnableByClient (last_complement pid c))], update_profiles (\<lambda>p. uid p = pid) p_enableByClient c))"

definition enableByClientAll :: "PmpCore \<Rightarrow> core_action list \<times> PmpCore" where
  "enableByClientAll c =
     (if \<not> mpCoreProtocol c then ([], c) else ([Send EnableByClientAll], update_profiles (\<lambda>_. True) p_enableByClient c))"

text \<open>What follows a request of the other device.\<close>

definition onLock :: "Uid \<Rightarrow> PmpCore \<Rightarrow> bool \<times> PmpCore" where
  "onLock pid c = (has_profile pid c, update_profiles (\<lambda>p. uid p = pid) p_lock c)"

definition onUnlock :: "Uid \<Rightarrow> PmpCore \<Rightarrow> bool \<times> PmpCore" where
  "onUnlock pid c = (has_profile pid c, update_profiles (\<lambda>p. uid p = pid) p_unlock c)"

definition onDisableByClient :: "Uid \<Rightarrow> PmpCore \<Rightarrow> bool \<times> PmpCore" where
  "onDisableByClient pid c = (has_profile pid c, update_profiles (\<lambda>p. uid p = pid) p_disableByClient c)"

definition onEnableByClient :: "Uid \<Rightarrow> PmpCore \<Rightarrow> bool \<times> PmpCore" where
  "onEnableByClient pid c = (has_profile pid c, update_profiles (\<lambda>p. uid p = pid) p_enableByClient c)"

definition onEnableByClientAll :: "PmpCore \<Rightarrow> PmpCore" where
  "onEnableByClientAll c = update_profiles (\<lambda>_. True) p_enableByClient c"

definition core_onLostConnection :: "PmpCore \<Rightarrow> PmpCore" where
  "core_onLostConnection c = disableByComplementAll c"

text \<open>The library of a profile: the last of the ascending versions above 0.\<close>

definition getProfileLibPath :: "Uid \<Rightarrow> string \<Rightarrow> PmpCore \<Rightarrow> bool \<times> string" where
  "getProfileLibPath u path c =
     (let (version, path) = foldl (\<lambda>(v, path) p. if uid p = u \<and> v < version p then (version p, library p) else (v, path))
            (0, path) (mProfiles c)
      in (version \<noteq> 0, path))"

definition getComplementary :: "Uid \<Rightarrow> PmpCore \<Rightarrow> Uid option" where
  "getComplementary profUid c = map_option complement (find (\<lambda>p. profUid = uid p) (mProfiles c))"

definition getPapiUid :: "Uid \<Rightarrow> PmpCore \<Rightarrow> Uid option" where
  "getPapiUid profUid c = map_option api (find (\<lambda>p. profUid = uid p) (mProfiles c))"

definition gsAuthProfilePapiUid :: Uid where
  "gsAuthProfilePapiUid = ''AuthenticationProfile_PAPI_UID''"

definition unlockAuthProfile :: "PmpCore \<Rightarrow> core_result" where
  "unlockAuthProfile c = unlockByApiUid gsAuthProfilePapiUid c"

definition unlockBySysCtrlAll :: "PmpCore \<Rightarrow> core_action list \<times> PmpCore" where
  "unlockBySysCtrlAll c = unlockAll c"

text \<open>
  The events that the protocol makes of received frames (\<^verbatim>\<open>ProtocolEvents.cpp\<close>), as far as they are the core's.
\<close>

fun core_handle :: "LibInfo list \<Rightarrow> pmp_event \<Rightarrow> PmpCore \<Rightarrow> (core_action list \<times> PmpCore) option" where
  "core_handle libs GetAvailableProfileComplementsRequest c = map_option (\<lambda>acts. (acts, c)) (getAvailableProfileComplements c)"
| "core_handle libs (GetAvailableProfileComplementsResponse cs) c = getAvailbleProfileComplementsResponse cs c"
| "core_handle libs ReloadProfilesFromRepository c = Some ([], reloadProfilesFromRepository libs c)"
| "core_handle libs ResetProfileState c = resetProfilesState c"
| "core_handle libs (LockProfile u) c = Some ([], snd (onLock u c))"
| "core_handle libs (UnlockProfile u) c = Some ([], snd (onUnlock u c))"
| "core_handle libs LockAll c = Some ([], onLockAll c)"
| "core_handle libs UnlockAll c = Some ([], onUnlockAll c)"
| "core_handle libs (DisableByClient u) c = Some ([], snd (onDisableByClient u c))"
| "core_handle libs (EnableByClient u) c = Some ([], snd (onEnableByClient u c))"
| "core_handle libs EnableByClientAll c = Some ([], onEnableByClientAll c)"
| "core_handle libs _ c = Some ([], c)"


section \<open>The profiles found\<close>

lemma relevance_map:
  fixes rel :: "'p \<Rightarrow> int"
  shows "map_sorted (foldl (\<lambda>m p. map_insert (rel p) (val p) m) [] ps)
    \<and> map_of (foldl (\<lambda>m p. map_insert (rel p) (val p) m) [] ps) r = map_option val (find (\<lambda>p. rel p = r) ps)"
  by (induction ps rule: rev_induct)
    (auto simp: map_of_insert find_snoc split: option.splits)

text \<open>
  The profiles found are, in descending order of relevance, one for each relevance that a
  matching profile has, namely the first in the table: of profiles of the same relevance all others are left out.
\<close>

theorem findProfiles_by_relevance:
  "\<exists>rs. findProfiles getRelevance u enabledOnly c = map (\<lambda>r. uid (the (find (\<lambda>p. getRelevance (uid p) (version p) = r)
        (matching (wanted u enabledOnly) c)))) rs
    \<and> sorted_wrt (>) rs
    \<and> set rs = (\<lambda>p. getRelevance (uid p) (version p)) ` {p \<in> set (mProfiles c). wanted u enabledOnly p}"
proof -
  define ps where "ps = matching (wanted u enabledOnly) c"
  define rel where "rel p = getRelevance (uid p) (version p)" for p
  define m where "m = foldl (\<lambda>m p. map_insert (rel p) (uid p) m) [] ps"
  have sorted: "map_sorted m" and lookup: "map_of m r = map_option uid (find (\<lambda>p. rel p = r) ps)" for r
    using relevance_map [of rel uid ps] by (simp_all add: m_def)
  have "distinct (map fst m)"
    using sorted by (rule map_sorted_distinct)
  have "snd kv = uid (the (find (\<lambda>p. rel p = fst kv) ps))" if "kv \<in> set m" for kv
  proof -
    have "map_of m (fst kv) = Some (snd kv)"
      using \<open>distinct (map fst m)\<close> that by (cases kv) simp
    then show ?thesis using lookup [of "fst kv"] by auto
  qed
  then have vals: "map snd (rev m) = map (\<lambda>r. uid (the (find (\<lambda>p. rel p = r) ps))) (map fst (rev m))"
    by simp
  have "set (map fst (rev m)) = dom (map_of m)" by (simp add: dom_map_of_conv_image_fst)
  also have "\<dots> = rel ` set ps"
    by (force simp: dom_def lookup find_None_iff image_iff)
  finally have "set (map fst (rev m)) = rel ` set ps" .
  moreover have "sorted_wrt (>) (map fst (rev m))"
    using sorted by (simp add: map_sorted_def sorted_wrt_rev flip: rev_map)
  moreover have "findProfiles getRelevance u enabledOnly c = map snd (rev m)"
    by (simp add: findProfiles_def m_def ps_def rel_def)
  ultimately show ?thesis
    using vals by (intro exI [of _ "map fst (rev m)"]) (auto simp: ps_def rel_def matching_def)
qed

text \<open>A library of version 0 is not found.\<close>

lemma version_0_not_found:
  assumes "\<forall>p \<in> set (mProfiles c). uid p = u \<longrightarrow> version p = 0"
  shows "getProfileLibPath u path c = (False, path)"
proof -
  have "foldl (\<lambda>(v, path) p. if uid p = u \<and> v < version p then (version p, library p) else (v, path)) (0, path) ps = (0, path)"
    if "set ps \<subseteq> set (mProfiles c)" for ps
    using that assms by (induction ps) auto
  then show ?thesis by (simp add: getProfileLibPath_def)
qed

end
