(* ===== verification/PmpSync.thy ===== *)
theory PmpSync
  imports PmpCore
begin

text \<open>
  The tables of the two devices together: requests of one are events of the other, in order. What each table says of its
  own profiles and of their complements on the other device.
\<close>

section \<open>Lemmas on the table\<close>

lemma profile_ops_lib [simp]:
  "mLibInfo (p_lock p) = mLibInfo p" "mLibInfo (p_unlock p) = mLibInfo p"
  "mLibInfo (p_enableByClient p) = mLibInfo p" "mLibInfo (p_disableByClient p) = mLibInfo p"
  "mLibInfo (p_enableByComplement p) = mLibInfo p" "mLibInfo (p_disableByComplement p) = mLibInfo p"
  by (simp_all add: p_lock_def p_unlock_def p_enableByClient_def p_disableByClient_def p_enableByComplement_def
      p_disableByComplement_def)

lemmas profile_flags = p_lock_def p_unlock_def p_enableByClient_def p_disableByClient_def p_enableByComplement_def
  p_disableByComplement_def

lemmas lib_fields = uid_def api_def complement_def version_def library_def

lemma update_profiles_fields [simp]:
  "mProfiles (update_profiles P f c) = map (\<lambda>p. if P p then f p else p) (mProfiles c)"
  "mPlatform (update_profiles P f c) = mPlatform c" "core_mpPim (update_profiles P f c) = core_mpPim c"
  "mpCoreProtocol (update_profiles P f c) = mpCoreProtocol c" "mEventFactory (update_profiles P f c) = mEventFactory c"
  by (simp_all add: update_profiles_def)

lemma update_profiles_twice:
  assumes "\<And>p. f (f p) = f p" "\<And>p. P' (f p) = P' p"
  shows "update_profiles P' f (update_profiles P f c) = update_profiles (\<lambda>p. P p \<or> P' p) f c"
  using assms by (simp add: update_profiles_def comp_def)

lemma update_profiles_none [simp]: "update_profiles (\<lambda>_. False) f c = c"
  by (simp add: update_profiles_def)

lemma matching_iff: "p \<in> set (matching P c) \<longleftrightarrow> p \<in> set (mProfiles c) \<and> P p"
  by (auto simp: matching_def)

lemma has_profile_iff: "has_profile u c \<longleftrightarrow> (\<exists>p \<in> set (mProfiles c). uid p = u)"
  by (auto simp: has_profile_def matching_def filter_empty_conv)

lemma last_complement_from:
  "\<exists>p \<in> set ps. uid p = u \<Longrightarrow> \<exists>p \<in> set ps. uid p = u \<and> complement p = foldl (\<lambda>w p. if uid p = u then complement p else w) v ps"
proof (induction ps rule: rev_induct)
  case (snoc q ps)
  then show ?case by (cases "uid q = u") auto
qed simp

section \<open>Agreement on a flag\<close>

definition paired :: "PmpCoreProfileInfo \<Rightarrow> PmpCoreProfileInfo \<Rightarrow> bool" where
  "paired p q \<longleftrightarrow> complement p = uid q \<and> complement q = uid p"

definition agree :: "(PmpCoreProfileInfo \<Rightarrow> bool) \<Rightarrow> PmpCore \<Rightarrow> PmpCore \<Rightarrow> bool" where
  "agree flag a b \<longleftrightarrow> (\<forall>p \<in> set (mProfiles a). \<forall>q \<in> set (mProfiles b). paired p q \<longrightarrow> flag p = flag q)"

text \<open>The versions of a profile have the same complement and the same interface, and no other profile has that complement.\<close>

definition complements_ok :: "PmpCore \<Rightarrow> bool" where
  "complements_ok c \<longleftrightarrow> (\<forall>p \<in> set (mProfiles c). \<forall>p' \<in> set (mProfiles c).
     (uid p = uid p' \<longleftrightarrow> complement p = complement p') \<and> (uid p = uid p' \<longrightarrow> api p = api p'))"

lemma paired_lib: "mLibInfo p = mLibInfo p' \<Longrightarrow> mLibInfo q = mLibInfo q' \<Longrightarrow> paired p q = paired p' q'"
  by (simp add: paired_def lib_fields)

lemma agree_update:
  assumes "agree flag a b"
    and "\<And>p q. p \<in> set (mProfiles a) \<Longrightarrow> q \<in> set (mProfiles b) \<Longrightarrow> paired p q \<Longrightarrow> P p = Q q"
    and "\<And>p. mLibInfo (f p) = mLibInfo p" "\<And>p q. flag p = flag q \<Longrightarrow> flag (f p) = flag (f q)"
  shows "agree flag (update_profiles P f a) (update_profiles Q f b)"
proof -
  have step: "flag (if P p then f p else p) = flag (if Q q then f q else q)"
    if in_tables: "p \<in> set (mProfiles a)" "q \<in> set (mProfiles b)"
      and pair: "paired (if P p then f p else p) (if Q q then f q else q)" for p q
  proof -
    have "paired p q"
      using pair paired_lib [of "if P p then f p else p" p "if Q q then f q else q" q] assms(3) by simp
    then have "P p = Q q" "flag p = flag q"
      using assms(1,2) in_tables by (auto simp: agree_def)
    then show ?thesis
      using assms(4) [of p q] by (cases "Q q") simp_all
  qed
  show ?thesis
    unfolding agree_def update_profiles_fields set_map
  proof (intro ballI impI)
    fix p' q'
    assume p': "p' \<in> (\<lambda>p. if P p then f p else p) ` set (mProfiles a)"
      and q': "q' \<in> (\<lambda>q. if Q q then f q else q) ` set (mProfiles b)" and pq: "paired p' q'"
    from p' obtain p where p: "p' = (if P p then f p else p)" "p \<in> set (mProfiles a)" by (rule imageE)
    from q' obtain q where q: "q' = (if Q q then f q else q)" "q \<in> set (mProfiles b)" by (rule imageE)
    show "flag p' = flag q'"
      using step [OF p(2) q(2)] pq unfolding p(1) q(1) by simp
  qed
qed

section \<open>Operations of one device and their requests\<close>

datatype core_op = DoLock Uid | DoUnlock Uid | DoLockAll | DoUnlockAll | DoDisable Uid | DoEnable Uid | DoEnableAll
  | DoUnlockAuth | DoReset

fun run_op :: "(Uid \<Rightarrow> bool) \<Rightarrow> core_op \<Rightarrow> PmpCore \<Rightarrow> (core_action list \<times> PmpCore) option" where
  "run_op hasInstance (DoLock u) c = map_option snd (core_lock hasInstance True u c)"
| "run_op hasInstance (DoUnlock u) c = map_option snd (core_unlock True u c)"
| "run_op hasInstance DoLockAll c = Some (lockAll c)"
| "run_op hasInstance DoUnlockAll c = Some (unlockAll c)"
| "run_op hasInstance (DoDisable u) c = map_option snd (disableByClient u c)"
| "run_op hasInstance (DoEnable u) c = map_option snd (enableByClient u c)"
| "run_op hasInstance DoEnableAll c = Some (enableByClientAll c)"
| "run_op hasInstance DoUnlockAuth c = map_option snd (unlockAuthProfile c)"
| "run_op hasInstance DoReset c = resetProfilesState c"

fun sends :: "core_action list \<Rightarrow> pmp_event list" where
  "sends [] = []"
| "sends (Send ev # acts) = ev # sends acts"
| "sends (_ # acts) = sends acts"

fun handle_all :: "LibInfo list \<Rightarrow> pmp_event list \<Rightarrow> PmpCore \<Rightarrow> (core_action list \<times> PmpCore) option" where
  "handle_all libs [] c = Some ([], c)"
| "handle_all libs (ev # evs) c = do {
     (acts, c) \<leftarrow> core_handle libs ev c;
     (acts', c) \<leftarrow> handle_all libs evs c;
     Some (acts @ acts', c) }"

lemma sends_append [simp]: "sends (xs @ ys) = sends xs @ sends ys"
  by (induction xs rule: sends.induct) simp_all

lemma sends_map_Send [simp]: "sends (map (Send \<circ> f) us) = map f us" "sends (map (UnloadInstances \<circ> g) ps) = []"
  by (induction us; simp) (induction ps; simp)

text \<open>The change that a request makes to the table of its receiver.\<close>

lemma handle_uids:
  assumes step: "\<And>u c. core_handle libs (ev u) c = Some ([], update_profiles (\<lambda>q. uid q = u) f c)"
    and f: "\<And>p. f (f p) = f p" "\<And>p. mLibInfo (f p) = mLibInfo p"
  shows "handle_all libs (map ev us) c = Some ([], update_profiles (\<lambda>q. uid q \<in> set us) f c)"
proof (induction us arbitrary: c)
  case (Cons u us)
  have "update_profiles (\<lambda>q. uid q \<in> set us) f (update_profiles (\<lambda>q. uid q = u) f c) = update_profiles (\<lambda>q. uid q \<in> set (u # us)) f c"
    by (subst update_profiles_twice) (simp_all add: f uid_def)
  then show ?case using Cons by (simp add: step)
qed simp

lemma handle_requests:
  "handle_all libs (map LockProfile us) c = Some ([], update_profiles (\<lambda>q. uid q \<in> set us) p_lock c)"
  "handle_all libs (map UnlockProfile us) c = Some ([], update_profiles (\<lambda>q. uid q \<in> set us) p_unlock c)"
  "handle_all libs (map DisableByClient us) c = Some ([], update_profiles (\<lambda>q. uid q \<in> set us) p_disableByClient c)"
  "handle_all libs (map EnableByClient us) c = Some ([], update_profiles (\<lambda>q. uid q \<in> set us) p_enableByClient c)"
  by (rule handle_uids; simp add: onLock_def onUnlock_def onDisableByClient_def onEnableByClient_def profile_flags)+

text \<open>
  Every operation but the reset changes the profiles of a kind, and its requests make the other device change
  the complements of these in the same way.
\<close>

definition mirrored :: "PmpCore \<Rightarrow> PmpCore \<Rightarrow> (core_action list \<times> PmpCore) option \<Rightarrow> bool" where
  "mirrored a b res \<longleftrightarrow> res = None \<or> (\<exists>acts P Q f. res = Some (acts, update_profiles P f a)
     \<and> (\<forall>libs. handle_all libs (sends acts) b = Some ([], update_profiles Q f b))
     \<and> (\<forall>p \<in> set (mProfiles a). \<forall>q \<in> set (mProfiles b). paired p q \<longrightarrow> P p = Q q)
     \<and> f \<in> {p_lock, p_unlock, p_disableByClient, p_enableByClient})"

lemma mirrored_nothing: "mirrored a b (Some ([], a))"
  unfolding mirrored_def
  by (rule disjI2, rule exI [of _ "[]"], rule exI [of _ "\<lambda>_. False"], rule exI [of _ "\<lambda>_. False"], rule exI [of _ p_lock]) simp

lemma mirrored_all:
  assumes "\<And>libs. core_handle libs ev b = Some ([], update_profiles (\<lambda>_. True) f b)"
    and "f \<in> {p_lock, p_unlock, p_disableByClient, p_enableByClient}"
  shows "mirrored a b (Some ([Send ev], update_profiles (\<lambda>_. True) f a))"
  unfolding mirrored_def using assms
  by (intro disjI2, intro exI [of _ "[Send ev]"] exI [of _ "\<lambda>_. True"] exI [of _ f]) simp

lemma mirrored_kind:
  assumes handle: "\<And>libs us c. handle_all libs (map ev us) c = Some ([], update_profiles (\<lambda>q. uid q \<in> set us) f c)"
    and f: "f \<in> {p_lock, p_unlock, p_disableByClient, p_enableByClient}"
    and ok: "complements_ok a"
    and P: "\<And>p p'. p \<in> set (mProfiles a) \<Longrightarrow> p' \<in> set (mProfiles a) \<Longrightarrow> uid p = uid p' \<Longrightarrow> P p = P p'"
    and us: "set us = complement ` {p \<in> set (mProfiles a). P p}" and acts: "sends acts = map ev us"
  shows "mirrored a b (Some (acts, update_profiles P f a))"
proof -
  have "P p \<longleftrightarrow> uid q \<in> set us" if p: "p \<in> set (mProfiles a)" and pq: "paired p q" for p q
  proof
    assume "P p"
    moreover have "uid q = complement p" using pq by (simp add: paired_def)
    ultimately show "uid q \<in> set us" using p us by simp
  next
    assume "uid q \<in> set us"
    then obtain p' where p': "p' \<in> set (mProfiles a)" "P p'" "complement p' = uid q" using us by auto
    then have "uid p' = uid p" using ok p pq by (auto simp: complements_ok_def paired_def)
    then show "P p" using P [OF p'(1) p] p'(2) by simp
  qed
  then show ?thesis
    unfolding mirrored_def using handle f acts
    by (intro disjI2 exI [of _ acts] exI [of _ P] exI [of _ "\<lambda>q. uid q \<in> set us"] exI [of _ f]) simp
qed


lemma run_op_mirrored:
  assumes "complements_ok a" "op \<noteq> DoReset"
  shows "mirrored a b (run_op hasInstance op a)"
proof -
  note kind = mirrored_kind [OF _ _ assms(1)]
  have by_uid: "mirrored a b (Some (acts, update_profiles (\<lambda>p. uid p = u) f a))"
    if h: "\<And>libs us c. handle_all libs (map ev us) c = Some ([], update_profiles (\<lambda>q. uid q \<in> set us) f c)"
      "f \<in> {p_lock, p_unlock, p_disableByClient, p_enableByClient}" "has_profile u a"
      "sends acts = [ev (last_complement u a)]" for ev f u acts
  proof (rule kind [OF h(1,2)])
    obtain p where p: "p \<in> set (mProfiles a)" "uid p = u" "complement p = last_complement u a"
      using last_complement_from [of "mProfiles a" u "''''"] h(3) by (auto simp: has_profile_iff last_complement_def)
    then have "complement p' = last_complement u a" if "p' \<in> set (mProfiles a)" "uid p' = u" for p'
      using that assms(1) by (auto simp: complements_ok_def)
    then show "set [last_complement u a] = complement ` {p \<in> set (mProfiles a). uid p = u}"
      using p by (auto intro!: image_eqI [of _ complement p])
  qed (use h in simp_all)
  have by_api: "mirrored a b (Some (acts, update_profiles P f a))"
    if h: "\<And>libs us c. handle_all libs (map ev us) c = Some ([], update_profiles (\<lambda>q. uid q \<in> set us) f c)"
      "f \<in> {p_lock, p_unlock, p_disableByClient, p_enableByClient}"
      "\<And>p p'. p \<in> set (mProfiles a) \<Longrightarrow> p' \<in> set (mProfiles a) \<Longrightarrow> uid p = uid p' \<Longrightarrow> P p = P p'"
      "sends acts = map ev (map complement (matching P a))" for ev f P acts
  proof (rule kind [OF h(1,2)])
    show "P p = P p'" if "p \<in> set (mProfiles a)" "p' \<in> set (mProfiles a)" "uid p = uid p'" for p p'
      by (rule h(3) [OF that])
    show "sends acts = map ev (map complement (matching P a))" by (rule h(4))
  qed (auto simp: matching_def)
  have api_uid: "api p = api p'" if "p \<in> set (mProfiles a)" "p' \<in> set (mProfiles a)" "uid p = uid p'" for p p'
    using assms(1) that unfolding complements_ok_def by blast
  have sent: "send_all ev us a = Some (map (Send \<circ> ev) us)" if "mpCoreProtocol a" for us :: "Uid list" and ev
    using that by (simp add: send_all_def)
  have api: "mirrored a b (map_option snd (unlockByApiUid u a))" for u
  proof (cases "send_all UnlockProfile (map complement (matching (\<lambda>p. api p = u) a)) a")
    case None
    then show ?thesis by (simp add: unlockByApiUid_def Let_def mirrored_def)
  next
    case (Some acts)
    then have acts: "sends acts = map UnlockProfile (map complement (matching (\<lambda>p. api p = u) a))"
      by (auto simp: send_all_def simp del: map_map split: if_splits)
    have "mirrored a b (Some (acts, update_profiles (\<lambda>p. api p = u) p_unlock a))"
      by (rule by_api [OF handle_requests(2) _ _ acts]) (simp, drule (2) api_uid, simp)
    then show ?thesis
      using Some by (simp add: unlockByApiUid_def Let_def)
  qed
  show ?thesis
  proof (cases "mpCoreProtocol a")
    case False
    then show ?thesis
      using assms(2) api
      by (cases op) (simp_all add: core_lock_def core_unlock_def lockAll_def unlockAll_def disableByClient_def
          enableByClient_def enableByClientAll_def unlockAuthProfile_def mirrored_nothing)
  next
    case protocol: True
    show ?thesis
    proof (cases op)
      case (DoLock u)
      let ?P = "\<lambda>p. api p = u \<and> core_mpPim a \<and> \<not> hasInstance (uid p)"
      have "mirrored a b (Some (map (Send \<circ> LockProfile) (map complement (matching ?P a)), update_profiles ?P p_lock a))"
        by (rule by_api [OF handle_requests(1)]) (simp, drule (2) api_uid, simp, simp del: map_map)
      then show ?thesis
        using DoLock protocol by_uid [OF handle_requests(1), of u "[Send (LockProfile (last_complement u a))]"]
        by (cases "core_mpPim a") (simp_all add: core_lock_def lockByApiUid_def Let_def sent mirrored_nothing)
    next
      case (DoUnlock u)
      then show ?thesis
        using protocol api by_uid [OF handle_requests(2), of u "[Send (UnlockProfile (last_complement u a))]"]
        by (simp add: core_unlock_def)
    next
      case (DoDisable u)
      let ?P = "\<lambda>p. api p = u"
      have "mirrored a b (Some ((if core_mpPim a then map (UnloadInstances \<circ> uid) (matching ?P a) else [])
          @ map (Send \<circ> DisableByClient) (map complement (matching ?P a)), update_profiles ?P p_disableByClient a))"
        by (rule by_api [OF handle_requests(3)]) (simp, drule (2) api_uid, simp, simp del: map_map)
      then show ?thesis
        using DoDisable protocol by_uid [OF handle_requests(3), of u "(if core_mpPim a \<and> mEventFactory a then [UnloadInstancesEvent u] else [])
          @ [Send (DisableByClient (last_complement u a))]"]
        by (simp add: disableByClient_def disableApiUidByClient_def Let_def sent)
    next
      case (DoEnable u)
      let ?P = "\<lambda>p. api p = u"
      have "mirrored a b (Some (map (Send \<circ> EnableByClient) (map complement (matching ?P a)), update_profiles ?P p_enableByClient a))"
        by (rule by_api [OF handle_requests(4)]) (simp, drule (2) api_uid, simp, simp del: map_map)
      then show ?thesis
        using DoEnable protocol by_uid [OF handle_requests(4), of u "[Send (EnableByClient (last_complement u a))]"]
        by (simp add: enableByClient_def enableApiUidByClient_def Let_def sent)
    next
      case DoLockAll
      then show ?thesis
        using protocol mirrored_all [of LockAll b p_lock] by (simp add: lockAll_def onLockAll_def)
    next
      case DoUnlockAll
      then show ?thesis
        using protocol mirrored_all [of UnlockAll b p_unlock] by (simp add: unlockAll_def onUnlockAll_def)
    next
      case DoEnableAll
      then show ?thesis
        using protocol mirrored_all [of EnableByClientAll b p_enableByClient]
        by (simp add: enableByClientAll_def onEnableByClientAll_def)
    next
      case DoUnlockAuth
      then show ?thesis using api by (simp add: unlockAuthProfile_def)
    qed (use assms(2) in simp)
  qed
qed


section \<open>The two devices\<close>

text \<open>
  A step is an operation of one device, the handling of the first request that waits for it, or its loss of the connection;
  \<^verbatim>\<open>inbox d\<close> holds what is on its way to \<^verbatim>\<open>d\<close>.
\<close>

record pmp_pair =
  cores :: "bool \<Rightarrow> PmpCore"
  inbox :: "bool \<Rightarrow> pmp_event list"

definition device_step :: "bool \<Rightarrow> core_action list \<Rightarrow> PmpCore \<Rightarrow> pmp_event list \<Rightarrow> pmp_pair \<Rightarrow> pmp_pair" where
  "device_step d acts c waiting s = \<lparr>cores = (cores s)(d := c),
     inbox = (inbox s)(d := waiting, (\<not> d) := inbox s (\<not> d) @ sends acts)\<rparr>"

inductive pair_step :: "(bool \<Rightarrow> LibInfo list) \<Rightarrow> pmp_pair \<Rightarrow> pmp_pair \<Rightarrow> bool" for libs where
  operate: "run_op hasInstance op (cores s d) = Some (acts, c) \<Longrightarrow> pair_step libs s (device_step d acts c (inbox s d) s)"
| receive: "inbox s d = ev # rest \<Longrightarrow> core_handle (libs d) ev (cores s d) = Some (acts, c)
    \<Longrightarrow> pair_step libs s (device_step d acts c rest s)"
| lose: "pair_step libs s (device_step d [] (core_onLostConnection (cores s d)) [] s)"
| reload: "pair_step libs s (device_step d [] (reloadProfilesFromRepository (libs d) (cores s d)) (inbox s d) s)"

definition pair_start :: "(bool \<Rightarrow> string) \<Rightarrow> pmp_pair" where
  "pair_start platform = \<lparr>cores = (\<lambda>d. core_init True True True (PmpCore_new (platform d))), inbox = (\<lambda>_. [])\<rparr>"

inductive pair_reachable :: "(bool \<Rightarrow> LibInfo list) \<Rightarrow> (bool \<Rightarrow> string) \<Rightarrow> pmp_pair \<Rightarrow> bool" for libs platform where
  start: "pair_reachable libs platform (pair_start platform)"
| step: "pair_reachable libs platform s \<Longrightarrow> pair_step libs s s' \<Longrightarrow> pair_reachable libs platform s'"

definition installed :: "(bool \<Rightarrow> LibInfo list) \<Rightarrow> (bool \<Rightarrow> string) \<Rightarrow> bool \<Rightarrow> (Uid \<times> u32) set" where
  "installed libs platform d = {(lib_uid l, lib_version l) | l. l \<in> set (libs d) \<and> lib_platform l = platform d}"

text \<open>The table lists installed profiles, and takes for enabled only those whose complement is in the set.\<close>

definition core_ok :: "(Uid \<times> u32) set \<Rightarrow> (Uid \<times> u32) set \<Rightarrow> PmpCore \<Rightarrow> bool" where
  "core_ok own other c \<longleftrightarrow> (\<forall>p \<in> set (mProfiles c). (uid p, version p) \<in> own
     \<and> (mEnabledByComplement p \<longrightarrow> (complement p, version p) \<in> other))"

fun event_says :: "(Uid \<times> u32) set \<Rightarrow> pmp_event \<Rightarrow> bool" where
  "event_says other (GetAvailableProfileComplementsResponse cs) \<longleftrightarrow> set cs \<subseteq> other"
| "event_says other _ \<longleftrightarrow> True"

lemma core_ok_update:
  assumes "core_ok own other c" "\<And>p. mLibInfo (f p) = mLibInfo p"
    and "\<And>p. P p \<Longrightarrow> mEnabledByComplement (f p) \<Longrightarrow> mEnabledByComplement p \<or> (complement p, version p) \<in> other"
  shows "core_ok own other (update_profiles P f c)"
  unfolding core_ok_def update_profiles_fields set_map
proof (rule ballI, erule imageE)
  fix q p
  assume q: "q = (if P p then f p else p)" "p \<in> set (mProfiles c)"
  have "(uid p, version p) \<in> own" "mEnabledByComplement p \<longrightarrow> (complement p, version p) \<in> other"
    using assms(1) q(2) by (auto simp: core_ok_def)
  moreover have "uid (f p) = uid p" "version (f p) = version p" "complement (f p) = complement p"
    using assms(2) by (simp_all add: lib_fields)
  ultimately show "(uid q, version q) \<in> own \<and> (mEnabledByComplement q \<longrightarrow> (complement q, version q) \<in> other)"
    using assms(3) [of p] by (cases "P p") (auto simp: q(1))
qed

lemma core_ok_flags:
  assumes "core_ok own other c" "f \<in> {p_lock, p_unlock, p_disableByClient, p_enableByClient, p_disableByComplement}"
  shows "core_ok own other (update_profiles P f c)"
  by (rule core_ok_update [OF assms(1)]) (use assms(2) in \<open>auto simp: profile_flags\<close>)

lemma response_ok:
  assumes "core_ok own other c" "set cs \<subseteq> other"
  shows "core_ok own other (foldl (\<lambda>c (u, v). update_profiles (\<lambda>p. u = complement p \<and> v = version p) p_enableByComplement c) c cs)"
  using assms
proof (induction cs arbitrary: c)
  case (Cons uv cs)
  obtain u v where uv: "uv = (u, v)" by fastforce
  have "core_ok own other (update_profiles (\<lambda>p. u = complement p \<and> v = version p) p_enableByComplement c)"
    by (rule core_ok_update [OF Cons.prems(1)]) (use Cons.prems(2) uv in simp_all)
  then show ?case using Cons uv by simp
qed simp

lemma run_op_ok:
  assumes "run_op hasInstance op c = Some (acts, c')" "core_ok own other c"
  shows "core_ok own other c'"
  using assms
  by (cases op)
    (auto simp: core_lock_def core_unlock_def lockAll_def unlockAll_def disableByClient_def enableByClient_def
      enableByClientAll_def unlockAuthProfile_def resetProfilesState_def lockByApiUid_def unlockByApiUid_def
      disableApiUidByClient_def enableApiUidByClient_def Let_def onLockAll_def disableByComplementAll_def
      core_ok_flags split: if_splits bind_splits)


definition pair_ok :: "(bool \<Rightarrow> LibInfo list) \<Rightarrow> (bool \<Rightarrow> string) \<Rightarrow> pmp_pair \<Rightarrow> bool" where
  "pair_ok libs platform s \<longleftrightarrow> (\<forall>d. core_ok (installed libs platform d) (installed libs platform (\<not> d)) (cores s d)
     \<and> mPlatform (cores s d) = platform d
     \<and> (\<forall>ev \<in> set (inbox s d). event_says (installed libs platform (\<not> d)) ev))"

lemma reload_ok: "mPlatform c = platform d \<Longrightarrow>
  core_ok (installed libs platform d) other (reloadProfilesFromRepository (libs d) c)"
  by (auto simp: core_ok_def reloadProfilesFromRepository_def PmpCoreProfileInfo_new_def installed_def uid_def version_def)

lemma sends_say:
  assumes "run_op hasInstance op c = Some (acts, c')" "ev \<in> set (sends acts)"
  shows "event_says other ev"
proof -
  have kinds: "sends (if b then map (UnloadInstances \<circ> g) ps else []) = []"
    "sends (if b then [UnloadInstancesEvent u] else []) = []" for b g and ps :: "PmpCoreProfileInfo list" and u
    by simp_all
  show ?thesis
    using assms
    by (cases op)
      (auto simp: core_lock_def core_unlock_def lockAll_def unlockAll_def disableByClient_def enableByClient_def
        enableByClientAll_def unlockAuthProfile_def resetProfilesState_def lockByApiUid_def unlockByApiUid_def
        disableApiUidByClient_def enableApiUidByClient_def Let_def send_all_def kinds simp del: map_map
        split: if_splits bind_splits)
qed

lemma run_op_platform: "run_op hasInstance op c = Some (acts, c') \<Longrightarrow> mPlatform c' = mPlatform c"
  by (cases op)
    (auto simp: core_lock_def core_unlock_def lockAll_def unlockAll_def disableByClient_def enableByClient_def
      enableByClientAll_def unlockAuthProfile_def resetProfilesState_def lockByApiUid_def unlockByApiUid_def
      disableApiUidByClient_def enableApiUidByClient_def Let_def onLockAll_def disableByComplementAll_def
      split: if_splits bind_splits)

lemma response_fields:
  "mEventFactory (foldl (\<lambda>c (u, v). update_profiles (\<lambda>p. u = complement p \<and> v = version p) p_enableByComplement c) c cs) = mEventFactory c"
  by (induction cs arbitrary: c) (auto split: prod.splits)

lemma response_platform:
  "mPlatform (foldl (\<lambda>c (u, v). update_profiles (\<lambda>p. u = complement p \<and> v = version p) p_enableByComplement c) c cs) = mPlatform c"
  by (induction cs arbitrary: c) (auto split: prod.splits)

lemma core_handle_ok:
  assumes "core_handle (libs d) ev c = Some (acts, c')" "core_ok (installed libs platform d) (installed libs platform (\<not> d)) c"
    and "mPlatform c = platform d" "event_says (installed libs platform (\<not> d)) ev"
  shows "core_ok (installed libs platform d) (installed libs platform (\<not> d)) c' \<and> mPlatform c' = platform d
    \<and> (\<forall>ev' \<in> set (sends acts). event_says (installed libs platform d) ev')"
proof (cases ev)
  case GetAvailableProfileComplementsRequest
  then show ?thesis
    using assms by (auto simp: getAvailableProfileComplements_def send_all_def core_ok_def split: if_splits)
next
  case (GetAvailableProfileComplementsResponse cs)
  then show ?thesis
    using assms response_ok [OF assms(2), of cs] response_platform [of c cs]
    by (auto simp: getAvailbleProfileComplementsResponse_def Let_def split: if_splits)
next
  case ReloadProfilesFromRepository
  then show ?thesis
    using assms reload_ok [of c platform d libs] by (auto simp: reloadProfilesFromRepository_def)
next
  case ResetProfileState
  then show ?thesis
    using assms by (auto simp: resetProfilesState_def send_all_def onLockAll_def disableByComplementAll_def core_ok_flags
        split: bind_splits if_splits)
qed (use assms in \<open>auto simp: onLock_def onUnlock_def onDisableByClient_def onEnableByClient_def onLockAll_def onUnlockAll_def
  onEnableByClientAll_def core_ok_flags\<close>)

lemma device_step_ok:
  assumes "pair_ok libs platform s" "core_ok (installed libs platform d) (installed libs platform (\<not> d)) c"
    and "mPlatform c = platform d" "set waiting \<subseteq> set (inbox s d)" "\<forall>ev \<in> set (sends acts). event_says (installed libs platform d) ev"
  shows "pair_ok libs platform (device_step d acts c waiting s)"
  unfolding pair_ok_def
proof (intro allI)
  fix x
  show "core_ok (installed libs platform x) (installed libs platform (\<not> x)) (cores (device_step d acts c waiting s) x)
     \<and> mPlatform (cores (device_step d acts c waiting s) x) = platform x
     \<and> (\<forall>ev \<in> set (inbox (device_step d acts c waiting s) x). event_says (installed libs platform (\<not> x)) ev)"
  proof (cases "x = d")
    case True
    then show ?thesis using assms by (auto simp: device_step_def pair_ok_def)
  next
    case False
    then have x: "x = (\<not> d)" by auto
    have "core_ok (installed libs platform x) (installed libs platform (\<not> x)) (cores s x)" "mPlatform (cores s x) = platform x"
      "\<forall>ev \<in> set (inbox s x). event_says (installed libs platform (\<not> x)) ev"
      using assms(1) [unfolded pair_ok_def, rule_format, of x] by (blast, blast, blast)
    then show ?thesis using assms(5) x by (auto simp: device_step_def)
  qed
qed

lemma pair_step_ok:
  assumes "pair_step libs s s'" "pair_ok libs platform s"
  shows "pair_ok libs platform s'"
  using assms
proof cases
  case (operate hasInstance op d acts c)
  have "core_ok (installed libs platform d) (installed libs platform (\<not> d)) c" "mPlatform c = platform d"
    using run_op_ok [OF operate(2)] run_op_platform [OF operate(2)] assms(2) by (simp_all add: pair_ok_def)
  then show ?thesis
    unfolding operate(1) using sends_say [OF operate(2)] by (intro device_step_ok [OF assms(2)]) simp_all
next
  case (receive d ev rest acts c)
  have "core_ok (installed libs platform d) (installed libs platform (\<not> d)) (cores s d)" "mPlatform (cores s d) = platform d"
    "event_says (installed libs platform (\<not> d)) ev"
    using assms(2) receive(2) by (simp_all add: pair_ok_def)
  from core_handle_ok [OF receive(3) this] show ?thesis
    unfolding receive(1) using receive(2) by (intro device_step_ok [OF assms(2)]) auto
next
  case (lose d)
  have "core_ok (installed libs platform d) (installed libs platform (\<not> d)) (cores s d)" "mPlatform (cores s d) = platform d"
    using assms(2) by (simp_all add: pair_ok_def)
  then show ?thesis
    unfolding lose
    by (intro device_step_ok [OF assms(2)]) (simp_all add: core_onLostConnection_def disableByComplementAll_def core_ok_flags)
next
  case (reload d)
  have platform: "mPlatform (cores s d) = platform d"
    using assms(2) by (simp add: pair_ok_def)
  show ?thesis
    unfolding reload
    by (rule device_step_ok [OF assms(2) reload_ok [where platform = platform and d = d, OF platform]]) (simp_all add: platform reloadProfilesFromRepository_def)
qed

lemma pair_reachable_ok: "pair_reachable libs platform s \<Longrightarrow> pair_ok libs platform s"
proof (induction rule: pair_reachable.induct)
  case start
  show ?case by (simp add: pair_ok_def pair_start_def core_ok_def core_init_def PmpCore_new_def)
next
  case (step s s')
  then show ?case using pair_step_ok by blast
qed

section \<open>Properties\<close>

text \<open>
  C21: in every reachable state of the two devices, whatever they do, reload and lose, a profile that is
  available on one of them is installed, in its version, with its complement on the other one.
\<close>

theorem available_is_installed:
  assumes "pair_reachable libs platform s" "p \<in> set (mProfiles (cores s d))" "available p"
  shows "\<exists>l \<in> set (libs (\<not> d)). lib_platform l = platform (\<not> d) \<and> lib_uid l = complement p \<and> lib_version l = version p"
proof -
  have "(complement p, version p) \<in> installed libs platform (\<not> d)"
    using pair_reachable_ok [OF assms(1)] assms(2,3) by (auto simp: pair_ok_def core_ok_def available_def enabled_def)
  then show ?thesis by (auto simp: installed_def)
qed



lemma response_enables:
  "mProfiles (foldl (\<lambda>c (u, v). update_profiles (\<lambda>p. u = complement p \<and> v = version p) p_enableByComplement c) c cs)
    = map (\<lambda>p. if (complement p, version p) \<in> set cs then p_enableByComplement p else p) (mProfiles c)"
proof (induction cs arbitrary: c)
  case (Cons uv cs)
  obtain u v where uv: "uv = (u, v)" by fastforce
  have "complement (p_enableByComplement p) = complement p" "version (p_enableByComplement p) = version p"
    "p_enableByComplement (p_enableByComplement p) = p_enableByComplement p" for p
    by (simp_all add: lib_fields p_enableByComplement_def)
  then show ?case using Cons uv by auto
qed simp

text \<open>
  After a reset of one table and the exchange with the other device, every profile is locked, and
  enabled as far as the complement goes exactly when the other table has the complement in the same version.
\<close>

theorem complement_exchange:
  assumes "mpCoreProtocol a" "mEventFactory a" "mpCoreProtocol b"
  shows "\<exists>acts a1 acts' a2. resetProfilesState a = Some (acts, a1)
    \<and> handle_all libs (sends acts) b = Some (acts', b)
    \<and> handle_all libs' (sends acts') a1 = Some ([CoreIsReady], a2)
    \<and> map mLibInfo (mProfiles a2) = map mLibInfo (mProfiles a)
    \<and> (\<forall>p \<in> set (mProfiles a2). mLocked p
        \<and> (mEnabledByComplement p \<longleftrightarrow> (\<exists>q \<in> set (mProfiles b). uid q = complement p \<and> version q = version p)))"
proof -
  define a1 where "a1 = onLockAll (disableByComplementAll a)"
  define cs where "cs = map (\<lambda>q. (uid q, version q)) (mProfiles b)"
  define a2 where "a2 = foldl (\<lambda>c (u, v). update_profiles (\<lambda>p. u = complement p \<and> v = version p) p_enableByComplement c) a1 cs"
  have a1: "mEventFactory a1" "map mLibInfo (mProfiles a1) = map mLibInfo (mProfiles a)"
    "p \<in> set (mProfiles a1) \<Longrightarrow> mLocked p \<and> \<not> mEnabledByComplement p" for p
    using assms by (auto simp: a1_def onLockAll_def disableByComplementAll_def p_lock_def p_disableByComplement_def)
  have "resetProfilesState a = Some ([Send GetAvailableProfileComplementsRequest], a1)"
    using assms by (simp add: resetProfilesState_def send_all_def a1_def)
  moreover have "handle_all libs [GetAvailableProfileComplementsRequest] b = Some ([Send (GetAvailableProfileComplementsResponse cs)], b)"
    using assms by (simp add: getAvailableProfileComplements_def send_all_def cs_def)
  moreover have "handle_all libs' [GetAvailableProfileComplementsResponse cs] a1 = Some ([CoreIsReady], a2)"
    using a1(1) by (simp add: getAvailbleProfileComplementsResponse_def a2_def Let_def response_fields)
  moreover have profiles: "mProfiles a2 = map (\<lambda>p. if (complement p, version p) \<in> set cs then p_enableByComplement p else p) (mProfiles a1)"
    unfolding a2_def by (rule response_enables)
  then have "map mLibInfo (mProfiles a2) = map mLibInfo (mProfiles a1)"
    by (simp add: comp_def if_distrib cong: if_cong)
  moreover have "mLocked p \<and> (mEnabledByComplement p \<longleftrightarrow> (\<exists>q \<in> set (mProfiles b). uid q = complement p \<and> version q = version p))"
    if p: "p \<in> set (mProfiles a2)" for p
  proof -
    obtain p1 where p1: "p1 \<in> set (mProfiles a1)" "p = (if (complement p1, version p1) \<in> set cs then p_enableByComplement p1 else p1)"
      using p profiles by auto
    have "complement p = complement p1" "version p = version p1" "mLocked p = mLocked p1"
      using p1(2) by (simp_all add: lib_fields p_enableByComplement_def)
    moreover have "mEnabledByComplement p \<longleftrightarrow> (complement p1, version p1) \<in> set cs"
      using a1(3) [OF p1(1)] p1(2) by (simp add: p_enableByComplement_def)
    moreover have "(u, v) \<in> set cs \<longleftrightarrow> (\<exists>q \<in> set (mProfiles b). uid q = u \<and> version q = v)" for u v
      by (auto simp: cs_def)
    ultimately show ?thesis
      using a1(3) [OF p1(1)] by simp
  qed
  ultimately show ?thesis
    using a1(2)
    by (intro exI [of _ "[Send GetAvailableProfileComplementsRequest]"] exI [of _ a1]
        exI [of _ "[Send (GetAvailableProfileComplementsResponse cs)]"] exI [of _ a2]) simp
qed

definition sample_libs :: "bool \<Rightarrow> LibInfo list" where
  "sample_libs d = [\<lparr>lib_uid = (if d then ''a'' else ''b''), lib_apiUid = ''i'', lib_complement = (if d then ''b'' else ''a''),
     lib_version = 1, lib_platform = ''linux'', lib_path = ''lib''\<rparr>]"

definition sample_profile :: "bool \<Rightarrow> bool \<Rightarrow> PmpCoreProfileInfo" where
  "sample_profile locked d = \<lparr>mEnabledByComplement = False, mEnabledByClient = True, mLocked = locked,
     mLibInfo = hd (sample_libs d)\<rparr>"

definition sample_core :: "PmpCoreProfileInfo list \<Rightarrow> PmpCore" where
  "sample_core ps = \<lparr>mProfiles = ps, mPlatform = ''linux'', mActualRepoState = True, core_mpPim = True,
     mpCoreProtocol = True, mEventFactory = True\<rparr>"

lemma pair_reach_step: "pair_reachable L P s \<Longrightarrow> pair_step L s s' \<Longrightarrow> s'' = s' \<Longrightarrow> pair_reachable L P s''"
  by (simp add: pair_reachable.step)

definition sample_state :: "PmpCoreProfileInfo list \<Rightarrow> PmpCoreProfileInfo list \<Rightarrow> pmp_event list \<Rightarrow> pmp_event list \<Rightarrow> pmp_pair" where
  "sample_state ps qs to_true to_false = \<lparr>cores = (\<lambda>d. sample_core (if d then ps else qs)),
     inbox = (\<lambda>d. if d then to_true else to_false)\<rparr>"

lemmas sample_defs = sample_libs_def sample_profile_def sample_core_def sample_state_def device_step_def fun_eq_iff
  update_profiles_def profile_flags lib_fields

text \<open>Both devices have loaded their repositories.\<close>

lemma sample_loaded:
  "pair_reachable sample_libs (\<lambda>_. ''linux'') (sample_state [sample_profile False True] [sample_profile False False] [] [])"
proof -
  let ?p = "sample_profile False True"
  have "pair_reachable sample_libs (\<lambda>_. ''linux'') (device_step True [] (sample_core [?p]) [] (pair_start (\<lambda>_. ''linux'')))"
    by (rule pair_reach_step [OF pair_reachable.start pair_step.reload [where d = True]])
      (simp add: pair_start_def core_init_def PmpCore_new_def reloadProfilesFromRepository_def PmpCoreProfileInfo_new_def sample_defs)
  then show ?thesis
    by (rule pair_reach_step [OF _ pair_step.reload [where d = False]])
      (simp add: pair_start_def core_init_def PmpCore_new_def reloadProfilesFromRepository_def PmpCoreProfileInfo_new_def sample_defs)
qed

text \<open>
  The devices do not order their requests. When one locks a profile while the other one unlocks its
  complement, both requests are handled and nothing is left to do, yet the two disagree on whether the pair is locked.
\<close>

theorem crossing_requests_disagree:
  "\<exists>s. pair_reachable sample_libs (\<lambda>_. ''linux'') s \<and> inbox s = (\<lambda>_. [])
    \<and> (\<forall>d. complements_ok (cores s d)) \<and> \<not> agree mLocked (cores s True) (cores s False)"
proof -
  let ?reach = "pair_reachable sample_libs (\<lambda>_. ''linux'')"
  let ?state = sample_state
  let ?p = "\<lambda>locked. sample_profile locked True" and ?q = "\<lambda>locked. sample_profile locked False"
  have "?reach (?state [?p False] [?q False] [] [])"
    by (rule sample_loaded)
  then have "?reach (?state [?p True] [?q False] [] [LockProfile ''b''])"
    by (rule pair_reach_step [OF _ pair_step.operate [where d = True and op = "DoLock ''a''" and hasInstance = "\<lambda>_. False"
            and acts = "[Send (LockProfile ''b'')]" and c = "sample_core [?p True]"]])
      (simp_all add: core_lock_def has_profile_def matching_def last_complement_def sample_defs)
  then have "?reach (?state [?p True] [?q False] [UnlockProfile ''a''] [LockProfile ''b''])"
    by (rule pair_reach_step [OF _ pair_step.operate [where d = False and op = "DoUnlock ''b''" and hasInstance = "\<lambda>_. False"
            and acts = "[Send (UnlockProfile ''a'')]" and c = "sample_core [?q False]"]])
      (simp_all add: core_unlock_def has_profile_def matching_def last_complement_def sample_defs)
  then have "?reach (?state [?p False] [?q False] [] [LockProfile ''b''])"
    by (rule pair_reach_step [OF _ pair_step.receive [where d = True and ev = "UnlockProfile ''a''" and rest = "[]" and acts = "[]"
            and c = "sample_core [?p False]"]])
      (simp_all add: onUnlock_def sample_defs)
  then have "?reach (?state [?p False] [?q True] [] [])"
    by (rule pair_reach_step [OF _ pair_step.receive [where d = False and ev = "LockProfile ''b''" and rest = "[]" and acts = "[]"
            and c = "sample_core [?q True]"]])
      (simp_all add: onLock_def sample_defs)
  then show ?thesis
    by (rule exI [of _ "?state [?p False] [?q True] [] []", OF conjI])
      (simp_all add: complements_ok_def agree_def paired_def sample_defs)
qed



theorem complement_exchange_witness:
  "\<exists>acts a1 acts' a2. resetProfilesState (sample_core [sample_profile False True]) = Some (acts, a1)
    \<and> handle_all [] (sends acts) (sample_core [sample_profile False False]) = Some (acts', sample_core [sample_profile False False])
    \<and> handle_all [] (sends acts') a1 = Some ([CoreIsReady], a2)"
  using complement_exchange [of "sample_core [sample_profile False True]" "sample_core [sample_profile False False]" "[]" "[]"]
  by (simp only: sample_core_def PmpCore.simps) metis

text \<open>Two devices that load their repositories, ask each other, and unlock.\<close>

theorem available_is_installed_witness:
  "\<exists>s p. pair_reachable sample_libs (\<lambda>_. ''linux'') s \<and> p \<in> set (mProfiles (cores s True)) \<and> available p
    \<and> (\<exists>l \<in> set (sample_libs False). lib_uid l = ''b'')"
proof -
  let ?reach = "pair_reachable sample_libs (\<lambda>_. ''linux'')"
  let ?state = sample_state
  let ?p = "\<lambda>locked. sample_profile locked True" and ?q = "sample_profile False False"
  have "?reach (?state [?p False] [?q] [] [])"
    by (rule sample_loaded)
  then have "?reach (?state [?p True] [?q] [] [GetAvailableProfileComplementsRequest])"
    by (rule pair_reach_step [OF _ pair_step.operate [where d = True and op = DoReset and hasInstance = "\<lambda>_. False"
            and acts = "[Send GetAvailableProfileComplementsRequest]" and c = "sample_core [?p True]"]])
      (simp_all add: resetProfilesState_def send_all_def onLockAll_def disableByComplementAll_def sample_defs)
  then have "?reach (?state [?p True] [?q] [GetAvailableProfileComplementsResponse [(''b'', 1)]] [])"
    by (rule pair_reach_step [OF _ pair_step.receive [where d = False and ev = GetAvailableProfileComplementsRequest and rest = "[]"
            and acts = "[Send (GetAvailableProfileComplementsResponse [(''b'', 1)])]" and c = "sample_core [?q]"]])
      (simp_all add: getAvailableProfileComplements_def send_all_def sample_defs)
  then have "?reach (?state [(?p True)\<lparr>mEnabledByComplement := True\<rparr>] [?q] [] [])"
    by (rule pair_reach_step [OF _ pair_step.receive [where d = True and ev = "GetAvailableProfileComplementsResponse [(''b'', 1)]"
            and rest = "[]" and acts = "[CoreIsReady]" and c = "sample_core [(?p True)\<lparr>mEnabledByComplement := True\<rparr>]"]])
      (simp_all add: getAvailbleProfileComplementsResponse_def sample_defs)
  then have s: "?reach (?state [(?p False)\<lparr>mEnabledByComplement := True\<rparr>] [?q] [] [UnlockAll])"
    by (rule pair_reach_step [OF _ pair_step.operate [where d = True and op = DoUnlockAll and hasInstance = "\<lambda>_. False"
            and acts = "[Send UnlockAll]" and c = "sample_core [(?p False)\<lparr>mEnabledByComplement := True\<rparr>]"]])
      (simp_all add: unlockAll_def sample_defs)
  let ?s = "?state [(?p False)\<lparr>mEnabledByComplement := True\<rparr>] [?q] [] [UnlockAll]"
  have p: "(?p False)\<lparr>mEnabledByComplement := True\<rparr> \<in> set (mProfiles (cores ?s True))"
    "available ((?p False)\<lparr>mEnabledByComplement := True\<rparr>)"
    by (simp_all add: sample_state_def sample_core_def available_def enabled_def sample_profile_def)
  from available_is_installed [OF s p] have "\<exists>l \<in> set (sample_libs False). lib_uid l = ''b''"
    by (auto simp: sample_defs)
  then show ?thesis
    using s p by blast
qed

end
