(* ===== verification/Pim.thy ===== *)
theory Pim
  imports PmpFrames StdMap
begin

text \<open>
  The profile instance manager (\<^verbatim>\<open>components/ProfileManager/PIM\<close>): which application has which profile instances
  (\<^verbatim>\<open>ClientAppRegistry\<close>), and how instances come and go on both devices (\<^verbatim>\<open>PmpPim\<close>). Its objects' partners are arguments:
  identifiers that \<^verbatim>\<open>generateUid\<close> makes, and the core's answers; what it asks of them is a list of actions.
\<close>

section \<open>Applications and their profiles\<close>

type_synonym DirectionID = int

record ProfileData =
  pd_piuid :: Uid
  pd_sid :: Uid
  pd_profileUid :: Uid

record ProfileInstanceData =
  pid_piuid :: Uid
  pid_sid :: Uid
  pid_appId :: Uid

text \<open>
  \<^verbatim>\<open>AppData\<close> is the set of the services of an application. The set of \<^verbatim>\<open>ProfileData\<close> is a list: its comparison, which holds
  both ways for many pairs, still lets every new element in, but gives no order to rely on.
\<close>

record ClientAppRegistry =
  mProfileToApp :: "Uid \<rightharpoonup> Uid"
  mAppProfiles :: "(Uid \<times> ProfileData list) list"
  mAppDatas :: "(Uid \<times> Uid list) list"
  mDirIdAppMap :: "(DirectionID \<times> Uid) list"

definition ClientAppRegistry_new :: ClientAppRegistry where
  "ClientAppRegistry_new = \<lparr>mProfileToApp = Map.empty, mAppProfiles = [], mAppDatas = [], mDirIdAppMap = []\<rparr>"

text \<open>The flag of a result is \<^verbatim>\<open>isNoError\<close>; a search that fails is \<^const>\<open>None\<close>.\<close>

definition registerApp :: "Uid \<Rightarrow> DirectionID \<Rightarrow> ClientAppRegistry \<Rightarrow> (bool \<times> ClientAppRegistry) option" where
  "registerApp appId dirId r =
     (if map_of (mAppDatas r) appId \<noteq> None then Some (False, r)
      else do {
        cassert (map_of (mDirIdAppMap r) dirId = None);
        Some (True, r\<lparr>mAppDatas := map_insert appId [] (mAppDatas r), mAppProfiles := map_insert appId [] (mAppProfiles r),
          mDirIdAppMap := map_insert dirId appId (mDirIdAppMap r)\<rparr>) })"

definition findDirIdByApp :: "Uid \<Rightarrow> ClientAppRegistry \<Rightarrow> DirectionID option" where
  "findDirIdByApp appId r = map_option fst (find (\<lambda>(_, a). a = appId) (mDirIdAppMap r))"

definition unregisterApp :: "Uid \<Rightarrow> ClientAppRegistry \<Rightarrow> (bool \<times> ClientAppRegistry) option" where
  "unregisterApp appId r =
     (if map_of (mAppDatas r) appId = None then Some (False, r)
      else do {
        dirId \<leftarrow> findDirIdByApp appId r;
        Some (True, r\<lparr>mAppDatas := map_erase appId (mAppDatas r), mAppProfiles := map_erase appId (mAppProfiles r),
          mDirIdAppMap := map_erase dirId (mDirIdAppMap r)\<rparr>) })"

definition registerProfile :: "Uid \<Rightarrow> ProfileData \<Rightarrow> ClientAppRegistry \<Rightarrow> (bool \<times> ClientAppRegistry) option" where
  "registerProfile appId d r =
     (if mProfileToApp r (pd_piuid d) \<noteq> None then Some (False, r)
      else do {
        cassert (map_of (mAppProfiles r) appId \<noteq> None);
        Some (True, r\<lparr>mProfileToApp := (mProfileToApp r)(pd_piuid d \<mapsto> appId),
          mAppProfiles := map_assign appId (\<lambda>ds. if d \<in> set ds then ds else ds @ [d]) (mAppProfiles r)\<rparr>) })"

text \<open>\<^verbatim>\<open>std::find_if\<close> and \<^verbatim>\<open>erase\<close>: the first element with the identifier goes.\<close>

fun erase_piuid :: "Uid \<Rightarrow> ProfileData list \<Rightarrow> ProfileData list" where
  "erase_piuid piuid [] = []"
| "erase_piuid piuid (d # ds) = (if pd_piuid d = piuid then ds else d # erase_piuid piuid ds)"

definition unregisterProfile :: "Uid \<Rightarrow> ClientAppRegistry \<Rightarrow> (bool \<times> ClientAppRegistry) option" where
  "unregisterProfile piuid r =
     (case mProfileToApp r piuid of
        None \<Rightarrow> Some (False, r)
      | Some appId \<Rightarrow> do {
          cassert (map_of (mAppProfiles r) appId \<noteq> None);
          Some (True, r\<lparr>mProfileToApp := (mProfileToApp r)(piuid := None),
            mAppProfiles := map_assign appId (erase_piuid piuid) (mAppProfiles r)\<rparr>) })"

definition findAppByDirId :: "DirectionID \<Rightarrow> ClientAppRegistry \<Rightarrow> Uid option" where
  "findAppByDirId dirId r = map_of (mDirIdAppMap r) dirId"

definition findAppByPIUID :: "Uid \<Rightarrow> ClientAppRegistry \<Rightarrow> Uid option" where
  "findAppByPIUID piuid r = mProfileToApp r piuid"

definition findSidByPIUID :: "Uid \<Rightarrow> ClientAppRegistry \<Rightarrow> Uid option" where
  "findSidByPIUID piuid r = do {
     appId \<leftarrow> findAppByPIUID piuid r;
     ds \<leftarrow> map_of (mAppProfiles r) appId;
     d \<leftarrow> find (\<lambda>d. pd_piuid d = piuid) ds;
     Some (pd_sid d) }"

definition hasInstancesOf :: "Uid \<Rightarrow> ClientAppRegistry \<Rightarrow> bool" where
  "hasInstancesOf u r \<longleftrightarrow> list_ex (\<lambda>(_, ds). list_ex (\<lambda>d. pd_profileUid d = u) ds) (mAppProfiles r)"

definition findInstancesOf :: "Uid \<Rightarrow> ClientAppRegistry \<Rightarrow> ProfileInstanceData list" where
  "findInstancesOf u r = concat (map (\<lambda>(appId, ds).
     map (\<lambda>d. \<lparr>pid_piuid = pd_piuid d, pid_sid = pd_sid d, pid_appId = appId\<rparr>) (filter (\<lambda>d. pd_profileUid d = u) ds))
     (mAppProfiles r))"

definition getProfilesOfApp :: "Uid \<Rightarrow> ClientAppRegistry \<Rightarrow> Uid list" where
  "getProfilesOfApp appId r = (case map_of (mAppProfiles r) appId of None \<Rightarrow> [] | Some ds \<Rightarrow> map pd_piuid ds)"

definition isAppHaveService :: "Uid \<Rightarrow> Uid \<Rightarrow> ClientAppRegistry \<Rightarrow> bool" where
  "isAppHaveService appId sid r = (case map_of (mAppDatas r) appId of None \<Rightarrow> False | Some ss \<Rightarrow> sid \<in> set ss)"

definition addServiceToApp :: "Uid \<Rightarrow> Uid \<Rightarrow> ClientAppRegistry \<Rightarrow> ClientAppRegistry" where
  "addServiceToApp appId sid r = r\<lparr>mAppDatas := map_assign appId (\<lambda>ss. List.insert sid ss) (mAppDatas r)\<rparr>"

definition removeServiceFromApp :: "Uid \<Rightarrow> Uid \<Rightarrow> ClientAppRegistry \<Rightarrow> ClientAppRegistry" where
  "removeServiceFromApp appId sid r = r\<lparr>mAppDatas := map_assign appId (removeAll sid) (mAppDatas r)\<rparr>"

definition findAppBySid :: "Uid \<Rightarrow> ClientAppRegistry \<Rightarrow> Uid option" where
  "findAppBySid sid r = map_option fst (find (\<lambda>(_, ss). sid \<in> set ss) (mAppDatas r))"

section \<open>The manager\<close>

record PmpPim =
  mRegistry :: ClientAppRegistry
  mIncomingProfiles :: "Uid list"
  mPendingServiceMap :: "(Uid \<times> Uid \<times> Uid \<times> Uid) list"

definition PmpPim_new :: PmpPim where
  "PmpPim_new = \<lparr>mRegistry = ClientAppRegistry_new, mIncomingProfiles = [], mPendingServiceMap = []\<rparr>"

text \<open>Requests to the other device, to an application, to the application manager, and events for the manager itself.\<close>

datatype pim_action =
    ToPeer pmp_event
  | IpcProfileDied Uid DirectionID
  | IpcIncomingProfile Uid Uid Uid Uid DirectionID
  | ApplicationRequest Uid Uid
  | ProcessIncoming Uid Uid Uid Uid

definition pim_createProfile ::
    "(Uid \<Rightarrow> Uid option) \<Rightarrow> Uid \<Rightarrow> Uid \<Rightarrow> Uid \<Rightarrow> DirectionID \<Rightarrow> PmpPim \<Rightarrow> (pim_action list \<times> PmpPim) option" where
  "pim_createProfile getComplementary profileUid piuid sid dirId s =
     (case findAppByDirId dirId (mRegistry s) of
        None \<Rightarrow> Some ([], s)
      | Some appId \<Rightarrow>
          (let remoteCreation = piuid \<in> set (mIncomingProfiles s);
               s = s\<lparr>mIncomingProfiles := removeAll piuid (mIncomingProfiles s)\<rparr>
           in do {
             (ok, r) \<leftarrow> registerProfile appId \<lparr>pd_piuid = piuid, pd_sid = sid, pd_profileUid = profileUid\<rparr> (mRegistry s);
             Some (if \<not> ok \<or> remoteCreation then []
                   else case getComplementary profileUid of
                     None \<Rightarrow> [] | Some compUid \<Rightarrow> [ToPeer (PimCreateProfile compUid piuid sid)],
               s\<lparr>mRegistry := r\<rparr>) }))"

definition pim_profileDied :: "Uid \<Rightarrow> PmpPim \<Rightarrow> (pim_action list \<times> PmpPim) option" where
  "pim_profileDied piuid s =
     (case findSidByPIUID piuid (mRegistry s) of
        None \<Rightarrow> Some ([], s)
      | Some sid \<Rightarrow> do {
          (ok, r) \<leftarrow> unregisterProfile piuid (mRegistry s);
          Some (if ok then [ToPeer (PimProfileDied piuid sid)] else [], s\<lparr>mRegistry := r\<rparr>) })"

definition pim_readyToServe :: "Uid \<Rightarrow> DirectionID \<Rightarrow> PmpPim \<Rightarrow> pim_action list \<times> PmpPim" where
  "pim_readyToServe sesUid dirId s =
     (case map_of (mPendingServiceMap s) sesUid of
        None \<Rightarrow> ([], s)
      | Some (profileUid, piuid, sid) \<Rightarrow>
          (let appId = findAppByDirId dirId (mRegistry s);
               s = (case appId of None \<Rightarrow> s | Some a \<Rightarrow> s\<lparr>mRegistry := addServiceToApp a sid (mRegistry s)\<rparr>);
               s = s\<lparr>mPendingServiceMap := map_erase sesUid (mPendingServiceMap s)\<rparr>
           in (case appId of
                 None \<Rightarrow> ([], s)
               | Some a \<Rightarrow> if a = '''' then ([], s) else ([ProcessIncoming a profileUid piuid sid], s))))"

definition pim_onConnection :: "Uid \<Rightarrow> DirectionID \<Rightarrow> PmpPim \<Rightarrow> PmpPim option" where
  "pim_onConnection newUid dirId s = do {
     (ok, r) \<leftarrow> registerApp newUid dirId (mRegistry s);
     cassert ok;
     Some (s\<lparr>mRegistry := r\<rparr>) }"

fun profiles_die :: "Uid list \<Rightarrow> PmpPim \<Rightarrow> (pim_action list \<times> PmpPim) option" where
  "profiles_die [] s = Some ([], s)"
| "profiles_die (piuid # ps) s = do {
     (acts, s) \<leftarrow> pim_profileDied piuid s;
     (acts', s) \<leftarrow> profiles_die ps s;
     Some (acts @ acts', s) }"

definition pim_onConnectionLost :: "DirectionID \<Rightarrow> PmpPim \<Rightarrow> (pim_action list \<times> PmpPim) option" where
  "pim_onConnectionLost dirId s = do {
     appId \<leftarrow> findAppByDirId dirId (mRegistry s);
     (acts, s) \<leftarrow> profiles_die (getProfilesOfApp appId (mRegistry s)) s;
     (ok, r) \<leftarrow> unregisterApp appId (mRegistry s);
     Some (acts, s\<lparr>mRegistry := r\<rparr>) }"

definition pim_hasInstance :: "Uid \<Rightarrow> PmpPim \<Rightarrow> bool" where
  "pim_hasInstance profileId s = hasInstancesOf profileId (mRegistry s)"

fun unload_each :: "ProfileInstanceData list \<Rightarrow> PmpPim \<Rightarrow> (pim_action list \<times> PmpPim) option" where
  "unload_each [] s = Some ([], s)"
| "unload_each (d # ds) s = do {
     (_, r) \<leftarrow> unregisterProfile (pid_piuid d) (mRegistry s);
     (acts, s') \<leftarrow> unload_each ds (s\<lparr>mRegistry := r\<rparr>);
     Some (ToPeer (PimProfileDied (pid_piuid d) (pid_sid d))
       # (case findDirIdByApp (pid_appId d) (mRegistry s) of
            Some dirId \<Rightarrow> if dirId = -1 then [] else [IpcProfileDied (pid_piuid d) dirId]
          | None \<Rightarrow> []) @ acts, s') }"

definition pim_unloadInstances :: "Uid \<Rightarrow> PmpPim \<Rightarrow> (pim_action list \<times> PmpPim) option" where
  "pim_unloadInstances profileId s = unload_each (findInstancesOf profileId (mRegistry s)) s"

text \<open>\<^verbatim>\<open>appRequestError\<close> does nothing.\<close>

definition pim_appRequestError :: "Uid \<Rightarrow> PmpPim \<Rightarrow> PmpPim" where
  "pim_appRequestError session s = s"

text \<open>Requests of the other device. A creation that is refused is tried again 300 ms later.\<close>

definition pim_onCreateProfile :: "Uid \<Rightarrow> Uid \<Rightarrow> Uid \<Rightarrow> Uid \<Rightarrow> PmpPim \<Rightarrow> bool \<times> pim_action list \<times> PmpPim" where
  "pim_onCreateProfile newSes profileUid piuid sid s =
     (if mPendingServiceMap s \<noteq> [] then (False, [], s)
      else case findAppBySid sid (mRegistry s) of
        Some appId \<Rightarrow> (True, [ProcessIncoming appId profileUid piuid sid], s)
      | None \<Rightarrow> (True, [ApplicationRequest newSes sid],
          s\<lparr>mPendingServiceMap := map_insert newSes (profileUid, piuid, sid) (mPendingServiceMap s)\<rparr>))"

definition pim_onProfileDied :: "Uid \<Rightarrow> PmpPim \<Rightarrow> (pim_action list \<times> PmpPim) option" where
  "pim_onProfileDied piuid s =
     (case findAppByPIUID piuid (mRegistry s) of
        None \<Rightarrow> Some ([], s)
      | Some appId \<Rightarrow> do {
          (ok, r) \<leftarrow> unregisterProfile piuid (mRegistry s);
          Some (if ok then (case findDirIdByApp appId r of None \<Rightarrow> [] | Some dirId \<Rightarrow> [IpcProfileDied piuid dirId]) else [],
            s\<lparr>mRegistry := r\<rparr>) })"

definition pim_processIncomingProfile ::
    "(Uid \<Rightarrow> Uid option) \<Rightarrow> Uid \<Rightarrow> Uid \<Rightarrow> Uid \<Rightarrow> Uid \<Rightarrow> PmpPim \<Rightarrow> pim_action list \<times> PmpPim" where
  "pim_processIncomingProfile getPapiUid appId profileUid piuid sid s =
     (case getPapiUid profileUid of
        None \<Rightarrow> ([], s)
      | Some papiUid \<Rightarrow>
          (case findDirIdByApp appId (mRegistry s) of
             None \<Rightarrow> ([], s)
           | Some dirId \<Rightarrow>
               if findAppByPIUID piuid (mRegistry s) \<noteq> None then ([], s)
               else ([IpcIncomingProfile profileUid papiUid piuid sid dirId],
                 s\<lparr>mIncomingProfiles := List.insert piuid (mIncomingProfiles s)\<rparr>)))"

end
