(* ===== verification/PimLife.thy ===== *)
theory PimLife
  imports Pim
begin

text \<open>
  The life of profile instances: the registry of applications stays consistent through all calls, creations and deaths reach
  the other device once, and what a launch that fails leaves behind.
\<close>

section \<open>Consistency of the registry\<close>

text \<open>Seen as functions: the application of an instance, the instances and services of an application, that of a connection.\<close>

definition consistent ::
    "(Uid \<rightharpoonup> Uid) \<Rightarrow> (Uid \<rightharpoonup> ProfileData list) \<Rightarrow> (Uid \<rightharpoonup> Uid list) \<Rightarrow> (DirectionID \<rightharpoonup> Uid) \<Rightarrow> bool" where
  "consistent app profiles services dirs \<longleftrightarrow>
     (\<forall>a. profiles a = None \<longleftrightarrow> services a = None)
     \<and> (\<forall>a. services a \<noteq> None \<longleftrightarrow> (\<exists>d. dirs d = Some a))
     \<and> (\<forall>d d' a. dirs d = Some a \<longrightarrow> dirs d' = Some a \<longrightarrow> d = d')
     \<and> (\<forall>p a. app p = Some a \<longleftrightarrow> (\<exists>ds. profiles a = Some ds \<and> p \<in> pd_piuid ` set ds))
     \<and> (\<forall>a ds. profiles a = Some ds \<longrightarrow> distinct (map pd_piuid ds))"

definition registry_ok :: "ClientAppRegistry \<Rightarrow> bool" where
  "registry_ok r \<longleftrightarrow> map_sorted (mAppProfiles r) \<and> map_sorted (mAppDatas r) \<and> map_sorted (mDirIdAppMap r)
     \<and> consistent (mProfileToApp r) (map_of (mAppProfiles r)) (map_of (mAppDatas r)) (map_of (mDirIdAppMap r))"

lemma registry_okE:
  assumes "registry_ok r"
  obtains "map_sorted (mAppProfiles r)" "map_sorted (mAppDatas r)" "map_sorted (mDirIdAppMap r)"
    "consistent (mProfileToApp r) (map_of (mAppProfiles r)) (map_of (mAppDatas r)) (map_of (mDirIdAppMap r))"
  using assms by (simp add: registry_ok_def)

lemma consistentD:
  assumes "consistent app profiles services dirs"
  shows "profiles a = None \<longleftrightarrow> services a = None" "services a \<noteq> None \<longleftrightarrow> (\<exists>d. dirs d = Some a)"
    "dirs d = Some a \<Longrightarrow> dirs d' = Some a \<Longrightarrow> d = d'"
    "app p = Some a \<longleftrightarrow> (\<exists>ds. profiles a = Some ds \<and> p \<in> pd_piuid ` set ds)"
    "profiles a = Some ds \<Longrightarrow> distinct (map pd_piuid ds)"
proof -
  note c = assms [unfolded consistent_def]
  show "profiles a = None \<longleftrightarrow> services a = None"
    by (rule c [THEN conjunct1, rule_format])
  show "services a \<noteq> None \<longleftrightarrow> (\<exists>d. dirs d = Some a)"
    by (rule c [THEN conjunct2, THEN conjunct1, rule_format])
  show "dirs d = Some a \<Longrightarrow> dirs d' = Some a \<Longrightarrow> d = d'"
    by (rule c [THEN conjunct2, THEN conjunct2, THEN conjunct1, rule_format])
  show "app p = Some a \<longleftrightarrow> (\<exists>ds. profiles a = Some ds \<and> p \<in> pd_piuid ` set ds)"
    by (rule c [THEN conjunct2, THEN conjunct2, THEN conjunct2, THEN conjunct1, rule_format])
  show "profiles a = Some ds \<Longrightarrow> distinct (map pd_piuid ds)"
    by (rule c [THEN conjunct2, THEN conjunct2, THEN conjunct2, THEN conjunct2, rule_format])
qed

lemma registry_ok_new: "registry_ok ClientAppRegistry_new"
  by (simp add: registry_ok_def consistent_def ClientAppRegistry_new_def)

lemma consistent_connect:
  assumes "consistent app profiles services dirs" "services a = None" "dirs d = None"
  shows "consistent app (profiles(a \<mapsto> [])) (services(a \<mapsto> [])) (dirs(d \<mapsto> a))"
proof -
  note c = consistentD [OF assms(1)]
  have none: "dirs d' \<noteq> Some a" for d' using c(2) [of a] assms(2) by blast
  have "app p \<noteq> Some a" for p using c(1) [of a] c(4) [of p a] assms(2) by auto
  then show ?thesis
    unfolding consistent_def
  proof (intro conjI allI impI)
    show "((services(a \<mapsto> [])) b \<noteq> None) = (\<exists>d'. (dirs(d \<mapsto> a)) d' = Some b)" for b
      using c(2) [of b] assms(3) by (cases "b = a") (auto, metis option.distinct(1))
  qed (use none c(1,3,4,5) in \<open>auto split: if_splits\<close>)
qed

lemma consistent_disconnect:
  assumes "consistent app profiles services dirs" "dirs d = Some a" "profiles a = Some []"
  shows "consistent app (profiles(a := None)) (services(a := None)) (dirs(d := None))"
proof -
  note c = consistentD [OF assms(1)]
  have "app p \<noteq> Some a" for p using c(4) [of p a] assms(3) by auto
  moreover have "dirs d' = Some a \<longleftrightarrow> d' = d" for d' using c(3) assms(2) by blast
  ultimately show ?thesis
    unfolding consistent_def
  proof (intro conjI allI impI)
    show "((services(a := None)) b \<noteq> None) = (\<exists>d'. (dirs(d := None)) d' = Some b)" for b
      using c(2) [of b] assms(2) \<open>\<And>d'. dirs d' = Some a \<longleftrightarrow> d' = d\<close> by (cases "b = a") (auto, metis option.inject)
  qed (use c(1,3,4,5) in \<open>auto split: if_splits\<close>)
qed

lemma consistent_register:
  assumes "consistent app profiles services dirs" "app (pd_piuid d) = None" "profiles a = Some ds"
  shows "consistent (app(pd_piuid d \<mapsto> a)) (profiles(a \<mapsto> ds @ [d])) services dirs \<and> d \<notin> set ds"
proof -
  note c = consistentD [OF assms(1)]
  have new: "pd_piuid d \<notin> pd_piuid ` set ds'" if "profiles b = Some ds'" for b ds'
    using c(4) [of "pd_piuid d" b] assms(2) that by auto
  then have "d \<notin> set ds" using assms(3) by blast
  moreover have "consistent (app(pd_piuid d \<mapsto> a)) (profiles(a \<mapsto> ds @ [d])) services dirs"
    unfolding consistent_def
  proof (intro conjI allI impI)
    show "((app(pd_piuid d \<mapsto> a)) p = Some b) = (\<exists>ds'. (profiles(a \<mapsto> ds @ [d])) b = Some ds' \<and> p \<in> pd_piuid ` set ds')" for p b
      using c(4) [of p b] assms(3) new [of b] by (cases "p = pd_piuid d"; cases "b = a") auto
    show "distinct (map pd_piuid ds')" if "(profiles(a \<mapsto> ds @ [d])) b = Some ds'" for b ds'
      using c(5) [of b] new [OF assms(3)] assms(3) that c(5) [OF assms(3)] by (cases "b = a") auto
    show "((profiles(a \<mapsto> ds @ [d])) b = None) = (services b = None)" for b
      using c(1) [of b] assms(3) by (cases "b = a") auto
    show "(services b \<noteq> None) = (\<exists>d'. dirs d' = Some b)" for b
      by (rule c(2))
    show "d' = d''" if "dirs d' = Some b" "dirs d'' = Some b" for d' d'' b
      using c(3) that by blast
  qed
  ultimately show ?thesis by blast
qed

lemma erase_piuid_set: "distinct (map pd_piuid ds) \<Longrightarrow> set (erase_piuid p ds) = {d \<in> set ds. pd_piuid d \<noteq> p}"
  by (induction ds) (auto simp: image_iff)

lemma erase_piuid_distinct: "distinct (map pd_piuid ds) \<Longrightarrow> distinct (map pd_piuid (erase_piuid p ds))"
  by (induction ds) (auto simp: erase_piuid_set)

lemma consistent_unregister:
  assumes "consistent app profiles services dirs" "app p = Some a" "profiles a = Some ds"
  shows "consistent (app(p := None)) (profiles(a \<mapsto> erase_piuid p ds)) services dirs"
proof -
  note c = consistentD [OF assms(1)]
  have elsewhere: "p \<notin> pd_piuid ` set ds'" if "profiles b = Some ds'" "b \<noteq> a" for b ds'
    using c(4) [of p b] assms(2) that by auto
  have erased: "set (erase_piuid p ds) = {d \<in> set ds. pd_piuid d \<noteq> p}"
    using erase_piuid_set c(5) [OF assms(3)] by blast
  show ?thesis
    unfolding consistent_def
  proof (intro conjI allI impI)
    show "((app(p := None)) q = Some b) = (\<exists>ds'. (profiles(a \<mapsto> erase_piuid p ds)) b = Some ds' \<and> q \<in> pd_piuid ` set ds')" for q b
      using c(4) [of q b] assms(3) elsewhere [of b] erased by (cases "q = p"; cases "b = a") (auto simp: image_iff)
    show "distinct (map pd_piuid ds')" if "(profiles(a \<mapsto> erase_piuid p ds)) b = Some ds'" for b ds'
      using c(5) [of b ds'] erase_piuid_distinct [OF c(5) [OF assms(3)]] that by (cases "b = a") auto
    show "((profiles(a \<mapsto> erase_piuid p ds)) b = None) = (services b = None)" for b
      using c(1) [of b] assms(3) by (cases "b = a") auto
    show "(services b \<noteq> None) = (\<exists>d'. dirs d' = Some b)" for b
      by (rule c(2))
    show "d' = d''" if "dirs d' = Some b" "dirs d'' = Some b" for d' d'' b
      using c(3) that by blast
  qed
qed

lemma consistent_services:
  assumes "consistent app profiles services dirs" "\<And>a. services' a = None \<longleftrightarrow> services a = None"
  shows "consistent app profiles services' dirs"
  using assms unfolding consistent_def by simp

section \<open>The operations of the registry\<close>

lemma find_dir:
  assumes "registry_ok r"
  shows "findDirIdByApp a r = Some d \<longleftrightarrow> findAppByDirId d r = Some a"
proof -
  have sorted: "map_sorted (mDirIdAppMap r)" and c: "consistent (mProfileToApp r) (map_of (mAppProfiles r)) (map_of (mAppDatas r)) (map_of (mDirIdAppMap r))"
    using assms by (auto elim: registry_okE)
  have found: "map_of (mDirIdAppMap r) d' = Some a" if "find (\<lambda>(_, b). b = a) (mDirIdAppMap r) = Some (d', b)" for d' b
    using that sorted by (auto simp: find_Some_iff simp flip: map_of_sorted_iff) (metis nth_mem)
  show ?thesis
  proof
    assume "findDirIdByApp a r = Some d"
    then show "findAppByDirId d r = Some a"
      using found by (auto simp: findDirIdByApp_def findAppByDirId_def)
  next
    assume d: "findAppByDirId d r = Some a"
    then have "find (\<lambda>(_, b). b = a) (mDirIdAppMap r) \<noteq> None"
      by (auto simp: findAppByDirId_def find_None_iff dest!: map_of_SomeD)
    then obtain d' b where d': "find (\<lambda>(_, b). b = a) (mDirIdAppMap r) = Some (d', b)" by auto
    then have "d' = d"
      using consistentD(3) [OF c found [OF d']] d by (simp add: findAppByDirId_def)
    then show "findDirIdByApp a r = Some d"
      using d' by (simp add: findDirIdByApp_def)
  qed
qed

lemma registerApp_ok:
  assumes "registry_ok r" "map_of (mAppDatas r) a = None" "findAppByDirId d r = None"
  shows "\<exists>r'. registerApp a d r = Some (True, r') \<and> registry_ok r' \<and> findAppByDirId d r' = Some a"
proof -
  have c: "consistent (mProfileToApp r) (map_of (mAppProfiles r)) (map_of (mAppDatas r)) (map_of (mDirIdAppMap r))"
    using assms(1) by (auto elim: registry_okE)
  have "map_of (mAppProfiles r) a = None"
    using consistentD(1) [OF c] assms(2) by simp
  then show ?thesis
    using assms consistent_connect [OF c assms(2)]
    by (auto elim!: registry_okE simp: registerApp_def findAppByDirId_def registry_ok_def map_of_insert_new)
qed

lemma registerProfile_ok:
  assumes "registry_ok r" "findAppByDirId dir r = Some a"
  shows "\<exists>r'. registerProfile a d r = Some (findAppByPIUID (pd_piuid d) r = None, r') \<and> registry_ok r'
    \<and> mDirIdAppMap r' = mDirIdAppMap r \<and> mAppDatas r' = mAppDatas r
    \<and> mProfileToApp r' = (if findAppByPIUID (pd_piuid d) r = None then (mProfileToApp r)(pd_piuid d \<mapsto> a) else mProfileToApp r)
    \<and> (findAppByPIUID (pd_piuid d) r = None \<longrightarrow> findSidByPIUID (pd_piuid d) r' = Some (pd_sid d))"
proof (cases "mProfileToApp r (pd_piuid d)")
  case (Some b)
  then show ?thesis using assms by (simp add: registerProfile_def findAppByPIUID_def)
next
  case None
  have c: "consistent (mProfileToApp r) (map_of (mAppProfiles r)) (map_of (mAppDatas r)) (map_of (mDirIdAppMap r))"
    using assms(1) by (auto elim: registry_okE)
  obtain ds where ds: "map_of (mAppProfiles r) a = Some ds"
    using consistentD(1,2) [OF c, of a] assms(2) by (auto simp: findAppByDirId_def)
  note new = consistent_register [OF c None ds]
  have "map_of (map_assign a (\<lambda>ds. if d \<in> set ds then ds else ds @ [d]) (mAppProfiles r)) = (map_of (mAppProfiles r))(a \<mapsto> ds @ [d])"
    using new ds by (auto simp: map_of_assign fun_eq_iff option.map_id)
  moreover have "find (\<lambda>e. pd_piuid e = pd_piuid d) (ds @ [d]) = Some d"
  proof -
    have "find (\<lambda>e. pd_piuid e = pd_piuid d) ds = None"
    proof -
      have "pd_piuid d \<notin> pd_piuid ` set ds"
        using consistentD(4) [OF c, of "pd_piuid d" a] None ds by simp
      then show ?thesis unfolding find_None_iff by (metis imageI)
    qed
    then show ?thesis by (simp add: find_snoc)
  qed
  ultimately show ?thesis
    using assms(1) None ds new
    by (auto elim!: registry_okE simp: registerProfile_def findAppByPIUID_def registry_ok_def findSidByPIUID_def)
qed


lemma unregisterProfile_ok:
  assumes "registry_ok r" "findAppByPIUID p r = Some a"
  shows "\<exists>r'. unregisterProfile p r = Some (True, r') \<and> registry_ok r' \<and> mDirIdAppMap r' = mDirIdAppMap r
    \<and> mAppDatas r' = mAppDatas r \<and> mProfileToApp r' = (mProfileToApp r)(p := None)
    \<and> map_of (mAppProfiles r') = (map_of (mAppProfiles r))(a := map_option (erase_piuid p) (map_of (mAppProfiles r) a))"
proof -
  have c: "consistent (mProfileToApp r) (map_of (mAppProfiles r)) (map_of (mAppDatas r)) (map_of (mDirIdAppMap r))"
    using assms(1) by (auto elim: registry_okE)
  have app: "mProfileToApp r p = Some a" using assms(2) by (simp add: findAppByPIUID_def)
  then obtain ds where ds: "map_of (mAppProfiles r) a = Some ds"
    using consistentD(4) [OF c, of p a] by auto
  have "map_of (map_assign a (erase_piuid p) (mAppProfiles r)) = (map_of (mAppProfiles r))(a \<mapsto> erase_piuid p ds)"
    using ds by (auto simp: map_of_assign fun_eq_iff option.map_id)
  then show ?thesis
    using assms(1) app ds consistent_unregister [OF c app ds]
    by (auto elim!: registry_okE simp: unregisterProfile_def registry_ok_def)
qed

lemma unregisterProfile_any:
  assumes "registry_ok r"
  shows "\<exists>ok r'. unregisterProfile p r = Some (ok, r') \<and> registry_ok r' \<and> mDirIdAppMap r' = mDirIdAppMap r \<and> mAppDatas r' = mAppDatas r"
proof (cases "findAppByPIUID p r")
  case None
  then show ?thesis using assms by (intro exI [of _ False]) (simp add: unregisterProfile_def findAppByPIUID_def)
next
  case (Some a)
  then show ?thesis using unregisterProfile_ok [OF assms Some] by auto
qed

lemma unregisterApp_ok:
  assumes "registry_ok r" "findAppByDirId d r = Some a" "getProfilesOfApp a r = []"
  shows "\<exists>r'. unregisterApp a r = Some (True, r') \<and> registry_ok r' \<and> mProfileToApp r' = mProfileToApp r
    \<and> findAppByDirId d r' = None"
proof -
  have c: "consistent (mProfileToApp r) (map_of (mAppProfiles r)) (map_of (mAppDatas r)) (map_of (mDirIdAppMap r))"
    using assms(1) by (auto elim: registry_okE)
  have dir: "map_of (mDirIdAppMap r) d = Some a" using assms(2) by (simp add: findAppByDirId_def)
  then have known: "map_of (mAppDatas r) a \<noteq> None" using consistentD(2) [OF c, of a] by blast
  then have "map_of (mAppProfiles r) a = Some []"
    using consistentD(1) [OF c, of a] assms(3) by (auto simp: getProfilesOfApp_def split: option.splits)
  from consistent_disconnect [OF c dir this] show ?thesis
    using assms(1) known find_dir [OF assms(1), of a d] assms(2)
    by (auto elim!: registry_okE simp: unregisterApp_def registry_ok_def findAppByDirId_def)
qed

lemma addServiceToApp_ok:
  assumes "registry_ok r"
  shows "registry_ok (addServiceToApp a sid r)" "findAppByDirId d (addServiceToApp a sid r) = findAppByDirId d r"
proof -
  have c: "consistent (mProfileToApp r) (map_of (mAppProfiles r)) (map_of (mAppDatas r)) (map_of (mDirIdAppMap r))"
    using assms by (auto elim: registry_okE)
  show "registry_ok (addServiceToApp a sid r)"
    using assms consistent_services [OF c, of "map_of (map_assign a (List.insert sid) (mAppDatas r))"]
    by (auto elim!: registry_okE simp: addServiceToApp_def registry_ok_def map_of_assign)
qed (simp add: addServiceToApp_def findAppByDirId_def)

section \<open>The calls of the manager\<close>

lemma sid_known: "registry_ok r \<Longrightarrow> findSidByPIUID p r = Some sid \<Longrightarrow> \<exists>a. findAppByPIUID p r = Some a"
  by (auto simp: findSidByPIUID_def split: bind_splits)

lemma app_knows_sid:
  assumes "registry_ok r" "findAppByPIUID p r = Some a"
  shows "\<exists>sid. findSidByPIUID p r = Some sid"
proof -
  have c: "consistent (mProfileToApp r) (map_of (mAppProfiles r)) (map_of (mAppDatas r)) (map_of (mDirIdAppMap r))"
    using assms(1) by (auto elim: registry_okE)
  obtain ds where ds: "map_of (mAppProfiles r) a = Some ds" "p \<in> pd_piuid ` set ds"
    using consistentD(4) [OF c, of p a] assms(2) by (auto simp: findAppByPIUID_def)
  then have "find (\<lambda>d. pd_piuid d = p) ds \<noteq> None" by (auto simp: find_None_iff)
  then show ?thesis using assms(2) ds(1) by (auto simp: findSidByPIUID_def)
qed

lemma pim_profileDied_ok:
  assumes "registry_ok (mRegistry s)" "findAppByPIUID p (mRegistry s) = Some a"
  shows "\<exists>sid s'. findSidByPIUID p (mRegistry s) = Some sid \<and> pim_profileDied p s = Some ([ToPeer (PimProfileDied p sid)], s')
    \<and> registry_ok (mRegistry s') \<and> mDirIdAppMap (mRegistry s') = mDirIdAppMap (mRegistry s)
    \<and> mProfileToApp (mRegistry s') = (mProfileToApp (mRegistry s))(p := None)
    \<and> map_of (mAppProfiles (mRegistry s')) = (map_of (mAppProfiles (mRegistry s)))(a := map_option (erase_piuid p) (map_of (mAppProfiles (mRegistry s)) a))
    \<and> s' = s\<lparr>mRegistry := mRegistry s'\<rparr>"
  using app_knows_sid [OF assms] unregisterProfile_ok [OF assms]
  by (auto simp: pim_profileDied_def)

text \<open>An application that goes takes its instances with it, in the order in which the registry lists them.\<close>

lemma profiles_die_spec:
  assumes "registry_ok (mRegistry s)" "map_of (mAppProfiles (mRegistry s)) a = Some ds"
  shows "\<exists>s'. profiles_die (map pd_piuid ds) s = Some (map (\<lambda>d. ToPeer (PimProfileDied (pd_piuid d) (pd_sid d))) ds, s')
    \<and> registry_ok (mRegistry s') \<and> mDirIdAppMap (mRegistry s') = mDirIdAppMap (mRegistry s)
    \<and> map_of (mAppProfiles (mRegistry s')) a = Some []
    \<and> mProfileToApp (mRegistry s') = (\<lambda>p. if p \<in> pd_piuid ` set ds then None else mProfileToApp (mRegistry s) p)
    \<and> s' = s\<lparr>mRegistry := mRegistry s'\<rparr>"
  using assms
proof (induction ds arbitrary: s)
  case Nil
  then show ?case by simp
next
  case (Cons d ds)
  have c: "consistent (mProfileToApp (mRegistry s)) (map_of (mAppProfiles (mRegistry s))) (map_of (mAppDatas (mRegistry s)))
      (map_of (mDirIdAppMap (mRegistry s)))"
    using Cons.prems(1) by (auto elim: registry_okE)
  have app: "findAppByPIUID (pd_piuid d) (mRegistry s) = Some a"
    using consistentD(4) [OF c, of "pd_piuid d" a] Cons.prems(2) by (simp add: findAppByPIUID_def)
  have sid: "findSidByPIUID (pd_piuid d) (mRegistry s) = Some (pd_sid d)"
    using app Cons.prems(2) by (simp add: findSidByPIUID_def)
  obtain s1 where s1: "pim_profileDied (pd_piuid d) s = Some ([ToPeer (PimProfileDied (pd_piuid d) (pd_sid d))], s1)"
    "registry_ok (mRegistry s1)" "mDirIdAppMap (mRegistry s1) = mDirIdAppMap (mRegistry s)"
    "mProfileToApp (mRegistry s1) = (mProfileToApp (mRegistry s))(pd_piuid d := None)"
    "map_of (mAppProfiles (mRegistry s1)) a = Some ds" "s1 = s\<lparr>mRegistry := mRegistry s1\<rparr>"
    using pim_profileDied_ok [OF Cons.prems(1) app] sid Cons.prems(2) by auto
  obtain s' where s': "profiles_die (map pd_piuid ds) s1 = Some (map (\<lambda>d. ToPeer (PimProfileDied (pd_piuid d) (pd_sid d))) ds, s')"
    "registry_ok (mRegistry s')" "mDirIdAppMap (mRegistry s') = mDirIdAppMap (mRegistry s1)"
    "map_of (mAppProfiles (mRegistry s')) a = Some []"
    "mProfileToApp (mRegistry s') = (\<lambda>p. if p \<in> pd_piuid ` set ds then None else mProfileToApp (mRegistry s1) p)"
    "s' = s1\<lparr>mRegistry := mRegistry s'\<rparr>"
    using Cons.IH [OF s1(2,5)] by blast
  have "s' = s\<lparr>mRegistry := mRegistry s'\<rparr>"
    using s1(6) s'(6) by (metis PmpPim.update_convs(1) PmpPim.surjective)
  then show ?case
    using s1 s' by (intro exI [of _ s']) auto
qed


lemma pim_onConnectionLost_spec:
  assumes "registry_ok (mRegistry s)" "findAppByDirId d (mRegistry s) = Some a"
  obtains ds s' where "map_of (mAppProfiles (mRegistry s)) a = Some ds"
    "pim_onConnectionLost d s = Some (map (\<lambda>d. ToPeer (PimProfileDied (pd_piuid d) (pd_sid d))) ds, s')"
    "registry_ok (mRegistry s')" "findAppByDirId d (mRegistry s') = None"
    "mProfileToApp (mRegistry s') = (\<lambda>p. if mProfileToApp (mRegistry s) p = Some a then None else mProfileToApp (mRegistry s) p)"
    "mPendingServiceMap s' = mPendingServiceMap s"
proof -
  have c: "consistent (mProfileToApp (mRegistry s)) (map_of (mAppProfiles (mRegistry s))) (map_of (mAppDatas (mRegistry s)))
      (map_of (mDirIdAppMap (mRegistry s)))"
    using assms(1) by (auto elim: registry_okE)
  have "map_of (mAppDatas (mRegistry s)) a \<noteq> None"
    using consistentD(2) [OF c, of a] assms(2) unfolding findAppByDirId_def by blast
  then obtain ds where ds: "map_of (mAppProfiles (mRegistry s)) a = Some ds"
    using consistentD(1) [OF c, of a] by auto
  obtain s1 where s1: "profiles_die (map pd_piuid ds) s = Some (map (\<lambda>d. ToPeer (PimProfileDied (pd_piuid d) (pd_sid d))) ds, s1)"
    "registry_ok (mRegistry s1)" "mDirIdAppMap (mRegistry s1) = mDirIdAppMap (mRegistry s)"
    "map_of (mAppProfiles (mRegistry s1)) a = Some []"
    "mProfileToApp (mRegistry s1) = (\<lambda>p. if p \<in> pd_piuid ` set ds then None else mProfileToApp (mRegistry s) p)"
    "s1 = s\<lparr>mRegistry := mRegistry s1\<rparr>"
    using profiles_die_spec [OF assms(1) ds] by blast
  have "findAppByDirId d (mRegistry s1) = Some a" "getProfilesOfApp a (mRegistry s1) = []"
    using s1(3,4) assms(2) by (simp_all add: findAppByDirId_def getProfilesOfApp_def)
  then obtain r' where r': "unregisterApp a (mRegistry s1) = Some (True, r')" "registry_ok r'"
    "mProfileToApp r' = mProfileToApp (mRegistry s1)" "findAppByDirId d r' = None"
    using unregisterApp_ok [OF s1(2)] by blast
  have "p \<in> pd_piuid ` set ds \<longleftrightarrow> mProfileToApp (mRegistry s) p = Some a" for p
    using consistentD(4) [OF c, of p a] ds by simp
  then show ?thesis
    using that [OF ds, of "s1\<lparr>mRegistry := r'\<rparr>"] s1(1,5,6) r' assms(2) ds
    by (simp add: pim_onConnectionLost_def getProfilesOfApp_def) (metis PmpPim.select_convs(3) PmpPim.surjective PmpPim.update_convs(1))
qed

lemma unload_each_ok:
  "registry_ok (mRegistry s) \<Longrightarrow> \<exists>acts s'. unload_each ds s = Some (acts, s') \<and> registry_ok (mRegistry s')
     \<and> mPendingServiceMap s' = mPendingServiceMap s"
proof (induction ds arbitrary: s)
  case (Cons d ds)
  obtain ok r where r: "unregisterProfile (pid_piuid d) (mRegistry s) = Some (ok, r)" "registry_ok r"
    using unregisterProfile_any [OF Cons.prems] by blast
  then obtain acts s' where "unload_each ds (s\<lparr>mRegistry := r\<rparr>) = Some (acts, s')" "registry_ok (mRegistry s')"
    "mPendingServiceMap s' = mPendingServiceMap s"
    using Cons.IH [of "s\<lparr>mRegistry := r\<rparr>"] by auto
  then show ?case using r by simp
qed simp

section \<open>All calls\<close>

datatype pim_call =
    CreateProfile Uid Uid Uid DirectionID
  | ProfileDied Uid
  | ReadyToServe Uid DirectionID
  | Connect Uid DirectionID
  | Disconnect DirectionID
  | Unload Uid
  | AppRequestError Uid
  | OnCreateProfile Uid Uid Uid Uid
  | OnProfileDied Uid
  | OnIncoming Uid Uid Uid Uid

fun pim_run :: "(Uid \<Rightarrow> Uid option) \<Rightarrow> (Uid \<Rightarrow> Uid option) \<Rightarrow> pim_call \<Rightarrow> PmpPim \<Rightarrow> (pim_action list \<times> PmpPim) option" where
  "pim_run compl papi (CreateProfile u p sid d) s = pim_createProfile compl u p sid d s"
| "pim_run compl papi (ProfileDied p) s = pim_profileDied p s"
| "pim_run compl papi (ReadyToServe ses d) s = Some (pim_readyToServe ses d s)"
| "pim_run compl papi (Connect a d) s = map_option (\<lambda>s. ([], s)) (pim_onConnection a d s)"
| "pim_run compl papi (Disconnect d) s = pim_onConnectionLost d s"
| "pim_run compl papi (Unload u) s = pim_unloadInstances u s"
| "pim_run compl papi (AppRequestError ses) s = Some ([], pim_appRequestError ses s)"
| "pim_run compl papi (OnCreateProfile ses u p sid) s = Some (snd (pim_onCreateProfile ses u p sid s))"
| "pim_run compl papi (OnProfileDied p) s = pim_onProfileDied p s"
| "pim_run compl papi (OnIncoming a u p sid) s = Some (pim_processIncomingProfile papi a u p sid s)"

text \<open>
  What the manager relies on: \<^verbatim>\<open>generateUid\<close> makes new identifiers for applications, and the socket reports each
  connection once and its loss afterwards.
\<close>

fun pim_allowed :: "pim_call \<Rightarrow> PmpPim \<Rightarrow> bool" where
  "pim_allowed (Connect a d) s \<longleftrightarrow> map_of (mAppDatas (mRegistry s)) a = None \<and> findAppByDirId d (mRegistry s) = None"
| "pim_allowed (Disconnect d) s \<longleftrightarrow> findAppByDirId d (mRegistry s) \<noteq> None"
| "pim_allowed _ s \<longleftrightarrow> True"

inductive pim_reachable :: "(Uid \<Rightarrow> Uid option) \<Rightarrow> (Uid \<Rightarrow> Uid option) \<Rightarrow> PmpPim \<Rightarrow> bool" for compl papi where
  start: "pim_reachable compl papi PmpPim_new"
| call: "pim_reachable compl papi s \<Longrightarrow> pim_allowed c s \<Longrightarrow> pim_run compl papi c s = Some (acts, s')
    \<Longrightarrow> pim_reachable compl papi s'"

lemma pim_onProfileDied_ok:
  assumes "registry_ok (mRegistry s)"
  shows "\<exists>acts s'. pim_onProfileDied p s = Some (acts, s') \<and> registry_ok (mRegistry s') \<and> findAppByPIUID p (mRegistry s') = None
    \<and> mPendingServiceMap s' = mPendingServiceMap s"
proof (cases "findAppByPIUID p (mRegistry s)")
  case None
  then show ?thesis using assms by (simp add: pim_onProfileDied_def)
next
  case (Some a)
  then show ?thesis
    using unregisterProfile_ok [OF assms Some] by (auto simp: pim_onProfileDied_def findAppByPIUID_def)
qed

lemma pim_run_ok:
  assumes "registry_ok (mRegistry s)" "pim_allowed c s"
  shows "\<exists>acts s'. pim_run compl papi c s = Some (acts, s') \<and> registry_ok (mRegistry s')"
proof (cases c)
  case (CreateProfile u p sid d)
  show ?thesis
  proof (cases "findAppByDirId d (mRegistry s)")
    case None
    then show ?thesis using assms CreateProfile by (simp add: pim_createProfile_def)
  next
    case (Some a)
    then show ?thesis
      using registerProfile_ok [OF assms(1) Some, of "\<lparr>pd_piuid = p, pd_sid = sid, pd_profileUid = u\<rparr>"] CreateProfile
      by (auto simp: pim_createProfile_def Let_def)
  qed
next
  case (ProfileDied p)
  show ?thesis
  proof (cases "findAppByPIUID p (mRegistry s)")
    case None
    then have "findSidByPIUID p (mRegistry s) = None" by (simp add: findSidByPIUID_def)
    then show ?thesis using assms ProfileDied by (simp add: pim_profileDied_def)
  next
    case (Some a)
    then show ?thesis using pim_profileDied_ok [OF assms(1) Some] ProfileDied by auto
  qed
next
  case (ReadyToServe ses d)
  then show ?thesis
    using assms addServiceToApp_ok [OF assms(1)]
    by (cases "pim_readyToServe ses d s") (auto simp: pim_readyToServe_def Let_def split: option.splits prod.splits if_splits)
next
  case (Connect a d)
  then show ?thesis
    using assms registerApp_ok [OF assms(1), of a d] by (auto simp: pim_onConnection_def)
next
  case (Disconnect d)
  then obtain a where a: "findAppByDirId d (mRegistry s) = Some a" using assms(2) by auto
  show ?thesis using pim_onConnectionLost_spec [OF assms(1) a] Disconnect by (metis pim_run.simps(5))
next
  case (Unload u)
  then show ?thesis
    using unload_each_ok [OF assms(1)] by (force simp: pim_unloadInstances_def)
next
  case (OnCreateProfile ses u p sid)
  then show ?thesis
    using assms by (auto simp: pim_onCreateProfile_def split: option.splits)
next
  case (OnProfileDied p)
  then show ?thesis using pim_onProfileDied_ok [OF assms(1), of p] by auto
next
  case (OnIncoming a u p sid)
  then show ?thesis
    using assms by (auto simp: pim_processIncomingProfile_def split: option.splits)
qed (use assms in \<open>auto simp: pim_appRequestError_def\<close>)

lemma pim_reachable_ok: "pim_reachable compl papi s \<Longrightarrow> registry_ok (mRegistry s)"
proof (induction rule: pim_reachable.induct)
  case start
  show ?case using registry_ok_new by (simp add: PmpPim_new_def)
next
  case (call s c acts s')
  then show ?case using pim_run_ok [OF call(4,2), of compl papi] by auto
qed


fun pim_runs :: "(Uid \<Rightarrow> Uid option) \<Rightarrow> (Uid \<Rightarrow> Uid option) \<Rightarrow> pim_call list \<Rightarrow> PmpPim \<Rightarrow> PmpPim option" where
  "pim_runs compl papi [] s = Some s"
| "pim_runs compl papi (c # cs) s = do { (_, s) \<leftarrow> pim_run compl papi c s; pim_runs compl papi cs s }"

lemma registry_lookups:
  assumes "registry_ok r"
  shows "findAppByPIUID p r = Some a \<longleftrightarrow> p \<in> set (getProfilesOfApp a r)"
    and "findAppByPIUID p r = Some a \<Longrightarrow> \<exists>d. findAppByDirId d r = Some a \<and> findDirIdByApp a r = Some d"
    and "distinct (getProfilesOfApp a r)"
proof -
  have c: "consistent (mProfileToApp r) (map_of (mAppProfiles r)) (map_of (mAppDatas r)) (map_of (mDirIdAppMap r))"
    using assms by (auto elim: registry_okE)
  show app: "findAppByPIUID p r = Some a \<longleftrightarrow> p \<in> set (getProfilesOfApp a r)" for p
    using consistentD(4) [OF c, of p a] by (cases "map_of (mAppProfiles r) a") (simp_all add: findAppByPIUID_def getProfilesOfApp_def)
  show "distinct (getProfilesOfApp a r)"
    using consistentD(5) [OF c, of a] by (auto simp: getProfilesOfApp_def split: option.splits)
  show "\<exists>d. findAppByDirId d r = Some a \<and> findDirIdByApp a r = Some d" if "findAppByPIUID p r = Some a"
  proof -
    have "map_of (mAppDatas r) a \<noteq> None"
      using that consistentD(1) [OF c, of a] app [of p] by (auto simp: getProfilesOfApp_def split: option.splits)
    then show ?thesis
      using consistentD(2) [OF c, of a] find_dir [OF assms] unfolding findAppByDirId_def by blast
  qed
qed

lemma profiles_die_pending: "profiles_die ps s = Some (acts, s') \<Longrightarrow> mPendingServiceMap s' = mPendingServiceMap s"
  by (induction ps arbitrary: s acts) (fastforce simp: pim_profileDied_def split: bind_splits option.splits)+

lemma unload_each_pending: "unload_each ds s = Some (acts, s') \<Longrightarrow> mPendingServiceMap s' = mPendingServiceMap s"
  by (induction ds arbitrary: s acts) (fastforce split: bind_splits)+

lemma pending_kept:
  assumes "pim_run compl papi c s = Some (acts, s')" "map_of (mPendingServiceMap s) ses \<noteq> None" "\<forall>d. c \<noteq> ReadyToServe ses d"
  shows "map_of (mPendingServiceMap s') ses \<noteq> None"
proof (cases c)
  case (CreateProfile u p sid d)
  then show ?thesis
    using assms by (auto simp: pim_createProfile_def Let_def split: option.splits bind_splits)
next
  case (ProfileDied p)
  then show ?thesis
    using assms by (auto simp: pim_profileDied_def split: option.splits bind_splits)
next
  case (ReadyToServe ses' d)
  then show ?thesis
    using assms by (auto simp: pim_readyToServe_def Let_def split: option.splits if_splits)
next
  case (Disconnect d)
  then show ?thesis
    using assms profiles_die_pending by (fastforce simp: pim_onConnectionLost_def split: bind_splits)
next
  case (Unload u)
  then show ?thesis
    using assms(1,2) unload_each_pending [of _ s acts s'] by (simp add: pim_unloadInstances_def)
next
  case (OnCreateProfile ses' u p sid)
  moreover have "mPendingServiceMap s \<noteq> []" using assms(2) by auto
  ultimately show ?thesis
    using assms by (simp add: pim_onCreateProfile_def)
next
  case (OnProfileDied p)
  then show ?thesis
    using assms by (auto simp: pim_onProfileDied_def split: option.splits bind_splits)
next
  case (OnIncoming a u p sid)
  then show ?thesis
    using assms by (auto simp: pim_processIncomingProfile_def split: option.splits if_splits)
qed (use assms in \<open>auto simp: pim_appRequestError_def pim_onConnection_def split: bind_splits\<close>)

lemma pim_runs_pending:
  "pim_runs compl papi cs s = Some s' \<Longrightarrow> map_of (mPendingServiceMap s) ses \<noteq> None
    \<Longrightarrow> \<forall>c \<in> set cs. \<forall>d. c \<noteq> ReadyToServe ses d \<Longrightarrow> map_of (mPendingServiceMap s') ses \<noteq> None"
proof (induction cs arbitrary: s)
  case (Cons c cs)
  from Cons.prems(1) obtain acts s1 where "pim_run compl papi c s = Some (acts, s1)" "pim_runs compl papi cs s1 = Some s'"
    by (auto split: bind_splits)
  then show ?case
    using Cons.IH [of s1] Cons.prems(2,3) pending_kept [of compl papi c s acts s1 ses] by simp
qed simp

section \<open>Properties\<close>

text \<open>
  C28: in every reachable state of the instance manager each allowed call has a result (no assertion
  fails), and the registry's lookups agree: an instance belongs to an application exactly when the application lists it, once, and
  then the application is connected and the instance has a service.
\<close>

theorem registry_never_contradicts_itself:
  assumes "pim_reachable compl papi s"
  shows "(\<forall>c. pim_allowed c s \<longrightarrow> pim_run compl papi c s \<noteq> None)
    \<and> (\<forall>p a. findAppByPIUID p (mRegistry s) = Some a \<longleftrightarrow> p \<in> set (getProfilesOfApp a (mRegistry s)))
    \<and> (\<forall>a. distinct (getProfilesOfApp a (mRegistry s)))
    \<and> (\<forall>p a. findAppByPIUID p (mRegistry s) = Some a \<longrightarrow> findSidByPIUID p (mRegistry s) \<noteq> None
        \<and> (\<exists>d. findAppByDirId d (mRegistry s) = Some a \<and> findDirIdByApp a (mRegistry s) = Some d))"
proof -
  have ok: "registry_ok (mRegistry s)" by (rule pim_reachable_ok [OF assms])
  show ?thesis
    using pim_run_ok [OF ok] registry_lookups [OF ok] app_knows_sid [OF ok] by (intro conjI allI impI) fast+
qed


text \<open>
  When an application's connection is lost, the other device is told of each of its instances once, with
  its service; they leave the registry together with the application, and nothing else does.
\<close>

theorem lost_application_reported:
  assumes "pim_reachable compl papi s" "findAppByDirId d (mRegistry s) = Some a"
  shows "\<exists>reports s'. pim_onConnectionLost d s = Some (map ToPeer reports, s')
    \<and> reports = map (\<lambda>p. PimProfileDied p (the (findSidByPIUID p (mRegistry s)))) (getProfilesOfApp a (mRegistry s))
    \<and> distinct reports \<and> findAppByDirId d (mRegistry s') = None
    \<and> (\<forall>p. findAppByPIUID p (mRegistry s') = (if findAppByPIUID p (mRegistry s) = Some a then None else findAppByPIUID p (mRegistry s)))"
proof -
  have ok: "registry_ok (mRegistry s)" by (rule pim_reachable_ok [OF assms(1)])
  have c: "consistent (mProfileToApp (mRegistry s)) (map_of (mAppProfiles (mRegistry s))) (map_of (mAppDatas (mRegistry s)))
      (map_of (mDirIdAppMap (mRegistry s)))"
    using ok by (auto elim: registry_okE)
  obtain ds s' where ds: "map_of (mAppProfiles (mRegistry s)) a = Some ds"
    "pim_onConnectionLost d s = Some (map (\<lambda>d. ToPeer (PimProfileDied (pd_piuid d) (pd_sid d))) ds, s')"
    "findAppByDirId d (mRegistry s') = None"
    "mProfileToApp (mRegistry s') = (\<lambda>p. if mProfileToApp (mRegistry s) p = Some a then None else mProfileToApp (mRegistry s) p)"
    by (rule pim_onConnectionLost_spec [OF ok assms(2)])
  have distinct: "distinct (map pd_piuid ds)" by (rule consistentD(5) [OF c ds(1)])
  have sid: "findSidByPIUID (pd_piuid e) (mRegistry s) = Some (pd_sid e)" if e: "e \<in> set ds" for e
  proof -
    have "mProfileToApp (mRegistry s) (pd_piuid e) = Some a"
      using consistentD(4) [OF c, of "pd_piuid e" a] ds(1) e by simp
    moreover have "find (\<lambda>d. pd_piuid d = pd_piuid e) ds = Some e"
      using distinct e by (induction ds) (auto simp: image_iff)
    ultimately show ?thesis using ds(1) by (simp add: findSidByPIUID_def findAppByPIUID_def)
  qed
  let ?reports = "map (\<lambda>e. PimProfileDied (pd_piuid e) (pd_sid e)) ds"
  have acts: "map (\<lambda>d. ToPeer (PimProfileDied (pd_piuid d) (pd_sid d))) ds = map ToPeer ?reports"
    by simp
  have "?reports = map (\<lambda>p. PimProfileDied p (the (findSidByPIUID p (mRegistry s)))) (getProfilesOfApp a (mRegistry s))"
    using ds(1) sid by (simp add: getProfilesOfApp_def)
  moreover have "distinct ?reports"
    using distinct by (auto simp: distinct_map inj_on_def)
  ultimately show ?thesis
    using ds(2,3,4) acts by (intro exI [of _ ?reports] exI [of _ s'] conjI) (simp_all add: findAppByPIUID_def)
qed

text \<open>
  When the application for a service is to be launched and does not come (an error of the
  application manager changes nothing), all later creations by the other device are refused, whatever else happens.
\<close>

theorem failed_launch_blocks_creations:
  assumes "pim_onCreateProfile ses u p sid s = (True, [ApplicationRequest ses sid], s1)"
    and "pim_runs compl papi (AppRequestError ses # cs) s1 = Some s2" "\<forall>c \<in> set cs. \<forall>d. c \<noteq> ReadyToServe ses d"
  shows "pim_onCreateProfile ses' u' p' sid' s2 = (False, [], s2)"
proof -
  have "map_of (mPendingServiceMap s1) ses \<noteq> None"
    using assms(1) by (auto simp: pim_onCreateProfile_def map_of_insert split: if_splits option.splits)
  then have "map_of (mPendingServiceMap s2) ses \<noteq> None"
    using pim_runs_pending [OF assms(2)] assms(3) by simp
  then show ?thesis by (auto simp: pim_onCreateProfile_def)
qed


section \<open>Examples\<close>

text \<open>One application, with the services \<^verbatim>\<open>ss\<close>, the instances \<^verbatim>\<open>ds\<close> and the pending creations \<^verbatim>\<open>pending\<close>.\<close>

definition one_app :: "Uid list \<Rightarrow> ProfileData list \<Rightarrow> (Uid \<times> Uid \<times> Uid \<times> Uid) list \<Rightarrow> PmpPim" where
  "one_app ss ds pending = \<lparr>mRegistry = \<lparr>mProfileToApp = map_of (map (\<lambda>d. (pd_piuid d, ''a'')) ds), mAppProfiles = [(''a'', ds)],
     mAppDatas = [(''a'', ss)], mDirIdAppMap = [(1, ''a'')]\<rparr>, mIncomingProfiles = [], mPendingServiceMap = pending\<rparr>"

lemma connected_reachable: "pim_reachable compl papi (one_app [] [] [])"
  by (rule pim_reachable.call [OF pim_reachable.start, where c = "Connect ''a'' 1" and acts = "[]"])
    (simp_all add: PmpPim_new_def ClientAppRegistry_new_def findAppByDirId_def pim_onConnection_def registerApp_def one_app_def)

lemma pending_reachable: "pim_reachable compl papi (one_app [] [] [(''ses'', ''v'', ''i'', ''s'')])"
  by (rule pim_reachable.call [OF connected_reachable, where c = "OnCreateProfile ''ses'' ''v'' ''i'' ''s''"
        and acts = "[ApplicationRequest ''ses'' ''s'']"])
    (simp_all add: pim_onCreateProfile_def findAppBySid_def one_app_def)

lemma serving_reachable: "pim_reachable compl papi (one_app [''s''] [] [])"
  by (rule pim_reachable.call [OF pending_reachable, where c = "ReadyToServe ''ses'' 1"
        and acts = "[ProcessIncoming ''a'' ''v'' ''i'' ''s'']"])
    (simp_all add: pim_readyToServe_def findAppByDirId_def addServiceToApp_def map_assign_def map_erase_def one_app_def)

definition sample_instance :: ProfileData where
  "sample_instance = \<lparr>pd_piuid = ''p'', pd_sid = ''s'', pd_profileUid = ''u''\<rparr>"

lemma instance_reachable: "pim_reachable (\<lambda>_. None) papi (one_app [] [sample_instance] [])"
  by (rule pim_reachable.call [OF connected_reachable, where c = "CreateProfile ''u'' ''p'' ''s'' 1" and acts = "[]"])
    (simp_all add: pim_createProfile_def findAppByDirId_def registerProfile_def map_assign_def one_app_def sample_instance_def fun_eq_iff)

theorem registry_never_contradicts_itself_witness:
  "findAppByPIUID ''p'' (mRegistry (one_app [] [sample_instance] [])) = Some ''a''
    \<and> ''p'' \<in> set (getProfilesOfApp ''a'' (mRegistry (one_app [] [sample_instance] [])))
    \<and> pim_run (\<lambda>_. None) (\<lambda>_. None) (Disconnect 1) (one_app [] [sample_instance] []) \<noteq> None"
proof -
  let ?s = "one_app [] [sample_instance] []"
  note facts = registry_never_contradicts_itself [OF instance_reachable [of "\<lambda>_. None"]]
  have "findAppByPIUID ''p'' (mRegistry ?s) = Some ''a''" "pim_allowed (Disconnect 1) ?s"
    by (simp_all add: findAppByPIUID_def findAppByDirId_def one_app_def sample_instance_def)
  then show ?thesis using facts by blast
qed


theorem lost_application_reported_witness:
  "\<exists>s'. pim_onConnectionLost 1 (one_app [] [sample_instance] []) = Some ([ToPeer (PimProfileDied ''p'' ''s'')], s')
    \<and> findAppByDirId 1 (mRegistry s') = None"
proof -
  have "findAppByDirId 1 (mRegistry (one_app [] [sample_instance] [])) = Some ''a''"
    by (simp add: one_app_def findAppByDirId_def)
  from lost_application_reported [OF instance_reachable this]
  show ?thesis
    by (auto simp: one_app_def getProfilesOfApp_def findSidByPIUID_def findAppByPIUID_def sample_instance_def)
qed

theorem failed_launch_blocks_creations_witness:
  "pim_onCreateProfile ''ses2'' ''v'' ''i2'' ''s'' (one_app [] [] [(''ses'', ''v'', ''i'', ''s'')])
    = (False, [], one_app [] [] [(''ses'', ''v'', ''i'', ''s'')])"
  by (rule failed_launch_blocks_creations [of "''ses''" "''v''" "''i''" "''s''" "one_app [] [] []"
        "one_app [] [] [(''ses'', ''v'', ''i'', ''s'')]" "\<lambda>_. None" "\<lambda>_. None" "[]"])
    (simp_all add: pim_onCreateProfile_def findAppBySid_def pim_appRequestError_def one_app_def)

end
