(* ===== verification/EventLoop.thy ===== *)
theory EventLoop
  imports Prelude
begin

text \<open>
  The event handler of \<^verbatim>\<open>utils/eventHandler\<close>: one thread that takes exceptions and events from two queues, other threads that
  put them there and signal a semaphore afterwards, and the thread that stops the handler. Steps are the critical sections.
\<close>

section \<open>The queues and the thread\<close>

text \<open>
  What the thread is about to do. \<^verbatim>\<open>pop\<close> of either queue is one critical section; \<^verbatim>\<open>CheckFlag\<close> is the condition of the loop.
\<close>

datatype eh_pc = PopException | PopEvent | WaitSemaphore | CheckFlag | Exited

datatype eh_deinit = NotCalled | Joining | Deinitialised

text \<open>
  The last fields are a record of the run: the threads between \<^verbatim>\<open>push\<close> and \<^verbatim>\<open>signal\<close>, what was pushed and what was handled.
\<close>

record 'e EventHandler =
  mEventQueue :: "'e list"
  mExceptionQueue :: "'e list"
  mEventSemaphore :: nat
  mStopFlag :: bool
  eh_pc :: eh_pc
  eh_deinit :: eh_deinit
  eh_unsignalled :: nat
  eh_events :: "'e list"
  eh_exceptions :: "'e list"
  eh_handled_events :: "'e list"
  eh_handled_exceptions :: "'e list"

definition EventHandler_init :: "'e EventHandler" where
  "EventHandler_init = \<lparr>mEventQueue = [], mExceptionQueue = [], mEventSemaphore = 0, mStopFlag = False, eh_pc = PopException,
     eh_deinit = NotCalled, eh_unsignalled = 0, eh_events = [], eh_exceptions = [], eh_handled_events = [], eh_handled_exceptions = []\<rparr>"

definition eh_pushEvent :: "'e \<Rightarrow> 'e EventHandler \<Rightarrow> 'e EventHandler" where
  "eh_pushEvent e h = h\<lparr>mEventQueue := mEventQueue h @ [e], eh_unsignalled := eh_unsignalled h + 1, eh_events := eh_events h @ [e]\<rparr>"

definition eh_pushException :: "'e \<Rightarrow> 'e EventHandler \<Rightarrow> 'e EventHandler" where
  "eh_pushException e h = h\<lparr>mExceptionQueue := mExceptionQueue h @ [e], eh_unsignalled := eh_unsignalled h + 1,
     eh_exceptions := eh_exceptions h @ [e]\<rparr>"

definition eh_signal :: "'e EventHandler \<Rightarrow> 'e EventHandler" where
  "eh_signal h = h\<lparr>eh_unsignalled := eh_unsignalled h - 1, mEventSemaphore := mEventSemaphore h + 1\<rparr>"

text \<open>One step of \<^verbatim>\<open>threadFunc\<close>; \<^const>\<open>None\<close> while it is blocked and after it has returned.\<close>

definition eh_thread :: "'e EventHandler \<Rightarrow> 'e EventHandler option" where
  "eh_thread h = (case eh_pc h of
     PopException \<Rightarrow> (case mExceptionQueue h of
         [] \<Rightarrow> Some (h\<lparr>eh_pc := PopEvent\<rparr>)
       | e # q \<Rightarrow> Some (h\<lparr>mExceptionQueue := q, eh_handled_exceptions := eh_handled_exceptions h @ [e], eh_pc := CheckFlag\<rparr>))
   | PopEvent \<Rightarrow> (case mEventQueue h of
         [] \<Rightarrow> Some (h\<lparr>eh_pc := WaitSemaphore\<rparr>)
       | e # q \<Rightarrow> Some (h\<lparr>mEventQueue := q, eh_handled_events := eh_handled_events h @ [e], eh_pc := CheckFlag\<rparr>))
   | WaitSemaphore \<Rightarrow> (if mEventSemaphore h = 0 then None
       else Some (h\<lparr>mEventSemaphore := mEventSemaphore h - 1, eh_pc := CheckFlag\<rparr>))
   | CheckFlag \<Rightarrow> Some (h\<lparr>eh_pc := (if mStopFlag h then Exited else PopException)\<rparr>)
   | Exited \<Rightarrow> None)"

text \<open>
  \<^verbatim>\<open>deinit\<close>: \<^verbatim>\<open>stop\<close> sets the flag and joins the thread; only then the semaphore is signalled.
\<close>

definition eh_deinit_begin :: "'e EventHandler \<Rightarrow> 'e EventHandler" where
  "eh_deinit_begin h = h\<lparr>mStopFlag := True, eh_deinit := Joining\<rparr>"

definition eh_deinit_end :: "'e EventHandler \<Rightarrow> 'e EventHandler" where
  "eh_deinit_end h = h\<lparr>mEventSemaphore := mEventSemaphore h + 1, eh_deinit := Deinitialised\<rparr>"

text \<open>The steps without new events, and all steps. A handler that pushes is one of those who push.\<close>

inductive eh_quiet :: "'e EventHandler \<Rightarrow> 'e EventHandler \<Rightarrow> bool" where
  thread: "eh_thread h = Some h' \<Longrightarrow> eh_quiet h h'"
| signal: "0 < eh_unsignalled h \<Longrightarrow> eh_quiet h (eh_signal h)"
| joined: "eh_deinit h = Joining \<Longrightarrow> eh_pc h = Exited \<Longrightarrow> eh_quiet h (eh_deinit_end h)"

inductive eh_step :: "'e EventHandler \<Rightarrow> 'e EventHandler \<Rightarrow> bool" where
  quiet: "eh_quiet h h' \<Longrightarrow> eh_step h h'"
| event: "eh_step h (eh_pushEvent e h)"
| exception: "eh_step h (eh_pushException e h)"
| deinit: "eh_deinit h = NotCalled \<Longrightarrow> eh_step h (eh_deinit_begin h)"

inductive eh_reachable :: "'e EventHandler \<Rightarrow> bool" where
  start: "eh_reachable EventHandler_init"
| step: "eh_reachable h \<Longrightarrow> eh_step h h' \<Longrightarrow> eh_reachable h'"

inductive_cases eh_quietE: "eh_quiet h h'"
inductive_cases eh_stepE: "eh_step h h'"

lemmas eh_defs = eh_pushEvent_def eh_pushException_def eh_signal_def eh_deinit_begin_def eh_deinit_end_def eh_thread_def

section \<open>The invariant\<close>

text \<open>What came after the queue was found empty will be signalled, or has been.\<close>

definition eh_ok :: "'e EventHandler \<Rightarrow> bool" where
  "eh_ok h \<longleftrightarrow> eh_handled_events h @ mEventQueue h = eh_events h
     \<and> eh_handled_exceptions h @ mExceptionQueue h = eh_exceptions h
     \<and> (eh_pc h \<in> {PopEvent, WaitSemaphore} \<and> mExceptionQueue h \<noteq> [] \<longrightarrow> 0 < mEventSemaphore h + eh_unsignalled h)
     \<and> (eh_pc h = WaitSemaphore \<and> mEventQueue h \<noteq> [] \<longrightarrow> 0 < mEventSemaphore h + eh_unsignalled h)
     \<and> (mStopFlag h \<longleftrightarrow> eh_deinit h \<noteq> NotCalled) \<and> (eh_pc h = Exited \<longrightarrow> mStopFlag h)"

lemma eh_ok_thread: "eh_thread h = Some h' \<Longrightarrow> eh_ok h \<Longrightarrow> eh_ok h'"
  by (cases "eh_pc h") (auto simp: eh_thread_def eh_ok_def split: list.splits if_splits)

lemma eh_ok_quiet: "eh_quiet h h' \<Longrightarrow> eh_ok h \<Longrightarrow> eh_ok h'"
proof (erule eh_quietE)
  assume "eh_ok h" "eh_thread h = Some h'"
  then show ?thesis using eh_ok_thread by blast
qed (auto simp: eh_ok_def eh_signal_def eh_deinit_end_def)

lemma eh_ok_step: "eh_step h h' \<Longrightarrow> eh_ok h \<Longrightarrow> eh_ok h'"
proof (erule eh_stepE)
  assume "eh_ok h" "eh_quiet h h'"
  then show ?thesis using eh_ok_quiet by blast
qed (auto simp: eh_ok_def eh_pushEvent_def eh_pushException_def eh_deinit_begin_def)

lemma eh_reachable_ok: "eh_reachable h \<Longrightarrow> eh_ok h"
proof (induction rule: eh_reachable.induct)
  case start
  show ?case by (simp add: eh_ok_def EventHandler_init_def)
next
  case (step h h')
  then show ?case using eh_ok_step by blast
qed

section \<open>Everything is handled\<close>

text \<open>A running handler reaches the top of its loop, and takes one thing after the other there.\<close>

lemma eh_thread_step: "eh_thread h = Some h' \<Longrightarrow> eh_quiet\<^sup>*\<^sup>* h' h'' \<Longrightarrow> eh_quiet\<^sup>*\<^sup>* h h''"
  by (meson converse_rtranclp_into_rtranclp eh_quiet.thread)

definition eh_measure :: "'e EventHandler \<Rightarrow> nat" where
  "eh_measure h = length (mEventQueue h) + length (mExceptionQueue h)"

lemma eh_take_one:
  assumes "eh_pc h = PopException" "\<not> mStopFlag h" "0 < eh_measure h"
  shows "\<exists>h'. eh_quiet\<^sup>*\<^sup>* h h' \<and> eh_pc h' = PopException \<and> \<not> mStopFlag h' \<and> eh_measure h' < eh_measure h
    \<and> eh_events h' = eh_events h \<and> eh_exceptions h' = eh_exceptions h"
proof (cases "mExceptionQueue h")
  case (Cons e q)
  let ?h = "h\<lparr>mExceptionQueue := q, eh_handled_exceptions := eh_handled_exceptions h @ [e], eh_pc := CheckFlag\<rparr>"
  have "eh_thread h = Some ?h" "eh_thread ?h = Some (?h\<lparr>eh_pc := PopException\<rparr>)"
    using assms Cons by (simp_all add: eh_thread_def)
  then have "eh_quiet\<^sup>*\<^sup>* h (?h\<lparr>eh_pc := PopException\<rparr>)"
    using eh_thread_step by blast
  then show ?thesis
    using Cons assms by (intro exI [of _ "?h\<lparr>eh_pc := PopException\<rparr>"]) (simp add: eh_measure_def)
next
  case Nil
  then obtain e q where q: "mEventQueue h = e # q"
    using assms(3) by (cases "mEventQueue h") (auto simp: eh_measure_def)
  let ?h1 = "h\<lparr>eh_pc := PopEvent\<rparr>"
  let ?h = "h\<lparr>mEventQueue := q, eh_handled_events := eh_handled_events h @ [e], eh_pc := CheckFlag\<rparr>"
  have "eh_thread h = Some ?h1" "eh_thread ?h1 = Some ?h" "eh_thread ?h = Some (?h\<lparr>eh_pc := PopException\<rparr>)"
    using assms Nil q by (simp_all add: eh_thread_def)
  then have "eh_quiet\<^sup>*\<^sup>* h (?h\<lparr>eh_pc := PopException\<rparr>)"
    using eh_thread_step by blast
  then show ?thesis
    using Nil q assms by (intro exI [of _ "?h\<lparr>eh_pc := PopException\<rparr>"]) (simp add: eh_measure_def)
qed

lemma eh_take_all:
  assumes "eh_pc h = PopException" "\<not> mStopFlag h"
  shows "\<exists>h'. eh_quiet\<^sup>*\<^sup>* h h' \<and> eh_measure h' = 0 \<and> eh_events h' = eh_events h \<and> eh_exceptions h' = eh_exceptions h"
  using assms
proof (induction "eh_measure h" arbitrary: h rule: less_induct)
  case less
  show ?case
  proof (cases "eh_measure h = 0")
    case True
    then show ?thesis by blast
  next
    case False
    then obtain h1 where h1: "eh_quiet\<^sup>*\<^sup>* h h1" "eh_pc h1 = PopException" "\<not> mStopFlag h1" "eh_measure h1 < eh_measure h"
      "eh_events h1 = eh_events h" "eh_exceptions h1 = eh_exceptions h"
      using eh_take_one [OF less.prems] by auto
    from less.hyps [OF h1(4,2,3)] show ?thesis
      using h1(1,5,6) by (metis rtranclp_trans)
  qed
qed

lemma eh_to_top:
  assumes "eh_ok h" "\<not> mStopFlag h" "eh_measure h \<noteq> 0"
  shows "\<exists>h'. eh_quiet\<^sup>*\<^sup>* h h' \<and> eh_pc h' = PopException \<and> \<not> mStopFlag h' \<and> eh_events h' = eh_events h
    \<and> eh_exceptions h' = eh_exceptions h"
proof -
  have flag: ?thesis if h1: "eh_quiet\<^sup>*\<^sup>* h h1" "eh_pc h1 = CheckFlag" "\<not> mStopFlag h1" "eh_events h1 = eh_events h"
    "eh_exceptions h1 = eh_exceptions h" for h1
  proof -
    have "eh_quiet h1 (h1\<lparr>eh_pc := PopException\<rparr>)"
      using h1(2,3) by (intro eh_quiet.thread) (simp add: eh_thread_def)
    then have "eh_quiet\<^sup>*\<^sup>* h (h1\<lparr>eh_pc := PopException\<rparr>)"
      using h1(1) by (rule rtranclp.rtrancl_into_rtrancl [rotated])
    then show ?thesis
      using h1 by (intro exI [of _ "h1\<lparr>eh_pc := PopException\<rparr>"]) simp
  qed
  have woken: ?thesis if h1: "eh_quiet\<^sup>*\<^sup>* h h1" "eh_pc h1 = WaitSemaphore" "0 < mEventSemaphore h1 + eh_unsignalled h1"
    "\<not> mStopFlag h1" "eh_events h1 = eh_events h" "eh_exceptions h1 = eh_exceptions h" for h1
  proof -
    obtain h2 where h2: "eh_quiet\<^sup>*\<^sup>* h h2" "eh_pc h2 = WaitSemaphore" "0 < mEventSemaphore h2"
      "\<not> mStopFlag h2" "eh_events h2 = eh_events h" "eh_exceptions h2 = eh_exceptions h"
    proof (cases "mEventSemaphore h1")
      case 0
      then have "eh_quiet h1 (eh_signal h1)"
        using h1(3) by (intro eh_quiet.signal) simp
      then have "eh_quiet\<^sup>*\<^sup>* h (eh_signal h1)"
        using h1(1) by (rule rtranclp.rtrancl_into_rtrancl [rotated])
      then show ?thesis
        by (rule that) (use h1 in \<open>simp_all add: eh_signal_def\<close>)
    next
      case (Suc n)
      show ?thesis by (rule that [OF h1(1,2) _ h1(4,5,6)]) (simp add: Suc)
    qed
    have "eh_quiet h2 (h2\<lparr>mEventSemaphore := mEventSemaphore h2 - 1, eh_pc := CheckFlag\<rparr>)"
      using h2(2,3) by (intro eh_quiet.thread) (simp add: eh_thread_def)
    then have "eh_quiet\<^sup>*\<^sup>* h (h2\<lparr>mEventSemaphore := mEventSemaphore h2 - 1, eh_pc := CheckFlag\<rparr>)"
      using h2(1) by (rule rtranclp.rtrancl_into_rtrancl [rotated])
    then show ?thesis
      by (rule flag) (use h2 in simp_all)
  qed
  show ?thesis
  proof (cases "eh_pc h")
    case PopException
    then show ?thesis using assms(2) by blast
  next
    case CheckFlag
    then show ?thesis using assms(2) flag [of h] by simp
  next
    case Exited
    then show ?thesis using assms(1,2) by (simp add: eh_ok_def)
  next
    case WaitSemaphore
    then have "0 < mEventSemaphore h + eh_unsignalled h"
      using assms(1,3) by (auto simp: eh_ok_def eh_measure_def)
    then show ?thesis using woken [of h] WaitSemaphore assms(2) by simp
  next
    case PopEvent
    show ?thesis
    proof (cases "mEventQueue h")
      case Nil
      then have "mExceptionQueue h \<noteq> []" using assms(3) by (simp add: eh_measure_def)
      then have pos: "0 < mEventSemaphore h + eh_unsignalled h"
        using assms(1) PopEvent by (simp add: eh_ok_def)
      have "eh_quiet h (h\<lparr>eh_pc := WaitSemaphore\<rparr>)"
        using PopEvent Nil by (intro eh_quiet.thread) (simp add: eh_thread_def)
      then have "eh_quiet\<^sup>*\<^sup>* h (h\<lparr>eh_pc := WaitSemaphore\<rparr>)" by (rule r_into_rtranclp)
      then show ?thesis
        by (rule woken) (use pos assms(2) in simp_all)
    next
      case (Cons e q)
      then have "eh_quiet h (h\<lparr>mEventQueue := q, eh_handled_events := eh_handled_events h @ [e], eh_pc := CheckFlag\<rparr>)"
        using PopEvent by (intro eh_quiet.thread) (simp add: eh_thread_def)
      then have "eh_quiet\<^sup>*\<^sup>* h (h\<lparr>mEventQueue := q, eh_handled_events := eh_handled_events h @ [e], eh_pc := CheckFlag\<rparr>)"
        by (rule r_into_rtranclp)
      then show ?thesis
        by (rule flag) (use assms(2) in simp_all)
    qed
  qed
qed

section \<open>Properties\<close>

text \<open>
  C40: events are handled in the order in which they were pushed, and so are exceptions; and from every reachable
  state of a handler that has not been stopped, its thread and the signals under way lead to a state in which all of them are
  handled. No wake-up is lost between a push and its signal.
\<close>

theorem events_all_handled:
  assumes "eh_reachable h"
  shows "(\<exists>rest. eh_events h = eh_handled_events h @ rest) \<and> (\<exists>rest. eh_exceptions h = eh_handled_exceptions h @ rest)
    \<and> (eh_deinit h = NotCalled \<longrightarrow> (\<exists>h'. eh_quiet\<^sup>*\<^sup>* h h' \<and> eh_handled_events h' = eh_events h \<and> eh_handled_exceptions h' = eh_exceptions h))"
proof (intro conjI impI)
  have ok: "eh_ok h" by (rule eh_reachable_ok [OF assms])
  then have "eh_events h = eh_handled_events h @ mEventQueue h" "eh_exceptions h = eh_handled_exceptions h @ mExceptionQueue h"
    by (simp_all add: eh_ok_def)
  then show "\<exists>rest. eh_events h = eh_handled_events h @ rest" "\<exists>rest. eh_exceptions h = eh_handled_exceptions h @ rest"
    by blast+
  assume "eh_deinit h = NotCalled"
  then have running: "\<not> mStopFlag h" using ok by (simp add: eh_ok_def)
  have "\<exists>h'. eh_quiet\<^sup>*\<^sup>* h h' \<and> eh_measure h' = 0 \<and> eh_events h' = eh_events h \<and> eh_exceptions h' = eh_exceptions h"
  proof (cases "eh_measure h = 0")
    case True
    then show ?thesis by blast
  next
    case False
    then obtain h1 where h1: "eh_quiet\<^sup>*\<^sup>* h h1" "eh_pc h1 = PopException" "\<not> mStopFlag h1" "eh_events h1 = eh_events h"
      "eh_exceptions h1 = eh_exceptions h"
      using eh_to_top [OF ok running] by blast
    from eh_take_all [OF h1(2,3)] show ?thesis
      using h1(1,4,5) by (metis rtranclp_trans)
  qed
  then obtain h' where h': "eh_quiet\<^sup>*\<^sup>* h h'" "eh_measure h' = 0" "eh_events h' = eh_events h" "eh_exceptions h' = eh_exceptions h"
    by blast
  have "eh_ok h'"
    using h'(1) ok by (induction rule: rtranclp_induct) (auto intro: eh_ok_quiet)
  then show "\<exists>h'. eh_quiet\<^sup>*\<^sup>* h h' \<and> eh_handled_events h' = eh_events h \<and> eh_handled_exceptions h' = eh_exceptions h"
    using h' by (intro exI [of _ h']) (simp add: eh_ok_def eh_measure_def)
qed

text \<open>
  \<^verbatim>\<open>deinit\<close> of a handler whose thread waits for an event does not return: it joins the thread before it
  signals the semaphore, and unless somebody pushes an event no step changes that.
\<close>

theorem idle_handler_never_stops:
  assumes "eh_reachable h" "eh_pc h = WaitSemaphore" "mEventSemaphore h = 0" "eh_unsignalled h = 0"
  shows "eh_quiet\<^sup>*\<^sup>* (eh_deinit_begin h) h' \<Longrightarrow> h' = eh_deinit_begin h \<and> eh_deinit h' = Joining"
proof (induction rule: rtranclp_induct)
  case base
  show ?case by (simp add: eh_deinit_begin_def)
next
  case (step h1 h2)
  then have "eh_quiet (eh_deinit_begin h) h2" by simp
  then show ?case
    using assms(2,3,4) by (auto elim!: eh_quietE simp: eh_deinit_begin_def eh_thread_def)
qed

theorem events_all_handled_witness:
  "\<exists>h'. eh_quiet\<^sup>*\<^sup>* (eh_pushException 2 (eh_pushEvent (1 :: nat) EventHandler_init)) h' \<and> eh_handled_events h' = [1]
    \<and> eh_handled_exceptions h' = [2]"
proof -
  let ?h = "eh_pushException 2 (eh_pushEvent (1 :: nat) EventHandler_init)"
  have "eh_reachable ?h"
    by (rule eh_reachable.step [OF eh_reachable.step [OF eh_reachable.start eh_step.event] eh_step.exception])
  from events_all_handled [OF this] show ?thesis
    by (simp add: EventHandler_init_def eh_pushEvent_def eh_pushException_def)
qed

theorem idle_handler_never_stops_witness:
  "\<exists>h :: nat EventHandler. eh_reachable h \<and> (\<forall>h'. eh_quiet\<^sup>*\<^sup>* (eh_deinit_begin h) h' \<longrightarrow> eh_deinit h' = Joining)"
proof -
  let ?h = "EventHandler_init\<lparr>eh_pc := WaitSemaphore\<rparr> :: nat EventHandler"
  have "eh_reachable (EventHandler_init\<lparr>eh_pc := PopEvent\<rparr> :: nat EventHandler)"
    by (rule eh_reachable.step [OF eh_reachable.start eh_step.quiet [OF eh_quiet.thread]]) (simp add: eh_thread_def EventHandler_init_def)
  then have h: "eh_reachable ?h"
    by (rule eh_reachable.step [OF _ eh_step.quiet [OF eh_quiet.thread]]) (simp add: eh_thread_def EventHandler_init_def)
  have "eh_deinit h' = Joining" if "eh_quiet\<^sup>*\<^sup>* (eh_deinit_begin ?h) h'" for h'
    using idle_handler_never_stops [OF h _ _ _ that] by (simp add: EventHandler_init_def eh_deinit_begin_def)
  then show ?thesis using h by blast
qed

end
