(* ===== verification/PmpManager.thy ===== *)
theory PmpManager
  imports PmpFrames
begin

text \<open>
  The profile manager's component manager (\<^verbatim>\<open>componentManager\<close>), which negotiates with the other device who is master, and the manager of
  the services that applications wait for (\<^verbatim>\<open>PIM/private/WaitingServiceManager.cpp\<close>), of which the master starts one.
  What they ask of their partners is a list of actions.
\<close>

section \<open>Waiting services\<close>

record ServiceInfo =
  si_priority :: u32
  si_pairUid :: Uid

record WaitingServiceManager =
  mLocalWaitingServices :: "Uid list"
  mRemoteWaitingServices :: "Uid list"
  mSetLocalServices :: bool
  mSetRemoteServices :: bool
  mServiceToStart :: Uid
  mStartRequest :: bool
  mAuthenticationDone :: bool

definition WaitingServiceManager_new :: WaitingServiceManager where
  "WaitingServiceManager_new = \<lparr>mLocalWaitingServices = [], mRemoteWaitingServices = [], mSetLocalServices = False,
     mSetRemoteServices = False, mServiceToStart = '''', mStartRequest = False, mAuthenticationDone = False\<rparr>"

definition setLocalWaitingServices :: "Uid list \<Rightarrow> WaitingServiceManager \<Rightarrow> WaitingServiceManager" where
  "setLocalWaitingServices services w = w\<lparr>mLocalWaitingServices := services, mSetLocalServices := True\<rparr>"

definition setRemoteWaitingServices :: "Uid list \<Rightarrow> WaitingServiceManager \<Rightarrow> WaitingServiceManager" where
  "setRemoteWaitingServices services w = w\<lparr>mRemoteWaitingServices := services, mSetRemoteServices := True\<rparr>"

text \<open>
  To the other device, to the application manager, to the system controller; events for the handler; and the semaphore on which the
  process waits to end.
\<close>

datatype mgr_action =
    SendSession pmp_event
  | WaitingServiceLoadRequest Uid
  | ScRequestConnected
  | ScRequestDisconnected
  | ResetProfilesEvent
  | StartWaitingServiceEvent bool
  | EndProcess
  | KillProcess

definition startWaitingServiceInAppLib :: "WaitingServiceManager \<Rightarrow> mgr_action list" where
  "startWaitingServiceInAppLib w =
     (if mAuthenticationDone w \<and> mStartRequest w
      then if mServiceToStart w = '''' then [] else [WaitingServiceLoadRequest (mServiceToStart w)]
      else [])"

text \<open>The loop over a list of services: the first with the smallest priority above 0. An unknown service is a null pointer.\<close>

fun min_priority :: "(Uid \<Rightarrow> ServiceInfo option) \<Rightarrow> Uid list \<Rightarrow> u32 \<times> Uid \<Rightarrow> (u32 \<times> Uid) option" where
  "min_priority info [] best = Some best"
| "min_priority info (sv # services) (minPrio, service) = do {
     i \<leftarrow> info sv;
     min_priority info services
       (if si_priority i < minPrio \<and> 0 \<noteq> si_priority i then (si_priority i, sv) else (minPrio, service)) }"

fun pair_services :: "(Uid \<Rightarrow> ServiceInfo option) \<Rightarrow> Uid list \<Rightarrow> Uid list option" where
  "pair_services info [] = Some []"
| "pair_services info (sv # services) = do {
     i \<leftarrow> info sv;
     pairs \<leftarrow> pair_services info services;
     Some (si_pairUid i # pairs) }"

definition startWaitingServiceRequest ::
    "(Uid \<Rightarrow> ServiceInfo option) \<Rightarrow> bool \<Rightarrow> WaitingServiceManager \<Rightarrow> (mgr_action list \<times> WaitingServiceManager) option" where
  "startWaitingServiceRequest info master w =
     (if \<not> master then do {
        pairs \<leftarrow> pair_services info (mLocalWaitingServices w);
        Some ([SendSession (RemoteWaitingServices pairs)], w) }
      else do {
        best \<leftarrow> min_priority info (mLocalWaitingServices w) (- 1, '''');
        (_, service) \<leftarrow> min_priority info (mRemoteWaitingServices w) best;
        let w = w\<lparr>mStartRequest := True, mServiceToStart := service\<rparr>;
        Some (startWaitingServiceInAppLib w, w) })"

definition authenticationDone :: "WaitingServiceManager \<Rightarrow> mgr_action list \<times> WaitingServiceManager" where
  "authenticationDone w = (let w = w\<lparr>mAuthenticationDone := True\<rparr> in (startWaitingServiceInAppLib w, w))"

section \<open>The component manager\<close>

datatype Role = PMP_ROLE_NONE | PMP_ROLE_MASTER | PMP_ROLE_SLAVE

record PmpManager =
  mInitializationDone :: bool
  mRole :: Role
  mRoleNubmer :: u32
  mOtherRoleNumber :: u32
  mSessionManager :: WaitingServiceManager

definition PmpManager_new :: PmpManager where
  "PmpManager_new = \<lparr>mInitializationDone = False, mRole = PMP_ROLE_NONE, mRoleNubmer = - 1, mOtherRoleNumber = - 1,
     mSessionManager = WaitingServiceManager_new\<rparr>"

text \<open>
  \<^verbatim>\<open>initPmp\<close>: up to thirty attempts to reach the application manager, then the channel to the other device; the process ends itself
  when one of them fails.
\<close>

definition initPmp :: "(nat \<Rightarrow> bool) \<Rightarrow> bool \<Rightarrow> bool \<Rightarrow> mgr_action list" where
  "initPmp amp_connect connect ready =
     (if \<not> list_ex amp_connect [0..<30] then [KillProcess]
      else if \<not> connect then [KillProcess]
      else if \<not> ready then [KillProcess]
      else [])"

definition onReady :: "mgr_action list" where
  "onReady = [ResetProfilesEvent]"

text \<open>Each of the three losses tells the system controller, if there is one, and lets the process end.\<close>

definition mgr_onChannelDeleted :: "bool \<Rightarrow> mgr_action list" where
  "mgr_onChannelDeleted sc = (if sc then [ScRequestDisconnected] else []) @ [EndProcess]"

definition mgr_onConnectionLost :: "bool \<Rightarrow> mgr_action list" where
  "mgr_onConnectionLost sc = (if sc then [ScRequestDisconnected] else []) @ [EndProcess]"

definition onAmpConnectionLost :: "bool \<Rightarrow> mgr_action list" where
  "onAmpConnectionLost sc = (if sc then [ScRequestDisconnected] else []) @ [EndProcess]"

text \<open>\<^verbatim>\<open>abs (rand () + 1)\<close> as an unsigned number: for the largest \<^verbatim>\<open>rand\<close> the sum wraps to the smallest integer.\<close>

definition genRandomNumber :: "nat \<Rightarrow> u32" where
  "genRandomNumber r = word_of_nat (r + 1)"

definition negotiateRole :: "nat \<Rightarrow> PmpManager \<Rightarrow> mgr_action list \<times> PmpManager" where
  "negotiateRole r m =
     ([SendSession (NegotiateRole (genRandomNumber r))], m\<lparr>mRoleNubmer := genRandomNumber r\<rparr>)"

definition checkWaitingServices :: "PmpManager \<Rightarrow> mgr_action list" where
  "checkWaitingServices m =
     (case mRole m of
        PMP_ROLE_NONE \<Rightarrow> []
      | PMP_ROLE_MASTER \<Rightarrow>
          if mSetLocalServices (mSessionManager m) \<and> mSetRemoteServices (mSessionManager m)
          then [StartWaitingServiceEvent True] else []
      | PMP_ROLE_SLAVE \<Rightarrow>
          if mSetLocalServices (mSessionManager m) then [StartWaitingServiceEvent False] else [])"

definition onNegotiateRole :: "nat \<Rightarrow> u32 \<Rightarrow> PmpManager \<Rightarrow> mgr_action list \<times> PmpManager" where
  "onNegotiateRole r number m =
     (if - 1 = mRoleNubmer m then ([], m\<lparr>mOtherRoleNumber := number\<rparr>)
      else if mRoleNubmer m = number then negotiateRole r m
      else (let m = m\<lparr>mRole := (if number < mRoleNubmer m then PMP_ROLE_MASTER else PMP_ROLE_SLAVE)\<rparr>
            in (checkWaitingServices m, m)))"

definition endInitialization :: "bool \<Rightarrow> bool \<Rightarrow> nat \<Rightarrow> nat \<Rightarrow> PmpManager \<Rightarrow> mgr_action list \<times> PmpManager" where
  "endInitialization ipc_connect sc r1 r2 m =
     (if mInitializationDone m then ([], m)
      else (let m = m\<lparr>mInitializationDone := True\<rparr>
            in if \<not> ipc_connect then ([KillProcess], m)
               else (let (acts, m) = negotiateRole r1 m;
                         (acts', m) = (if - 1 \<noteq> mOtherRoleNumber m then onNegotiateRole r2 (mOtherRoleNumber m) m else ([], m))
                     in ((if sc then [ScRequestConnected] else []) @ acts @ acts', m))))"

text \<open>The handlers of the events that set the services.\<close>

definition onWaitingServicesRequest :: "Uid list \<Rightarrow> PmpManager \<Rightarrow> mgr_action list \<times> PmpManager" where
  "onWaitingServicesRequest services m =
     (let m = m\<lparr>mSessionManager := setLocalWaitingServices services (mSessionManager m)\<rparr> in (checkWaitingServices m, m))"

definition onRemoteWaitingServices :: "Uid list \<Rightarrow> PmpManager \<Rightarrow> mgr_action list \<times> PmpManager" where
  "onRemoteWaitingServices services m =
     (let m = m\<lparr>mSessionManager := setRemoteWaitingServices services (mSessionManager m)\<rparr> in (checkWaitingServices m, m))"

section \<open>The choice of the service\<close>

lemma min_priority_spec:
  "min_priority info services (b, sv) = Some (p, service) \<Longrightarrow>
     (\<forall>x \<in> set services. \<exists>i. info x = Some i \<and> (si_priority i = 0 \<or> p \<le> si_priority i))
     \<and> p \<le> b \<and> (p = b \<and> service = sv \<or> (\<exists>i. service \<in> set services \<and> info service = Some i \<and> si_priority i = p \<and> p \<noteq> 0 \<and> p < b))"
proof (induction services arbitrary: b sv)
  case (Cons x xs)
  from Cons.prems obtain i where i: "info x = Some i"
    by (auto split: bind_splits)
  let ?take = "si_priority i < b \<and> 0 \<noteq> si_priority i"
  from Cons.prems i have rec: "min_priority info xs (if ?take then (si_priority i, x) else (b, sv)) = Some (p, service)"
    by simp
  show ?case
  proof (cases ?take)
    case True
    then show ?thesis
      using Cons.IH [of "si_priority i" x] rec i by auto
  next
    case False
    have rest: "min_priority info xs (b, sv) = Some (p, service)"
      using rec by (simp only: if_not_P [OF False])
    have zero: "si_priority i = 0 \<or> p \<le> si_priority i"
    proof (cases "si_priority i = 0")
      case nz: False
      then have "b \<le> si_priority i"
        using False by (simp add: not_less)
      moreover have "p \<le> b"
        using Cons.IH [OF rest] by blast
      ultimately show ?thesis
        using order.trans by blast
    qed simp
    show ?thesis
      using Cons.IH [OF rest] zero i by auto
  qed
qed simp

lemma min_priority_total:
  "list_all (\<lambda>x. info x \<noteq> None) services \<Longrightarrow> \<exists>best'. min_priority info services best = Some best'"
  by (induction services arbitrary: best) auto

text \<open>The services of both lists, and which of them a master may choose.\<close>

definition offered :: "WaitingServiceManager \<Rightarrow> Uid set" where
  "offered w = set (mLocalWaitingServices w) \<union> set (mRemoteWaitingServices w)"

definition best_choice :: "(Uid \<Rightarrow> ServiceInfo option) \<Rightarrow> Uid set \<Rightarrow> Uid \<Rightarrow> bool" where
  "best_choice info services service \<longleftrightarrow>
     (\<exists>i. service \<in> services \<and> info service = Some i \<and> si_priority i \<noteq> 0
        \<and> (\<forall>x \<in> services. \<forall>j. info x = Some j \<longrightarrow> si_priority j = 0 \<or> si_priority i \<le> si_priority j))"

definition no_choice :: "(Uid \<Rightarrow> ServiceInfo option) \<Rightarrow> Uid set \<Rightarrow> bool" where
  "no_choice info services \<longleftrightarrow> (\<forall>x \<in> services. \<forall>j. info x = Some j \<longrightarrow> si_priority j = 0 \<or> si_priority j = - 1)"

lemma two_lists_choice:
  assumes "min_priority info xs (- 1, '''') = Some best" and "min_priority info ys best = Some (p, service)"
  shows "best_choice info (set xs \<union> set ys) service \<or> service = '''' \<and> no_choice info (set xs \<union> set ys)"
proof -
  obtain b sv where best: "best = (b, sv)"
    by (cases best)
  note xs = min_priority_spec [OF assms(1) [unfolded best]] and ys = min_priority_spec [OF assms(2) [unfolded best]]
  have xs_least: "\<And>x j. x \<in> set xs \<Longrightarrow> info x = Some j \<Longrightarrow> si_priority j = 0 \<or> b \<le> si_priority j"
    using conjunct1 [OF xs] by (metis option.inject)
  have ys_least: "\<And>x j. x \<in> set ys \<Longrightarrow> info x = Some j \<Longrightarrow> si_priority j = 0 \<or> p \<le> si_priority j"
    using conjunct1 [OF ys] by (metis option.inject)
  have "p \<le> b"
    using ys by blast
  then have least: "\<forall>x \<in> set xs \<union> set ys. \<forall>j. info x = Some j \<longrightarrow> si_priority j = 0 \<or> p \<le> si_priority j"
    using xs_least ys_least order.trans by blast
  consider "p = - 1" "service = ''''"
    | i where "service \<in> set xs \<union> set ys" "info service = Some i" "si_priority i = p" "p \<noteq> 0"
    using xs ys by blast
  then show ?thesis
  proof cases
    case 1
    then have "no_choice info (set xs \<union> set ys)"
      using least unfolding no_choice_def by (metis word_order.extremum_unique)
    with 1 show ?thesis
      by blast
  next
    case 2
    then show ?thesis
      using least unfolding best_choice_def by blast
  qed
qed

end
