(* ===== verification/PmpRoles.thy ===== *)
theory PmpRoles
  imports PmpManager
begin

text \<open>
  Two profile managers that negotiate who is master, each with the numbers that are on the way to it in the order they were sent, and one
  profile manager with the service its applications wait for.
\<close>

section \<open>Two managers and their numbers\<close>

record role_system =
  manager :: "bool \<Rightarrow> PmpManager"
  coming :: "bool \<Rightarrow> u32 list"

fun role_numbers :: "mgr_action list \<Rightarrow> u32 list" where
  "role_numbers [] = []"
| "role_numbers (SendSession (NegotiateRole n) # acts) = n # role_numbers acts"
| "role_numbers (_ # acts) = role_numbers acts"

definition roles_start :: role_system where
  "roles_start = \<lparr>manager = (\<lambda>_. PmpManager_new), coming = (\<lambda>_. [])\<rparr>"

definition manager_does :: "bool \<Rightarrow> mgr_action list \<times> PmpManager \<Rightarrow> role_system \<Rightarrow> role_system" where
  "manager_does d r s = s\<lparr>manager := (manager s)(d := snd r),
     coming := (coming s)(\<not> d := coming s (\<not> d) @ role_numbers (fst r))\<rparr>"

text \<open>\<^verbatim>\<open>rand\<close> returns a number below 2^31. Lists of waiting services come at any time.\<close>

inductive role_step :: "role_system \<Rightarrow> role_system \<Rightarrow> bool" where
  initialised: "\<not> mInitializationDone (manager s d) \<Longrightarrow> r1 < 2 ^ 31 \<Longrightarrow> r2 < 2 ^ 31 \<Longrightarrow>
    role_step s (manager_does d (endInitialization True sc r1 r2 (manager s d)) s)"
| number_comes: "coming s d = n # ns \<Longrightarrow> r < 2 ^ 31 \<Longrightarrow>
    role_step s (manager_does d (onNegotiateRole r n (manager s d)) (s\<lparr>coming := (coming s)(d := ns)\<rparr>))"
| local_services: "role_step s (manager_does d (onWaitingServicesRequest services (manager s d)) s)"
| remote_services: "role_step s (manager_does d (onRemoteWaitingServices services (manager s d)) s)"

inductive role_reach :: "role_system \<Rightarrow> bool" where
  start: "role_reach roles_start"
| step: "role_reach s \<Longrightarrow> role_step s s' \<Longrightarrow> role_reach s'"

lemmas role_defs = manager_does_def negotiateRole_def onNegotiateRole_def endInitialization_def Let_def

lemma role_numbers_append [simp]: "role_numbers (xs @ ys) = role_numbers xs @ role_numbers ys"
  by (induction xs rule: role_numbers.induct) simp_all

lemma checkWaitingServices_numbers [simp]: "role_numbers (checkWaitingServices m) = []"
  by (simp add: checkWaitingServices_def split: Role.splits)

lemma genRandomNumber_ne: "r < 2 ^ 31 \<Longrightarrow> genRandomNumber r \<noteq> - 1"
proof -
  assume "r < 2 ^ 31"
  then have "unat (word_of_nat (r + 1) :: u32) = r + 1"
    unfolding unat_of_nat by (simp add: take_bit_eq_mod)
  moreover have "unat (- 1 :: u32) = 4294967295"
    by (simp only: unsigned_minus_1_eq_mask) (simp add: mask_eq_exp_minus_1)
  moreover have "r + 1 \<noteq> 4294967295"
    using \<open>r < 2 ^ 31\<close> by simp
  ultimately show "genRandomNumber r \<noteq> - 1"
    unfolding genRandomNumber_def by metis
qed

section \<open>What was sent and what was compared\<close>

definition role_of :: "u32 \<Rightarrow> u32 \<Rightarrow> Role" where
  "role_of mine other = (if other < mine then PMP_ROLE_MASTER else PMP_ROLE_SLAVE)"

text \<open>
  \<open>sent\<close> are the numbers a manager has sent and \<open>k\<close> how many of the partner's it has compared with its own: it sends a further one only
  after two equal ones.
\<close>

definition stored :: "PmpManager \<Rightarrow> u32 list" where
  "stored m = (if mInitializationDone m \<or> mOtherRoleNumber m = - 1 then [] else [mOtherRoleNumber m])"

definition role_view :: "u32 list \<Rightarrow> nat \<Rightarrow> u32 list \<Rightarrow> PmpManager \<Rightarrow> u32 list \<Rightarrow> bool" where
  "role_view mine k theirs m inbox \<longleftrightarrow>
     (mInitializationDone m \<longleftrightarrow> mine \<noteq> []) \<and>
     mRoleNubmer m = (if mine = [] then - 1 else last mine) \<and>
     stored m @ inbox = drop k theirs \<and>
     k \<le> length theirs \<and> k \<le> length mine \<and> length mine \<le> Suc k \<and>
     - 1 \<notin> set mine \<and>
     (\<forall>i. Suc i < length mine \<longrightarrow> mine ! i = theirs ! i) \<and>
     mRole m = (if k = length mine \<and> mine \<noteq> [] then role_of (last mine) (theirs ! (k - 1)) else PMP_ROLE_NONE) \<and>
     (k = length mine \<and> mine \<noteq> [] \<longrightarrow> last mine \<noteq> theirs ! (k - 1))"

lemma role_view_new: "role_view [] 0 [] PmpManager_new []"
  by (simp add: role_view_def PmpManager_new_def stored_def)

text \<open>A number the partner sends only makes its list longer.\<close>

lemma role_view_longer:
  assumes "role_view mine k theirs m inbox"
  shows "role_view mine k (theirs @ new) m (inbox @ new)"
proof -
  have "k \<le> length theirs" "length mine \<le> Suc k" "stored m @ inbox = drop k theirs"
    using assms unfolding role_view_def by blast+
  then have "length mine - Suc 0 < length theirs \<or> k \<noteq> length mine \<or> mine = []"
    and "\<And>i. Suc i < length mine \<Longrightarrow> i < length theirs"
    using \<open>k \<le> length theirs\<close> \<open>length mine \<le> Suc k\<close> by (auto simp: neq_Nil_conv)
  then show ?thesis
    using assms unfolding role_view_def by (auto simp: nth_append)
qed

lemma role_view_services:
  assumes "role_view mine k theirs m inbox" and "mInitializationDone m' = mInitializationDone m" and "mRole m' = mRole m"
    and "mRoleNubmer m' = mRoleNubmer m" and "mOtherRoleNumber m' = mOtherRoleNumber m"
  shows "role_view mine k theirs m' inbox"
proof -
  have "stored m' = stored m"
    using assms by (simp add: stored_def)
  then show ?thesis
    using assms unfolding role_view_def by simp
qed

text \<open>A manager that has sent its number compares the partner's next one.\<close>

lemma role_view_compare:
  assumes view: "role_view mine k theirs m (n # ns)" and init: "mInitializationDone m"
    and few: "k < length mine" and r: "r < 2 ^ 31"
  defines "acts \<equiv> fst (onNegotiateRole r n m)"
  shows "role_view (mine @ role_numbers acts) (Suc k) theirs (snd (onNegotiateRole r n m)) ns"
proof -
  have mine: "mine \<noteq> []" "mRoleNubmer m = last mine" "- 1 \<notin> set mine" "length mine = Suc k"
    using view few init unfolding role_view_def by auto
  have own: "mRoleNubmer m \<noteq> - 1"
    using mine last_in_set by metis
  have drop: "drop k theirs = n # ns"
    using view init unfolding role_view_def stored_def by simp
  then have k: "k < length theirs" and n: "theirs ! k = n" and ns: "drop (Suc k) theirs = ns"
    by (metis drop_all list.distinct(1) not_le) (metis drop nth_via_drop, metis drop drop_Suc list.sel(3) tl_drop)
  have eq: "\<And>i. Suc i < length mine \<Longrightarrow> mine ! i = theirs ! i"
    using view unfolding role_view_def by blast
  have last: "last mine = mine ! k"
    using mine by (simp add: last_conv_nth)
  show ?thesis
  proof (cases "mRoleNubmer m = n")
    case True
    then have res: "onNegotiateRole r n m = negotiateRole r m"
      using own by (simp add: onNegotiateRole_def)
    have "\<forall>i. Suc i < length (mine @ [genRandomNumber r]) \<longrightarrow> (mine @ [genRandomNumber r]) ! i = theirs ! i"
      using eq mine True last n by (auto simp: nth_append less_Suc_eq)
    moreover have "mRole m = PMP_ROLE_NONE"
      using view few unfolding role_view_def by auto
    ultimately show ?thesis
      unfolding acts_def res role_view_def
      using mine k ns init genRandomNumber_ne [OF r] by (simp add: negotiateRole_def stored_def)
  next
    case False
    then have res: "role_numbers acts = []" "snd (onNegotiateRole r n m) = m\<lparr>mRole := role_of (last mine) n\<rparr>"
      using own mine unfolding acts_def onNegotiateRole_def by (simp_all add: Let_def role_of_def)
    show ?thesis
      unfolding res role_view_def
      using mine k ns n init eq False by (simp add: stored_def)
  qed
qed

text \<open>A manager that has not sent a number keeps the partner's, which has sent no second one.\<close>

lemma role_view_store:
  assumes view: "role_view mine k theirs m (n # ns)" and init: "\<not> mInitializationDone m"
    and one: "length theirs \<le> 1" and "- 1 \<notin> set theirs"
  shows "role_view (mine @ role_numbers (fst (onNegotiateRole r n m))) k theirs (snd (onNegotiateRole r n m)) ns"
proof -
  have mine: "mine = []" "k = 0" "mRoleNubmer m = - 1" and all: "stored m @ n # ns = theirs"
    using view init unfolding role_view_def by auto
  then have theirs: "theirs = [n]" "ns = []"
    using one by (cases "stored m"; auto)+
  have res: "onNegotiateRole r n m = ([], m\<lparr>mOtherRoleNumber := n\<rparr>)"
    using mine by (simp add: onNegotiateRole_def)
  show ?thesis
    unfolding res role_view_def using view init mine theirs assms(4) by (simp add: role_view_def stored_def)
qed

text \<open>The end of the initialisation sends the first number, and compares the stored one.\<close>

lemma role_view_first:
  assumes view: "role_view mine k theirs m inbox" and init: "\<not> mInitializationDone m" and r: "r < 2 ^ 31"
  defines "m' \<equiv> snd (negotiateRole r (m\<lparr>mInitializationDone := True\<rparr>))"
  shows "role_view [genRandomNumber r] 0 theirs m' (stored m @ inbox)"
  using assms genRandomNumber_ne [OF r] unfolding role_view_def negotiateRole_def m'_def
  by (auto simp: stored_def)

lemma role_view_init:
  fixes sc :: bool
  assumes view: "role_view mine k theirs m inbox" and init: "\<not> mInitializationDone m" and r: "r1 < 2 ^ 31" "r2 < 2 ^ 31"
  defines "res \<equiv> endInitialization True sc r1 r2 m"
  shows "\<exists>k'. role_view (mine @ role_numbers (fst res)) k' theirs (snd res) inbox"
proof -
  define m1 where "m1 = snd (negotiateRole r1 (m\<lparr>mInitializationDone := True\<rparr>))"
  have mine: "mine = []"
    using view init unfolding role_view_def by simp
  have m1: "mInitializationDone m1" "mOtherRoleNumber m1 = mOtherRoleNumber m"
    unfolding m1_def by (simp_all add: negotiateRole_def)
  note first = role_view_first [OF view init r(1), folded m1_def]
  show ?thesis
  proof (cases "mOtherRoleNumber m = - 1")
    case True
    then have "snd res = m1" "role_numbers (fst res) = [genRandomNumber r1]"
      using init unfolding res_def m1_def by (simp_all add: endInitialization_def negotiateRole_def Let_def)
    then show ?thesis
      using first True init mine by (auto simp: stored_def)
  next
    case False
    then have "snd res = snd (onNegotiateRole r2 (mOtherRoleNumber m) m1)"
      "role_numbers (fst res) = [genRandomNumber r1] @ role_numbers (fst (onNegotiateRole r2 (mOtherRoleNumber m) m1))"
      using init unfolding res_def m1_def
      by (simp_all add: endInitialization_def negotiateRole_def Let_def split: prod.splits)
    moreover have "role_view [genRandomNumber r1] 0 theirs m1 (mOtherRoleNumber m # inbox)"
      using first False init by (simp add: stored_def)
    ultimately show ?thesis
      using role_view_compare [OF _ m1(1) _ r(2)] mine by fastforce
  qed
qed

section \<open>Both managers\<close>

definition role_views :: "(bool \<Rightarrow> u32 list) \<Rightarrow> (bool \<Rightarrow> nat) \<Rightarrow> role_system \<Rightarrow> bool" where
  "role_views S k s \<longleftrightarrow> (\<forall>d. role_view (S d) (k d) (S (\<not> d)) (manager s d) (coming s d))"

definition role_inv :: "role_system \<Rightarrow> bool" where
  "role_inv s \<longleftrightarrow> (\<exists>S k. role_views S k s)"

lemma role_views_both:
  assumes "role_views S k s"
  shows "role_view (S d) (k d) (S (\<not> d)) (manager s d) (coming s d)"
    and "role_view (S (\<not> d)) (k (\<not> d)) (S d) (manager s (\<not> d)) (coming s (\<not> d))"
  using assms [unfolded role_views_def, rule_format, of d] assms [unfolded role_views_def, rule_format, of "\<not> d"] by simp_all

lemma role_views_does:
  assumes views: "role_views S k s"
    and own: "role_view (S d @ role_numbers (fst r)) k' (S (\<not> d)) (snd r) inbox"
  shows "role_inv (manager_does d r (s\<lparr>coming := (coming s)(d := inbox)\<rparr>))"
proof -
  let ?s = "manager_does d r (s\<lparr>coming := (coming s)(d := inbox)\<rparr>)"
  have "role_view (S (\<not> d)) (k (\<not> d)) (S d @ role_numbers (fst r)) (manager s (\<not> d)) (coming s (\<not> d) @ role_numbers (fst r))"
    using role_view_longer [OF role_views_both(2) [OF views]] .
  then have "role_views (S(d := S d @ role_numbers (fst r))) (k(d := k')) ?s"
    using own unfolding role_views_def manager_does_def by (cases d) (auto simp: all_bool_eq)
  then show ?thesis
    unfolding role_inv_def by blast
qed

lemma role_views_does_quietly:
  assumes "role_views S k s" and "role_view (S d @ role_numbers (fst r)) k' (S (\<not> d)) (snd r) (coming s d)"
  shows "role_inv (manager_does d r s)"
  using role_views_does [OF assms] by simp

lemma role_views_bounds:
  assumes "role_views S k s"
  shows "length (S d) \<le> Suc (length (S (\<not> d)))" and "- 1 \<notin> set (S d)"
proof -
  have "length (S d) \<le> Suc (k d)" "k d \<le> length (S (\<not> d))"
    using assms unfolding role_views_def role_view_def by blast+
  then show "length (S d) \<le> Suc (length (S (\<not> d)))"
    by simp
  show "- 1 \<notin> set (S d)"
    using assms unfolding role_views_def role_view_def by blast
qed

text \<open>A manager whose role is decided gets no further number.\<close>

lemma undecided_when_number_comes:
  assumes views: "role_views S k s" and "coming s d = n # ns" and init: "mInitializationDone (manager s d)"
  shows "k d < length (S d)"
proof (rule ccontr)
  assume "\<not> k d < length (S d)"
  moreover have own: "role_view (S d) (k d) (S (\<not> d)) (manager s d) (n # ns)"
    using role_views_both(1) [OF views, of d] assms(2) by simp
  ultimately have k: "k d = length (S d)" "S d \<noteq> []" "last (S d) \<noteq> S (\<not> d) ! (k d - 1)"
    "drop (k d) (S (\<not> d)) = n # ns"
    using init unfolding role_view_def stored_def by auto
  then have "k d < length (S (\<not> d))"
    by (metis drop_all list.distinct(1) not_le)
  moreover have "\<And>i. Suc i < length (S (\<not> d)) \<Longrightarrow> S (\<not> d) ! i = S d ! i"
    using role_views_both(2) [OF views, of d] unfolding role_view_def by blast
  moreover have "0 < k d"
    using k by simp
  ultimately have "S (\<not> d) ! (k d - 1) = S d ! (k d - 1)"
    by simp
  then show False
    using k by (simp add: last_conv_nth)
qed

lemma role_step_inv:
  assumes "role_step s s'" and "role_inv s"
  shows "role_inv s'"
proof -
  from assms(2) obtain S k where views: "role_views S k s"
    unfolding role_inv_def by blast
  from assms(1) show ?thesis
  proof cases
    case (initialised d r1 r2 sc)
    then show ?thesis
      using role_view_init [OF role_views_both(1) [OF views, of d]] role_views_does_quietly [OF views] by metis
  next
    case (number_comes d n ns r)
    have view: "role_view (S d) (k d) (S (\<not> d)) (manager s d) (n # ns)"
      using role_views_both(1) [OF views, of d] number_comes by simp
    show ?thesis
    proof (cases "mInitializationDone (manager s d)")
      case True
      note few = undecided_when_number_comes [OF views number_comes(2) True]
      show ?thesis
        unfolding number_comes(1) by (rule role_views_does [OF views role_view_compare [OF view True few number_comes(3)]])
    next
      case False
      then have "S d = []"
        using view unfolding role_view_def by simp
      then have "length (S (\<not> d)) \<le> 1"
        using role_views_bounds(1) [OF views, of "\<not> d"] by simp
      then show ?thesis
        unfolding number_comes(1)
        by (rule role_views_does [OF views role_view_store [OF view False _ role_views_bounds(2) [OF views]]])
    qed
  next
    case (local_services d services)
    have "role_view (S d) (k d) (S (\<not> d)) (snd (onWaitingServicesRequest services (manager s d))) (coming s d)"
      by (rule role_view_services [OF role_views_both(1) [OF views]]) (simp_all add: onWaitingServicesRequest_def Let_def)
    then show ?thesis
      unfolding local_services
      by (intro role_views_does_quietly [OF views]) (simp add: onWaitingServicesRequest_def Let_def)
  next
    case (remote_services d services)
    have "role_view (S d) (k d) (S (\<not> d)) (snd (onRemoteWaitingServices services (manager s d))) (coming s d)"
      by (rule role_view_services [OF role_views_both(1) [OF views]]) (simp_all add: onRemoteWaitingServices_def Let_def)
    then show ?thesis
      unfolding remote_services
      by (intro role_views_does_quietly [OF views]) (simp add: onRemoteWaitingServices_def Let_def)
  qed
qed

lemma role_reach_inv: "role_reach s \<Longrightarrow> role_inv s"
proof (induction rule: role_reach.induct)
  case start
  have "role_views (\<lambda>_. []) (\<lambda>_. 0) roles_start"
    using role_view_new by (simp add: role_views_def roles_start_def)
  then show ?case
    unfolding role_inv_def by blast
qed (rule role_step_inv)

lemma role_view_quiet:
  assumes "role_view mine k theirs m []" and "mInitializationDone m"
  shows "k = length theirs" and "mine \<noteq> []"
proof -
  have "drop k theirs = []" "k \<le> length theirs"
    using assms unfolding role_view_def stored_def by simp_all
  then show "k = length theirs"
    by simp
  show "mine \<noteq> []"
    using assms unfolding role_view_def by simp
qed

definition decided_opposite :: "Role \<Rightarrow> Role \<Rightarrow> bool" where
  "decided_opposite a b \<longleftrightarrow> (a, b) \<in> {(PMP_ROLE_MASTER, PMP_ROLE_SLAVE), (PMP_ROLE_SLAVE, PMP_ROLE_MASTER)}"

lemma role_of_opposite: "x \<noteq> y \<Longrightarrow> decided_opposite (role_of x y) (role_of y x)"
  by (auto simp: decided_opposite_def role_of_def not_less order.strict_iff_order)

lemma compared_all_opposite:
  assumes views: "role_views S k s" and "k d = length (S d)" "k (\<not> d) = length (S (\<not> d))" and "S d \<noteq> []"
  shows "decided_opposite (mRole (manager s d)) (mRole (manager s (\<not> d)))"
proof -
  note both = role_views_both [OF views, of d]
  have len: "length (S (\<not> d)) = length (S d)"
    using both assms(2,3) unfolding role_view_def by simp
  then have ne: "S (\<not> d) \<noteq> []"
    using assms(4) by auto
  have last: "S d ! (k d - 1) = last (S d)" "S (\<not> d) ! (k d - 1) = last (S (\<not> d))" "k (\<not> d) = k d"
    using len ne assms by (simp_all add: last_conv_nth)
  have "mRole (manager s d) = role_of (last (S d)) (last (S (\<not> d)))" "last (S d) \<noteq> last (S (\<not> d))"
    using both(1) assms(2,4) last unfolding role_view_def by auto
  moreover have "mRole (manager s (\<not> d)) = role_of (last (S (\<not> d))) (last (S d))"
    using both(2) assms(3) ne last unfolding role_view_def by auto
  ultimately show ?thesis
    using role_of_opposite by simp
qed

text \<open>
  C22: two profile managers that both have a role have opposite ones, at every moment; and once both are initialised and no
  number is on its way, both have one: the exchange of random numbers, repeated while they are equal, elects one master whatever the order
  in which the two devices get ready.
\<close>

theorem roles_opposite:
  assumes "role_reach s"
    and "(mRole (manager s True) \<noteq> PMP_ROLE_NONE \<and> mRole (manager s False) \<noteq> PMP_ROLE_NONE)
      \<or> (\<forall>d. mInitializationDone (manager s d) \<and> coming s d = [])"
  shows "decided_opposite (mRole (manager s True)) (mRole (manager s False))"
proof -
  obtain S k where views: "role_views S k s"
    using role_reach_inv [OF assms(1)] unfolding role_inv_def by blast
  note both = role_views_both [OF views, of True, simplified]
  have "k True = length (S True) \<and> k False = length (S False) \<and> S True \<noteq> []"
    using assms(2)
  proof
    assume "mRole (manager s True) \<noteq> PMP_ROLE_NONE \<and> mRole (manager s False) \<noteq> PMP_ROLE_NONE"
    then show ?thesis
      using both unfolding role_view_def by metis
  next
    assume "\<forall>d. mInitializationDone (manager s d) \<and> coming s d = []"
    then have "k True = length (S False)" "k False = length (S True)" "S True \<noteq> []"
      using role_view_quiet both by metis+
    then show ?thesis
      using both unfolding role_view_def by simp
  qed
  then show ?thesis
    using compared_all_opposite [OF views, of True] by simp
qed

theorem roles_opposite_witness:
  "\<exists>s. role_reach s \<and> mRole (manager s True) = PMP_ROLE_SLAVE \<and> mRole (manager s False) = PMP_ROLE_MASTER
     \<and> decided_opposite (mRole (manager s True)) (mRole (manager s False))"
proof -
  define s1 where "s1 = manager_does True (endInitialization True False 4 4 (manager roles_start True)) roles_start"
  define s2 where "s2 = manager_does False (endInitialization True False 8 8 (manager s1 False)) s1"
  define s3 where "s3 = manager_does True (onNegotiateRole 1 9 (manager s2 True)) (s2\<lparr>coming := (coming s2)(True := [])\<rparr>)"
  define s4 where "s4 = manager_does False (onNegotiateRole 1 5 (manager s3 False)) (s3\<lparr>coming := (coming s3)(False := [])\<rparr>)"
  note eval = role_defs genRandomNumber_def roles_start_def PmpManager_new_def WaitingServiceManager_new_def checkWaitingServices_def
  have m1: "\<not> mInitializationDone (manager roles_start True)"
    by (simp add: eval)
  have m2: "\<not> mInitializationDone (manager s1 False)"
    by (simp add: s1_def eval)
  have c2: "coming s2 True = [9]" "coming s2 False = [5]"
    by (simp_all add: s2_def s1_def eval)
  have c3: "coming s3 False = [5]"
    using c2 by (simp add: s3_def s2_def s1_def eval)
  have "role_reach s1"
    unfolding s1_def by (rule role_reach.step [OF role_reach.start role_step.initialised [OF m1]]) simp_all
  then have "role_reach s2"
    unfolding s2_def by (rule role_reach.step [OF _ role_step.initialised [OF m2]]) simp_all
  then have "role_reach s3"
    unfolding s3_def by (rule role_reach.step [OF _ role_step.number_comes [OF c2(1)]]) simp_all
  then have r4: "role_reach s4"
    unfolding s4_def by (rule role_reach.step [OF _ role_step.number_comes [OF c3]]) simp_all
  have roles: "mRole (manager s4 True) = PMP_ROLE_SLAVE" "mRole (manager s4 False) = PMP_ROLE_MASTER"
    by (simp_all add: s4_def s3_def s2_def s1_def eval)
  then show ?thesis
    using roles_opposite [OF r4] r4 by (intro exI [of _ s4]) simp
qed

section \<open>The service of one device\<close>

text \<open>
  The master chooses among the services its own applications and those of the other device wait for: none of
  them has a smaller priority above 0 than the chosen one. It chooses none only when every priority is 0 or the largest number, and asks
  the application manager to load the chosen one when the devices have authenticated each other.
\<close>

theorem least_priority_service:
  assumes "startWaitingServiceRequest info True w = Some (acts, w')"
  shows "(best_choice info (offered w) (mServiceToStart w') \<or> mServiceToStart w' = '''' \<and> no_choice info (offered w))
    \<and> mStartRequest w'
    \<and> acts = (if mAuthenticationDone w \<and> mServiceToStart w' \<noteq> '''' then [WaitingServiceLoadRequest (mServiceToStart w')] else [])"
proof -
  obtain best p service where choice: "min_priority info (mLocalWaitingServices w) (- 1, '''') = Some best"
      "min_priority info (mRemoteWaitingServices w) best = Some (p, service)"
    and w': "w' = w\<lparr>mStartRequest := True, mServiceToStart := service\<rparr>" "acts = startWaitingServiceInAppLib w'"
    using assms by (auto simp: startWaitingServiceRequest_def Let_def split: bind_splits)
  show ?thesis
    using two_lists_choice [OF choice] unfolding w' offered_def by (simp add: startWaitingServiceInAppLib_def)
qed

theorem least_priority_service_witness:
  "startWaitingServiceRequest (\<lambda>u. Some \<lparr>si_priority = (if u = ''nav'' then 2 else 7), si_pairUid = u\<rparr>) True
     (WaitingServiceManager_new\<lparr>mLocalWaitingServices := [''media''], mRemoteWaitingServices := [''nav'']\<rparr>)
     = Some ([], WaitingServiceManager_new\<lparr>mLocalWaitingServices := [''media''], mRemoteWaitingServices := [''nav''],
                   mStartRequest := True, mServiceToStart := ''nav''\<rparr>)
   \<and> best_choice (\<lambda>u. Some \<lparr>si_priority = (if u = ''nav'' then 2 else 7), si_pairUid = u\<rparr>) {''media'', ''nav''} ''nav''"
  (is "?run = Some (_, ?w) \<and> _")
proof -
  have run: "?run = Some ([], ?w)"
    by (simp add: startWaitingServiceRequest_def startWaitingServiceInAppLib_def WaitingServiceManager_new_def Let_def)
  from least_priority_service [OF run] run show ?thesis
    by (simp add: offered_def WaitingServiceManager_new_def insert_commute)
qed

text \<open>A service that the master's repository does not know, its own or one the other device asks for, is read through a null pointer.\<close>

lemma min_priority_unknown: "x \<in> set services \<Longrightarrow> info x = None \<Longrightarrow> min_priority info services best = None"
  by (induction services arbitrary: best) (auto split: bind_splits)

text \<open>
  The process crashes when the other device waits for a service that this device's repository does not hold.
\<close>

theorem unknown_service_aborts:
  assumes "x \<in> offered w" and "info x = None"
  shows "startWaitingServiceRequest info True w = None"
proof (cases "x \<in> set (mLocalWaitingServices w)")
  case True
  then show ?thesis
    using assms(2) by (simp add: startWaitingServiceRequest_def min_priority_unknown)
next
  case False
  then have "x \<in> set (mRemoteWaitingServices w)"
    using assms(1) by (simp add: offered_def)
  then have "min_priority info (mRemoteWaitingServices w) best = None" for best
    using min_priority_unknown assms(2) by metis
  then show ?thesis
    by (simp add: startWaitingServiceRequest_def)
qed

theorem unknown_service_aborts_witness:
  "startWaitingServiceRequest Map.empty True (WaitingServiceManager_new\<lparr>mRemoteWaitingServices := [''nav'']\<rparr>) = None"
  by (rule unknown_service_aborts [of "''nav''"]) (simp_all add: offered_def)

text \<open>One device: its manager, the start events waiting in the event handler and the services asked to be loaded.\<close>

record session =
  sm :: PmpManager
  starts :: "bool list"
  loads :: "Uid list"

fun start_events :: "mgr_action list \<Rightarrow> bool list" where
  "start_events [] = []"
| "start_events (StartWaitingServiceEvent b # acts) = b # start_events acts"
| "start_events (_ # acts) = start_events acts"

fun load_requests :: "mgr_action list \<Rightarrow> Uid list" where
  "load_requests [] = []"
| "load_requests (WaitingServiceLoadRequest service # acts) = service # load_requests acts"
| "load_requests (_ # acts) = load_requests acts"

definition session_does :: "mgr_action list \<times> PmpManager \<Rightarrow> session \<Rightarrow> session" where
  "session_does r s = \<lparr>sm = snd r, starts = starts s @ start_events (fst r), loads = loads s @ load_requests (fst r)\<rparr>"

definition waiting_does :: "mgr_action list \<times> WaitingServiceManager \<Rightarrow> session \<Rightarrow> session" where
  "waiting_does r s = session_does (fst r, (sm s)\<lparr>mSessionManager := snd r\<rparr>) s"

inductive session_step :: "(Uid \<Rightarrow> ServiceInfo option) \<Rightarrow> session \<Rightarrow> session \<Rightarrow> bool" for info where
  s_init: "session_step info s (session_does (endInitialization ipc sc r1 r2 (sm s)) s)"
| s_number: "session_step info s (session_does (onNegotiateRole r n (sm s)) s)"
| s_local: "session_step info s (session_does (onWaitingServicesRequest services (sm s)) s)"
| s_remote: "session_step info s (session_does (onRemoteWaitingServices services (sm s)) s)"
| s_authenticated: "session_step info s (waiting_does (authenticationDone (mSessionManager (sm s))) s)"
| s_start: "starts s = b # rest \<Longrightarrow> startWaitingServiceRequest info b (mSessionManager (sm s)) = Some r \<Longrightarrow>
    session_step info s (waiting_does r (s\<lparr>starts := rest\<rparr>))"

inductive session_reach :: "(Uid \<Rightarrow> ServiceInfo option) \<Rightarrow> session \<Rightarrow> bool" for info where
  session_new: "session_reach info \<lparr>sm = PmpManager_new, starts = [], loads = []\<rparr>"
| session_next: "session_reach info s \<Longrightarrow> session_step info s s' \<Longrightarrow> session_reach info s'"

definition both_set :: "PmpManager \<Rightarrow> bool" where
  "both_set m \<longleftrightarrow> mSetLocalServices (mSessionManager m) \<and> mSetRemoteServices (mSessionManager m)"

definition session_inv :: "session \<Rightarrow> bool" where
  "session_inv s \<longleftrightarrow> (let w = mSessionManager (sm s) in
     (mRole (sm s) = PMP_ROLE_MASTER \<and> both_set (sm s) \<longrightarrow> True \<in> set (starts s) \<or> mStartRequest w) \<and>
     (mStartRequest w \<and> mAuthenticationDone w \<and> mServiceToStart w \<noteq> '''' \<longrightarrow> mServiceToStart w \<in> set (loads s)) \<and>
     (loads s \<noteq> [] \<longrightarrow> mAuthenticationDone w))"

lemmas session_defs = session_does_def waiting_does_def session_inv_def both_set_def startWaitingServiceInAppLib_def Let_def

lemma start_events_append [simp]: "start_events (xs @ ys) = start_events xs @ start_events ys"
  by (induction xs rule: start_events.induct) simp_all

lemma load_requests_append [simp]: "load_requests (xs @ ys) = load_requests xs @ load_requests ys"
  by (induction xs rule: load_requests.induct) simp_all

text \<open>What the manager does keeps the waiting services, or sets some of them and looks at both lists.\<close>

lemma session_inv_keeps:
  assumes "session_inv s" and "load_requests (fst r) = []"
    and "mStartRequest (mSessionManager (snd r)) = mStartRequest (mSessionManager (sm s))"
    and "mAuthenticationDone (mSessionManager (snd r)) = mAuthenticationDone (mSessionManager (sm s))"
    and "mServiceToStart (mSessionManager (snd r)) = mServiceToStart (mSessionManager (sm s))"
    and "(mRole (snd r) = mRole (sm s) \<and> both_set (snd r) = both_set (sm s))
      \<or> (mRole (snd r) = PMP_ROLE_MASTER \<and> both_set (snd r) \<longrightarrow> True \<in> set (start_events (fst r)))"
  shows "session_inv (session_does r s)"
  using assms unfolding session_inv_def session_does_def Let_def by auto

lemma checkWaitingServices_events [simp]:
  "load_requests (checkWaitingServices m) = []"
  "mRole m = PMP_ROLE_MASTER \<Longrightarrow> both_set m \<Longrightarrow> start_events (checkWaitingServices m) = [True]"
  by (simp_all add: checkWaitingServices_def both_set_def split: Role.splits)

lemma onNegotiateRole_keeps:
  "mSessionManager (snd (onNegotiateRole r n m)) = mSessionManager m"
  "load_requests (fst (onNegotiateRole r n m)) = []"
  "mRole (snd (onNegotiateRole r n m)) = mRole m
     \<or> (mRole (snd (onNegotiateRole r n m)) = PMP_ROLE_MASTER \<and> both_set m \<longrightarrow> True \<in> set (start_events (fst (onNegotiateRole r n m))))"
  by (auto simp: onNegotiateRole_def negotiateRole_def both_set_def Let_def)

lemma endInitialization_keeps:
  "mSessionManager (snd (endInitialization ipc sc r1 r2 m)) = mSessionManager m"
  "load_requests (fst (endInitialization ipc sc r1 r2 m)) = []"
  "mRole (snd (endInitialization ipc sc r1 r2 m)) = mRole m
     \<or> (mRole (snd (endInitialization ipc sc r1 r2 m)) = PMP_ROLE_MASTER \<and> both_set m
        \<longrightarrow> True \<in> set (start_events (fst (endInitialization ipc sc r1 r2 m))))"
  using onNegotiateRole_keeps [of r2 "mOtherRoleNumber m" "snd (negotiateRole r1 (m\<lparr>mInitializationDone := True\<rparr>))"]
  by (auto simp: endInitialization_def negotiateRole_def both_set_def Let_def split: prod.splits)

lemma both_set_same: "mSessionManager m' = mSessionManager m \<Longrightarrow> both_set m' = both_set m"
  by (simp add: both_set_def)

lemma slave_request:
  "startWaitingServiceRequest info False w = Some (acts, w') \<Longrightarrow> w' = w \<and> load_requests acts = []"
  by (auto simp: startWaitingServiceRequest_def split: bind_splits)

lemma master_request:
  "startWaitingServiceRequest info True w = Some (acts, w') \<Longrightarrow>
     mStartRequest w' \<and> mAuthenticationDone w' = mAuthenticationDone w \<and> acts = startWaitingServiceInAppLib w'"
  by (auto simp: startWaitingServiceRequest_def Let_def split: bind_splits)

lemma session_step_inv:
  assumes "session_step info s s'" and "session_inv s"
  shows "session_inv s'"
  using assms(1)
proof cases
  case (s_init ipc sc r1 r2)
  then show ?thesis
    using session_inv_keeps [OF assms(2)] endInitialization_keeps both_set_same by metis
next
  case (s_number r n)
  then show ?thesis
    using session_inv_keeps [OF assms(2)] onNegotiateRole_keeps both_set_same by metis
next
  case (s_local services)
  have "mRole (snd (onWaitingServicesRequest services (sm s))) = PMP_ROLE_MASTER \<and> both_set (snd (onWaitingServicesRequest services (sm s)))
      \<longrightarrow> True \<in> set (start_events (fst (onWaitingServicesRequest services (sm s))))"
    by (simp add: onWaitingServicesRequest_def Let_def)
  then show ?thesis
    unfolding s_local
    by (intro session_inv_keeps [OF assms(2)]) (simp_all add: onWaitingServicesRequest_def setLocalWaitingServices_def Let_def)
next
  case (s_remote services)
  have "mRole (snd (onRemoteWaitingServices services (sm s))) = PMP_ROLE_MASTER \<and> both_set (snd (onRemoteWaitingServices services (sm s)))
      \<longrightarrow> True \<in> set (start_events (fst (onRemoteWaitingServices services (sm s))))"
    by (simp add: onRemoteWaitingServices_def Let_def)
  then show ?thesis
    unfolding s_remote
    by (intro session_inv_keeps [OF assms(2)]) (simp_all add: onRemoteWaitingServices_def setRemoteWaitingServices_def Let_def)
next
  case s_authenticated
  then show ?thesis
    using assms(2) by (auto simp: session_defs authenticationDone_def)
next
  case (s_start b rest r)
  show ?thesis
  proof (cases b)
    case True
    then show ?thesis
      using assms(2) s_start(1,2) master_request [of info "mSessionManager (sm s)" "fst r" "snd r"] s_start(3)
      by (auto simp: session_defs)
  next
    case False
    then show ?thesis
      using assms(2) s_start(1,2) slave_request [of info "mSessionManager (sm s)" "fst r" "snd r"] s_start(3)
      by (auto simp: session_defs)
  qed
qed

lemma session_reach_inv: "session_reach info s \<Longrightarrow> session_inv s"
proof (induction rule: session_reach.induct)
  case session_new
  show ?case
    by (simp add: session_defs PmpManager_new_def WaitingServiceManager_new_def)
qed (rule session_step_inv)

text \<open>
  Nothing is loaded before the devices have authenticated each other; and when they have, this device is the
  master, both lists of services have come and no start event is left, then the chosen service has been asked to be loaded, whatever the
  order in which all this happened.
\<close>

theorem waiting_service_loaded:
  assumes "session_reach info s"
  shows "(loads s \<noteq> [] \<longrightarrow> mAuthenticationDone (mSessionManager (sm s)))
    \<and> (starts s = [] \<and> mRole (sm s) = PMP_ROLE_MASTER \<and> both_set (sm s) \<and> mAuthenticationDone (mSessionManager (sm s)) \<longrightarrow>
        mStartRequest (mSessionManager (sm s))
        \<and> (mServiceToStart (mSessionManager (sm s)) \<in> {''''} \<union> set (loads s)))"
  using session_reach_inv [OF assms] unfolding session_inv_def Let_def by auto

theorem waiting_service_loaded_witness:
  defines "info \<equiv> \<lambda>u. Some \<lparr>si_priority = 3, si_pairUid = u\<rparr>"
  shows "\<exists>s. session_reach info s \<and> starts s = [] \<and> mRole (sm s) = PMP_ROLE_MASTER \<and> both_set (sm s)
    \<and> mServiceToStart (mSessionManager (sm s)) = ''nav'' \<and> ''nav'' \<in> {''''} \<union> set (loads s)"
proof -
  define s0 where "s0 = \<lparr>sm = PmpManager_new, starts = [], loads = []\<rparr>"
  define s1 where "s1 = session_does (onRemoteWaitingServices [''nav''] (sm s0)) s0"
  define s2 where "s2 = session_does (onWaitingServicesRequest [] (sm s1)) s1"
  define s3 where "s3 = session_does (endInitialization True False 8 8 (sm s2)) s2"
  define s4 where "s4 = session_does (onNegotiateRole 1 5 (sm s3)) s3"
  define s5 where "s5 = waiting_does (authenticationDone (mSessionManager (sm s4))) s4"
  define w where "w = (mSessionManager (sm s5))\<lparr>mStartRequest := True, mServiceToStart := ''nav''\<rparr>"
  define s6 where "s6 = waiting_does ([WaitingServiceLoadRequest ''nav''], w) (s5\<lparr>starts := []\<rparr>)"
  note eval = session_defs s0_def s1_def s2_def s3_def s4_def s5_def role_defs genRandomNumber_def PmpManager_new_def
    WaitingServiceManager_new_def checkWaitingServices_def onRemoteWaitingServices_def onWaitingServicesRequest_def
    setRemoteWaitingServices_def setLocalWaitingServices_def authenticationDone_def
  have s5: "starts s5 = [True]"
    by (simp add: eval)
  have run: "startWaitingServiceRequest info True (mSessionManager (sm s5)) = Some ([WaitingServiceLoadRequest ''nav''], w)"
    by (simp add: startWaitingServiceRequest_def w_def info_def eval)
  have "session_reach info s0"
    unfolding s0_def by (rule session_new)
  then have "session_reach info s5"
    unfolding s5_def s4_def s3_def s2_def s1_def
    by (intro session_next [OF _ s_authenticated] session_next [OF _ s_number] session_next [OF _ s_init]
        session_next [OF _ s_local] session_next [OF _ s_remote])
  then have reach: "session_reach info s6"
    unfolding s6_def by (rule session_next [OF _ s_start [OF s5 run]])
  have s6: "starts s6 = []" "mRole (sm s6) = PMP_ROLE_MASTER" "both_set (sm s6)" "mAuthenticationDone (mSessionManager (sm s6))"
    "mServiceToStart (mSessionManager (sm s6)) = ''nav''"
    by (simp_all add: s6_def w_def eval)
  show ?thesis
    using waiting_service_loaded [OF reach] s6 reach by (intro exI [of _ s6]) simp
qed

end
