(* ===== verification/IpcBuffers.thy ===== *)
theory IpcBuffers
  imports PmpFrames StdMap
begin

text \<open>
  The buffers in which the processes of one device marshal their calls (\<^verbatim>\<open>utils/ipc/helpers\<close>): \<^verbatim>\<open>CBufferWriter\<close> appends values to a
  buffer of fixed size, \<^verbatim>\<open>CBufferReader\<close> takes them from the bytes received. Identifiers are strings with their terminating zero
  (\<^verbatim>\<open>iviLink/include/common/BaseUid.hpp\<close>).
\<close>

section \<open>Writing\<close>

text \<open>
  The bytes written so far; \<^const>\<open>None\<close> is the only error, insufficient buffer size, after which no caller uses the buffer.
\<close>

type_synonym writer = "u8 list \<Rightarrow> u8 list option"

definition ipc_write_raw :: "nat \<Rightarrow> u8 list \<Rightarrow> writer" where
  "ipc_write_raw full bs out = (if length bs > full - length out then None else Some (out @ bs))"

definition ipc_write_u32 :: "endian \<Rightarrow> nat \<Rightarrow> u32 \<Rightarrow> writer" where
  "ipc_write_u32 e full n = ipc_write_raw full (store e 4 n)"

definition write_bool :: "nat \<Rightarrow> bool \<Rightarrow> writer" where
  "write_bool full b = ipc_write_raw full [if b then 1 else 0]"

definition getByteArray :: "Uid \<Rightarrow> u8 list \<times> u32" where
  "getByteArray u = (map byte_of u @ [0], of_nat (length u) + 1)"

definition write_uid :: "endian \<Rightarrow> nat \<Rightarrow> Uid \<Rightarrow> writer" where
  "write_uid e full val out =
     (case getByteArray val of (uid, uidSize) \<Rightarrow> do {
        out \<leftarrow> ipc_write_u32 e full uidSize out;
        ipc_write_raw full (take (unat uidSize) uid) out })"

definition ipc_write_string :: "endian \<Rightarrow> nat \<Rightarrow> string \<Rightarrow> writer" where
  "ipc_write_string e full val out =
     (let valSize = of_nat (length val) in do {
        out \<leftarrow> ipc_write_u32 e full valSize out;
        ipc_write_raw full (take (unat (valSize :: u32)) (map byte_of val)) out })"

definition ipc_write_pair :: "('a \<Rightarrow> writer) \<Rightarrow> ('b \<Rightarrow> writer) \<Rightarrow> 'a \<times> 'b \<Rightarrow> writer" where
  "ipc_write_pair w1 w2 val out = do { out \<leftarrow> w1 (fst val) out; w2 (snd val) out }"

fun write_each :: "('a \<Rightarrow> writer) \<Rightarrow> 'a list \<Rightarrow> writer" where
  "write_each w [] out = Some out"
| "write_each w (x # xs) out = do { out \<leftarrow> w x out; write_each w xs out }"

text \<open>The number of elements is written over the zero that was written first.\<close>

definition write_range :: "endian \<Rightarrow> nat \<Rightarrow> ('a \<Rightarrow> writer) \<Rightarrow> 'a list \<Rightarrow> writer" where
  "write_range e full w xs out = do {
     out' \<leftarrow> ipc_write_u32 e full 0 out;
     out' \<leftarrow> write_each w xs out';
     Some (overwrite (length out) (store e 4 (of_nat (length xs) :: u32)) out') }"

section \<open>Reading\<close>

text \<open>The value and the bytes that are left, the error, or undefined behaviour.\<close>

datatype 'a read_result = ReadOk 'a "u8 list" | ReadError | ReadUndefined

type_synonym 'a reader = "u8 list \<Rightarrow> 'a read_result"

fun then_read :: "'a read_result \<Rightarrow> ('a \<Rightarrow> 'b reader) \<Rightarrow> 'b read_result" where
  "then_read (ReadOk x rest) f = f x rest"
| "then_read ReadError f = ReadError"
| "then_read ReadUndefined f = ReadUndefined"

definition ipc_read_u32 :: "endian \<Rightarrow> u32 reader" where
  "ipc_read_u32 e bs = (if 4 > length bs then ReadError else ReadOk (load e (take 4 bs)) (drop 4 bs))"

definition read_bool :: "bool reader" where
  "read_bool bs = (if 1 > length bs then ReadError else ReadOk (hd bs \<noteq> 0) (tl bs))"

text \<open>\<^verbatim>\<open>fromByteArray\<close> reads the last byte, before the array when its size is 0, and takes the characters up to the first zero.\<close>

definition fromByteArray :: "u8 list \<Rightarrow> Uid reader" where
  "fromByteArray arr rest =
     (if arr = [] then ReadUndefined
      else if last arr \<noteq> 0 then ReadError
      else ReadOk (map char_of_byte (takeWhile (\<lambda>b. b \<noteq> 0) arr)) rest)"

definition read_uid :: "endian \<Rightarrow> Uid reader" where
  "read_uid e bs = then_read (ipc_read_u32 e bs) (\<lambda>uidSize rest.
     if unat uidSize > length rest then ReadError
     else fromByteArray (take (unat uidSize) rest) (drop (unat uidSize) rest))"

definition ipc_read_string :: "endian \<Rightarrow> string reader" where
  "ipc_read_string e bs = then_read (ipc_read_u32 e bs) (\<lambda>valSize rest.
     if unat valSize > length rest then ReadError
     else ReadOk (map char_of_byte (take (unat valSize) rest)) (drop (unat valSize) rest))"

definition ipc_read_pair :: "'a reader \<Rightarrow> 'b reader \<Rightarrow> ('a \<times> 'b) reader" where
  "ipc_read_pair r1 r2 bs = then_read (r1 bs) (\<lambda>x rest. then_read (r2 rest) (\<lambda>y rest. ReadOk (x, y) rest))"

text \<open>The loop of \<^verbatim>\<open>readContainer\<close> and \<^verbatim>\<open>readMap\<close>, which differ in what \<^verbatim>\<open>*result++\<close> does.\<close>

fun read_each :: "'a reader \<Rightarrow> ('a \<Rightarrow> 'c \<Rightarrow> 'c) \<Rightarrow> nat \<Rightarrow> 'c \<Rightarrow> 'c reader" where
  "read_each r insert_it 0 acc bs = ReadOk acc bs"
| "read_each r insert_it (Suc n) acc bs = then_read (r bs) (\<lambda>x rest. read_each r insert_it n (insert_it x acc) rest)"

definition readContainer :: "endian \<Rightarrow> 'a reader \<Rightarrow> 'a list reader" where
  "readContainer e r bs = then_read (ipc_read_u32 e bs) (\<lambda>count rest. read_each r (\<lambda>x xs. xs @ [x]) (unat count) [] rest)"

definition readMap :: "endian \<Rightarrow> 'k::linorder reader \<Rightarrow> 'v reader \<Rightarrow> ('k \<times> 'v) list reader" where
  "readMap e rk rv bs = then_read (ipc_read_u32 e bs) (\<lambda>count rest.
     read_each (ipc_read_pair rk rv) (\<lambda>(k, v). map_insert k v) (unat count) [] rest)"

section \<open>What is written is read\<close>

text \<open>
  A way to write values of a type and to read them: writing appends at least one byte inside the buffer, and reading these bytes, whatever
  follows them, gives the value.
\<close>

locale ipc_codec =
  fixes full :: nat
    and put :: "'a \<Rightarrow> writer"
    and get :: "'a reader"
    and valid :: "'a \<Rightarrow> bool"
  assumes put_appends: "put x out = Some out' \<Longrightarrow> \<exists>bs. out' = out @ bs \<and> bs \<noteq> [] \<and> length out' \<le> full"
    and get_put: "put x out = Some (out @ bs) \<Longrightarrow> valid x \<Longrightarrow> get (bs @ rest) = ReadOk x rest"
begin

lemma write_each_appends:
  "write_each put xs out = Some out' \<Longrightarrow> length out \<le> full \<Longrightarrow>
     \<exists>bs. out' = out @ bs \<and> length xs \<le> length bs \<and> length out' \<le> full"
proof (induction xs arbitrary: out)
  case (Cons x xs)
  from Cons.prems(1) obtain out1 where out1: "put x out = Some out1" "write_each put xs out1 = Some out'"
    by (auto split: bind_splits)
  obtain bs1 where bs1: "out1 = out @ bs1" "bs1 \<noteq> []" "length out1 \<le> full"
    using put_appends [OF out1(1)] by blast
  obtain bs2 where bs2: "out' = out1 @ bs2" "length xs \<le> length bs2" "length out' \<le> full"
    using Cons.IH [OF out1(2) bs1(3)] by blast
  show ?case
    using bs1 bs2 by (intro exI [of _ "bs1 @ bs2"]) (cases bs1; simp)
qed simp

lemma read_each_write_each:
  "write_each put xs out = Some (out @ bs) \<Longrightarrow> list_all valid xs \<Longrightarrow>
     read_each get ins (length xs) acc (bs @ rest) = ReadOk (fold ins xs acc) rest"
proof (induction xs arbitrary: out bs acc)
  case (Cons x xs)
  from Cons.prems(1) obtain out1 where out1: "put x out = Some out1" "write_each put xs out1 = Some (out @ bs)"
    by (auto split: bind_splits)
  obtain bs1 where bs1: "out1 = out @ bs1" "length out1 \<le> full"
    using put_appends [OF out1(1)] by blast
  obtain bs2 where bs2: "out @ bs = out1 @ bs2"
    using write_each_appends [OF out1(2) bs1(2)] by blast
  then have bs: "bs = bs1 @ bs2"
    using bs1 by simp
  have "get (bs1 @ (bs2 @ rest)) = ReadOk x (bs2 @ rest)"
    using get_put out1(1) bs1(1) Cons.prems(2) by simp
  moreover have "write_each put xs (out @ bs1) = Some ((out @ bs1) @ bs2)"
    using out1(2) bs1 bs by simp
  ultimately show ?case
    using Cons.IH [of "out @ bs1" bs2 "ins x acc"] Cons.prems(2) bs by simp
qed simp

lemma write_range_appends:
  assumes "write_range e full put xs out = Some out'"
  obtains bs where "out' = out @ store e 4 (of_nat (length xs) :: u32) @ bs" and "length xs \<le> length bs" and "length out' \<le> full"
    and "write_each put xs (out @ store e 4 (0 :: u32)) = Some ((out @ store e 4 (0 :: u32)) @ bs)"
proof -
  let ?zero = "store e 4 (0 :: u32)"
  obtain out2 where out2: "length (out @ ?zero) \<le> full" "write_each put xs (out @ ?zero) = Some out2"
    "out' = overwrite (length out) (store e 4 (of_nat (length xs) :: u32)) out2"
    using assms by (auto simp: write_range_def ipc_write_u32_def ipc_write_raw_def split: bind_splits if_splits)
  obtain bs where bs: "out2 = (out @ ?zero) @ bs" "length xs \<le> length bs" "length out2 \<le> full"
    using write_each_appends [OF out2(2,1)] by blast
  have "out' = out @ store e 4 (of_nat (length xs) :: u32) @ bs"
    unfolding out2(3) bs(1) by (simp add: overwrite_def)
  moreover have "length out' \<le> full"
    using bs(1,3) calculation by simp
  ultimately show thesis
    using that bs out2(2) by simp
qed

lemma count_fits:
  assumes "length xs \<le> length bs" and "out' = out @ store e 4 (n :: u32) @ bs" and "length out' \<le> full" and "full < 2 ^ 32"
  shows "unat (of_nat (length xs) :: u32) = length xs"
  using assms by (simp add: unsigned_of_nat take_bit_nat_eq_self)

lemma read_range:
  assumes "write_range e full put xs out = Some (out @ bs)" and "full < 2 ^ 32" and "list_all valid xs"
  shows "then_read (ipc_read_u32 e (bs @ rest)) (\<lambda>count rest. read_each get ins (unat count) acc rest) = ReadOk (fold ins xs acc) rest"
proof -
  obtain body where body: "out @ bs = out @ store e 4 (of_nat (length xs) :: u32) @ body" "length xs \<le> length body"
    "length (out @ bs) \<le> full" "write_each put xs (out @ store e 4 (0 :: u32)) = Some ((out @ store e 4 (0 :: u32)) @ body)"
    using write_range_appends [OF assms(1)] by blast
  have "unat (of_nat (length xs) :: u32) = length xs"
    by (rule count_fits [OF body(2,1,3) assms(2)])
  moreover have "ipc_read_u32 e (bs @ rest) = ReadOk (of_nat (length xs)) (body @ rest)"
    using body(1) by (simp add: ipc_read_u32_def load_store)
  ultimately show ?thesis
    using read_each_write_each [OF body(4) assms(3)] by simp
qed

lemma readContainer_write_range:
  assumes "write_range e full put xs out = Some (out @ bs)" and "full < 2 ^ 32" and "list_all valid xs"
  shows "readContainer e get (bs @ rest) = ReadOk xs rest"
proof -
  have "fold (\<lambda>x ys. ys @ [x]) xs acc = acc @ xs" for acc
    by (induction xs arbitrary: acc) simp_all
  then show ?thesis
    using read_range [OF assms, where ins = "\<lambda>x ys. ys @ [x]" and acc = "[]"] by (simp add: readContainer_def)
qed

end

lemma ipc_write_raw_Some: "ipc_write_raw full bs out = Some out' \<longleftrightarrow> length bs \<le> full - length out \<and> out' = out @ bs"
  by (auto simp: ipc_write_raw_def)

lemma ipc_write_raw_bind [simp]:
  "ipc_write_raw full bs out \<bind> f = Some y \<longleftrightarrow> length bs \<le> full - length out \<and> f (out @ bs) = Some y"
  by (auto simp: ipc_write_raw_def)

lemma store_not_Nil [simp]: "store e 4 n \<noteq> []"
  using length_store [of e 4 n] by (metis list.size(3) zero_neq_numeral)

lemma ipc_read_u32_store: "ipc_read_u32 e (store e 4 n @ rest) = ReadOk n rest"
  by (simp add: ipc_read_u32_def load_store)

text \<open>Identifiers without a zero inside, and any strings.\<close>

definition uid_ok :: "Uid \<Rightarrow> bool" where
  "uid_ok u \<longleftrightarrow> CHR 0x00 \<notin> set u"

lemma byte_of_zero: "byte_of c = 0 \<longleftrightarrow> c = CHR 0x00"
proof -
  have "char_of_byte 0 = CHR 0x00"
    by (simp add: char_of_byte_def char_of_def)
  then have "c = CHR 0x00" if "byte_of c = 0"
    using char_of_byte_of [of c] that by simp
  moreover have "byte_of (CHR 0x00) = 0"
    by (simp add: byte_of_def)
  ultimately show ?thesis
    by blast
qed

lemma takeWhile_uid:
  "uid_ok u \<Longrightarrow> takeWhile (\<lambda>b. b \<noteq> 0) (map byte_of u @ [0]) = map byte_of u"
  by (induction u) (auto simp: uid_ok_def byte_of_zero)

lemma write_uid_Some:
  "write_uid e full u out = Some out' \<longleftrightarrow>
     (let n = of_nat (length u) + 1 :: u32; bs = take (unat n) (map byte_of u @ [0])
      in 4 \<le> full - length out \<and> length bs \<le> full - (length out + 4) \<and> out' = out @ store e 4 n @ bs)"
  by (auto simp: write_uid_def getByteArray_def ipc_write_u32_def ipc_write_raw_Some Let_def)

lemma ipc_write_string_Some:
  "ipc_write_string e full s out = Some out' \<longleftrightarrow>
     (let n = of_nat (length s) :: u32; bs = take (unat n) (map byte_of s)
      in 4 \<le> full - length out \<and> length bs \<le> full - (length out + 4) \<and> out' = out @ store e 4 n @ bs)"
  by (auto simp: ipc_write_string_def ipc_write_u32_def ipc_write_raw_Some Let_def)

lemma write_read_uid:
  assumes "write_uid e full u out = Some (out @ bs)" and "uid_ok u" and "length u < 2 ^ 32 - 1"
  shows "read_uid e (bs @ rest) = ReadOk u rest"
proof -
  have n: "unat (of_nat (length u) + 1 :: u32) = length u + 1"
  proof -
    have "(of_nat (length u) + 1 :: u32) = of_nat (length u + 1)"
      by simp
    then show ?thesis
      using assms(3) by (simp only: unsigned_of_nat) (simp add: take_bit_nat_eq_self)
  qed
  have "bs = store e 4 (of_nat (length u) + 1 :: u32) @ map byte_of u @ [0]"
    using assms(1) by (simp add: write_uid_Some Let_def n)
  then show ?thesis
    using takeWhile_uid [OF assms(2)] by (simp add: read_uid_def ipc_read_u32_store n fromByteArray_def)
qed

lemma write_read_string:
  assumes "ipc_write_string e full s out = Some (out @ bs)" and "length s < 2 ^ 32"
  shows "ipc_read_string e (bs @ rest) = ReadOk s rest"
proof -
  have n: "unat (of_nat (length s) :: u32) = length s"
    using assms(2) by (simp add: unsigned_of_nat take_bit_nat_eq_self)
  have "bs = store e 4 (of_nat (length s) :: u32) @ map byte_of s"
    using assms(1) by (simp add: ipc_write_string_Some Let_def n)
  then show ?thesis
    by (simp add: ipc_read_string_def ipc_read_u32_store n)
qed

definition short_uid :: "Uid \<Rightarrow> bool" where
  "short_uid u \<longleftrightarrow> uid_ok u \<and> length u < 2 ^ 32 - 1"

definition short_string :: "string \<Rightarrow> bool" where
  "short_string s \<longleftrightarrow> length s < 2 ^ 32"

interpretation uid_codec: ipc_codec full "write_uid e full" "read_uid e" short_uid for full e
proof
  fix x out out'
  assume "write_uid e full x out = Some out'"
  then show "\<exists>bs. out' = out @ bs \<and> bs \<noteq> [] \<and> length out' \<le> full"
    by (auto simp: write_uid_Some Let_def)
qed (auto simp: short_uid_def intro: write_read_uid)

interpretation string_codec: ipc_codec full "ipc_write_string e full" "ipc_read_string e" short_string for full e
proof
  fix x out out'
  assume "ipc_write_string e full x out = Some out'"
  then show "\<exists>bs. out' = out @ bs \<and> bs \<noteq> [] \<and> length out' \<le> full"
    by (auto simp: ipc_write_string_Some Let_def)
qed (auto simp: short_string_def intro: write_read_string)

text \<open>A pair of a writer and reader for each component.\<close>

locale ipc_codec_pair = fst: ipc_codec full put1 get1 valid1 + snd: ipc_codec full put2 get2 valid2
  for full :: nat and put1 :: "'a \<Rightarrow> writer" and get1 :: "'a reader" and valid1 :: "'a \<Rightarrow> bool"
    and put2 :: "'b \<Rightarrow> writer" and get2 :: "'b reader" and valid2 :: "'b \<Rightarrow> bool"
begin

lemma ipc_write_pair_appends:
  assumes "ipc_write_pair put1 put2 x out = Some out'"
  obtains bs1 bs2 where "put1 (fst x) out = Some (out @ bs1)" and "put2 (snd x) (out @ bs1) = Some ((out @ bs1) @ bs2)"
    and "out' = out @ bs1 @ bs2" and "bs1 \<noteq> []" and "length out' \<le> full"
proof -
  obtain out1 where out1: "put1 (fst x) out = Some out1" "put2 (snd x) out1 = Some out'"
    using assms by (auto simp: ipc_write_pair_def split: bind_splits)
  obtain bs1 where bs1: "out1 = out @ bs1" "bs1 \<noteq> []"
    using fst.put_appends [OF out1(1)] by blast
  obtain bs2 where bs2: "out' = out1 @ bs2" "length out' \<le> full"
    using snd.put_appends [OF out1(2)] by blast
  show thesis
    using that [of bs1 bs2] out1 bs1 bs2 by simp
qed

end

sublocale ipc_codec_pair \<subseteq> pair: ipc_codec full "ipc_write_pair put1 put2" "ipc_read_pair get1 get2" "\<lambda>x. valid1 (fst x) \<and> valid2 (snd x)"
proof
  fix x out out'
  assume "ipc_write_pair put1 put2 x out = Some out'"
  then obtain bs1 bs2 where "out' = out @ bs1 @ bs2" "bs1 \<noteq> []" "length out' \<le> full"
    by (rule ipc_write_pair_appends)
  then show "\<exists>bs. out' = out @ bs \<and> bs \<noteq> [] \<and> length out' \<le> full"
    by blast
next
  fix x out bs rest
  assume put: "ipc_write_pair put1 put2 x out = Some (out @ bs)" and valid: "valid1 (fst x) \<and> valid2 (snd x)"
  obtain bs1 bs2 where bs: "put1 (fst x) out = Some (out @ bs1)" "put2 (snd x) (out @ bs1) = Some ((out @ bs1) @ bs2)"
    "out @ bs = out @ bs1 @ bs2"
    using ipc_write_pair_appends [OF put] by blast
  have "get1 (bs1 @ (bs2 @ rest)) = ReadOk (fst x) (bs2 @ rest)" "get2 (bs2 @ rest) = ReadOk (snd x) rest"
    using fst.get_put [OF bs(1)] snd.get_put [OF bs(2)] valid by blast+
  then show "ipc_read_pair get1 get2 (bs @ rest) = ReadOk x rest"
    using bs(3) by (simp add: ipc_read_pair_def)
qed

interpretation strings_codec:
  ipc_codec_pair full "ipc_write_string e full" "ipc_read_string e" short_string "ipc_write_string e full" "ipc_read_string e" short_string for full e
  by unfold_locales

lemma readMap_write_range:
  assumes "write_range e full (ipc_write_pair (ipc_write_string e full) (ipc_write_string e full)) m out = Some (out @ bs)"
    and "full < 2 ^ 32" and "list_all (\<lambda>kv. short_string (fst kv) \<and> short_string (snd kv)) m" and "map_sorted m"
  shows "readMap e (ipc_read_string e) (ipc_read_string e) (bs @ rest) = ReadOk m rest"
proof -
  have "fold (\<lambda>(k, v). map_insert k v) m acc = acc @ m" if "map_sorted (acc @ m)" for acc
    using that
  proof (induction m arbitrary: acc)
    case (Cons kv m)
    obtain k v where kv: "kv = (k, v)"
      by (cases kv)
    have "\<forall>j \<in> fst ` set acc. j < k"
      using Cons.prems unfolding kv map_sorted_def by (auto simp: sorted_wrt_append)
    then have "map_insert k v acc = acc @ [(k, v)]"
      by (induction acc) auto
    then show ?case
      using Cons.IH [of "acc @ [kv]"] Cons.prems kv by simp
  qed simp
  then show ?thesis
    using strings_codec.pair.read_range [OF assms(1-3), where ins = "\<lambda>(k, v). map_insert k v" and acc = "[]"] assms(4)
    by (simp add: readMap_def)
qed

end
