(* ===== verification/PmalFrames.thy ===== *)
theory PmalFrames
  imports IpcBuffers
begin

text \<open>
  The calls between an application and the profile manager of its device (\<^verbatim>\<open>messageProtocols/ProfileManager_ApplicationLibrary\<close>):
  \<^verbatim>\<open>CPMALIpcProtocol\<close> in the application, \<^verbatim>\<open>PmpIpcProtocol\<close> in the profile manager. Both live on one device, so numbers are in the
  byte order of the host. A message is what is passed to \<^verbatim>\<open>asyncRequest\<close>; \<^const>\<open>None\<close> is a call that returns false before.
\<close>

datatype pmal_request =
    PMAL_GeneratePIUID
  | PMAL_ReleasePIUID Uid
  | PMAL_CreateProfile Uid Uid Uid
  | PMAL_ProfileDied Uid
  | PMAL_DisableByUid Uid
  | PMAL_EnableByUid Uid
  | PMAL_EnableAll
  | PMAL_GetProfileLibPath Uid
  | PMAL_FindProfiles Uid "(string \<times> string) list" bool
  | PMAL_ReadyToServe Uid

datatype pmp_message =
    PMP_GeneratePIUID Uid
  | PMP_ProfileDied Uid
  | PMP_IncomingProfile Uid Uid Uid Uid
  | PMP_GetProfileLibPath string
  | PMP_FindProfiles "Uid list"

section \<open>Frames\<close>

text \<open>The buffer of 4096 bytes holds a header of 6; \<^verbatim>\<open>PmMessage\<close> is packed.\<close>

definition pm_room :: nat where
  "pm_room = 4096 - 6"

definition pm_message :: "endian \<Rightarrow> u16 \<Rightarrow> u8 list \<Rightarrow> u8 list" where
  "pm_message e type body = store e 2 type @ store e 4 (of_nat (length body) :: u32) @ body"

definition pm_send :: "endian \<Rightarrow> u16 \<Rightarrow> u8 list option \<Rightarrow> u8 list option" where
  "pm_send e type body = map_option (pm_message e type) body"

text \<open>Both receivers assert that the size in the header is the size received.\<close>

definition pm_receive :: "endian \<Rightarrow> u8 list \<Rightarrow> (u16 \<times> u8 list) option" where
  "pm_receive e bs =
     (if length bs < 6 then None
      else if unat (load e (take 4 (drop 2 bs)) :: u32) + 6 \<noteq> length bs then None
      else Some (load e (take 2 bs), drop 6 bs))"

text \<open>A read that fails ends the handler.\<close>

fun handled :: "'a read_result \<Rightarrow> 'a option option" where
  "handled (ReadOk x rest) = Some (Some x)"
| "handled ReadError = Some None"
| "handled ReadUndefined = None"

section \<open>Calls of the application\<close>

definition al_generatePIUID :: "endian \<Rightarrow> u8 list option" where
  "al_generatePIUID e = pm_send e 1 (Some [])"

definition al_releasePIUID :: "endian \<Rightarrow> Uid \<Rightarrow> u8 list option" where
  "al_releasePIUID e piuid = pm_send e 2 (write_uid e pm_room piuid [])"

definition al_createProfile :: "endian \<Rightarrow> Uid \<Rightarrow> Uid \<Rightarrow> Uid \<Rightarrow> u8 list option" where
  "al_createProfile e profileUid piuid sid = pm_send e 3 (do {
     out \<leftarrow> write_uid e pm_room profileUid [];
     out \<leftarrow> write_uid e pm_room piuid out;
     write_uid e pm_room sid out })"

definition al_profileDied :: "endian \<Rightarrow> Uid \<Rightarrow> u8 list option" where
  "al_profileDied e piuid = pm_send e 4 (write_uid e pm_room piuid [])"

definition al_disableByUid :: "endian \<Rightarrow> Uid \<Rightarrow> u8 list option" where
  "al_disableByUid e u = pm_send e 5 (write_uid e pm_room u [])"

definition al_enableByUid :: "endian \<Rightarrow> Uid \<Rightarrow> u8 list option" where
  "al_enableByUid e u = pm_send e 6 (write_uid e pm_room u [])"

definition al_enableAll :: "endian \<Rightarrow> u8 list option" where
  "al_enableAll e = pm_send e 7 (Some [])"

definition al_getProfileLibPath :: "endian \<Rightarrow> Uid \<Rightarrow> u8 list option" where
  "al_getProfileLibPath e u = pm_send e 8 (write_uid e pm_room u [])"

definition al_findProfiles :: "endian \<Rightarrow> Uid \<Rightarrow> (string \<times> string) list \<Rightarrow> bool \<Rightarrow> u8 list option" where
  "al_findProfiles e profileApiUid profileParameters enabledProfiles = pm_send e 9 (do {
     out \<leftarrow> write_uid e pm_room profileApiUid [];
     out \<leftarrow> write_range e pm_room (ipc_write_pair (ipc_write_string e pm_room) (ipc_write_string e pm_room)) profileParameters out;
     write_bool pm_room enabledProfiles out })"

definition al_readyToServe :: "endian \<Rightarrow> Uid \<Rightarrow> u8 list option" where
  "al_readyToServe e sesId = pm_send e 10 (write_uid e pm_room sesId [])"

fun al_request :: "endian \<Rightarrow> pmal_request \<Rightarrow> u8 list option" where
  "al_request e PMAL_GeneratePIUID = al_generatePIUID e"
| "al_request e (PMAL_ReleasePIUID piuid) = al_releasePIUID e piuid"
| "al_request e (PMAL_CreateProfile u piuid sid) = al_createProfile e u piuid sid"
| "al_request e (PMAL_ProfileDied piuid) = al_profileDied e piuid"
| "al_request e (PMAL_DisableByUid u) = al_disableByUid e u"
| "al_request e (PMAL_EnableByUid u) = al_enableByUid e u"
| "al_request e PMAL_EnableAll = al_enableAll e"
| "al_request e (PMAL_GetProfileLibPath u) = al_getProfileLibPath e u"
| "al_request e (PMAL_FindProfiles u params enabled) = al_findProfiles e u params enabled"
| "al_request e (PMAL_ReadyToServe sesId) = al_readyToServe e sesId"

section \<open>What the profile manager makes of them\<close>

definition processGeneratePIUIDRequest :: "pmal_request option option" where
  "processGeneratePIUIDRequest = Some (Some PMAL_GeneratePIUID)"

definition processReleasePIUIDRequest :: "endian \<Rightarrow> u8 list \<Rightarrow> pmal_request option option" where
  "processReleasePIUIDRequest e data = handled (then_read (read_uid e data) (\<lambda>piuid. ReadOk (PMAL_ReleasePIUID piuid)))"

definition processCreateProfileRequest :: "endian \<Rightarrow> u8 list \<Rightarrow> pmal_request option option" where
  "processCreateProfileRequest e data = handled (then_read (read_uid e data) (\<lambda>u rest.
     then_read (read_uid e rest) (\<lambda>piuid rest. then_read (read_uid e rest) (\<lambda>sid. ReadOk (PMAL_CreateProfile u piuid sid)))))"

definition pp_processProfileDiedRequest :: "endian \<Rightarrow> u8 list \<Rightarrow> pmal_request option option" where
  "pp_processProfileDiedRequest e data = handled (then_read (read_uid e data) (\<lambda>piuid. ReadOk (PMAL_ProfileDied piuid)))"

definition processDisableByUidRequest :: "endian \<Rightarrow> u8 list \<Rightarrow> pmal_request option option" where
  "processDisableByUidRequest e data = handled (then_read (read_uid e data) (\<lambda>u. ReadOk (PMAL_DisableByUid u)))"

definition processEnableByUidRequest :: "endian \<Rightarrow> u8 list \<Rightarrow> pmal_request option option" where
  "processEnableByUidRequest e data = handled (then_read (read_uid e data) (\<lambda>u. ReadOk (PMAL_EnableByUid u)))"

definition processEnableAllRequest :: "pmal_request option option" where
  "processEnableAllRequest = Some (Some PMAL_EnableAll)"

definition processGetProfileLibPathRequest :: "endian \<Rightarrow> u8 list \<Rightarrow> pmal_request option option" where
  "processGetProfileLibPathRequest e data = handled (then_read (read_uid e data) (\<lambda>u. ReadOk (PMAL_GetProfileLibPath u)))"

definition processFindProfilesRequest :: "endian \<Rightarrow> u8 list \<Rightarrow> pmal_request option option" where
  "processFindProfilesRequest e data = handled (then_read (read_uid e data) (\<lambda>u rest.
     then_read (readMap e (ipc_read_string e) (ipc_read_string e) rest) (\<lambda>params rest.
       then_read (read_bool rest) (\<lambda>enabled. ReadOk (PMAL_FindProfiles u params enabled)))))"

definition processReadyToServeRequest :: "endian \<Rightarrow> u8 list \<Rightarrow> pmal_request option option" where
  "processReadyToServeRequest e data = handled (then_read (read_uid e data) (\<lambda>sesUid. ReadOk (PMAL_ReadyToServe sesUid)))"

text \<open>The outer \<^const>\<open>None\<close> is a failed assertion or undefined behaviour, the inner one a message that is ignored.\<close>

definition pp_OnAsyncRequest :: "endian \<Rightarrow> u8 list \<Rightarrow> pmal_request option option" where
  "pp_OnAsyncRequest e payload = do {
     (type, data) \<leftarrow> pm_receive e payload;
     if type = 1 then processGeneratePIUIDRequest
     else if type = 2 then processReleasePIUIDRequest e data
     else if type = 3 then processCreateProfileRequest e data
     else if type = 4 then pp_processProfileDiedRequest e data
     else if type = 5 then processDisableByUidRequest e data
     else if type = 6 then processEnableByUidRequest e data
     else if type = 7 then processEnableAllRequest
     else if type = 8 then processGetProfileLibPathRequest e data
     else if type = 9 then processFindProfilesRequest e data
     else if type = 10 then processReadyToServeRequest e data
     else Some None }"

section \<open>Messages of the profile manager\<close>

definition pp_generatePIUidResponse :: "endian \<Rightarrow> Uid \<Rightarrow> u8 list option" where
  "pp_generatePIUidResponse e piuid = pm_send e 1 (write_uid e pm_room piuid [])"

definition pp_profileDied :: "endian \<Rightarrow> Uid \<Rightarrow> u8 list option" where
  "pp_profileDied e piuid = pm_send e 3 (write_uid e pm_room piuid [])"

definition pp_incomingProfile :: "endian \<Rightarrow> Uid \<Rightarrow> Uid \<Rightarrow> Uid \<Rightarrow> Uid \<Rightarrow> u8 list option" where
  "pp_incomingProfile e profileUid papiUid piuid serviceUID = pm_send e 4 (do {
     out \<leftarrow> write_uid e pm_room profileUid [];
     out \<leftarrow> write_uid e pm_room papiUid out;
     out \<leftarrow> write_uid e pm_room piuid out;
     write_uid e pm_room serviceUID out })"

definition pp_getProfileLibPathResponse :: "endian \<Rightarrow> string \<Rightarrow> u8 list option" where
  "pp_getProfileLibPathResponse e path = pm_send e 7 (ipc_write_string e pm_room path [])"

definition pp_findProfilesResponse :: "endian \<Rightarrow> Uid list \<Rightarrow> u8 list option" where
  "pp_findProfilesResponse e profiles = pm_send e 8 (write_range e pm_room (write_uid e pm_room) profiles [])"

fun pp_message :: "endian \<Rightarrow> pmp_message \<Rightarrow> u8 list option" where
  "pp_message e (PMP_GeneratePIUID piuid) = pp_generatePIUidResponse e piuid"
| "pp_message e (PMP_ProfileDied piuid) = pp_profileDied e piuid"
| "pp_message e (PMP_IncomingProfile u papiUid piuid sid) = pp_incomingProfile e u papiUid piuid sid"
| "pp_message e (PMP_GetProfileLibPath path) = pp_getProfileLibPathResponse e path"
| "pp_message e (PMP_FindProfiles profiles) = pp_findProfilesResponse e profiles"

definition al_processProfileDiedRequest :: "endian \<Rightarrow> u8 list \<Rightarrow> pmp_message option option" where
  "al_processProfileDiedRequest e data = handled (then_read (read_uid e data) (\<lambda>piuid. ReadOk (PMP_ProfileDied piuid)))"

definition processIncomingProfileRequest :: "endian \<Rightarrow> u8 list \<Rightarrow> pmp_message option option" where
  "processIncomingProfileRequest e data = handled (then_read (read_uid e data) (\<lambda>u rest. then_read (read_uid e rest) (\<lambda>papiUid rest.
     then_read (read_uid e rest) (\<lambda>piuid rest. then_read (read_uid e rest) (\<lambda>sid. ReadOk (PMP_IncomingProfile u papiUid piuid sid))))))"

definition processGeneratePIUidResponse :: "endian \<Rightarrow> u8 list \<Rightarrow> pmp_message option option" where
  "processGeneratePIUidResponse e data =
     (if data = [] then Some None else handled (then_read (read_uid e data) (\<lambda>piuid. ReadOk (PMP_GeneratePIUID piuid))))"

definition processGetProfileLibPathResponse :: "endian \<Rightarrow> u8 list \<Rightarrow> pmp_message option option" where
  "processGetProfileLibPathResponse e data =
     (if data = [] then Some None else handled (then_read (ipc_read_string e data) (\<lambda>path. ReadOk (PMP_GetProfileLibPath path))))"

definition processFindProfilesResponse :: "endian \<Rightarrow> u8 list \<Rightarrow> pmp_message option option" where
  "processFindProfilesResponse e data =
     (if data = [] then Some None
      else handled (then_read (readContainer e (read_uid e) data) (\<lambda>profiles. ReadOk (PMP_FindProfiles profiles))))"

definition al_OnAsyncRequest :: "endian \<Rightarrow> u8 list \<Rightarrow> pmp_message option option" where
  "al_OnAsyncRequest e payload = do {
     (type, data) \<leftarrow> pm_receive e payload;
     if type = 3 then al_processProfileDiedRequest e data
     else if type = 4 then processIncomingProfileRequest e data
     else if type = 1 then processGeneratePIUidResponse e data
     else if type = 7 then processGetProfileLibPathResponse e data
     else if type = 8 then processFindProfilesResponse e data
     else Some None }"

section \<open>Calls arrive as they were made\<close>

context ipc_codec
begin

lemma put_then_get:
  assumes "put x out = Some out'" and "valid x"
  obtains bs where "out' = out @ bs" and "\<And>rest. get (bs @ rest) = ReadOk x rest" and "get bs = ReadOk x []" and "bs \<noteq> []"
    and "length out' \<le> full"
proof -
  obtain bs where bs: "out' = out @ bs" "bs \<noteq> []" "length out' \<le> full"
    using put_appends [OF assms(1)] by blast
  have "get (bs @ rest) = ReadOk x rest" for rest
    using get_put [of x out bs rest] assms bs(1) by simp
  then show thesis
    using that [OF bs(1)] bs by (metis append_Nil2)
qed

end

lemma pm_send_Some: "pm_send e t body = Some bytes \<longleftrightarrow> (\<exists>data. body = Some data \<and> bytes = pm_message e t data)"
  by (auto simp: pm_send_def)

lemma pm_receive_message:
  "length body \<le> pm_room \<Longrightarrow> pm_receive e (pm_message e t body) = Some (t, body)"
proof -
  assume "length body \<le> pm_room"
  then have "unat (of_nat (length body) :: u32) = length body"
    by (simp add: pm_room_def unsigned_of_nat take_bit_nat_eq_self)
  then show ?thesis
    by (simp add: pm_receive_def pm_message_def load_store)
qed

definition pmal_ok :: "pmal_request \<Rightarrow> bool" where
  "pmal_ok req = (case req of
     PMAL_ReleasePIUID u \<Rightarrow> short_uid u
   | PMAL_CreateProfile u piuid sid \<Rightarrow> short_uid u \<and> short_uid piuid \<and> short_uid sid
   | PMAL_ProfileDied u \<Rightarrow> short_uid u
   | PMAL_DisableByUid u \<Rightarrow> short_uid u
   | PMAL_EnableByUid u \<Rightarrow> short_uid u
   | PMAL_GetProfileLibPath u \<Rightarrow> short_uid u
   | PMAL_FindProfiles u params enabled \<Rightarrow>
       short_uid u \<and> map_sorted params \<and> list_all (\<lambda>kv. short_string (fst kv) \<and> short_string (snd kv)) params
   | PMAL_ReadyToServe u \<Rightarrow> short_uid u
   | _ \<Rightarrow> True)"

definition pmp_ok :: "pmp_message \<Rightarrow> bool" where
  "pmp_ok msg = (case msg of
     PMP_GeneratePIUID u \<Rightarrow> short_uid u
   | PMP_ProfileDied u \<Rightarrow> short_uid u
   | PMP_IncomingProfile u papiUid piuid sid \<Rightarrow> short_uid u \<and> short_uid papiUid \<and> short_uid piuid \<and> short_uid sid
   | PMP_GetProfileLibPath path \<Rightarrow> short_string path
   | PMP_FindProfiles profiles \<Rightarrow> list_all short_uid profiles)"

text \<open>A message with one identifier, and which types of message are read that way.\<close>

lemma one_uid_message:
  assumes "pm_send e t (write_uid e pm_room u []) = Some bytes" and "short_uid u"
  obtains data where "pm_receive e bytes = Some (t, data)" and "read_uid e data = ReadOk u []" and "data \<noteq> []"
proof -
  obtain data where data: "write_uid e pm_room u [] = Some data" "bytes = pm_message e t data"
    using assms(1) by (auto simp: pm_send_Some)
  obtain bs where bs: "data = [] @ bs" "read_uid e bs = ReadOk u []" "bs \<noteq> []" "length data \<le> pm_room"
    using uid_codec.put_then_get [OF data(1) assms(2)] by blast
  show thesis
    using that [of data] pm_receive_message [OF bs(4)] bs data(2) by simp
qed

lemma createProfile_roundtrip:
  assumes "al_createProfile e u piuid sid = Some bytes" and "short_uid u" "short_uid piuid" "short_uid sid"
  shows "pp_OnAsyncRequest e bytes = Some (Some (PMAL_CreateProfile u piuid sid))"
proof -
  obtain o1 o2 data where w: "write_uid e pm_room u [] = Some o1" "write_uid e pm_room piuid o1 = Some o2"
    "write_uid e pm_room sid o2 = Some data" "bytes = pm_message e 3 data"
    using assms(1) by (auto simp: al_createProfile_def pm_send_Some split: bind_splits)
  obtain b1 where b1: "o1 = [] @ b1" "\<And>rest. read_uid e (b1 @ rest) = ReadOk u rest"
    using uid_codec.put_then_get [OF w(1) assms(2)] by blast
  obtain b2 where b2: "o2 = o1 @ b2" "\<And>rest. read_uid e (b2 @ rest) = ReadOk piuid rest"
    using uid_codec.put_then_get [OF w(2) assms(3)] by blast
  obtain b3 where b3: "data = o2 @ b3" "read_uid e b3 = ReadOk sid []" "length data \<le> pm_room"
    using uid_codec.put_then_get [OF w(3) assms(4)] by blast
  show ?thesis
    using pm_receive_message [OF b3(3)] b1 b2 b3 w(4)
    by (simp add: pp_OnAsyncRequest_def processCreateProfileRequest_def)
qed

lemma findProfiles_roundtrip:
  assumes "al_findProfiles e u params enabled = Some bytes" and "pmal_ok (PMAL_FindProfiles u params enabled)"
  shows "pp_OnAsyncRequest e bytes = Some (Some (PMAL_FindProfiles u params enabled))"
proof -
  let ?put = "ipc_write_pair (ipc_write_string e pm_room) (ipc_write_string e pm_room)"
  have ok: "short_uid u" "map_sorted params" "list_all (\<lambda>kv. short_string (fst kv) \<and> short_string (snd kv)) params"
    using assms(2) by (simp_all add: pmal_ok_def)
  obtain o1 o2 data where w: "write_uid e pm_room u [] = Some o1" "write_range e pm_room ?put params o1 = Some o2"
    "write_bool pm_room enabled o2 = Some data" "bytes = pm_message e 9 data"
    using assms(1) by (auto simp: al_findProfiles_def pm_send_Some split: bind_splits)
  obtain b1 where b1: "o1 = [] @ b1" "\<And>rest. read_uid e (b1 @ rest) = ReadOk u rest"
    using uid_codec.put_then_get [OF w(1) ok(1)] by blast
  obtain b2 where b2: "o2 = o1 @ b2"
    using strings_codec.pair.write_range_appends [OF w(2)] by (metis append.assoc)
  have read: "readMap e (ipc_read_string e) (ipc_read_string e) (b2 @ rest) = ReadOk params rest" for rest
    by (rule readMap_write_range [OF w(2) [unfolded b2] _ ok(3,2)]) (simp add: pm_room_def)
  have data: "data = o2 @ [if enabled then 1 else 0]" "length data \<le> pm_room"
    using w(3) by (auto simp: write_bool_def ipc_write_raw_def split: if_splits)
  show ?thesis
    using pm_receive_message [OF data(2)] b1 b2 read data(1) w(4)
    by (simp add: pp_OnAsyncRequest_def processFindProfilesRequest_def read_bool_def)
qed

lemma al_request_roundtrip:
  assumes "al_request e req = Some bytes" and "pmal_ok req"
  shows "pp_OnAsyncRequest e bytes = Some (Some req)"
proof (cases req)
  case PMAL_GeneratePIUID
  then show ?thesis
    using assms(1) by (auto simp: al_generatePIUID_def pm_send_Some pp_OnAsyncRequest_def pm_receive_message processGeneratePIUIDRequest_def)
next
  case (PMAL_ReleasePIUID u)
  then show ?thesis
    using assms by (auto simp: al_releasePIUID_def pmal_ok_def pp_OnAsyncRequest_def processReleasePIUIDRequest_def elim!: one_uid_message)
next
  case (PMAL_CreateProfile u piuid sid)
  then show ?thesis
    using assms createProfile_roundtrip by (simp add: pmal_ok_def)
next
  case (PMAL_ProfileDied u)
  then show ?thesis
    using assms by (auto simp: al_profileDied_def pmal_ok_def pp_OnAsyncRequest_def pp_processProfileDiedRequest_def elim!: one_uid_message)
next
  case (PMAL_DisableByUid u)
  then show ?thesis
    using assms by (auto simp: al_disableByUid_def pmal_ok_def pp_OnAsyncRequest_def processDisableByUidRequest_def elim!: one_uid_message)
next
  case (PMAL_EnableByUid u)
  then show ?thesis
    using assms by (auto simp: al_enableByUid_def pmal_ok_def pp_OnAsyncRequest_def processEnableByUidRequest_def elim!: one_uid_message)
next
  case PMAL_EnableAll
  then show ?thesis
    using assms(1) by (auto simp: al_enableAll_def pm_send_Some pp_OnAsyncRequest_def pm_receive_message processEnableAllRequest_def)
next
  case (PMAL_GetProfileLibPath u)
  then show ?thesis
    using assms
    by (auto simp: al_getProfileLibPath_def pmal_ok_def pp_OnAsyncRequest_def processGetProfileLibPathRequest_def elim!: one_uid_message)
next
  case (PMAL_FindProfiles u params enabled)
  then show ?thesis
    using assms findProfiles_roundtrip by simp
next
  case (PMAL_ReadyToServe u)
  then show ?thesis
    using assms by (auto simp: al_readyToServe_def pmal_ok_def pp_OnAsyncRequest_def processReadyToServeRequest_def elim!: one_uid_message)
qed

lemma incomingProfile_roundtrip:
  assumes "pp_incomingProfile e u papiUid piuid sid = Some bytes"
    and "short_uid u" "short_uid papiUid" "short_uid piuid" "short_uid sid"
  shows "al_OnAsyncRequest e bytes = Some (Some (PMP_IncomingProfile u papiUid piuid sid))"
proof -
  obtain o1 o2 o3 data where w: "write_uid e pm_room u [] = Some o1" "write_uid e pm_room papiUid o1 = Some o2"
    "write_uid e pm_room piuid o2 = Some o3" "write_uid e pm_room sid o3 = Some data" "bytes = pm_message e 4 data"
    using assms(1) by (auto simp: pp_incomingProfile_def pm_send_Some split: bind_splits)
  obtain b1 where b1: "o1 = [] @ b1" "\<And>rest. read_uid e (b1 @ rest) = ReadOk u rest"
    using uid_codec.put_then_get [OF w(1) assms(2)] by blast
  obtain b2 where b2: "o2 = o1 @ b2" "\<And>rest. read_uid e (b2 @ rest) = ReadOk papiUid rest"
    using uid_codec.put_then_get [OF w(2) assms(3)] by blast
  obtain b3 where b3: "o3 = o2 @ b3" "\<And>rest. read_uid e (b3 @ rest) = ReadOk piuid rest"
    using uid_codec.put_then_get [OF w(3) assms(4)] by blast
  obtain b4 where b4: "data = o3 @ b4" "read_uid e b4 = ReadOk sid []" "length data \<le> pm_room"
    using uid_codec.put_then_get [OF w(4) assms(5)] by blast
  show ?thesis
    using pm_receive_message [OF b4(3)] b1 b2 b3 b4 w(5)
    by (simp add: al_OnAsyncRequest_def processIncomingProfileRequest_def)
qed

lemma libPath_roundtrip:
  assumes "pp_getProfileLibPathResponse e path = Some bytes" and "short_string path"
  shows "al_OnAsyncRequest e bytes = Some (Some (PMP_GetProfileLibPath path))"
proof -
  obtain data where w: "ipc_write_string e pm_room path [] = Some data" "bytes = pm_message e 7 data"
    using assms(1) by (auto simp: pp_getProfileLibPathResponse_def pm_send_Some)
  obtain bs where bs: "data = [] @ bs" "ipc_read_string e bs = ReadOk path []" "bs \<noteq> []" "length data \<le> pm_room"
    using string_codec.put_then_get [OF w(1) assms(2)] by blast
  show ?thesis
    using pm_receive_message [OF bs(4)] bs w(2) by (simp add: al_OnAsyncRequest_def processGetProfileLibPathResponse_def)
qed

lemma profiles_roundtrip:
  assumes "pp_findProfilesResponse e profiles = Some bytes" and "list_all short_uid profiles"
  shows "al_OnAsyncRequest e bytes = Some (Some (PMP_FindProfiles profiles))"
proof -
  obtain data where w: "write_range e pm_room (write_uid e pm_room) profiles [] = Some data" "bytes = pm_message e 8 data"
    using assms(1) by (auto simp: pp_findProfilesResponse_def pm_send_Some)
  have read: "readContainer e (read_uid e) (data @ []) = ReadOk profiles []"
    by (rule uid_codec.readContainer_write_range [where out = "[]" and full = pm_room, OF _ _ assms(2)])
      (use w in \<open>simp_all add: pm_room_def\<close>)
  obtain bs where "data = [] @ store e 4 (of_nat (length profiles) :: u32) @ bs" "length data \<le> pm_room"
    using uid_codec.write_range_appends [OF w(1)] by blast
  then show ?thesis
    using read w(2) by (simp add: al_OnAsyncRequest_def pm_receive_message processFindProfilesResponse_def)
qed

lemma pp_message_roundtrip:
  assumes "pp_message e msg = Some bytes" and "pmp_ok msg"
  shows "al_OnAsyncRequest e bytes = Some (Some msg)"
proof (cases msg)
  case (PMP_GeneratePIUID u)
  then show ?thesis
    using assms
    by (auto simp: pp_generatePIUidResponse_def pmp_ok_def al_OnAsyncRequest_def processGeneratePIUidResponse_def elim!: one_uid_message)
next
  case (PMP_ProfileDied u)
  then show ?thesis
    using assms by (auto simp: pp_profileDied_def pmp_ok_def al_OnAsyncRequest_def al_processProfileDiedRequest_def elim!: one_uid_message)
qed (use assms incomingProfile_roundtrip libPath_roundtrip profiles_roundtrip in \<open>auto simp: pmp_ok_def\<close>)

text \<open>
  C25: every call of an application arrives in the profile manager with the arguments it was made with, and every
  message of the profile manager in the application, when the buffer has room for it: identifiers, paths, maps of parameters and
  lists of profiles of any length.
\<close>

theorem local_calls_roundtrip:
  assumes "pmal_ok req" and "pmp_ok msg"
  shows "(case al_request e req of Some bytes \<Rightarrow> pp_OnAsyncRequest e bytes = Some (Some req) | None \<Rightarrow> True)
    \<and> (case pp_message e msg of Some bytes \<Rightarrow> al_OnAsyncRequest e bytes = Some (Some msg) | None \<Rightarrow> True)"
  using al_request_roundtrip [OF _ assms(1)] pp_message_roundtrip [OF _ assms(2)] by (simp split: option.split)

theorem local_calls_roundtrip_witness:
  "\<exists>bytes. al_request BigEndian (PMAL_ReleasePIUID ''p1'') = Some bytes
     \<and> pp_OnAsyncRequest BigEndian bytes = Some (Some (PMAL_ReleasePIUID ''p1''))"
proof -
  have ok: "pmal_ok (PMAL_ReleasePIUID ''p1'')" "pmp_ok (PMP_ProfileDied ''p1'')"
    by (simp_all add: pmal_ok_def pmp_ok_def short_uid_def uid_ok_def)
  have "al_request BigEndian (PMAL_ReleasePIUID ''p1'') \<noteq> None"
    by (simp add: al_releasePIUID_def pm_send_def write_uid_Some pm_room_def write_uid_def getByteArray_def ipc_write_u32_def ipc_write_raw_def)
  then show ?thesis
    using local_calls_roundtrip [OF ok, of BigEndian] by auto
qed

section \<open>Sizes\<close>

lemma uid_size: "write_uid e pm_room u out = Some out' \<Longrightarrow> length out' \<le> pm_room"
  using uid_codec.put_appends by blast

lemma string_size: "ipc_write_string e pm_room s out = Some out' \<Longrightarrow> length out' \<le> pm_room"
  using string_codec.put_appends by blast

lemma pm_send_size:
  assumes "pm_send e t body = Some bytes" and "\<And>data. body = Some data \<Longrightarrow> length data \<le> pm_room"
  shows "length bytes \<le> 4096 \<and> (\<exists>data. pm_receive e bytes = Some (t, data))"
  using assms pm_receive_message by (fastforce simp: pm_send_Some pm_message_def pm_room_def)

lemma al_request_size:
  assumes "al_request e req = Some bytes"
  shows "length bytes \<le> 4096 \<and> (\<exists>t data. pm_receive e bytes = Some (t, data))"
proof -
  obtain t body where send: "pm_send e t body = Some bytes" "\<And>data. body = Some data \<Longrightarrow> length data \<le> pm_room"
  proof (cases req)
    case PMAL_GeneratePIUID
    then show thesis
      using assms that [of 1 "Some []"] by (simp add: al_generatePIUID_def)
  next
    case PMAL_EnableAll
    then show thesis
      using assms that [of 7 "Some []"] by (simp add: al_enableAll_def)
  next
    case (PMAL_CreateProfile u piuid sid)
    show thesis
      using assms unfolding PMAL_CreateProfile al_request.simps al_createProfile_def
      by (rule that) (auto intro: uid_size split: bind_splits)
  next
    case (PMAL_FindProfiles u params enabled)
    show thesis
      using assms unfolding PMAL_FindProfiles al_request.simps al_findProfiles_def
      by (rule that) (auto simp: write_bool_def ipc_write_raw_def split: bind_splits if_splits)
  qed (use assms that uid_size in \<open>auto simp: al_releasePIUID_def al_profileDied_def al_disableByUid_def al_enableByUid_def
      al_getProfileLibPath_def al_readyToServe_def\<close>)
  show ?thesis
    using pm_send_size [OF send] by blast
qed

lemma pp_message_size:
  assumes "pp_message e msg = Some bytes"
  shows "length bytes \<le> 4096 \<and> (\<exists>t data. pm_receive e bytes = Some (t, data))"
proof -
  obtain t body where send: "pm_send e t body = Some bytes" "\<And>data. body = Some data \<Longrightarrow> length data \<le> pm_room"
  proof (cases msg)
    case (PMP_IncomingProfile u papiUid piuid sid)
    show thesis
      using assms unfolding PMP_IncomingProfile pp_message.simps pp_incomingProfile_def
      by (rule that) (auto intro: uid_size split: bind_splits)
  next
    case (PMP_FindProfiles profiles)
    show thesis
      using assms unfolding PMP_FindProfiles pp_message.simps pp_findProfilesResponse_def
      by (rule that) (auto elim: uid_codec.write_range_appends)
  qed (use assms that uid_size string_size in \<open>auto simp: pp_generatePIUidResponse_def pp_profileDied_def pp_getProfileLibPathResponse_def\<close>)
  show ?thesis
    using pm_send_size [OF send] by blast
qed

text \<open>
  C30: whatever the sizes of the identifiers, texts, maps and lists, no call and no message exceeds the 4096 bytes that
  the receiving socket can hold, and none that is sent violates the receiver's assertion on its size.
\<close>

theorem local_calls_bounded:
  assumes "al_request e req = Some bytes \<or> pp_message e msg = Some bytes"
  shows "length bytes \<le> 4096 \<and> pm_receive e bytes \<noteq> None"
  using assms al_request_size pp_message_size by blast

theorem local_calls_bounded_witness:
  "\<exists>bytes. al_request LittleEndian (PMAL_ReleasePIUID ''p1'') = Some bytes \<and> length bytes \<le> 4096 \<and> pm_receive LittleEndian bytes \<noteq> None"
proof -
  obtain bytes where bytes: "al_request LittleEndian (PMAL_ReleasePIUID ''p1'') = Some bytes"
    by (simp add: al_releasePIUID_def pm_send_def write_uid_Some pm_room_def write_uid_def getByteArray_def ipc_write_u32_def ipc_write_raw_def)
  then show ?thesis
    using local_calls_bounded [OF disjI1 [OF bytes]] by blast
qed

text \<open>An identifier of size 0 makes the receiver read the byte before the identifier.\<close>

lemma empty_identifier_undefined:
  "length rest + 4 \<le> pm_room \<Longrightarrow> pp_OnAsyncRequest e (pm_message e 2 (store e 4 (0 :: u32) @ rest)) = None"
  by (simp add: pp_OnAsyncRequest_def pm_receive_message processReleasePIUIDRequest_def read_uid_def ipc_read_u32_store fromByteArray_def)

end
