(* ===== verification/PmalSync.thy ===== *)
theory PmalSync
  imports Prelude
begin

text \<open>
  The three synchronous calls of an application (\<^verbatim>\<open>generatePIUID\<close>, \<^verbatim>\<open>getProfileLibPath\<close>, \<^verbatim>\<open>findProfiles\<close> of \<^verbatim>\<open>CPMALIpcProtocol\<close>): the
  calling thread resets a result, sends the request, and waits ten seconds at most for a semaphore that the receiving thread signals
  with the answer. The buffer for the request stays locked until the call returns, so the calls of a process come one after the other.
\<close>

section \<open>One kind of call\<close>

text \<open>What \<^verbatim>\<open>SyncRequestsData\<close> holds for each of the three.\<close>

record 'a sync_slot =
  responseSem :: nat
  response :: 'a
  responseResult :: bool

definition sync_new :: "'a \<Rightarrow> 'a sync_slot" where
  "sync_new x = \<lparr>responseSem = 0, response = x, responseResult = False\<rparr>"

definition responseReset :: "'a sync_slot \<Rightarrow> 'a sync_slot" where
  "responseReset s = s\<lparr>responseResult := False\<rparr>"

text \<open>\<^verbatim>\<open>waitTimeout\<close> takes a signal, or gives up when the time is over; both end the same way.\<close>

definition waitTimeout_signal :: "'a sync_slot \<Rightarrow> 'a sync_slot option" where
  "waitTimeout_signal s = (if responseSem s = 0 then None else Some (s\<lparr>responseSem := responseSem s - 1\<rparr>))"

definition responseTake :: "'a sync_slot \<Rightarrow> bool \<times> 'a" where
  "responseTake s = (responseResult s, response s)"

text \<open>\<^verbatim>\<open>responseSignal\<close> writes the answer, then signals.\<close>

definition responseWrite :: "'a \<Rightarrow> 'a sync_slot \<Rightarrow> 'a sync_slot" where
  "responseWrite x s = s\<lparr>responseResult := True, response := x\<rparr>"

definition responsePost :: "'a sync_slot \<Rightarrow> 'a sync_slot" where
  "responsePost s = s\<lparr>responseSem := responseSem s + 1\<rparr>"

section \<open>The threads\<close>

datatype sync_pc = Idle | Reset_done | Waiting | Wait_over

text \<open>
  The requests are numbered; \<open>on_way\<close> are the numbers whose answers are still to come, in the order of the requests, and \<open>writing\<close> is
  the one whose answer is written and not signalled. \<open>timeouts\<close> counts the calls that gave up, \<open>lost\<close> the requests that are never answered.
\<close>

record 'a sync_system =
  slot :: "'a sync_slot"
  sync_pc :: sync_pc
  requests :: nat
  on_way :: "nat list"
  writing :: "nat option"
  timeouts :: nat
  lost :: nat
  returned :: "(bool \<times> 'a) list"

definition sync_start :: "'a \<Rightarrow> 'a sync_system" where
  "sync_start x = \<lparr>slot = sync_new x, sync_pc = Idle, requests = 0, on_way = [], writing = None, timeouts = 0, lost = 0, returned = []\<rparr>"

definition step_reset :: "'a sync_system \<Rightarrow> 'a sync_system" where
  "step_reset s = s\<lparr>slot := responseReset (slot s), sync_pc := Reset_done\<rparr>"

definition step_send :: "'a sync_system \<Rightarrow> 'a sync_system" where
  "step_send s = s\<lparr>sync_pc := Waiting, requests := requests s + 1, on_way := on_way s @ [requests s]\<rparr>"

definition step_timeout :: "'a sync_system \<Rightarrow> 'a sync_system" where
  "step_timeout s = s\<lparr>sync_pc := Wait_over, timeouts := timeouts s + 1\<rparr>"

definition step_return :: "'a sync_system \<Rightarrow> 'a sync_system" where
  "step_return s = s\<lparr>sync_pc := Idle, returned := returned s @ [responseTake (slot s)]\<rparr>"

definition step_write :: "(nat \<Rightarrow> 'a) \<Rightarrow> nat \<Rightarrow> nat list \<Rightarrow> 'a sync_system \<Rightarrow> 'a sync_system" where
  "step_write answer n ns s = s\<lparr>slot := responseWrite (answer n) (slot s), on_way := ns, writing := Some n\<rparr>"

definition step_post :: "'a sync_system \<Rightarrow> 'a sync_system" where
  "step_post s = s\<lparr>slot := responsePost (slot s), writing := None\<rparr>"

inductive sync_step :: "(nat \<Rightarrow> 'a) \<Rightarrow> 'a sync_system \<Rightarrow> 'a sync_system \<Rightarrow> bool" for answer where
  reset: "sync_pc s = Idle \<Longrightarrow> sync_step answer s (step_reset s)"
| send: "sync_pc s = Reset_done \<Longrightarrow> sync_step answer s (step_send s)"
| not_sent: "sync_pc s = Reset_done \<Longrightarrow> sync_step answer s (s\<lparr>sync_pc := Idle\<rparr>)"
| signalled: "sync_pc s = Waiting \<Longrightarrow> waitTimeout_signal (slot s) = Some t \<Longrightarrow> sync_step answer s (s\<lparr>slot := t, sync_pc := Wait_over\<rparr>)"
| timed_out: "sync_pc s = Waiting \<Longrightarrow> responseSem (slot s) = 0 \<Longrightarrow> sync_step answer s (step_timeout s)"
| return: "sync_pc s = Wait_over \<Longrightarrow> sync_step answer s (step_return s)"
| arrive: "on_way s = n # ns \<Longrightarrow> writing s = None \<Longrightarrow> sync_step answer s (step_write answer n ns s)"
| post: "writing s = Some n \<Longrightarrow> sync_step answer s (step_post s)"
| unanswered: "on_way s = n # ns \<Longrightarrow> writing s = None \<Longrightarrow> sync_step answer s (s\<lparr>on_way := ns, lost := lost s + 1\<rparr>)"

inductive sync_reach :: "(nat \<Rightarrow> 'a) \<Rightarrow> 'a sync_system \<Rightarrow> bool" for answer where
  sync_init: "sync_reach answer (sync_start x)"
| sync_next: "sync_reach answer s \<Longrightarrow> sync_step answer s s' \<Longrightarrow> sync_reach answer s'"

lemmas sync_defs = sync_new_def responseReset_def waitTimeout_signal_def responseTake_def responseWrite_def responsePost_def
  sync_start_def step_reset_def step_send_def step_timeout_def step_return_def step_write_def step_post_def

section \<open>Signals and requests\<close>

text \<open>
  A signal is taken for every request but those that timed out; so as many signals stay behind as answers came to calls that had given up.
\<close>

definition sync_count :: "'a sync_system \<Rightarrow> bool" where
  "sync_count s \<longleftrightarrow>
     responseSem (slot s) + length (on_way s) + (if writing s = None then 0 else 1) + lost s
       = timeouts s + (if sync_pc s = Waiting then 1 else 0)"

lemma sync_step_count: "sync_step answer s s' \<Longrightarrow> sync_count s \<Longrightarrow> sync_count s'"
  by (induction rule: sync_step.induct) (auto simp: sync_count_def sync_defs split: if_splits)

lemma sync_reach_count: "sync_reach answer s \<Longrightarrow> sync_count s"
proof (induction rule: sync_reach.induct)
  case (sync_init x)
  show ?case
    by (simp add: sync_count_def sync_defs)
qed (rule sync_step_count)

text \<open>Without a timeout every call waits for its own answer.\<close>

definition sync_exact :: "(nat \<Rightarrow> 'a) \<Rightarrow> 'a sync_system \<Rightarrow> bool" where
  "sync_exact answer s \<longleftrightarrow>
     (timeouts s = 0 \<longrightarrow>
       returned s = map (\<lambda>i. (True, answer i)) [0..<length (returned s)] \<and>
       requests s = length (returned s) + (if sync_pc s \<in> {Waiting, Wait_over} then 1 else 0) \<and>
       set (on_way s) \<subseteq> {length (returned s)} \<and>
       (writing s \<noteq> None \<longrightarrow> writing s = Some (length (returned s))) \<and>
       (sync_pc s = Wait_over \<or> writing s \<noteq> None \<or> sync_pc s = Waiting \<and> responseSem (slot s) = 1 \<longrightarrow>
          responseTake (slot s) = (True, answer (length (returned s)))))"

lemma sync_step_exact:
  assumes "sync_step answer s s'" and "sync_count s" and "sync_exact answer s"
  shows "sync_exact answer s'"
  using assms
  by (induction rule: sync_step.induct) (auto simp: sync_exact_def sync_count_def sync_defs split: if_splits)

lemma sync_reach_exact: "sync_reach answer s \<Longrightarrow> sync_exact answer s"
proof (induction rule: sync_reach.induct)
  case (sync_init x)
  show ?case
    by (simp add: sync_exact_def sync_defs)
next
  case (sync_next s s')
  then show ?case
    using sync_step_exact sync_reach_count by blast
qed


lemma sync_run:
  assumes "sync_reach answer s" and "sync_pc s = Idle" and "on_way s = []" and "writing s = None"
  shows "sync_reach answer (step_send (step_reset s))" (is "sync_reach answer ?s2")
    and "sync_reach answer (step_post (step_write answer (requests s) [] (step_send (step_reset s))))"
proof -
  have "sync_reach answer (step_reset s)"
    using assms sync_step.reset by (intro sync_next [OF assms(1)])
  then show s2: "sync_reach answer ?s2"
    by (rule sync_next) (rule sync_step.send, simp add: step_reset_def)
  have "sync_reach answer (step_write answer (requests s) [] ?s2)"
    using s2 by (rule sync_next) (rule sync_step.arrive, simp_all add: sync_defs assms)
  then show "sync_reach answer (step_post (step_write answer (requests s) [] ?s2))"
    by (rule sync_next) (rule sync_step.post, simp add: step_write_def)
qed

lemma sync_take:
  assumes "sync_reach answer s" and "sync_pc s = Waiting" and "responseSem (slot s) \<noteq> 0"
  shows "sync_reach answer (step_return (s\<lparr>slot := (slot s)\<lparr>responseSem := responseSem (slot s) - 1\<rparr>, sync_pc := Wait_over\<rparr>))"
proof -
  have "sync_reach answer (s\<lparr>slot := (slot s)\<lparr>responseSem := responseSem (slot s) - 1\<rparr>, sync_pc := Wait_over\<rparr>)"
    using assms(1) by (rule sync_next) (rule sync_step.signalled [OF assms(2)], simp add: waitTimeout_signal_def assms(3))
  then show ?thesis
    by (rule sync_next) (rule sync_step.return, simp)
qed


text \<open>
  When an answer comes after its call has given up, its signal stays, and the next call returns true with the
  answer to the previous request, without waiting for its own.
\<close>

theorem late_answer_to_next_call:
  "\<exists>s. sync_reach answer s \<and> requests s = 2 \<and> returned s = [(False, x), (True, answer 0)] \<and> on_way s = [1]"
proof -
  define s1 where "s1 = step_return (step_timeout (step_send (step_reset (sync_start x))))"
  define s2 where "s2 = step_send (step_reset s1)"
  define s3 where "s3 = step_post (step_write answer 0 [1] s2)"
  define s4 where "s4 = step_return (s3\<lparr>slot := (slot s3)\<lparr>responseSem := responseSem (slot s3) - 1\<rparr>, sync_pc := Wait_over\<rparr>)"
  have "sync_reach answer (step_send (step_reset (sync_start x)))"
    by (rule sync_run(1) [OF sync_init]) (simp_all add: sync_start_def)
  then have "sync_reach answer (step_timeout (step_send (step_reset (sync_start x))))"
    by (rule sync_next) (rule sync_step.timed_out, simp_all add: sync_defs)
  then have r1: "sync_reach answer s1"
    unfolding s1_def by (rule sync_next) (rule sync_step.return, simp add: step_timeout_def)
  have "sync_reach answer (step_reset s1)"
    using r1 by (rule sync_next) (rule sync_step.reset, simp add: s1_def sync_defs)
  then have r2: "sync_reach answer s2"
    unfolding s2_def by (rule sync_next) (rule sync_step.send, simp add: step_reset_def)
  have "sync_reach answer (step_write answer 0 [1] s2)"
    using r2 by (rule sync_next) (rule sync_step.arrive, simp_all add: s2_def s1_def sync_defs)
  then have r3: "sync_reach answer s3"
    unfolding s3_def by (rule sync_next) (rule sync_step.post, simp add: step_write_def)
  have r4: "sync_reach answer s4"
    unfolding s4_def using r3 by (rule sync_take) (simp_all add: s3_def s2_def sync_defs)
  show ?thesis
    by (intro exI [of _ s4] conjI r4) (simp_all add: s4_def s3_def s2_def s1_def sync_defs)
qed

end
