(* ===== verification/AppPim.thy ===== *)
theory AppPim
  imports PmalFrames
begin

text \<open>
  The profile instances of an application (\<^verbatim>\<open>libraries/ApplicationLibrary/PMAL\<close>): the map of instances, the factory that loads profile
  libraries, the application's side of the profile manager's core, and \<^verbatim>\<open>CPIM\<close>. Objects live in a store at addresses, 0 being the null
  pointer; \<^const>\<open>None\<close> is a dereferenced pointer without an object, or a failed assertion.
\<close>

section \<open>Objects and state\<close>

record ProfileHolder =
  mProfileID :: Uid
  mSid :: Uid
  mApi :: Uid
  mIsEnabled :: bool
  mLockSet :: "nat set"

type_synonym ptr = nat

text \<open>\<open>pim_sent\<close> are the requests handed to the profile manager, \<open>lib_closed\<close> the libraries closed with \<^verbatim>\<open>dlclose\<close>, oldest first.\<close>

record CPIM =
  objects :: "ptr \<rightharpoonup> ProfileHolder"
  next_object :: ptr
  mProfileMap :: "(Uid \<times> ptr) list"
  mUidMap :: "ptr \<rightharpoonup> Uid"
  mIncomingPrfMap :: "((Uid \<times> Uid) \<times> Uid) list"
  mRemoteDiedProfiles :: "Uid set"
  gLibHandlesMap :: "Uid \<rightharpoonup> nat"
  lib_closed :: "nat list"
  pim_sent :: "pmal_request list"

definition CPIM_new :: CPIM where
  "CPIM_new = \<lparr>objects = Map.empty, next_object = 1, mProfileMap = [], mUidMap = Map.empty, mIncomingPrfMap = [],
     mRemoteDiedProfiles = {}, gLibHandlesMap = Map.empty, lib_closed = [], pim_sent = []\<rparr>"

text \<open>
  What the surroundings do during one load: the profiles the profile manager finds, the path it knows and the identifier it generates
  (\<^const>\<open>None\<close> when the call fails), the handle \<^verbatim>\<open>dlopen\<close> returns, what the library's \<^verbatim>\<open>createProfile\<close> makes (the API of the instance and
  whether it reports no error; \<^const>\<open>None\<close> when there is no such function or it returns null), and whether \<^verbatim>\<open>createProfile\<close> is sent.
\<close>

record load_env =
  env_found :: "Uid list option"
  env_enabled :: "Uid list option"
  env_path :: "string option"
  env_piuid :: "Uid option"
  env_dlopen :: "nat option"
  env_create :: "(Uid \<times> bool) option"
  env_createProfile :: bool

definition ipc_send :: "pmal_request \<Rightarrow> CPIM \<Rightarrow> CPIM" where
  "ipc_send req p = p\<lparr>pim_sent := pim_sent p @ [req]\<rparr>"

abbreviation (input) ERROR_UNKNOWN_PROFILE_UID :: ErrorCode where "ERROR_UNKNOWN_PROFILE_UID \<equiv> 2"
abbreviation (input) ERROR_PIM_INTERNAL :: ErrorCode where "ERROR_PIM_INTERNAL \<equiv> 3"
abbreviation (input) ERROR_PROFILE_INIT :: ErrorCode where "ERROR_PROFILE_INIT \<equiv> 4"
abbreviation (input) ERROR_WRONG_PARAM :: ErrorCode where "ERROR_WRONG_PARAM \<equiv> 5"

section \<open>The map of instances\<close>

definition im_registerProfile :: "Uid \<Rightarrow> ptr \<Rightarrow> CPIM \<Rightarrow> bool \<times> CPIM" where
  "im_registerProfile profileUid pInstance p =
     (if pInstance = 0 then (False, p)
      else if map_of (mProfileMap p) profileUid \<noteq> None then (False, p)
      else (True, p\<lparr>mProfileMap := map_insert profileUid pInstance (mProfileMap p), mUidMap := (mUidMap p)(pInstance \<mapsto> profileUid)\<rparr>))"

definition im_unregisterProfile :: "ptr \<Rightarrow> CPIM \<Rightarrow> bool \<times> CPIM" where
  "im_unregisterProfile pInstance p =
     (if pInstance = 0 then (False, p)
      else case mUidMap p pInstance of
        None \<Rightarrow> (False, p)
      | Some u \<Rightarrow> (True, p\<lparr>mProfileMap := map_erase u (mProfileMap p), mUidMap := (mUidMap p)(pInstance := None)\<rparr>))"

definition im_find :: "Uid \<Rightarrow> CPIM \<Rightarrow> ptr option" where
  "im_find profileUid p = map_of (mProfileMap p) profileUid"

definition im_findUid :: "ptr \<Rightarrow> CPIM \<Rightarrow> Uid option" where
  "im_findUid pInstance p = mUidMap p pInstance"

definition im_isKnown :: "Uid \<Rightarrow> CPIM \<Rightarrow> bool" where
  "im_isKnown profileUid p \<longleftrightarrow> map_of (mProfileMap p) profileUid \<noteq> None"

definition getAllRegisterd :: "CPIM \<Rightarrow> (Uid \<times> ptr) list" where
  "getAllRegisterd p = mProfileMap p"

section \<open>The factory\<close>

text \<open>
  The loop of \<^verbatim>\<open>std::mismatch\<close> on the reversed strings reads before the first character of a path that is itself an end of the extension.
\<close>

fun mismatch_end :: "string \<Rightarrow> string \<Rightarrow> bool option" where
  "mismatch_end toCheck [] = Some True"
| "mismatch_end [] (c # ending) = None"
| "mismatch_end (x # toCheck) (c # ending) = (if c = x then mismatch_end toCheck ending else Some False)"

definition stringEndsWith :: "string \<Rightarrow> string \<Rightarrow> bool option" where
  "stringEndsWith toCheck potentialEnding = mismatch_end (rev toCheck) (rev potentialEnding)"

definition unloadProfileLib :: "Uid \<Rightarrow> CPIM \<Rightarrow> CPIM" where
  "unloadProfileLib piuid p =
     (case gLibHandlesMap p piuid of None \<Rightarrow> p | Some handle \<Rightarrow> p\<lparr>lib_closed := lib_closed p @ [handle]\<rparr>)"

definition getObject :: "load_env \<Rightarrow> Uid \<Rightarrow> Uid \<Rightarrow> CPIM \<Rightarrow> ptr \<times> CPIM" where
  "getObject env piuid sid p =
     (case env_create env of
        None \<Rightarrow> (0, p)
      | Some (api, _) \<Rightarrow>
          (next_object p, p\<lparr>next_object := next_object p + 1, objects := (objects p)(next_object p \<mapsto>
             \<lparr>mProfileID = piuid, mSid = sid, mApi = api, mIsEnabled = False, mLockSet = {}\<rparr>)\<rparr>))"

text \<open>The address of the new object, or 0 with an error; the build is not for Android, where Java profiles exist.\<close>

definition createProfileImpl :: "load_env \<Rightarrow> string \<Rightarrow> Uid \<Rightarrow> Uid \<Rightarrow> CPIM \<Rightarrow> (ptr \<times> CPIM) option" where
  "createProfileImpl env path piuid sid p = do {
     so \<leftarrow> stringEndsWith path ''so'';
     if so then
       (case env_dlopen env of
          None \<Rightarrow> Some (0, p)
        | Some handle \<Rightarrow>
            (let (obj, p) = getObject env piuid sid (p\<lparr>gLibHandlesMap := (gLibHandlesMap p)(piuid \<mapsto> handle)\<rparr>)
             in if obj = 0 then Some (0, unloadProfileLib piuid p) else Some (obj, p)))
     else do {
       _ \<leftarrow> stringEndsWith path ''jar'';
       Some (0, p) } }"

definition destroy :: "ptr \<Rightarrow> CPIM \<Rightarrow> CPIM option" where
  "destroy obj p = (if objects p obj = None then None else Some (p\<lparr>objects := (objects p)(obj := None)\<rparr>))"

definition setEnabled :: "bool \<Rightarrow> ptr \<Rightarrow> CPIM \<Rightarrow> CPIM option" where
  "setEnabled value obj p = do {
     ob \<leftarrow> objects p obj;
     Some (p\<lparr>objects := (objects p)(obj \<mapsto> ob\<lparr>mIsEnabled := value\<rparr>)\<rparr>) }"

section \<open>The core and CPIM\<close>

definition isEnabledProfile :: "load_env \<Rightarrow> Uid \<Rightarrow> CPIM \<Rightarrow> bool option \<times> CPIM" where
  "isEnabledProfile env profileUid p =
     (map_option (\<lambda>profiles. profiles \<noteq> []) (env_enabled env), ipc_send (PMAL_FindProfiles profileUid [] True) p)"

text \<open>The first instance announced for the service and the profile, else a new identifier of the profile manager.\<close>

fun take_incoming :: "Uid \<times> Uid \<Rightarrow> ((Uid \<times> Uid) \<times> Uid) list \<Rightarrow> (Uid \<times> ((Uid \<times> Uid) \<times> Uid) list) option" where
  "take_incoming k [] = None"
| "take_incoming k ((k', piuid) # m) =
     (if k' = k then Some (piuid, m) else map_option (\<lambda>(u, m). (u, (k', piuid) # m)) (take_incoming k m))"

definition pim_generatePIUID :: "load_env \<Rightarrow> Uid \<Rightarrow> Uid \<Rightarrow> CPIM \<Rightarrow> Uid option \<times> CPIM" where
  "pim_generatePIUID env profileUid serviceUID p =
     (case take_incoming (serviceUID, profileUid) (mIncomingPrfMap p) of
        Some (piuid, m) \<Rightarrow> (Some piuid, p\<lparr>mIncomingPrfMap := m\<rparr>)
      | None \<Rightarrow> (env_piuid env, ipc_send PMAL_GeneratePIUID p))"

definition loadProfile_object :: "load_env \<Rightarrow> string \<Rightarrow> Uid \<Rightarrow> Uid \<Rightarrow> Uid \<Rightarrow> CPIM \<Rightarrow> (ErrorCode \<times> ptr \<times> CPIM) option" where
  "loadProfile_object env path profileUid sid piuid p = do {
     (obj, p) \<leftarrow> createProfileImpl env path piuid sid p;
     if obj = 0 then Some (ERROR_PIM_INTERNAL, 0, ipc_send (PMAL_ReleasePIUID piuid) p)
     else if \<not> (case env_create env of Some (_, ok) \<Rightarrow> ok | None \<Rightarrow> False) then do {
       p \<leftarrow> destroy obj (ipc_send (PMAL_ReleasePIUID piuid) p);
       Some (ERROR_PROFILE_INIT, 0, p) }
     else (case im_registerProfile piuid obj p of
         (False, p) \<Rightarrow> do { p \<leftarrow> destroy obj p; Some (ERROR_PIM_INTERNAL, 0, p) }
       | (True, p) \<Rightarrow>
           (let p = ipc_send (PMAL_CreateProfile profileUid piuid sid) p
            in if \<not> env_createProfile env then Some (ERROR_OTHER, 0, p)
               else do { p \<leftarrow> setEnabled True obj p; Some (NO_ERROR, obj, p) })) }"

definition loadProfile :: "load_env \<Rightarrow> Uid \<Rightarrow> Uid \<Rightarrow> CPIM \<Rightarrow> (ErrorCode \<times> ptr \<times> CPIM) option" where
  "loadProfile env profileUid sid p =
     (case isEnabledProfile env profileUid p of
        (None, p) \<Rightarrow> Some (ERROR_PIM_INTERNAL, 0, p)
      | (Some False, p) \<Rightarrow> Some (ERROR_UNKNOWN_PROFILE_UID, 0, p)
      | (Some True, p) \<Rightarrow>
          (let p = ipc_send (PMAL_GetProfileLibPath profileUid) p
           in case env_path env of
                None \<Rightarrow> Some (ERROR_UNKNOWN_PROFILE_UID, 0, p)
              | Some path \<Rightarrow>
                  (case pim_generatePIUID env profileUid sid p of
                     (None, p) \<Rightarrow> Some (ERROR_PIM_INTERNAL, 0, p)
                   | (Some piuid, p) \<Rightarrow> loadProfile_object env path profileUid sid piuid p)))"

text \<open>\<^verbatim>\<open>unloadProfile\<close> with an identifier, and the public one.\<close>

definition unloadProfile_known :: "Uid \<Rightarrow> ptr \<Rightarrow> CPIM \<Rightarrow> CPIM option" where
  "unloadProfile_known piuid obj p =
     (case im_unregisterProfile obj p of
        (False, p) \<Rightarrow> Some p
      | (True, p) \<Rightarrow> do {
          p \<leftarrow> setEnabled False obj p;
          let p = (if piuid \<in> mRemoteDiedProfiles p then p\<lparr>mRemoteDiedProfiles := mRemoteDiedProfiles p - {piuid}\<rparr>
                   else ipc_send (PMAL_ProfileDied piuid) p);
          p \<leftarrow> destroy obj (ipc_send (PMAL_ReleasePIUID piuid) p);
          Some (unloadProfileLib piuid p) })"

definition unloadProfile :: "ptr \<Rightarrow> CPIM \<Rightarrow> (ErrorCode \<times> CPIM) option" where
  "unloadProfile obj p =
     (case im_findUid obj p of
        None \<Rightarrow> Some (ERROR_WRONG_PARAM, p)
      | Some piuid \<Rightarrow> do { p \<leftarrow> unloadProfile_known piuid obj p; Some (NO_ERROR, p) })"

definition sessionRequest :: "Uid \<Rightarrow> CPIM \<Rightarrow> CPIM" where
  "sessionRequest session p = ipc_send (PMAL_ReadyToServe session) p"

section \<open>Instances are registered and alive\<close>

definition pim_ok :: "CPIM \<Rightarrow> bool" where
  "pim_ok p \<longleftrightarrow>
     0 < next_object p \<and> (\<forall>obj. objects p obj \<noteq> None \<longrightarrow> 0 < obj \<and> obj < next_object p) \<and>
     map_sorted (mProfileMap p) \<and>
     (\<forall>u obj. map_of (mProfileMap p) u = Some obj \<longleftrightarrow> mUidMap p obj = Some u) \<and>
     (\<forall>obj. mUidMap p obj = map_option mProfileID (objects p obj))"

lemma pim_ok_new: "pim_ok CPIM_new"
  by (simp add: pim_ok_def CPIM_new_def)

text \<open>What does not touch the objects and the two maps.\<close>

definition same_instances :: "CPIM \<Rightarrow> CPIM \<Rightarrow> bool" where
  "same_instances p q \<longleftrightarrow> objects q = objects p \<and> next_object q = next_object p \<and> mProfileMap q = mProfileMap p \<and> mUidMap q = mUidMap p"

lemma same_instances_ok: "same_instances p q \<Longrightarrow> pim_ok q = pim_ok p"
  by (simp add: same_instances_def pim_ok_def)

lemma same_instances_simps [simp]:
  "same_instances p p" "same_instances p (ipc_send req q) = same_instances p q" "same_instances p (unloadProfileLib u q) = same_instances p q"
  "same_instances p (q\<lparr>mIncomingPrfMap := m\<rparr>) = same_instances p q" "same_instances p (q\<lparr>mRemoteDiedProfiles := d\<rparr>) = same_instances p q"
  "same_instances p (q\<lparr>gLibHandlesMap := g\<rparr>) = same_instances p q"
  by (simp_all add: same_instances_def ipc_send_def unloadProfileLib_def split: option.splits)

lemma pim_generatePIUID_same: "pim_generatePIUID env u sid p = (r, q) \<Longrightarrow> same_instances p q"
  by (auto simp: pim_generatePIUID_def split: option.splits)

definition path_fine :: "string \<Rightarrow> bool" where
  "path_fine path \<longleftrightarrow> 3 \<le> length path"

lemma mismatch_end_total: "length ending \<le> length toCheck \<Longrightarrow> mismatch_end toCheck ending \<noteq> None"
  by (induction toCheck ending rule: mismatch_end.induct) auto

lemma stringEndsWith_total: "path_fine path \<Longrightarrow> length ending \<le> 3 \<Longrightarrow> \<exists>b. stringEndsWith path ending = Some b"
  using mismatch_end_total [of "rev ending" "rev path"] by (simp add: stringEndsWith_def path_fine_def)

text \<open>The factory makes a new object, or none.\<close>

definition new_holder :: "Uid \<Rightarrow> Uid \<Rightarrow> Uid \<Rightarrow> ProfileHolder" where
  "new_holder piuid sid api = \<lparr>mProfileID = piuid, mSid = sid, mApi = api, mIsEnabled = False, mLockSet = {}\<rparr>"

lemma createProfileImpl_cases:
  assumes "path_fine path" and "0 < next_object p"
  obtains (failed) q where "createProfileImpl env path piuid sid p = Some (0, q)" and "same_instances p q"
  | (made) q api ok where "createProfileImpl env path piuid sid p = Some (next_object p, q)" and "env_create env = Some (api, ok)"
      and "objects q = (objects p)(next_object p \<mapsto> new_holder piuid sid api)" and "next_object q = next_object p + 1"
      and "mProfileMap q = mProfileMap p" and "mUidMap q = mUidMap p"
proof -
  obtain so jar where ends: "stringEndsWith path ''so'' = Some so" "stringEndsWith path ''jar'' = Some jar"
    using stringEndsWith_total [OF assms(1)] by (metis list.size(3,4) numeral_3_eq_3 One_nat_def Suc_eq_plus1 add_0 le_SucI order_refl)
  show thesis
  proof (cases "\<not> so \<or> env_dlopen env = None \<or> env_create env = None")
    case True
    then have "\<exists>q. createProfileImpl env path piuid sid p = Some (0, q) \<and> same_instances p q"
      using ends by (auto simp: createProfileImpl_def getObject_def split: option.splits)
    then show thesis
      using failed by blast
  next
    case False
    then obtain handle api ok where env: "so" "env_dlopen env = Some handle" "env_create env = Some (api, ok)"
      by auto
    then have "createProfileImpl env path piuid sid p = Some (next_object p,
        snd (getObject env piuid sid (p\<lparr>gLibHandlesMap := (gLibHandlesMap p)(piuid \<mapsto> handle)\<rparr>)))"
      using ends assms(2) by (simp add: createProfileImpl_def getObject_def)
    then show thesis
      by (rule made [OF _ env(3)]) (simp_all add: getObject_def env(3) new_holder_def)
  qed
qed

text \<open>
  The result of a load: every object there was stays as it was. A success adds one object, enabled, not locked and registered; an error
  returns null and leaves no object behind, unless \<^verbatim>\<open>createProfile\<close> could not be sent.
\<close>

definition loaded :: "load_env \<Rightarrow> Uid \<Rightarrow> CPIM \<Rightarrow> ErrorCode \<Rightarrow> ptr \<Rightarrow> CPIM \<Rightarrow> bool" where
  "loaded env sid p err obj q \<longleftrightarrow>
     pim_ok q \<and> (\<forall>x. objects p x \<noteq> None \<longrightarrow> objects q x = objects p x) \<and> next_object p \<le> next_object q \<and>
     (if err = NO_ERROR
      then obj \<noteq> 0 \<and> objects p obj = None
        \<and> (\<exists>piuid api. objects q = (objects p)(obj \<mapsto> (new_holder piuid sid api)\<lparr>mIsEnabled := True\<rparr>))
      else obj = 0 \<and> (env_createProfile env \<longrightarrow> objects q = objects p))"

lemma loaded_same: "same_instances p q \<Longrightarrow> pim_ok p \<Longrightarrow> err \<noteq> NO_ERROR \<Longrightarrow> loaded env sid p err 0 q"
  by (simp add: loaded_def same_instances_ok) (simp add: same_instances_def)

lemma loaded_after: "same_instances p q \<Longrightarrow> loaded env sid q err obj r \<Longrightarrow> loaded env sid p err obj r"
  by (auto simp: loaded_def same_instances_def split: if_splits)

lemma pim_ok_free: "pim_ok p \<Longrightarrow> objects p (next_object p) = None"
  by (metis nat_less_le pim_ok_def)

lemma pim_ok_uid_free: "pim_ok p \<Longrightarrow> mUidMap p (next_object p) = None"
  by (metis option.map_disc_iff pim_ok_def pim_ok_free)

lemma pim_ok_unregistered:
  assumes "pim_ok p" and "objects q = objects p" and "next_object q = next_object p + 1" and "mProfileMap q = mProfileMap p" and "mUidMap q = mUidMap p"
  shows "pim_ok q"
  using assms unfolding pim_ok_def by (metis (no_types, lifting) add_gr_0 less_add_one order_less_trans)

lemma pim_ok_registered:
  assumes ok: "pim_ok p" and obj: "obj = next_object p" and new: "map_of (mProfileMap p) (mProfileID ob) = None"
    and q: "objects q = (objects p)(obj \<mapsto> ob)" "next_object q = obj + 1" "mProfileMap q = map_insert (mProfileID ob) obj (mProfileMap p)"
      "mUidMap q = (mUidMap p)(obj \<mapsto> mProfileID ob)"
  shows "pim_ok q"
proof -
  have free: "mUidMap p obj = None"
    using pim_ok_uid_free [OF ok] obj by simp
  have maps: "map_of (mProfileMap p) u = Some x \<longleftrightarrow> mUidMap p x = Some u" and sorted: "map_sorted (mProfileMap p)" for u x
    using ok unfolding pim_ok_def by blast+
  have "map_of (mProfileMap q) u = Some x \<longleftrightarrow> mUidMap q x = Some u" for u x
    using maps [of u x] maps [of "mProfileID ob" x] free new unfolding q map_of_insert_new [OF sorted new] by auto
  moreover have "map_sorted (mProfileMap q)"
    using sorted q by simp
  moreover have "0 < next_object q" "\<forall>x. objects q x \<noteq> None \<longrightarrow> 0 < x \<and> x < next_object q" "\<forall>x. mUidMap q x = map_option mProfileID (objects q x)"
    using ok obj q unfolding pim_ok_def by auto
  ultimately show ?thesis
    unfolding pim_ok_def by blast
qed

lemma loadProfile_object_loaded:
  assumes ok: "pim_ok p" and path: "path_fine path"
  obtains err obj q where "loadProfile_object env path profileUid sid piuid p = Some (err, obj, q)" and "loaded env sid p err obj q"
proof -
  note result = that
  have "0 < next_object p"
    using ok by (simp add: pim_ok_def)
  with path show thesis
  proof (cases rule: createProfileImpl_cases [where env = env and piuid = piuid and sid = sid, consumes 2])
    case (failed r)
    then have "loaded env sid p ERROR_PIM_INTERNAL 0 (ipc_send (PMAL_ReleasePIUID piuid) r)"
      using ok by (intro loaded_same) simp_all
    then show ?thesis
      using failed by (intro result [of ERROR_PIM_INTERNAL 0 "ipc_send (PMAL_ReleasePIUID piuid) r"]) (simp_all add: loadProfile_object_def)
  next
    case (made r api good)
    let ?obj = "next_object p"
    have pos: "?obj \<noteq> 0"
      using ok by (simp add: pim_ok_def)
    note free = pim_ok_free [OF ok]
    have gone: "(objects r)(?obj := None) = objects p"
      using made(3) free by (simp add: fun_upd_idem)
    show ?thesis
    proof (cases good)
      case False
      let ?q = "(ipc_send (PMAL_ReleasePIUID piuid) r)\<lparr>objects := objects p\<rparr>"
      have "pim_ok ?q"
        by (rule pim_ok_unregistered [OF ok]) (simp_all add: made ipc_send_def)
      then have "loaded env sid p ERROR_PROFILE_INIT 0 ?q"
        by (simp add: loaded_def made ipc_send_def)
      moreover have "loadProfile_object env path profileUid sid piuid p = Some (ERROR_PROFILE_INIT, 0, ?q)"
        using made False pos gone by (simp add: loadProfile_object_def destroy_def ipc_send_def)
      ultimately show ?thesis
        using result by blast
    next
      case True
      show ?thesis
      proof (cases "map_of (mProfileMap p) piuid")
        case (Some other)
        let ?q = "r\<lparr>objects := objects p\<rparr>"
        have "pim_ok ?q"
          by (rule pim_ok_unregistered [OF ok]) (simp_all add: made)
        then have "loaded env sid p ERROR_PIM_INTERNAL 0 ?q"
          by (simp add: loaded_def made)
        moreover have "loadProfile_object env path profileUid sid piuid p = Some (ERROR_PIM_INTERNAL, 0, ?q)"
          using made True pos gone Some by (simp add: loadProfile_object_def destroy_def im_registerProfile_def)
        ultimately show ?thesis
          using result by blast
      next
        case None
        let ?reg = "r\<lparr>mProfileMap := map_insert piuid ?obj (mProfileMap p), mUidMap := (mUidMap p)(?obj \<mapsto> piuid)\<rparr>"
        let ?sent = "ipc_send (PMAL_CreateProfile profileUid piuid sid) ?reg"
        have reg: "im_registerProfile piuid ?obj r = (True, ?reg)"
          using pos None by (simp add: im_registerProfile_def made)
        show ?thesis
        proof (cases "env_createProfile env")
          case False
          have "pim_ok ?sent"
            by (rule pim_ok_registered [OF ok refl, where ob = "new_holder piuid sid api"])
              (simp_all add: None made ipc_send_def new_holder_def)
          then have "loaded env sid p ERROR_OTHER 0 ?sent"
            using False free by (auto simp: loaded_def made ipc_send_def)
          moreover have "loadProfile_object env path profileUid sid piuid p = Some (ERROR_OTHER, 0, ?sent)"
            using made True pos False reg by (simp add: loadProfile_object_def Let_def)
          ultimately show ?thesis
            using result by blast
        next
          case created: True
          let ?q = "?sent\<lparr>objects := (objects p)(?obj \<mapsto> (new_holder piuid sid api)\<lparr>mIsEnabled := True\<rparr>)\<rparr>"
          have "pim_ok ?q"
            by (rule pim_ok_registered [OF ok refl, where ob = "(new_holder piuid sid api)\<lparr>mIsEnabled := True\<rparr>"])
              (simp_all add: None made ipc_send_def new_holder_def)
          then have "loaded env sid p NO_ERROR ?obj ?q"
            using free pos by (auto simp: loaded_def made ipc_send_def)
          moreover have "loadProfile_object env path profileUid sid piuid p = Some (NO_ERROR, ?obj, ?q)"
            using made True pos created reg by (simp add: loadProfile_object_def setEnabled_def Let_def ipc_send_def)
          ultimately show ?thesis
            using result by blast
        qed
      qed
    qed
  qed
qed

definition env_fine :: "load_env \<Rightarrow> bool" where
  "env_fine env \<longleftrightarrow> (\<forall>path. env_path env = Some path \<longrightarrow> path_fine path)"

lemma loadProfile_loaded:
  assumes ok: "pim_ok p" and env: "env_fine env"
  obtains err obj q where "loadProfile env profileUid sid p = Some (err, obj, q)" and "loaded env sid p err obj q"
proof -
  let ?p1 = "ipc_send (PMAL_FindProfiles profileUid [] True) p"
  let ?p2 = "ipc_send (PMAL_GetProfileLibPath profileUid) ?p1"
  note result = that
  have failed: thesis if "loadProfile env profileUid sid p = Some (err, 0, q)" "same_instances p q" "err \<noteq> NO_ERROR" for err q
    using result [OF that(1)] loaded_same [OF that(2) ok that(3)] by blast
  show thesis
  proof (cases "env_enabled env")
    case None
    then show thesis
      by (intro failed [of ERROR_PIM_INTERNAL ?p1]) (simp_all add: loadProfile_def isEnabledProfile_def)
  next
    case (Some enabled)
    show thesis
    proof (cases "enabled = []")
      case True
      then show thesis
        using Some by (intro failed [of ERROR_UNKNOWN_PROFILE_UID ?p1]) (simp_all add: loadProfile_def isEnabledProfile_def)
    next
      case some: False
      show thesis
      proof (cases "env_path env")
        case None
        then show thesis
          using Some some by (intro failed [of ERROR_UNKNOWN_PROFILE_UID ?p2]) (simp_all add: loadProfile_def isEnabledProfile_def)
      next
        case path: (Some path)
        obtain r p3 where gen: "pim_generatePIUID env profileUid sid ?p2 = (r, p3)"
          by (cases "pim_generatePIUID env profileUid sid ?p2")
        then have same: "same_instances p p3"
          using pim_generatePIUID_same [OF gen] by (simp add: same_instances_def ipc_send_def)
        have run: "loadProfile env profileUid sid p = (case r of None \<Rightarrow> Some (ERROR_PIM_INTERNAL, 0, p3)
            | Some piuid \<Rightarrow> loadProfile_object env path profileUid sid piuid p3)"
          using Some some path gen by (simp add: loadProfile_def isEnabledProfile_def split: option.splits)
        show thesis
        proof (cases r)
          case None
          then show thesis
            using run same by (intro failed [of ERROR_PIM_INTERNAL p3]) simp_all
        next
          case (Some piuid)
          have "pim_ok p3" "path_fine path"
            using same_instances_ok [OF same] ok env path by (simp_all add: env_fine_def)
          then obtain err obj q where "loadProfile_object env path profileUid sid piuid p3 = Some (err, obj, q)" "loaded env sid p3 err obj q"
            by (rule loadProfile_object_loaded)
          then show thesis
            using run Some loaded_after [OF same] result by simp
        qed
      qed
    qed
  qed
qed

text \<open>The result of an unload.\<close>

lemma unloadProfile_alive:
  assumes ok: "pim_ok p" and obj: "objects p obj = Some ob"
  obtains q where "unloadProfile obj p = Some (NO_ERROR, q)" and "pim_ok q" and "objects q = (objects p)(obj := None)"
    and "next_object q = next_object p"
    and "pim_sent q = pim_sent p @ (if mProfileID ob \<in> mRemoteDiedProfiles p then [] else [PMAL_ProfileDied (mProfileID ob)])
       @ [PMAL_ReleasePIUID (mProfileID ob)]"
proof -
  let ?u = "mProfileID ob"
  have uid: "mUidMap p obj = Some ?u" and pos: "obj \<noteq> 0"
    using ok obj unfolding pim_ok_def by auto
  obtain q where q: "unloadProfile obj p = Some (NO_ERROR, q)" "objects q = (objects p)(obj := None)" "next_object q = next_object p"
    "mProfileMap q = map_erase ?u (mProfileMap p)" "mUidMap q = (mUidMap p)(obj := None)"
    "pim_sent q = pim_sent p @ (if ?u \<in> mRemoteDiedProfiles p then [] else [PMAL_ProfileDied ?u]) @ [PMAL_ReleasePIUID ?u]"
    using uid pos obj
    by (cases "?u \<in> mRemoteDiedProfiles p"; cases "gLibHandlesMap p ?u")
      (simp_all add: unloadProfile_def unloadProfile_known_def im_findUid_def im_unregisterProfile_def setEnabled_def destroy_def Let_def
        ipc_send_def unloadProfileLib_def)
  have maps: "map_of (mProfileMap p) u = Some x \<longleftrightarrow> mUidMap p x = Some u" for u x
    using ok unfolding pim_ok_def by blast
  have "map_of (mProfileMap q) u = Some x \<longleftrightarrow> mUidMap q x = Some u" for u x
    using maps [of u x] maps [of ?u x] maps [of u obj] uid unfolding q by auto
  then have "pim_ok q"
    using ok q unfolding pim_ok_def by auto
  then show thesis
    using that q by blast
qed

end
