(* ===== verification/AppServices.thy ===== *)
theory AppServices
  imports AppPim
begin

text \<open>
  The services of an application (\<^verbatim>\<open>libraries/ApplicationLibrary/ServiceManager\<close>): \<^verbatim>\<open>CService\<close>, a service with its profiles,
  \<^verbatim>\<open>CServiceManager\<close>, and the part of \<^verbatim>\<open>CPIM\<close> that calls back into it. Operations of different threads are serialised by the
  mutexes; a mutex that an operation leaves locked blocks the next one, as \<^verbatim>\<open>CMutex\<close> is not recursive: \<^const>\<open>None\<close>.
\<close>

section \<open>A service\<close>

text \<open>
  The manifest of a service, which a vendored library reads: the pair's name and the APIs with their parameters. An attribute that is
  missing is the empty string.
\<close>

type_synonym manifest = "Uid \<times> (Uid \<times> (string \<times> string) list) list"

record CService =
  mUid :: Uid
  mPairUid :: Uid
  mProfilesMap :: "(Uid \<times> ptr) list"
  mProfilesMapMutex :: bool
  mCbMap :: "Uid \<rightharpoonup> ptr"
  mCorrect :: bool
  mUnloadRequests :: "Uid set"

definition CService_new :: "Uid \<Rightarrow> CService" where
  "CService_new service = \<lparr>mUid = service, mPairUid = '''', mProfilesMap = [], mProfilesMapMutex = False, mCbMap = Map.empty,
     mCorrect = True, mUnloadRequests = {}\<rparr>"

abbreviation (input) UNKNOWN_ERROR :: ErrorCode where "UNKNOWN_ERROR \<equiv> 1"
abbreviation (input) SERVICE_NOT_FOUND :: ErrorCode where "SERVICE_NOT_FOUND \<equiv> 3"
abbreviation (input) SERVICE_ALREADY_LOADED :: ErrorCode where "SERVICE_ALREADY_LOADED \<equiv> 4"
abbreviation (input) XML_PARSING_FAILED :: ErrorCode where "XML_PARSING_FAILED \<equiv> 5"
abbreviation (input) CALLBACKS_NOT_REGISTERED :: ErrorCode where "CALLBACKS_NOT_REGISTERED \<equiv> 6"
abbreviation (input) NO_PROFILES_FOUND :: ErrorCode where "NO_PROFILES_FOUND \<equiv> 7"
abbreviation (input) IPC_REQUEST_TIMEOUT :: ErrorCode where "IPC_REQUEST_TIMEOUT \<equiv> 8"
abbreviation (input) IPC_REQUEST_FAILED :: ErrorCode where "IPC_REQUEST_FAILED \<equiv> 9"
abbreviation (input) PIM_ERROR :: ErrorCode where "PIM_ERROR \<equiv> 10"

text \<open>\<^verbatim>\<open>profileInstance\<close> of a holder adds the calling thread to its lock set.\<close>

definition profileInstance :: "nat \<Rightarrow> ptr \<Rightarrow> CPIM \<Rightarrow> CPIM option" where
  "profileInstance thread obj p = do {
     ob \<leftarrow> objects p obj;
     Some (p\<lparr>objects := (objects p)(obj \<mapsto> ob\<lparr>mLockSet := insert thread (mLockSet ob)\<rparr>)\<rparr>) }"

definition holder_release :: "nat \<Rightarrow> ptr \<Rightarrow> CPIM \<Rightarrow> CPIM option" where
  "holder_release thread obj p = do {
     ob \<leftarrow> objects p obj;
     Some (p\<lparr>objects := (objects p)(obj \<mapsto> ob\<lparr>mLockSet := mLockSet ob - {thread}\<rparr>)\<rparr>) }"

definition isLocked :: "ptr \<Rightarrow> CPIM \<Rightarrow> bool option" where
  "isLocked obj p = map_option (\<lambda>ob. mLockSet ob \<noteq> {}) (objects p obj)"

text \<open>
  The loop of \<^verbatim>\<open>load\<close> over the profiles of the manifest; \<open>env\<close> is what the surroundings do for each API. The code of a failed
  \<^verbatim>\<open>findProfiles\<close> is always \<^verbatim>\<open>ERROR_OTHER\<close>.
\<close>

fun load_profiles ::
    "(Uid \<Rightarrow> load_env) \<Rightarrow> (Uid \<rightharpoonup> ptr) \<Rightarrow> (Uid \<times> (string \<times> string) list) list \<Rightarrow> CService \<Rightarrow> CPIM
      \<Rightarrow> (ErrorCode \<times> CService \<times> CPIM) option" where
  "load_profiles env cbMap [] sv p = Some (NO_ERROR, sv, p)"
| "load_profiles env cbMap ((api, params) # nodes) sv p =
     (if api = '''' then Some (XML_PARSING_FAILED, sv, p)
      else (let p = ipc_send (PMAL_FindProfiles api params True) p
            in case env_found (env api) of
                 None \<Rightarrow> Some (if ERROR_OTHER = 2 \<or> ERROR_OTHER = 3 then IPC_REQUEST_TIMEOUT else IPC_REQUEST_FAILED, sv, p)
               | Some [] \<Rightarrow> Some (NO_PROFILES_FOUND, sv, p)
               | Some (prfUid # _) \<Rightarrow>
                   (if cbMap api = None then Some (CALLBACKS_NOT_REGISTERED, sv, p)
                    else do {
                      (err, obj, p) \<leftarrow> loadProfile (env api) prfUid (mPairUid sv) p;
                      if err = NO_ERROR
                      then load_profiles env cbMap nodes
                             (sv\<lparr>mProfilesMap := map_insert api obj (map_erase api (mProfilesMap sv))\<rparr>) p
                      else Some (PIM_ERROR, sv, p) })))"

definition CService_load ::
    "(Uid \<Rightarrow> load_env) \<Rightarrow> (Uid \<Rightarrow> manifest option) \<Rightarrow> (Uid \<rightharpoonup> ptr) \<Rightarrow> CService \<Rightarrow> CPIM \<Rightarrow> (ErrorCode \<times> CService \<times> CPIM) option" where
  "CService_load env manifest cbMap sv p =
     (case manifest (mUid sv) of
        None \<Rightarrow> Some (XML_PARSING_FAILED, sv, p)
      | Some (pair, nodes) \<Rightarrow> load_profiles env cbMap nodes (sv\<lparr>mPairUid := pair\<rparr>) p)"

text \<open>The loop of \<^verbatim>\<open>unload\<close>: the profiles that are locked stay, with a request; the others are unloaded and erased afterwards.\<close>

fun unload_profiles :: "nat \<Rightarrow> (Uid \<times> ptr) list \<Rightarrow> Uid set \<Rightarrow> CPIM \<Rightarrow> (Uid list \<times> Uid set \<times> CPIM) option" where
  "unload_profiles thread [] reqs p = Some ([], reqs, p)"
| "unload_profiles thread ((api, obj) # m) reqs p = do {
     locked \<leftarrow> isLocked obj p;
     if locked then do {
       ob \<leftarrow> objects p obj;
       p \<leftarrow> profileInstance thread obj p;
       unload_profiles thread m (insert (mApi ob) reqs) p }
     else do {
       (_, p) \<leftarrow> unloadProfile obj p;
       (eraseList, reqs, p) \<leftarrow> unload_profiles thread m reqs p;
       Some (api # eraseList, reqs, p) } }"

definition CService_unload :: "nat \<Rightarrow> CService \<Rightarrow> CPIM \<Rightarrow> (CService \<times> CPIM) option" where
  "CService_unload thread sv p = do {
     cassert (\<not> mProfilesMapMutex sv);
     (eraseList, reqs, p) \<leftarrow> unload_profiles thread (mProfilesMap sv) (mUnloadRequests sv) p;
     Some (sv\<lparr>mProfilesMap := fold map_erase eraseList (mProfilesMap sv), mUnloadRequests := reqs\<rparr>, p) }"

text \<open>\<^verbatim>\<open>delete\<close> runs the destructor, which unloads once more.\<close>

definition CService_delete :: "nat \<Rightarrow> CService \<Rightarrow> CPIM \<Rightarrow> CPIM option" where
  "CService_delete thread sv p = do { (_, p) \<leftarrow> CService_unload thread sv p; Some p }"

text \<open>A service for which the other device's profiles will come: each API gets the null pointer until its profile comes.\<close>

fun incoming_profiles :: "(Uid \<rightharpoonup> ptr) \<Rightarrow> (Uid \<times> (string \<times> string) list) list \<Rightarrow> CService \<Rightarrow> bool \<times> CService" where
  "incoming_profiles cbMap [] sv = (True, sv)"
| "incoming_profiles cbMap ((api, params) # nodes) sv =
     (if api = '''' then (False, sv)
      else (let sv = sv\<lparr>mProfilesMap := map_insert api 0 (map_erase api (mProfilesMap sv))\<rparr>
            in case cbMap api of
                 None \<Rightarrow> (False, sv)
               | Some cb \<Rightarrow> if cb = 0 then (False, sv)
                            else incoming_profiles cbMap nodes (sv\<lparr>mCbMap := (mCbMap sv)(api \<mapsto> cb)\<rparr>)))"

definition CService_incomingLoad :: "(Uid \<Rightarrow> manifest option) \<Rightarrow> (Uid \<rightharpoonup> ptr) \<Rightarrow> CService \<Rightarrow> bool \<times> CService" where
  "CService_incomingLoad manifest cbMap sv =
     (case manifest (mUid sv) of
        None \<Rightarrow> (False, sv)
      | Some (pair, nodes) \<Rightarrow> incoming_profiles cbMap nodes (sv\<lparr>mPairUid := pair\<rparr>))"

text \<open>
  The profile is entered under the API that the manifest has, the empty string if it has none; a load that failed enters the null pointer
  and is reported as a success.
\<close>

definition incomingProfileRequest ::
    "(Uid \<Rightarrow> load_env) \<Rightarrow> (Uid \<Rightarrow> manifest option) \<Rightarrow> Uid \<Rightarrow> Uid \<Rightarrow> CService \<Rightarrow> CPIM \<Rightarrow> (bool \<times> CService \<times> CPIM) option" where
  "incomingProfileRequest env manifest profileUid papiUid sv p =
     (case manifest (mUid sv) of
        None \<Rightarrow> Some (False, sv, p)
      | Some (pair, nodes) \<Rightarrow>
          (let sv = (if mPairUid sv = '''' then sv\<lparr>mPairUid := pair\<rparr> else sv);
               profile_api = (if papiUid \<in> fst ` set nodes then papiUid else '''')
           in if mCbMap sv papiUid = None then Some (False, sv, p)
              else do {
                (_, obj, p) \<leftarrow> loadProfile (env papiUid) profileUid (mUid sv) p;
                cassert (\<not> mProfilesMapMutex sv);
                Some (True, sv\<lparr>mProfilesMap := map_insert profile_api obj (map_erase profile_api (mProfilesMap sv))\<rparr>, p) }))"

text \<open>The loop of \<^verbatim>\<open>profileDied\<close> up to the profile with the instance.\<close>

fun find_instance :: "Uid \<Rightarrow> (Uid \<times> ptr) list \<Rightarrow> CPIM \<Rightarrow> (Uid \<times> ptr) option option" where
  "find_instance instance_uid [] p = Some None"
| "find_instance instance_uid ((api, obj) # m) p = do {
     ob \<leftarrow> objects p obj;
     if mProfileID ob = instance_uid then Some (Some (api, obj)) else find_instance instance_uid m p }"

text \<open>When the profile is locked, \<^verbatim>\<open>profileDied\<close> returns with the mutex locked.\<close>

definition CService_profileDied :: "nat \<Rightarrow> Uid \<Rightarrow> CService \<Rightarrow> CPIM \<Rightarrow> (CService \<times> CPIM) option" where
  "CService_profileDied thread instance_uid sv p = do {
     cassert (\<not> mProfilesMapMutex sv);
     found \<leftarrow> find_instance instance_uid (mProfilesMap sv) p;
     case found of
       None \<Rightarrow> Some (sv, p)
     | Some (api, obj) \<Rightarrow> do {
         locked \<leftarrow> isLocked obj p;
         if locked then do {
           ob \<leftarrow> objects p obj;
           p \<leftarrow> profileInstance thread obj p;
           Some (sv\<lparr>mCorrect := False, mUnloadRequests := insert (mApi ob) (mUnloadRequests sv), mProfilesMapMutex := True\<rparr>, p) }
         else do {
           (_, p) \<leftarrow> unloadProfile obj p;
           Some (sv\<lparr>mCorrect := False, mProfilesMap := map_erase api (mProfilesMap sv)\<rparr>, p) } } }"

definition allLoaded :: "CService \<Rightarrow> bool option" where
  "allLoaded sv = do { cassert (\<not> mProfilesMapMutex sv); Some (list_all (\<lambda>(_, obj). obj \<noteq> 0) (mProfilesMap sv)) }"

definition allDied :: "CService \<Rightarrow> bool option" where
  "allDied sv = do { cassert (\<not> mProfilesMapMutex sv); Some (mProfilesMap sv = []) }"

definition CService_getProfile :: "nat \<Rightarrow> Uid \<Rightarrow> CService \<Rightarrow> CPIM \<Rightarrow> (ptr \<times> CPIM) option" where
  "CService_getProfile thread profileApi sv p = do {
     cassert (\<not> mProfilesMapMutex sv);
     case map_of (mProfilesMap sv) profileApi of
       None \<Rightarrow> Some (0, p)
     | Some obj \<Rightarrow> if obj = 0 then Some (0, p) else do { p \<leftarrow> profileInstance thread obj p; Some (obj, p) } }"

text \<open>The first release of a profile with a request unloads it, whoever else has locked it; the request stays.\<close>

definition CService_releaseProfile :: "nat \<Rightarrow> Uid \<Rightarrow> CService \<Rightarrow> CPIM \<Rightarrow> (CService \<times> CPIM) option" where
  "CService_releaseProfile thread profileApi sv p = do {
     cassert (\<not> mProfilesMapMutex sv);
     case map_of (mProfilesMap sv) profileApi of
       None \<Rightarrow> Some (sv, p)
     | Some obj \<Rightarrow>
         if obj = 0 then Some (sv, p)
         else do {
           ob \<leftarrow> objects p obj;
           p \<leftarrow> profileInstance thread obj p;
           p \<leftarrow> holder_release thread obj p;
           if mApi ob \<in> mUnloadRequests sv then do {
             (_, p) \<leftarrow> unloadProfile obj p;
             Some (sv\<lparr>mProfilesMap := map_erase profileApi (mProfilesMap sv)\<rparr>, p) }
           else Some (sv, p) } }"

definition hasUnloadWaits :: "CService \<Rightarrow> bool" where
  "hasUnloadWaits sv \<longleftrightarrow> mUnloadRequests sv \<noteq> {}"

end
