(* ===== verification/AppManager.thy ===== *)
theory AppManager
  imports AppServices
begin

text \<open>
  The service manager of an application (\<^verbatim>\<open>ServiceManager/private/CServiceManager.cpp\<close>) and the calls of \<^verbatim>\<open>CPIM\<close> that go through it:
  profiles that come from the other device and profiles that died there.
\<close>

datatype client_call = ServiceRequestCallback Uid | ServiceLoaded Uid | ServiceLoadError Uid | ServiceDropped Uid

record CServiceManager =
  mSystemServices :: "Uid set"
  mActiveServices :: "(Uid \<times> CService) list"
  mCallbacks :: "Uid \<rightharpoonup> ptr"
  mpClient :: bool
  app_pim :: CPIM
  client_calls :: "client_call list"

definition CServiceManager_new :: "Uid set \<Rightarrow> CServiceManager" where
  "CServiceManager_new services = \<lparr>mSystemServices = services, mActiveServices = [], mCallbacks = Map.empty, mpClient = False,
     app_pim = CPIM_new, client_calls = []\<rparr>"

definition registerClient :: "CServiceManager \<Rightarrow> CServiceManager" where
  "registerClient m = m\<lparr>mpClient := True\<rparr>"

definition registerProfileCallbacks :: "Uid \<Rightarrow> ptr \<Rightarrow> CServiceManager \<Rightarrow> CServiceManager" where
  "registerProfileCallbacks profileApi pCallbacks m = m\<lparr>mCallbacks := (mCallbacks m)(profileApi \<mapsto> pCallbacks)\<rparr>"

definition notify_client :: "client_call \<Rightarrow> CServiceManager \<Rightarrow> CServiceManager" where
  "notify_client c m = (if mpClient m then m\<lparr>client_calls := client_calls m @ [c]\<rparr> else m)"

definition getActive :: "CServiceManager \<Rightarrow> Uid list" where
  "getActive m = map fst (mActiveServices m)"

definition isActive :: "Uid \<Rightarrow> CServiceManager \<Rightarrow> bool" where
  "isActive service m \<longleftrightarrow> map_of (mActiveServices m) service \<noteq> None"

definition set_service :: "Uid \<Rightarrow> CService \<Rightarrow> CServiceManager \<Rightarrow> CServiceManager" where
  "set_service service sv m = m\<lparr>mActiveServices := map_insert service sv (map_erase service (mActiveServices m))\<rparr>"

definition mgr_load ::
    "(Uid \<Rightarrow> load_env) \<Rightarrow> (Uid \<Rightarrow> manifest option) \<Rightarrow> nat \<Rightarrow> Uid \<Rightarrow> CServiceManager \<Rightarrow> (ErrorCode \<times> CServiceManager) option" where
  "mgr_load env manifest thread service m =
     (if service \<notin> mSystemServices m then Some (SERVICE_NOT_FOUND, m)
      else if isActive service m then Some (SERVICE_ALREADY_LOADED, m)
      else do {
        (err, sv, p) \<leftarrow> CService_load env manifest (mCallbacks m) (CService_new service) (app_pim m);
        if err \<noteq> NO_ERROR then do {
          p \<leftarrow> CService_delete thread sv p;
          Some (err, m\<lparr>app_pim := p\<rparr>) }
        else Some (NO_ERROR, set_service service sv (m\<lparr>app_pim := p\<rparr>)) })"

definition mgr_incomingLoad ::
    "(Uid \<Rightarrow> manifest option) \<Rightarrow> nat \<Rightarrow> Uid \<Rightarrow> CServiceManager \<Rightarrow> (bool \<times> CServiceManager) option" where
  "mgr_incomingLoad manifest thread service m =
     (if service \<notin> mSystemServices m then Some (False, m)
      else if isActive service m then Some (True, m)
      else (case CService_incomingLoad manifest (mCallbacks m) (CService_new service) of
          (False, sv) \<Rightarrow> do { p \<leftarrow> CService_delete thread sv (app_pim m); Some (False, m\<lparr>app_pim := p\<rparr>) }
        | (True, sv) \<Rightarrow> Some (True, set_service service sv m)))"

text \<open>The end of \<^verbatim>\<open>unload\<close> and \<^verbatim>\<open>releaseProfile\<close>: a service with requests stays.\<close>

definition unload_service :: "nat \<Rightarrow> Uid \<Rightarrow> CService \<Rightarrow> CServiceManager \<Rightarrow> CServiceManager option" where
  "unload_service thread service sv m = do {
     (sv, p) \<leftarrow> CService_unload thread sv (app_pim m);
     if hasUnloadWaits sv then Some (set_service service sv (m\<lparr>app_pim := p\<rparr>))
     else do {
       p \<leftarrow> CService_delete thread sv p;
       Some (m\<lparr>app_pim := p, mActiveServices := map_erase service (mActiveServices m)\<rparr>) } }"

definition mgr_unload :: "nat \<Rightarrow> Uid \<Rightarrow> CServiceManager \<Rightarrow> (bool \<times> CServiceManager) option" where
  "mgr_unload thread service m =
     (case map_of (mActiveServices m) service of
        None \<Rightarrow> Some (False, m)
      | Some sv \<Rightarrow> do { m \<leftarrow> unload_service thread service sv m; Some (True, m) })"

definition serviceRequestCallback ::
    "(Uid \<Rightarrow> manifest option) \<Rightarrow> nat \<Rightarrow> Uid \<Rightarrow> CServiceManager \<Rightarrow> (bool \<times> CServiceManager) option" where
  "serviceRequestCallback manifest thread service m = do {
     let m = (if isActive service m then m else notify_client (ServiceRequestCallback service) m);
     (ok, m) \<leftarrow> mgr_incomingLoad manifest thread service m;
     Some (ok, if ok then m else notify_client (ServiceLoadError service) m) }"

definition mgr_incomingProfile ::
    "(Uid \<Rightarrow> load_env) \<Rightarrow> (Uid \<Rightarrow> manifest option) \<Rightarrow> nat \<Rightarrow> Uid \<Rightarrow> Uid \<Rightarrow> Uid \<Rightarrow> CServiceManager \<Rightarrow> (bool \<times> CServiceManager) option" where
  "mgr_incomingProfile env manifest thread service profile api m =
     (case map_of (mActiveServices m) service of
        None \<Rightarrow> Some (False, m)
      | Some sv \<Rightarrow> do {
          (ok, sv, p) \<leftarrow> incomingProfileRequest env manifest profile api sv (app_pim m);
          all \<leftarrow> allLoaded sv;
          let m = set_service service sv (m\<lparr>app_pim := p\<rparr>);
          if \<not> ok then do {
            (_, m) \<leftarrow> mgr_unload thread service (notify_client (ServiceLoadError service) m);
            Some (False, m) }
          else Some (True, if all then notify_client (ServiceLoaded service) m else m) })"

text \<open>The service itself, or else the first active one that has it as its pair.\<close>

definition find_dying :: "Uid \<Rightarrow> CServiceManager \<Rightarrow> (Uid \<times> CService) option" where
  "find_dying service m =
     (case map_of (mActiveServices m) service of
        Some sv \<Rightarrow> Some (service, sv)
      | None \<Rightarrow> find (\<lambda>(_, sv). mPairUid sv = service) (mActiveServices m))"

definition mgr_profileDied :: "nat \<Rightarrow> Uid \<Rightarrow> Uid \<Rightarrow> CServiceManager \<Rightarrow> CServiceManager option" where
  "mgr_profileDied thread service piuid m =
     (case find_dying service m of
        None \<Rightarrow> Some m
      | Some (key, sv) \<Rightarrow> do {
          let m = (if mCorrect sv then notify_client (ServiceDropped (if key = service then service else mUid sv)) m else m);
          (sv, p) \<leftarrow> CService_profileDied thread piuid sv (app_pim m);
          all \<leftarrow> allDied sv;
          let m = set_service key sv (m\<lparr>app_pim := p\<rparr>);
          if all then do {
            p \<leftarrow> CService_delete thread sv (app_pim m);
            Some (m\<lparr>app_pim := p, mActiveServices := map_erase key (mActiveServices m)\<rparr>) }
          else Some m })"

definition mgr_getProfile :: "nat \<Rightarrow> Uid \<Rightarrow> Uid \<Rightarrow> CServiceManager \<Rightarrow> (ptr \<times> CServiceManager) option" where
  "mgr_getProfile thread service profileApi m =
     (case map_of (mActiveServices m) service of
        None \<Rightarrow> Some (0, m)
      | Some sv \<Rightarrow> do { (obj, p) \<leftarrow> CService_getProfile thread profileApi sv (app_pim m); Some (obj, m\<lparr>app_pim := p\<rparr>) })"

definition mgr_releaseProfile :: "nat \<Rightarrow> Uid \<Rightarrow> Uid \<Rightarrow> CServiceManager \<Rightarrow> CServiceManager option" where
  "mgr_releaseProfile thread service profileApi m =
     (case map_of (mActiveServices m) service of
        None \<Rightarrow> Some m
      | Some sv \<Rightarrow> do {
          (sv, p) \<leftarrow> CService_releaseProfile thread profileApi sv (app_pim m);
          let m = set_service service sv (m\<lparr>app_pim := p\<rparr>);
          all \<leftarrow> allDied sv;
          if all then unload_service thread service sv m else Some m })"

text \<open>The destructor of the manager.\<close>

fun unload_services :: "nat \<Rightarrow> (Uid \<times> CService) list \<Rightarrow> CPIM \<Rightarrow> CPIM option" where
  "unload_services thread [] p = Some p"
| "unload_services thread ((_, sv) # svs) p = do {
     (sv, p) \<leftarrow> CService_unload thread sv p;
     p \<leftarrow> CService_delete thread sv p;
     unload_services thread svs p }"

section \<open>The calls of CPIM\<close>

definition unloadProfileThroughClient :: "nat \<Rightarrow> ptr \<Rightarrow> Uid \<Rightarrow> CServiceManager \<Rightarrow> CServiceManager option" where
  "unloadProfileThroughClient thread obj piuid m = do {
     ob \<leftarrow> objects (app_pim m) obj;
     m \<leftarrow> mgr_profileDied thread (mSid ob) piuid m;
     if im_isKnown piuid (app_pim m) then do {
       p \<leftarrow> unloadProfile_known piuid obj (app_pim m);
       Some (m\<lparr>app_pim := p\<rparr>) }
     else Some m }"

definition incomingProfileInternal ::
    "(Uid \<Rightarrow> load_env) \<Rightarrow> (Uid \<Rightarrow> manifest option) \<Rightarrow> nat \<Rightarrow> Uid \<Rightarrow> Uid \<Rightarrow> Uid \<Rightarrow> Uid \<Rightarrow> CServiceManager \<Rightarrow> CServiceManager option" where
  "incomingProfileInternal env manifest thread profileUid papiUid piuid serviceUID m = do {
     (ok, m) \<leftarrow> serviceRequestCallback manifest thread serviceUID m;
     if \<not> ok then Some m
     else do {
       let p = app_pim m;
       let m = m\<lparr>app_pim := p\<lparr>mIncomingPrfMap := mIncomingPrfMap p @ [((serviceUID, profileUid), piuid)]\<rparr>\<rparr>;
       (_, m) \<leftarrow> mgr_incomingProfile env manifest thread serviceUID profileUid papiUid m;
       Some m } }"

definition profileDiedInternal :: "nat \<Rightarrow> Uid \<Rightarrow> CServiceManager \<Rightarrow> CServiceManager option" where
  "profileDiedInternal thread piuid m =
     (case im_find piuid (app_pim m) of
        None \<Rightarrow> Some m
      | Some obj \<Rightarrow> (let p = app_pim m in
          unloadProfileThroughClient thread obj piuid (m\<lparr>app_pim := p\<lparr>mRemoteDiedProfiles := insert piuid (mRemoteDiedProfiles p)\<rparr>\<rparr>)))"

fun unload_through_client :: "nat \<Rightarrow> (Uid \<times> ptr) list \<Rightarrow> CServiceManager \<Rightarrow> CServiceManager option" where
  "unload_through_client thread [] m = Some m"
| "unload_through_client thread ((piuid, obj) # profiles) m = do {
     m \<leftarrow> unloadProfileThroughClient thread obj piuid m;
     unload_through_client thread profiles m }"

definition unloadAll :: "nat \<Rightarrow> CServiceManager \<Rightarrow> CServiceManager option" where
  "unloadAll thread m = unload_through_client thread (getAllRegisterd (app_pim m)) m"

text \<open>What the application makes of a message of the profile manager, one at a time in the single thread of its pool.\<close>

fun app_handle ::
    "(Uid \<Rightarrow> load_env) \<Rightarrow> (Uid \<Rightarrow> manifest option) \<Rightarrow> nat \<Rightarrow> pmp_message \<Rightarrow> CServiceManager \<Rightarrow> CServiceManager option" where
  "app_handle env manifest thread (PMP_IncomingProfile u papiUid piuid sid) m =
     incomingProfileInternal env manifest thread u papiUid piuid sid m"
| "app_handle env manifest thread (PMP_ProfileDied piuid) m = profileDiedInternal thread piuid m"
| "app_handle env manifest thread _ m = Some m"

end
