(* ===== verification/AppSafety.thy ===== *)
theory AppSafety
  imports AppManager
begin

text \<open>
  The services and profile instances of an application: every profile of an active service is an instance that is alive, and belongs to that
  service alone. What loading and unloading a service do to the instances, and where the operations do not return.
\<close>

section \<open>Maps from APIs to instances\<close>

lemma set_map_insert: "k \<notin> fst ` set m \<Longrightarrow> set (map_insert k v m) = insert (k, v) (set m)" for k :: "'k::linorder"
  by (induction m) (auto split: if_splits)

lemma set_map_erase: "set (map_erase k m) = {kv \<in> set m. fst kv \<noteq> k}"
  by (auto simp: map_erase_def)

lemma set_map_put: "set (map_insert k v (map_erase k m)) = insert (k, v) {kv \<in> set m. fst kv \<noteq> k}" for k :: "'k::linorder"
  by (subst set_map_insert) (auto simp: set_map_erase)

definition one_to_one :: "(Uid \<times> ptr) list \<Rightarrow> bool" where
  "one_to_one m \<longleftrightarrow> map_sorted m \<and> inj_on snd (set m)"

lemma one_to_one_Cons: "one_to_one ((api, obj) # m) \<Longrightarrow> one_to_one m \<and> obj \<notin> snd ` set m \<and> api \<notin> fst ` set m"
  unfolding one_to_one_def inj_on_def by fastforce

lemma one_to_one_put: "one_to_one m \<Longrightarrow> obj \<notin> snd ` set m \<Longrightarrow> one_to_one (map_insert api obj (map_erase api m))"
  unfolding one_to_one_def inj_on_def set_map_put by (auto intro: rev_image_eqI)

lemma one_to_one_erase: "one_to_one m \<Longrightarrow> one_to_one (map_erase api m)"
  unfolding one_to_one_def inj_on_def set_map_erase by auto

lemma fold_map_erase: "fold map_erase ks m = filter (\<lambda>(k, _). k \<notin> set ks) m"
  by (induction ks arbitrary: m) (auto simp: map_erase_def filter_filter case_prod_beta conj_commute intro!: filter_cong)

lemma one_to_one_filter: "one_to_one m \<Longrightarrow> one_to_one (filter P m)"
  unfolding one_to_one_def map_sorted_def inj_on_def by (auto simp: sorted_wrt_map intro: sorted_wrt_filter)

section \<open>Locks\<close>

definition alive :: "CPIM \<Rightarrow> ptr set" where
  "alive p = {obj. objects p obj \<noteq> None}"

definition locked :: "CPIM \<Rightarrow> ptr \<Rightarrow> bool" where
  "locked p obj \<longleftrightarrow> (\<exists>ob. objects p obj = Some ob \<and> mLockSet ob \<noteq> {})"

lemma isLocked_alive: "obj \<in> alive p \<Longrightarrow> isLocked obj p = Some (locked p obj)"
  by (auto simp: isLocked_def alive_def locked_def)

lemma profileInstance_alive:
  assumes "pim_ok p" and "obj \<in> alive p"
  shows "\<exists>q. profileInstance thread obj p = Some q \<and> pim_ok q \<and> alive q = alive p \<and> (\<forall>x. x \<noteq> obj \<longrightarrow> objects q x = objects p x) \<and> locked q obj"
proof -
  obtain ob where ob: "objects p obj = Some ob"
    using assms(2) by (auto simp: alive_def)
  let ?q = "p\<lparr>objects := (objects p)(obj \<mapsto> ob\<lparr>mLockSet := insert thread (mLockSet ob)\<rparr>)\<rparr>"
  have "pim_ok ?q"
    using assms(1) ob unfolding pim_ok_def by auto
  then show ?thesis
    using ob by (intro exI [of _ ?q]) (auto simp: profileInstance_def alive_def locked_def)
qed

lemma holder_release_alive:
  assumes "pim_ok p" and "obj \<in> alive p"
  shows "\<exists>q. holder_release thread obj p = Some q \<and> pim_ok q \<and> alive q = alive p \<and> (\<forall>x. x \<noteq> obj \<longrightarrow> objects q x = objects p x)"
proof -
  obtain ob where ob: "objects p obj = Some ob"
    using assms(2) by (auto simp: alive_def)
  let ?q = "p\<lparr>objects := (objects p)(obj \<mapsto> ob\<lparr>mLockSet := mLockSet ob - {thread}\<rparr>)\<rparr>"
  have "pim_ok ?q"
    using assms(1) ob unfolding pim_ok_def by auto
  then show ?thesis
    using ob by (intro exI [of _ ?q]) (auto simp: holder_release_def alive_def)
qed

lemma unloadProfile_gone:
  assumes "pim_ok p" and "obj \<in> alive p"
  shows "\<exists>q. unloadProfile obj p = Some (NO_ERROR, q) \<and> pim_ok q \<and> objects q = (objects p)(obj := None)"
proof -
  obtain ob where ob: "objects p obj = Some ob"
    using assms(2) by (auto simp: alive_def)
  show ?thesis
    by (rule unloadProfile_alive [OF assms(1) ob]) blast
qed

section \<open>Unloading a service\<close>

definition unloaded :: "(Uid \<times> ptr) list \<Rightarrow> Uid set \<Rightarrow> CPIM \<Rightarrow> Uid list \<Rightarrow> Uid set \<Rightarrow> CPIM \<Rightarrow> bool" where
  "unloaded m reqs p eraseList reqs' q \<longleftrightarrow>
     pim_ok q \<and> set eraseList = fst ` {kv \<in> set m. \<not> locked p (snd kv)}
     \<and> alive q = alive p - snd ` {kv \<in> set m. \<not> locked p (snd kv)}
     \<and> (\<forall>x. x \<notin> snd ` set m \<longrightarrow> objects q x = objects p x)
     \<and> (\<forall>x \<in> alive q. locked q x = locked p x)
     \<and> (reqs' = {} \<longleftrightarrow> reqs = {} \<and> (\<forall>kv \<in> set m. \<not> locked p (snd kv)))"

lemma unload_profiles_alive:
  assumes "pim_ok p" and "one_to_one m" and "snd ` set m \<subseteq> alive p"
  shows "\<exists>eraseList reqs' q. unload_profiles thread m reqs p = Some (eraseList, reqs', q) \<and> unloaded m reqs p eraseList reqs' q"
  using assms
proof (induction m arbitrary: p reqs)
  case (Cons kv m)
  obtain api obj where kv: "kv = (api, obj)"
    by (cases kv)
  have split: "one_to_one m" "obj \<notin> snd ` set m" "obj \<in> alive p" "snd ` set m \<subseteq> alive p"
    using one_to_one_Cons Cons.prems kv by auto
  show ?case
  proof (cases "locked p obj")
    case True
    obtain ob where ob: "objects p obj = Some ob"
      using split(3) by (auto simp: alive_def)
    obtain p1 where p1: "profileInstance thread obj p = Some p1" "pim_ok p1" "alive p1 = alive p"
      "\<forall>x. x \<noteq> obj \<longrightarrow> objects p1 x = objects p x" "locked p1 obj"
      using profileInstance_alive [OF Cons.prems(1) split(3), of thread] by blast
    have lk: "locked p1 x = locked p x" for x
      using p1(4,5) True by (cases "x = obj") (simp_all add: locked_def)
    have sub: "snd ` set m \<subseteq> alive p1"
      using split(4) p1(3) by simp
    obtain el reqs' q where q: "unload_profiles thread m (insert (mApi ob) reqs) p1 = Some (el, reqs', q)"
      and un: "unloaded m (insert (mApi ob) reqs) p1 el reqs' q"
      using Cons.IH [OF p1(2) split(1) sub, of "insert (mApi ob) reqs"] by blast
    have "unload_profiles thread (kv # m) reqs p = Some (el, reqs', q)"
      using kv True p1(1) q ob isLocked_alive [OF split(3)] by simp
    moreover have "{kv' \<in> set (kv # m). \<not> locked p (snd kv')} = {kv \<in> set m. \<not> locked p1 (snd kv)}"
      using kv True lk by auto
    then have "unloaded (kv # m) reqs p el reqs' q"
      using un p1(3,4) lk kv True unfolding unloaded_def by simp
    ultimately show ?thesis
      by blast
  next
    case False
    obtain ob where ob: "objects p obj = Some ob"
      using split(3) by (auto simp: alive_def)
    obtain p1 where p1: "unloadProfile obj p = Some (NO_ERROR, p1)" "pim_ok p1" "objects p1 = (objects p)(obj := None)"
      using unloadProfile_gone [OF Cons.prems(1) split(3)] by blast
    have lk: "x \<noteq> obj \<Longrightarrow> locked p1 x = locked p x" for x
      using p1(3) by (simp add: locked_def)
    have al: "alive p1 = alive p - {obj}"
      using p1(3) by (auto simp: alive_def)
    have sub: "snd ` set m \<subseteq> alive p1"
      using split(2,4) al by auto
    obtain el reqs' q where q: "unload_profiles thread m reqs p1 = Some (el, reqs', q)" and un: "unloaded m reqs p1 el reqs' q"
      using Cons.IH [OF p1(2) split(1) sub, of reqs] by blast
    have same: "{kv \<in> set m. \<not> locked p1 (snd kv)} = {kv \<in> set m. \<not> locked p (snd kv)}"
      using lk split(2) by (metis (no_types, lifting) image_eqI)
    have run: "unload_profiles thread (kv # m) reqs p = Some (api # el, reqs', q)"
      using kv False p1(1) q isLocked_alive [OF split(3)] by simp
    have all: "{kv' \<in> set (kv # m). \<not> locked p (snd kv')} = insert kv {kv \<in> set m. \<not> locked p (snd kv)}"
      using kv False by auto
    have gone: "alive q = alive p - snd ` insert kv {kv \<in> set m. \<not> locked p (snd kv)}"
      using un same kv al unfolding unloaded_def by auto
    have objs: "\<forall>x. x \<notin> snd ` set (kv # m) \<longrightarrow> objects q x = objects p x"
      using un p1(3) kv unfolding unloaded_def by auto
    have lks: "\<forall>x \<in> alive q. locked q x = locked p x"
      using un gone kv lk unfolding unloaded_def by auto
    have reqs: "reqs' = {} \<longleftrightarrow> reqs = {} \<and> (\<forall>kv' \<in> set (kv # m). \<not> locked p (snd kv'))"
      using un same kv False unfolding unloaded_def by auto
    have "pim_ok q" "set el = fst ` {kv \<in> set m. \<not> locked p (snd kv)}"
      using un same unfolding unloaded_def by simp_all
    then have "pim_ok q" "set (api # el) = fst ` insert kv {kv \<in> set m. \<not> locked p (snd kv)}"
      using kv by simp_all
    then have "unloaded (kv # m) reqs p (api # el) reqs' q"
      unfolding unloaded_def all using gone objs lks reqs by blast
    then show ?thesis
      using run by blast
  qed
qed (simp add: unloaded_def)

definition svc_good :: "CPIM \<Rightarrow> CService \<Rightarrow> bool" where
  "svc_good p sv \<longleftrightarrow> \<not> mProfilesMapMutex sv \<and> one_to_one (mProfilesMap sv) \<and> snd ` set (mProfilesMap sv) \<subseteq> alive p"

definition svc_unloaded :: "CService \<Rightarrow> CPIM \<Rightarrow> CService \<Rightarrow> CPIM \<Rightarrow> bool" where
  "svc_unloaded sv p sv' q \<longleftrightarrow>
     pim_ok q \<and> svc_good q sv'
     \<and> alive q = alive p - {obj \<in> snd ` set (mProfilesMap sv). \<not> locked p obj}
     \<and> (\<forall>x. x \<notin> snd ` set (mProfilesMap sv) \<longrightarrow> objects q x = objects p x)
     \<and> mProfilesMap sv' = filter (\<lambda>(_, obj). locked p obj) (mProfilesMap sv)
     \<and> (hasUnloadWaits sv' \<longleftrightarrow> hasUnloadWaits sv \<or> (\<exists>kv \<in> set (mProfilesMap sv). locked p (snd kv)))"

lemma CService_unload_good:
  assumes "pim_ok p" and good: "svc_good p sv"
  shows "\<exists>sv' q. CService_unload thread sv p = Some (sv', q) \<and> svc_unloaded sv p sv' q"
proof -
  let ?m = "mProfilesMap sv"
  have m: "\<not> mProfilesMapMutex sv" "one_to_one ?m" "snd ` set ?m \<subseteq> alive p"
    using good by (simp_all add: svc_good_def)
  obtain el reqs q where run: "unload_profiles thread ?m (mUnloadRequests sv) p = Some (el, reqs, q)"
    and un: "unloaded ?m (mUnloadRequests sv) p el reqs q"
    using unload_profiles_alive [OF assms(1) m(2,3)] by blast
  let ?sv = "sv\<lparr>mProfilesMap := fold map_erase el ?m, mUnloadRequests := reqs\<rparr>"
  have "(k \<in> set el) = (\<not> locked p obj)" if "(k, obj) \<in> set ?m" for k obj
  proof -
    have "map_of ?m k = Some obj"
      using that map_of_sorted_iff m(2) unfolding one_to_one_def by metis
    then have "obj' = obj" if "(k, obj') \<in> set ?m" for obj'
      using that map_of_sorted_iff m(2) unfolding one_to_one_def by (metis option.inject)
    moreover have el: "set el = fst ` {kv \<in> set ?m. \<not> locked p (snd kv)}"
      using un unfolding unloaded_def by blast
    have "k \<in> set el \<longleftrightarrow> (\<exists>obj'. (k, obj') \<in> set ?m \<and> \<not> locked p obj')"
      unfolding el by force
    ultimately show ?thesis
      using that by blast
  qed
  then have left: "mProfilesMap ?sv = filter (\<lambda>(_, obj). locked p obj) ?m"
    unfolding fold_map_erase by (auto simp: fold_map_erase intro!: filter_cong)
  have al: "alive q = alive p - {obj \<in> snd ` set ?m. \<not> locked p obj}"
    using un unfolding unloaded_def by auto
  have "svc_good q ?sv"
    unfolding svc_good_def left using m al one_to_one_filter by auto
  then have "svc_unloaded sv p ?sv q"
    using un al left unfolding svc_unloaded_def unloaded_def hasUnloadWaits_def by auto
  moreover have "CService_unload thread sv p = Some (?sv, q)"
    using run m(1) by (simp add: CService_unload_def)
  ultimately show ?thesis
    by blast
qed

text \<open>The destructor of a service whose profiles are all unloaded, or none of whose profiles is locked.\<close>

lemma CService_delete_empty: "\<not> mProfilesMapMutex sv \<Longrightarrow> mProfilesMap sv = [] \<Longrightarrow> CService_delete thread sv p = Some p"
  by (simp add: CService_delete_def CService_unload_def)

lemma CService_delete_good:
  assumes "pim_ok p" and "svc_good p sv" and free: "\<forall>obj \<in> snd ` set (mProfilesMap sv). \<not> locked p obj"
  shows "\<exists>q. CService_delete thread sv p = Some q \<and> pim_ok q \<and> alive q = alive p - snd ` set (mProfilesMap sv)
    \<and> (\<forall>x. x \<notin> snd ` set (mProfilesMap sv) \<longrightarrow> objects q x = objects p x)"
proof -
  obtain sv' q where run: "CService_unload thread sv p = Some (sv', q)" and un: "svc_unloaded sv p sv' q"
    using CService_unload_good [OF assms(1,2)] by blast
  have "{obj \<in> snd ` set (mProfilesMap sv). \<not> locked p obj} = snd ` set (mProfilesMap sv)"
    using free by blast
  then show ?thesis
    using run un unfolding svc_unloaded_def CService_delete_def by auto
qed

section \<open>Loading a service\<close>

lemma ipc_send_keeps [simp]:
  "pim_ok (ipc_send req p) = pim_ok p" "svc_good (ipc_send req p) sv = svc_good p sv" "alive (ipc_send req p) = alive p"
  using same_instances_ok [of p "ipc_send req p"] by (simp, simp_all add: svc_good_def alive_def ipc_send_def)

text \<open>The profiles loaded so far: new instances, not locked, one for each API read from the manifest.\<close>

definition loading :: "CPIM \<Rightarrow> CService \<Rightarrow> CService \<Rightarrow> CPIM \<Rightarrow> bool" where
  "loading p sv sv' q \<longleftrightarrow>
     pim_ok q \<and> svc_good q sv' \<and> (\<forall>x \<in> alive p. objects q x = objects p x)
     \<and> (\<forall>obj \<in> snd ` set (mProfilesMap sv') - snd ` set (mProfilesMap sv). obj \<notin> alive p \<and> \<not> locked q obj)
     \<and> mUid sv' = mUid sv \<and> mPairUid sv' = mPairUid sv \<and> mUnloadRequests sv' = mUnloadRequests sv \<and> mCorrect sv' = mCorrect sv"

lemma loading_refl: "pim_ok p \<Longrightarrow> svc_good p sv \<Longrightarrow> loading p sv sv p"
  by (simp add: loading_def)

lemma loading_same: "same_instances p q \<Longrightarrow> loading q sv sv' r \<Longrightarrow> loading p sv sv' r"
  by (auto simp: loading_def same_instances_def alive_def)

lemma svc_good_mono: "svc_good p sv \<Longrightarrow> alive p \<subseteq> alive q \<Longrightarrow> svc_good q sv"
  by (auto simp: svc_good_def)

lemma loaded_alive: "loaded env sid p err obj q \<Longrightarrow> alive p \<subseteq> alive q \<and> (\<forall>x \<in> alive p. objects q x = objects p x)"
  by (auto simp: loaded_def alive_def)

lemma load_profiles_loading:
  assumes "pim_ok p" and "svc_good p sv" and "\<forall>api. env_fine (env api)"
  shows "\<exists>err sv' q. load_profiles env cbMap nodes sv p = Some (err, sv', q) \<and> loading p sv sv' q"
  using assms
proof (induction nodes arbitrary: sv p)
  case Nil
  then show ?case
    using loading_refl by simp
next
  case (Cons node nodes)
  obtain api params where node: "node = (api, params)"
    by (cases node)
  let ?p1 = "ipc_send (PMAL_FindProfiles api params True) p"
  have same: "same_instances p ?p1"
    by simp
  have ok1: "pim_ok ?p1" "svc_good ?p1 sv"
    using Cons.prems by simp_all
  note stop = loading_same [OF same loading_refl [OF ok1]]
  show ?case
  proof (cases "api = '''' \<or> env_found (env api) \<in> {None, Some []} \<or> cbMap api = None")
    case True
    then show ?thesis
      using node stop loading_refl [OF Cons.prems(1,2)] by (auto simp: Let_def split: option.splits list.splits)
  next
    case False
    then obtain u us where found: "api \<noteq> ''''" "env_found (env api) = Some (u # us)" "cbMap api \<noteq> None"
      by (auto simp: neq_Nil_conv)
    obtain err obj p2 where load: "loadProfile (env api) u (mPairUid sv) ?p1 = Some (err, obj, p2)"
      and ld: "loaded (env api) (mPairUid sv) ?p1 err obj p2"
      using loadProfile_loaded [OF ok1(1)] Cons.prems(3) by metis
    have al: "alive ?p1 \<subseteq> alive p2" "\<forall>x \<in> alive ?p1. objects p2 x = objects ?p1 x" "pim_ok p2"
      using loaded_alive [OF ld] ld unfolding loaded_def by blast+
    show ?thesis
    proof (cases "err = NO_ERROR")
      case False
      have "loading ?p1 sv sv p2"
        using al svc_good_mono [OF ok1(2) al(1)] by (simp add: loading_def)
      then show ?thesis
        using node found load False loading_same [OF same] by (auto simp: Let_def)
    next
      case True
      let ?sv = "sv\<lparr>mProfilesMap := map_insert api obj (map_erase api (mProfilesMap sv))\<rparr>"
      have obj: "obj \<notin> alive ?p1" "obj \<in> alive p2" "\<not> locked p2 obj"
        using ld True unfolding loaded_def by (auto simp: alive_def locked_def new_holder_def)
      then have "obj \<notin> snd ` set (mProfilesMap sv)"
        using ok1(2) unfolding svc_good_def by blast
      then have good: "svc_good p2 ?sv"
        using ok1(2) al(1) obj(2) unfolding svc_good_def by (auto simp: set_map_put one_to_one_put)
      obtain err' sv' q where run: "load_profiles env cbMap nodes ?sv p2 = Some (err', sv', q)" and later: "loading p2 ?sv sv' q"
        using Cons.IH [OF al(3) good Cons.prems(3)] by blast
      have keeps: "\<forall>x \<in> alive p2. objects q x = objects p2 x"
        using later unfolding loading_def by blast
      have new: "x \<notin> alive ?p1 \<and> \<not> locked q x" if x: "x \<in> snd ` set (mProfilesMap sv') - snd ` set (mProfilesMap sv)" for x
      proof (cases "x \<in> snd ` set (mProfilesMap ?sv)")
        case True
        then have "x = obj"
          using x by (auto simp: set_map_put)
        then show ?thesis
          using obj keeps by (simp add: locked_def)
      next
        case False
        then show ?thesis
          using later x al(1) unfolding loading_def by blast
      qed
      have "loading ?p1 sv sv' q"
        using later keeps al new unfolding loading_def by auto
      then show ?thesis
        using node found load True run loading_same [OF same] by (auto simp: Let_def)
    qed
  qed
qed

section \<open>The manager\<close>

definition instances :: "CService \<Rightarrow> ptr set" where
  "instances sv = snd ` set (mProfilesMap sv)"

definition instances_of :: "Uid \<Rightarrow> CServiceManager \<Rightarrow> ptr set" where
  "instances_of service m = (case map_of (mActiveServices m) service of None \<Rightarrow> {} | Some sv \<Rightarrow> instances sv)"

definition app_ok :: "CServiceManager \<Rightarrow> bool" where
  "app_ok m \<longleftrightarrow>
     pim_ok (app_pim m) \<and> map_sorted (mActiveServices m)
     \<and> (\<forall>k sv. map_of (mActiveServices m) k = Some sv \<longrightarrow> svc_good (app_pim m) sv)
     \<and> (\<forall>k k'. k \<noteq> k' \<longrightarrow> instances_of k m \<inter> instances_of k' m = {})"

lemma app_ok_new: "app_ok (CServiceManager_new services)"
  by (simp add: app_ok_def CServiceManager_new_def pim_ok_new instances_of_def)

lemma map_of_put: "map_sorted m \<Longrightarrow> map_of (map_insert k v (map_erase k m)) = (map_of m)(k \<mapsto> v)" for k :: "'k::linorder"
  by (simp add: map_of_insert_new)

lemma instances_of_set:
  "map_sorted (mActiveServices m) \<Longrightarrow>
     instances_of k' (set_service k sv m\<lparr>app_pim := q\<rparr>) = (if k' = k then instances sv else instances_of k' m)"
  "map_sorted (mActiveServices m) \<Longrightarrow>
     instances_of k' (m\<lparr>app_pim := q, mActiveServices := map_erase k (mActiveServices m)\<rparr>) = (if k' = k then {} else instances_of k' m)"
  by (simp_all add: instances_of_def set_service_def map_of_put)

lemma instances_alive:
  assumes "app_ok m"
  shows "instances_of k m \<subseteq> alive (app_pim m)"
  using assms unfolding app_ok_def svc_good_def instances_of_def instances_def by (auto split: option.splits)

text \<open>A change of one service that touches only its own instances and new ones.\<close>

lemma app_ok_others:
  assumes ok: "app_ok m" and q: "alive (app_pim m) - instances_of k m \<subseteq> alive q"
    and "k' \<noteq> k" and "map_of (mActiveServices m) k' = Some sv'"
  shows "svc_good q sv'"
proof -
  have "instances_of k' m \<inter> instances_of k m = {}" "svc_good (app_pim m) sv'"
    using ok assms(3,4) unfolding app_ok_def by blast+
  then show ?thesis
    using q assms(4) unfolding svc_good_def instances_of_def instances_def by auto
qed

lemma app_ok_set:
  assumes ok: "app_ok m" and q: "pim_ok q" "alive (app_pim m) - instances_of k m \<subseteq> alive q"
    and sv: "svc_good q sv" "instances sv \<inter> alive (app_pim m) \<subseteq> instances_of k m"
  shows "app_ok (set_service k sv (m\<lparr>app_pim := q\<rparr>))"
proof -
  let ?m = "set_service k sv (m\<lparr>app_pim := q\<rparr>)"
  have sorted: "map_sorted (mActiveServices m)"
    using ok by (simp add: app_ok_def)
  have of: "instances_of k' ?m = (if k' = k then instances sv else instances_of k' m)" for k'
    using sorted by (simp add: instances_of_def set_service_def map_of_put)
  have "svc_good q sv'" if "map_of (mActiveServices ?m) k' = Some sv'" for k' sv'
    using that sorted sv(1) app_ok_others [OF ok q(2)] by (auto simp: set_service_def map_of_put split: if_splits)
  moreover have "instances sv \<inter> instances_of k' m = {}" if "k' \<noteq> k" for k'
  proof -
    have "instances_of k' m \<inter> instances_of k m = {}"
      using ok that unfolding app_ok_def by blast
    then show ?thesis
      using instances_alive [OF ok, of k'] sv(2) by blast
  qed
  then have "instances_of k1 ?m \<inter> instances_of k2 ?m = {}" if "k1 \<noteq> k2" for k1 k2
    using ok that unfolding of app_ok_def by (auto simp: Int_commute)
  ultimately show ?thesis
    using q(1) sorted unfolding app_ok_def by (auto simp: set_service_def)
qed

lemma app_ok_erase:
  assumes ok: "app_ok m" and q: "pim_ok q" "alive (app_pim m) - instances_of k m \<subseteq> alive q"
  shows "app_ok (m\<lparr>app_pim := q, mActiveServices := map_erase k (mActiveServices m)\<rparr>)"
proof -
  let ?m = "m\<lparr>app_pim := q, mActiveServices := map_erase k (mActiveServices m)\<rparr>"
  have of: "instances_of k' ?m = (if k' = k then {} else instances_of k' m)" for k'
    by (simp add: instances_of_def)
  have "svc_good q sv'" if "map_of (mActiveServices ?m) k' = Some sv'" for k' sv'
    using that app_ok_others [OF ok q(2)] by (auto split: if_splits)
  moreover have "instances_of k1 ?m \<inter> instances_of k2 ?m = {}" if "k1 \<noteq> k2" for k1 k2
    using ok that unfolding of app_ok_def by simp
  ultimately show ?thesis
    using q(1) ok unfolding app_ok_def by auto
qed

lemma app_ok_pim:
  assumes ok: "app_ok m" and q: "pim_ok q" "alive (app_pim m) \<subseteq> alive q"
  shows "app_ok (m\<lparr>app_pim := q\<rparr>)"
proof -
  have "instances_of k (m\<lparr>app_pim := q\<rparr>) = instances_of k m" for k
    by (simp add: instances_of_def)
  then show ?thesis
    using ok q svc_good_mono [OF _ q(2)] unfolding app_ok_def by auto
qed

lemma app_ok_service:
  assumes "app_ok m" and "map_of (mActiveServices m) service = Some sv"
  shows "svc_good (app_pim m) sv" and "instances_of service m = instances sv" and "pim_ok (app_pim m)"
  using assms unfolding app_ok_def instances_of_def by auto

section \<open>The operations of an application\<close>

definition new_service :: "(Uid \<Rightarrow> manifest option) \<Rightarrow> Uid \<Rightarrow> CService" where
  "new_service manifest service = (CService_new service)\<lparr>mPairUid := (case manifest service of None \<Rightarrow> '''' | Some (pair, _) \<Rightarrow> pair)\<rparr>"

lemma CService_load_loading:
  assumes ok: "pim_ok p" and env: "\<forall>api. env_fine (env api)"
  shows "\<exists>err sv q. CService_load env manifest cbMap (CService_new service) p = Some (err, sv, q)
    \<and> loading p (new_service manifest service) sv q"
proof -
  let ?sv = "new_service manifest service"
  have good: "svc_good p ?sv"
    by (simp add: svc_good_def new_service_def CService_new_def one_to_one_def)
  show ?thesis
  proof (cases "manifest service")
    case None
    then have "CService_load env manifest cbMap (CService_new service) p = Some (XML_PARSING_FAILED, ?sv, p)"
      by (simp add: CService_load_def CService_new_def new_service_def)
    then show ?thesis
      using loading_refl [OF ok good] by blast
  next
    case (Some mf)
    obtain pair nodes where mf: "mf = (pair, nodes)"
      by (cases mf)
    then have "CService_load env manifest cbMap (CService_new service) p = load_profiles env cbMap nodes ?sv p"
      using Some by (simp add: CService_load_def CService_new_def new_service_def)
    then show ?thesis
      using load_profiles_loading [OF ok good env] by simp
  qed
qed

lemma mgr_load_ok:
  assumes ok: "app_ok m" and env: "\<forall>api. env_fine (env api)"
  shows "\<exists>err m'. mgr_load env manifest thread service m = Some (err, m') \<and> app_ok m'
    \<and> (\<forall>x \<in> alive (app_pim m). objects (app_pim m') x = objects (app_pim m) x)"
proof (cases "service \<notin> mSystemServices m \<or> isActive service m")
  case True
  then show ?thesis
    using ok by (auto simp: mgr_load_def)
next
  case False
  let ?p = "app_pim m"
  have p: "pim_ok ?p"
    using ok by (simp add: app_ok_def)
  obtain err sv q where run: "CService_load env manifest (mCallbacks m) (CService_new service) ?p = Some (err, sv, q)"
    and ld: "loading ?p (new_service manifest service) sv q"
    using CService_load_loading [OF p env] by blast
  have q: "pim_ok q" "svc_good q sv" "\<forall>x \<in> alive ?p. objects q x = objects ?p x"
    using ld unfolding loading_def by blast+
  have "mProfilesMap (new_service manifest service) = []"
    by (simp add: new_service_def CService_new_def)
  then have new: "\<forall>obj \<in> instances sv. obj \<notin> alive ?p \<and> \<not> locked q obj"
    using ld unfolding loading_def instances_def by auto
  have al: "alive ?p \<subseteq> alive q"
    using q(3) by (auto simp: alive_def)
  show ?thesis
  proof (cases "err = NO_ERROR")
    case True
    have "app_ok (set_service service sv (m\<lparr>app_pim := q\<rparr>))"
      using new al by (intro app_ok_set [OF ok q(1) _ q(2)]) auto
    then show ?thesis
      using False True run q(3) by (auto simp: mgr_load_def set_service_def)
  next
    case failed: False
    obtain q' where del: "CService_delete thread sv q = Some q'" "pim_ok q'" "alive q' = alive q - instances sv"
      "\<forall>x. x \<notin> instances sv \<longrightarrow> objects q' x = objects q x"
      using CService_delete_good [OF q(1,2)] new unfolding instances_def by blast
    have "app_ok (m\<lparr>app_pim := q'\<rparr>)"
      using del(3) al new by (intro app_ok_pim [OF ok del(2)]) auto
    moreover have "\<forall>x \<in> alive ?p. objects q' x = objects ?p x"
      using del(4) new q(3) by metis
    ultimately show ?thesis
      using False failed run del(1) by (auto simp: mgr_load_def)
  qed
qed

lemma unload_service_ok:
  assumes ok: "app_ok m" and sv: "map_of (mActiveServices m) service = Some sv"
  shows "\<exists>m'. unload_service thread service sv m = Some m' \<and> app_ok m'"
proof -
  note good = app_ok_service [OF ok sv]
  obtain sv' q where run: "CService_unload thread sv (app_pim m) = Some (sv', q)" and un: "svc_unloaded sv (app_pim m) sv' q"
    using CService_unload_good [OF good(3,1)] by blast
  have q: "pim_ok q" "svc_good q sv'" "alive (app_pim m) - instances sv \<subseteq> alive q" "instances sv' \<subseteq> instances sv"
    using un unfolding svc_unloaded_def instances_def by auto
  show ?thesis
  proof (cases "hasUnloadWaits sv'")
    case True
    have "app_ok (set_service service sv' (m\<lparr>app_pim := q\<rparr>))"
      using q good(2) by (intro app_ok_set [OF ok q(1) _ q(2)]) auto
    then show ?thesis
      using run True by (simp add: unload_service_def)
  next
    case False
    then have "mProfilesMap sv' = []" "\<not> mProfilesMapMutex sv'"
      using un unfolding svc_unloaded_def svc_good_def by (auto simp: filter_empty_conv)
    then have "CService_delete thread sv' q = Some q"
      by (simp add: CService_delete_empty)
    moreover have "app_ok (m\<lparr>app_pim := q, mActiveServices := map_erase service (mActiveServices m)\<rparr>)"
      using q good(2) by (intro app_ok_erase [OF ok q(1)]) auto
    ultimately show ?thesis
      using run False by (simp add: unload_service_def)
  qed
qed

lemma mgr_unload_ok:
  assumes "app_ok m"
  shows "\<exists>b m'. mgr_unload thread service m = Some (b, m') \<and> app_ok m'"
proof (cases "map_of (mActiveServices m) service")
  case None
  then show ?thesis
    using assms by (auto simp: mgr_unload_def)
next
  case (Some sv)
  obtain m' where "unload_service thread service sv m = Some m'" "app_ok m'"
    using unload_service_ok [OF assms Some] by blast
  then show ?thesis
    using Some by (auto simp: mgr_unload_def)
qed

lemma svc_entry_alive:
  assumes "pim_ok p" and "svc_good p sv" and "map_of (mProfilesMap sv) api = Some obj"
  shows "obj \<in> alive p" and "obj \<noteq> 0" and "obj \<in> instances sv"
proof -
  have "obj \<in> snd ` set (mProfilesMap sv)"
    using map_of_SomeD [OF assms(3)] by force
  then show "obj \<in> instances sv" "obj \<in> alive p"
    using assms(2) unfolding svc_good_def instances_def by blast+
  then show "obj \<noteq> 0"
    using assms(1) unfolding pim_ok_def alive_def by auto
qed

lemma mgr_getProfile_ok:
  assumes ok: "app_ok m"
  shows "\<exists>obj m'. mgr_getProfile thread service api m = Some (obj, m') \<and> app_ok m' \<and> (obj \<noteq> 0 \<longrightarrow> obj \<in> instances_of service m)"
proof (cases "map_of (mActiveServices m) service")
  case None
  then show ?thesis
    using ok by (simp add: mgr_getProfile_def)
next
  case (Some sv)
  note good = app_ok_service [OF ok Some]
  have free: "\<not> mProfilesMapMutex sv"
    using good(1) by (simp add: svc_good_def)
  show ?thesis
  proof (cases "map_of (mProfilesMap sv) api")
    case None
    then show ?thesis
      using Some ok free by (simp add: mgr_getProfile_def CService_getProfile_def)
  next
    case entry: (Some obj)
    note obj = svc_entry_alive [OF good(3,1) entry]
    obtain q where q: "profileInstance thread obj (app_pim m) = Some q" "pim_ok q" "alive q = alive (app_pim m)"
      using profileInstance_alive [OF good(3) obj(1)] by blast
    have "app_ok (m\<lparr>app_pim := q\<rparr>)"
      using q by (intro app_ok_pim [OF ok]) simp_all
    then show ?thesis
      using Some entry free obj q(1) good(2) by (simp add: mgr_getProfile_def CService_getProfile_def)
  qed
qed

lemma CService_releaseProfile_good:
  assumes p: "pim_ok p" and good: "svc_good p sv"
  shows "\<exists>sv' q. CService_releaseProfile thread api sv p = Some (sv', q) \<and> pim_ok q \<and> svc_good q sv' \<and> instances sv' \<subseteq> instances sv
    \<and> alive p - instances sv \<subseteq> alive q"
proof (cases "map_of (mProfilesMap sv) api")
  case None
  then show ?thesis
    using p good by (simp add: CService_releaseProfile_def svc_good_def)
next
  case (Some obj)
  note obj = svc_entry_alive [OF p good Some]
  obtain ob where ob: "objects p obj = Some ob"
    using obj(1) by (auto simp: alive_def)
  have sv: "\<not> mProfilesMapMutex sv" "one_to_one (mProfilesMap sv)" "instances sv \<subseteq> alive p"
    using good by (simp_all add: svc_good_def instances_def)
  obtain p1 where p1: "profileInstance thread obj p = Some p1" "pim_ok p1" "alive p1 = alive p"
    using profileInstance_alive [OF p obj(1)] by blast
  obtain p2 where p2: "holder_release thread obj p1 = Some p2" "pim_ok p2" "alive p2 = alive p"
    using holder_release_alive [OF p1(2), of obj] obj(1) p1(3) by metis
  show ?thesis
  proof (cases "mApi ob \<in> mUnloadRequests sv")
    case False
    then have "CService_releaseProfile thread api sv p = Some (sv, p2)"
      using Some obj(2) ob p1(1) p2(1) sv(1) by (simp add: CService_releaseProfile_def)
    moreover have "svc_good p2 sv"
      using good p2(3) by (intro svc_good_mono [OF good]) simp
    ultimately show ?thesis
      using p2 by blast
  next
    case True
    let ?sv = "sv\<lparr>mProfilesMap := map_erase api (mProfilesMap sv)\<rparr>"
    obtain p3 where p3: "unloadProfile obj p2 = Some (NO_ERROR, p3)" "pim_ok p3" "objects p3 = (objects p2)(obj := None)"
      using unloadProfile_gone [OF p2(2), of obj] obj(1) p2(3) by blast
    have al: "alive p3 = alive p - {obj}"
      using p3(3) p2(3) by (auto simp: alive_def)
    have "obj \<notin> instances ?sv"
    proof
      assume "obj \<in> instances ?sv"
      then obtain k where k: "(k, obj) \<in> set (mProfilesMap sv)" "k \<noteq> api"
        by (auto simp: instances_def set_map_erase)
      moreover have "(api, obj) \<in> set (mProfilesMap sv)"
        by (rule map_of_SomeD [OF Some])
      ultimately show False
        using sv(2) unfolding one_to_one_def inj_on_def by force
    qed
    moreover have "instances ?sv \<subseteq> instances sv"
      by (auto simp: instances_def set_map_erase)
    ultimately have "svc_good p3 ?sv" "instances ?sv \<subseteq> instances sv"
      using sv al one_to_one_erase unfolding svc_good_def instances_def by auto
    moreover have "CService_releaseProfile thread api sv p = Some (?sv, p3)"
      using Some obj(2) ob p1(1) p2(1) p3(1) sv(1) True by (simp add: CService_releaseProfile_def)
    ultimately show ?thesis
      using p3(2) al obj(3) by blast
  qed
qed

lemma mgr_releaseProfile_ok:
  assumes ok: "app_ok m"
  shows "\<exists>m'. mgr_releaseProfile thread service api m = Some m' \<and> app_ok m'"
proof (cases "map_of (mActiveServices m) service")
  case None
  then show ?thesis
    using ok by (simp add: mgr_releaseProfile_def)
next
  case (Some sv)
  note good = app_ok_service [OF ok Some]
  obtain sv' q where run: "CService_releaseProfile thread api sv (app_pim m) = Some (sv', q)" and q: "pim_ok q" "svc_good q sv'"
    "instances sv' \<subseteq> instances sv" "alive (app_pim m) - instances sv \<subseteq> alive q"
    using CService_releaseProfile_good [OF good(3,1)] by blast
  let ?m = "set_service service sv' (m\<lparr>app_pim := q\<rparr>)"
  have set: "app_ok ?m"
    using q good(2) by (intro app_ok_set [OF ok q(1) _ q(2)]) auto
  have "map_sorted (mActiveServices m)"
    using ok by (simp add: app_ok_def)
  then have sv': "map_of (mActiveServices ?m) service = Some sv'"
    by (simp add: set_service_def map_of_put)
  obtain m' where "unload_service thread service sv' ?m = Some m'" "app_ok m'"
    using unload_service_ok [OF set sv'] by blast
  moreover have "allDied sv' = Some (mProfilesMap sv' = [])"
    using q(2) by (simp add: allDied_def svc_good_def)
  ultimately show ?thesis
    using Some run set by (cases "mProfilesMap sv' = []") (auto simp: mgr_releaseProfile_def Let_def)
qed

text \<open>Runs in which the application and its threads call the operations in any order; the surroundings may change at every load.\<close>

inductive app_step :: "(Uid \<Rightarrow> manifest option) \<Rightarrow> CServiceManager \<Rightarrow> CServiceManager \<Rightarrow> bool" for manifest where
  a_load: "\<forall>api. env_fine (env api) \<Longrightarrow> mgr_load env manifest thread service m = Some (err, m') \<Longrightarrow> app_step manifest m m'"
| a_unload: "mgr_unload thread service m = Some (b, m') \<Longrightarrow> app_step manifest m m'"
| a_getProfile: "mgr_getProfile thread service api m = Some (obj, m') \<Longrightarrow> app_step manifest m m'"
| a_releaseProfile: "mgr_releaseProfile thread service api m = Some m' \<Longrightarrow> app_step manifest m m'"
| a_client: "app_step manifest m (registerClient m)"
| a_callbacks: "app_step manifest m (registerProfileCallbacks api cb m)"

inductive app_reach :: "(Uid \<Rightarrow> manifest option) \<Rightarrow> CServiceManager \<Rightarrow> bool" for manifest where
  app_start: "app_reach manifest (CServiceManager_new services)"
| app_next: "app_reach manifest m \<Longrightarrow> app_step manifest m m' \<Longrightarrow> app_reach manifest m'"

inductive_cases app_stepE: "app_step manifest m m'"

lemma app_ok_registrations: "app_ok m \<Longrightarrow> app_ok (registerClient m)" "app_ok m \<Longrightarrow> app_ok (registerProfileCallbacks api cb m)"
  by (simp_all add: app_ok_def registerClient_def registerProfileCallbacks_def instances_of_def)

lemma app_step_ok:
  assumes "app_step manifest m m'" and "app_ok m"
  shows "app_ok m'"
  using assms(1)
proof cases
  case (a_load env thread service err)
  then show ?thesis
    using mgr_load_ok [OF assms(2)] by (metis option.inject prod.inject)
next
  case (a_unload thread service b)
  then show ?thesis
    using mgr_unload_ok [OF assms(2)] by (metis option.inject prod.inject)
next
  case (a_getProfile thread service api obj)
  then show ?thesis
    using mgr_getProfile_ok [OF assms(2)] by (metis option.inject prod.inject)
next
  case (a_releaseProfile thread service api)
  then show ?thesis
    using mgr_releaseProfile_ok [OF assms(2)] by (metis option.inject)
qed (use assms(2) app_ok_registrations in simp_all)

lemma app_reach_ok: "app_reach manifest m \<Longrightarrow> app_ok m"
  by (induction rule: app_reach.induct) (simp_all add: app_ok_new app_step_ok)

end
