(* ===== verification/AppLife.thy ===== *)
theory AppLife
  imports AppSafety
begin

text \<open>
  What loading and unloading a service do, and the runs of an application in which its operations do not do what they are for.
\<close>

section \<open>Loading is all or nothing\<close>

text \<open>When every request is sent and no API occurs twice, no instance is left without a service.\<close>

lemma loaded_exact:
  assumes "loaded env sid p err obj q" and "env_createProfile env"
  shows "alive q = (if err = NO_ERROR then insert obj (alive p) else alive p)"
  using assms by (auto simp: loaded_def alive_def)

lemma load_profiles_exact:
  assumes "pim_ok p" and "svc_good p sv" and "\<forall>api. env_fine (env api) \<and> env_createProfile (env api)"
    and "distinct (map fst nodes)" and "fst ` set nodes \<inter> fst ` set (mProfilesMap sv) = {}"
    and "load_profiles env cbMap nodes sv p = Some (err, sv', q)"
  shows "alive q = alive p \<union> instances sv' \<and> instances sv \<subseteq> instances sv'
    \<and> (err = NO_ERROR \<longrightarrow> fst ` set (mProfilesMap sv') = fst ` set (mProfilesMap sv) \<union> fst ` set nodes)"
  using assms
proof (induction nodes arbitrary: sv p)
  case Nil
  then show ?case
    by (auto simp: svc_good_def instances_def)
next
  case (Cons node nodes)
  obtain api params where node: "node = (api, params)"
    by (cases node)
  let ?p1 = "ipc_send (PMAL_FindProfiles api params True) p"
  have p1: "pim_ok ?p1" "svc_good ?p1 sv" "alive ?p1 = alive p"
    using Cons.prems(1,2) by simp_all
  have old: "instances sv \<subseteq> alive p"
    using Cons.prems(2) by (simp add: svc_good_def instances_def)
  show ?case
  proof (cases "api = '''' \<or> env_found (env api) \<in> {None, Some []} \<or> cbMap api = None")
    case True
    then have "sv' = sv \<and> (q = p \<or> q = ?p1) \<and> err \<noteq> NO_ERROR"
      using Cons.prems(6) node by (auto simp: Let_def split: option.splits list.splits if_splits)
    then show ?thesis
      using old p1(3) by auto
  next
    case False
    then obtain u us where found: "api \<noteq> ''''" "env_found (env api) = Some (u # us)" "cbMap api \<noteq> None"
      by (auto simp: neq_Nil_conv)
    obtain err1 obj p2 where load: "loadProfile (env api) u (mPairUid sv) ?p1 = Some (err1, obj, p2)"
      and ld: "loaded (env api) (mPairUid sv) ?p1 err1 obj p2"
      using loadProfile_loaded [OF p1(1)] Cons.prems(3) by metis
    have al: "alive p2 = (if err1 = NO_ERROR then insert obj (alive p) else alive p)" "pim_ok p2"
      using loaded_exact [OF ld] Cons.prems(3) p1(3) ld unfolding loaded_def by auto
    show ?thesis
    proof (cases "err1 = NO_ERROR")
      case False
      then have "sv' = sv" "q = p2" "err \<noteq> NO_ERROR"
        using Cons.prems(6) node found load by (auto simp: Let_def)
      then show ?thesis
        using old al False by auto
    next
      case True
      let ?sv = "sv\<lparr>mProfilesMap := map_insert api obj (map_erase api (mProfilesMap sv))\<rparr>"
      have run: "load_profiles env cbMap nodes ?sv p2 = Some (err, sv', q)"
        using Cons.prems(6) node found load True by (simp add: Let_def)
      have new: "obj \<notin> alive p"
        using ld True unfolding loaded_def by (auto simp: alive_def ipc_send_def)
      have entries: "set (mProfilesMap ?sv) = insert (api, obj) (set (mProfilesMap sv))"
        using Cons.prems(5) node by (auto simp: set_map_put)
      have inst: "instances ?sv = insert obj (instances sv)"
        unfolding instances_def entries by simp
      have "obj \<notin> snd ` set (mProfilesMap sv)"
        using old new by (auto simp: instances_def)
      then have good: "svc_good p2 ?sv"
        using Cons.prems(2) al(1) True unfolding svc_good_def by (auto simp: set_map_put one_to_one_put)
      have "fst ` set nodes \<inter> fst ` set (mProfilesMap ?sv) = {}" "distinct (map fst nodes)"
        using Cons.prems(4,5) node unfolding entries by auto
      from Cons.IH [OF al(2) good Cons.prems(3) this(2,1) run] show ?thesis
        using al(1) True inst node unfolding entries by auto
    qed
  qed
qed

definition apis_distinct :: "(Uid \<Rightarrow> manifest option) \<Rightarrow> bool" where
  "apis_distinct manifest \<longleftrightarrow> (\<forall>service pair nodes. manifest service = Some (pair, nodes) \<longrightarrow> distinct (map fst nodes))"

definition manifest_apis :: "(Uid \<Rightarrow> manifest option) \<Rightarrow> Uid \<Rightarrow> Uid set" where
  "manifest_apis manifest service = (case manifest service of None \<Rightarrow> {} | Some (_, nodes) \<Rightarrow> fst ` set nodes)"

definition loaded_apis :: "Uid \<Rightarrow> CServiceManager \<Rightarrow> Uid set" where
  "loaded_apis service m = (case map_of (mActiveServices m) service of None \<Rightarrow> {} | Some sv \<Rightarrow> fst ` set (mProfilesMap sv))"

lemma CService_load_exact:
  assumes p: "pim_ok p" and env: "\<forall>api. env_fine (env api) \<and> env_createProfile (env api)" and "apis_distinct manifest"
    and run: "CService_load env manifest cbMap (CService_new service) p = Some (err, sv, q)"
  shows "alive q = alive p \<union> instances sv \<and> (err = NO_ERROR \<longrightarrow> fst ` set (mProfilesMap sv) = manifest_apis manifest service)"
proof (cases "manifest service")
  case None
  then show ?thesis
    using run by (auto simp: CService_load_def CService_new_def instances_def)
next
  case (Some mf)
  obtain pair nodes where mf: "mf = (pair, nodes)"
    by (cases mf)
  let ?sv = "(CService_new service)\<lparr>mPairUid := pair\<rparr>"
  have "svc_good p ?sv" "distinct (map fst nodes)" "mProfilesMap ?sv = []"
    using assms(3) Some mf by (auto simp: svc_good_def CService_new_def one_to_one_def apis_distinct_def)
  moreover have "load_profiles env cbMap nodes ?sv p = Some (err, sv, q)"
    using run Some mf by (simp add: CService_load_def CService_new_def)
  ultimately show ?thesis
    using load_profiles_exact [OF p _ env, of ?sv nodes cbMap err sv q] Some mf by (simp add: manifest_apis_def)
qed


section \<open>A service that is unloaded while a thread uses one of its profiles\<close>

definition waits :: "Uid \<Rightarrow> CServiceManager \<Rightarrow> bool" where
  "waits service m \<longleftrightarrow> (\<exists>sv. map_of (mActiveServices m) service = Some sv \<and> hasUnloadWaits sv)"

lemma waits_set: "map_sorted (mActiveServices m) \<Longrightarrow>
    waits service (set_service k sv (m\<lparr>app_pim := q\<rparr>)) = (if k = service then hasUnloadWaits sv else waits service m)"
  by (simp add: waits_def set_service_def map_of_put)

lemma waits_pim [simp]: "waits service (m\<lparr>app_pim := q\<rparr>) = waits service m"
  by (simp add: waits_def)

lemma unload_service_fewer:
  assumes ok: "app_ok m" and sv: "map_of (mActiveServices m) k = Some sv" and run: "unload_service thread k sv m = Some m'"
  shows "alive (app_pim m') \<subseteq> alive (app_pim m)"
proof -
  note good = app_ok_service [OF ok sv]
  obtain sv' q where un: "CService_unload thread sv (app_pim m) = Some (sv', q)" "svc_unloaded sv (app_pim m) sv' q"
    using CService_unload_good [OF good(3,1)] by blast
  have fewer: "alive q \<subseteq> alive (app_pim m)"
    using un(2) unfolding svc_unloaded_def by blast
  show ?thesis
  proof (cases "hasUnloadWaits sv'")
    case True
    then show ?thesis
      using run un(1) fewer by (auto simp: unload_service_def set_service_def)
  next
    case False
    then have "mProfilesMap sv' = []" "\<not> mProfilesMapMutex sv'"
      using un(2) unfolding svc_unloaded_def svc_good_def by (auto simp: filter_empty_conv)
    then show ?thesis
      using run un(1) False fewer by (auto simp: unload_service_def CService_delete_empty)
  qed
qed

lemma unload_service_waits:
  assumes ok: "app_ok m" and sv: "map_of (mActiveServices m) k = Some sv" and w: "waits service m"
    and run: "unload_service thread k sv m = Some m'"
  shows "waits service m'"
proof -
  have sorted: "map_sorted (mActiveServices m)"
    using ok by (simp add: app_ok_def)
  note good = app_ok_service [OF ok sv]
  obtain sv' q where un: "CService_unload thread sv (app_pim m) = Some (sv', q)" "svc_unloaded sv (app_pim m) sv' q"
    using CService_unload_good [OF good(3,1)] by blast
  have keep: "hasUnloadWaits sv \<Longrightarrow> hasUnloadWaits sv'"
    using un(2) unfolding svc_unloaded_def by blast
  show ?thesis
  proof (cases "hasUnloadWaits sv'")
    case True
    then show ?thesis
      using run un(1) w sorted by (auto simp: unload_service_def waits_set)
  next
    case False
    then have "k \<noteq> service"
      using keep w sv unfolding waits_def by auto
    then show ?thesis
      using run un(1) False w by (auto simp: unload_service_def waits_def split: bind_splits)
  qed
qed

lemma mgr_load_waits:
  assumes "app_ok m" and "mgr_load env manifest thread k m = Some (err, m')" and "waits service m"
  shows "waits service m'"
proof -
  have sorted: "map_sorted (mActiveServices m)"
    using assms(1) by (simp add: app_ok_def)
  have "isActive service m"
    using assms(3) by (auto simp: waits_def isActive_def)
  then show ?thesis
    using assms(2,3) sorted by (auto simp: mgr_load_def waits_set split: if_splits bind_splits)
qed

lemma mgr_releaseProfile_waits:
  assumes ok: "app_ok m" and run: "mgr_releaseProfile thread k api m = Some m'" and w: "waits service m"
  shows "waits service m'"
proof (cases "map_of (mActiveServices m) k")
  case None
  then show ?thesis
    using run w by (simp add: mgr_releaseProfile_def)
next
  case (Some sv)
  have sorted: "map_sorted (mActiveServices m)"
    using ok by (simp add: app_ok_def)
  note good = app_ok_service [OF ok Some]
  obtain sv' q where rel: "CService_releaseProfile thread api sv (app_pim m) = Some (sv', q)" and q: "pim_ok q" "svc_good q sv'"
    "instances sv' \<subseteq> instances sv" "alive (app_pim m) - instances sv \<subseteq> alive q"
    using CService_releaseProfile_good [OF good(3,1)] by blast
  have reqs: "mUnloadRequests sv' = mUnloadRequests sv"
    using rel by (auto simp: CService_releaseProfile_def split: bind_splits option.splits if_splits)
  let ?m = "set_service k sv' (m\<lparr>app_pim := q\<rparr>)"
  have okm: "app_ok ?m"
    using q good(2) by (intro app_ok_set [OF ok q(1) _ q(2)]) auto
  have wm: "waits service ?m"
  proof (cases "k = service")
    case True
    then have "hasUnloadWaits sv"
      using w Some by (auto simp: waits_def)
    then show ?thesis
      using True reqs by (simp add: waits_set [OF sorted] hasUnloadWaits_def)
  next
    case False
    then show ?thesis
      using w by (simp add: waits_set [OF sorted])
  qed
  have sv': "map_of (mActiveServices ?m) k = Some sv'"
    using sorted by (simp add: set_service_def map_of_put)
  have "m' = ?m \<or> unload_service thread k sv' ?m = Some m'"
    using run Some rel by (auto simp: mgr_releaseProfile_def Let_def split: bind_splits if_splits)
  then show ?thesis
    using wm unload_service_waits [OF okm sv' wm] by blast
qed

lemma app_step_waits:
  assumes "app_step manifest m m'" and ok: "app_ok m" and w: "waits service m"
  shows "waits service m'"
  using assms(1)
proof cases
  case (a_load env thread k err)
  then show ?thesis
    using mgr_load_waits [OF ok _ w] by blast
next
  case (a_unload thread k b)
  then show ?thesis
    using unload_service_waits [OF ok _ w] w by (auto simp: mgr_unload_def split: option.splits bind_splits)
next
  case (a_getProfile thread k api obj)
  then show ?thesis
    using w by (auto simp: mgr_getProfile_def split: option.splits bind_splits)
next
  case (a_releaseProfile thread k api)
  then show ?thesis
    using mgr_releaseProfile_waits [OF ok _ w] by blast
qed (use w in \<open>simp_all add: waits_def registerClient_def registerProfileCallbacks_def\<close>)


text \<open>
  The first thread that releases such a profile unloads it, even if another thread still holds it, and the pointer
  that the other one has points to a deleted object.
\<close>

theorem released_while_in_use:
  assumes "app_reach manifest m" and "map_of (mActiveServices m) service = Some sv" and "map_of (mProfilesMap sv) api = Some obj"
    and "objects (app_pim m) obj = Some ob" and "mApi ob \<in> mUnloadRequests sv" and "other \<in> mLockSet ob" and "other \<noteq> thread"
    and "mgr_releaseProfile thread service api m = Some m'"
  shows "obj \<notin> alive (app_pim m')"
proof -
  note ok = app_reach_ok [OF assms(1)]
  have sorted: "map_sorted (mActiveServices m)"
    using ok by (simp add: app_ok_def)
  note good = app_ok_service [OF ok assms(2)]
  obtain sv' q where rel: "CService_releaseProfile thread api sv (app_pim m) = Some (sv', q)" and q: "pim_ok q" "svc_good q sv'"
    "instances sv' \<subseteq> instances sv" "alive (app_pim m) - instances sv \<subseteq> alive q"
    using CService_releaseProfile_good [OF good(3,1)] by blast
  note entry = svc_entry_alive [OF good(3,1) assms(3)]
  obtain p1 where p1: "profileInstance thread obj (app_pim m) = Some p1" "pim_ok p1" "alive p1 = alive (app_pim m)"
    using profileInstance_alive [OF good(3) entry(1)] by blast
  obtain p2 where p2: "holder_release thread obj p1 = Some p2" "pim_ok p2" "alive p2 = alive (app_pim m)"
    using holder_release_alive [OF p1(2), of obj] entry(1) p1(3) by metis
  obtain p3 where p3: "unloadProfile obj p2 = Some (NO_ERROR, p3)" "objects p3 = (objects p2)(obj := None)"
    using unloadProfile_gone [OF p2(2), of obj] entry(1) p2(3) by blast
  have "\<not> mProfilesMapMutex sv"
    using good(1) by (simp add: svc_good_def)
  then have "q = p3"
    using rel assms(3,4,5) entry(2) p1(1) p2(1) p3(1) by (simp add: CService_releaseProfile_def)
  then have gone: "obj \<notin> alive q"
    using p3(2) by (simp add: alive_def)
  let ?m = "set_service service sv' (m\<lparr>app_pim := q\<rparr>)"
  have okm: "app_ok ?m"
    using q good(2) by (intro app_ok_set [OF ok q(1) _ q(2)]) auto
  have sv': "map_of (mActiveServices ?m) service = Some sv'"
    using sorted by (simp add: set_service_def map_of_put)
  have "m' = ?m \<or> unload_service thread service sv' ?m = Some m'"
    using assms(8) rel assms(2) by (auto simp: mgr_releaseProfile_def Let_def split: bind_splits if_splits)
  moreover have "app_pim ?m = q"
    by (simp add: set_service_def)
  ultimately show ?thesis
    using gone unload_service_fewer [OF okm sv'] by auto
qed

section \<open>Profiles that die on the other device, and profiles that come from it\<close>

lemma find_dying_pim [simp]: "find_dying s (m\<lparr>app_pim := q\<rparr>) = find_dying s m"
  by (simp add: find_dying_def split: option.split)

lemma find_instance_unique:
  assumes "pim_ok p" and "snd ` set m \<subseteq> alive p" and "(api, obj) \<in> set m" and "objects p obj = Some ob"
  shows "\<exists>api'. find_instance (mProfileID ob) m p = Some (Some (api', obj))"
  using assms(2,3)
proof (induction m)
  case (Cons kv m)
  obtain api1 obj1 where kv: "kv = (api1, obj1)"
    by (cases kv)
  obtain ob1 where ob1: "objects p obj1 = Some ob1"
    using Cons.prems(1) kv by (auto simp: alive_def)
  show ?case
  proof (cases "mProfileID ob1 = mProfileID ob")
    case True
    then have "mUidMap p obj1 = mUidMap p obj"
      using assms(1,4) ob1 unfolding pim_ok_def by simp
    moreover have "mUidMap p obj = Some (mProfileID ob)"
      using assms(1,4) unfolding pim_ok_def by simp
    ultimately have "obj1 = obj"
      using assms(1) unfolding pim_ok_def by (metis option.inject)
    then show ?thesis
      using kv ob1 True by simp
  next
    case False
    then have "(api, obj) \<in> set m"
      using Cons.prems(2) kv assms(4) ob1 by auto
    then show ?thesis
      using Cons.IH Cons.prems(1) kv ob1 False by simp
  qed
qed simp

text \<open>
  When a profile dies on the other device while a thread of the application holds it, the application's pool thread
  never returns: it leaves the profiles' mutex locked and locks it again, and it keeps the mutex of the services.
\<close>

theorem death_in_use_blocks:
  assumes "app_reach manifest m" and "im_find piuid (app_pim m) = Some obj" and "locked (app_pim m) obj"
    and "objects (app_pim m) obj = Some ob" and "find_dying (mSid ob) m = Some (key, sv)" and "map_of (mActiveServices m) key = Some sv"
    and "(api, obj) \<in> set (mProfilesMap sv)"
  shows "app_handle env manifest' thread (PMP_ProfileDied piuid) m = None"
proof -
  note ok = app_reach_ok [OF assms(1)]
  let ?d = "mRemoteDiedProfiles (app_pim m)"
  let ?p = "(app_pim m)\<lparr>mRemoteDiedProfiles := insert piuid ?d\<rparr>"
  let ?m = "m\<lparr>app_pim := ?p\<rparr>"
  note good = app_ok_service [OF ok assms(6)]
  have id: "mProfileID ob = piuid"
    using assms(2,4) good(3) unfolding pim_ok_def im_find_def by simp
  have p: "pim_ok ?p" "alive ?p = alive (app_pim m)" "objects ?p = objects (app_pim m)" "locked ?p obj"
    using good(3) assms(3) same_instances_ok [of "app_pim m" ?p] by (simp_all add: alive_def locked_def)
  have sv: "\<not> mProfilesMapMutex sv" "snd ` set (mProfilesMap sv) \<subseteq> alive ?p"
    using good(1) p(2) by (simp_all add: svc_good_def)
  obtain api' where found: "find_instance piuid (mProfilesMap sv) ?p = Some (Some (api', obj))"
    using find_instance_unique [OF p(1) sv(2) assms(7)] p(3) assms(4) id by auto
  have al: "obj \<in> alive ?p"
    using assms(4) p(2) by (simp add: alive_def)
  obtain q where q: "profileInstance thread obj ?p = Some q"
    using profileInstance_alive [OF p(1) al] by blast
  have "\<exists>sv' q. CService_profileDied thread piuid sv ?p = Some (sv', q) \<and> mProfilesMapMutex sv'"
    using sv(1) found isLocked_alive [OF al] p(3,4) assms(4) q by (simp add: CService_profileDied_def)
  then obtain sv' q' where died: "CService_profileDied thread piuid sv ?p = Some (sv', q')" "mProfilesMapMutex sv'"
    by blast
  have "find_dying (mSid ob) ?m = Some (key, sv)"
    using assms(5) by simp
  then have "mgr_profileDied thread (mSid ob) piuid ?m = None"
    using died by (simp add: mgr_profileDied_def notify_client_def allDied_def Let_def)
  then show ?thesis
    using assms(2,4) by (simp add: profileDiedInternal_def unloadProfileThroughClient_def Let_def)
qed

lemma incoming_profiles_null:
  "incoming_profiles cbMap nodes sv = (b, sv') \<Longrightarrow> \<forall>kv \<in> set (mProfilesMap sv). snd kv = 0 \<Longrightarrow> \<not> mProfilesMapMutex sv
    \<Longrightarrow> (\<forall>kv \<in> set (mProfilesMap sv'). snd kv = 0) \<and> \<not> mProfilesMapMutex sv' \<and> (mProfilesMap sv \<noteq> [] \<longrightarrow> mProfilesMap sv' \<noteq> [])"
proof (induction cbMap nodes sv arbitrary: b sv' rule: incoming_profiles.induct)
  case (2 cbMap api params nodes sv)
  let ?sv = "sv\<lparr>mProfilesMap := map_insert api 0 (map_erase api (mProfilesMap sv))\<rparr>"
  have null: "\<forall>kv \<in> set (mProfilesMap ?sv). snd kv = 0" "mProfilesMap ?sv \<noteq> []"
    using 2(3) set_map_put [of api 0 "mProfilesMap sv"] by auto
  consider "api = ''''" | "api \<noteq> ''''" "cbMap api \<in> {None, Some 0}" | cb where "api \<noteq> ''''" "cbMap api = Some cb" "cb \<noteq> 0"
    by (cases "cbMap api") auto
  then show ?case
  proof cases
    case 1
    then show ?thesis
      using 2(2-4) by simp
  next
    case 2
    then have "sv' = ?sv"
      using \<open>incoming_profiles cbMap ((api, params) # nodes) sv = (b, sv')\<close> by auto
    then show ?thesis
      using \<open>\<not> mProfilesMapMutex sv\<close> null by simp
  next
    case (3 cb)
    let ?sv2 = "?sv\<lparr>mCbMap := (mCbMap ?sv)(api \<mapsto> cb)\<rparr>"
    have "incoming_profiles cbMap nodes ?sv2 = (b, sv')"
      using \<open>incoming_profiles cbMap ((api, params) # nodes) sv = (b, sv')\<close> 3 by simp
    then show ?thesis
      using 2(1) [OF 3(1) refl 3(2,3), of b sv'] null \<open>\<not> mProfilesMapMutex sv\<close> by simp
  qed
qed simp

text \<open>A profile that is not there yet is the null pointer, which unloading the service follows.\<close>

lemma CService_delete_null:
  assumes "pim_ok p" and "\<forall>kv \<in> set (mProfilesMap sv). snd kv = 0" and "mProfilesMap sv \<noteq> []"
  shows "CService_delete thread sv p = None"
proof -
  obtain api m where m: "mProfilesMap sv = (api, 0) # m"
    using assms(2,3) by (cases "mProfilesMap sv") auto
  have "objects p 0 = None"
    using assms(1) unfolding pim_ok_def by auto
  then have "isLocked 0 p = None"
    by (simp add: isLocked_def)
  then show ?thesis
    using m by (simp add: CService_delete_def CService_unload_def cassert_def)
qed

text \<open>
  When the other device starts a service of which this application has not registered the callbacks of
  some profile, the application crashes: it deletes the half-made service, whose profiles are null pointers.
\<close>

theorem incoming_without_callbacks_crashes:
  assumes "app_reach manifest m" and "service \<in> mSystemServices m" and "\<not> isActive service m"
    and "manifest' service = Some (pair, (api, params) # nodes)" and "api \<noteq> ''''"
    and "mCallbacks m api = None"
  shows "app_handle env manifest' thread (PMP_IncomingProfile u papi piuid service) m = None"
proof -
  note ok = app_reach_ok [OF assms(1)]
  let ?sv = "(CService_new service)\<lparr>mPairUid := pair, mProfilesMap := [(api, 0)]\<rparr>"
  have load: "CService_incomingLoad manifest' (mCallbacks m) (CService_new service) = (False, ?sv)"
    using assms(4-6) by (simp add: CService_incomingLoad_def CService_new_def map_erase_def)
  have "pim_ok (app_pim m)"
    using ok by (simp add: app_ok_def)
  then have "CService_delete thread ?sv (app_pim m) = None"
    by (rule CService_delete_null) simp_all
  then show ?thesis
    using assms(2,3) load
    by (simp add: incomingProfileInternal_def serviceRequestCallback_def notify_client_def mgr_incomingLoad_def isActive_def Let_def)
qed


section \<open>A small application\<close>

definition demo_env :: "Uid \<Rightarrow> load_env" where
  "demo_env api = \<lparr>env_found = Some [''p''], env_enabled = Some [''p''], env_path = Some ''/p.so'', env_piuid = Some ''i1'',
     env_dlopen = Some 1, env_create = Some (api, True), env_createProfile = True\<rparr>"

definition demo_manifest :: "Uid \<Rightarrow> manifest option" where
  "demo_manifest service = (if service = ''nav'' then Some (''pair'', [(''api'', [])]) else None)"

definition demo_start :: CServiceManager where
  "demo_start = registerProfileCallbacks ''api'' 7 (CServiceManager_new {''nav''})"

text \<open>Its service loaded, with the threads that hold the instance and the requests to unload it.\<close>

definition demo_app :: "nat set \<Rightarrow> Uid set \<Rightarrow> CServiceManager" where
  "demo_app locks reqs = demo_start\<lparr>
     mActiveServices := [(''nav'', (CService_new ''nav'')\<lparr>mPairUid := ''pair'', mProfilesMap := [(''api'', 1)], mUnloadRequests := reqs\<rparr>)],
     app_pim := CPIM_new\<lparr>objects := [1 \<mapsto> (new_holder ''i1'' ''pair'' ''api'')\<lparr>mIsEnabled := True, mLockSet := locks\<rparr>],
       next_object := 2, mProfileMap := [(''i1'', 1)], mUidMap := [1 \<mapsto> ''i1''], gLibHandlesMap := [''i1'' \<mapsto> 1],
       pim_sent := [PMAL_FindProfiles ''api'' [] True, PMAL_FindProfiles ''p'' [] True, PMAL_GetProfileLibPath ''p'', PMAL_GeneratePIUID,
         PMAL_CreateProfile ''p'' ''i1'' ''pair'']\<rparr>\<rparr>"

lemmas app_eval = demo_start_def demo_app_def registerProfileCallbacks_def CServiceManager_new_def CPIM_new_def CService_new_def
  new_holder_def Let_def

lemma demo_env_fine: "\<forall>api. env_fine (demo_env api) \<and> env_createProfile (demo_env api)"
  by (simp add: demo_env_def env_fine_def path_fine_def)

lemma demo_load: "mgr_load demo_env demo_manifest 1 ''nav'' demo_start = Some (NO_ERROR, demo_app {} {})"
  by (simp add: app_eval demo_env_def demo_manifest_def mgr_load_def CService_load_def loadProfile_def isEnabledProfile_def
      pim_generatePIUID_def loadProfile_object_def createProfileImpl_def stringEndsWith_def getObject_def im_registerProfile_def
      setEnabled_def ipc_send_def set_service_def map_erase_def isActive_def)

lemma demo_get: "mgr_getProfile thread ''nav'' ''api'' (demo_app locks reqs) = Some (1, demo_app (insert thread locks) reqs)"
  by (simp add: app_eval mgr_getProfile_def CService_getProfile_def profileInstance_def)

lemma demo_unload: "locks \<noteq> {} \<Longrightarrow> mgr_unload thread ''nav'' (demo_app locks reqs) = Some (True, demo_app (insert thread locks) (insert ''api'' reqs))"
  by (simp add: app_eval mgr_unload_def unload_service_def CService_unload_def isLocked_def profileInstance_def hasUnloadWaits_def
      set_service_def map_erase_def)

lemma demo_start_reach: "app_reach demo_manifest demo_start"
  unfolding demo_start_def by (rule app_next [OF app_start a_callbacks])

lemma demo_loaded_reach: "app_reach demo_manifest (demo_app {} {})"
  using demo_env_fine by (intro app_next [OF demo_start_reach] a_load [OF _ demo_load]) blast

lemma demo_used_reach: "app_reach demo_manifest (demo_app {2, 1} {})"
  by (rule app_next [OF app_next [OF demo_loaded_reach a_getProfile [OF demo_get]] a_getProfile [OF demo_get]])

lemma demo_service:
  "map_of (mActiveServices (demo_app locks reqs)) ''nav''
     = Some ((CService_new ''nav'')\<lparr>mPairUid := ''pair'', mProfilesMap := [(''api'', 1)], mUnloadRequests := reqs\<rparr>)"
  "objects (app_pim (demo_app locks reqs)) 1 = Some ((new_holder ''i1'' ''pair'' ''api'')\<lparr>mIsEnabled := True, mLockSet := locks\<rparr>)"
  by (simp_all add: app_eval)




lemma demo_waiting_reach: "app_reach demo_manifest (demo_app {3, 2, 1} {''api''})"
proof -
  have "mgr_unload 3 ''nav'' (demo_app {2, 1} {}) = Some (True, demo_app {3, 2, 1} {''api''})"
    by (simp add: demo_unload)
  then show ?thesis
    by (rule app_next [OF demo_used_reach a_unload])
qed

theorem released_while_in_use_witness:
  "\<exists>m'. mgr_releaseProfile 1 ''nav'' ''api'' (demo_app {3, 2, 1} {''api''}) = Some m' \<and> 1 \<notin> alive (app_pim m')"
proof -
  obtain m' where run: "mgr_releaseProfile 1 ''nav'' ''api'' (demo_app {3, 2, 1} {''api''}) = Some m'"
    using mgr_releaseProfile_ok [OF app_reach_ok [OF demo_waiting_reach]] by blast
  have "1 \<notin> alive (app_pim m')"
    by (rule released_while_in_use [OF demo_waiting_reach demo_service(1) _ demo_service(2) _ _ _ run, of 2])
      (simp_all add: new_holder_def)
  then show ?thesis
    using run by blast
qed

theorem death_in_use_blocks_witness:
  "app_handle demo_env demo_manifest 9 (PMP_ProfileDied ''i1'') (demo_app {2, 1} {}) = None"
  by (rule death_in_use_blocks [OF demo_used_reach _ _ demo_service(2), of "''i1''" "''nav''"
        "(CService_new ''nav'')\<lparr>mPairUid := ''pair'', mProfilesMap := [(''api'', 1)], mUnloadRequests := {}\<rparr>" "''api''"])
    (simp_all add: app_eval im_find_def locked_def find_dying_def)

theorem incoming_without_callbacks_crashes_witness:
  "app_handle demo_env demo_manifest 9 (PMP_IncomingProfile ''p'' ''api'' ''i7'' ''nav'') (CServiceManager_new {''nav''}) = None"
  by (rule incoming_without_callbacks_crashes [OF app_start [of demo_manifest], of "''nav''" "{''nav''}" demo_manifest "''pair''" "''api''" "[]" "[]"])
    (simp_all add: CServiceManager_new_def isActive_def demo_manifest_def)

end
