(* ===== verification/AmpDatabase.thy ===== *)
theory AmpDatabase
  imports PmpFrames StdMap
begin

text \<open>
  The application manager's database (\<^verbatim>\<open>components/ApplicationManager/database\<close>): which applications are installed, how each is launched,
  and which services it supports. It is a map from identifiers to applications and a file in which the map is kept.
\<close>

section \<open>An application\<close>

record CApplication =
  mLaunchInfo :: string
  mServices :: "Uid list"

fun unique :: "'a list \<Rightarrow> 'a list" where
  "unique (x # y # xs) = (if x = y then unique (x # xs) else x # unique (y # xs))"
| "unique xs = xs"

definition CApplication_new :: "string \<Rightarrow> CApplication" where
  "CApplication_new info = \<lparr>mLaunchInfo = info, mServices = []\<rparr>"

definition CApplication_services :: "string \<Rightarrow> Uid list \<Rightarrow> CApplication" where
  "CApplication_services info services = \<lparr>mLaunchInfo = info, mServices = unique services\<rparr>"

definition app_hasService :: "Uid \<Rightarrow> CApplication \<Rightarrow> bool" where
  "app_hasService service app \<longleftrightarrow> service \<in> set (mServices app)"

definition app_addService :: "Uid \<Rightarrow> CApplication \<Rightarrow> bool \<times> CApplication" where
  "app_addService service app =
     (if app_hasService service app then (False, app) else (True, app\<lparr>mServices := mServices app @ [service]\<rparr>))"

definition app_removeService :: "Uid \<Rightarrow> CApplication \<Rightarrow> bool \<times> CApplication" where
  "app_removeService service app =
     (if app_hasService service app then (True, app\<lparr>mServices := remove1 service (mServices app)\<rparr>) else (False, app))"

section \<open>The database\<close>

text \<open>
  What the platform knows about launch informations (\<^verbatim>\<open>ILaunchInfoProcessor\<close>), and the document in the file, as the XML library presents
  it: for every element its name, its launch information and its services, each with the name of its element.
\<close>

record processor =
  trimLaunchInfo :: "string \<Rightarrow> string"
  isLaunchInfoValid :: "string \<Rightarrow> bool"

record app_node =
  node_name :: string
  launch_info :: string
  service_nodes :: "(string \<times> Uid) list"

record CDatabase =
  mApplications :: "(int \<times> CApplication) list"
  mIdCounter :: int
  db_file :: "app_node list option"
  disk_takes :: bool

definition UbuntuLaunchInfoProcessor :: processor where
  "UbuntuLaunchInfoProcessor = \<lparr>trimLaunchInfo = \<lambda>info. info, isLaunchInfoValid = \<lambda>info. True\<rparr>"

definition genId :: "CDatabase \<Rightarrow> int \<times> CDatabase" where
  "genId db = (mIdCounter db + 1, db\<lparr>mIdCounter := mIdCounter db + 1\<rparr>)"

definition find_info :: "string \<Rightarrow> CDatabase \<Rightarrow> (int \<times> CApplication) option" where
  "find_info info db = find (\<lambda>(_, app). mLaunchInfo app = info) (mApplications db)"

definition getId :: "processor \<Rightarrow> string \<Rightarrow> CDatabase \<Rightarrow> int" where
  "getId pr launchInfo db = (case find_info (trimLaunchInfo pr launchInfo) db of None \<Rightarrow> -1 | Some (i, _) \<Rightarrow> i)"

definition hasApp :: "processor \<Rightarrow> string \<Rightarrow> CDatabase \<Rightarrow> bool" where
  "hasApp pr launchInfo db \<longleftrightarrow> find_info (trimLaunchInfo pr launchInfo) db \<noteq> None"

text \<open>\<^verbatim>\<open>saveWithNoLocks\<close> builds the document anew; nobody looks at its result.\<close>

definition app_document :: "CApplication \<Rightarrow> app_node" where
  "app_document app = \<lparr>node_name = ''app'', launch_info = mLaunchInfo app, service_nodes = map (Pair ''service'') (mServices app)\<rparr>"

definition saveWithNoLocks :: "CDatabase \<Rightarrow> CDatabase" where
  "saveWithNoLocks db = (if disk_takes db then db\<lparr>db_file := Some (map (app_document \<circ> snd) (mApplications db))\<rparr> else db)"

definition load_services :: "(string \<times> Uid) list \<Rightarrow> CApplication \<Rightarrow> CApplication" where
  "load_services nodes app = fold (\<lambda>(name, uid) app. if name \<noteq> ''service'' then app else snd (app_addService uid app)) nodes app"

definition load_app :: "processor \<Rightarrow> app_node \<Rightarrow> CDatabase \<Rightarrow> CDatabase" where
  "load_app pr node db =
     (let info = trimLaunchInfo pr (launch_info node)
      in if node_name node \<noteq> ''app'' \<or> hasApp pr info db \<or> \<not> isLaunchInfoValid pr info then db
         else (let (i, db) = genId db
               in db\<lparr>mApplications := map_put i (load_services (service_nodes node) (CApplication_new info)) (mApplications db)\<rparr>))"

definition loadParsedDatabase :: "processor \<Rightarrow> app_node list \<Rightarrow> CDatabase \<Rightarrow> CDatabase" where
  "loadParsedDatabase pr doc db = fold (load_app pr) doc (db\<lparr>mApplications := []\<rparr>)"

text \<open>A file that is missing or that the library cannot parse leaves the database empty.\<close>

definition db_load :: "processor \<Rightarrow> CDatabase \<Rightarrow> bool \<times> CDatabase" where
  "db_load pr db = (case db_file db of None \<Rightarrow> (False, db) | Some doc \<Rightarrow> (True, saveWithNoLocks (loadParsedDatabase pr doc db)))"

definition CDatabase_new :: "processor \<Rightarrow> app_node list option \<Rightarrow> bool \<Rightarrow> CDatabase" where
  "CDatabase_new pr file disk = snd (db_load pr \<lparr>mApplications = [], mIdCounter = 0, db_file = file, disk_takes = disk\<rparr>)"

definition addApp :: "processor \<Rightarrow> string \<Rightarrow> CDatabase \<Rightarrow> int \<times> CDatabase" where
  "addApp pr launchInfo db =
     (let info = trimLaunchInfo pr launchInfo
      in if hasApp pr info db then (-1, db)
         else (let (i, db) = genId db
               in (i, saveWithNoLocks (db\<lparr>mApplications := map_put i (CApplication_new info) (mApplications db)\<rparr>))))"

definition addApp_services :: "processor \<Rightarrow> string \<Rightarrow> Uid list \<Rightarrow> CDatabase \<Rightarrow> int \<times> CDatabase" where
  "addApp_services pr launchInfo services db =
     (let info = trimLaunchInfo pr launchInfo
      in if hasApp pr info db then (-1, db)
         else (let (i, db) = genId db
               in (i, saveWithNoLocks (db\<lparr>mApplications := map_put i (CApplication_services info services) (mApplications db)\<rparr>))))"

definition removeApp_id :: "int \<Rightarrow> CDatabase \<Rightarrow> bool \<times> CDatabase" where
  "removeApp_id i db =
     (case map_of (mApplications db) i of
        None \<Rightarrow> (False, db)
      | Some _ \<Rightarrow> (True, saveWithNoLocks (db\<lparr>mApplications := map_erase i (mApplications db)\<rparr>)))"

definition removeApp :: "processor \<Rightarrow> string \<Rightarrow> CDatabase \<Rightarrow> bool \<times> CDatabase" where
  "removeApp pr launchInfo db =
     (case find_info (trimLaunchInfo pr launchInfo) db of
        None \<Rightarrow> (False, db)
      | Some (i, _) \<Rightarrow> (True, saveWithNoLocks (db\<lparr>mApplications := map_erase i (mApplications db)\<rparr>)))"

text \<open>A change of the application behind an iterator, which is saved when it changed something.\<close>

definition update_app :: "(CApplication \<Rightarrow> bool \<times> CApplication) \<Rightarrow> (int \<times> CApplication) option \<Rightarrow> CDatabase \<Rightarrow> bool \<times> CDatabase" where
  "update_app f it db =
     (case it of
        None \<Rightarrow> (False, db)
      | Some (i, app) \<Rightarrow>
          (let (res, app) = f app; db = db\<lparr>mApplications := map_assign i (\<lambda>_. app) (mApplications db)\<rparr>
           in (res, if res then saveWithNoLocks db else db)))"

definition find_id :: "int \<Rightarrow> CDatabase \<Rightarrow> (int \<times> CApplication) option" where
  "find_id i db = map_option (Pair i) (map_of (mApplications db) i)"

definition addService :: "processor \<Rightarrow> string \<Rightarrow> Uid \<Rightarrow> CDatabase \<Rightarrow> bool \<times> CDatabase" where
  "addService pr launchInfo service db = update_app (app_addService service) (find_info (trimLaunchInfo pr launchInfo) db) db"

definition addService_id :: "int \<Rightarrow> Uid \<Rightarrow> CDatabase \<Rightarrow> bool \<times> CDatabase" where
  "addService_id i service db = update_app (app_addService service) (find_id i db) db"

definition removeService :: "processor \<Rightarrow> string \<Rightarrow> Uid \<Rightarrow> CDatabase \<Rightarrow> bool \<times> CDatabase" where
  "removeService pr launchInfo service db = update_app (app_removeService service) (find_info (trimLaunchInfo pr launchInfo) db) db"

definition removeService_id :: "int \<Rightarrow> Uid \<Rightarrow> CDatabase \<Rightarrow> bool \<times> CDatabase" where
  "removeService_id i service db = update_app (app_removeService service) (find_id i db) db"

definition getServices :: "processor \<Rightarrow> string \<Rightarrow> CDatabase \<Rightarrow> bool \<times> Uid list" where
  "getServices pr launchInfo db =
     (case find_info (trimLaunchInfo pr launchInfo) db of None \<Rightarrow> (False, []) | Some (_, app) \<Rightarrow> (True, mServices app))"

definition getServices_id :: "int \<Rightarrow> CDatabase \<Rightarrow> bool \<times> Uid list" where
  "getServices_id i db = (case map_of (mApplications db) i of None \<Rightarrow> (False, []) | Some app \<Rightarrow> (True, mServices app))"

definition getApps :: "Uid \<Rightarrow> CDatabase \<Rightarrow> string list" where
  "getApps service db = map (mLaunchInfo \<circ> snd) (filter (app_hasService service \<circ> snd) (mApplications db))"

definition getApps_ids :: "Uid \<Rightarrow> CDatabase \<Rightarrow> int list" where
  "getApps_ids service db = map fst (filter (app_hasService service \<circ> snd) (mApplications db))"

definition hasService :: "int \<Rightarrow> Uid \<Rightarrow> CDatabase \<Rightarrow> bool" where
  "hasService i service db = (case map_of (mApplications db) i of None \<Rightarrow> False | Some app \<Rightarrow> app_hasService service app)"

definition appLaunchInfo :: "int \<Rightarrow> CDatabase \<Rightarrow> string" where
  "appLaunchInfo i db = (case map_of (mApplications db) i of None \<Rightarrow> '''' | Some app \<Rightarrow> mLaunchInfo app)"

text \<open>
  Applications that the platform reports. The second search compares with the launch information as it was trimmed once, the first with
  what trimming it twice gives; the iterator it leaves is used unchecked.
\<close>

fun addServices :: "Uid list \<Rightarrow> CApplication \<Rightarrow> bool \<times> CApplication" where
  "addServices [] app = (False, app)"
| "addServices (s # ss) app = (let (r1, app) = app_addService s app; (r2, app) = addServices ss app in (r1 \<or> r2, app))"

definition addApplicationAndServices :: "processor \<Rightarrow> string \<Rightarrow> Uid list \<Rightarrow> CDatabase \<Rightarrow> CDatabase option" where
  "addApplicationAndServices pr launchInfo services db =
     (let info = trimLaunchInfo pr launchInfo
      in if \<not> isLaunchInfoValid pr info then Some db
         else (let new = \<not> hasApp pr info db;
                   db = (if new then (let (i, db) = genId db in db\<lparr>mApplications := map_put i (CApplication_new info) (mApplications db)\<rparr>)
                         else db)
               in case find_info info db of
                    None \<Rightarrow> if services = [] then Some db else None
                  | Some (i, app) \<Rightarrow>
                      (let (added, app) = addServices services app;
                           db = db\<lparr>mApplications := map_assign i (\<lambda>_. app) (mApplications db)\<rparr>
                       in Some (if new \<or> added then saveWithNoLocks db else db))))"

fun contains :: "string \<Rightarrow> string \<Rightarrow> bool" where
  "contains part [] \<longleftrightarrow> part = []"
| "contains part (c # s) \<longleftrightarrow> take (length part) (c # s) = part \<or> contains part s"

definition deleteByPartialLaunchInfo :: "processor \<Rightarrow> string \<Rightarrow> CDatabase \<Rightarrow> CDatabase" where
  "deleteByPartialLaunchInfo pr launchInfo db =
     (let gone = (\<lambda>(_, app). contains launchInfo (mLaunchInfo app) \<and> \<not> isLaunchInfoValid pr (mLaunchInfo app));
          db' = db\<lparr>mApplications := filter (\<lambda>kv. \<not> gone kv) (mApplications db)\<rparr>
      in if list_ex gone (mApplications db) then saveWithNoLocks db' else db')"

section \<open>What every database looks like\<close>

text \<open>Trimming twice is trimming once. On Linux nothing is trimmed.\<close>

locale launch_infos =
  fixes pr :: processor
  assumes trim_twice: "trimLaunchInfo pr (trimLaunchInfo pr info) = trimLaunchInfo pr info"

interpretation ubuntu: launch_infos UbuntuLaunchInfoProcessor
  by unfold_locales (simp add: UbuntuLaunchInfoProcessor_def)

definition infos :: "CDatabase \<Rightarrow> string list" where
  "infos db = map (mLaunchInfo \<circ> snd) (mApplications db)"

definition db_ok :: "processor \<Rightarrow> CDatabase \<Rightarrow> bool" where
  "db_ok pr db \<longleftrightarrow> map_sorted (mApplications db) \<and> (\<forall>i \<in> fst ` set (mApplications db). 0 < i \<and> i \<le> mIdCounter db) \<and> 0 \<le> mIdCounter db
     \<and> distinct (infos db) \<and> (\<forall>info \<in> set (infos db). trimLaunchInfo pr info = info)"

text \<open>The file holds the map, or there is no file yet and the map is empty.\<close>

definition db_synced :: "CDatabase \<Rightarrow> bool" where
  "db_synced db \<longleftrightarrow> disk_takes db \<and> (case db_file db of None \<Rightarrow> mApplications db = [] | Some doc \<Rightarrow> doc = map (app_document \<circ> snd) (mApplications db))"

definition db_good :: "processor \<Rightarrow> CDatabase \<Rightarrow> bool" where
  "db_good pr db \<longleftrightarrow> db_ok pr db \<and> db_synced db"

lemma find_info_None: "find_info info db = None \<longleftrightarrow> info \<notin> set (infos db)"
  by (force simp: find_info_def find_None_iff infos_def)

lemma find_info_Some: "find_info info db = Some (i, app) \<Longrightarrow> (i, app) \<in> set (mApplications db) \<and> mLaunchInfo app = info"
  by (auto simp: find_info_def find_Some_iff) (metis nth_mem)

lemma save_simps [simp]:
  "mApplications (saveWithNoLocks db) = mApplications db" "mIdCounter (saveWithNoLocks db) = mIdCounter db"
  "disk_takes (saveWithNoLocks db) = disk_takes db" "infos (saveWithNoLocks db) = infos db"
  "db_ok pr (saveWithNoLocks db) = db_ok pr db"
  by (simp_all add: saveWithNoLocks_def infos_def db_ok_def)

lemma save_synced: "disk_takes db \<Longrightarrow> db_synced (saveWithNoLocks db)"
  by (simp add: db_synced_def) (simp add: saveWithNoLocks_def)

lemma db_goodI: "db_ok pr db \<Longrightarrow> disk_takes db \<Longrightarrow> db_good pr (saveWithNoLocks db)"
  by (simp add: db_good_def save_synced)

lemma app_addService_simps [simp]:
  "mLaunchInfo (snd (app_addService s app)) = mLaunchInfo app" "set (mServices (snd (app_addService s app))) = insert s (set (mServices app))"
  by (auto simp: app_addService_def app_hasService_def)

lemma app_unchanged: "fst (app_addService s app) = False \<Longrightarrow> snd (app_addService s app) = app"
  "fst (app_removeService s app) = False \<Longrightarrow> snd (app_removeService s app) = app"
  by (simp_all add: app_addService_def app_removeService_def split: if_splits)

lemma app_removeService_info [simp]: "mLaunchInfo (snd (app_removeService s app)) = mLaunchInfo app"
  by (simp add: app_removeService_def)

text \<open>A new application goes to the end of the map.\<close>

lemma db_ok_end:
  "db_ok pr db \<Longrightarrow> mIdCounter db < i \<Longrightarrow> map_put i app (mApplications db) = mApplications db @ [(i, app)]"
  unfolding db_ok_def by (intro map_put_end) force

lemma db_ok_new:
  assumes "db_ok pr db" and "mLaunchInfo app \<notin> set (infos db)" and "trimLaunchInfo pr (mLaunchInfo app) = mLaunchInfo app"
  shows "db_ok pr (db\<lparr>mIdCounter := mIdCounter db + 1, mApplications := map_put (mIdCounter db + 1) app (mApplications db)\<rparr>)"
proof -
  have "map_sorted (mApplications db @ [(mIdCounter db + 1, app)])"
    using assms(1) unfolding db_ok_def map_sorted_def by (force simp: sorted_wrt_append)
  then show ?thesis
    using assms db_ok_end [OF assms(1), of "mIdCounter db + 1" app] unfolding db_ok_def infos_def by auto
qed

lemma db_ok_assign:
  assumes "db_ok pr db" and "find_info (mLaunchInfo app) db = Some (i, app') \<or> map_of (mApplications db) i = Some app'"
    and "mLaunchInfo app = mLaunchInfo app'"
  shows "db_ok pr (db\<lparr>mApplications := map_assign i (\<lambda>_. app) (mApplications db)\<rparr>)"
    and "app = app' \<Longrightarrow> map_assign i (\<lambda>_. app) (mApplications db) = mApplications db"
proof -
  have in_map: "map_of (mApplications db) i = Some app'"
    using assms find_info_Some map_of_sorted_iff unfolding db_ok_def by metis
  have same: "app'' = app'" if "(i, app'') \<in> set (mApplications db)" for app''
    using that in_map assms(1) map_of_sorted_iff [of "mApplications db"] unfolding db_ok_def by auto
  have "map (mLaunchInfo \<circ> snd) (map_assign i (\<lambda>_. app) (mApplications db)) = map (mLaunchInfo \<circ> snd) (mApplications db)"
    using same assms(3) by (auto simp: map_assign_def)
  moreover have "fst ` set (map_assign i (\<lambda>_. app) (mApplications db)) = fst ` set (mApplications db)"
    by (metis map_assign_keys list.set_map)
  ultimately show "db_ok pr (db\<lparr>mApplications := map_assign i (\<lambda>_. app) (mApplications db)\<rparr>)"
    using assms(1) unfolding db_ok_def infos_def by simp
  show "app = app' \<Longrightarrow> map_assign i (\<lambda>_. app) (mApplications db) = mApplications db"
    using same by (force simp: map_assign_def intro: map_idI)
qed

lemma map_sorted_filter: "map_sorted m \<Longrightarrow> map_sorted (filter P m)" for m :: "('k::linorder \<times> 'v) list"
  by (induction m) auto

lemma db_ok_filter: "db_ok pr db \<Longrightarrow> db_ok pr (db\<lparr>mApplications := filter P (mApplications db)\<rparr>)"
  unfolding db_ok_def infos_def by (auto simp: distinct_map map_sorted_filter intro: inj_on_subset)

section \<open>Every operation keeps it\<close>

context launch_infos
begin

lemma hasApp_trimmed [simp]: "hasApp pr (trimLaunchInfo pr info) db \<longleftrightarrow> trimLaunchInfo pr info \<in> set (infos db)"
  by (simp add: hasApp_def trim_twice find_info_None)

lemma new_app_ok:
  assumes "db_ok pr db" and "\<not> hasApp pr (trimLaunchInfo pr info) db" and "mLaunchInfo app = trimLaunchInfo pr info"
  shows "db_ok pr (db\<lparr>mIdCounter := mIdCounter db + 1, mApplications := map_put (mIdCounter db + 1) app (mApplications db)\<rparr>)"
  using assms by (intro db_ok_new) (simp_all add: trim_twice)

lemma addApp_good: "db_good pr db \<Longrightarrow> db_good pr (snd (addApp pr info db))"
  by (auto simp: addApp_def genId_def Let_def CApplication_new_def db_good_def [of pr db] db_synced_def [of db] intro!: db_goodI new_app_ok)

lemma addApp_services_good: "db_good pr db \<Longrightarrow> db_good pr (snd (addApp_services pr info services db))"
  by (auto simp: addApp_services_def genId_def Let_def CApplication_services_def db_good_def [of pr db] db_synced_def [of db]
      intro!: db_goodI new_app_ok)

lemma removeApp_id_good: "db_good pr db \<Longrightarrow> db_good pr (snd (removeApp_id i db))"
  by (auto simp: removeApp_id_def map_erase_def db_good_def [of pr db] db_synced_def [of db] intro!: db_goodI db_ok_filter split: option.split)

lemma removeApp_good: "db_good pr db \<Longrightarrow> db_good pr (snd (removeApp pr info db))"
  by (auto simp: removeApp_def map_erase_def db_good_def [of pr db] db_synced_def [of db] intro!: db_goodI db_ok_filter split: option.split)

text \<open>A change of services that says whether it changed something.\<close>

lemma update_app_good:
  assumes "db_good pr db" and "it = find_info info db \<or> it = find_id i db"
    and "\<And>app. mLaunchInfo (snd (f app)) = mLaunchInfo app \<and> (\<not> fst (f app) \<longrightarrow> snd (f app) = app)"
  shows "db_good pr (snd (update_app f it db))"
proof (cases it)
  case (Some k_app)
  obtain k app where it: "it = Some (k, app)"
    using Some by (cases k_app) auto
  obtain res app' where f: "f app = (res, app')"
    by fastforce
  have app': "mLaunchInfo app' = mLaunchInfo app" "\<not> res \<Longrightarrow> app' = app"
    using assms(3) [of app] f by auto
  have found: "find_info (mLaunchInfo app') db = Some (k, app) \<or> map_of (mApplications db) k = Some app"
    using assms(2) it app'(1) find_info_Some [of info db k app] by (elim disjE) (auto simp: find_id_def)
  have ok: "db_ok pr db" "disk_takes db"
    using assms(1) by (simp_all add: db_good_def db_synced_def)
  show ?thesis
  proof (cases res)
    case True
    then show ?thesis
      using it f db_ok_assign(1) [OF ok(1) found app'(1)] ok(2) by (simp add: update_app_def db_goodI)
  next
    case False
    then have "map_assign k (\<lambda>_. app') (mApplications db) = mApplications db"
      using db_ok_assign(2) [OF ok(1) found app'(1)] app'(2) by simp
    then show ?thesis
      using it f False assms(1) by (simp add: update_app_def)
  qed
qed (use assms(1) in \<open>simp add: update_app_def\<close>)

lemma service_changes_good:
  assumes "db_good pr db"
  shows "db_good pr (snd (addService pr info service db))" and "db_good pr (snd (addService_id i service db))"
    and "db_good pr (snd (removeService pr info service db))" and "db_good pr (snd (removeService_id i service db))"
  unfolding addService_def addService_id_def removeService_def removeService_id_def
  by (rule update_app_good [OF assms]; use app_unchanged in force)+

lemma addServices_keeps:
  "mLaunchInfo (snd (addServices ss app)) = mLaunchInfo app \<and> (\<not> fst (addServices ss app) \<longrightarrow> snd (addServices ss app) = app)"
  by (induction ss arbitrary: app) (auto simp: case_prod_beta Let_def app_unchanged)

lemma addApplicationAndServices_good:
  assumes "db_good pr db"
  shows "\<exists>db'. addApplicationAndServices pr info services db = Some db' \<and> db_good pr db'"
proof (cases "isLaunchInfoValid pr (trimLaunchInfo pr info)")
  case True
  let ?info = "trimLaunchInfo pr info"
  let ?new = "?info \<notin> set (infos db)"
  define db1 where "db1 = (if ?new then db\<lparr>mIdCounter := mIdCounter db + 1,
    mApplications := map_put (mIdCounter db + 1) (CApplication_new ?info) (mApplications db)\<rparr> else db)"
  have ok: "db_ok pr db" "disk_takes db"
    using assms by (simp_all add: db_good_def db_synced_def)
  have ok1: "db_ok pr db1" "disk_takes db1"
    using new_app_ok [OF ok(1), of info "CApplication_new ?info"] ok by (auto simp: db1_def CApplication_new_def)
  have "?info \<in> set (infos db1)"
    using db_ok_end [OF ok(1), of "mIdCounter db + 1"] by (simp add: db1_def infos_def CApplication_new_def)
  then obtain i app where it: "find_info ?info db1 = Some (i, app)"
    using find_info_None by fastforce
  obtain added app' where f: "addServices services app = (added, app')"
    by fastforce
  have app': "mLaunchInfo app' = mLaunchInfo app" "\<not> added \<Longrightarrow> app' = app"
    using addServices_keeps [of services app] f by auto
  have found: "find_info (mLaunchInfo app') db1 = Some (i, app) \<or> map_of (mApplications db1) i = Some app"
    using it find_info_Some app'(1) by auto
  let ?db2 = "db1\<lparr>mApplications := map_assign i (\<lambda>_. app') (mApplications db1)\<rparr>"
  have run: "addApplicationAndServices pr info services db = Some (if ?new \<or> added then saveWithNoLocks ?db2 else ?db2)"
    using True it [unfolded db1_def] f
    by (cases "?info \<in> set (infos db)") (simp_all add: addApplicationAndServices_def genId_def db1_def Let_def)
  have "db_good pr (if ?new \<or> added then saveWithNoLocks ?db2 else ?db2)"
  proof (cases "?new \<or> added")
    case True
    then show ?thesis
      using db_ok_assign(1) [OF ok1(1) found app'(1)] ok1(2) by (simp add: db_goodI)
  next
    case False
    then have "db1 = db" "mApplications ?db2 = mApplications db1"
      using db_ok_assign(2) [OF ok1(1) found app'(1)] app'(2) by (simp_all add: db1_def)
    then show ?thesis
      using False assms by simp
  qed
  then show ?thesis
    using run by blast
qed (use assms in \<open>simp add: addApplicationAndServices_def\<close>)

lemma deleteByPartialLaunchInfo_good:
  assumes "db_good pr db"
  shows "db_good pr (deleteByPartialLaunchInfo pr part db)"
proof -
  define gone where "gone = (\<lambda>(_ :: int, app :: CApplication). contains part (mLaunchInfo app) \<and> \<not> isLaunchInfoValid pr (mLaunchInfo app))"
  let ?db = "db\<lparr>mApplications := filter (\<lambda>kv. \<not> gone kv) (mApplications db)\<rparr>"
  have run: "deleteByPartialLaunchInfo pr part db = (if list_ex gone (mApplications db) then saveWithNoLocks ?db else ?db)"
    by (simp add: deleteByPartialLaunchInfo_def gone_def Let_def)
  show ?thesis
  proof (cases "list_ex gone (mApplications db)")
    case True
    then show ?thesis
      using assms run db_ok_filter by (simp add: db_good_def [of pr db] db_synced_def [of db] db_goodI)
  next
    case False
    then have "filter (\<lambda>kv. \<not> gone kv) (mApplications db) = mApplications db"
      by (simp add: filter_id_conv list_ex_iff)
    then show ?thesis
      using False assms run by simp
  qed
qed

end

section \<open>Loading\<close>

text \<open>What the users of the database see of an application.\<close>

definition db_view :: "CDatabase \<Rightarrow> (string \<times> Uid set) list" where
  "db_view db = map (\<lambda>(_, app). (mLaunchInfo app, set (mServices app))) (mApplications db)"

lemma load_services_simps [simp]:
  "mLaunchInfo (load_services nodes app) = mLaunchInfo app"
  "set (mServices (load_services nodes app)) = set (mServices app) \<union> {uid. (''service'', uid) \<in> set nodes}"
proof -
  have "mLaunchInfo (load_services nodes app) = mLaunchInfo app
      \<and> set (mServices (load_services nodes app)) = set (mServices app) \<union> {uid. (''service'', uid) \<in> set nodes}"
    unfolding load_services_def by (induction nodes arbitrary: app) (auto split: if_splits)
  then show "mLaunchInfo (load_services nodes app) = mLaunchInfo app"
    "set (mServices (load_services nodes app)) = set (mServices app) \<union> {uid. (''service'', uid) \<in> set nodes}"
    by simp_all
qed

context launch_infos
begin

lemma load_app_ok:
  assumes "db_ok pr db"
  shows "db_ok pr (load_app pr node db) \<and> disk_takes (load_app pr node db) = disk_takes db"
  using assms new_app_ok [OF assms, of "launch_info node"] by (simp add: load_app_def genId_def Let_def CApplication_new_def)

lemma loadParsedDatabase_ok:
  assumes "0 \<le> mIdCounter db"
  shows "db_ok pr (loadParsedDatabase pr doc db) \<and> disk_takes (loadParsedDatabase pr doc db) = disk_takes db"
proof -
  have step: "db_ok pr (fold (load_app pr) doc db1) \<and> disk_takes (fold (load_app pr) doc db1) = disk_takes db1" if "db_ok pr db1" for db1
    using that load_app_ok by (induction doc arbitrary: db1) auto
  have "db_ok pr (db\<lparr>mApplications := []\<rparr>)"
    using assms by (simp add: db_ok_def infos_def)
  then show ?thesis
    using step [of "db\<lparr>mApplications := []\<rparr>"] by (simp add: loadParsedDatabase_def)
qed

lemma CDatabase_new_good: "db_good pr (CDatabase_new pr stored True)"
proof (cases stored)
  case (Some doc)
  let ?db = "\<lparr>mApplications = [], mIdCounter = 0, db_file = stored, disk_takes = True\<rparr>"
  have "db_good pr (saveWithNoLocks (loadParsedDatabase pr doc ?db))"
    using loadParsedDatabase_ok [of ?db doc] by (intro db_goodI) simp_all
  then show ?thesis
    using Some by (simp add: CDatabase_new_def db_load_def)
qed (simp add: CDatabase_new_def db_load_def db_good_def db_ok_def db_synced_def infos_def)

text \<open>Loading a document whose launch informations are trimmed and different from each other and from those already there.\<close>

lemma load_document:
  assumes "db_ok pr db" and "distinct (map mLaunchInfo apps)" and "\<forall>app \<in> set apps. trimLaunchInfo pr (mLaunchInfo app) = mLaunchInfo app"
    and "\<forall>app \<in> set apps. mLaunchInfo app \<notin> set (infos db)"
  shows "db_view (fold (load_app pr) (map app_document apps) db)
    = db_view db @ map (\<lambda>app. (mLaunchInfo app, set (mServices app))) (filter (isLaunchInfoValid pr \<circ> mLaunchInfo) apps)"
  using assms
proof (induction apps arbitrary: db)
  case (Cons app apps)
  let ?db = "load_app pr (app_document app) db"
  let ?app = "load_services (map (Pair ''service'') (mServices app)) (CApplication_new (mLaunchInfo app))"
  have trimmed: "trimLaunchInfo pr (mLaunchInfo app) = mLaunchInfo app" and "mLaunchInfo app \<notin> set (infos db)"
    using Cons.prems(3,4) by simp_all
  then have db: "?db = (if isLaunchInfoValid pr (mLaunchInfo app)
      then db\<lparr>mIdCounter := mIdCounter db + 1, mApplications := mApplications db @ [(mIdCounter db + 1, ?app)]\<rparr> else db)"
    using hasApp_trimmed [of "mLaunchInfo app" db] db_ok_end [OF Cons.prems(1), of "mIdCounter db + 1"]
    by (simp add: load_app_def app_document_def genId_def Let_def)
  have "set (infos ?db) \<subseteq> insert (mLaunchInfo app) (set (infos db))"
    unfolding db by (auto simp: infos_def CApplication_new_def)
  then have "\<forall>x \<in> set apps. mLaunchInfo x \<notin> set (infos ?db)"
    using Cons.prems(2,4) by (metis distinct.simps(2) imageI insertE list.map(2) list.set_intros(2) list.set_map subsetD)
  then have "db_view (fold (load_app pr) (map app_document apps) ?db)
      = db_view ?db @ map (\<lambda>app. (mLaunchInfo app, set (mServices app))) (filter (isLaunchInfoValid pr \<circ> mLaunchInfo) apps)"
    using Cons.prems(2,3) load_app_ok [OF Cons.prems(1)] by (intro Cons.IH) simp_all
  moreover have "db_view ?db = db_view db @ (if isLaunchInfoValid pr (mLaunchInfo app) then [(mLaunchInfo app, set (mServices app))] else [])"
    unfolding db by (auto simp: db_view_def CApplication_new_def)
  ultimately show ?case
    by (simp add: comp_def)
qed simp

lemma restart_view:
  assumes "db_good pr db"
  shows "db_view (CDatabase_new pr (db_file db) disk) = filter (isLaunchInfoValid pr \<circ> fst) (db_view db)"
proof (cases "db_file db")
  case None
  then have "mApplications db = []"
    using assms by (simp add: db_good_def db_synced_def)
  then show ?thesis
    using None by (simp add: CDatabase_new_def db_load_def db_view_def)
next
  case (Some doc)
  let ?apps = "map snd (mApplications db)"
  let ?empty = "\<lparr>mApplications = [], mIdCounter = 0, db_file = Some doc, disk_takes = disk\<rparr>"
  have doc: "doc = map app_document ?apps"
    using assms Some by (simp add: db_good_def db_synced_def)
  have "distinct (map mLaunchInfo ?apps)" "\<forall>app \<in> set ?apps. trimLaunchInfo pr (mLaunchInfo app) = mLaunchInfo app"
    using assms by (auto simp: db_good_def db_ok_def infos_def)
  then have "db_view (fold (load_app pr) (map app_document ?apps) ?empty)
      = db_view ?empty @ map (\<lambda>app. (mLaunchInfo app, set (mServices app))) (filter (isLaunchInfoValid pr \<circ> mLaunchInfo) ?apps)"
    by (intro load_document) (simp_all add: db_ok_def infos_def)
  then show ?thesis
    using Some doc by (simp add: CDatabase_new_def db_load_def loadParsedDatabase_def db_view_def filter_map comp_def case_prod_unfold)
qed

end

section \<open>Databases in use\<close>

inductive db_step :: "processor \<Rightarrow> CDatabase \<Rightarrow> CDatabase \<Rightarrow> bool" for pr where
  d_addApp: "db_step pr db (snd (addApp pr info db))"
| d_addApp_services: "db_step pr db (snd (addApp_services pr info services db))"
| d_removeApp: "db_step pr db (snd (removeApp pr info db))"
| d_removeApp_id: "db_step pr db (snd (removeApp_id i db))"
| d_addService: "db_step pr db (snd (addService pr info service db))"
| d_addService_id: "db_step pr db (snd (addService_id i service db))"
| d_removeService: "db_step pr db (snd (removeService pr info service db))"
| d_removeService_id: "db_step pr db (snd (removeService_id i service db))"
| d_addApplication: "addApplicationAndServices pr info services db = Some db' \<Longrightarrow> db_step pr db db'"
| d_delete: "db_step pr db (deleteByPartialLaunchInfo pr part db)"

inductive db_reach :: "processor \<Rightarrow> CDatabase \<Rightarrow> bool" for pr where
  db_new: "db_reach pr (CDatabase_new pr file True)"
| db_next: "db_reach pr db \<Longrightarrow> db_step pr db db' \<Longrightarrow> db_reach pr db'"

inductive_cases db_stepE: "db_step pr db db'"

context launch_infos
begin

lemma db_step_good: "db_step pr db db' \<Longrightarrow> db_good pr db \<Longrightarrow> db_good pr db'"
proof (induction rule: db_step.induct)
  case (d_addApplication info services db db')
  then show ?case
    using addApplicationAndServices_good [of db info services] by auto
qed (simp_all add: addApp_good addApp_services_good removeApp_good removeApp_id_good service_changes_good deleteByPartialLaunchInfo_good)

lemma db_reach_good: "db_reach pr db \<Longrightarrow> db_good pr db"
  by (induction rule: db_reach.induct) (simp_all add: CDatabase_new_good db_step_good)

end

lemma getApps_view: "getApps service db = map fst (filter (\<lambda>(_, services). service \<in> services) (db_view db))"
  by (simp add: getApps_def db_view_def filter_map comp_def case_prod_unfold app_hasService_def)


text \<open>
  An application added together with a list in which a service occurs twice keeps it when it is removed: \<^verbatim>\<open>unique\<close> drops only repetitions
  that follow each other.
\<close>

lemma repeated_service_stays:
  "app_removeService ''a'' (CApplication_services info [''a'', ''b'', ''a'']) = (True, \<lparr>mLaunchInfo = info, mServices = [''b'', ''a'']\<rparr>)"
  by (simp add: app_removeService_def CApplication_services_def app_hasService_def)

definition demo_database :: CDatabase where
  "demo_database = snd (addService UbuntuLaunchInfoProcessor ''/bin/app'' ''nav''
     (snd (addApp UbuntuLaunchInfoProcessor ''/bin/app'' (CDatabase_new UbuntuLaunchInfoProcessor None True))))"

lemma demo_database_apps: "getApps ''nav'' demo_database = [''/bin/app'']"
  by (simp add: demo_database_def getApps_def addService_def update_app_def find_info_def addApp_def hasApp_def genId_def Let_def
      saveWithNoLocks_def CDatabase_new_def db_load_def map_put_def map_erase_def CApplication_new_def app_addService_def app_hasService_def
      map_assign_def UbuntuLaunchInfoProcessor_def)


end
