(* ===== verification/AmpFrames.thy ===== *)
theory AmpFrames
  imports PmpFrames
begin

text \<open>
  The messages of the application manager: with the profile manager (\<^verbatim>\<open>messageProtocols/ApplicationManager_ProfileManager\<close>) and with the
  applications (\<^verbatim>\<open>messageProtocols/ApplicationManager_Application\<close>). All of them stay on one device, so nothing is converted to network
  order. The functions give the bytes that are sent; reading behind a payload is undefined, \<^const>\<open>None\<close>.
\<close>

section \<open>Strings and numbers of one device\<close>

definition host_string :: "endian \<Rightarrow> string \<Rightarrow> u8 list" where
  "host_string e s = stringToBuffer e s False"

definition host_u32 :: "endian \<Rightarrow> u32 \<Rightarrow> u8 list" where
  "host_u32 e n = store e 4 n"

definition take_u32 :: "endian \<Rightarrow> u8 list \<Rightarrow> u32 option" where
  "take_u32 e bs = (if length bs < 4 then None else Some (load e (take 4 bs)))"

definition take_u8 :: "u8 list \<Rightarrow> u8 option" where
  "take_u8 bs = (case bs of [] \<Rightarrow> None | b # _ \<Rightarrow> Some b)"

fun take_strings :: "endian \<Rightarrow> nat \<Rightarrow> u8 list \<Rightarrow> Uid list option" where
  "take_strings e 0 bs = Some []"
| "take_strings e (Suc k) bs = do {
     s \<leftarrow> bufferToString e bs False;
     ss \<leftarrow> take_strings e k (drop (stringInBufSize s) bs);
     Some (s # ss) }"

section \<open>Application manager and profile manager\<close>

definition amp_applicationRequest :: "endian \<Rightarrow> Uid \<Rightarrow> Uid \<Rightarrow> u8 list" where
  "amp_applicationRequest e session service =
     (let size = 4 + 4 + stringInBufSize session + stringInBufSize service
      in take size (host_u32 e (of_nat size) @ host_u32 e 0 @ host_string e session @ host_string e service))"

definition pmpServer_OnRequest :: "endian \<Rightarrow> u8 list \<Rightarrow> (Uid \<times> Uid) option" where
  "pmpServer_OnRequest e pPayload = do {
     size \<leftarrow> take_u32 e pPayload;
     type \<leftarrow> take_u32 e (drop 4 pPayload);
     session \<leftarrow> bufferToString e (drop 8 pPayload) False;
     service \<leftarrow> bufferToString e (drop (8 + stringInBufSize session) pPayload) False;
     Some (session, service) }"

definition waitingServiceLoadRequest :: "endian \<Rightarrow> Uid \<Rightarrow> u8 list option" where
  "waitingServiceLoadRequest e service = (if service = '''' then None else Some (host_string e service))"

definition pmpServer_OnAsyncRequest :: "endian \<Rightarrow> u8 list \<Rightarrow> Uid option" where
  "pmpServer_OnAsyncRequest e pPayload = bufferToString e pPayload False"

definition amp_appRequestError :: "endian \<Rightarrow> Uid \<Rightarrow> u8 list" where
  "amp_appRequestError e session =
     (let size = 4 + 4 + stringInBufSize session in take size (host_u32 e (of_nat size) @ host_u32 e 0 @ host_string e session))"

definition ampClient_OnRequest :: "endian \<Rightarrow> u8 list \<Rightarrow> Uid option" where
  "ampClient_OnRequest e pPayload = do {
     size \<leftarrow> take_u32 e pPayload;
     type \<leftarrow> take_u32 e (drop 4 pPayload);
     bufferToString e (drop 8 pPayload) False }"

definition amp_waitingServicesRequest :: "endian \<Rightarrow> Uid list \<Rightarrow> u8 list" where
  "amp_waitingServicesRequest e services = host_u32 e (of_nat (length services)) @ concat (map (host_string e) services)"

text \<open>The loop of the receiver: the position is never advanced.\<close>

fun same_strings :: "endian \<Rightarrow> nat \<Rightarrow> u8 list \<Rightarrow> Uid list option" where
  "same_strings e 0 bs = Some []"
| "same_strings e (Suc k) bs = do { s \<leftarrow> bufferToString e bs False; ss \<leftarrow> same_strings e k bs; Some (s # ss) }"

definition ampClient_OnAsyncRequest :: "endian \<Rightarrow> u8 list \<Rightarrow> Uid list option" where
  "ampClient_OnAsyncRequest e pPayload = do {
     count \<leftarrow> take_u32 e pPayload;
     same_strings e (unat count) (drop 4 pPayload) }"

section \<open>Application manager and applications\<close>

datatype app_call = InitApplication u32 "Uid list" | UseService u32 Uid bool | RegisterService u32 Uid | IsLinkAlive

datatype amp_call = SessionRequest u32 Uid Uid | GetAppLaunchInfo u32 | CheckConnection u32 | WaitingService Uid | LinkUp | LinkDown

abbreviation (input) C_PROTO_INIT_APP :: u8 where "C_PROTO_INIT_APP \<equiv> 0"
abbreviation (input) C_PROTO_USE_SERV :: u8 where "C_PROTO_USE_SERV \<equiv> 1"
abbreviation (input) C_PROTO_REG_SERV :: u8 where "C_PROTO_REG_SERV \<equiv> 2"
abbreviation (input) C_PROTO_IS_LINK_ALIVE :: u8 where "C_PROTO_IS_LINK_ALIVE \<equiv> 0x1D"
abbreviation (input) C_PROTO_SES_REQ :: u8 where "C_PROTO_SES_REQ \<equiv> 0"
abbreviation (input) C_PROTO_APP_LAN :: u8 where "C_PROTO_APP_LAN \<equiv> 1"
abbreviation (input) C_PROTO_CHK_CON :: u8 where "C_PROTO_CHK_CON \<equiv> 2"
abbreviation (input) C_PROTO_WAIT_SERV_REQ :: u8 where "C_PROTO_WAIT_SERV_REQ \<equiv> 3"
abbreviation (input) C_PROTO_LINK_UP_NOTIFY :: u8 where "C_PROTO_LINK_UP_NOTIFY \<equiv> 0x1E"
abbreviation (input) C_PROTO_LINK_DOWN_NOTIFY :: u8 where "C_PROTO_LINK_DOWN_NOTIFY \<equiv> 0x1F"

text \<open>
  A message is written into an array of the computed size and as many bytes are sent. In two of the calls the size forgets the byte of
  the type: what is written is one byte longer than the array.
\<close>

definition written_initApplication :: "endian \<Rightarrow> u32 \<Rightarrow> Uid list \<Rightarrow> nat \<times> u8 list" where
  "written_initApplication e pid services =
     (let size = 4 + 1 + 4 + 4 + sum_list (map stringInBufSize services)
      in (size, host_u32 e (of_nat size) @ [C_PROTO_INIT_APP] @ host_u32 e pid @ host_u32 e (of_nat (length services))
                @ concat (map (host_string e) services)))"

definition written_useService :: "endian \<Rightarrow> u32 \<Rightarrow> Uid \<Rightarrow> bool \<Rightarrow> nat \<times> u8 list" where
  "written_useService e pid service use =
     (let size = 4 + 4 + stringInBufSize service + 1
      in (size, host_u32 e (of_nat size) @ [C_PROTO_USE_SERV] @ host_u32 e pid @ host_string e service @ [of_bool use]))"

definition written_registerService :: "endian \<Rightarrow> u32 \<Rightarrow> Uid \<Rightarrow> nat \<times> u8 list" where
  "written_registerService e pid service =
     (let size = 4 + 4 + stringInBufSize service
      in (size, host_u32 e (of_nat size) @ [C_PROTO_REG_SERV] @ host_u32 e pid @ host_string e service))"

definition written_isLinkAlive :: "endian \<Rightarrow> nat \<times> u8 list" where
  "written_isLinkAlive e = (5, host_u32 e 5 @ [C_PROTO_IS_LINK_ALIVE])"

fun app_written :: "endian \<Rightarrow> app_call \<Rightarrow> nat \<times> u8 list" where
  "app_written e (InitApplication pid services) = written_initApplication e pid services"
| "app_written e (UseService pid service use) = written_useService e pid service use"
| "app_written e (RegisterService pid service) = written_registerService e pid service"
| "app_written e IsLinkAlive = written_isLinkAlive e"

definition app_message :: "endian \<Rightarrow> app_call \<Rightarrow> u8 list" where
  "app_message e c = (let (size, bytes) = app_written e c in take size bytes)"

text \<open>\<^verbatim>\<open>CAppManProtoServer::OnRequest\<close>; a type it does not know is ignored.\<close>

definition server_OnRequest :: "endian \<Rightarrow> u8 list \<Rightarrow> app_call option option" where
  "server_OnRequest e pPayload = do {
     size \<leftarrow> take_u32 e pPayload;
     type \<leftarrow> take_u8 (drop 4 pPayload);
     if type = C_PROTO_IS_LINK_ALIVE then Some (Some IsLinkAlive)
     else do {
       pid \<leftarrow> take_u32 e (drop 5 pPayload);
       let rest = drop 9 pPayload;
       if type = C_PROTO_INIT_APP then do {
         count \<leftarrow> take_u32 e rest;
         services \<leftarrow> take_strings e (unat count) (drop 4 rest);
         Some (Some (InitApplication pid services)) }
       else if type = C_PROTO_USE_SERV then do {
         service \<leftarrow> bufferToString e rest False;
         use \<leftarrow> take_u8 (drop (stringInBufSize service) rest);
         Some (Some (UseService pid service (use \<noteq> 0))) }
       else if type = C_PROTO_REG_SERV then do {
         service \<leftarrow> bufferToString e rest False;
         Some (Some (RegisterService pid service)) }
       else Some None } }"

definition server_sessionRequest :: "endian \<Rightarrow> u32 \<Rightarrow> Uid \<Rightarrow> Uid \<Rightarrow> u8 list" where
  "server_sessionRequest e pid session service =
     (let size = 4 + 4 + 1 + stringInBufSize session + stringInBufSize service
      in take size (host_u32 e (of_nat size) @ [C_PROTO_SES_REQ] @ host_u32 e pid @ host_string e session @ host_string e service))"

definition server_waitingServiceRequest :: "endian \<Rightarrow> Uid \<Rightarrow> u8 list" where
  "server_waitingServiceRequest e service =
     (let size = 4 + 1 + stringInBufSize service
      in take size (host_u32 e (of_nat size) @ [C_PROTO_WAIT_SERV_REQ] @ host_string e service))"

definition server_getAppLaunchInfo :: "endian \<Rightarrow> u32 \<Rightarrow> u8 list" where
  "server_getAppLaunchInfo e pid = take 9 (host_u32 e 9 @ [C_PROTO_APP_LAN] @ host_u32 e pid)"

definition server_notify :: "endian \<Rightarrow> u8 \<Rightarrow> u8 list" where
  "server_notify e notification = host_u32 e 5 @ [notification]"

text \<open>The calls that wait for an answer, and those that do not.\<close>

definition client_OnRequest :: "endian \<Rightarrow> u8 list \<Rightarrow> amp_call option option" where
  "client_OnRequest e pPayload = do {
     size \<leftarrow> take_u32 e pPayload;
     type \<leftarrow> take_u8 (drop 4 pPayload);
     pid \<leftarrow> take_u32 e (drop 5 pPayload);
     if type = C_PROTO_SES_REQ then do {
       session \<leftarrow> bufferToString e (drop 9 pPayload) False;
       service \<leftarrow> bufferToString e (drop (9 + stringInBufSize session) pPayload) False;
       Some (Some (SessionRequest pid session service)) }
     else if type = C_PROTO_APP_LAN then Some (Some (GetAppLaunchInfo pid))
     else if type = C_PROTO_CHK_CON then Some (Some (CheckConnection pid))
     else Some None }"

definition client_OnAsyncRequest :: "endian \<Rightarrow> u8 list \<Rightarrow> amp_call option option" where
  "client_OnAsyncRequest e pPayload = do {
     size \<leftarrow> take_u32 e pPayload;
     type \<leftarrow> take_u8 (drop 4 pPayload);
     if type = C_PROTO_LINK_UP_NOTIFY then Some (Some LinkUp)
     else if type = C_PROTO_LINK_DOWN_NOTIFY then Some (Some LinkDown)
     else if type = C_PROTO_WAIT_SERV_REQ then do {
       service \<leftarrow> bufferToString e (drop 5 pPayload) False;
       Some (Some (WaitingService service)) }
     else Some None }"

section \<open>What comes back\<close>

lemma host_lengths [simp]: "length (host_string e s) = stringInBufSize s" "length (host_u32 e n) = 4"
  by (simp_all add: host_string_def host_u32_def stringToBuffer_def stringInBufSize_def Let_def)

lemma take_host [simp]: "take_u32 e (host_u32 e n @ bs) = Some n" "take_u32 e (host_u32 e n) = Some n" "take_u8 (b # bs) = Some b"
  by (simp_all add: take_u32_def host_u32_def take_u8_def load_store)

text \<open>A string can be read when all its characters are there, with or without the zero.\<close>

lemma read_host_prefix:
  assumes "string_fits s" and "bs = take (4 + length s) (host_string e s) @ rest"
  shows "bufferToString e bs False = Some s"
proof -
  have "unat ((1 + of_nat (length s) :: u32) - 1) = length s"
    using assms(1) by (simp add: string_fits_def unsigned_of_nat take_bit_nat_eq_self)
  then show ?thesis
    unfolding assms(2) by (simp add: bufferToString_def host_string_def stringToBuffer_def Let_def load_store)
qed

lemma read_host_string [simp]: "string_fits s \<Longrightarrow> bufferToString e (host_string e s @ bs) False = Some s"
  by (rule read_host_prefix [where rest = "0 # bs"]) (simp_all add: host_string_def stringToBuffer_def Let_def)

lemmas read_host_end [simp] = read_host_string [where bs = "[]", simplified]

lemma take_strings_host [simp]:
  "list_all string_fits ss \<Longrightarrow> take_strings e (length ss) (concat (map (host_string e) ss) @ bs) = Some ss"
  by (induction ss) auto

lemmas take_strings_end [simp] = take_strings_host [where bs = "[]", simplified]

lemma same_strings_host: "string_fits s \<Longrightarrow> same_strings e k (host_string e s @ bs) = Some (replicate k s)"
  by (induction k) auto

section \<open>Every call but one\<close>

fun app_call_ok :: "app_call \<Rightarrow> bool" where
  "app_call_ok (InitApplication pid services) \<longleftrightarrow> length services < 2 ^ 32 \<and> list_all string_fits services"
| "app_call_ok (UseService pid service use) \<longleftrightarrow> string_fits service"
| "app_call_ok (RegisterService pid service) \<longleftrightarrow> string_fits service"
| "app_call_ok IsLinkAlive \<longleftrightarrow> True"

definition uses_service :: "app_call \<Rightarrow> bool" where
  "uses_service c \<longleftrightarrow> (\<exists>pid service use. c = UseService pid service use)"

lemma length_strings [simp]: "length (concat (map (host_string e) ss)) = sum_list (map stringInBufSize ss)"
  by (simp add: length_concat comp_def)

lemma take_host_string: "k \<le> stringInBufSize s \<Longrightarrow> take k (host_string e s @ bs) = take k (host_string e s)"
  by simp

text \<open>The calls that write one byte more than the array has.\<close>

lemma written_over:
  "length (snd (app_written e c)) = fst (app_written e c) + (case c of UseService _ _ _ \<Rightarrow> 1 | RegisterService _ _ \<Rightarrow> 1 | _ \<Rightarrow> 0)"
  by (cases c) (simp_all add: written_initApplication_def written_useService_def written_registerService_def written_isLinkAlive_def Let_def)

lemma init_message: "app_message e (InitApplication pid services) = snd (written_initApplication e pid services)"
  using written_over [of e "InitApplication pid services"] by (simp add: app_message_def case_prod_beta)

lemma use_message:
  "app_message e (UseService pid service use)
     = host_u32 e (of_nat (9 + stringInBufSize service)) @ [C_PROTO_USE_SERV] @ host_u32 e pid @ host_string e service"
  by (simp add: app_message_def written_useService_def Let_def take_Cons' add.commute)

lemma register_message:
  "app_message e (RegisterService pid service)
     = host_u32 e (of_nat (8 + stringInBufSize service)) @ [C_PROTO_REG_SERV] @ host_u32 e pid @ take (4 + length service) (host_string e service)"
  by (simp add: app_message_def written_registerService_def stringInBufSize_def Let_def take_Cons' add.commute)

lemma server_reads_use:
  "string_fits service \<Longrightarrow> server_OnRequest e (app_message e (UseService pid service use)) = None"
  by (simp add: use_message server_OnRequest_def Let_def take_u8_def)

lemma server_reads_register:
  assumes "string_fits service"
  shows "server_OnRequest e (app_message e (RegisterService pid service)) = Some (Some (RegisterService pid service))"
proof -
  have "bufferToString e (take (4 + length service) (host_string e service)) False = Some service"
    by (rule read_host_prefix [OF assms, where rest = "[]"]) simp
  then show ?thesis
    by (simp add: register_message server_OnRequest_def Let_def)
qed

lemma server_reads_init:
  assumes "length services < 2 ^ 32" and "list_all string_fits services"
  shows "server_OnRequest e (app_message e (InitApplication pid services)) = Some (Some (InitApplication pid services))"
proof -
  have "unat (of_nat (length services) :: u32) = length services"
    using assms(1) by (simp add: unsigned_of_nat take_bit_nat_eq_self)
  then show ?thesis
    using assms(2) by (simp add: init_message written_initApplication_def server_OnRequest_def Let_def)
qed

text \<open>
  Every call of an application reaches the application manager as it was made, except the one that switches a service:
  of it the application manager finds all but the switch, for which it reads behind the message.
\<close>

theorem app_calls_arrive:
  assumes "app_call_ok c"
  shows "server_OnRequest e (app_message e c) = (if uses_service c then None else Some (Some c))"
  using assms
  by (cases c) (simp_all add: uses_service_def server_reads_use server_reads_register server_reads_init,
    simp add: app_message_def written_isLinkAlive_def server_OnRequest_def)

theorem app_calls_arrive_witness:
  "server_OnRequest LittleEndian (app_message LittleEndian (InitApplication 7 [''nav'', ''media''])) = Some (Some (InitApplication 7 [''nav'', ''media'']))
     \<and> server_OnRequest LittleEndian (app_message LittleEndian (UseService 7 ''nav'' True)) = None"
  using app_calls_arrive [of "InitApplication 7 [''nav'', ''media'']" LittleEndian] app_calls_arrive [of "UseService 7 ''nav'' True" LittleEndian]
  by (auto simp: uses_service_def string_fits_def)

text \<open>The calls of the application manager.\<close>

lemma client_reads_session:
  "string_fits session \<Longrightarrow> string_fits service
     \<Longrightarrow> client_OnRequest e (server_sessionRequest e pid session service) = Some (Some (SessionRequest pid session service))"
  by (simp add: client_OnRequest_def server_sessionRequest_def Let_def drop_Cons')

lemma client_reads_others:
  "client_OnRequest e (server_getAppLaunchInfo e pid) = Some (Some (GetAppLaunchInfo pid))"
  "string_fits service \<Longrightarrow> client_OnAsyncRequest e (server_waitingServiceRequest e service) = Some (Some (WaitingService service))"
  "client_OnAsyncRequest e (server_notify e C_PROTO_LINK_UP_NOTIFY) = Some (Some LinkUp)"
  "client_OnAsyncRequest e (server_notify e C_PROTO_LINK_DOWN_NOTIFY) = Some (Some LinkDown)"
  by (simp_all add: client_OnRequest_def client_OnAsyncRequest_def server_getAppLaunchInfo_def server_waitingServiceRequest_def server_notify_def Let_def)

section \<open>The services that wait\<close>

lemma pmp_reads_request:
  "string_fits session \<Longrightarrow> string_fits service
     \<Longrightarrow> pmpServer_OnRequest e (amp_applicationRequest e session service) = Some (session, service)"
  "string_fits session \<Longrightarrow> ampClient_OnRequest e (amp_appRequestError e session) = Some session"
  by (simp_all add: pmpServer_OnRequest_def amp_applicationRequest_def ampClient_OnRequest_def amp_appRequestError_def Let_def)

text \<open>
  Of the services that applications wait for, the profile manager learns only the first: it takes the others for
  the same, so that none of them is ever loaded on their behalf.
\<close>

theorem only_first_service_waits:
  assumes "list_all string_fits services" and "length services < 2 ^ 32"
  shows "ampClient_OnAsyncRequest e (amp_waitingServicesRequest e services) = Some (replicate (length services) (hd services))"
proof (cases services)
  case (Cons s ss)
  have "unat (of_nat (length services) :: u32) = length services"
    using assms(2) by (simp add: unsigned_of_nat take_bit_nat_eq_self)
  moreover have "same_strings e (length services) (host_string e s @ concat (map (host_string e) ss)) = Some (replicate (length services) s)"
    using assms(1) Cons by (intro same_strings_host) simp
  ultimately show ?thesis
    using Cons by (simp add: ampClient_OnAsyncRequest_def amp_waitingServicesRequest_def)
qed (simp add: ampClient_OnAsyncRequest_def amp_waitingServicesRequest_def)

theorem only_first_service_waits_witness:
  "ampClient_OnAsyncRequest BigEndian (amp_waitingServicesRequest BigEndian [''nav'', ''media'']) = Some [''nav'', ''nav'']"
  using only_first_service_waits [of "[''nav'', ''media'']" BigEndian] by (simp add: string_fits_def)

end
