(* ===== verification/AmpRequests.thy ===== *)
theory AmpRequests
  imports AmpDatabase AmpFrames
begin

text \<open>
  The application manager at work: the request handler (\<^verbatim>\<open>requestHandler/private/CRequestHandler.cpp\<close>), the running applications
  (\<^verbatim>\<open>CRunApp.cpp\<close>), the two threads that launch applications and talk to them (\<^verbatim>\<open>CLaunchThread.cpp\<close>, \<^verbatim>\<open>CAppComThread.cpp\<close>), and the
  connections of applications (\<^verbatim>\<open>CAppManProtoServer.cpp\<close>). Every operation is a step of its own; a mutex that it leaves locked is a flag
  of the state, and \<^const>\<open>None\<close> is a thread that waits for such a mutex, or an iterator used beyond the end.
\<close>

section \<open>A running application\<close>

record CRunApp =
  mAppId :: int
  mPid :: int
  run_services :: "Uid set"
  mSession :: Uid
  mRegistred :: bool
  mNeedsSessionRequest :: bool

definition CRunApp_new :: CRunApp where
  "CRunApp_new = \<lparr>mAppId = -1, mPid = -1, run_services = {}, mSession = '''', mRegistred = False, mNeedsSessionRequest = False\<rparr>"

definition run_useService :: "Uid \<Rightarrow> bool \<Rightarrow> CRunApp \<Rightarrow> CRunApp" where
  "run_useService service use app =
     app\<lparr>run_services := (if use then insert service (run_services app) else run_services app - {service})\<rparr>"

text \<open>The identifiers of services in the order of the set.\<close>

definition run_getServices :: "CRunApp \<Rightarrow> Uid list" where
  "run_getServices app = sorted_list_of_set (run_services app)"

section \<open>The state\<close>

datatype EInitResult = STARTED_BY_APPMAN | STARTED_BY_USER | ERROR_IPC | ERROR_NOT_INITED | ERROR_AMP

text \<open>What leaves the process, besides the answers: to the profile manager, to applications, to the launcher.\<close>

datatype amp_action =
    ToPmpRequestError Uid
  | WaitingServicesRequest "Uid list"
  | ToAppSession int Uid Uid
  | ToAppWaiting int Uid
  | LaunchApplication string

record CAppComThread =
  mRequests :: "Uid list"
  mSessionRequests :: "(int \<times> (Uid \<times> Uid)) list"
  mAppLaunchRequests :: "int list"

record CLaunchThread =
  launch_requests :: "(Uid \<times> int) list"
  launch_sessions :: "string \<rightharpoonup> Uid"

record CRequestHandler =
  mApps :: "(int \<times> CRunApp) list"
  mSessions :: "Uid \<rightharpoonup> CRunApp"
  mSessionServices :: "Uid \<rightharpoonup> Uid"
  mpAppMutex :: bool
  mpSessionMutex :: bool
  mpSessionServicesMutex :: bool
  mpDatabase :: CDatabase
  handler_inited :: bool
  mpAppComThread :: CAppComThread
  mpLaunchThread :: CLaunchThread
  mClients :: "(int \<times> nat) list"
  amp_done :: "amp_action list"

definition CRequestHandler_new :: "CDatabase \<Rightarrow> CRequestHandler" where
  "CRequestHandler_new db = \<lparr>mApps = [], mSessions = Map.empty, mSessionServices = Map.empty, mpAppMutex = False, mpSessionMutex = False,
     mpSessionServicesMutex = False, mpDatabase = db, handler_inited = False,
     mpAppComThread = \<lparr>mRequests = [], mSessionRequests = [], mAppLaunchRequests = []\<rparr>,
     mpLaunchThread = \<lparr>launch_requests = [], launch_sessions = Map.empty\<rparr>, mClients = [], amp_done = []\<rparr>"

text \<open>\<^verbatim>\<open>CController\<close> sets all the pointers, and takes them away at the end.\<close>

definition CController_init :: "CRequestHandler \<Rightarrow> CRequestHandler" where
  "CController_init h = h\<lparr>handler_inited := True\<rparr>"

definition CController_uninit :: "CRequestHandler \<Rightarrow> CRequestHandler" where
  "CController_uninit h = h\<lparr>handler_inited := False\<rparr>"

definition amp_emit :: "amp_action \<Rightarrow> CRequestHandler \<Rightarrow> CRequestHandler" where
  "amp_emit a h = h\<lparr>amp_done := amp_done h @ [a]\<rparr>"

section \<open>Requests for the threads\<close>

definition com :: "(CAppComThread \<Rightarrow> CAppComThread) \<Rightarrow> CRequestHandler \<Rightarrow> CRequestHandler" where
  "com f h = h\<lparr>mpAppComThread := f (mpAppComThread h)\<rparr>"

definition addRequest :: "Uid \<Rightarrow> CAppComThread \<Rightarrow> CAppComThread" where
  "addRequest session t = t\<lparr>mRequests := mRequests t @ [session]\<rparr>"

definition addSessionRequest :: "int \<Rightarrow> Uid \<Rightarrow> Uid \<Rightarrow> CAppComThread \<Rightarrow> CAppComThread" where
  "addSessionRequest pid session service t = t\<lparr>mSessionRequests := map_put pid (session, service) (mSessionRequests t)\<rparr>"

definition addWaitingServiceRequest :: "int \<Rightarrow> Uid \<Rightarrow> CAppComThread \<Rightarrow> CAppComThread" where
  "addWaitingServiceRequest pid service t = t\<lparr>mSessionRequests := map_put pid ('''', service) (mSessionRequests t)\<rparr>"

definition addAppLaunchInfoRequest :: "int \<Rightarrow> CAppComThread \<Rightarrow> CAppComThread" where
  "addAppLaunchInfoRequest pid t = t\<lparr>mAppLaunchRequests := mAppLaunchRequests t @ [pid]\<rparr>"

definition launchApp :: "Uid \<Rightarrow> int \<Rightarrow> CRequestHandler \<Rightarrow> CRequestHandler" where
  "launchApp session dbId h = h\<lparr>mpLaunchThread := (mpLaunchThread h)\<lparr>launch_requests := launch_requests (mpLaunchThread h) @ [(session, dbId)]\<rparr>\<rparr>"

section \<open>The request handler\<close>

text \<open>\<^verbatim>\<open>printState\<close> locks all three mutexes in turn. \<^verbatim>\<open>mApps[pid]\<close> makes an entry where there is none.\<close>

definition printState :: "CRequestHandler \<Rightarrow> CRequestHandler option" where
  "printState h = do { cassert (\<not> mpAppMutex h); cassert (\<not> mpSessionMutex h); cassert (\<not> mpSessionServicesMutex h); Some h }"

definition app_at :: "int \<Rightarrow> CRequestHandler \<Rightarrow> CRunApp" where
  "app_at pid h = (case map_of (mApps h) pid of None \<Rightarrow> CRunApp_new | Some app \<Rightarrow> app)"

definition set_app :: "int \<Rightarrow> CRunApp \<Rightarrow> CRequestHandler \<Rightarrow> CRequestHandler" where
  "set_app pid app h = h\<lparr>mApps := map_put pid app (mApps h)\<rparr>"

definition app_lost :: "int \<Rightarrow> CRequestHandler \<Rightarrow> CRequestHandler option" where
  "app_lost pid h = do { cassert (\<not> mpAppMutex h); Some (h\<lparr>mApps := map_erase pid (mApps h)\<rparr>) }"

text \<open>The services are entered into the database unless it has them.\<close>

definition store_services :: "int \<Rightarrow> Uid list \<Rightarrow> CRequestHandler \<Rightarrow> CRequestHandler" where
  "store_services i services h =
     h\<lparr>mpDatabase := fold (\<lambda>s db. if hasService i s db then db else snd (addService_id i s db)) services (mpDatabase h)\<rparr>"

text \<open>The session an application was launched for: the iterator is erased even if it is the end.\<close>

definition first_session :: "int \<Rightarrow> CRunApp \<Rightarrow> CRequestHandler \<Rightarrow> CRequestHandler option" where
  "first_session pid app h = do {
     cassert (\<not> mpSessionServicesMutex h);
     service \<leftarrow> mSessionServices h (mSession app);
     let h = com (addSessionRequest (mPid app) (mSession app) service) h;
     let h = h\<lparr>mSessionServices := (mSessionServices h)(mSession app := None)\<rparr>;
     cassert (\<not> mpAppMutex h);
     Some (set_app pid (app\<lparr>mNeedsSessionRequest := False\<rparr>) h) }"

definition initApplication :: "int \<Rightarrow> Uid list \<Rightarrow> CRequestHandler \<Rightarrow> (EInitResult \<times> CRequestHandler) option" where
  "initApplication pid services h =
     (if \<not> handler_inited h then Some (ERROR_AMP, h)
      else do {
        cassert (\<not> mpAppMutex h);
        let app = (fold (\<lambda>s. run_useService s True) services ((app_at pid h)\<lparr>mPid := pid\<rparr>))\<lparr>mRegistred := True\<rparr>;
        let h = set_app pid app h;
        h \<leftarrow> (if mNeedsSessionRequest app then first_session pid app h else Some h);
        let h = (if mAppId app \<noteq> -1 then store_services (mAppId app) services h else com (addAppLaunchInfoRequest pid) h);
        h \<leftarrow> printState h;
        Some (if mNeedsSessionRequest app then STARTED_BY_APPMAN else STARTED_BY_USER, h) })"

text \<open>Whether a service is switched on or off, it is entered into the database.\<close>

definition useService :: "int \<Rightarrow> Uid \<Rightarrow> bool \<Rightarrow> CRequestHandler \<Rightarrow> CRequestHandler option" where
  "useService pid service use h = do {
     cassert (\<not> mpAppMutex h);
     let app = run_useService service use (app_at pid h);
     let h = set_app pid app h;
     Some (if mAppId app \<noteq> -1 \<and> handler_inited h then store_services (mAppId app) [service] h else h) }"

text \<open>For a process that is not known the call returns with the mutex locked.\<close>

definition registerService :: "int \<Rightarrow> Uid \<Rightarrow> CRequestHandler \<Rightarrow> CRequestHandler option" where
  "registerService pid service h =
     (if \<not> handler_inited h then Some h
      else do {
        cassert (\<not> mpAppMutex h);
        case map_of (mApps h) pid of
          None \<Rightarrow> Some (h\<lparr>mpAppMutex := True\<rparr>)
        | Some app \<Rightarrow> Some (h\<lparr>mpDatabase := snd (addService_id (mAppId app) service (mpDatabase h))\<rparr>) })"

definition find_running :: "Uid \<Rightarrow> CRequestHandler \<Rightarrow> (int \<times> CRunApp) option" where
  "find_running service h = find (\<lambda>(_, app). service \<in> run_services app) (mApps h)"

text \<open>Without an application in the database the profile manager gets its error, and then the first of no applications is launched.\<close>

definition applicationRequest :: "Uid \<Rightarrow> Uid \<Rightarrow> CRequestHandler \<Rightarrow> CRequestHandler option" where
  "applicationRequest session service h =
     (if \<not> handler_inited h then Some h
      else do {
        cassert (\<not> mpAppMutex h);
        case find_running service h of
          Some (pid, app) \<Rightarrow> Some (com (addSessionRequest pid session service) (set_app pid (app\<lparr>mSession := session\<rparr>) h))
        | None \<Rightarrow> do {
            cassert (\<not> mpSessionMutex h);
            let app = (case mSessions h session of None \<Rightarrow> CRunApp_new | Some app \<Rightarrow> app)\<lparr>mNeedsSessionRequest := True, mSession := session\<rparr>;
            let ids = getApps_ids service (mpDatabase h);
            let h = (if ids = [] then com (addRequest session) h else h);
            cassert (ids \<noteq> []);
            let h = h\<lparr>mSessions := (mSessions h)(session \<mapsto> app\<lparr>mAppId := hd ids\<rparr>)\<rparr>;
            cassert (\<not> mpSessionServicesMutex h);
            let h = h\<lparr>mSessionServices := (mSessionServices h)(session \<mapsto> service)\<rparr>;
            Some (launchApp session (hd ids) h) } })"

definition waitingServiceReqeust :: "Uid \<Rightarrow> CRequestHandler \<Rightarrow> CRequestHandler option" where
  "waitingServiceReqeust service h =
     (if \<not> handler_inited h then Some h
      else do {
        cassert (\<not> mpAppMutex h);
        case find_running service h of
          Some (pid, _) \<Rightarrow> Some (com (addWaitingServiceRequest pid service) h)
        | None \<Rightarrow> Some h })"

text \<open>
  The process of a session is known, or \<^verbatim>\<open>-1\<close> when the launch failed. Two of the branches print the state with a mutex locked.
\<close>

definition setSessionPid :: "Uid \<Rightarrow> int \<Rightarrow> CRequestHandler \<Rightarrow> CRequestHandler option" where
  "setSessionPid session pid h = do {
     cassert (\<not> mpSessionMutex h);
     case mSessions h session of
       None \<Rightarrow> Some h
     | Some app \<Rightarrow>
         if pid = -1 then do {
           let h = h\<lparr>mSessions := (mSessions h)(session := None)\<rparr>;
           cassert (\<not> mpSessionServicesMutex h);
           Some (h\<lparr>mSessionServices := (mSessionServices h)(session := None)\<rparr>) }
         else if \<not> handler_inited h then printState (h\<lparr>mpSessionMutex := True\<rparr>)
         else do {
           let h = h\<lparr>mSessions := (mSessions h)(session := None)\<rparr>;
           cassert (\<not> mpAppMutex h);
           let h = set_app pid ((app_at pid h)\<lparr>mPid := pid, mAppId := mAppId app, mNeedsSessionRequest := mNeedsSessionRequest app,
                                               mSession := mSession app\<rparr>) h;
           cassert (\<not> mpSessionServicesMutex h);
           case mSessionServices h session of
             None \<Rightarrow> printState (h\<lparr>mpSessionServicesMutex := True\<rparr>)
           | Some service \<Rightarrow> printState (com (addSessionRequest pid session service) h) } }"

definition setProcAppLanchInfo :: "processor \<Rightarrow> int \<Rightarrow> string \<Rightarrow> CRequestHandler \<Rightarrow> CRequestHandler option" where
  "setProcAppLanchInfo pr pid launchInfo h =
     (if \<not> handler_inited h then Some h
      else do {
        let h = (if getId pr launchInfo (mpDatabase h) = -1 then h\<lparr>mpDatabase := snd (addApp pr launchInfo (mpDatabase h))\<rparr> else h);
        let i = getId pr launchInfo (mpDatabase h);
        cassert (\<not> mpAppMutex h);
        case map_of (mApps h) pid of
          None \<Rightarrow> Some h
        | Some app \<Rightarrow>
            (let h = set_app pid (app\<lparr>mAppId := i\<rparr>) h
             in Some (if i \<noteq> -1 then store_services i (run_getServices app) h else h)) })"

definition onProfileManagerConnection :: "CRequestHandler \<Rightarrow> CRequestHandler option" where
  "onProfileManagerConnection h = do {
     cassert (\<not> mpAppMutex h);
     Some (amp_emit (WaitingServicesRequest (concat (map (run_getServices \<circ> snd) (mApps h)))) h) }"

section \<open>Connections of applications\<close>

text \<open>A message names the process it comes from; the first one ties it to the connection.\<close>

definition client_known :: "int \<Rightarrow> nat \<Rightarrow> CRequestHandler \<Rightarrow> CRequestHandler" where
  "client_known pid dirId h = (if map_of (mClients h) pid = None then h\<lparr>mClients := map_put pid dirId (mClients h)\<rparr> else h)"

definition server_OnConnectionLost :: "nat \<Rightarrow> CRequestHandler \<Rightarrow> CRequestHandler option" where
  "server_OnConnectionLost dirId h =
     (case find (\<lambda>(_, d). d = dirId) (mClients h) of
        None \<Rightarrow> Some h
      | Some (pid, _) \<Rightarrow> do { h \<leftarrow> app_lost pid h; Some (h\<lparr>mClients := map_erase pid (mClients h)\<rparr>) })"

text \<open>What the server does with a call; the answer to one that is not \<^verbatim>\<open>initApplication\<close> says nothing.\<close>

fun server_handle :: "nat \<Rightarrow> app_call \<Rightarrow> CRequestHandler \<Rightarrow> (EInitResult option \<times> CRequestHandler) option" where
  "server_handle dirId (InitApplication pid services) h = do {
     (res, h) \<leftarrow> initApplication (sint pid) services (client_known (sint pid) dirId h);
     Some (Some res, h) }"
| "server_handle dirId (UseService pid service use) h = do {
     h \<leftarrow> useService (sint pid) service use (client_known (sint pid) dirId h);
     Some (None, h) }"
| "server_handle dirId (RegisterService pid service) h = do {
     h \<leftarrow> registerService (sint pid) service (client_known (sint pid) dirId h);
     Some (None, h) }"
| "server_handle dirId IsLinkAlive h = Some (None, h)"

text \<open>Nobody looks at the result of a request to an application that is not connected.\<close>

definition send_to_app :: "int \<Rightarrow> amp_action \<Rightarrow> CRequestHandler \<Rightarrow> CRequestHandler" where
  "send_to_app pid a h = (if map_of (mClients h) pid = None then h else amp_emit a h)"

section \<open>The threads\<close>

definition com_hasRequests :: "CRequestHandler \<Rightarrow> bool" where
  "com_hasRequests h \<longleftrightarrow> mRequests (mpAppComThread h) \<noteq> [] \<or> mSessionRequests (mpAppComThread h) \<noteq> [] \<or> mAppLaunchRequests (mpAppComThread h) \<noteq> []"

definition com_error :: "CRequestHandler \<Rightarrow> CRequestHandler" where
  "com_error h =
     (case mRequests (mpAppComThread h) of
        [] \<Rightarrow> h
      | session # rest \<Rightarrow>
          (let h = com (\<lambda>t. t\<lparr>mRequests := rest\<rparr>) h in if session \<noteq> '''' then amp_emit (ToPmpRequestError session) h else h))"

definition com_session :: "CRequestHandler \<Rightarrow> CRequestHandler" where
  "com_session h =
     (case mSessionRequests (mpAppComThread h) of
        [] \<Rightarrow> h
      | (pid, session, service) # rest \<Rightarrow>
          (let h = com (\<lambda>t. t\<lparr>mSessionRequests := rest\<rparr>) h
           in if session = '''' then send_to_app pid (ToAppWaiting pid service) h else send_to_app pid (ToAppSession pid session service) h))"

text \<open>The answer of an application that does not exist, or does not answer, is the empty text.\<close>

definition com_launch_info :: "processor \<Rightarrow> (int \<Rightarrow> string) \<Rightarrow> CRequestHandler \<Rightarrow> CRequestHandler option" where
  "com_launch_info pr exe h =
     (case mAppLaunchRequests (mpAppComThread h) of
        [] \<Rightarrow> Some h
      | pid # rest \<Rightarrow>
          (let h = com (\<lambda>t. t\<lparr>mAppLaunchRequests := rest\<rparr>) h
           in setProcAppLanchInfo pr pid (if map_of (mClients h) pid = None then '''' else exe pid) h))"

definition com_handleRequest :: "processor \<Rightarrow> (int \<Rightarrow> string) \<Rightarrow> CRequestHandler \<Rightarrow> CRequestHandler option" where
  "com_handleRequest pr exe h = (if handler_inited h then com_launch_info pr exe (com_session (com_error h)) else Some h)"

definition launch_handleRequest :: "CRequestHandler \<Rightarrow> CRequestHandler" where
  "launch_handleRequest h =
     (if \<not> handler_inited h then h else case launch_requests (mpLaunchThread h) of
        [] \<Rightarrow> h
      | (session, i) # rest \<Rightarrow>
          (let h = h\<lparr>mpLaunchThread := (mpLaunchThread h)\<lparr>launch_requests := rest\<rparr>\<rparr>; info = appLaunchInfo i (mpDatabase h)
           in if info = '''' then h
              else amp_emit (LaunchApplication info)
                (h\<lparr>mpLaunchThread := (mpLaunchThread h)\<lparr>launch_sessions := (launch_sessions (mpLaunchThread h))(info \<mapsto> session)\<rparr>\<rparr>)))"

text \<open>What the launcher reports: the new process, or \<^verbatim>\<open>-1\<close>.\<close>

definition take_session :: "string \<Rightarrow> int \<Rightarrow> CRequestHandler \<Rightarrow> CRequestHandler option" where
  "take_session launchInfo pid h =
     (case launch_sessions (mpLaunchThread h) launchInfo of
        None \<Rightarrow> Some h
      | Some session \<Rightarrow>
          setSessionPid session pid
            (h\<lparr>mpLaunchThread := (mpLaunchThread h)\<lparr>launch_sessions := (launch_sessions (mpLaunchThread h))(launchInfo := None)\<rparr>\<rparr>))"

definition launchedApp :: "string \<Rightarrow> int \<Rightarrow> CRequestHandler \<Rightarrow> CRequestHandler option" where
  "launchedApp launchInfo pid h = take_session launchInfo pid h"

definition launchError :: "string \<Rightarrow> CRequestHandler \<Rightarrow> CRequestHandler option" where
  "launchError launchInfo h = take_session launchInfo (-1) h"

section \<open>What keeps it running\<close>

text \<open>The processes that still have to get the session they were launched for.\<close>

definition needing :: "CRequestHandler \<Rightarrow> (int \<times> Uid) set" where
  "needing h = {(pid, s). \<exists>app. map_of (mApps h) pid = Some app \<and> mNeedsSessionRequest app \<and> mSession app = s}"

text \<open>Their sessions have a service, are not still to be launched, and differ from each other.\<close>

definition sessions_ok :: "(int \<times> Uid) set \<Rightarrow> (Uid \<rightharpoonup> CRunApp) \<Rightarrow> (Uid \<rightharpoonup> Uid) \<Rightarrow> bool" where
  "sessions_ok N sessions services \<longleftrightarrow>
     snd ` N \<subseteq> dom services \<and> snd ` N \<inter> dom sessions = {} \<and> inj_on snd N \<and> dom sessions \<subseteq> dom services
     \<and> (\<forall>s app. sessions s = Some app \<longrightarrow> mSession app = s)"

definition amp_ok :: "CRequestHandler \<Rightarrow> bool" where
  "amp_ok h \<longleftrightarrow> \<not> mpAppMutex h \<and> \<not> mpSessionMutex h \<and> \<not> mpSessionServicesMutex h \<and> handler_inited h \<and> map_sorted (mApps h)
     \<and> map_sorted (mClients h) \<and> sessions_ok (needing h) (mSessions h) (mSessionServices h)"

lemma sessions_ok_fewer: "sessions_ok N sessions services \<Longrightarrow> N' \<subseteq> N \<Longrightarrow> sessions_ok N' sessions services"
  unfolding sessions_ok_def by (blast intro: inj_on_subset)

lemma sessions_ok_done:
  assumes "sessions_ok N sessions services" and "(pid, s) \<in> N" and "N' = {x \<in> N. fst x \<noteq> pid}"
  shows "sessions_ok N' sessions (services(s := None))"
proof -
  have "snd x \<noteq> s" if "x \<in> N'" for x
  proof
    assume "snd x = s"
    then have "x = (pid, s)"
      using that assms unfolding sessions_ok_def by (intro inj_onD [of snd N x]) auto
    then show False
      using that assms(3) by simp
  qed
  moreover have "s \<notin> dom sessions"
    using assms(1,2) unfolding sessions_ok_def by force
  moreover have "sessions_ok N' sessions services"
    using assms by (auto intro: sessions_ok_fewer)
  ultimately show ?thesis
    unfolding sessions_ok_def by (auto simp: subset_iff)
qed

lemma amp_okD:
  assumes "amp_ok h"
  shows "\<not> mpAppMutex h" "\<not> mpSessionMutex h" "\<not> mpSessionServicesMutex h" "handler_inited h" "map_sorted (mApps h)" "map_sorted (mClients h)"
  using assms by (simp_all add: amp_ok_def)

lemma needing_set_app:
  "map_sorted (mApps h) \<Longrightarrow> needing (set_app pid app h) = {x \<in> needing h. fst x \<noteq> pid} \<union> (if mNeedsSessionRequest app then {(pid, mSession app)} else {})"
  by (auto simp: needing_def set_app_def split: if_splits)

lemma needing_erase: "needing (h\<lparr>mApps := map_erase pid (mApps h)\<rparr>) = {x \<in> needing h. fst x \<noteq> pid}"
  by (auto simp: needing_def split: if_splits)

lemma needing_simps [simp]:
  "needing (h\<lparr>mSessions := a\<rparr>) = needing h" "needing (h\<lparr>mSessionServices := b\<rparr>) = needing h" "needing (h\<lparr>mpDatabase := c\<rparr>) = needing h"
  "needing (h\<lparr>mpAppComThread := d\<rparr>) = needing h" "needing (h\<lparr>mpLaunchThread := f\<rparr>) = needing h" "needing (h\<lparr>mClients := g\<rparr>) = needing h"
  "needing (h\<lparr>amp_done := k\<rparr>) = needing h"
  by (simp_all add: needing_def)

lemma amp_ok_frame [simp]:
  "amp_ok (h\<lparr>mpDatabase := c\<rparr>) = amp_ok h" "amp_ok (h\<lparr>mpAppComThread := d\<rparr>) = amp_ok h" "amp_ok (h\<lparr>mpLaunchThread := f\<rparr>) = amp_ok h"
  "amp_ok (h\<lparr>amp_done := k\<rparr>) = amp_ok h"
  by (simp_all add: amp_ok_def)

lemma amp_ok_clients: "amp_ok h \<Longrightarrow> map_sorted g \<Longrightarrow> amp_ok (h\<lparr>mClients := g\<rparr>)"
  by (simp add: amp_ok_def)

lemma amp_ok_cong:
  assumes "amp_ok h" and "mApps h' = mApps h" and "mSessions h' = mSessions h" and "mSessionServices h' = mSessionServices h"
    and "mClients h' = mClients h" and "mpAppMutex h' = mpAppMutex h" and "mpSessionMutex h' = mpSessionMutex h" and "mpSessionServicesMutex h' = mpSessionServicesMutex h"
    and "handler_inited h' = handler_inited h"
  shows "amp_ok h'"
  using assms by (simp add: amp_ok_def needing_def)

lemma amp_ok_helpers [simp]:
  "amp_ok (com f h) = amp_ok h" "amp_ok (launchApp session i h) = amp_ok h" "amp_ok (amp_emit a h) = amp_ok h"
  "amp_ok (store_services i services h) = amp_ok h" "amp_ok (send_to_app pid a h) = amp_ok h"
  by (simp_all add: com_def launchApp_def amp_emit_def store_services_def send_to_app_def)

lemma client_known_ok: "amp_ok h \<Longrightarrow> amp_ok (client_known pid d h)"
  by (simp add: client_known_def amp_ok_clients amp_okD)

lemma printState_ok [simp]: "amp_ok h \<Longrightarrow> printState h = Some h"
  by (simp add: printState_def amp_okD)

text \<open>An application of which only what does not concern its session changes.\<close>

lemma set_app_same:
  assumes "amp_ok h" and "mNeedsSessionRequest app = mNeedsSessionRequest (app_at pid h)" and "mSession app = mSession (app_at pid h)"
  shows "amp_ok (set_app pid app h) \<and> needing (set_app pid app h) = needing h"
proof -
  have "needing (set_app pid app h) = needing h"
    using assms needing_set_app [OF amp_okD(5) [OF assms(1)], of pid app]
    by (auto simp: app_at_def needing_def CRunApp_new_def split: option.splits)
  then show ?thesis
    using assms(1) by (simp add: amp_ok_def set_app_def)
qed

lemma set_app_done:
  assumes "amp_ok h" and "\<not> mNeedsSessionRequest app"
  shows "amp_ok (set_app pid app h)"
proof -
  have "needing (set_app pid app h) \<subseteq> needing h"
    using assms needing_set_app [OF amp_okD(5) [OF assms(1)]] by auto
  from sessions_ok_fewer [OF _ this] show ?thesis
    using assms(1) by (auto simp: amp_ok_def set_app_def)
qed

lemma run_services_simps [simp]:
  "mNeedsSessionRequest (run_useService s u app) = mNeedsSessionRequest app" "mSession (run_useService s u app) = mSession app"
  "mAppId (run_useService s u app) = mAppId app" "mPid (run_useService s u app) = mPid app"
  by (simp_all add: run_useService_def)

lemma fold_services [simp]:
  "mNeedsSessionRequest (fold (\<lambda>s. run_useService s u) ss app) = mNeedsSessionRequest app"
  "mSession (fold (\<lambda>s. run_useService s u) ss app) = mSession app"
  "mAppId (fold (\<lambda>s. run_useService s u) ss app) = mAppId app" "mPid (fold (\<lambda>s. run_useService s u) ss app) = mPid app"
  by (induction ss arbitrary: app) simp_all

lemma app_lost_ok: "amp_ok h \<Longrightarrow> \<exists>h'. app_lost pid h = Some h' \<and> amp_ok h'"
  by (auto simp: app_lost_def amp_okD) (auto simp: amp_ok_def needing_erase intro: sessions_ok_fewer)

lemma useService_ok: "amp_ok h \<Longrightarrow> \<exists>h'. useService pid service u h = Some h' \<and> amp_ok h'"
  using set_app_same [of h "run_useService service u (app_at pid h)" pid] by (auto simp: useService_def amp_okD Let_def)

lemma first_session_ok:
  assumes "amp_ok h" and "(pid, mSession app) \<in> needing h"
  shows "\<exists>h'. first_session pid app h = Some h' \<and> amp_ok h'"
proof -
  have ok: "sessions_ok (needing h) (mSessions h) (mSessionServices h)"
    using assms(1) by (simp add: amp_ok_def)
  obtain service where service: "mSessionServices h (mSession app) = Some service"
    using ok assms(2) unfolding sessions_ok_def by force
  let ?app = "app\<lparr>mNeedsSessionRequest := False\<rparr>"
  let ?h = "set_app pid ?app (h\<lparr>mSessionServices := (mSessionServices h)(mSession app := None)\<rparr>)"
  have "needing ?h = {x \<in> needing h. fst x \<noteq> pid}"
    using needing_set_app [of "h\<lparr>mSessionServices := (mSessionServices h)(mSession app := None)\<rparr>" pid ?app] amp_okD(5) [OF assms(1)] by simp
  from sessions_ok_done [OF ok assms(2) this] have "amp_ok ?h"
    using assms(1) by (simp add: amp_ok_def set_app_def)
  then have "amp_ok (set_app pid ?app (com (addSessionRequest (mPid app) (mSession app) service) h
      \<lparr>mSessionServices := (mSessionServices h)(mSession app := None)\<rparr>))"
    by (rule amp_ok_cong) (simp_all add: set_app_def com_def)
  then show ?thesis
    using service amp_okD [OF assms(1)] by (simp add: first_session_def Let_def com_def)
qed

lemma initApplication_ok:
  assumes "amp_ok h"
  shows "\<exists>res h'. initApplication pid services h = Some (res, h') \<and> amp_ok h'"
proof -
  let ?app = "(fold (\<lambda>s. run_useService s True) services ((app_at pid h)\<lparr>mPid := pid\<rparr>))\<lparr>mRegistred := True\<rparr>"
  let ?h = "set_app pid ?app h"
  have h: "amp_ok ?h"
    using set_app_same [OF assms, of ?app pid] by simp
  have "(pid, mSession ?app) \<in> needing ?h" if "mNeedsSessionRequest ?app"
    using that needing_set_app [OF amp_okD(5) [OF assms]] by simp
  then have "\<exists>h'. (if mNeedsSessionRequest ?app then first_session pid ?app ?h else Some ?h) = Some h' \<and> amp_ok h'"
    using first_session_ok [OF h] h by simp
  then obtain h1 where h1: "(if mNeedsSessionRequest ?app then first_session pid ?app ?h else Some ?h) = Some h1" "amp_ok h1"
    by blast
  then have "amp_ok (if mAppId ?app \<noteq> -1 then store_services (mAppId ?app) services h1 else com (addAppLaunchInfoRequest pid) h1)"
    by simp
  then show ?thesis
    using h1 amp_okD [OF assms] unfolding initApplication_def by (simp add: Let_def)
qed

text \<open>
  What the callers have to respect: a service is supported by some application and its session is new, or it is switched on in a running
  application that is not to get another session first; only a known process registers services.
\<close>

definition orderly :: "Uid \<Rightarrow> Uid \<Rightarrow> CRequestHandler \<Rightarrow> bool" where
  "orderly session service h \<longleftrightarrow>
     (case find_running service h of
        Some (_, app) \<Rightarrow> \<not> mNeedsSessionRequest app
      | None \<Rightarrow> getApps_ids service (mpDatabase h) \<noteq> [] \<and> session \<notin> snd ` needing h)"

lemma find_running_at: "find_running service h = Some (pid, app) \<Longrightarrow> map_sorted (mApps h) \<Longrightarrow> map_of (mApps h) pid = Some app"
  by (auto simp: find_running_def find_Some_iff map_of_sorted_iff [symmetric]) (metis nth_mem)

lemma applicationRequest_ok:
  assumes "amp_ok h" and "orderly session service h"
  shows "\<exists>h'. applicationRequest session service h = Some h' \<and> amp_ok h'"
proof (cases "find_running service h")
  case None
  let ?old = "case mSessions h session of None \<Rightarrow> CRunApp_new | Some app \<Rightarrow> app"
  let ?app = "?old\<lparr>mNeedsSessionRequest := True, mSession := session, mAppId := hd (getApps_ids service (mpDatabase h))\<rparr>"
  have "sessions_ok (needing h) (mSessions h) (mSessionServices h)"
    using assms(1) by (simp add: amp_ok_def)
  then have "sessions_ok (needing h) ((mSessions h)(session \<mapsto> ?app)) ((mSessionServices h)(session \<mapsto> service))"
    using assms(2) None by (auto simp: sessions_ok_def orderly_def)
  then have "amp_ok (h\<lparr>mSessions := (mSessions h)(session \<mapsto> ?app), mSessionServices := (mSessionServices h)(session \<mapsto> service)\<rparr>)"
    using assms(1) by (simp add: amp_ok_def)
  then show ?thesis
    using assms None amp_okD [OF assms(1)] by (simp add: applicationRequest_def orderly_def Let_def)
next
  case (Some x)
  obtain pid app where x: "x = (pid, app)"
    by fastforce
  have "amp_ok (set_app pid (app\<lparr>mSession := session\<rparr>) h)"
    using assms Some x by (intro set_app_done) (simp_all add: orderly_def)
  then show ?thesis
    using Some x amp_okD [OF assms(1)] by (simp add: applicationRequest_def)
qed

lemma registerService_ok:
  "amp_ok h \<Longrightarrow> map_of (mApps h) pid \<noteq> None \<Longrightarrow> \<exists>h'. registerService pid service h = Some h' \<and> amp_ok h'"
  by (auto simp: registerService_def amp_okD)

lemma waitingServiceReqeust_ok: "amp_ok h \<Longrightarrow> \<exists>h'. waitingServiceReqeust service h = Some h' \<and> amp_ok h'"
  by (cases "find_running service h") (auto simp: waitingServiceReqeust_def amp_okD)

lemma setSessionPid_ok:
  assumes "amp_ok h"
  shows "\<exists>h'. setSessionPid session pid h = Some h' \<and> amp_ok h'"
proof (cases "mSessions h session")
  case (Some app)
  have ok: "sessions_ok (needing h) (mSessions h) (mSessionServices h)"
    using assms by (simp add: amp_ok_def)
  then have app: "mSession app = session" "\<forall>x \<in> needing h. snd x \<noteq> session"
    using Some unfolding sessions_ok_def by auto
  obtain service where service: "mSessionServices h session = Some service"
    using ok Some unfolding sessions_ok_def by blast
  let ?h = "h\<lparr>mSessions := (mSessions h)(session := None)\<rparr>"
  show ?thesis
  proof (cases "pid = -1")
    case True
    have "sessions_ok (needing h) ((mSessions h)(session := None)) ((mSessionServices h)(session := None))"
      using ok app unfolding sessions_ok_def by auto
    then show ?thesis
      using True Some assms by (simp add: setSessionPid_def amp_ok_def)
  next
    case False
    let ?app = "(app_at pid ?h)\<lparr>mPid := pid, mAppId := mAppId app, mNeedsSessionRequest := mNeedsSessionRequest app, mSession := mSession app\<rparr>"
    have n: "needing (set_app pid ?app ?h) \<subseteq> insert (pid, session) {x \<in> needing h. fst x \<noteq> pid}"
      using needing_set_app [of ?h pid ?app] amp_okD(5) [OF assms] app(1) by auto
    have "sessions_ok (insert (pid, session) {x \<in> needing h. fst x \<noteq> pid}) ((mSessions h)(session := None)) (mSessionServices h)"
      using ok app service unfolding sessions_ok_def inj_on_def by auto
    from sessions_ok_fewer [OF this n] have "amp_ok (set_app pid ?app ?h)"
      using assms by (simp add: amp_ok_def set_app_def)
    then have h': "amp_ok (com (addSessionRequest pid session service) (set_app pid ?app ?h))"
      by simp
    have "setSessionPid session pid h = printState (com (addSessionRequest pid session service) (set_app pid ?app ?h))"
      using False Some service amp_okD [OF assms] by (simp add: setSessionPid_def Let_def set_app_def)
    then show ?thesis
      using h' by simp
  qed
qed (use assms in \<open>simp add: setSessionPid_def amp_okD\<close>)

lemma setProcAppLanchInfo_ok:
  assumes "amp_ok h"
  shows "\<exists>h'. setProcAppLanchInfo pr pid info h = Some h' \<and> amp_ok h'"
proof -
  let ?h = "if getId pr info (mpDatabase h) = -1 then h\<lparr>mpDatabase := snd (addApp pr info (mpDatabase h))\<rparr> else h"
  have h: "amp_ok ?h" "mApps ?h = mApps h"
    using assms by simp_all
  show ?thesis
  proof (cases "map_of (mApps h) pid")
    case (Some app)
    have "amp_ok (set_app pid (app\<lparr>mAppId := i\<rparr>) ?h)" for i
      using set_app_same [OF h(1), of "app\<lparr>mAppId := i\<rparr>" pid] Some h(2) by (simp add: app_at_def)
    then show ?thesis
      using Some h amp_okD [OF assms] amp_okD [OF h(1)] by (simp add: setProcAppLanchInfo_def Let_def)
  qed (use h amp_okD [OF assms] in \<open>simp add: setProcAppLanchInfo_def Let_def\<close>)
qed

lemma com_thread_ok: "amp_ok h \<Longrightarrow> \<exists>h'. com_handleRequest pr exe h = Some h' \<and> amp_ok h'"
proof -
  assume h: "amp_ok h"
  have "amp_ok (com_error h)"
    using h by (simp add: com_error_def Let_def split: list.split)
  then have "amp_ok (com_session (com_error h))"
    by (simp add: com_session_def Let_def split: list.split)
  then have "\<exists>h'. com_launch_info pr exe (com_session (com_error h)) = Some h' \<and> amp_ok h'"
    using setProcAppLanchInfo_ok by (simp add: com_launch_info_def Let_def split: list.split)
  then show ?thesis
    using h by (simp add: com_handleRequest_def amp_okD)
qed

lemma launch_thread_ok: "amp_ok h \<Longrightarrow> amp_ok (launch_handleRequest h)"
  by (auto simp: launch_handleRequest_def Let_def split: list.split)

lemma take_session_ok: "amp_ok h \<Longrightarrow> \<exists>h'. take_session info pid h = Some h' \<and> amp_ok h'"
  using setSessionPid_ok by (simp add: take_session_def split: option.split)

lemma onProfileManagerConnection_ok: "amp_ok h \<Longrightarrow> \<exists>h'. onProfileManagerConnection h = Some h' \<and> amp_ok h'"
  by (simp add: onProfileManagerConnection_def amp_okD)

lemma server_OnConnectionLost_ok: "amp_ok h \<Longrightarrow> \<exists>h'. server_OnConnectionLost d h = Some h' \<and> amp_ok h'"
proof (cases "find (\<lambda>(_, d'). d' = d) (mClients h)")
  case (Some x)
  assume "amp_ok h"
  then obtain h' where "app_lost (fst x) h = Some h'" "amp_ok h'"
    using app_lost_ok by blast
  then show ?thesis
    using Some by (simp add: server_OnConnectionLost_def case_prod_beta amp_ok_clients amp_okD)
qed (simp add: server_OnConnectionLost_def)

fun registers_known :: "app_call \<Rightarrow> CRequestHandler \<Rightarrow> bool" where
  "registers_known (RegisterService pid service) h \<longleftrightarrow> map_of (mApps h) (sint pid) \<noteq> None"
| "registers_known _ h \<longleftrightarrow> True"

lemma server_handle_ok:
  assumes "amp_ok h" and "registers_known c h"
  shows "\<exists>res h'. server_handle d c h = Some (res, h') \<and> amp_ok h'"
proof (cases c)
  case (InitApplication pid services)
  obtain res h' where "initApplication (sint pid) services (client_known (sint pid) d h) = Some (res, h')" "amp_ok h'"
    using initApplication_ok [of "client_known (sint pid) d h"] assms(1) by (metis client_known_ok)
  then show ?thesis
    using InitApplication by simp
next
  case (UseService pid service u)
  obtain h' where "useService (sint pid) service u (client_known (sint pid) d h) = Some h'" "amp_ok h'"
    using useService_ok [of "client_known (sint pid) d h"] assms(1) by (metis client_known_ok)
  then show ?thesis
    using UseService by simp
next
  case (RegisterService pid service)
  have "map_of (mApps (client_known (sint pid) d h)) (sint pid) \<noteq> None"
    using assms(2) RegisterService by (simp add: client_known_def)
  then obtain h' where "registerService (sint pid) service (client_known (sint pid) d h) = Some h'" "amp_ok h'"
    using registerService_ok [OF client_known_ok [OF assms(1)]] by blast
  then show ?thesis
    using RegisterService by simp
qed (use assms in simp)

section \<open>The process\<close>

inductive amp_step :: "processor \<Rightarrow> CRequestHandler \<Rightarrow> CRequestHandler \<Rightarrow> bool" for pr where
  p_call: "registers_known c h \<Longrightarrow> server_handle d c h = Some (res, h') \<Longrightarrow> amp_step pr h h'"
| p_lost: "server_OnConnectionLost d h = Some h' \<Longrightarrow> amp_step pr h h'"
| p_request: "orderly session service h \<Longrightarrow> applicationRequest session service h = Some h' \<Longrightarrow> amp_step pr h h'"
| p_waiting: "waitingServiceReqeust service h = Some h' \<Longrightarrow> amp_step pr h h'"
| p_connection: "onProfileManagerConnection h = Some h' \<Longrightarrow> amp_step pr h h'"
| p_launch: "amp_step pr h (launch_handleRequest h)"
| p_launched: "take_session info pid h = Some h' \<Longrightarrow> amp_step pr h h'"
| p_com: "com_handleRequest pr exe h = Some h' \<Longrightarrow> amp_step pr h h'"

inductive amp_reach :: "processor \<Rightarrow> CRequestHandler \<Rightarrow> bool" for pr where
  amp_start: "amp_reach pr (CController_init (CRequestHandler_new db))"
| amp_next: "amp_reach pr h \<Longrightarrow> amp_step pr h h' \<Longrightarrow> amp_reach pr h'"

inductive_cases amp_stepE: "amp_step pr h h'"

lemma amp_start_ok: "amp_ok (CController_init (CRequestHandler_new db))"
  by (simp add: amp_ok_def CController_init_def CRequestHandler_new_def needing_def sessions_ok_def)

lemma amp_step_ok: "amp_step pr h h' \<Longrightarrow> amp_ok h \<Longrightarrow> amp_ok h'"
proof (induction rule: amp_step.induct)
  case (p_call c h d res h')
  then show ?case
    using server_handle_ok [of h c d] by auto
next
  case (p_lost d h h')
  then show ?case
    using server_OnConnectionLost_ok [of h d] by auto
next
  case (p_request session service h h')
  then show ?case
    using applicationRequest_ok [of h session service] by auto
next
  case (p_waiting service h h')
  then show ?case
    using waitingServiceReqeust_ok [of h service] by auto
next
  case (p_connection h h')
  then show ?case
    using onProfileManagerConnection_ok [of h] by auto
next
  case (p_launch h)
  then show ?case
    by (rule launch_thread_ok)
next
  case (p_launched info pid h h')
  then show ?case
    using take_session_ok [of h info pid] by auto
next
  case (p_com exe h h')
  then show ?case
    using com_thread_ok [of h pr exe] by auto
qed

lemma amp_reach_ok: "amp_reach pr h \<Longrightarrow> amp_ok h"
  by (induction rule: amp_reach.induct) (simp_all add: amp_start_ok amp_step_ok)

end
