(* ===== verification/AmpLife.thy ===== *)
theory AmpLife
  imports AmpRequests PmpManager
begin

text \<open>
  Runs of the application manager: what it does for a service that the other device asks for, that it keeps answering as long as its callers
  respect what it relies on, and what happens when they do not.
\<close>

section \<open>It keeps answering\<close>


text \<open>
  Each of the conditions is needed. A service that no application supports: the first of no applications is taken.
\<close>

lemma unsupported_service_fails:
  "amp_ok h \<Longrightarrow> find_running service h = None \<Longrightarrow> getApps_ids service (mpDatabase h) = [] \<Longrightarrow> applicationRequest session service h = None"
  by (simp add: applicationRequest_def amp_okD Let_def)

text \<open>A process that registers a service before it is known: the mutex stays locked, and nothing works any more.\<close>

lemma unknown_process_blocks:
  assumes "amp_ok h" and "map_of (mApps h) pid = None"
  shows "\<exists>h'. registerService pid service h = Some h' \<and> initApplication pid' services h' = None \<and> useService pid' service' u h' = None
    \<and> applicationRequest session service'' h' = None \<and> registerService pid' service' h' = None"
  using assms by (simp add: registerService_def initApplication_def useService_def applicationRequest_def amp_okD)

section \<open>A service that the other device asks for\<close>

text \<open>Nothing is under way, the application is not running and not being launched.\<close>

definition amp_idle :: "CRequestHandler \<Rightarrow> bool" where
  "amp_idle h \<longleftrightarrow> mRequests (mpAppComThread h) = [] \<and> mSessionRequests (mpAppComThread h) = [] \<and> mAppLaunchRequests (mpAppComThread h) = []
     \<and> launch_requests (mpLaunchThread h) = []"

text \<open>
  The steps: the request, the launch, the report of the launcher; the thread that talks to applications may already try to reach the new
  process, in vain as it has not connected; the process connects and initialises itself; the thread reaches it.
\<close>

definition launch_run ::
  "processor \<Rightarrow> (int \<Rightarrow> string) \<Rightarrow> bool \<Rightarrow> Uid \<Rightarrow> Uid \<Rightarrow> u32 \<Rightarrow> nat \<Rightarrow> Uid list \<Rightarrow> CRequestHandler
     \<Rightarrow> (EInitResult option \<times> CRequestHandler) option" where
  "launch_run pr exe early session service pid dirId services h = do {
     h \<leftarrow> applicationRequest session service h;
     let info = appLaunchInfo (hd (getApps_ids service (mpDatabase h))) (mpDatabase h);
     h \<leftarrow> launchedApp info (sint pid) (launch_handleRequest h);
     h \<leftarrow> (if early then com_handleRequest pr exe h else Some h);
     (res, h) \<leftarrow> server_handle dirId (InitApplication pid services) h;
     h \<leftarrow> com_handleRequest pr exe h;
     Some (res, h) }"

lemma map_put_empty [simp]: "map_put k v [] = [(k, v)]"
  by (simp add: map_put_def map_erase_def)

text \<open>The request and the launch.\<close>

definition launch_app :: "Uid \<Rightarrow> int \<Rightarrow> CRunApp" where
  "launch_app session i = CRunApp_new\<lparr>mNeedsSessionRequest := True, mSession := session, mAppId := i\<rparr>"

lemma request_launches:
  assumes ok: "amp_ok h" and idle: "amp_idle h" and service: "find_running service h = None" "getApps_ids service (mpDatabase h) = i # ids"
    and session: "mSessions h session = None"
    and info: "appLaunchInfo i (mpDatabase h) = info" "info \<noteq> ''''"
  shows "\<exists>h1. applicationRequest session service h = Some h1 \<and> mpDatabase h1 = mpDatabase h
    \<and> launch_handleRequest h1 = h\<lparr>mSessions := (mSessions h)(session \<mapsto> launch_app session i),
         mSessionServices := (mSessionServices h)(session \<mapsto> service),
         mpLaunchThread := \<lparr>launch_requests = [], launch_sessions = (launch_sessions (mpLaunchThread h))(info \<mapsto> session)\<rparr>,
         amp_done := amp_done h @ [LaunchApplication info]\<rparr>"
  using assms amp_okD [OF ok]
  by (simp add: applicationRequest_def launchApp_def launch_handleRequest_def amp_emit_def amp_idle_def launch_app_def Let_def)

lemma launched_is_known:
  assumes ok: "amp_ok h" and idle: "amp_idle h" and info: "launch_sessions (mpLaunchThread h) info = Some session"
    and session: "mSessions h session = Some (launch_app session i)" "mSessionServices h session = Some service"
    and pid: "pid \<noteq> -1" "map_of (mApps h) pid = None"
  shows "launchedApp info pid h = Some (h\<lparr>mpLaunchThread := (mpLaunchThread h)\<lparr>launch_sessions := (launch_sessions (mpLaunchThread h))(info := None)\<rparr>,
      mSessions := (mSessions h)(session := None), mApps := map_put pid ((launch_app session i)\<lparr>mPid := pid\<rparr>) (mApps h),
      mpAppComThread := (mpAppComThread h)\<lparr>mSessionRequests := [(pid, session, service)]\<rparr>\<rparr>)"
  using assms amp_okD [OF ok]
  by (simp add: launchedApp_def take_session_def setSessionPid_def Let_def set_app_def com_def addSessionRequest_def amp_idle_def
      printState_def app_at_def launch_app_def CRunApp_new_def)

text \<open>The thread finds no connection, and later one.\<close>

lemma com_sends:
  assumes "handler_inited h" and "mpAppComThread h = \<lparr>mRequests = [], mSessionRequests = [(pid, session, service)], mAppLaunchRequests = []\<rparr>"
    and "session \<noteq> ''''"
  shows "com_handleRequest pr exe h = Some (h\<lparr>mpAppComThread := \<lparr>mRequests = [], mSessionRequests = [], mAppLaunchRequests = []\<rparr>,
    amp_done := amp_done h @ (if map_of (mClients h) pid = None then [] else [ToAppSession pid session service])\<rparr>)"
  using assms by (simp add: com_handleRequest_def com_error_def com_session_def com_launch_info_def com_def send_to_app_def amp_emit_def Let_def)

lemma init_gets_session:
  assumes ok: "amp_ok h" and app: "map_of (mApps h) p = Some app" "mNeedsSessionRequest app" "mAppId app \<noteq> -1"
    and service: "mSessionServices h (mSession app) = Some service"
    and requests: "mRequests (mpAppComThread h) = []" "mAppLaunchRequests (mpAppComThread h) = []"
      "mSessionRequests (mpAppComThread h) \<in> {[], [(p, mSession app, service)]}"
    and pid: "sint pid = p"
  shows "\<exists>h'. server_handle dirId (InitApplication pid services) h = Some (Some STARTED_BY_APPMAN, h')
    \<and> amp_done h' = amp_done h \<and> map_of (mClients h') p \<noteq> None \<and> handler_inited h' \<and> mpLaunchThread h' = mpLaunchThread h
    \<and> mpAppComThread h' = \<lparr>mRequests = [], mSessionRequests = [(p, mSession app, service)], mAppLaunchRequests = []\<rparr>"
proof -
  obtain r where t: "mpAppComThread h = \<lparr>mRequests = [], mSessionRequests = r, mAppLaunchRequests = []\<rparr>"
    and r: "r \<in> {[], [(p, mSession app, service)]}"
    using requests by (cases "mpAppComThread h") auto
  have put: "map_put p v r = [(p, v)]" for v
    using r by (auto simp: map_put_def map_erase_def)
  show ?thesis
    using app service amp_okD [OF ok] put t
    by (simp add: pid initApplication_def client_known_def first_session_def app_at_def Let_def com_def addSessionRequest_def set_app_def
        store_services_def printState_def)
qed


section \<open>Two sessions for one application\<close>

text \<open>
  C31: an application that still has the session to come that it was launched for, but offers a service already, is given
  the session of a second request instead; when it initialises itself again, the application manager erases beyond the end of its map.
\<close>

theorem second_session_crashes:
  assumes "amp_reach pr h" and "find_running service h = Some (pid, app)" and "mNeedsSessionRequest app" and "mSessionServices h session = None"
  shows "\<exists>h'. applicationRequest session service h = Some h' \<and> initApplication pid services h' = None"
  using assms(2-4) amp_okD [OF amp_reach_ok [OF assms(1)]]
  by (simp add: applicationRequest_def initApplication_def first_session_def app_at_def set_app_def com_def Let_def)

text \<open>Two requests for one process, before the thread has sent the first: the first is forgotten, without an error to anybody.\<close>

lemma map_put_twice: "map_put k v (map_put k w m) = map_put k v m"
proof -
  have "map_erase k (map_insert k w m) = map_erase k m" for m
    by (induction k w m rule: map_insert.induct) (auto simp: map_erase_def)
  moreover have "map_erase k (map_erase k m) = map_erase k m"
    by (simp add: map_erase_def)
  ultimately show ?thesis
    by (simp add: map_put_def)
qed

lemma first_session_forgotten:
  "addSessionRequest pid session2 service2 (addSessionRequest pid session1 service1 t) = addSessionRequest pid session2 service2 t"
  "addWaitingServiceRequest pid service2 (addSessionRequest pid session1 service1 t) = addWaitingServiceRequest pid service2 t"
  by (simp_all add: addSessionRequest_def addWaitingServiceRequest_def map_put_twice)

section \<open>A small application manager\<close>

definition demo_amp_database :: CDatabase where
  "demo_amp_database = \<lparr>mApplications = [(1, \<lparr>mLaunchInfo = ''/bin/app'', mServices = [''nav'']\<rparr>)], mIdCounter = 1, db_file = None, disk_takes = True\<rparr>"

definition demo_amp :: CRequestHandler where
  "demo_amp = CController_init (CRequestHandler_new demo_amp_database)"

lemmas amp_eval = demo_amp_def CController_init_def CRequestHandler_new_def demo_amp_database_def

lemma demo_amp_reach: "amp_reach pr demo_amp"
  unfolding demo_amp_def by (rule amp_start)

lemma demo_amp_apps: "getApps_ids ''nav'' (mpDatabase demo_amp) = [1]" "appLaunchInfo 1 (mpDatabase demo_amp) = ''/bin/app''"
  "find_running ''nav'' demo_amp = None" "needing demo_amp = {}" "amp_idle demo_amp"
  by (simp_all add: amp_eval getApps_ids_def app_hasService_def appLaunchInfo_def find_running_def needing_def amp_idle_def)



text \<open>The process initialises itself before its launcher reports it.\<close>

definition demo_early :: "CRequestHandler" where
  "demo_early = demo_amp\<lparr>
     mApps := [(7, \<lparr>mAppId = 1, mPid = 7, run_services = {''nav''}, mSession = ''s1'', mRegistred = True, mNeedsSessionRequest = True\<rparr>)],
     mSessionServices := [''s1'' \<mapsto> ''nav''],
     mpAppComThread := \<lparr>mRequests = [], mSessionRequests = [(7, ''s1'', ''nav'')], mAppLaunchRequests = [7]\<rparr>,
     mClients := [(7, 1)], amp_done := [LaunchApplication ''/bin/app'']\<rparr>"

lemma demo_early_reach: "amp_reach pr demo_early"
proof -
  obtain h1 where h1: "applicationRequest ''s1'' ''nav'' demo_amp = Some h1"
    and h2: "launch_handleRequest h1 = demo_amp\<lparr>mSessions := [''s1'' \<mapsto> launch_app ''s1'' 1], mSessionServices := [''s1'' \<mapsto> ''nav''],
       mpLaunchThread := \<lparr>launch_requests = [], launch_sessions = [''/bin/app'' \<mapsto> ''s1'']\<rparr>, amp_done := [LaunchApplication ''/bin/app'']\<rparr>"
    (is "_ = ?h2")
    using request_launches [OF amp_reach_ok [OF demo_amp_reach] demo_amp_apps(5,3,1) _ demo_amp_apps(2), of "''s1''"] by (auto simp: amp_eval)
  have "orderly ''s1'' ''nav'' demo_amp"
    by (simp add: orderly_def demo_amp_apps)
  then have r2: "amp_reach pr ?h2"
    using amp_next [OF amp_next [OF demo_amp_reach p_request [OF _ h1]] p_launch] h2 by metis
  let ?h3 = "?h2\<lparr>mClients := [(7, 1)], mApps := [(7, \<lparr>mAppId = -1, mPid = 7, run_services = {''nav''}, mSession = '''', mRegistred = True,
    mNeedsSessionRequest = False\<rparr>)], mpAppComThread := \<lparr>mRequests = [], mSessionRequests = [], mAppLaunchRequests = [7]\<rparr>\<rparr>"
  have "server_handle 1 (InitApplication 7 [''nav'']) ?h2 = Some (Some STARTED_BY_USER, ?h3)"
    by (simp add: initApplication_def client_known_def app_at_def Let_def com_def addAppLaunchInfoRequest_def set_app_def printState_def amp_eval
        CRunApp_new_def run_useService_def)
  then have r3: "amp_reach pr ?h3"
    using amp_next [OF r2 p_call [where c = "InitApplication 7 [''nav'']"]] by simp
  have "take_session ''/bin/app'' 7 ?h3 = Some demo_early"
    by (simp add: take_session_def setSessionPid_def Let_def com_def addSessionRequest_def set_app_def printState_def amp_eval demo_early_def
        app_at_def launch_app_def CRunApp_new_def map_put_def map_erase_def)
  then show ?thesis
    by (rule amp_next [OF r3 p_launched])
qed

theorem second_session_crashes_witness:
  "\<exists>h'. applicationRequest ''s2'' ''nav'' demo_early = Some h' \<and> initApplication 7 [''nav''] h' = None"
  by (rule second_session_crashes [OF demo_early_reach [of UbuntuLaunchInfoProcessor],
        where app = "\<lparr>mAppId = 1, mPid = 7, run_services = {''nav''}, mSession = ''s1'', mRegistred = True, mNeedsSessionRequest = True\<rparr>"])
    (simp_all add: demo_early_def find_running_def)

end
