(* ===== verification/AppStart.thy ===== *)
theory AppStart
  imports AmpLife "HOL-Library.Multiset"
begin

text \<open>
  The start of an application: \<^verbatim>\<open>CAppManProxy\<close> (\<^verbatim>\<open>libraries/ApplicationLibrary/private\<close>), whose thread initialises the application at the
  application manager and switches services, and \<^verbatim>\<open>CAppManProtoClient\<close>, which keeps the sessions that come before. The thread, the
  application and the thread that receives from the application manager take turns at the accesses to what they share.
\<close>

section \<open>The state\<close>

datatype EInitStatus = NOT_INITED | INITED | HAS_INIT_REQUEST

datatype ELaunchInfo = LAUNCHED_BY_IVILINK | LAUNCHED_BY_USER | ERROR_APP_NOT_INITED_IN_IVILINK

text \<open>Calls to the application manager, and to the application.\<close>

datatype proxy_call = InitCall "Uid list" | UseCall Uid bool | OnInitDone ELaunchInfo | OnSessionRequest Uid Uid

text \<open>Where the thread is: it waits, before \<^verbatim>\<open>handleInit\<close>, before \<^verbatim>\<open>checkSessionRequest\<close>, before \<^verbatim>\<open>handleUseService\<close>, at the end of the loop.\<close>

datatype proxy_pc = P_Wait | P_Init | P_Check | P_Use | P_Loop | P_End

record CAppManProxy =
  mInitStatus :: EInitStatus
  mInitedServices :: "Uid list"
  mUseList :: "(Uid \<times> bool) list"
  mLauncher :: ELaunchInfo
  mBe :: bool
  mpRequestSemaphore :: nat
  proxy_pc :: proxy_pc
  mAppInited :: bool
  mSessionReqsList :: "(Uid \<times> Uid) list"
  receiving :: "(Uid \<times> Uid) option"
  received :: "(Uid \<times> Uid) list"
  proxy_calls :: "proxy_call list"

definition CAppManProxy_new :: CAppManProxy where
  "CAppManProxy_new = \<lparr>mInitStatus = NOT_INITED, mInitedServices = [], mUseList = [], mLauncher = ERROR_APP_NOT_INITED_IN_IVILINK, mBe = True,
     mpRequestSemaphore = 0, proxy_pc = P_Wait, mAppInited = False, mSessionReqsList = [], receiving = None, received = [], proxy_calls = []\<rparr>"

definition proxy_emit :: "proxy_call list \<Rightarrow> CAppManProxy \<Rightarrow> CAppManProxy" where
  "proxy_emit cs p = p\<lparr>proxy_calls := proxy_calls p @ cs\<rparr>"

section \<open>The application\<close>

definition start_init :: "Uid list \<Rightarrow> CAppManProxy \<Rightarrow> CAppManProxy" where
  "start_init services p =
     (let p = (if mInitStatus p = NOT_INITED then p\<lparr>mInitStatus := HAS_INIT_REQUEST, mInitedServices := services\<rparr> else p)
      in p\<lparr>mpRequestSemaphore := mpRequestSemaphore p + 1\<rparr>)"

definition proxy_useService :: "Uid \<Rightarrow> bool \<Rightarrow> CAppManProxy \<Rightarrow> CAppManProxy" where
  "proxy_useService service use p = p\<lparr>mUseList := mUseList p @ [(service, use)], mpRequestSemaphore := mpRequestSemaphore p + 1\<rparr>"

definition finish :: "CAppManProxy \<Rightarrow> CAppManProxy" where
  "finish p = p\<lparr>mBe := False, mpRequestSemaphore := mpRequestSemaphore p + 1\<rparr>"

definition hasRequests :: "CAppManProxy \<Rightarrow> bool" where
  "hasRequests p \<longleftrightarrow> mUseList p \<noteq> []"

section \<open>The thread\<close>

definition thread_wait :: "CAppManProxy \<Rightarrow> CAppManProxy" where
  "thread_wait p = p\<lparr>mpRequestSemaphore := mpRequestSemaphore p - 1, proxy_pc := if mBe p then P_Init else P_End\<rparr>"

text \<open>
  One round of the loop of \<^verbatim>\<open>handleInit\<close>, given the answer of the application manager. The client counts as initialised whatever the
  answer is, and the request to initialise stays.
\<close>

definition handleInit :: "EInitResult \<Rightarrow> CAppManProxy \<Rightarrow> CAppManProxy" where
  "handleInit res p =
     (if mInitStatus p \<noteq> HAS_INIT_REQUEST then p\<lparr>proxy_pc := P_Use\<rparr>
      else (let p = (proxy_emit [InitCall (mInitedServices p)] p)\<lparr>mAppInited := True\<rparr>
            in case res of
                 STARTED_BY_APPMAN \<Rightarrow> proxy_emit [OnInitDone LAUNCHED_BY_IVILINK] (p\<lparr>mLauncher := LAUNCHED_BY_IVILINK, proxy_pc := P_Check\<rparr>)
               | STARTED_BY_USER \<Rightarrow> proxy_emit [OnInitDone LAUNCHED_BY_USER] (p\<lparr>mLauncher := LAUNCHED_BY_USER, proxy_pc := P_Check\<rparr>)
               | _ \<Rightarrow> p\<lparr>proxy_pc := if mBe p then P_Init else P_Use\<rparr>))"

definition checkSessionRequest :: "CAppManProxy \<Rightarrow> CAppManProxy" where
  "checkSessionRequest p =
     (proxy_emit (map (\<lambda>(session, service). OnSessionRequest session service) (mSessionReqsList p)) p)\<lparr>mSessionReqsList := [], proxy_pc := P_Use\<rparr>"

definition handleUseService :: "ErrorCode \<Rightarrow> CAppManProxy \<Rightarrow> CAppManProxy" where
  "handleUseService err p =
     (case mUseList p of
        [] \<Rightarrow> p\<lparr>proxy_pc := P_Loop\<rparr>
      | (service, use) # rest \<Rightarrow>
          (proxy_emit [UseCall service use] p)\<lparr>mUseList := if isNoError err then rest else mUseList p, proxy_pc := P_Loop\<rparr>)"

definition thread_loop :: "CAppManProxy \<Rightarrow> CAppManProxy" where
  "thread_loop p = p\<lparr>proxy_pc := if \<not> mBe p then P_End else if hasRequests p then P_Init else P_Wait\<rparr>"

section \<open>The receiving thread\<close>

text \<open>It looks at the flag, and then delivers the session or enters it into the list.\<close>

definition receive_session :: "Uid \<Rightarrow> Uid \<Rightarrow> CAppManProxy \<Rightarrow> CAppManProxy" where
  "receive_session session service p =
     (let p = p\<lparr>received := received p @ [(session, service)]\<rparr>
      in if mAppInited p then proxy_emit [OnSessionRequest session service] p else p\<lparr>receiving := Some (session, service)\<rparr>)"

definition enter_session :: "Uid \<times> Uid \<Rightarrow> CAppManProxy \<Rightarrow> CAppManProxy" where
  "enter_session r p = p\<lparr>mSessionReqsList := mSessionReqsList p @ [r], receiving := None\<rparr>"

inductive proxy_step :: "CAppManProxy \<Rightarrow> CAppManProxy \<Rightarrow> bool" where
  x_init: "proxy_step p (start_init services p)"
| x_use: "proxy_step p (proxy_useService service u p)"
| x_finish: "proxy_step p (finish p)"
| x_wait: "proxy_pc p = P_Wait \<Longrightarrow> mpRequestSemaphore p \<noteq> 0 \<Longrightarrow> proxy_step p (thread_wait p)"
| x_handleInit: "proxy_pc p = P_Init \<Longrightarrow> proxy_step p (handleInit res p)"
| x_check: "proxy_pc p = P_Check \<Longrightarrow> proxy_step p (checkSessionRequest p)"
| x_handleUse: "proxy_pc p = P_Use \<Longrightarrow> proxy_step p (handleUseService err p)"
| x_loop: "proxy_pc p = P_Loop \<Longrightarrow> proxy_step p (thread_loop p)"
| x_receive: "receiving p = None \<Longrightarrow> proxy_step p (receive_session session service p)"
| x_enter: "receiving p = Some r \<Longrightarrow> proxy_step p (enter_session r p)"

inductive proxy_reach :: "CAppManProxy \<Rightarrow> bool" where
  proxy_start: "proxy_reach CAppManProxy_new"
| proxy_next: "proxy_reach p \<Longrightarrow> proxy_step p p' \<Longrightarrow> proxy_reach p'"

lemmas proxy_defs = start_init_def proxy_useService_def finish_def thread_wait_def handleInit_def checkSessionRequest_def
  handleUseService_def thread_loop_def receive_session_def enter_session_def proxy_emit_def Let_def

section \<open>No session gets lost\<close>

definition sessions_of :: "proxy_call list \<Rightarrow> (Uid \<times> Uid) list" where
  "sessions_of cs = List.map_filter (\<lambda>c. case c of OnSessionRequest session service \<Rightarrow> Some (session, service) | _ \<Rightarrow> None) cs"

lemma sessions_of_simps [simp]:
  "sessions_of [] = []" "sessions_of (cs @ ds) = sessions_of cs @ sessions_of ds"
  "sessions_of (OnSessionRequest session service # cs) = (session, service) # sessions_of cs"
  "sessions_of (InitCall ss # cs) = sessions_of cs" "sessions_of (UseCall s u # cs) = sessions_of cs" "sessions_of (OnInitDone l # cs) = sessions_of cs"
  by (simp_all add: sessions_of_def map_filter_def)

lemma sessions_of_list [simp]: "sessions_of (map (\<lambda>(session, service). OnSessionRequest session service) rs) = rs"
  by (induction rs) auto

definition delivered :: "CAppManProxy \<Rightarrow> (Uid \<times> Uid) multiset" where
  "delivered p = mset (sessions_of (proxy_calls p))"

definition all_there :: "CAppManProxy \<Rightarrow> bool" where
  "all_there p \<longleftrightarrow> mset (received p) = delivered p + mset (mSessionReqsList p) + (case receiving p of None \<Rightarrow> {#} | Some r \<Rightarrow> {#r#})"

lemma proxy_step_all_there: "proxy_step p p' \<Longrightarrow> all_there p \<Longrightarrow> all_there p'"
proof (induction rule: proxy_step.induct)
  case (x_handleInit p res)
  then show ?case
    by (cases res) (simp_all add: all_there_def delivered_def proxy_defs)
next
  case (x_handleUse p err)
  then show ?case
    by (cases "mUseList p") (auto simp: all_there_def delivered_def proxy_defs)
qed (auto simp: all_there_def delivered_def proxy_defs)

lemma proxy_reach_all_there: "proxy_reach p \<Longrightarrow> all_there p"
proof (induction rule: proxy_reach.induct)
  case (proxy_next p p')
  then show ?case
    using proxy_step_all_there by blast
qed (simp add: all_there_def delivered_def CAppManProxy_new_def)

text \<open>When the list is checked while the receiving thread is idle, sessions are delivered from then on.\<close>

definition direct :: "CAppManProxy \<Rightarrow> bool" where
  "direct p \<longleftrightarrow> mAppInited p \<and> mSessionReqsList p = [] \<and> receiving p = None"

lemma proxy_step_direct: "proxy_step p p' \<Longrightarrow> direct p \<Longrightarrow> direct p'"
proof (induction rule: proxy_step.induct)
  case (x_handleInit p res)
  then show ?case
    by (cases res) (simp_all add: direct_def proxy_defs)
next
  case (x_handleUse p err)
  then show ?case
    by (cases "mUseList p") (auto simp: direct_def proxy_defs)
qed (auto simp: direct_def proxy_defs)

lemma check_after_init: "proxy_reach p \<Longrightarrow> proxy_pc p = P_Check \<Longrightarrow> mAppInited p"
proof (induction rule: proxy_reach.induct)
  case (proxy_next p p')
  from proxy_next(2,1,3,4) show ?case
  proof (induction rule: proxy_step.induct)
    case (x_handleInit p res)
    then show ?case
      by (cases res) (auto simp: proxy_defs split: if_splits)
  next
    case (x_handleUse p err)
    then show ?case
      by (cases "mUseList p") (auto simp: proxy_defs)
  qed (auto simp: proxy_defs split: if_splits)
qed (simp add: CAppManProxy_new_def)


text \<open>Entered too late, a session stays in the list while everything is quiet.\<close>

lemma session_left_behind:
  "\<exists>p. proxy_reach p \<and> proxy_pc p = P_Wait \<and> mpRequestSemaphore p = 0 \<and> mAppInited p \<and> receiving p = None
     \<and> mSessionReqsList p = [(''s'', ''nav'')] \<and> delivered p = {#}"
proof -
  let ?p1 = "thread_wait (start_init [''nav''] CAppManProxy_new)"
  let ?p2 = "receive_session ''s'' ''nav'' ?p1"
  let ?p3 = "checkSessionRequest (handleInit STARTED_BY_APPMAN ?p2)"
  let ?p4 = "thread_loop (handleUseService 0 ?p3)"
  have "proxy_reach (start_init [''nav''] CAppManProxy_new)"
    by (rule proxy_next [OF proxy_start x_init])
  then have "proxy_reach ?p1"
    by (rule proxy_next) (rule x_wait, simp_all add: CAppManProxy_new_def proxy_defs)
  then have "proxy_reach ?p2"
    by (rule proxy_next) (rule x_receive, simp add: CAppManProxy_new_def proxy_defs)
  then have "proxy_reach (handleInit STARTED_BY_APPMAN ?p2)"
    by (rule proxy_next) (rule x_handleInit, simp add: CAppManProxy_new_def proxy_defs)
  then have "proxy_reach ?p3"
    by (rule proxy_next) (rule x_check, simp add: CAppManProxy_new_def proxy_defs)
  then have "proxy_reach (handleUseService 0 ?p3)"
    by (rule proxy_next) (rule x_handleUse, simp add: CAppManProxy_new_def proxy_defs)
  then have "proxy_reach ?p4"
    by (rule proxy_next) (rule x_loop, simp add: CAppManProxy_new_def proxy_defs)
  then have "proxy_reach (enter_session (''s'', ''nav'') ?p4)"
    by (rule proxy_next) (rule x_enter, simp add: CAppManProxy_new_def proxy_defs hasRequests_def)
  then show ?thesis
    by (intro exI conjI) (assumption, simp_all add: CAppManProxy_new_def proxy_defs hasRequests_def delivered_def)
qed

section \<open>Every switch initialises again\<close>

lemma never_inited: "proxy_reach p \<Longrightarrow> mInitStatus p \<noteq> INITED"
proof (induction rule: proxy_reach.induct)
  case (proxy_next p p')
  from proxy_next(2,3) show ?case
  proof (induction rule: proxy_step.induct)
    case (x_handleInit p res)
    then show ?case
      by (cases res) (auto simp: proxy_defs)
  next
    case (x_handleUse p err)
    then show ?case
      by (cases "mUseList p") (auto simp: proxy_defs)
  qed (auto simp: proxy_defs)
qed (simp add: CAppManProxy_new_def)

definition switch_run :: "Uid \<Rightarrow> bool \<Rightarrow> CAppManProxy \<Rightarrow> CAppManProxy" where
  "switch_run service use p = handleUseService 0 (checkSessionRequest (handleInit STARTED_BY_USER (thread_wait (proxy_useService service use p))))"

text \<open>
  C32: nothing ever marks the application as initialised. When it switches a service, its thread initialises it at the
  application manager once more, and the application is told once more that its initialisation is done.
\<close>

theorem switch_initialises_again:
  assumes "proxy_reach p" and "mInitStatus p \<noteq> NOT_INITED" and "proxy_pc p = P_Wait" and "mBe p" and "mUseList p = []"
  shows "proxy_reach (switch_run service use p)
    \<and> proxy_calls (switch_run service use p) = proxy_calls p @ [InitCall (mInitedServices p), OnInitDone LAUNCHED_BY_USER]
        @ map (\<lambda>(session, service). OnSessionRequest session service) (mSessionReqsList p) @ [UseCall service use]"
proof -
  have status: "mInitStatus p = HAS_INIT_REQUEST"
    using never_inited [OF assms(1)] assms(2) by (cases "mInitStatus p") auto
  let ?p1 = "proxy_useService service use p"
  have "proxy_reach ?p1"
    by (rule proxy_next [OF assms(1) x_use])
  then have "proxy_reach (thread_wait ?p1)"
    by (rule proxy_next) (rule x_wait, use assms(3) in \<open>simp_all add: proxy_defs\<close>)
  then have "proxy_reach (handleInit STARTED_BY_USER (thread_wait ?p1))"
    by (rule proxy_next) (rule x_handleInit, use assms(4) in \<open>simp add: proxy_defs\<close>)
  then have "proxy_reach (checkSessionRequest (handleInit STARTED_BY_USER (thread_wait ?p1)))"
    by (rule proxy_next) (rule x_check, use status in \<open>simp add: proxy_defs\<close>)
  then have "proxy_reach (switch_run service use p)"
    unfolding switch_run_def by (rule proxy_next) (rule x_handleUse, simp add: proxy_defs)
  then show ?thesis
    using status assms(5) by (simp add: switch_run_def proxy_defs)
qed

text \<open>An application that has been initialised and waits.\<close>

definition demo_proxy :: CAppManProxy where
  "demo_proxy = thread_loop (handleUseService 0 (checkSessionRequest (handleInit STARTED_BY_USER (thread_wait (start_init [''nav''] CAppManProxy_new)))))"

lemma demo_checking:
  "proxy_reach (handleInit STARTED_BY_USER (thread_wait (start_init [''nav''] CAppManProxy_new)))"
proof -
  have "proxy_reach (start_init [''nav''] CAppManProxy_new)"
    by (rule proxy_next [OF proxy_start x_init])
  then have "proxy_reach (thread_wait (start_init [''nav''] CAppManProxy_new))"
    by (rule proxy_next) (rule x_wait, simp_all add: CAppManProxy_new_def proxy_defs)
  then show ?thesis
    by (rule proxy_next) (rule x_handleInit, simp add: CAppManProxy_new_def proxy_defs)
qed

lemma demo_proxy_reach: "proxy_reach demo_proxy"
proof -
  have "proxy_reach (checkSessionRequest (handleInit STARTED_BY_USER (thread_wait (start_init [''nav''] CAppManProxy_new))))"
    using demo_checking by (rule proxy_next) (rule x_check, simp add: CAppManProxy_new_def proxy_defs)
  then have "proxy_reach (handleUseService 0 (checkSessionRequest (handleInit STARTED_BY_USER (thread_wait (start_init [''nav''] CAppManProxy_new)))))"
    by (rule proxy_next) (rule x_handleUse, simp add: CAppManProxy_new_def proxy_defs)
  then show ?thesis
    unfolding demo_proxy_def by (rule proxy_next) (rule x_loop, simp add: CAppManProxy_new_def proxy_defs)
qed

theorem switch_initialises_again_witness:
  "proxy_calls (switch_run ''nav'' True demo_proxy) = [InitCall [''nav''], OnInitDone LAUNCHED_BY_USER, InitCall [''nav''], OnInitDone LAUNCHED_BY_USER, UseCall ''nav'' True]"
proof -
  have "mInitStatus demo_proxy \<noteq> NOT_INITED" "proxy_pc demo_proxy = P_Wait" "mBe demo_proxy" "mUseList demo_proxy = []"
    by (simp_all add: demo_proxy_def CAppManProxy_new_def proxy_defs hasRequests_def)
  from switch_initialises_again [OF demo_proxy_reach this, of "''nav''" True] show ?thesis
    by (simp add: demo_proxy_def CAppManProxy_new_def proxy_defs)
qed


end
