(* ===== verification/TrustList.thy ===== *)
theory TrustList
  imports Prelude PmpFrames StdMap "HOL-Library.Product_Lexorder"
begin

text \<open>
  The devices a device trusts (\<^verbatim>\<open>libraries/trust_list\<close>): \<^verbatim>\<open>CTrustList\<close> over \<^verbatim>\<open>CFileStorage\<close>, which reads the whole file for every
  call, changes the document and writes it again. The JSON library presents the document as the record \<^verbatim>\<open>json_root\<close>; an element that is
  missing is \<^const>\<open>None\<close>. An operation that uses an iterator after it has been erased does not return.
\<close>

section \<open>The file\<close>

record json_root =
  trusted :: "(Uid \<times> string) list option"
  our_uid :: "string option"
  our_name :: "string option"
  last_time :: "u32 option"
  last_uid :: "string option"

definition null_root :: json_root where
  "null_root = \<lparr>trusted = None, our_uid = None, our_name = None, last_time = None, last_uid = None\<rparr>"

text \<open>A file that cannot be parsed leaves behind what the parser found before the error, the null value when there is no file.\<close>

datatype trust_file = Parsed json_root | Broken json_root

text \<open>What the file system does during one call: the opening for reading, for writing, and the writing, which may leave a broken file.\<close>

record file_io =
  io_in :: bool
  io_trunc :: bool
  io_write :: bool
  io_left :: json_root

definition io_fine :: "file_io \<Rightarrow> bool" where
  "io_fine io \<longleftrightarrow> io_in io \<and> io_trunc io \<and> io_write io"

abbreviation (input) ERROR_UNKNOWN_UID :: ErrorCode where "ERROR_UNKNOWN_UID \<equiv> 2"
abbreviation (input) ERROR_STORAGE :: ErrorCode where "ERROR_STORAGE \<equiv> 3"

definition storage_read :: "file_io \<Rightarrow> trust_file \<Rightarrow> bool \<times> json_root" where
  "storage_read io f = (if \<not> io_in io then (False, null_root) else case f of Parsed root \<Rightarrow> (True, root) | Broken root \<Rightarrow> (False, root))"

definition storage_write :: "file_io \<Rightarrow> json_root \<Rightarrow> trust_file \<Rightarrow> ErrorCode \<times> trust_file" where
  "storage_write io root f =
     (if \<not> io_trunc io then (ERROR_STORAGE, f) else if io_write io then (NO_ERROR, Parsed root) else (ERROR_STORAGE, Broken (io_left io)))"

section \<open>The storage\<close>

definition readAll :: "file_io \<Rightarrow> trust_file \<Rightarrow> ErrorCode \<times> (Uid \<times> string) list" where
  "readAll io f =
     (case storage_read io f of
        (False, _) \<Rightarrow> (ERROR_STORAGE, [])
      | (True, root) \<Rightarrow> (NO_ERROR, case trusted root of None \<Rightarrow> [] | Some l \<Rightarrow> l))"

text \<open>The set of pairs of the document, and a document with a set of pairs in its order. That reading failed is not looked at.\<close>

definition trusted_set :: "json_root \<Rightarrow> (Uid \<times> string) set" where
  "trusted_set root = (case trusted root of None \<Rightarrow> {} | Some l \<Rightarrow> set l)"

definition with_trusted :: "(Uid \<times> string) set \<Rightarrow> json_root \<Rightarrow> json_root" where
  "with_trusted uids root = root\<lparr>trusted := if uids = {} then None else Some (sorted_list_of_set uids)\<rparr>"

definition storage_insert :: "file_io \<Rightarrow> Uid \<Rightarrow> trust_file \<Rightarrow> ErrorCode \<times> trust_file" where
  "storage_insert io uid f =
     (let root = snd (storage_read io f) in storage_write io (with_trusted (insert (uid, '''') (trusted_set root)) root) f)"

text \<open>The loop erases the element its iterator points to, and then advances the iterator.\<close>

definition storage_remove :: "file_io \<Rightarrow> Uid \<Rightarrow> trust_file \<Rightarrow> (ErrorCode \<times> trust_file) option" where
  "storage_remove io uid f =
     (let root = snd (storage_read io f) in if uid \<in> fst ` trusted_set root then None else Some (ERROR_UNKNOWN_UID, f))"

definition storage_clear :: "file_io \<Rightarrow> trust_file \<Rightarrow> ErrorCode \<times> trust_file" where
  "storage_clear io f = storage_write io ((snd (storage_read io f))\<lparr>trusted := None\<rparr>) f"

definition storage_getOurUid :: "file_io \<Rightarrow> trust_file \<Rightarrow> ErrorCode \<times> string" where
  "storage_getOurUid io f =
     (case storage_read io f of
        (False, _) \<Rightarrow> (ERROR_STORAGE, '''')
      | (True, root) \<Rightarrow> (case our_uid root of None \<Rightarrow> (ERROR_UNKNOWN_UID, '''') | Some uid \<Rightarrow> (NO_ERROR, uid)))"

definition storage_setOurUid :: "file_io \<Rightarrow> string \<Rightarrow> trust_file \<Rightarrow> ErrorCode \<times> trust_file" where
  "storage_setOurUid io uid f = storage_write io ((snd (storage_read io f))\<lparr>our_uid := Some uid\<rparr>) f"

definition storage_getOurName :: "file_io \<Rightarrow> trust_file \<Rightarrow> ErrorCode \<times> string" where
  "storage_getOurName io f =
     (case storage_read io f of
        (False, _) \<Rightarrow> (ERROR_STORAGE, '''')
      | (True, root) \<Rightarrow> (case our_name root of None \<Rightarrow> (ERROR_UNKNOWN_UID, '''') | Some name \<Rightarrow> (NO_ERROR, name)))"

definition storage_setOurName :: "file_io \<Rightarrow> string \<Rightarrow> trust_file \<Rightarrow> ErrorCode \<times> trust_file" where
  "storage_setOurName io name f = storage_write io ((snd (storage_read io f))\<lparr>our_name := Some name\<rparr>) f"

text \<open>The time is cut to an \<^verbatim>\<open>int\<close>; a value that is missing reads as 0 and as the empty text.\<close>

definition storage_setLastConnection :: "file_io \<Rightarrow> Uid \<Rightarrow> u64 \<Rightarrow> trust_file \<Rightarrow> ErrorCode \<times> trust_file" where
  "storage_setLastConnection io uid timestamp f =
     storage_write io ((snd (storage_read io f))\<lparr>last_time := Some (ucast timestamp), last_uid := Some uid\<rparr>) f"

definition storage_getLastConnection :: "file_io \<Rightarrow> trust_file \<Rightarrow> ErrorCode \<times> (Uid \<times> u64) option" where
  "storage_getLastConnection io f =
     (case storage_read io f of
        (False, _) \<Rightarrow> (ERROR_STORAGE, None)
      | (True, root) \<Rightarrow> (NO_ERROR, Some (case last_uid root of None \<Rightarrow> '''' | Some uid \<Rightarrow> uid, case last_time root of None \<Rightarrow> 0 | Some t \<Rightarrow> scast t)))"

definition updateName :: "file_io \<Rightarrow> Uid \<Rightarrow> string \<Rightarrow> trust_file \<Rightarrow> ErrorCode \<times> trust_file" where
  "updateName io uid name f =
     (let root = snd (storage_read io f)
      in storage_write io (with_trusted ((\<lambda>(u, n). (u, if u = uid then name else n)) ` trusted_set root) root) f)"

section \<open>The list\<close>

text \<open>The identifier of the device is made of its host identifier and its hardware address (\<^verbatim>\<open>generateNewUid\<close>): an argument.\<close>

definition getOurUid :: "file_io \<Rightarrow> string \<Rightarrow> trust_file \<Rightarrow> string \<times> trust_file" where
  "getOurUid io new f =
     (let (err, uid) = storage_getOurUid io f in if isNoError err then (uid, f) else (new, snd (storage_setOurUid io new f)))"

definition getOurName :: "file_io \<Rightarrow> string \<Rightarrow> trust_file \<Rightarrow> string \<times> trust_file" where
  "getOurName io new f =
     (let (err, name) = storage_getOurName io f
      in if isNoError err then (name, f)
         else (let (uid, f) = getOurUid io new f; name = ''Generated name'' @ uid in (name, snd (storage_setOurName io name f))))"

definition isKnownUid :: "file_io \<Rightarrow> Uid \<Rightarrow> trust_file \<Rightarrow> bool" where
  "isKnownUid io uid f = (let (err, l) = readAll io f in isNoError err \<and> uid \<in> fst ` set l)"

definition addUid :: "file_io \<Rightarrow> Uid \<Rightarrow> trust_file \<Rightarrow> ErrorCode \<times> trust_file" where
  "addUid io uid f = storage_insert io uid f"

definition addUid_name :: "file_io \<Rightarrow> Uid \<Rightarrow> string \<Rightarrow> trust_file \<Rightarrow> ErrorCode \<times> trust_file" where
  "addUid_name io uid name f = (let (err, f) = storage_insert io uid f in if \<not> isNoError err then (err, f) else updateName io uid name f)"

definition getKnownUids :: "file_io \<Rightarrow> trust_file \<Rightarrow> ErrorCode \<times> (Uid \<times> string) list" where
  "getKnownUids io f = readAll io f"

definition removeUid :: "file_io \<Rightarrow> Uid \<Rightarrow> trust_file \<Rightarrow> (ErrorCode \<times> trust_file) option" where
  "removeUid io uid f = storage_remove io uid f"

definition clearList :: "file_io \<Rightarrow> trust_file \<Rightarrow> ErrorCode \<times> trust_file" where
  "clearList io f = storage_clear io f"

section \<open>What it means\<close>

text \<open>The devices that are trusted with their names, and who we are, of a file that can be read.\<close>

fun trust_view :: "trust_file \<Rightarrow> ((Uid \<times> string) set \<times> string option \<times> string option) option" where
  "trust_view (Parsed root) = Some (trusted_set root, our_uid root, our_name root)"
| "trust_view (Broken root) = None"

lemma finite_trusted [simp]: "finite (trusted_set root)"
  by (simp add: trusted_set_def split: option.split)

lemma trusted_with [simp]: "finite uids \<Longrightarrow> trusted_set (with_trusted uids root) = uids"
  by (simp add: trusted_set_def with_trusted_def)

lemma with_trusted_others [simp]: "our_uid (with_trusted uids root) = our_uid root" "our_name (with_trusted uids root) = our_name root"
  by (simp_all add: with_trusted_def)

lemma io_fine_simps [simp]:
  "io_fine io \<Longrightarrow> storage_write io root f = (NO_ERROR, Parsed root)" "io_fine io \<Longrightarrow> storage_read io (Parsed root) = (True, root)"
  by (simp_all add: storage_write_def storage_read_def io_fine_def)

lemma trusted_set_null [simp]: "trusted_set (root\<lparr>trusted := None\<rparr>) = {}" "trusted_set null_root = {}"
  by (simp_all add: trusted_set_def null_root_def)

lemma isKnownUid_view: "io_fine io \<Longrightarrow> isKnownUid io uid (Parsed root) \<longleftrightarrow> uid \<in> fst ` trusted_set root"
  by (simp add: isKnownUid_def readAll_def isNoError_def trusted_set_def split: option.split)

text \<open>The calls on the trusted devices as operations on a set of pairs.\<close>

datatype trust_op = AddUid Uid | AddUidName Uid string | ClearList

fun trust_exec :: "file_io \<Rightarrow> trust_op \<Rightarrow> trust_file \<Rightarrow> ErrorCode \<times> trust_file" where
  "trust_exec io (AddUid uid) f = addUid io uid f"
| "trust_exec io (AddUidName uid name) f = addUid_name io uid name f"
| "trust_exec io ClearList f = clearList io f"

fun trust_spec :: "trust_op \<Rightarrow> (Uid \<times> string) set \<Rightarrow> (Uid \<times> string) set" where
  "trust_spec (AddUid uid) t = insert (uid, '''') t"
| "trust_spec (AddUidName uid name) t = insert (uid, name) {x \<in> t. fst x \<noteq> uid}"
| "trust_spec ClearList t = {}"

lemma named_image:
  "insert (uid, name) ((\<lambda>(u, n). (u, if u = uid then name else n)) ` t) = insert (uid, name) {y \<in> t. fst y \<noteq> uid}"
  by (auto split: if_splits intro: rev_image_eqI)


section \<open>What does not work\<close>

text \<open>
  A device that is trusted can never be removed again, as the removal uses an iterator it has erased; only of
  devices that are not trusted the removal returns.
\<close>

theorem known_device_not_removed:
  assumes "io_fine io" and "trust_view f = Some (t, us)"
  shows "(removeUid io uid f = None) = (uid \<in> fst ` t) \<and> (uid \<notin> fst ` t \<longrightarrow> removeUid io uid f = Some (ERROR_UNKNOWN_UID, f))"
  using assms by (cases f) (auto simp: removeUid_def storage_remove_def)

text \<open>When the file can be written but not read, asking for our own identifier deletes all trusted devices.\<close>

lemma unreadable_file_forgets:
  assumes "\<not> io_in io" and "io_trunc io" and "io_write io"
  shows "getOurUid io new f = (new, Parsed (null_root\<lparr>our_uid := Some new\<rparr>))" and "trust_view (snd (getOurUid io new f)) = Some ({}, Some new, None)"
  using assms
  by (simp_all add: getOurUid_def storage_getOurUid_def storage_setOurUid_def storage_read_def storage_write_def isNoError_def null_root_def trusted_set_def)

text \<open>A device with a name that is added once more without one is there twice.\<close>

lemma added_twice:
  assumes "io_fine io"
  shows "trust_view (snd (addUid io uid (snd (addUid_name io uid name (Parsed null_root))))) = Some ({(uid, ''''), (uid, name)}, None, None)"
  using assms
  by (simp add: addUid_def storage_insert_def addUid_name_def updateName_def isNoError_def Let_def named_image) (simp add: null_root_def)

text \<open>The time comes back as long as it fits into an \<^verbatim>\<open>int\<close>.\<close>

lemma last_connection_roundtrip:
  assumes "io_fine io" and "sint timestamp < 2 ^ 31" and "- (2 ^ 31) \<le> sint timestamp"
  shows "storage_getLastConnection io (snd (storage_setLastConnection io uid timestamp f)) = (NO_ERROR, Some (uid, timestamp))"
proof -
  have "sint (ucast timestamp :: u32) = signed_take_bit 31 (uint timestamp)"
    by (simp add: signed_ucast_eq)
  also have "\<dots> = signed_take_bit 31 (sint timestamp)"
    by (rule bit_eqI) (simp add: bit_signed_take_bit_iff bit_uint_iff bit_sint_iff min_def)
  also have "\<dots> = sint timestamp"
    using assms(2,3) by (intro signed_take_bit_int_eq_self) simp_all
  finally have "scast (ucast timestamp :: u32) = timestamp"
    by (simp add: scast_eq)
  then show ?thesis
    using assms(1) by (simp add: storage_setLastConnection_def storage_getLastConnection_def)
qed

definition demo_io :: file_io where
  "demo_io = \<lparr>io_in = True, io_trunc = True, io_write = True, io_left = null_root\<rparr>"


theorem known_device_not_removed_witness:
  "removeUid demo_io ''phone'' (Parsed (null_root\<lparr>trusted := Some [(''phone'', ''mine'')]\<rparr>)) = None"
proof -
  have "io_fine demo_io" "trust_view (Parsed (null_root\<lparr>trusted := Some [(''phone'', ''mine'')]\<rparr>)) = Some ({(''phone'', ''mine'')}, None, None)"
    by (simp_all add: io_fine_def demo_io_def) (simp add: null_root_def trusted_set_def)
  from known_device_not_removed [OF this, of "''phone''"] show ?thesis
    by simp
qed

end
