(* ===== verification/Spec2Isabelle.thy ===== *)
theory Spec2Isabelle
  imports Prelude ByteOrder Frame Carrier QoS FramesQueue AgentBuffer Endpoints SourcePath TargetPath
    TransmitDispatcher IncomeDispatcher ChannelAllocator DataAccessor L1Registry L1Stub Link Handshake L1Faults
    ProfileBuffer IpcSocket IpcRequests TriggerQueue SystemState SystemStartup Watchdog
    ChannelMap Negotiator NegotiatorAgreement AgentProxy ProxyData ProxyThreads ClientAgent SupervisorTube TubeAllocation Timeouts PmpFrames StdMap PmpCore PmpSync Pim PimLife EventLoop PmpManager PmpRoles PmalFrames PmalSync AppLife AmpDatabase AmpLife AppStart TrustList
begin

text \<open>
  iviLink connects applications on two devices (a head unit and a phone or tablet) over one physical
  link. This development models the code that carries their data, and the processes around it, in the
  order in which bytes travel; the names of definitions are those of the code.

  \<^bold>\<open>The program and the theories that model its parts.\<close>
  Paths are relative to \<^verbatim>\<open>framework/\<close>; \<^verbatim>\<open>CA\<close> stands for
  \<^verbatim>\<open>components/ConnectivityAgent/generic\<close>.

  \<^item> \<^verbatim>\<open>Prelude\<close>, \<^verbatim>\<open>ByteOrder\<close>: the typedefs and constants of \<^verbatim>\<open>iviLink/include/common/Types.hpp\<close>, lemmas on
    lists and maps, integers in memory and network order (\<^verbatim>\<open>utils/misc/private/byteOrder.cpp\<close>).
  \<^item> \<^verbatim>\<open>Frame\<close>, \<^verbatim>\<open>Carrier\<close>: the HAL, \<^verbatim>\<open>CA/HAL/Frame.hpp\<close> and \<^verbatim>\<open>CCarrierAdapter.cpp\<close>: the frame and its bytes,
    sending, and the loop that finds frames in the received byte stream.
  \<^item> \<^verbatim>\<open>QoS\<close>, \<^verbatim>\<open>FramesQueue\<close>: the statistics (\<^verbatim>\<open>CA/L0/private/CQoS.cpp\<close>) and the queue of frames that wait for
    their acknowledgement (\<^verbatim>\<open>CTransmittedFramesQueue.cpp\<close>).
  \<^item> \<^verbatim>\<open>AgentBuffer\<close>, \<^verbatim>\<open>Endpoints\<close>, \<^verbatim>\<open>SourcePath\<close>, \<^verbatim>\<open>TargetPath\<close>: the objects \<^verbatim>\<open>CSource\<close>, \<^verbatim>\<open>CTarget\<close> of L0 and
    \<^verbatim>\<open>CSourceAgent\<close>, \<^verbatim>\<open>CTargetAgent\<close> of L1 in address maps, and the calls between them.
  \<^item> \<^verbatim>\<open>TransmitDispatcher\<close>, \<^verbatim>\<open>IncomeDispatcher\<close>, \<^verbatim>\<open>ChannelAllocator\<close>: the dispatchers of L0 with their
    registries and the round of the transmitting thread, \<^verbatim>\<open>L0Interface.cpp\<close> and \<^verbatim>\<open>CChannelAllocator.cpp\<close>.
  \<^item> \<^verbatim>\<open>DataAccessor\<close>, \<^verbatim>\<open>L1Registry\<close>, \<^verbatim>\<open>L1Stub\<close>: the message of clients and peers
    (\<^verbatim>\<open>CA/common/private/CDataAccessor.cpp\<close>) and every handler of \<^verbatim>\<open>CA/L1/private/L1InterfaceStub.cpp\<close>.
  \<^item> \<^verbatim>\<open>Link\<close>, \<^verbatim>\<open>Handshake\<close>, \<^verbatim>\<open>L1Faults\<close>: compositions of these: one channel between two agents as a step
    relation, the allocation protocol, and the runs in which the tables of L1 go wrong.
  \<^item> \<^verbatim>\<open>ProfileBuffer\<close>: the serialization buffer of \<^verbatim>\<open>libraries/ProfileLibrary/private/Buffer.cpp\<close>.
  \<^item> \<^verbatim>\<open>IpcSocket\<close>, \<^verbatim>\<open>IpcRequests\<close>: messages, requests and responses between the processes of one device
    (\<^verbatim>\<open>utils/ipc/private/CIpcSocket.cpp\<close>, \<^verbatim>\<open>CIpc.cpp\<close>).
  \<^item> \<^verbatim>\<open>TriggerQueue\<close>, \<^verbatim>\<open>SystemState\<close>, \<^verbatim>\<open>SystemStartup\<close>: the queue of \<^verbatim>\<open>libraries/TriggerQueue\<close> and the state machine of the
    system controller (\<^verbatim>\<open>components/SystemController/ssm\<close>), which starts the processes and guards the profiles.
  \<^item> \<^verbatim>\<open>Watchdog\<close>: the process that polls the others for heartbeats (\<^verbatim>\<open>components/SystemController/watchdog\<close>).
  \<^item> \<^verbatim>\<open>ChannelMap\<close>, \<^verbatim>\<open>Negotiator\<close>, \<^verbatim>\<open>NegotiatorAgreement\<close>: the channel supervisor: its map of channels, its watchdog, and the
    processes by which two devices agree on the identifier of a channel (\<^verbatim>\<open>components/ChannelSupervisor\<close>).
  \<^item> \<^verbatim>\<open>AgentProxy\<close>, \<^verbatim>\<open>ProxyData\<close>, \<^verbatim>\<open>ProxyThreads\<close>, \<^verbatim>\<open>ClientAgent\<close>: the client library of the agent
    (\<^verbatim>\<open>CA/common/private/CConnectivityAgentProxy.cpp\<close>), the data of its channels, the interleavings of its threads,
    and its composition with L1.
  \<^item> \<^verbatim>\<open>SupervisorTube\<close>, \<^verbatim>\<open>TubeAllocation\<close>: the profile's side of the channel supervisor (\<^verbatim>\<open>Tube\<close> and \<^verbatim>\<open>NegotiatorClient\<close>):
    its calls, the loop over attempts, the table of responses, composed with the negotiator and the agent's client library.
  \<^item> \<^verbatim>\<open>Timeouts\<close>: the timeout manager of \<^verbatim>\<open>utils/threads\<close>, as a step relation of its thread and the others.
  \<^item> \<^verbatim>\<open>PmpFrames\<close>, \<^verbatim>\<open>PmpCore\<close>, \<^verbatim>\<open>PmpSync\<close>: the profile manager (\<^verbatim>\<open>components/ProfileManager\<close>): its messages, its table of
    profiles, and the tables of two devices that follow each other.
  \<^item> \<^verbatim>\<open>Pim\<close>, \<^verbatim>\<open>PimLife\<close>: the instance manager: the registry of applications and the life of profile instances on both
    devices. \<^verbatim>\<open>StdMap\<close> holds the ordered maps that both use.
  \<^item> \<^verbatim>\<open>PmpManager\<close>, \<^verbatim>\<open>PmpRoles\<close>: the profile manager's component manager and waiting services, and the negotiation of
    roles between two devices.
  \<^item> \<^verbatim>\<open>EventLoop\<close>: the event handler of \<^verbatim>\<open>utils/eventHandler\<close>, as a step relation of its thread and the threads that push.
  \<^item> \<^verbatim>\<open>IpcBuffers\<close>, \<^verbatim>\<open>PmalFrames\<close>, \<^verbatim>\<open>PmalSync\<close>: the calls between an application and the profile manager of its device: the
    buffers of \<^verbatim>\<open>utils/ipc/helpers\<close>, every message of \<^verbatim>\<open>messageProtocols/ProfileManager_ApplicationLibrary\<close>, and the waiting
    for answers.
  \<^item> \<^verbatim>\<open>AppPim\<close>, \<^verbatim>\<open>AppServices\<close>, \<^verbatim>\<open>AppManager\<close>, \<^verbatim>\<open>AppSafety\<close>, \<^verbatim>\<open>AppLife\<close>: the application library
    (\<^verbatim>\<open>libraries/ApplicationLibrary\<close>): profile instances, services and their manager, the invariant of their pointers, and what
    loading, unloading and deaths do.
  \<^item> \<^verbatim>\<open>AmpDatabase\<close>, \<^verbatim>\<open>AmpFrames\<close>, \<^verbatim>\<open>AmpRequests\<close>, \<^verbatim>\<open>AmpLife\<close>: the application manager
    (\<^verbatim>\<open>components/ApplicationManager\<close>): its database, its messages with the profile manager and the applications
    (\<^verbatim>\<open>messageProtocols/ApplicationManager_*\<close>), its request handler and threads, and their runs.
  \<^item> \<^verbatim>\<open>AppStart\<close>: the thread that initialises an application, and the sessions that come before it is initialised.
  \<^item> \<^verbatim>\<open>TrustList\<close>: the list of trusted devices and its file (\<^verbatim>\<open>libraries/trust_list\<close>).

  \<^bold>\<open>State and operations.\<close>
  A C++ object is a record, and objects that are shared through pointers live in maps from addresses
  (\<^verbatim>\<open>Endpoints\<close>). The state of a layer is a record that extends the one of the layer below, so that an
  operation of L0 runs unchanged on a state of L1. An operation takes the state last and returns the
  new one; a failed assertion, a null pointer or a call that waits for ever is \<^verbatim>\<open>None\<close> (\<^verbatim>\<open>cassert\<close>), an error
  code is part of the result. Integers are words of their width. Every operation that the code
  protects by a mutex is one step; where it is not protected, the steps between its accesses are
  modelled (\<^verbatim>\<open>TriggerQueue\<close>).
  Operations of the platform are parameters: the carrier that sends an array of bytes and says whether it did
  (\<^verbatim>\<open>sendPreparedArray\<close>), the clock, the byte order of the host, the outcome of a socket call or a lock.

  \<^bold>\<open>What the lemmas show.\<close>
  Each theory proves the functional behaviour of its operations on every branch, an invariant of its state
  and that its operations keep it. The locales state what one component relies on: \<^verbatim>\<open>frame_sink\<close> is the layer above the
  receiving loop, \<^verbatim>\<open>target_client\<close> the agent above a target, \<^verbatim>\<open>codec\<close> a type of the profile
  buffer; each is interpreted on the definitions of the component that provides it. The properties, named
  C1, C2 and so on in the text before them, build on these lemmas: delivery in order on a link that loses,
  duplicates and reorders frames, independence of the frames from how the stream is cut into pieces,
  the life cycle of a channel, round trips of every coding, the end of retransmission, and, where the code
  does something its callers do not expect, a theorem that exhibits it.

  \<^bold>\<open>Bounds.\<close>
  A loop that the code leaves only under a condition has fuel. The retransmission loop needs more fuel than the queue has
  frames, because every round removes one or stops; the service loop of the socket needs one more than the bytes in its
  buffer, because every message takes at least one of them; two of the properties state that this suffices. Frame
  numbers are 32 bits wide and wrap; the properties of a link therefore bound a channel's life by \<^verbatim>\<open>2 ^ 32 - 2\<close>
  frames, which the step relation counts.

  \<^bold>\<open>Not modelled.\<close>
  Threads, locks and sockets themselves; the concrete carriers over TCP, Bluetooth and USB and the
  finders that discover peers; logging; floating point and wide strings of the profile buffer; the
  profile and service descriptions in XML files; the Android and iOS ports, sample applications, tests and vendored
  libraries. 
\<close>

end
